(* ===== verification/Sow_Prelude.thy ===== *)
theory Sow_Prelude
  imports Main "HOL-Library.Word" "HOL-Library.Char_ord" "HOL-Library.List_Lexorder"
    "HOL-Library.Sublist" "HOL-Library.Multiset"
begin

section \<open>Shared vocabulary of the development\<close>

text \<open>
  What every component of the model uses: Go strings as lists of bytes with the helper
  functions of Go's package \<open>strings\<close> that the sources call, decimal printing and reading
  (\<open>strconv\<close>, \<open>fmt\<close>), errors as values, and the sorting facts that replace Go's
  nondeterministic map iteration followed by a sort.

  A Go \<open>string\<close> is a \<^typ>\<open>string\<close>: a list of \<^typ>\<open>char\<close>, that is of bytes. Go compares
  strings bytewise; \<^theory_text>\<open>List_Lexorder\<close> over \<^theory_text>\<open>Char_ord\<close> is exactly that order, so
  \<open><\<close> on \<^typ>\<open>string\<close> below is Go's \<open><\<close>. A Go \<open>int64\<close> that is only compared and stored is
  an \<^typ>\<open>int\<close>; where a wrap-around or a range check matters a word or an explicit bound is used.
\<close>

named_theorems go_simps \<open>unfolding rules of the Go library functions\<close>

subsection \<open>Errors as values\<close>

text \<open>
  A Go error value is a message together with the sentinels it wraps by \<open>%w\<close>; callers only
  inspect it with \<open>errors.Is\<close>. The message is kept as the fixed part of the format string:
  the operands that \<open>fmt\<close> interpolates are never inspected by the code.
\<close>

datatype sentinel =
    ErrSchema | ErrNotFound | ErrExists | ErrConflict | ErrTransition | ErrLegacyLayout
  | ErrPoolPathConflict | ErrRejected | ErrIntegrity | ErrNotReady
  | ErrPackageReferenceNotFound | ErrConfig | ErrUsage

datatype go_error = GoError (error_sentinels: "sentinel list") (error_text: string)

type_synonym 'a result = "go_error + 'a"

definition errors_Is :: "go_error \<Rightarrow> sentinel \<Rightarrow> bool" where
  "errors_Is e s \<longleftrightarrow> s \<in> set (error_sentinels e)"

lemma errors_Is_GoError [simp]: "errors_Is (GoError ss m) s \<longleftrightarrow> s \<in> set ss"
  by (simp add: errors_Is_def)

definition plain_error :: "string \<Rightarrow> go_error" where
  "plain_error m = GoError [] m"

text \<open>\<open>if err != nil { return err }\<close> followed by the rest of the function body.\<close>

definition and_then :: "'e + 'a \<Rightarrow> ('a \<Rightarrow> 'e + 'b) \<Rightarrow> 'e + 'b" where
  "and_then r f = (case r of Inl e \<Rightarrow> Inl e | Inr a \<Rightarrow> f a)"

definition ensure :: "bool \<Rightarrow> 'e \<Rightarrow> 'e + unit" where
  "ensure b e = (if b then Inr () else Inl e)"

lemma and_then_simps [simp]:
  "and_then (Inl e) f = Inl e"
  "and_then (Inr a) f = f a"
  by (simp_all add: and_then_def)

lemma and_then_Inr_iff:
  "and_then r f = Inr b \<longleftrightarrow> (\<exists>a. r = Inr a \<and> f a = Inr b)"
  by (cases r) auto

lemma and_then_cong:
  "x = y \<Longrightarrow> (\<And>a. y = Inr a \<Longrightarrow> f a = g a) \<Longrightarrow> and_then x f = and_then y g"
  by (cases y) auto

lemma ensure_Inr_iff [simp]: "ensure b e = Inr u \<longleftrightarrow> b"
  by (simp add: ensure_def)

lemma ensure_Inl_iff [simp]: "ensure b e = Inl e' \<longleftrightarrow> \<not> b \<and> e' = e"
  by (auto simp: ensure_def)

lemma and_then_ensure_Inr [simp]:
  "and_then (ensure b e) f = Inr c \<longleftrightarrow> b \<and> f () = Inr c"
  by (auto simp: ensure_def)

text \<open>A loop over a slice whose body may return early with an error.\<close>

fun for_each :: "('s \<Rightarrow> 'a \<Rightarrow> 'e + 's) \<Rightarrow> 's \<Rightarrow> 'a list \<Rightarrow> 'e + 's" where
  "for_each f s [] = Inr s"
| "for_each f s (x # xs) = and_then (f s x) (\<lambda>s'. for_each f s' xs)"

lemma for_each_append:
  "for_each f s (xs @ ys) = and_then (for_each f s xs) (\<lambda>s'. for_each f s' ys)"
proof (induction xs arbitrary: s)
  case (Cons x xs)
  then show ?case by (cases "f s x") auto
qed simp

lemma for_each_invariant:
  assumes "for_each f s xs = Inr s'" and "P s"
    and "\<And>s x s''. x \<in> set xs \<Longrightarrow> P s \<Longrightarrow> f s x = Inr s'' \<Longrightarrow> P s''"
  shows "P s'"
  using assms
proof (induction xs arbitrary: s)
  case (Cons x xs)
  from Cons.prems(1) obtain t where t: "f s x = Inr t" "for_each f t xs = Inr s'"
    by (auto simp: and_then_Inr_iff)
  with Cons.prems(2,3) have "P t" by auto
  with t(2) Cons.prems(3) show ?case
    by (intro Cons.IH[of t]) auto
qed simp

subsection \<open>Strings\<close>

abbreviation HasPrefix :: "string \<Rightarrow> string \<Rightarrow> bool" where
  "HasPrefix s p \<equiv> prefix p s"

abbreviation HasSuffix :: "string \<Rightarrow> string \<Rightarrow> bool" where
  "HasSuffix s p \<equiv> suffix p s"

abbreviation Contains :: "string \<Rightarrow> string \<Rightarrow> bool" where
  "Contains s p \<equiv> sublist p s"

definition TrimPrefix :: "string \<Rightarrow> string \<Rightarrow> string" where
  "TrimPrefix s p = (if HasPrefix s p then drop (length p) s else s)"

definition TrimSuffix :: "string \<Rightarrow> string \<Rightarrow> string" where
  "TrimSuffix s p = (if HasSuffix s p then take (length s - length p) s else s)"

lemma TrimPrefix_append [simp]: "TrimPrefix (p @ s) p = s"
  by (simp add: TrimPrefix_def)

lemma TrimSuffix_append [simp]: "TrimSuffix (s @ p) p = s"
  by (auto simp: TrimSuffix_def suffix_def)

text \<open>\<open>strings.Split\<close> with a one-byte separator, and \<open>strings.Join\<close>.\<close>

fun Split :: "string \<Rightarrow> char \<Rightarrow> string list" where
  "Split [] c = [[]]"
| "Split (x # xs) c =
     (if x = c then [] # Split xs c
      else (case Split xs c of [] \<Rightarrow> [[x]] | y # ys \<Rightarrow> (x # y) # ys))"

fun Join :: "string list \<Rightarrow> string \<Rightarrow> string" where
  "Join [] sep = []"
| "Join [x] sep = x"
| "Join (x # y # ys) sep = x @ sep @ Join (y # ys) sep"

lemma Split_not_Nil [simp]: "Split s c \<noteq> []"
  by (induction s) (auto split: list.splits)

lemma Join_Cons_ne: "ys \<noteq> [] \<Longrightarrow> Join (x # ys) sep = x @ sep @ Join ys sep"
  by (cases ys) auto

lemma Join_Split [simp]: "Join (Split s c) [c] = s"
proof (induction s)
  case (Cons x xs)
  then obtain y ys where y: "Split xs c = y # ys" by (cases "Split xs c") auto
  show ?case
  proof (cases "x = c")
    case True
    with Cons y show ?thesis by (simp add: Join_Cons_ne)
  next
    case False
    with Cons y show ?thesis by (cases ys) auto
  qed
qed simp

lemma Split_no_sep: "c \<notin> set s \<Longrightarrow> Split s c = [s]"
  by (induction s) auto

lemma Split_append: "c \<notin> set s \<Longrightarrow> Split (s @ c # t) c = s # Split t c"
  by (induction s) auto

text \<open>\<open>strings.Cut\<close> at the first occurrence of a one-byte separator.\<close>

fun Cut :: "string \<Rightarrow> char \<Rightarrow> string \<times> string \<times> bool" where
  "Cut [] c = ([], [], False)"
| "Cut (x # xs) c =
     (if x = c then ([], xs, True) else (case Cut xs c of (a, b, f) \<Rightarrow> (x # a, b, f)))"

lemma Cut_found: "Cut s c = (a, b, True) \<Longrightarrow> s = a @ c # b \<and> c \<notin> set a"
  by (induction s arbitrary: a b) (auto split: if_splits prod.splits)

lemma Cut_not_found: "Cut s c = (a, b, False) \<Longrightarrow> a = s \<and> b = [] \<and> c \<notin> set s"
  by (induction s arbitrary: a b) (auto split: if_splits prod.splits)

text \<open>
  \<open>strings.ToLower\<close> and \<open>strings.ToUpper\<close> on ASCII text. The model's strings are ASCII where
  the sources fold case: pool paths, key fingerprints and version tags are restricted to ASCII
  by the validators that run first.
\<close>

definition is_upper :: "char \<Rightarrow> bool" where
  "is_upper c \<longleftrightarrow> CHR ''A'' \<le> c \<and> c \<le> CHR ''Z''"

definition is_lower :: "char \<Rightarrow> bool" where
  "is_lower c \<longleftrightarrow> CHR ''a'' \<le> c \<and> c \<le> CHR ''z''"

definition is_digit :: "char \<Rightarrow> bool" where
  "is_digit c \<longleftrightarrow> CHR ''0'' \<le> c \<and> c \<le> CHR ''9''"

definition is_letter :: "char \<Rightarrow> bool" where
  "is_letter c \<longleftrightarrow> is_upper c \<or> is_lower c"

definition lower_char :: "char \<Rightarrow> char" where
  "lower_char c = (if is_upper c then char_of (of_char c + 32 :: nat) else c)"

definition upper_char :: "char \<Rightarrow> char" where
  "upper_char c = (if is_lower c then char_of (of_char c - 32 :: nat) else c)"

definition ToLower :: "string \<Rightarrow> string" where
  "ToLower s = map lower_char s"

definition ToUpper :: "string \<Rightarrow> string" where
  "ToUpper s = map upper_char s"

lemma is_upper_bounds: "is_upper c \<longleftrightarrow> 65 \<le> (of_char c :: nat) \<and> (of_char c :: nat) \<le> 90"
  by (simp add: is_upper_def less_eq_char_def)

lemma is_lower_bounds: "is_lower c \<longleftrightarrow> 97 \<le> (of_char c :: nat) \<and> (of_char c :: nat) \<le> 122"
  by (simp add: is_lower_def less_eq_char_def)

lemma is_digit_bounds: "is_digit c \<longleftrightarrow> 48 \<le> (of_char c :: nat) \<and> (of_char c :: nat) \<le> 57"
  by (simp add: is_digit_def less_eq_char_def)

lemma of_char_lower_char:
  "(of_char (lower_char c) :: nat) = (if is_upper c then of_char c + 32 else of_char c)"
  by (simp add: lower_char_def is_upper_bounds)

lemma lower_char_not_upper [simp]: "\<not> is_upper (lower_char c)"
  by (simp add: is_upper_bounds of_char_lower_char)

lemma lower_char_idem [simp]: "lower_char (lower_char c) = lower_char c"
  by (subst lower_char_def) simp

lemma ToLower_idem [simp]: "ToLower (ToLower s) = ToLower s"
  by (simp add: ToLower_def)

lemma ToLower_append [simp]: "ToLower (s @ t) = ToLower s @ ToLower t"
  by (simp add: ToLower_def)

lemma length_ToLower [simp]: "length (ToLower s) = length s"
  by (simp add: ToLower_def)

subsection \<open>Decimal numerals\<close>

definition digit_char :: "nat \<Rightarrow> char" where
  "digit_char d = char_of (48 + d)"

definition digit_val :: "char \<Rightarrow> nat" where
  "digit_val c = of_char c - 48"

fun decimal :: "nat \<Rightarrow> string" where
  "decimal n = (if n < 10 then [digit_char n] else decimal (n div 10) @ [digit_char (n mod 10)])"

declare decimal.simps [simp del]

definition pad_zero :: "nat \<Rightarrow> string \<Rightarrow> string" where
  "pad_zero w s = replicate (w - length s) CHR ''0'' @ s"

definition dec_value :: "string \<Rightarrow> nat" where
  "dec_value s = foldl (\<lambda>a c. 10 * a + digit_val c) 0 s"

abbreviation all_digits :: "string \<Rightarrow> bool" where
  "all_digits s \<equiv> list_all is_digit s"

lemma of_char_digit_char [simp]: "d < 10 \<Longrightarrow> (of_char (digit_char d) :: nat) = 48 + d"
  by (simp add: digit_char_def)

lemma digit_val_digit_char [simp]: "d < 10 \<Longrightarrow> digit_val (digit_char d) = d"
  by (simp add: digit_val_def)

lemma is_digit_digit_char [simp]: "d < 10 \<Longrightarrow> is_digit (digit_char d)"
  by (simp add: is_digit_bounds)

lemma digit_val_less: "is_digit c \<Longrightarrow> digit_val c < 10"
  by (auto simp: is_digit_bounds digit_val_def)

lemma digit_val_order:
  "is_digit c \<Longrightarrow> is_digit d \<Longrightarrow> digit_val c < digit_val d \<longleftrightarrow> c < d"
  by (auto simp: is_digit_bounds digit_val_def less_char_def)

lemma digit_val_inj: "is_digit c \<Longrightarrow> is_digit d \<Longrightarrow> digit_val c = digit_val d \<longleftrightarrow> c = d"
  by (metis digit_val_order less_irrefl linorder_neqE)

lemma digit_val_zero [simp]: "digit_val CHR ''0'' = 0"
  by (simp add: digit_val_def)

lemma dec_value_Nil [simp]: "dec_value [] = 0"
  by (simp add: dec_value_def)

lemma dec_value_snoc [simp]: "dec_value (s @ [c]) = 10 * dec_value s + digit_val c"
  by (simp add: dec_value_def)

lemma dec_value_Cons: "dec_value (c # s) = digit_val c * 10 ^ length s + dec_value s"
proof (induction s rule: rev_induct)
  case Nil
  show ?case by (simp add: dec_value_def)
next
  case (snoc d s)
  have "dec_value (c # s @ [d]) = 10 * dec_value (c # s) + digit_val d"
    using dec_value_snoc[of "c # s" d] by simp
  with snoc show ?case by (simp add: algebra_simps)
qed

lemma dec_value_less: "all_digits s \<Longrightarrow> dec_value s < 10 ^ length s"
proof (induction s rule: rev_induct)
  case (snoc c s)
  then have "dec_value s < 10 ^ length s" "digit_val c < 10"
    by (auto dest: digit_val_less)
  then show ?case by simp
qed simp

lemma decimal_digits: "all_digits (decimal n)"
proof (induction n rule: decimal.induct)
  case (1 n)
  then show ?case by (cases "n < 10") (auto simp: decimal.simps[of n])
qed

lemma dec_value_decimal [simp]: "dec_value (decimal n) = n"
proof (induction n rule: decimal.induct)
  case (1 n)
  then show ?case
    by (cases "n < 10") (auto simp: decimal.simps[of n] dec_value_Cons)
qed

lemma decimal_ne [simp]: "decimal n \<noteq> []"
  by (subst decimal.simps) simp

lemma length_decimal_le: "n < 10 ^ w \<Longrightarrow> 0 < w \<Longrightarrow> length (decimal n) \<le> w"
proof (induction n arbitrary: w rule: decimal.induct)
  case (1 n)
  show ?case
  proof (cases "n < 10")
    case True
    with "1.prems" show ?thesis by (simp add: decimal.simps[of n])
  next
    case False
    with "1.prems" obtain v where w: "w = Suc v" and v: "0 < v"
      by (cases w; cases "w - 1") auto
    from "1.prems"(1) w have "n div 10 < 10 ^ v" by (simp add: div_less_iff_less_mult algebra_simps)
    with "1.IH"[OF False, of v] v have "length (decimal (n div 10)) \<le> v" by simp
    with False w show ?thesis by (simp add: decimal.simps[of n])
  qed
qed

lemma dec_value_zeros [simp]: "dec_value (replicate k CHR ''0'' @ s) = dec_value s"
  by (induction k) (simp_all add: dec_value_Cons)

lemma dec_value_pad_zero [simp]: "dec_value (pad_zero w s) = dec_value s"
  by (simp add: pad_zero_def)

lemma length_pad_zero [simp]: "length (pad_zero w s) = max w (length s)"
  by (simp add: pad_zero_def)

lemma digits_pad_zero: "all_digits s \<Longrightarrow> all_digits (pad_zero w s)"
  by (auto simp: pad_zero_def list_all_iff is_digit_def)

text \<open>Fixed-width numerals: bytewise order is numeric order.\<close>

lemma dec_value_less_iff:
  assumes "length s = length t" "all_digits s" "all_digits t"
  shows "s < t \<longleftrightarrow> dec_value s < dec_value t"
  using assms
proof (induction s t rule: list_induct2)
  case (Cons c s d t)
  let ?m = "10 ^ length s :: nat"
  from Cons.prems have dig: "is_digit c" "is_digit d" "all_digits s" "all_digits t" by auto
  then have bs: "dec_value s < ?m" and bt: "dec_value t < ?m"
    using dec_value_less[of s] dec_value_less[of t] Cons.hyps by auto
  consider "c < d" | "c = d" | "d < c" by (rule linorder_cases)
  then show ?case
  proof cases
    case 1
    then have "digit_val c + 1 \<le> digit_val d" using dig digit_val_order[of c d] by simp
    then have "(digit_val c + 1) * ?m \<le> digit_val d * ?m" by (rule mult_le_mono1)
    with bs 1 Cons.hyps show ?thesis by (simp add: dec_value_Cons)
  next
    case 2
    with Cons dig show ?thesis by (simp add: dec_value_Cons)
  next
    case 3
    then have "digit_val d + 1 \<le> digit_val c" using dig digit_val_order[of d c] by simp
    then have "(digit_val d + 1) * ?m \<le> digit_val c * ?m" by (rule mult_le_mono1)
    with bt 3 Cons.hyps show ?thesis by (auto simp: dec_value_Cons)
  qed
qed simp

lemma dec_value_inj:
  assumes "length s = length t" "all_digits s" "all_digits t" "dec_value s = dec_value t"
  shows "s = t"
  using dec_value_less_iff[OF assms(1-3)] dec_value_less_iff[of t s] assms
  by (metis linorder_neqE less_irrefl)

lemma pad_zero_decimal_dec_value:
  assumes "all_digits s" "length s = w" "0 < w"
  shows "pad_zero w (decimal (dec_value s)) = s"
proof (rule dec_value_inj)
  have "length (decimal (dec_value s)) \<le> w"
    using dec_value_less[OF assms(1)] assms(2,3) by (intro length_decimal_le) simp_all
  then show "length (pad_zero w (decimal (dec_value s))) = length s"
    using assms(2) by simp
qed (use assms in \<open>simp_all add: digits_pad_zero decimal_digits\<close>)

text \<open>
  \<open>strconv.ParseUint(s, 10, bits)\<close>: a non-empty string of decimal digits whose value fits.
\<close>

datatype num_error = ErrSyntax | ErrRange

definition ParseUint :: "string \<Rightarrow> nat \<Rightarrow> num_error + nat" where
  "ParseUint s bits =
     (if s = [] \<or> \<not> all_digits s then Inl ErrSyntax
      else if dec_value s < 2 ^ bits then Inr (dec_value s) else Inl ErrRange)"

text \<open>\<open>strconv.ParseInt(s, 10, bits)\<close>: an optional sign, then digits, in the signed range.\<close>

definition ParseInt :: "string \<Rightarrow> nat \<Rightarrow> num_error + int" where
  "ParseInt s bits =
     (let neg = (s \<noteq> [] \<and> hd s = CHR ''-'');
          t = (if s \<noteq> [] \<and> (hd s = CHR ''-'' \<or> hd s = CHR ''+'') then tl s else s)
      in if t = [] \<or> \<not> all_digits t then Inl ErrSyntax
         else if neg then (if dec_value t \<le> 2 ^ (bits - 1) then Inr (- int (dec_value t)) else Inl ErrRange)
         else if dec_value t < 2 ^ (bits - 1) then Inr (int (dec_value t)) else Inl ErrRange)"

lemma nat_pow_less_int: "n < 2 ^ k \<Longrightarrow> int n < 2 ^ k"
  by (metis of_nat_less_iff of_nat_numeral of_nat_power)

lemma nat_pow_le_int: "n \<le> 2 ^ k \<Longrightarrow> int n \<le> 2 ^ k"
  by (metis of_nat_le_iff of_nat_numeral of_nat_power)

lemma pow2_signed:
  "dec_value t \<le> 2 ^ k \<Longrightarrow> - (2 ^ k) \<le> - int (dec_value t) \<and> - int (dec_value t) < 2 ^ k"
  "dec_value t < 2 ^ k \<Longrightarrow> - (2 ^ k) \<le> int (dec_value t) \<and> int (dec_value t) < 2 ^ k"
proof -
  have pos: "(0::int) < 2 ^ k" by simp
  show "- (2 ^ k) \<le> - int (dec_value t) \<and> - int (dec_value t) < 2 ^ k" if "dec_value t \<le> 2 ^ k"
    using nat_pow_le_int[OF that] pos by linarith
  show "- (2 ^ k) \<le> int (dec_value t) \<and> int (dec_value t) < 2 ^ k" if "dec_value t < 2 ^ k"
    using nat_pow_less_int[OF that] pos by linarith
qed

lemma ParseInt_bounds:
  assumes "ParseInt s bits = Inr n"
  shows "- (2 ^ (bits - 1)) \<le> n \<and> n < 2 ^ (bits - 1)"
  using assms unfolding ParseInt_def Let_def
  by (simp split: if_splits add: pow2_signed; use pow2_signed in blast)

subsection \<open>Sorting and map iteration\<close>

text \<open>
  Go visits the entries of a map in an unspecified order. Where the code then sorts by a key that
  separates the entries, the order of the visit cannot be observed.
\<close>

lemma sort_key_mset_eq:
  assumes "mset xs = mset ys" and "distinct (map f xs)"
  shows "sort_key f xs = sort_key f ys"
proof -
  have ms: "mset (map f (sort_key f xs)) = mset (map f (sort_key f ys))"
    using assms(1) by simp
  have "map f (sort_key f xs) = map f (sort_key f ys)"
    by (metis ms properties_for_sort sorted_sort_key)
  moreover have "inj_on f (set (sort_key f xs) \<union> set (sort_key f ys))"
    using assms mset_eq_setD[OF assms(1)] by (simp add: distinct_map)
  ultimately show ?thesis by (simp add: inj_on_map_eq_map)
qed

lemma mset_concat_map: "mset xs = mset ys \<Longrightarrow> mset (concat (map f xs)) = mset (concat (map f ys))"
  by (metis mset_concat mset_map sum_mset_sum_list)

lemma sorted_distinct_adj:
  "sorted (xs :: 'a::linorder list) \<Longrightarrow> distinct_adj xs \<longleftrightarrow> distinct xs"
proof (induction xs rule: induct_list012)
  case (3 x y zs)
  then show ?case by (auto simp: order.order_iff_strict)
qed simp_all

lemma distinct_adj_Cons_ne: "distinct_adj xs \<Longrightarrow> a \<notin> set xs \<Longrightarrow> distinct_adj (a # xs)"
  by (cases xs) auto

lemma distinct_distinct_adj: "distinct xs \<Longrightarrow> distinct_adj xs"
  by (induction xs rule: induct_list012) auto

lemma distinct_map_sort_key: "distinct (map f (sort_key g xs)) \<longleftrightarrow> distinct (map f xs)"
  by (simp add: distinct_map)

end
