(* ===== verification/Sow_Codec.thy ===== *)
theory Sow_Codec
  imports Sow_Prelude
begin

section \<open>Interfaces shared by several components\<close>

text \<open>
  Two contracts recur in the repository. A codec prints a value and reads it back; a canonical
  codec also accepts no second spelling, which is what makes durable text comparable by bytes.
  A transition system has a one-step relation on phases and terminal phases that nothing
  leaves; a history is the list of the phases an object went through.
\<close>

subsection \<open>Codecs\<close>

locale codec =
  fixes enc :: "'a \<Rightarrow> 'b"
    and dec :: "'b \<Rightarrow> 'e + 'a"
  assumes dec_enc: "dec (enc x) = Inr x"
begin

lemma enc_inj: "enc x = enc y \<Longrightarrow> x = y"
  by (metis dec_enc Inr_inject)

lemma enc_eq_iff: "enc x = enc y \<longleftrightarrow> x = y"
  by (auto dest: enc_inj)

end

locale canonical_codec = codec +
  assumes enc_dec: "dec b = Inr x \<Longrightarrow> enc x = b"
begin

lemma dec_iff: "dec b = Inr x \<longleftrightarrow> b = enc x"
  using dec_enc enc_dec by blast

lemma dec_unique: "dec b = Inr x \<Longrightarrow> dec c = Inr x \<Longrightarrow> b = c"
  by (auto simp: dec_iff)

end

subsection \<open>Phase machines\<close>

locale phase_machine =
  fixes can :: "'s \<Rightarrow> 's \<Rightarrow> bool"
    and terminal :: "'s \<Rightarrow> bool"
  assumes terminal_stuck: "terminal s \<Longrightarrow> \<not> can s t"
begin

text \<open>A history is legal when every two neighbours are a permitted step or equal.\<close>

fun legal :: "'s list \<Rightarrow> bool" where
  "legal [] = True"
| "legal [s] = True"
| "legal (s # t # ts) = ((s = t \<or> can s t) \<and> legal (t # ts))"

lemma legal_snoc: "legal (xs @ [t]) \<longleftrightarrow> legal xs \<and> (xs = [] \<or> last xs = t \<or> can (last xs) t)"
proof (induction xs rule: legal.induct)
  case (3 s t' ts)
  then show ?case by (cases ts) auto
qed auto

lemma legal_after_terminal:
  assumes "legal (s # ts)" and "terminal s" and "t \<in> set ts"
  shows "t = s"
  using assms
proof (induction ts arbitrary: s)
  case (Cons u us)
  from Cons.prems have "u = s" using terminal_stuck by auto
  with Cons show ?case by auto
qed simp

lemma legal_drop: "legal xs \<Longrightarrow> legal (drop n xs)"
proof (induction xs arbitrary: n rule: legal.induct)
  case (3 s t ts)
  then show ?case by (cases n) auto
qed (auto simp: drop_Cons')

text \<open>A legal history passes through a terminal phase only at its end.\<close>

theorem terminal_is_last:
  assumes "legal xs" and "i < length xs" and "terminal (xs ! i)" and "i \<le> j" and "j < length xs"
  shows "xs ! j = xs ! i"
proof (cases "i = j")
  case False
  have eq: "drop i xs = xs ! i # drop (Suc i) xs"
    using assms(2) by (rule Cons_nth_drop_Suc[symmetric])
  have "legal (xs ! i # drop (Suc i) xs)"
    using legal_drop[OF assms(1), of i] eq by simp
  moreover have "drop (Suc i) xs ! (j - Suc i) = xs ! j"
    using False assms(4,5) by simp
  moreover have "j - Suc i < length (drop (Suc i) xs)"
    using False assms(4,5) by simp
  ultimately show ?thesis
    using legal_after_terminal assms(3) nth_mem by metis
qed simp

end

end
