(* ===== verification/Generation_Id.thy ===== *)
theory Generation_Id
  imports Sow_Codec
begin

section \<open>Generation identifiers (\<open>internal/v2/state/generation_id.go\<close>)\<close>

text \<open>
  A generation is an unsigned 64-bit counter whose durable spelling is exactly twenty
  zero-padded decimal digits, so that SQLite's bytewise TEXT order is the numeric order.
  The model keeps the width (\<^typ>\<open>64 word\<close>), the spelling, its parser, the successor with its
  overflow error and the SQL scanner with its legacy INTEGER branch.
\<close>

subsection \<open>Definitions\<close>

type_synonym GenerationID = "64 word"

definition generationIDWidth :: nat where
  "generationIDWidth = 20"

definition ZeroGeneration :: GenerationID where
  "ZeroGeneration = 0"

definition MaxGeneration :: GenerationID where
  "MaxGeneration = - 1"

definition ParseGenerationID :: "string \<Rightarrow> GenerationID result" where
  "ParseGenerationID value =
     (if length value \<noteq> generationIDWidth
      then Inl (plain_error ''generation ID must be exactly 20 decimal digits'')
      else if \<not> all_digits value
      then Inl (plain_error ''generation ID contains a non-decimal byte'')
      else case ParseUint value 64 of
             Inl e \<Rightarrow> Inl (plain_error ''generation ID is outside uint64'')
           | Inr parsed \<Rightarrow> Inr (of_nat parsed))"

definition GenerationString :: "GenerationID \<Rightarrow> string" where
  "GenerationString generation = pad_zero generationIDWidth (decimal (unat generation))"

definition GenerationNext :: "GenerationID \<Rightarrow> GenerationID result" where
  "GenerationNext generation =
     (if generation = MaxGeneration
      then Inl (plain_error ''repository generation exhausted uint64'')
      else Inr (generation + 1))"

text \<open>
  The pointer receiver of the three readers is an optional current value: \<open>None\<close> is the nil
  receiver, and on success the stored value is replaced.
\<close>

definition GenerationMarshalText :: "GenerationID \<Rightarrow> string" where
  "GenerationMarshalText generation = GenerationString generation"

definition GenerationUnmarshalText ::
  "GenerationID option \<Rightarrow> string \<Rightarrow> GenerationID result" where
  "GenerationUnmarshalText receiver data =
     (case receiver of
        None \<Rightarrow> Inl (plain_error ''nil GenerationID receiver'')
      | Some _ \<Rightarrow> ParseGenerationID data)"

text \<open>What a SQLite driver hands to \<open>Scan\<close>: TEXT, BLOB, a signed 64-bit INTEGER, or another
  dynamic type.\<close>

datatype sql_value = SqlText string | SqlBytes string | SqlInteger "64 word" | SqlOther

definition GenerationValue :: "GenerationID \<Rightarrow> sql_value" where
  "GenerationValue generation = SqlText (GenerationString generation)"

definition GenerationScan :: "GenerationID option \<Rightarrow> sql_value \<Rightarrow> GenerationID result" where
  "GenerationScan receiver source =
     (case receiver of
        None \<Rightarrow> Inl (plain_error ''nil GenerationID receiver'')
      | Some _ \<Rightarrow>
          (case source of
             SqlText value \<Rightarrow> ParseGenerationID value
           | SqlBytes value \<Rightarrow> ParseGenerationID value
           | SqlInteger typed \<Rightarrow>
               (if sint typed < 0
                then Inl (plain_error ''generation ID has negative legacy INTEGER value'')
                else Inr typed)
           | SqlOther \<Rightarrow> Inl (plain_error ''generation ID has non-TEXT SQLite type'')))"

subsection \<open>Spelling\<close>

lemma unat_generation_less: "unat (g :: GenerationID) < 10 ^ 20"
proof -
  have "unat g < 2 ^ 64" using unsigned_less[of g] by simp
  then show ?thesis by simp
qed

lemma length_GenerationString [simp]: "length (GenerationString g) = 20"
  using length_decimal_le[OF unat_generation_less[of g]]
  by (simp add: GenerationString_def generationIDWidth_def)

lemma GenerationString_digits [simp]: "all_digits (GenerationString g)"
  by (simp add: GenerationString_def digits_pad_zero decimal_digits)

lemma dec_value_GenerationString [simp]: "dec_value (GenerationString g) = unat g"
  by (simp add: GenerationString_def)

lemma ParseGenerationID_String: "ParseGenerationID (GenerationString g) = Inr g"
proof -
  have ne: "GenerationString g \<noteq> []" using length_GenerationString[of g] by force
  have "ParseUint (GenerationString g) 64 = Inr (unat g)"
    using ne unsigned_less[of g] by (simp add: ParseUint_def)
  then show ?thesis by (simp add: ParseGenerationID_def generationIDWidth_def)
qed

lemma ParseGenerationID_Inr:
  "ParseGenerationID s = Inr g \<longleftrightarrow>
     length s = 20 \<and> all_digits s \<and> dec_value s < 2 ^ 64 \<and> g = of_nat (dec_value s)"
  by (auto simp: ParseGenerationID_def ParseUint_def generationIDWidth_def)

lemma String_ParseGenerationID:
  assumes "ParseGenerationID s = Inr g"
  shows "GenerationString g = s"
proof -
  from assms have s: "length s = 20" "all_digits s" "dec_value s < 2 ^ 64"
    and g: "g = of_nat (dec_value s)" by (simp_all add: ParseGenerationID_Inr)
  from s(3) g have "unat g = dec_value s" by (simp add: unat_of_nat)
  with s(1,2) show ?thesis
    by (simp add: GenerationString_def generationIDWidth_def pad_zero_decimal_dec_value)
qed

interpretation gen_text: canonical_codec GenerationString ParseGenerationID
  by unfold_locales (simp_all add: ParseGenerationID_String String_ParseGenerationID)

interpretation gen_sql: codec GenerationValue "GenerationScan (Some g0)" for g0
  by unfold_locales (simp add: GenerationValue_def GenerationScan_def ParseGenerationID_String)

lemma GenerationString_less_iff: "GenerationString g < GenerationString h \<longleftrightarrow> g < h"
  by (subst dec_value_less_iff) (simp_all add: word_less_nat_alt)

lemma GenerationString_le_iff: "GenerationString g \<le> GenerationString h \<longleftrightarrow> g \<le> h"
  by (simp add: GenerationString_less_iff flip: not_less)

lemma GenerationNext_Inr:
  "GenerationNext g = Inr h \<longleftrightarrow> g \<noteq> MaxGeneration \<and> unat h = Suc (unat g)"
proof -
  have "unat (g + 1) = Suc (unat g)" if "g \<noteq> - 1"
    using that by (metis add.commute eq_neg_iff_add_eq_0 unatSuc)
  then show ?thesis
    by (auto simp: GenerationNext_def MaxGeneration_def word_unat_eq_iff)
qed

subsection \<open>What the identifiers guarantee\<close>

text \<open>C34. The durable spelling of a generation is canonical and ordered: the parser accepts exactly the
  spelling of the value it returns, and comparing two spellings as bytes compares the numbers.\<close>

theorem generation_text_canonical:
  "(ParseGenerationID s = Inr g \<longleftrightarrow> s = GenerationString g)
   \<and> (GenerationString g < GenerationString h \<longleftrightarrow> g < h)
   \<and> GenerationScan (Some k) (GenerationValue g) = Inr g
   \<and> GenerationUnmarshalText (Some k) (GenerationMarshalText g) = Inr g"
  using gen_text.dec_iff gen_sql.dec_enc gen_text.dec_enc GenerationString_less_iff
  by (auto simp: GenerationUnmarshalText_def GenerationMarshalText_def)

text \<open>C35. The successor of a generation never wraps: it is the next number, it fails exactly at the
  largest value, and the new spelling is the least one above the old.\<close>

theorem generation_next_exact:
  "(GenerationNext g = Inr h \<longleftrightarrow> unat h = Suc (unat g))
   \<and> ((\<exists>e. GenerationNext g = Inl e) \<longleftrightarrow> g = MaxGeneration)
   \<and> \<not> (GenerationNext g = Inr h \<and> GenerationString g < GenerationString k \<and> GenerationString k < GenerationString h)"
proof -
  have "g \<noteq> MaxGeneration" if "unat h = Suc (unat g)"
  proof
    assume "g = MaxGeneration"
    then have "unat g = 2 ^ 64 - 1"
      by (simp add: MaxGeneration_def unsigned_minus_1_eq_mask mask_eq_exp_minus_1)
    with that unsigned_less[of h, where ?'a = nat] show False by simp
  qed
  then show ?thesis
    by (auto simp: GenerationNext_Inr GenerationString_less_iff word_less_nat_alt)
      (auto simp: GenerationNext_def split: if_splits)
qed

text \<open>Scanning a column accepts the legacy INTEGER domain exactly where the number is not negative, and
  then keeps its value; every other column value must be the canonical spelling.\<close>

theorem generation_scan_exact:
  "(GenerationScan (Some k) v = Inr g) \<longleftrightarrow>
     (v = SqlText (GenerationString g) \<or> v = SqlBytes (GenerationString g)
      \<or> (\<exists>i. v = SqlInteger i \<and> 0 \<le> sint i \<and> int (unat g) = sint i))"
proof (cases v)
  case (SqlInteger i)
  have "int (unat g) = sint i \<longleftrightarrow> g = i" if "0 \<le> sint i"
  proof -
    have "uint i = take_bit 64 (sint i)" using uint_sint[of i] by simp
    also have "\<dots> = sint i" using that sint_lt[of i] by (intro take_bit_int_eq_self) simp_all
    finally have "sint i = uint i" ..
    then show ?thesis by (metis uint_nat word_uint_eq_iff)
  qed
  with SqlInteger show ?thesis by (auto simp: GenerationScan_def)
qed (auto simp: GenerationScan_def gen_text.dec_iff)

end
