(* ===== verification/Go_Path.thy ===== *)
theory Go_Path
  imports Sow_Prelude
begin

section \<open>Slash-separated paths (Go's package \<open>path\<close>)\<close>

text \<open>
  \<open>path.Clean\<close>, \<open>path.Base\<close> and \<open>path.Join\<close> as the sources use them on repository-relative
  names, with the facts that make \<open>path.Clean(p) == p\<close> a useful validator: what is left after
  the usual companion checks has only ordinary components.
\<close>

abbreviation slash :: char where
  "slash \<equiv> CHR ''/''"

text \<open>The elements that survive lexical cleaning; the accumulator is the output so far, reversed.\<close>

fun clean_elems :: "bool \<Rightarrow> string list \<Rightarrow> string list \<Rightarrow> string list" where
  "clean_elems rooted st [] = rev st"
| "clean_elems rooted st (e # es) =
     (if e = '''' \<or> e = ''.'' then clean_elems rooted st es
      else if e = ''..'' then
        (case st of
           [] \<Rightarrow> (if rooted then clean_elems rooted st es else clean_elems rooted [''..''] es)
         | x # xs \<Rightarrow> (if x = ''..'' then clean_elems rooted (''..'' # st) es
                     else clean_elems rooted xs es))
      else clean_elems rooted (e # st) es)"

definition path_Clean :: "string \<Rightarrow> string" where
  "path_Clean p =
     (if p = '''' then ''.''
      else let rooted = (hd p = slash);
               out = Join (clean_elems rooted [] (Split p slash)) ''/''
           in if rooted then slash # out else if out = '''' then ''.'' else out)"

text \<open>\<open>path.Base\<close>: strip trailing slashes, keep what follows the last slash.\<close>

definition path_Base :: "string \<Rightarrow> string" where
  "path_Base p =
     (if p = '''' then ''.''
      else let t = rev (dropWhile (\<lambda>c. c = slash) (rev p))
           in if t = '''' then ''/'' else rev (takeWhile (\<lambda>c. c \<noteq> slash) (rev t)))"

definition path_Join :: "string list \<Rightarrow> string" where
  "path_Join es = (let ne = filter (\<lambda>e. e \<noteq> '''') es in if ne = [] then '''' else path_Clean (Join ne ''/''))"

definition ContainsAny :: "string \<Rightarrow> char list \<Rightarrow> bool" where
  "ContainsAny s cs \<longleftrightarrow> list_ex (\<lambda>c. c \<in> set cs) s"

text \<open>An ordinary component: not empty, not a dot name.\<close>

definition normal_elem :: "string \<Rightarrow> bool" where
  "normal_elem e \<longleftrightarrow> e \<noteq> '''' \<and> e \<noteq> ''.'' \<and> e \<noteq> ''..''"

subsection \<open>Splitting and joining\<close>

lemma Split_elem_no_sep: "e \<in> set (Split s c) \<Longrightarrow> c \<notin> set e"
proof (induction s arbitrary: e)
  case (Cons x xs)
  then show ?case by (cases "Split xs c") (auto split: if_splits)
qed simp

lemma Split_Join:
  assumes "es \<noteq> []" and "list_all (\<lambda>e. c \<notin> set e) es"
  shows "Split (Join es [c]) c = es"
  using assms
proof (induction es rule: induct_list012)
  case (2 x)
  then show ?case by (simp add: Split_no_sep)
next
  case (3 x y zs)
  then show ?case by (simp add: Split_append)
qed simp

lemma clean_elems_source: "set (clean_elems r st es) \<subseteq> set st \<union> set es"
proof (induction es arbitrary: st)
  case (Cons e es)
  show ?case
    using Cons.IH[of st] Cons.IH[of "''..'' # st"] Cons.IH[of "[''..'']"]
      Cons.IH[of "tl st"] Cons.IH[of "e # st"]
    by (cases st) (auto split: if_splits)
qed simp

text \<open>The accumulator always is ordinary elements above a block of dot-dots.\<close>

definition clean_stack :: "bool \<Rightarrow> string list \<Rightarrow> bool" where
  "clean_stack r st \<longleftrightarrow>
     (\<exists>ns k. st = ns @ replicate k ''..'' \<and> list_all normal_elem ns \<and> (r \<longrightarrow> k = 0))"

lemma clean_stack_Nil [simp]: "clean_stack r []"
  by (auto simp: clean_stack_def)

lemma clean_stack_push: "clean_stack r st \<Longrightarrow> normal_elem e \<Longrightarrow> clean_stack r (e # st)"
  unfolding clean_stack_def by (metis append_Cons list.pred_inject(2))

lemma clean_stack_dotdot:
  assumes "clean_stack r (''..'' # st)"
  shows "clean_stack r (''..'' # ''..'' # st)"
proof -
  from assms obtain ns k where st: "''..'' # st = ns @ replicate k ''..''"
      and ns: "list_all normal_elem ns" and r: "r \<longrightarrow> k = 0"
    by (auto simp: clean_stack_def)
  have "ns = []" using st ns by (cases ns) (auto simp: normal_elem_def)
  with st r have "''..'' # ''..'' # st = [] @ replicate (Suc k) ''..''" "\<not> r" by auto
  then show ?thesis unfolding clean_stack_def by (metis list.pred_inject(1))
qed

lemma clean_stack_pop: "clean_stack r (x # xs) \<Longrightarrow> x \<noteq> ''..'' \<Longrightarrow> clean_stack r xs"
proof -
  assume "clean_stack r (x # xs)" and x: "x \<noteq> ''..''"
  then obtain ns k where st: "x # xs = ns @ replicate k ''..''"
      and ns: "list_all normal_elem ns" and r: "r \<longrightarrow> k = 0"
    by (auto simp: clean_stack_def)
  from st x obtain ms where "ns = x # ms" by (cases ns; cases k) auto
  with st ns r show "clean_stack r xs" by (auto simp: clean_stack_def)
qed

lemma clean_stack_one_dotdot: "clean_stack False [''..'']"
  unfolding clean_stack_def by (rule exI[of _ "[]"], rule exI[of _ 1]) simp

lemma clean_elems_stack: "clean_stack r st \<Longrightarrow> clean_stack r (rev (clean_elems r st es))"
proof (induction es arbitrary: st)
  case (Cons e es)
  consider (skip) "e = '''' \<or> e = ''.''" | (up) "e = ''..''" | (normal) "normal_elem e"
    by (auto simp: normal_elem_def)
  then show ?case
  proof cases
    case skip
    then have "clean_elems r st (e # es) = clean_elems r st es" by simp
    with Cons show ?thesis by simp
  next
    case up
    let ?st = "case st of [] \<Rightarrow> if r then [] else [''..'']
                | x # xs \<Rightarrow> if x = ''..'' then ''..'' # st else xs"
    have "clean_stack r ?st"
      using Cons.prems clean_stack_one_dotdot
      by (auto split: list.splits intro: clean_stack_dotdot dest: clean_stack_pop)
    moreover have "clean_elems r st (e # es) = clean_elems r ?st es"
      using up by (simp split: list.splits)
    ultimately show ?thesis by (simp add: Cons.IH)
  next
    case normal
    then have "clean_elems r st (e # es) = clean_elems r (e # st) es"
      by (simp add: normal_elem_def)
    with normal Cons show ?thesis by (simp add: clean_stack_push)
  qed
qed simp

text \<open>
  A path that is its own cleaning and passes the companion checks has only ordinary
  components, except for the single name \<open>..\<close>.
\<close>

theorem Clean_fixpoint_elems:
  assumes clean: "path_Clean p = p" and dot: "p \<noteq> ''.''"
    and abs: "\<not> HasPrefix p ''/''" and up: "\<not> HasPrefix p ''../''"
  shows "p = ''..'' \<or> list_all normal_elem (Split p slash)"
proof -
  let ?es = "clean_elems False [] (Split p slash)"
  have ne: "p \<noteq> ''''" using clean dot by (auto simp: path_Clean_def)
  have rooted: "hd p \<noteq> slash" using abs ne by (cases p) auto
  have pj: "p = Join ?es ''/''" and esne: "?es \<noteq> []"
    using clean dot ne rooted by (auto simp: path_Clean_def Let_def split: if_splits)
  have "list_all (\<lambda>e. slash \<notin> set e) ?es"
    using clean_elems_source[of False "[]" "Split p slash"] Split_elem_no_sep
    by (auto simp: list_all_iff)
  then have sp: "Split p slash = ?es"
    using Split_Join[OF esne] pj by metis
  obtain ns k where es: "?es = replicate k ''..'' @ rev ns" and ns: "list_all normal_elem ns"
    using clean_elems_stack[of False "[]" "Split p slash"]
    by (auto simp: clean_stack_def rev_swap rev_replicate)
  show ?thesis
  proof (cases k)
    case 0
    with sp es ns show ?thesis by (simp add: list_all_rev)
  next
    case (Suc m)
    show ?thesis
    proof (cases "replicate m ''..'' @ rev ns = []")
      case True
      with Suc es pj show ?thesis by simp
    next
      case False
      with Suc es pj have "p = ''../'' @ Join (replicate m ''..'' @ rev ns) ''/''"
        by (simp add: Join_Cons_ne)
      with up show ?thesis by (metis prefixI)
    qed
  qed
qed

end
