(* ===== verification/Sha256.thy ===== *)
theory Sha256
  imports Sow_Prelude
begin

section \<open>SHA-256 and hexadecimal text (Go's \<open>crypto/sha256\<close> and \<open>encoding/hex\<close>)\<close>

text \<open>
  The identity of every durable object of the repository is the lowercase hexadecimal SHA-256
  of some bytes. The hash is defined here as FIPS 180-4 has it, on 32-bit words, so that no
  property assumes more of it than what is proved: the theorems that need two digests to
  differ say so as a hypothesis on the digests.
\<close>

unbundle bit_operations_syntax

definition sha_k :: "32 word list" where
  "sha_k =
    [1116352408, 1899447441, 3049323471, 3921009573, 961987163, 1508970993, 2453635748, 2870763221,
     3624381080, 310598401, 607225278, 1426881987, 1925078388, 2162078206, 2614888103, 3248222580,
     3835390401, 4022224774, 264347078, 604807628, 770255983, 1249150122, 1555081692, 1996064986,
     2554220882, 2821834349, 2952996808, 3210313671, 3336571891, 3584528711, 113926993, 338241895,
     666307205, 773529912, 1294757372, 1396182291, 1695183700, 1986661051, 2177026350, 2456956037,
     2730485921, 2820302411, 3259730800, 3345764771, 3516065817, 3600352804, 4094571909, 275423344,
     430227734, 506948616, 659060556, 883997877, 958139571, 1322822218, 1537002063, 1747873779,
     1955562222, 2024104815, 2227730452, 2361852424, 2428436474, 2756734187, 3204031479, 3329325298]"

type_synonym sha_state = "32 word list"

definition sha_init :: sha_state where
  "sha_init = [1779033703, 3144134277, 1013904242, 2773480762, 1359893119, 2600822924, 528734635, 1541459225]"

definition sha_sig0 :: "32 word \<Rightarrow> 32 word" where
  "sha_sig0 x = word_rotr 7 x XOR word_rotr 18 x XOR drop_bit 3 x"

definition sha_sig1 :: "32 word \<Rightarrow> 32 word" where
  "sha_sig1 x = word_rotr 17 x XOR word_rotr 19 x XOR drop_bit 10 x"

definition sha_Sig0 :: "32 word \<Rightarrow> 32 word" where
  "sha_Sig0 x = word_rotr 2 x XOR word_rotr 13 x XOR word_rotr 22 x"

definition sha_Sig1 :: "32 word \<Rightarrow> 32 word" where
  "sha_Sig1 x = word_rotr 6 x XOR word_rotr 11 x XOR word_rotr 25 x"

fun sha_extend :: "nat \<Rightarrow> 32 word list \<Rightarrow> 32 word list" where
  "sha_extend 0 ws = ws"
| "sha_extend (Suc n) ws =
     (let l = length ws
      in sha_extend n (ws @ [sha_sig1 (ws ! (l - 2)) + ws ! (l - 7) + sha_sig0 (ws ! (l - 15)) + ws ! (l - 16)]))"

fun sha_round :: "sha_state \<Rightarrow> 32 word \<times> 32 word \<Rightarrow> sha_state" where
  "sha_round [a, b, c, d, e, f, g, h] (k, w) =
     (let t1 = h + sha_Sig1 e + ((e AND f) XOR (NOT e AND g)) + k + w;
          t2 = sha_Sig0 a + ((a AND b) XOR (a AND c) XOR (b AND c))
      in [t1 + t2, a, b, c, d + t1, e, f, g])"
| "sha_round s _ = s"

definition sha_block :: "sha_state \<Rightarrow> 32 word list \<Rightarrow> sha_state" where
  "sha_block s ws = map2 (+) s (foldl sha_round s (zip sha_k (sha_extend 48 ws)))"

definition be_bytes :: "nat \<Rightarrow> nat \<Rightarrow> nat list" where
  "be_bytes n x = map (\<lambda>i. (x div 256 ^ i) mod 256) (rev [0..<n])"

definition sha_pad :: "nat list \<Rightarrow> nat list" where
  "sha_pad bs = bs @ [128] @ replicate ((119 - length bs mod 64) mod 64) 0 @ be_bytes 8 (8 * length bs)"

definition be_word :: "nat list \<Rightarrow> 32 word" where
  "be_word bs = of_nat (foldl (\<lambda>a b. 256 * a + b) 0 bs)"

fun chunks :: "nat \<Rightarrow> nat \<Rightarrow> 'a list \<Rightarrow> 'a list list" where
  "chunks n 0 xs = []"
| "chunks n (Suc k) xs = take n xs # chunks n k (drop n xs)"

definition sha_words :: "nat list \<Rightarrow> 32 word list" where
  "sha_words bs = map be_word (chunks 4 (length bs div 4) bs)"

definition sha256_sum :: "string \<Rightarrow> nat list" where
  "sha256_sum s =
     (let p = sha_pad (map of_char s);
          blocks = chunks 64 (length p div 64) p
      in concat (map (\<lambda>w. be_bytes 4 (unat w)) (foldl sha_block sha_init (map sha_words blocks))))"

definition hex_digit :: "nat \<Rightarrow> char" where
  "hex_digit n = (if n < 10 then char_of (48 + n) else char_of (87 + n))"

definition hex_EncodeToString :: "nat list \<Rightarrow> string" where
  "hex_EncodeToString bs = concat (map (\<lambda>b. [hex_digit (b div 16), hex_digit (b mod 16)]) bs)"

definition sha256_hex :: "string \<Rightarrow> string" where
  "sha256_hex s = hex_EncodeToString (sha256_sum s)"

definition is_lower_hex :: "char \<Rightarrow> bool" where
  "is_lower_hex c \<longleftrightarrow> is_digit c \<or> (CHR ''a'' \<le> c \<and> c \<le> CHR ''f'')"

subsection \<open>Shape of a digest\<close>

lemma length_sha_round [simp]: "length s = 8 \<Longrightarrow> length (sha_round s p) = 8"
  by (cases "(s, p)" rule: sha_round.cases) (auto simp: Let_def)

lemma length_foldl_sha_round: "length s = 8 \<Longrightarrow> length (foldl sha_round s ps) = 8"
  by (induction ps arbitrary: s) simp_all

lemma length_sha_block [simp]: "length s = 8 \<Longrightarrow> length (sha_block s ws) = 8"
  by (simp add: sha_block_def length_foldl_sha_round)

lemma length_foldl_sha_block: "length s = 8 \<Longrightarrow> length (foldl sha_block s bs) = 8"
  by (induction bs arbitrary: s) simp_all

lemma length_be_bytes [simp]: "length (be_bytes n x) = n"
  by (simp add: be_bytes_def)

lemma be_bytes_less: "b \<in> set (be_bytes n x) \<Longrightarrow> b < 256"
  by (auto simp: be_bytes_def)

lemma length_concat_const: "(\<And>x. x \<in> set xs \<Longrightarrow> length (f x) = k) \<Longrightarrow> length (concat (map f xs)) = k * length xs"
  by (induction xs) auto

lemma length_sha256_sum [simp]: "length (sha256_sum s) = 32"
  by (simp add: sha256_sum_def Let_def length_concat_const[where k = 4] length_foldl_sha_block sha_init_def)

lemma sha256_sum_bytes: "b \<in> set (sha256_sum s) \<Longrightarrow> b < 256"
  by (auto simp: sha256_sum_def Let_def dest: be_bytes_less)

lemma hex_digit_lower_hex: "n < 16 \<Longrightarrow> is_lower_hex (hex_digit n)"
  by (auto simp: is_lower_hex_def hex_digit_def is_digit_bounds less_eq_char_def)

lemma length_sha256_hex [simp]: "length (sha256_hex s) = 64"
  by (simp add: sha256_hex_def hex_EncodeToString_def length_concat_const[where k = 2])

lemma sha256_hex_lower_hex: "list_all is_lower_hex (sha256_hex s)"
  using sha256_sum_bytes[of _ s]
  by (auto simp: sha256_hex_def hex_EncodeToString_def list_all_iff less_mult_imp_div_less
      intro!: hex_digit_lower_hex)

end
