(* ===== verification/Manifest.thy ===== *)
theory Manifest
  imports Go_Path Sha256 "HOL-Library.Product_Lexorder"
begin

section \<open>Generation manifests and their deltas (\<open>internal/v2/state/generations.go\<close>)\<close>

text \<open>
  A manifest lists the files of one published generation; a changeset is the delta between two
  manifests in the order in which it is applied to a target. The group of definitions below is
  the pure half of \<open>generations.go\<close>: path and phase validation, normalisation with the manifest
  digest, the canonical wire, the delta and the validation of a delta.
\<close>

subsection \<open>Data\<close>

record GenerationFile =
  gf_path :: string
  gf_phase :: string
  gf_size :: int
  gf_sha256 :: string

record FileChange =
  fc_operation :: string
  fc_path :: string
  fc_phase :: string
  fc_size :: int
  fc_sha256 :: string

definition LayoutC2V1 :: string where
  "LayoutC2V1 = ''c2-v1''"

definition LayoutC2ToSingleV1 :: string where
  "LayoutC2ToSingleV1 = ''c2-to-single-v1''"

definition LayoutSinglePayloadV1 :: string where
  "LayoutSinglePayloadV1 = ''single-payload-v1''"

subsection \<open>Validation\<close>

definition validSHA256Text :: "string \<Rightarrow> bool" where
  "validSHA256Text value \<longleftrightarrow> length value = 64 \<and> list_all is_lower_hex value"

definition visibleASCIIPath :: "string \<Rightarrow> bool" where
  "visibleASCIIPath value \<longleftrightarrow>
     value \<noteq> '''' \<and> list_all (\<lambda>c. 0x21 \<le> (of_char c :: nat) \<and> (of_char c :: nat) \<le> 0x7e) value"

text \<open>The byte set of the literal \<open>"\\\x00\r\n\t"\<close>.\<close>

definition unsafe_path_bytes :: "char list" where
  "unsafe_path_bytes = [CHR 0x5C, CHR 0x00, CHR 0x0D, CHR 0x0A, CHR 0x09]"

text \<open>The part of a path after its last slash.\<close>

definition base_name :: "string \<Rightarrow> string" where
  "base_name p = rev (takeWhile (\<lambda>c. c \<noteq> slash) (rev p))"

definition generationPhaseForLayout :: "string \<Rightarrow> string \<Rightarrow> string" where
  "generationPhaseForLayout path layout =
     (if layout = LayoutC2V1 \<and> HasPrefix path ''dists/'' \<and> Contains path ''/pool/'' then ''payload''
      else if HasPrefix path ''dists/'' \<and>
              (Contains path ''/pool/'' \<or> HasSuffix path ''.rpm'' \<or> HasSuffix path ''.deb'') then ''''
      else if HasPrefix path ''pool/'' then ''payload''
      else let base = base_name path
           in if base = ''repomd.xml'' \<or> base = ''repomd.xml.asc'' \<or> base = ''Release''
                 \<or> base = ''InRelease'' \<or> base = ''Release.gpg''
              then ''pointer'' else ''metadata'')"

definition invalid_generation_file :: "string \<Rightarrow> string \<Rightarrow> GenerationFile \<Rightarrow> bool" where
  "invalid_generation_file layout previous file \<longleftrightarrow>
     gf_path file = '''' \<or> \<not> visibleASCIIPath (gf_path file) \<or> path_Clean (gf_path file) \<noteq> gf_path file
     \<or> gf_path file = ''.'' \<or> gf_path file = previous
     \<or> ContainsAny (gf_path file) unsafe_path_bytes
     \<or> HasPrefix (gf_path file) ''/'' \<or> HasPrefix (gf_path file) ''../'' \<or> gf_size file < 0
     \<or> \<not> validSHA256Text (gf_sha256 file)
     \<or> gf_phase file \<noteq> generationPhaseForLayout (gf_path file) layout"

text \<open>One line of the manifest wire, \<open>"%s %d %s %s\n"\<close>; sizes are not negative there.\<close>

definition manifest_line :: "GenerationFile \<Rightarrow> string" where
  "manifest_line file =
     gf_sha256 file @ '' '' @ decimal (nat (gf_size file)) @ '' '' @ gf_phase file @ '' ''
       @ gf_path file @ [CHR 0x0A]"

definition manifest_wire :: "GenerationFile list \<Rightarrow> string" where
  "manifest_wire files = concat (map manifest_line files)"

text \<open>The loop over the sorted files: the previous path and the bytes hashed so far.\<close>

fun normalize_loop :: "string \<Rightarrow> string \<Rightarrow> string \<Rightarrow> GenerationFile list \<Rightarrow> string result" where
  "normalize_loop layout previous hashed [] = Inr hashed"
| "normalize_loop layout previous hashed (file # files) =
     (if invalid_generation_file layout previous file
      then Inl (plain_error ''invalid generation file'')
      else normalize_loop layout (gf_path file) (hashed @ manifest_line file) files)"

definition normalizeManifestForLayout ::
  "GenerationFile list \<Rightarrow> string \<Rightarrow> (GenerationFile list \<times> string) result" where
  "normalizeManifestForLayout input layout =
     (if layout \<noteq> LayoutC2V1 \<and> layout \<noteq> LayoutSinglePayloadV1
      then Inl (plain_error ''invalid manifest layout'')
      else let files = sort_key gf_path input
           in and_then (normalize_loop layout '''' '''' files) (\<lambda>hashed. Inr (files, sha256_hex hashed)))"

definition normalizeManifest :: "GenerationFile list \<Rightarrow> (GenerationFile list \<times> string) result" where
  "normalizeManifest input = normalizeManifestForLayout input LayoutSinglePayloadV1"

definition ManifestBytesForLayout :: "GenerationFile list \<Rightarrow> string \<Rightarrow> (string \<times> string) result" where
  "ManifestBytesForLayout input layout =
     and_then (normalizeManifestForLayout input layout)
       (\<lambda>(files, digest). Inr (manifest_wire files, digest))"

definition ManifestBytes :: "GenerationFile list \<Rightarrow> (string \<times> string) result" where
  "ManifestBytes input = ManifestBytesForLayout input LayoutSinglePayloadV1"

subsection \<open>Deltas\<close>

text \<open>A Go map filled from a slice: the last entry of a key stays.\<close>

definition fileByPath :: "GenerationFile list \<Rightarrow> string \<rightharpoonup> GenerationFile" where
  "fileByPath files = map_of (map (\<lambda>f. (gf_path f, f)) (rev files))"

definition paths_of :: "GenerationFile list \<Rightarrow> string list" where
  "paths_of files = remdups (map gf_path files)"

definition change_rank :: "string \<Rightarrow> nat" where
  "change_rank phase =
     (if phase = ''payload'' then 0 else if phase = ''metadata'' then 1
      else if phase = ''pointer'' then 2 else if phase = ''delete'' then 3 else 0)"

definition change_key :: "FileChange \<Rightarrow> nat \<times> string" where
  "change_key c = (change_rank (fc_phase c), fc_path c)"

definition change_of :: "string \<Rightarrow> GenerationFile \<Rightarrow> FileChange" where
  "change_of operation file =
     \<lparr>fc_operation = operation, fc_path = gf_path file, fc_phase = gf_phase file,
      fc_size = gf_size file, fc_sha256 = gf_sha256 file\<rparr>"

definition delete_of :: "string \<Rightarrow> FileChange" where
  "delete_of path =
     \<lparr>fc_operation = ''delete'', fc_path = path, fc_phase = ''delete'', fc_size = 0, fc_sha256 = ''''\<rparr>"

text \<open>The two loops over the maps, one path at a time.\<close>

definition target_change ::
  "(string \<rightharpoonup> GenerationFile) \<Rightarrow> (string \<rightharpoonup> GenerationFile) \<Rightarrow> string \<Rightarrow> FileChange list" where
  "target_change baseByPath targetByPath path =
     (case targetByPath path of
        None \<Rightarrow> []
      | Some file \<Rightarrow>
          (case baseByPath path of
             None \<Rightarrow> [change_of ''add'' file]
           | Some previous \<Rightarrow>
               (if gf_sha256 previous = gf_sha256 file \<and> gf_size previous = gf_size file
                   \<and> gf_phase previous = gf_phase file
                then [] else [change_of ''update'' file])))"

definition base_change :: "(string \<rightharpoonup> GenerationFile) \<Rightarrow> string \<Rightarrow> FileChange list" where
  "base_change targetByPath path = (if targetByPath path = None then [delete_of path] else [])"

text \<open>
  Go visits the two maps in an unspecified order and then sorts; the order of the visit is a
  parameter, and \<open>DiffManifests\<close> fixes one. \<open>diff_order_irrelevant\<close> shows that it does not matter.
\<close>

definition diff_in_order ::
  "string list \<Rightarrow> string list \<Rightarrow> GenerationFile list \<Rightarrow> GenerationFile list \<Rightarrow> FileChange list" where
  "diff_in_order target_order base_order base target =
     sort_key change_key
       (concat (map (target_change (fileByPath base) (fileByPath target)) target_order)
        @ concat (map (base_change (fileByPath target)) base_order))"

definition DiffManifests :: "GenerationFile list \<Rightarrow> GenerationFile list \<Rightarrow> FileChange list" where
  "DiffManifests base target = diff_in_order (paths_of target) (paths_of base) base target"

definition validate_change :: "string \<Rightarrow> FileChange \<Rightarrow> unit result" where
  "validate_change layout change =
     (if \<not> visibleASCIIPath (fc_path change) \<or> path_Clean (fc_path change) \<noteq> fc_path change
         \<or> HasPrefix (fc_path change) ''/'' \<or> HasPrefix (fc_path change) ''../''
      then Inl (plain_error ''invalid file change path'')
      else if fc_operation change \<noteq> ''add'' \<and> fc_operation change \<noteq> ''update'' \<and> fc_operation change \<noteq> ''delete''
      then Inl (plain_error ''invalid file change operation'')
      else if fc_operation change = ''delete''
      then ensure (fc_phase change = ''delete'') (plain_error ''delete change must use delete phase'')
      else ensure (fc_phase change = generationPhaseForLayout (fc_path change) layout
                   \<and> 0 \<le> fc_size change \<and> validSHA256Text (fc_sha256 change))
             (plain_error ''invalid file change''))"

definition validateChangesForLayout :: "FileChange list \<Rightarrow> string \<Rightarrow> unit result" where
  "validateChangesForLayout changes layout =
     (if layout \<noteq> LayoutC2V1 \<and> layout \<noteq> LayoutSinglePayloadV1
      then Inl (plain_error ''invalid Changeset layout'')
      else for_each (\<lambda>_. validate_change layout) () changes)"

definition validateChanges :: "FileChange list \<Rightarrow> unit result" where
  "validateChanges changes = validateChangesForLayout changes LayoutSinglePayloadV1"

text \<open>What a target does with a changeset: the specification the delta is measured against.\<close>

definition change_effect :: "FileChange \<Rightarrow> GenerationFile option" where
  "change_effect c =
     (if fc_operation c = ''delete'' then None
      else Some \<lparr>gf_path = fc_path c, gf_phase = fc_phase c, gf_size = fc_size c,
                 gf_sha256 = fc_sha256 c\<rparr>)"

definition apply_change ::
  "(string \<rightharpoonup> GenerationFile) \<Rightarrow> FileChange \<Rightarrow> (string \<rightharpoonup> GenerationFile)" where
  "apply_change m c = m(fc_path c := change_effect c)"

subsection \<open>Normalisation\<close>

lemma validSHA256Text_sha256_hex [simp]: "validSHA256Text (sha256_hex s)"
  by (simp add: validSHA256Text_def sha256_hex_lower_hex)

lemma normalize_loop_Inr:
  assumes "normalize_loop layout previous hashed files = Inr h"
  shows "h = hashed @ manifest_wire files
    \<and> (\<forall>f \<in> set files. \<not> invalid_generation_file layout '''' f)
    \<and> distinct_adj (previous # map gf_path files)"
  using assms
proof (induction files arbitrary: previous hashed)
  case (Cons f fs)
  then have f: "\<not> invalid_generation_file layout previous f" by (auto split: if_splits)
  with Cons have "normalize_loop layout (gf_path f) (hashed @ manifest_line f) fs = Inr h" by simp
  from Cons.IH[OF this] f show ?case
    by (auto simp: manifest_wire_def invalid_generation_file_def)
qed (simp add: manifest_wire_def)

lemma normalize_loop_error:
  "normalize_loop layout previous hashed files = Inl e \<Longrightarrow> e = plain_error ''invalid generation file''"
  by (induction files arbitrary: previous hashed) (auto split: if_splits)

lemma normalize_loop_success:
  assumes "\<forall>f \<in> set files. \<not> invalid_generation_file layout '''' f"
    and "distinct_adj (previous # map gf_path files)"
  shows "normalize_loop layout previous hashed files = Inr (hashed @ manifest_wire files)"
  using assms
proof (induction files arbitrary: previous hashed)
  case (Cons f fs)
  then have "\<not> invalid_generation_file layout previous f"
    by (auto simp: invalid_generation_file_def)
  with Cons show ?case by (auto simp: manifest_wire_def)
qed (simp add: manifest_wire_def)

lemma normalize_files_distinct:
  assumes "normalize_loop layout '''' '''' (sort_key gf_path input) = Inr h"
  shows "distinct (map gf_path input)"
proof -
  have "distinct_adj (map gf_path (sort_key gf_path input))"
    using normalize_loop_Inr[OF assms]
    by (metis distinct_adj_ConsD)
  then have "distinct (map gf_path (sort_key gf_path input))"
    by (simp add: sorted_distinct_adj)
  then show ?thesis
    by (metis distinct_map distinct_sort set_sort)
qed

lemma normalizeManifest_Inr:
  assumes "normalizeManifestForLayout input layout = Inr (files, digest)"
  shows "files = sort_key gf_path input" "digest = sha256_hex (manifest_wire files)"
    "\<forall>f \<in> set files. \<not> invalid_generation_file layout '''' f"
    "distinct (map gf_path files)" "sorted (map gf_path files)"
    "layout = LayoutC2V1 \<or> layout = LayoutSinglePayloadV1"
proof -
  obtain h where h: "normalize_loop layout '''' '''' (sort_key gf_path input) = Inr h"
    and files: "files = sort_key gf_path input" and digest: "digest = sha256_hex h"
    using assms
    by (auto simp: normalizeManifestForLayout_def Let_def and_then_Inr_iff split: if_splits)
  show "files = sort_key gf_path input" by (fact files)
  from h files have "h = manifest_wire files"
      and "\<forall>f \<in> set files. \<not> invalid_generation_file layout '''' f"
    using normalize_loop_Inr by fastforce+
  then show "digest = sha256_hex (manifest_wire files)"
      and "\<forall>f \<in> set files. \<not> invalid_generation_file layout '''' f"
    by (simp_all add: digest)
  show "distinct (map gf_path files)"
    using normalize_files_distinct[OF h] files by (simp add: distinct_map)
  show "sorted (map gf_path files)" by (simp add: files)
  show "layout = LayoutC2V1 \<or> layout = LayoutSinglePayloadV1"
    using assms by (auto simp: normalizeManifestForLayout_def split: if_splits)
qed

lemma normalizeManifest_error:
  assumes "normalizeManifestForLayout input layout = Inl e"
  shows "e = plain_error (if layout \<noteq> LayoutC2V1 \<and> layout \<noteq> LayoutSinglePayloadV1
    then ''invalid manifest layout'' else ''invalid generation file'')"
proof (cases "layout \<noteq> LayoutC2V1 \<and> layout \<noteq> LayoutSinglePayloadV1")
  case False
  with assms have "normalize_loop layout [] [] (sort_key gf_path input) = Inl e"
    by (cases "normalize_loop layout [] [] (sort_key gf_path input)")
      (auto simp: normalizeManifestForLayout_def Let_def)
  with False show ?thesis by (auto dest: normalize_loop_error)
qed (use assms in \<open>simp add: normalizeManifestForLayout_def\<close>)

lemma normalizeManifest_success:
  assumes "layout = LayoutC2V1 \<or> layout = LayoutSinglePayloadV1"
    and "\<forall>f \<in> set input. \<not> invalid_generation_file layout '''' f"
    and "distinct (map gf_path input)"
  shows "normalizeManifestForLayout input layout =
    Inr (sort_key gf_path input, sha256_hex (manifest_wire (sort_key gf_path input)))"
proof -
  have "distinct_adj ('''' # map gf_path (sort_key gf_path input))"
  proof (rule distinct_adj_Cons_ne)
    show "distinct_adj (map gf_path (sort_key gf_path input))"
      using assms(3) by (intro distinct_distinct_adj) (simp add: distinct_map)
    show "'''' \<notin> set (map gf_path (sort_key gf_path input))"
      using assms(2) by (auto simp: invalid_generation_file_def)
  qed
  then have "normalize_loop layout '''' '''' (sort_key gf_path input) =
      Inr (manifest_wire (sort_key gf_path input))"
    using normalize_loop_success[of "sort_key gf_path input" layout "[]" "[]"] assms(2) by simp
  then show ?thesis using assms(1)
    by (auto simp: normalizeManifestForLayout_def Let_def)
qed

text \<open>The outcome depends on the set of files only, not on the order they come in.\<close>

lemma normalizeManifest_perm:
  assumes "mset input = mset input'"
  shows "normalizeManifestForLayout input layout = normalizeManifestForLayout input' layout"
proof -
  have gen: "normalizeManifestForLayout b layout = normalizeManifestForLayout a layout"
    if ab: "mset a = mset b" and a: "normalizeManifestForLayout a layout = Inr r" for a b r
  proof -
    obtain fs d where r: "r = (fs, d)" by (cases r)
    note n = normalizeManifest_Inr[OF a[unfolded r]]
    have da: "distinct (map gf_path a)" using n(1,4) by (simp add: distinct_map_sort_key)
    then have db: "distinct (map gf_path b)"
      using ab by (metis mset_eq_imp_distinct_iff mset_map)
    have sb: "sort_key gf_path b = sort_key gf_path a"
      using sort_key_mset_eq[OF ab da] by simp
    have "normalizeManifestForLayout b layout =
        Inr (sort_key gf_path b, sha256_hex (manifest_wire (sort_key gf_path b)))"
    proof (rule normalizeManifest_success[OF n(6) _ db])
      show "\<forall>f \<in> set b. \<not> invalid_generation_file layout [] f"
        using n(1,3) mset_eq_setD[OF ab] by simp
    qed
    with sb n(1,2) a r show ?thesis by simp
  qed
  show ?thesis
  proof (cases "normalizeManifestForLayout input layout")
    case (Inr r)
    with gen[OF assms] show ?thesis by simp
  next
    case (Inl e)
    show ?thesis
    proof (cases "normalizeManifestForLayout input' layout")
      case (Inr r)
      with gen[OF assms[symmetric]] Inl show ?thesis by simp
    next
      case (Inl e')
      have "e' = e"
        using Inl \<open>normalizeManifestForLayout input layout = Inl e\<close>
        by (auto dest!: normalizeManifest_error)
      with Inl \<open>normalizeManifestForLayout input layout = Inl e\<close> show ?thesis by simp
    qed
  qed
qed

subsection \<open>The wire is injective\<close>

lemma sep_cancel:
  "c \<notin> set a \<Longrightarrow> c \<notin> set b \<Longrightarrow> a @ c # x = b @ c # y \<longleftrightarrow> a = b \<and> x = y"
proof (induction a arbitrary: b)
  case Nil
  then show ?case by (cases b) auto
next
  case (Cons d a)
  then show ?case by (cases b) auto
qed

lemma decimal_no_space: "CHR 0x20 \<notin> set (decimal n)"
  using decimal_digits[of n] by (auto simp: list_all_iff is_digit_bounds)

lemma phase_values:
  "generationPhaseForLayout p l \<in> {''payload'', ''metadata'', ''pointer'', ''''}"
  by (auto simp: generationPhaseForLayout_def Let_def)

lemma phase_no_space: "CHR 0x20 \<notin> set (generationPhaseForLayout p l)"
  using phase_values[of p l] by auto

lemma valid_file_facts:
  assumes "\<not> invalid_generation_file layout q f"
  shows "length (gf_sha256 f) = 64" "0 \<le> gf_size f" "CHR 0x20 \<notin> set (gf_phase f)"
    "CHR 0x0A \<notin> set (gf_path f)"
  using assms phase_no_space
  by (auto simp: invalid_generation_file_def validSHA256Text_def visibleASCIIPath_def list_all_iff)

lemma manifest_line_inj:
  assumes "\<not> invalid_generation_file layout q f" "\<not> invalid_generation_file layout' q' g"
    and "manifest_line f @ r = manifest_line g @ s"
  shows "f = g \<and> r = s"
proof -
  note vf = valid_file_facts[OF assms(1)] and vg = valid_file_facts[OF assms(2)]
  have "gf_sha256 f = gf_sha256 g" and
    "decimal (nat (gf_size f)) @ CHR 0x20 # gf_phase f @ CHR 0x20 # gf_path f @ CHR 0x0A # r =
     decimal (nat (gf_size g)) @ CHR 0x20 # gf_phase g @ CHR 0x20 # gf_path g @ CHR 0x0A # s"
    using assms(3) vf(1) vg(1) by (auto simp: manifest_line_def)
  then have "decimal (nat (gf_size f)) = decimal (nat (gf_size g))" and "gf_phase f = gf_phase g"
    and "gf_path f = gf_path g" and "r = s"
    using vf vg decimal_no_space by (simp_all add: sep_cancel)
  moreover from this(1) have "gf_size f = gf_size g"
    by (metis dec_value_decimal nat_eq_iff2 vf(2) vg(2) nat_0_le)
  ultimately show ?thesis using \<open>gf_sha256 f = gf_sha256 g\<close> by simp
qed

lemma manifest_line_ne [simp]: "manifest_line f \<noteq> []"
  by (simp add: manifest_line_def)

lemma manifest_wire_inj:
  assumes "\<forall>f \<in> set fs. \<not> invalid_generation_file layout q f"
    and "\<forall>g \<in> set gs. \<not> invalid_generation_file layout' q' g"
    and "manifest_wire fs = manifest_wire gs"
  shows "fs = gs"
  using assms
proof (induction fs arbitrary: gs)
  case Nil
  then show ?case by (cases gs) (auto simp: manifest_wire_def)
next
  case (Cons f fs)
  have "gs \<noteq> []" using Cons.prems(3) by (auto simp: manifest_wire_def)
  then obtain g gs' where gs: "gs = g # gs'" by (cases gs) simp_all
  with Cons.prems(3) have eq: "manifest_line f @ manifest_wire fs = manifest_line g @ manifest_wire gs'"
    unfolding manifest_wire_def by (metis concat.simps(2) list.simps(9))
  have vf: "\<not> invalid_generation_file layout q f" using Cons.prems(1) by simp
  have vg: "\<not> invalid_generation_file layout' q' g" using Cons.prems(2) gs by simp
  from manifest_line_inj[OF vf vg eq] have "f = g" and w: "manifest_wire fs = manifest_wire gs'"
    by blast+
  moreover have "fs = gs'"
    using Cons.IH[OF _ _ w] Cons.prems(1,2) gs by simp
  ultimately show ?case using gs by simp
qed

subsection \<open>The delta\<close>

lemma fileByPath_Some: "fileByPath fs p = Some f \<Longrightarrow> f \<in> set fs \<and> gf_path f = p"
  by (auto simp: fileByPath_def dest!: map_of_SomeD)

lemma fileByPath_None: "fileByPath fs p = None \<longleftrightarrow> p \<notin> set (paths_of fs)"
  by (auto simp: fileByPath_def paths_of_def map_of_eq_None_iff image_iff)

lemma fileByPath_distinct:
  "distinct (map gf_path fs) \<Longrightarrow> f \<in> set fs \<Longrightarrow> fileByPath fs (gf_path f) = Some f"
  by (auto simp: fileByPath_def rev_map[symmetric] comp_def intro!: map_of_is_SomeI)

lemma target_change_path: "c \<in> set (target_change b t p) \<Longrightarrow> t = fileByPath fs \<Longrightarrow> fc_path c = p"
  by (cases "t p"; cases "b p")
    (auto simp: target_change_def change_of_def split: if_splits dest: fileByPath_Some)

lemma base_change_path: "c \<in> set (base_change t p) \<Longrightarrow> fc_path c = p"
  by (auto simp: base_change_def delete_of_def split: if_splits)

lemma target_change_le_one: "length (target_change b t p) \<le> 1"
  by (auto simp: target_change_def split: option.splits)

lemma base_change_le_one: "length (base_change t p) \<le> 1"
  by (auto simp: base_change_def)

lemma distinct_concat_keyed:
  assumes "distinct ps" and "\<And>p. length (g p) \<le> (1::nat)" and "\<And>p c. c \<in> set (g p) \<Longrightarrow> k c = p"
  shows "distinct (map k (concat (map g ps)))"
  using assms(1)
proof (induction ps)
  case (Cons p ps)
  have "distinct (map k (g p))"
    using assms(2)[of p] by (cases "g p") auto
  moreover have "k c \<noteq> p" if "c \<in> set (g q)" "q \<in> set ps" for c q
    using assms(3)[OF that(1)] that(2) Cons.prems by auto
  ultimately show ?case using Cons assms(3) by auto
qed simp

text \<open>The changes before the sort: at most one per path.\<close>

abbreviation raw_diff ::
  "string list \<Rightarrow> string list \<Rightarrow> GenerationFile list \<Rightarrow> GenerationFile list \<Rightarrow> FileChange list" where
  "raw_diff tord bord base target \<equiv>
     concat (map (target_change (fileByPath base) (fileByPath target)) tord)
     @ concat (map (base_change (fileByPath target)) bord)"

lemma raw_diff_distinct:
  assumes "distinct tord" "distinct bord"
  shows "distinct (map fc_path (raw_diff tord bord base target))"
proof -
  have 1: "distinct (map fc_path (concat (map (target_change (fileByPath base) (fileByPath target)) tord)))"
    by (rule distinct_concat_keyed[OF assms(1) target_change_le_one]) (rule target_change_path, auto)
  have 2: "distinct (map fc_path (concat (map (base_change (fileByPath target)) bord)))"
    by (rule distinct_concat_keyed[OF assms(2) base_change_le_one]) (rule base_change_path)
  have "fc_path c \<noteq> fc_path d"
    if "c \<in> set (target_change (fileByPath base) (fileByPath target) p)"
      "d \<in> set (base_change (fileByPath target) q)" for c d p q
    using that target_change_path[OF that(1) refl] base_change_path[OF that(2)]
    by (auto simp: target_change_def base_change_def split: option.splits if_splits)
  with 1 2 show ?thesis by fastforce
qed

lemma diff_in_order_distinct:
  assumes "distinct tord" "distinct bord"
  shows "distinct (map fc_path (diff_in_order tord bord base target))"
  using raw_diff_distinct[OF assms, of base target]
  by (simp only: diff_in_order_def distinct_map_sort_key)

lemma distinct_change_key: "distinct (map fc_path cs) \<Longrightarrow> distinct (map change_key cs)"
  by (auto simp: distinct_map inj_on_def change_key_def)

lemma diff_order_irrelevant:
  assumes "distinct tord" "set tord = set (paths_of target)"
    and "distinct bord" "set bord = set (paths_of base)"
  shows "diff_in_order tord bord base target = DiffManifests base target"
proof -
  have t: "mset tord = mset (paths_of target)" and b: "mset bord = mset (paths_of base)"
    using assms by (simp_all add: paths_of_def flip: set_eq_iff_mset_eq_distinct)
  have "mset (raw_diff tord bord base target) =
      mset (raw_diff (paths_of target) (paths_of base) base target)"
    unfolding mset_append by (intro arg_cong2[where f = "(+)"] mset_concat_map t b)
  then show ?thesis
    unfolding DiffManifests_def diff_in_order_def
    using assms(1,3) by (intro sort_key_mset_eq distinct_change_key raw_diff_distinct)
qed

lemma set_DiffManifests:
  "c \<in> set (DiffManifests base target) \<longleftrightarrow>
     c \<in> set (target_change (fileByPath base) (fileByPath target) (fc_path c))
     \<or> fc_path c \<in> set (paths_of base) \<and> c \<in> set (base_change (fileByPath target) (fc_path c))"
proof -
  have "p \<in> set (paths_of target)" if "c \<in> set (target_change (fileByPath base) (fileByPath target) p)" for p
    using that fileByPath_None[of target p] by (auto simp: target_change_def split: option.splits)
  then show ?thesis
    unfolding DiffManifests_def diff_in_order_def
    by (auto dest: target_change_path base_change_path)
qed

lemma DiffManifests_distinct: "distinct (map fc_path (DiffManifests base target))"
  unfolding DiffManifests_def by (rule diff_in_order_distinct) (simp_all add: paths_of_def)

lemma DiffManifests_sorted: "sorted (map change_key (DiffManifests base target))"
  by (simp add: DiffManifests_def diff_in_order_def)

lemma fold_apply_change_notin:
  "p \<notin> set (map fc_path cs) \<Longrightarrow> fold (\<lambda>c m. apply_change m c) cs m p = m p"
  by (induction cs arbitrary: m) (auto simp: apply_change_def)

lemma fold_apply_change_in:
  assumes "distinct (map fc_path cs)" "c \<in> set cs"
  shows "fold (\<lambda>c m. apply_change m c) cs m (fc_path c) = change_effect c"
  using assms
proof (induction cs arbitrary: m)
  case (Cons d cs)
  show ?case
  proof (cases "c = d")
    case True
    with Cons.prems have "fc_path d \<notin> set (map fc_path cs)" by simp
    from fold_apply_change_notin[OF this, of "apply_change m d"] True show ?thesis
      by (simp add: apply_change_def[of m d])
  next
    case False
    with Cons show ?thesis by simp
  qed
qed simp

lemma change_effect_of [simp]: "op \<noteq> ''delete'' \<Longrightarrow> change_effect (change_of op f) = Some f"
  by (cases f) (simp add: change_effect_def change_of_def)

lemma change_effect_delete_of [simp]: "change_effect (delete_of p) = None"
  by (simp add: change_effect_def delete_of_def)

lemma target_change_effect:
  "c \<in> set (target_change b t p) \<Longrightarrow> change_effect c = t p"
  by (auto simp: target_change_def split: option.splits if_splits)

lemma base_change_effect: "c \<in> set (base_change t p) \<Longrightarrow> change_effect c = t p"
  by (auto simp: base_change_def split: if_splits)

text \<open>Applying the delta to the base manifest yields the target manifest.\<close>

lemma apply_DiffManifests:
  "fold (\<lambda>c m. apply_change m c) (DiffManifests base target) (fileByPath base) = fileByPath target"
proof
  fix p
  let ?d = "DiffManifests base target" and ?b = "fileByPath base" and ?t = "fileByPath target"
  note dist = DiffManifests_distinct[of base target]
  show "fold (\<lambda>c m. apply_change m c) ?d ?b p = ?t p"
  proof (cases "\<exists>c \<in> set ?d. fc_path c = p")
    case True
    then obtain c where c: "c \<in> set ?d" "fc_path c = p" by blast
    have "change_effect c = ?t p"
      using c set_DiffManifests target_change_effect base_change_effect by metis
    with fold_apply_change_in[OF dist c(1)] c(2) show ?thesis by simp
  next
    case False
    then have "p \<notin> set (map fc_path ?d)" by auto
    then have "fold (\<lambda>c m. apply_change m c) ?d ?b p = ?b p" by (rule fold_apply_change_notin)
    also have "?b p = ?t p"
    proof (cases "?t p")
      case None
      have "?b p = None"
      proof (rule ccontr)
        assume "?b p \<noteq> None"
        with None have "delete_of p \<in> set ?d"
          by (subst set_DiffManifests) (auto simp: base_change_def delete_of_def fileByPath_None)
        with False show False by (auto simp: delete_of_def)
      qed
      with None show ?thesis by simp
    next
      case (Some f)
      then have f: "gf_path f = p" by (auto dest: fileByPath_Some)
      have no: "target_change ?b ?t p = []"
      proof (rule ccontr)
        assume "target_change ?b ?t p \<noteq> []"
        then obtain c where c: "c \<in> set (target_change ?b ?t p)" by (cases "target_change ?b ?t p") auto
        with target_change_path[OF c refl] have "c \<in> set ?d" by (simp add: set_DiffManifests)
        with target_change_path[OF c refl] False show False by blast
      qed
      then obtain g where g: "?b p = Some g" "gf_sha256 g = gf_sha256 f" "gf_size g = gf_size f"
          "gf_phase g = gf_phase f"
        using Some by (auto simp: target_change_def split: option.splits if_splits)
      moreover from g(1) have "gf_path g = p" by (auto dest: fileByPath_Some)
      ultimately show ?thesis using Some f by (cases f; cases g) simp
    qed
    finally show ?thesis .
  qed
qed

text \<open>What an entry of a delta can be.\<close>

lemma DiffManifests_cases:
  assumes "c \<in> set (DiffManifests base target)"
  obtains (add) f where "fileByPath target (fc_path c) = Some f" "fileByPath base (fc_path c) = None"
      "c = change_of ''add'' f"
  | (update) f g where "fileByPath target (fc_path c) = Some f" "fileByPath base (fc_path c) = Some g"
      "c = change_of ''update'' f" "f \<noteq> g"
  | (delete) g where "fileByPath target (fc_path c) = None" "fileByPath base (fc_path c) = Some g"
      "c = delete_of (fc_path c)"
proof (cases "fileByPath target (fc_path c)")
  case None
  with assms have "fc_path c \<in> set (paths_of base)" "c = delete_of (fc_path c)"
    unfolding set_DiffManifests by (simp_all add: target_change_def base_change_def)
  with None fileByPath_None[of base "fc_path c"] delete show thesis by blast
next
  case (Some f)
  with assms have c: "c \<in> set (target_change (fileByPath base) (fileByPath target) (fc_path c))"
    unfolding set_DiffManifests by (simp add: base_change_def)
  show thesis
  proof (cases "fileByPath base (fc_path c)")
    case None
    with c Some add show thesis by (simp add: target_change_def)
  next
    case (Some g)
    with c \<open>fileByPath target (fc_path c) = Some f\<close> have "c = change_of ''update'' f" "f \<noteq> g"
      by (auto simp: target_change_def split: if_splits)
    with Some \<open>fileByPath target (fc_path c) = Some f\<close> update show thesis by blast
  qed
qed

subsection \<open>What a manifest guarantees\<close>

text \<open>C30. Normalising a manifest succeeds exactly when the layout is known, every file is valid and no path
  repeats; the result is the files in path order with the digest of their wire, whatever order the
  files came in.\<close>

theorem normalize_manifest_exact:
  "(normalizeManifestForLayout input layout = Inr (files, digest) \<longleftrightarrow>
      (layout = LayoutC2V1 \<or> layout = LayoutSinglePayloadV1)
      \<and> list_all (\<lambda>f. \<not> invalid_generation_file layout '''' f) input \<and> distinct (map gf_path input)
      \<and> files = sort_key gf_path input \<and> digest = sha256_hex (manifest_wire files))
   \<and> normalizeManifestForLayout (rev input) layout = normalizeManifestForLayout input layout"
proof
  show "normalizeManifestForLayout input layout = Inr (files, digest) \<longleftrightarrow>
      (layout = LayoutC2V1 \<or> layout = LayoutSinglePayloadV1)
      \<and> list_all (\<lambda>f. \<not> invalid_generation_file layout '''' f) input \<and> distinct (map gf_path input)
      \<and> files = sort_key gf_path input \<and> digest = sha256_hex (manifest_wire files)" (is "?l \<longleftrightarrow> ?r")
  proof
    assume l: ?l
    note n = normalizeManifest_Inr[OF l]
    show ?r using n by (simp add: list_all_iff distinct_map_sort_key)
  next
    assume r: ?r
    then have "\<forall>f \<in> set input. \<not> invalid_generation_file layout '''' f" by (simp add: list_all_iff)
    with r normalizeManifest_success[of layout input] show ?l by simp
  qed
  show "normalizeManifestForLayout (rev input) layout = normalizeManifestForLayout input layout"
    by (rule normalizeManifest_perm) simp
qed

text \<open>C31. The wire of a manifest determines it: two inputs whose canonical bytes are equal have the same
  files, so a digest identifies a manifest up to a SHA-256 collision.\<close>

theorem manifest_bytes_injective:
  assumes "ManifestBytesForLayout input layout = Inr (wire, digest)"
    and "ManifestBytesForLayout input' layout' = Inr (wire, digest')"
  shows "mset input = mset input' \<and> digest = digest'"
proof -
  obtain files where f: "normalizeManifestForLayout input layout = Inr (files, digest)" "wire = manifest_wire files"
    using assms(1) by (auto simp: ManifestBytesForLayout_def and_then_Inr_iff)
  obtain files' where f': "normalizeManifestForLayout input' layout' = Inr (files', digest')" "wire = manifest_wire files'"
    using assms(2) by (auto simp: ManifestBytesForLayout_def and_then_Inr_iff)
  note n = normalizeManifest_Inr[OF f(1)] and n' = normalizeManifest_Inr[OF f'(1)]
  have eq: "files = files'"
    using manifest_wire_inj[OF n(3) n'(3)] f(2) f'(2) by simp
  have "mset input = mset files" "mset input' = mset files'" using n(1) n'(1) by simp_all
  with eq n(2) n'(2) show ?thesis by simp
qed

definition example_manifest :: "GenerationFile list" where
  "example_manifest =
     [\<lparr>gf_path = ''pool/b.rpm'', gf_phase = ''payload'', gf_size = 3, gf_sha256 = replicate 64 CHR ''b''\<rparr>,
      \<lparr>gf_path = ''dists/el9/x86_64/repodata/repomd.xml'', gf_phase = ''pointer'', gf_size = 7,
       gf_sha256 = replicate 64 CHR ''a''\<rparr>]"

lemma example_manifest_valid:
  "list_all (\<lambda>f. \<not> invalid_generation_file LayoutSinglePayloadV1 '''' f) example_manifest"
  "distinct (map gf_path example_manifest)"
  by code_simp+

lemma example_manifest_normalize:
  assumes "mset input = mset example_manifest"
  shows "normalizeManifestForLayout input LayoutSinglePayloadV1 =
    Inr (sort_key gf_path example_manifest, sha256_hex (manifest_wire (sort_key gf_path example_manifest)))"
  using example_manifest_valid normalizeManifest_success[of LayoutSinglePayloadV1 example_manifest]
  unfolding normalizeManifest_perm[OF assms] by (simp add: list_all_iff)

theorem manifest_bytes_injective_witness:
  "mset example_manifest = mset (rev example_manifest) \<and>
   (\<exists>w d d'. ManifestBytesForLayout example_manifest LayoutSinglePayloadV1 = Inr (w, d)
      \<and> ManifestBytesForLayout (rev example_manifest) LayoutSinglePayloadV1 = Inr (w, d') \<and> d = d')"
proof -
  let ?w = "manifest_wire (sort_key gf_path example_manifest)"
  have a: "ManifestBytesForLayout example_manifest LayoutSinglePayloadV1 = Inr (?w, sha256_hex ?w)"
    and b: "ManifestBytesForLayout (rev example_manifest) LayoutSinglePayloadV1 = Inr (?w, sha256_hex ?w)"
    by (simp_all add: ManifestBytesForLayout_def example_manifest_normalize)
  show ?thesis using manifest_bytes_injective[OF a b] a b by blast
qed

text \<open>C3. A delta is exact: applied to the base it gives the target, it touches each path once, its
  phases come in publication order, every order in which the two maps may be visited gives the same
  delta, and it is empty exactly when the two manifests hold the same files.\<close>

theorem diff_manifests_exact:
  "fold (\<lambda>c m. apply_change m c) (DiffManifests base target) (fileByPath base) = fileByPath target
   \<and> distinct (map fc_path (DiffManifests base target))
   \<and> sorted (map change_key (DiffManifests base target))
   \<and> (\<forall>target_order base_order. distinct target_order \<and> set target_order = gf_path ` set target
        \<and> distinct base_order \<and> set base_order = gf_path ` set base
        \<longrightarrow> diff_in_order target_order base_order base target = DiffManifests base target)
   \<and> (DiffManifests base target = [] \<longleftrightarrow> fileByPath base = fileByPath target)"
proof (intro conjI)
  show target: "fold (\<lambda>c m. apply_change m c) (DiffManifests base target) (fileByPath base) = fileByPath target"
    by (rule apply_DiffManifests)
  show "\<forall>target_order base_order. distinct target_order \<and> set target_order = gf_path ` set target
        \<and> distinct base_order \<and> set base_order = gf_path ` set base
        \<longrightarrow> diff_in_order target_order base_order base target = DiffManifests base target"
    by (intro allI impI diff_order_irrelevant) (auto simp: paths_of_def)
  show "DiffManifests base target = [] \<longleftrightarrow> fileByPath base = fileByPath target"
  proof
    assume "DiffManifests base target = []"
    with target show "fileByPath base = fileByPath target" by simp
  next
    assume eq: "fileByPath base = fileByPath target"
    show "DiffManifests base target = []"
    proof (rule ccontr)
      assume "DiffManifests base target \<noteq> []"
      then have "hd (DiffManifests base target) \<in> set (DiffManifests base target)" by simp
      then show False by (cases rule: DiffManifests_cases) (simp_all add: eq)
    qed
  qed
qed (rule DiffManifests_distinct DiffManifests_sorted)+

definition example_base :: "GenerationFile list" where
  "example_base = [\<lparr>gf_path = ''pool/a.rpm'', gf_phase = ''payload'', gf_size = 5, gf_sha256 = replicate 64 CHR ''c''\<rparr>]"

theorem diff_manifests_exact_witness:
  "diff_in_order [''dists/el9/x86_64/repodata/repomd.xml'', ''pool/b.rpm''] [''pool/a.rpm''] example_base example_manifest
     = DiffManifests example_base example_manifest
   \<and> length (DiffManifests example_base example_manifest) = 3"
proof
  have order: "distinct [''dists/el9/x86_64/repodata/repomd.xml'', ''pool/b.rpm'']" by simp
  have sets: "set [''dists/el9/x86_64/repodata/repomd.xml'', ''pool/b.rpm''] = gf_path ` set example_manifest"
    "set [''pool/a.rpm''] = gf_path ` set example_base"
    unfolding example_manifest_def example_base_def by (simp_all add: insert_commute)
  show "diff_in_order [''dists/el9/x86_64/repodata/repomd.xml'', ''pool/b.rpm''] [''pool/a.rpm''] example_base example_manifest
     = DiffManifests example_base example_manifest"
    using diff_manifests_exact[of example_base example_manifest] order sets by simp
  show "length (DiffManifests example_base example_manifest) = 3" by code_simp
qed

text \<open>C32. A path of a normalised manifest stays inside the repository root: every element of it is a
  proper name, with the one exception of the whole path \<open>..\<close>, which the checks let through.\<close>

theorem manifest_paths_contained:
  assumes "normalizeManifestForLayout input layout = Inr (files, digest)" and "f \<in> set files"
  shows "gf_path f = ''..'' \<or> list_all normal_elem (Split (gf_path f) slash)"
proof -
  have "\<not> invalid_generation_file layout '''' f" using normalizeManifest_Inr(3)[OF assms(1)] assms(2) by blast
  then show ?thesis
    by (intro Clean_fixpoint_elems) (simp_all add: invalid_generation_file_def)
qed

theorem manifest_paths_contained_witness:
  "list_all (\<lambda>f. gf_path f = ''..'' \<or> list_all normal_elem (Split (gf_path f) slash))
     (sort_key gf_path example_manifest)"
  by (rule list_all_iff[THEN iffD2], rule ballI)
    (rule manifest_paths_contained[OF example_manifest_normalize[OF refl]])

text \<open>C33. The exception is real: a manifest whose only file has the path \<open>..\<close> is accepted.\<close>

theorem manifest_accepts_parent_path:
  "\<exists>digest. normalizeManifestForLayout
     [\<lparr>gf_path = ''..'', gf_phase = ''metadata'', gf_size = 0, gf_sha256 = replicate 64 CHR ''0''\<rparr>]
     LayoutSinglePayloadV1 = Inr
     ([\<lparr>gf_path = ''..'', gf_phase = ''metadata'', gf_size = 0, gf_sha256 = replicate 64 CHR ''0''\<rparr>], digest)"
proof -
  let ?f = "\<lparr>gf_path = ''..'', gf_phase = ''metadata'', gf_size = 0, gf_sha256 = replicate 64 CHR ''0''\<rparr>"
  have "\<not> invalid_generation_file LayoutSinglePayloadV1 '''' ?f" by code_simp
  with normalizeManifest_success[of LayoutSinglePayloadV1 "[?f]"] show ?thesis by simp
qed

end
