(* ===== verification/Go_Json.thy ===== *)
theory Go_Json
  imports Sow_Prelude
begin

section \<open>JSON text (Go's \<open>encoding/json\<close>, encoder side)\<close>

text \<open>
  The strings, integers, arrays and objects that the sources hand to \<open>json.Marshal\<close>. A string
  is escaped byte by byte the way \<open>appendString\<close> does it: the two-character escapes, \<open>\u00XX\<close>
  for the other control bytes, the HTML characters unless \<open>SetEscapeHTML(false)\<close> is in force,
  \<open>\ufffd\<close> for a byte that starts no valid UTF-8 sequence, and \<open>\u2028\<close> and \<open>\u2029\<close>.
\<close>

definition hex_nibble :: "nat \<Rightarrow> char" where
  "hex_nibble n = (if n < 10 then char_of (48 + n) else char_of (87 + n))"

definition json_ascii :: "bool \<Rightarrow> char \<Rightarrow> string" where
  "json_ascii html c =
     (let n = of_char c :: nat
      in if c = CHR 0x22 \<or> c = CHR 0x5C then [CHR 0x5C, c]
         else if n = 8 then [CHR 0x5C, CHR ''b''] else if n = 12 then [CHR 0x5C, CHR ''f'']
         else if n = 10 then [CHR 0x5C, CHR ''n''] else if n = 13 then [CHR 0x5C, CHR ''r'']
         else if n = 9 then [CHR 0x5C, CHR ''t'']
         else if n < 0x20 \<or> html \<and> (c = CHR ''<'' \<or> c = CHR ''>'' \<or> c = CHR ''&'')
         then CHR 0x5C # ''u00'' @ [hex_nibble (n div 16), hex_nibble (n mod 16)]
         else [c])"

text \<open>The length of the UTF-8 sequence a string starts with, 0 when it is not valid.\<close>

definition is_cont :: "nat \<Rightarrow> nat \<Rightarrow> nat \<Rightarrow> string \<Rightarrow> bool" where
  "is_cont i lo hi s \<longleftrightarrow> i < length s \<and> lo \<le> of_char (s ! i) \<and> of_char (s ! i) \<le> hi"

definition utf8_len :: "string \<Rightarrow> nat" where
  "utf8_len s =
     (case s of
        [] \<Rightarrow> 0
      | c # _ \<Rightarrow>
          let n = of_char c :: nat
          in if n < 0x80 then 1
             else if 0xC2 \<le> n \<and> n \<le> 0xDF \<and> is_cont 1 0x80 0xBF s then 2
             else if n = 0xE0 \<and> is_cont 1 0xA0 0xBF s \<and> is_cont 2 0x80 0xBF s then 3
             else if n = 0xED \<and> is_cont 1 0x80 0x9F s \<and> is_cont 2 0x80 0xBF s then 3
             else if 0xE1 \<le> n \<and> n \<le> 0xEF \<and> n \<noteq> 0xED \<and> is_cont 1 0x80 0xBF s \<and> is_cont 2 0x80 0xBF s then 3
             else if n = 0xF0 \<and> is_cont 1 0x90 0xBF s \<and> is_cont 2 0x80 0xBF s \<and> is_cont 3 0x80 0xBF s then 4
             else if 0xF1 \<le> n \<and> n \<le> 0xF3 \<and> is_cont 1 0x80 0xBF s \<and> is_cont 2 0x80 0xBF s \<and> is_cont 3 0x80 0xBF s then 4
             else if n = 0xF4 \<and> is_cont 1 0x80 0x8F s \<and> is_cont 2 0x80 0xBF s \<and> is_cont 3 0x80 0xBF s then 4
             else 0)"

fun json_chars :: "bool \<Rightarrow> string \<Rightarrow> string" where
  "json_chars html [] = []"
| "json_chars html (c # cs) =
     (if (of_char c :: nat) < 0x80 then json_ascii html c @ json_chars html cs
      else let n = utf8_len (c # cs)
           in if n = 0 then CHR 0x5C # ''ufffd'' @ json_chars html cs
              else if take 3 (c # cs) = [CHR 0xE2, CHR 0x80, CHR 0xA8]
              then CHR 0x5C # ''u2028'' @ json_chars html (drop 2 cs)
              else if take 3 (c # cs) = [CHR 0xE2, CHR 0x80, CHR 0xA9]
              then CHR 0x5C # ''u2029'' @ json_chars html (drop 2 cs)
              else take n (c # cs) @ json_chars html (drop (n - 1) cs))"

definition json_quote :: "bool \<Rightarrow> string \<Rightarrow> string" where
  "json_quote html s = CHR 0x22 # json_chars html s @ [CHR 0x22]"

abbreviation json_str :: "string \<Rightarrow> string" where
  "json_str s \<equiv> json_quote True s"

definition json_int :: "int \<Rightarrow> string" where
  "json_int i = (if i < 0 then CHR ''-'' # decimal (nat (- i)) else decimal (nat i))"

definition json_array :: "string list \<Rightarrow> string" where
  "json_array es = ''['' @ Join es '','' @ '']''"

text \<open>An object from its members; an absent value is an \<open>omitempty\<close> field that is left out.\<close>

definition json_object :: "(string \<times> string option) list \<Rightarrow> string" where
  "json_object ms =
     ''{'' @ Join (concat (map (\<lambda>(k, v). case v of None \<Rightarrow> [] | Some t \<Rightarrow> [json_str k @ '':'' @ t]) ms)) '',''
       @ ''}''"

definition omit_empty :: "string \<Rightarrow> string option" where
  "omit_empty s = (if s = '''' then None else Some (json_str s))"

subsection \<open>Quoted strings determine the string\<close>

text \<open>A byte that is printed as it is.\<close>

definition json_plain :: "char \<Rightarrow> bool" where
  "json_plain c \<longleftrightarrow>
     0x20 \<le> (of_char c :: nat) \<and> (of_char c :: nat) < 0x80 \<and> c \<notin> {CHR 0x22, CHR 0x5C, CHR ''<'', CHR ''>'', CHR ''&''}"

lemma json_chars_plain: "list_all json_plain s \<Longrightarrow> json_chars html s = s"
proof (induction s)
  case (Cons c s)
  then have "json_ascii html c = [c]" "(of_char c :: nat) < 0x80"
    by (auto simp: json_ascii_def json_plain_def Let_def)
  with Cons show ?case by simp
qed simp

lemma json_quote_plain: "list_all json_plain s \<Longrightarrow> json_quote html s = CHR 0x22 # s @ [CHR 0x22]"
  by (simp add: json_quote_def json_chars_plain)

subsection \<open>Validity (\<open>json.Valid\<close>)\<close>

text \<open>
  The grammar of RFC 8259 as Go's scanner has it: it looks at bytes only, takes any byte from
  \<open>0x20\<close> on inside a string, and refuses more than 10000 open arrays and objects. Each scanner
  returns the text after what it has read. The first argument of the mutually recursive
  scanners is fuel: of two calls down a chain at least one follows a byte that was read, so that
  one more than twice the length of the text is enough (\<open>scan_fuel\<close>).
\<close>

definition is_ws :: "char \<Rightarrow> bool" where
  "is_ws c \<longleftrightarrow> c = CHR 0x20 \<or> c = CHR 0x09 \<or> c = CHR 0x0D \<or> c = CHR 0x0A"

definition skip_ws :: "string \<Rightarrow> string" where
  "skip_ws s = dropWhile is_ws s"

definition is_hex_byte :: "char \<Rightarrow> bool" where
  "is_hex_byte c \<longleftrightarrow> is_digit c \<or> CHR ''a'' \<le> c \<and> c \<le> CHR ''f'' \<or> CHR ''A'' \<le> c \<and> c \<le> CHR ''F''"

definition simple_escape :: "string \<Rightarrow> bool" where
  "simple_escape cs \<longleftrightarrow> cs \<noteq> [] \<and> hd cs \<in> set (CHR 0x22 # CHR 0x5C # ''/bfnrt'')"

definition hex_escape :: "string \<Rightarrow> bool" where
  "hex_escape cs \<longleftrightarrow> 5 \<le> length cs \<and> hd cs = CHR ''u'' \<and> list_all is_hex_byte (take 4 (tl cs))"

fun scan_str :: "string \<Rightarrow> string option" where
  "scan_str [] = None"
| "scan_str (c # cs) =
     (if c = CHR 0x22 then Some cs
      else if c = CHR 0x5C then
        (if simple_escape cs then scan_str (drop 1 cs)
         else if hex_escape cs then scan_str (drop 5 cs) else None)
      else if (of_char c :: nat) < 0x20 then None
      else scan_str cs)"

definition scan_digits :: "string \<Rightarrow> string option" where
  "scan_digits s = (case s of c # cs \<Rightarrow> if is_digit c then Some (dropWhile is_digit cs) else None | [] \<Rightarrow> None)"

definition scan_frac :: "string \<Rightarrow> string option" where
  "scan_frac s = (case s of c # cs \<Rightarrow> if c = CHR ''.'' then scan_digits cs else Some s | [] \<Rightarrow> Some [])"

definition scan_exp :: "string \<Rightarrow> string option" where
  "scan_exp s =
     (case s of
        c # cs \<Rightarrow>
          if c = CHR ''e'' \<or> c = CHR ''E''
          then (case cs of d # ds \<Rightarrow> if d = CHR ''+'' \<or> d = CHR ''-'' then scan_digits ds else scan_digits cs
                         | [] \<Rightarrow> None)
          else Some s
      | [] \<Rightarrow> Some [])"

definition scan_number :: "string \<Rightarrow> string option" where
  "scan_number s =
     (let t = (case s of c # cs \<Rightarrow> if c = CHR ''-'' then cs else s | [] \<Rightarrow> [])
      in case t of
           [] \<Rightarrow> None
         | c # cs \<Rightarrow>
             Option.bind (if c = CHR ''0'' then Some cs else scan_digits t)
               (\<lambda>r. Option.bind (scan_frac r) scan_exp))"

definition max_nesting :: nat where
  "max_nesting = 10000"

definition too_deep :: "nat \<Rightarrow> bool" where
  [simp]: "too_deep depth \<longleftrightarrow> depth \<ge> max_nesting"

declare too_deep_def [code del]

lemma too_deep_code [code]: "too_deep depth \<longleftrightarrow> int depth \<ge> 10000"
  by (auto simp: max_nesting_def)

fun scan_value :: "nat \<Rightarrow> nat \<Rightarrow> string \<Rightarrow> string option"
and scan_elems :: "nat \<Rightarrow> nat \<Rightarrow> string \<Rightarrow> string option"
and scan_members :: "nat \<Rightarrow> nat \<Rightarrow> string \<Rightarrow> string option" where
  "scan_value 0 depth s = None"
| "scan_value (Suc n) depth s =
     (case s of
        [] \<Rightarrow> None
      | c # cs \<Rightarrow>
          if c = CHR 0x22 then scan_str cs
          else if c = CHR ''{'' then
            (if too_deep depth then None
             else case skip_ws cs of
                    [] \<Rightarrow> None
                  | d # ds \<Rightarrow> if d = CHR ''}'' then Some ds else scan_members n (Suc depth) (d # ds))
          else if c = CHR ''['' then
            (if too_deep depth then None
             else case skip_ws cs of
                    [] \<Rightarrow> None
                  | d # ds \<Rightarrow> if d = CHR '']'' then Some ds else scan_elems n (Suc depth) (d # ds))
          else if HasPrefix s ''true'' then Some (drop 4 s)
          else if HasPrefix s ''false'' then Some (drop 5 s)
          else if HasPrefix s ''null'' then Some (drop 4 s)
          else scan_number s)"
| "scan_elems 0 depth s = None"
| "scan_elems (Suc n) depth s =
     Option.bind (scan_value n depth s) (\<lambda>r.
       case skip_ws r of
         [] \<Rightarrow> None
       | c # cs \<Rightarrow> if c = CHR '']'' then Some cs
                   else if c = CHR '','' then scan_elems n depth (skip_ws cs) else None)"
| "scan_members 0 depth s = None"
| "scan_members (Suc n) depth s =
     (case s of
        [] \<Rightarrow> None
      | q # qs \<Rightarrow>
          if q \<noteq> CHR 0x22 then None
          else Option.bind (scan_str qs) (\<lambda>r.
            case skip_ws r of
              [] \<Rightarrow> None
            | c # cs \<Rightarrow>
                if c \<noteq> CHR '':'' then None
                else Option.bind (scan_value n depth (skip_ws cs)) (\<lambda>r.
                  case skip_ws r of
                    [] \<Rightarrow> None
                  | c # cs \<Rightarrow> if c = CHR ''}'' then Some cs
                              else if c = CHR '','' then scan_members n depth (skip_ws cs) else None)))"

definition json_valid :: "string \<Rightarrow> bool" where
  "json_valid s \<longleftrightarrow>
     (case scan_value (Suc (2 * length s)) 0 (skip_ws s) of None \<Rightarrow> False | Some r \<Rightarrow> skip_ws r = [])"

text \<open>The document is an object: what \<open>json.Unmarshal\<close> into a map that stays non-nil accepts.\<close>

definition json_is_object :: "string \<Rightarrow> bool" where
  "json_is_object s \<longleftrightarrow> json_valid s \<and> HasPrefix (skip_ws s) ''{''"

subsection \<open>Encoded values are valid\<close>

definition delimited :: "string \<Rightarrow> bool" where
  "delimited r \<longleftrightarrow> r = [] \<or> hd r \<in> {CHR '','', CHR '']'', CHR ''}''}"

text \<open>A text that scans as one value wherever it stands, with \<open>d\<close> levels of nesting.\<close>

definition json_text :: "nat \<Rightarrow> string \<Rightarrow> bool" where
  "json_text d t \<longleftrightarrow>
     t \<noteq> [] \<and> \<not> is_ws (hd t)
     \<and> (\<forall>n depth r. length t < n \<longrightarrow> depth + d \<le> max_nesting \<longrightarrow> delimited r \<longrightarrow> scan_value n depth (t @ r) = Some r)"

lemma skip_ws_id: "t \<noteq> [] \<Longrightarrow> \<not> is_ws (hd t) \<Longrightarrow> skip_ws (t @ r) = t @ r"
  by (cases t) (simp_all add: skip_ws_def)

lemma skip_ws_delim [simp]:
  "skip_ws (CHR '','' # r) = CHR '','' # r" "skip_ws (CHR '']'' # r) = CHR '']'' # r"
  "skip_ws (CHR ''}'' # r) = CHR ''}'' # r" "skip_ws (CHR '':'' # r) = CHR '':'' # r"
  "skip_ws (CHR 0x22 # r) = CHR 0x22 # r" "skip_ws [] = []"
  by (simp_all add: skip_ws_def is_ws_def)

lemma hex_nibble_hex: "n < 16 \<Longrightarrow> is_hex_byte (hex_nibble n)"
proof -
  assume "n < 16"
  moreover have "\<forall>n \<in> set [0..<16]. is_hex_byte (hex_nibble n)" by code_simp
  ultimately show ?thesis by auto
qed

lemma scan_str_simple:
  "e \<in> set (CHR 0x22 # CHR 0x5C # ''/bfnrt'') \<Longrightarrow> scan_str (CHR 0x5C # e # s) = scan_str s"
  by (simp add: simple_escape_def)

lemma scan_str_hex:
  "list_all is_hex_byte [f, g, h, k] \<Longrightarrow> scan_str (CHR 0x5C # CHR ''u'' # f # g # h # k # s) = scan_str s"
  by (simp add: simple_escape_def hex_escape_def)

lemma scan_str_byte: "c \<noteq> CHR 0x22 \<Longrightarrow> c \<noteq> CHR 0x5C \<Longrightarrow> 0x20 \<le> (of_char c :: nat) \<Longrightarrow> scan_str (c # s) = scan_str s"
  by simp

lemma scan_str_ascii:
  assumes "(of_char c :: nat) < 0x80"
  shows "scan_str (json_ascii html c @ s) = scan_str s"
proof -
  let ?n = "of_char c :: nat"
  have hex: "is_hex_byte (hex_nibble (?n div 16))" "is_hex_byte (hex_nibble (?n mod 16))"
    using assms by (simp_all add: hex_nibble_hex)
  have zero: "is_hex_byte CHR ''0''" by code_simp
  have h: "scan_str (CHR 0x5C # CHR ''u'' # CHR ''0'' # CHR ''0'' # hex_nibble (?n div 16) # hex_nibble (?n mod 16) # s)
      = scan_str s"
    by (rule scan_str_hex) (simp add: hex zero)
  consider "c = CHR 0x22 \<or> c = CHR 0x5C" | "c \<noteq> CHR 0x22" "c \<noteq> CHR 0x5C" "?n = 8"
    | "c \<noteq> CHR 0x22" "c \<noteq> CHR 0x5C" "?n = 12" | "c \<noteq> CHR 0x22" "c \<noteq> CHR 0x5C" "?n = 10"
    | "c \<noteq> CHR 0x22" "c \<noteq> CHR 0x5C" "?n = 13" | "c \<noteq> CHR 0x22" "c \<noteq> CHR 0x5C" "?n = 9"
    | "c \<noteq> CHR 0x22" "c \<noteq> CHR 0x5C" "?n \<notin> {8, 9, 10, 12, 13}"
        "?n < 0x20 \<or> html \<and> (c = CHR ''<'' \<or> c = CHR ''>'' \<or> c = CHR ''&'')"
    | "c \<noteq> CHR 0x22" "c \<noteq> CHR 0x5C" "?n \<notin> {8, 9, 10, 12, 13}"
        "\<not> (?n < 0x20 \<or> html \<and> (c = CHR ''<'' \<or> c = CHR ''>'' \<or> c = CHR ''&''))" by blast
  then show ?thesis
  proof cases
    case 1
    then have "scan_str (CHR 0x5C # c # s) = scan_str s" by (intro scan_str_simple) auto
    with 1 show ?thesis unfolding json_ascii_def Let_def by (simp only: if_True append.simps)
  next
    case 8
    then have "json_ascii html c = [c]" by (simp add: json_ascii_def Let_def)
    with 8 show ?thesis by simp
  next
    case 7
    then have "json_ascii html c = CHR 0x5C # ''u00'' @ [hex_nibble (?n div 16), hex_nibble (?n mod 16)]"
      by (simp add: json_ascii_def Let_def)
    with h show ?thesis by (simp del: scan_str.simps)
  qed (simp_all add: json_ascii_def Let_def scan_str_simple del: scan_str.simps)
qed

lemma scan_str_high: "list_all (\<lambda>c. 0x80 \<le> (of_char c :: nat)) t \<Longrightarrow> scan_str (t @ s) = scan_str s"
proof (induction t)
  case (Cons c t)
  then have "0x80 \<le> (of_char c :: nat)" by simp
  then have "c \<noteq> CHR 0x22" "c \<noteq> CHR 0x5C" "\<not> (of_char c :: nat) < 0x20" by auto
  with Cons show ?case by simp
qed simp

lemma utf8_len_high:
  assumes "0x80 \<le> (of_char c :: nat)"
  shows "list_all (\<lambda>c. 0x80 \<le> (of_char c :: nat)) (take (utf8_len (c # cs)) (c # cs))"
proof -
  let ?s = "c # cs" and ?high = "\<lambda>c. 0x80 \<le> (of_char c :: nat)"
  have one: "?high (?s ! 0)" using assms by simp
  have high: "utf8_len ?s \<le> 4" "2 \<le> utf8_len ?s \<Longrightarrow> ?high (?s ! 1)"
    "3 \<le> utf8_len ?s \<Longrightarrow> ?high (?s ! 2)" "4 \<le> utf8_len ?s \<Longrightarrow> ?high (?s ! 3)"
    using assms unfolding utf8_len_def list.case Let_def is_cont_def
    by (simp_all split: if_split_asm)
  show ?thesis
    unfolding list_all_length
  proof (intro allI impI)
    fix i assume i: "i < length (take (utf8_len ?s) ?s)"
    show "?high (take (utf8_len ?s) ?s ! i)"
    proof (cases "i = 0")
      case False
      with i high(1) have "i = 1 \<or> i = 2 \<or> i = 3" by auto
      with i high(2-4) show ?thesis by auto
    qed (use one i in simp)
  qed
qed

lemma scan_str_json_chars: "scan_str (json_chars html s @ CHR 0x22 # r) = Some r"
proof (induction html s rule: json_chars.induct)
  case (2 html c cs)
  let ?n = "utf8_len (c # cs)"
  have esc: "scan_str (CHR 0x5C # CHR ''u'' # CHR ''f'' # CHR ''f'' # CHR ''f'' # CHR ''d'' # t) = scan_str t"
    "scan_str (CHR 0x5C # CHR ''u'' # CHR ''2'' # CHR ''0'' # CHR ''2'' # CHR ''8'' # t) = scan_str t"
    "scan_str (CHR 0x5C # CHR ''u'' # CHR ''2'' # CHR ''0'' # CHR ''2'' # CHR ''9'' # t) = scan_str t" for t
    by (rule scan_str_hex, code_simp)+
  show ?case
  proof (cases "(of_char c :: nat) < 0x80")
    case True
    with "2.IH"(1) show ?thesis by (simp add: scan_str_ascii)
  next
    case False
    then have high: "scan_str (take ?n (c # cs) @ t) = scan_str t" for t
      by (intro scan_str_high utf8_len_high) simp
    show ?thesis
    proof (cases "?n = 0")
      case True
      with False "2.IH"(2) show ?thesis by (simp add: esc del: scan_str.simps)
    next
      case n: False
      show ?thesis
        using "2.IH"(3-5)[OF False refl n] False n high
        by (cases "take 3 (c # cs) = [CHR 0xE2, CHR 0x80, CHR 0xA8]";
            cases "take 3 (c # cs) = [CHR 0xE2, CHR 0x80, CHR 0xA9]")
          (simp_all add: Let_def esc del: scan_str.simps take_Suc_Cons take_Cons_numeral)
    qed
  qed
qed simp

lemma json_text_quote: "json_text 0 (json_quote html s)"
  unfolding json_text_def
proof (intro conjI allI impI)
  fix n depth r
  assume "length (json_quote html s) < n"
  then obtain m where n: "n = Suc m" by (cases n) simp_all
  show "scan_value n depth (json_quote html s @ r) = Some r"
    unfolding n json_quote_def by (simp add: scan_str_json_chars)
qed (simp_all add: json_quote_def is_ws_def)

lemma decimal_hd: "n \<noteq> 0 \<Longrightarrow> hd (decimal n) \<noteq> CHR ''0''"
proof (induction n rule: decimal.induct)
  case (1 n)
  show ?case
  proof (cases "n < 10")
    case True
    then have "digit_val (digit_char n) = n" by simp
    with True 1(2) have "digit_char n \<noteq> CHR ''0''" by (metis digit_val_zero)
    with True show ?thesis by (simp add: decimal.simps[of n])
  next
    case False
    then have "n div 10 \<noteq> 0" by simp
    with False 1(1) show ?thesis by (simp add: decimal.simps[of n] hd_append)
  qed
qed

lemma dropWhile_digits: "all_digits ds \<Longrightarrow> r = [] \<or> \<not> is_digit (hd r) \<Longrightarrow> dropWhile is_digit (ds @ r) = r"
  by (induction ds) (auto simp: dropWhile_eq_self_iff)

lemma delimited_not:
  assumes "delimited r"
  shows "r = [] \<or> \<not> is_digit (hd r)" "scan_frac r = Some r" "scan_exp r = Some r"
  using assms by (cases r; auto simp: delimited_def scan_frac_def scan_exp_def is_digit_def)+

lemma scan_number_decimal:
  assumes "delimited r"
  shows "scan_number (decimal n @ r) = Some r" "scan_number (CHR ''-'' # decimal n @ r) = Some r"
proof -
  obtain c cs where d: "decimal n = c # cs" by (cases "decimal n") simp_all
  have digits: "is_digit c" "all_digits cs" using decimal_digits[of n] d by simp_all
  have "c \<noteq> CHR ''-''" using digits(1) by (auto simp: is_digit_def)
  have "c = CHR ''0'' \<Longrightarrow> cs = []"
  proof -
    assume "c = CHR ''0''"
    then have "n = 0" using decimal_hd[of n] d by auto
    then show "cs = []" using d by (simp add: decimal.simps[of 0])
  qed
  then have "(if c = CHR ''0'' then Some (cs @ r) else scan_digits (c # cs @ r)) = Some r"
    using digits dropWhile_digits[OF digits(2) delimited_not(1)[OF assms]] by (simp add: scan_digits_def)
  then show "scan_number (decimal n @ r) = Some r" "scan_number (CHR ''-'' # decimal n @ r) = Some r"
    using d \<open>c \<noteq> CHR ''-''\<close> delimited_not[OF assms] by (simp_all add: scan_number_def Let_def)
qed

lemma json_text_int: "json_text 0 (json_int i)"
  unfolding json_text_def
proof (intro conjI allI impI)
  have first: "hd (json_int i) = CHR ''-'' \<or> is_digit (hd (json_int i))" and ne: "json_int i \<noteq> []"
    using decimal_digits[of "nat i"] by (auto simp: json_int_def hd_in_set list_all_iff)
  then show "json_int i \<noteq> []" "\<not> is_ws (hd (json_int i))" by (auto simp: is_ws_def is_digit_def)
  fix n depth r
  assume "length (json_int i) < n" and r: "delimited r"
  then obtain m where n: "n = Suc m" by (cases n) simp_all
  have scan: "scan_number (json_int i @ r) = Some r"
    using scan_number_decimal[OF r] by (simp add: json_int_def)
  obtain c cs where c: "json_int i = c # cs" using ne by (cases "json_int i") simp_all
  have "c \<noteq> CHR 0x22" "c \<noteq> CHR ''{''" "c \<noteq> CHR ''[''" "c \<noteq> CHR ''t''" "c \<noteq> CHR ''f''" "c \<noteq> CHR ''n''"
    using first c by (auto simp: is_digit_def)
  then show "scan_value n depth (json_int i @ r) = Some r"
    unfolding n c using scan[unfolded c] by simp
qed

lemma json_text_mono: "json_text d t \<Longrightarrow> d \<le> e \<Longrightarrow> json_text e t"
  unfolding json_text_def by (meson le_trans add_left_mono)

lemma json_text_valid:
  assumes "json_text d t" "d \<le> max_nesting"
  shows "json_valid t"
proof -
  have "length t < Suc (2 * length t)" by simp
  then have "scan_value (Suc (2 * length t)) 0 (t @ []) = Some []"
    using assms unfolding json_text_def delimited_def by (metis add_0)
  moreover have "skip_ws t = t" using assms(1) skip_ws_id[of t "[]"] by (simp add: json_text_def)
  ultimately show ?thesis by (simp add: json_valid_def)
qed

lemma Join_Cons: "ts \<noteq> [] \<Longrightarrow> Join (t # ts) sep = t @ sep @ Join ts sep"
  by (cases ts) simp_all

lemma json_text_skip: "json_text d t \<Longrightarrow> skip_ws (t @ r) = t @ r"
  by (rule skip_ws_id) (simp_all add: json_text_def)

lemma Join_first: "ts \<noteq> [] \<Longrightarrow> hd ts \<noteq> [] \<Longrightarrow> Join ts sep \<noteq> [] \<and> hd (Join ts sep) = hd (hd ts)"
  by (cases ts rule: remdups_adj.cases) auto

lemma scan_elems_Join:
  assumes "ts \<noteq> []" "list_all (json_text d) ts" "depth + d \<le> max_nesting" "Suc (length (Join ts '','')) < n"
  shows "scan_elems n depth (Join ts '','' @ CHR '']'' # r) = Some r"
  using assms
proof (induction ts arbitrary: n)
  case (Cons t ts)
  then obtain m where n: "n = Suc m" by (cases n) simp_all
  have t: "json_text d t" using Cons.prems(2) by simp
  show ?case
  proof (cases "ts = []")
    case True
    have "scan_value m depth (t @ CHR '']'' # r) = Some (CHR '']'' # r)"
      using t Cons.prems(3,4) n True by (simp add: json_text_def delimited_def)
    with True n show ?thesis by simp
  next
    case False
    let ?rest = "Join ts '','' @ CHR '']'' # r"
    have len: "length t < m" "Suc (length (Join ts '','')) < m"
      using Cons.prems(4) n False t by (auto simp: Join_Cons json_text_def)
    have "scan_value m depth (t @ CHR '','' # ?rest) = Some (CHR '','' # ?rest)"
      using t Cons.prems(3) len(1) by (simp add: json_text_def delimited_def)
    moreover have "skip_ws ?rest = ?rest"
    proof (rule skip_ws_id)
      have "json_text d (hd ts)" using Cons.prems(2) False by (cases ts) simp_all
      with Join_first[OF False, of "'',''"]
      show "Join ts '','' \<noteq> []" "\<not> is_ws (hd (Join ts '',''))" by (auto simp: json_text_def)
    qed
    moreover have "scan_elems m depth ?rest = Some r"
      using Cons.IH[OF False _ Cons.prems(3) len(2)] Cons.prems(2) by simp
    ultimately show ?thesis using False n by (simp add: Join_Cons)
  qed
qed simp

lemma json_text_array:
  assumes "list_all (json_text d) ts"
  shows "json_text (Suc d) (json_array ts)"
  unfolding json_text_def
proof (intro conjI allI impI)
  fix n depth r
  assume n: "length (json_array ts) < n" and depth: "depth + Suc d \<le> max_nesting"
  then obtain m where m: "n = Suc m" by (cases n) simp_all
  show "scan_value n depth (json_array ts @ r) = Some r"
  proof (cases "ts = []")
    case True
    then show ?thesis using depth m by (simp add: json_array_def skip_ws_def is_ws_def)
  next
    case False
    have hd: "json_text d (hd ts)" using assms False by (cases ts) simp_all
    with Join_first[OF False, of "'',''"] obtain c cs
      where c: "Join ts '','' = c # cs" "\<not> is_ws c" by (cases "Join ts '',''") (auto simp: json_text_def)
    have "c \<noteq> CHR '']''"
    proof
      assume "c = CHR '']''"
      with Join_first[OF False, of "'',''"] hd c(1) obtain u where u: "hd ts = CHR '']'' # u"
        by (cases "hd ts") (auto simp: json_text_def)
      have "scan_value (Suc (Suc (length u))) 0 (hd ts @ []) = Some []"
        using hd u depth unfolding json_text_def delimited_def by (metis add_leD2 add_0 le_add2 le_trans add_Suc_right lessI length_Cons Suc_leD)
      then show False by (simp add: u scan_number_def scan_digits_def is_digit_def)
    qed
    moreover have "scan_elems m (Suc depth) (Join ts '','' @ CHR '']'' # r) = Some r"
      using scan_elems_Join[OF False assms, of "Suc depth" m r] depth n m by (simp add: json_array_def)
    ultimately show ?thesis
      using depth m c by (simp add: json_array_def skip_ws_def)
  qed
qed (simp_all add: json_array_def is_ws_def)

lemma scan_members_Join:
  assumes "ms \<noteq> []" "list_all (\<lambda>(k, t). json_text d t) ms" "depth + d \<le> max_nesting"
    and "Suc (length (Join (map (\<lambda>(k, t). json_str k @ '':'' @ t) ms) '','')) < n"
  shows "scan_members n depth (Join (map (\<lambda>(k, t). json_str k @ '':'' @ t) ms) '','' @ CHR ''}'' # r) = Some r"
  using assms
proof (induction ms arbitrary: n)
  case (Cons kt ms)
  let ?f = "\<lambda>(k, t). json_str k @ '':'' @ t"
  obtain k t where kt: "kt = (k, t)" by (cases kt)
  from Cons.prems obtain m where n: "n = Suc m" by (cases n) simp_all
  have t: "json_text d t" using Cons.prems(2) kt by simp
  have head: "scan_members n depth (json_str k @ '':'' @ t @ u) =
      Option.bind (scan_value m depth (t @ u)) (\<lambda>r. case skip_ws r of [] \<Rightarrow> None
        | c # cs \<Rightarrow> if c = CHR ''}'' then Some cs
                    else if c = CHR '','' then scan_members m depth (skip_ws cs) else None)" for u
    unfolding n json_quote_def by (simp add: scan_str_json_chars json_text_skip[OF t])
  show ?case
  proof (cases "ms = []")
    case True
    have "scan_value m depth (t @ CHR ''}'' # r) = Some (CHR ''}'' # r)"
      using t Cons.prems(3,4) n True kt by (simp add: json_text_def delimited_def)
    with True kt head show ?thesis by simp
  next
    case False
    let ?rest = "Join (map ?f ms) '','' @ CHR ''}'' # r"
    have len: "length t < m" "Suc (length (Join (map ?f ms) '','')) < m"
      using Cons.prems(4) n False kt by (auto simp: Join_Cons)
    have "scan_value m depth (t @ CHR '','' # ?rest) = Some (CHR '','' # ?rest)"
      using t Cons.prems(3) len(1) by (simp add: json_text_def delimited_def)
    moreover have "skip_ws ?rest = ?rest"
    proof (rule skip_ws_id)
      show "Join (map ?f ms) '','' \<noteq> []" "\<not> is_ws (hd (Join (map ?f ms) '',''))"
        using Join_first[of "map ?f ms" "'',''"] False
        by (cases ms; auto simp: json_quote_def is_ws_def)+
    qed
    moreover have "scan_members m depth ?rest = Some r"
      using Cons.IH[OF False _ Cons.prems(3) len(2)] Cons.prems(2) by simp
    ultimately show ?thesis using False kt head[of "CHR '','' # ?rest"] by (simp add: Join_Cons)
  qed
qed simp

lemma json_object_members:
  "concat (map (\<lambda>(k, v). case v of None \<Rightarrow> [] | Some t \<Rightarrow> [json_str k @ '':'' @ t]) ms) =
     map (\<lambda>(k, t). json_str k @ '':'' @ t) (concat (map (\<lambda>(k, v). case v of None \<Rightarrow> [] | Some t \<Rightarrow> [(k, t)]) ms))"
  by (induction ms) (auto split: option.splits)

lemma json_text_object:
  assumes "list_all (\<lambda>(k, v). case v of None \<Rightarrow> True | Some t \<Rightarrow> json_text d t) ms"
  shows "json_text (Suc d) (json_object ms)"
proof -
  define ps where "ps = concat (map (\<lambda>(k, v). case v of None \<Rightarrow> [] | Some t \<Rightarrow> [(k, t)]) ms)"
  let ?f = "\<lambda>(k, t). json_str k @ '':'' @ t"
  have ok: "list_all (\<lambda>(k, t). json_text d t) ps"
    using assms unfolding ps_def by (induction ms) (auto split: option.splits)
  define body where "body = Join (map ?f ps) '',''"
  have obj: "json_object ms = ''{'' @ body @ ''}''"
    unfolding json_object_def json_object_members ps_def body_def ..
  show ?thesis
    unfolding json_text_def
  proof (intro conjI allI impI)
    fix n depth r
    assume n: "length (json_object ms) < n" and depth: "depth + Suc d \<le> max_nesting"
    then obtain m where m: "n = Suc m" by (cases n) simp_all
    show "scan_value n depth (json_object ms @ r) = Some r"
    proof (cases ps)
      case Nil
      then show ?thesis using depth m by (simp add: obj body_def skip_ws_def is_ws_def)
    next
      case (Cons p qs)
      have "map ?f ps \<noteq> []" "hd (map ?f ps) \<noteq> []" "hd (hd (map ?f ps)) = CHR 0x22"
        using Cons by (cases p; simp add: json_quote_def)+
      with Join_first[of "map ?f ps" "'',''"] obtain cs where c: "body = CHR 0x22 # cs"
        unfolding body_def by (cases "Join (map ?f ps) '',''") auto
      have "Suc (length body) < m" using n m by (simp add: obj)
      then have "scan_members m (Suc depth) (body @ CHR ''}'' # r) = Some r"
        unfolding body_def using Cons depth by (intro scan_members_Join[OF _ ok]) simp_all
      then show ?thesis
        using depth m by (simp add: obj c)
    qed
  qed (simp_all add: obj is_ws_def)
qed

lemmas json_texts = json_text_quote json_text_int json_text_array json_text_object

text \<open>More fuel than the length of the text changes nothing.\<close>

lemma scan_digits_shorter: "scan_digits s = Some r \<Longrightarrow> length r < length s"
  by (auto simp: scan_digits_def less_Suc_eq_le length_dropWhile_le split: list.splits if_splits)

lemma scan_str_shorter: "scan_str s = Some r \<Longrightarrow> length r < length s"
  by (induction s rule: scan_str.induct) (fastforce split: if_splits)+

lemma skip_ws_le: "length (skip_ws s) \<le> length s"
  by (simp add: skip_ws_def length_dropWhile_le)

lemma scan_number_shorter:
  assumes "scan_number s = Some r"
  shows "length r < length s"
proof -
  have frac: "length t \<le> length u" if "scan_frac u = Some t" for t u
    using that scan_digits_shorter by (fastforce simp: scan_frac_def split: list.splits if_splits)
  have exp: "length t \<le> length u" if "scan_exp u = Some t" for t u
    using that scan_digits_shorter by (fastforce simp: scan_exp_def split: list.splits if_splits)
  let ?t = "case s of c # cs \<Rightarrow> if c = CHR ''-'' then cs else s | [] \<Rightarrow> []"
  have le: "length ?t \<le> length s" by (simp split: list.split)
  obtain c cs where t: "?t = c # cs" using assms by (cases ?t) (simp_all add: scan_number_def)
  with assms obtain u v where u: "(if c = CHR ''0'' then Some cs else scan_digits (c # cs)) = Some u"
    "scan_frac u = Some v" "scan_exp v = Some r"
    by (simp only: scan_number_def Let_def t list.case bind_eq_Some_conv) blast
  from u(1) scan_digits_shorter[of "c # cs" u] have "length u < length ?t"
    unfolding t by (simp split: if_splits)
  with le frac[OF u(2)] exp[OF u(3)] show ?thesis by linarith
qed

lemma skip_ws_Cons_shorter: "skip_ws r = c # cs \<Longrightarrow> length cs < length r"
  using skip_ws_le[of r] by simp

lemma scan_value_cases:
  assumes "scan_value (Suc n) depth s = Some r"
  obtains (str) cs where "s = CHR 0x22 # cs" "scan_str cs = Some r"
  | (empty) c cs d where "s = c # cs" "skip_ws cs = d # r"
  | (members) cs where "s = CHR ''{'' # cs" "scan_members n (Suc depth) (skip_ws cs) = Some r"
  | (elems) cs where "s = CHR ''['' # cs" "scan_elems n (Suc depth) (skip_ws cs) = Some r"
  | (word) k where "s \<noteq> []" "0 < k" "r = drop k s"
  | (number) "scan_number s = Some r"
proof (cases s)
  case (Cons c cs)
  note eq = assms[unfolded Cons]
  consider "c = CHR 0x22" | "c = CHR ''{''" | "c = CHR ''[''"
    | "c \<noteq> CHR 0x22" "c \<noteq> CHR ''{''" "c \<noteq> CHR ''[''" by blast
  then show thesis
  proof cases
    case 1 with eq Cons str show thesis by simp
  next
    case 2 with eq Cons empty members show thesis
      by (cases "skip_ws cs") (simp_all split: if_splits)
  next
    case 3 with eq Cons empty elems show thesis
      by (cases "skip_ws cs") (simp_all split: if_splits)
  next
    case 4
    note e = eq[unfolded scan_value.simps list.case if_not_P[OF 4(1)] if_not_P[OF 4(2)] if_not_P[OF 4(3)]]
    have "r = drop 4 s \<or> r = drop 5 s \<or> scan_number s = Some r"
      using e Cons by (simp split: if_split_asm)
    with Cons word number show thesis by (metis list.discI zero_less_numeral)
  qed
qed (use assms in simp)

lemma scan_members_first:
  assumes "scan_members (Suc n) d s = Some r"
  obtains qs t c cs where "s = CHR 0x22 # qs" "scan_str qs = Some t" "skip_ws t = c # cs"
    "Option.bind (scan_value n d (skip_ws cs)) (\<lambda>r. case skip_ws r of [] \<Rightarrow> None
         | c # cs \<Rightarrow> if c = CHR ''}'' then Some cs
            else if c = CHR '','' then scan_members n d (skip_ws cs) else None) = Some r"
proof (cases s)
  case (Cons q qs)
  with assms have q: "q = CHR 0x22" by (simp split: if_splits)
  then obtain t where t: "scan_str qs = Some t" using assms Cons by (cases "scan_str qs") simp_all
  then obtain c cs where ws: "skip_ws t = c # cs" using assms Cons q by (cases "skip_ws t") simp_all
  then have c: "c = CHR '':''" using assms Cons q t by (simp split: if_splits)
  show thesis
    by (rule that[OF _ t ws]) (use assms Cons q t ws c in simp_all)
qed (use assms in simp)

lemma scan_shorter:
  "scan_value n d s = Some r \<Longrightarrow> length r < length s"
  "scan_elems n d s = Some r \<Longrightarrow> length r < length s"
  "scan_members n d s = Some r \<Longrightarrow> length r < length s"
proof (induction n arbitrary: d s r)
  case (Suc n)
  {
    case 1
    then show ?case
    proof (cases rule: scan_value_cases)
      case (str cs) with scan_str_shorter[of cs r] show ?thesis by simp
    next
      case (empty c cs d') with skip_ws_Cons_shorter[of cs d' r] show ?thesis by simp
    next
      case (members cs)
      with Suc.IH(3)[OF members(2)] skip_ws_le[of cs] show ?thesis by simp
    next
      case (elems cs)
      with Suc.IH(2)[OF elems(2)] skip_ws_le[of cs] show ?thesis by simp
    next
      case (word k) then show ?thesis by simp
    next
      case number then show ?thesis by (rule scan_number_shorter)
    qed
  next
    case 2
    then obtain t where t0: "scan_value n d s = Some t"
      and r0: "(case skip_ws t of [] \<Rightarrow> None | c # cs \<Rightarrow> if c = CHR '']'' then Some cs
                 else if c = CHR '','' then scan_elems n d (skip_ws cs) else None) = Some r"
      unfolding scan_elems.simps bind_eq_Some_conv by blast
    from r0 obtain c cs where t: "scan_value n d s = Some t" "skip_ws t = c # cs"
      and r: "(if c = CHR '']'' then Some cs else if c = CHR '','' then scan_elems n d (skip_ws cs) else None) = Some r"
      using t0 by (cases "skip_ws t") simp_all
    note le = Suc.IH(1)[OF t(1)] skip_ws_Cons_shorter[OF t(2)] skip_ws_le[of cs]
    from r show ?case using le Suc.IH(2)[of d "skip_ws cs" r] by (simp split: if_splits)
  next
    case 3
    then obtain qs t c cs where s: "s = CHR 0x22 # qs" "scan_str qs = Some t" "skip_ws t = c # cs"
      and r: "Option.bind (scan_value n d (skip_ws cs)) (\<lambda>r. case skip_ws r of [] \<Rightarrow> None
           | c # cs \<Rightarrow> if c = CHR ''}'' then Some cs
              else if c = CHR '','' then scan_members n d (skip_ws cs) else None) = Some r"
      by (rule scan_members_first)
    from r obtain u where u0: "scan_value n d (skip_ws cs) = Some u"
      and r0: "(case skip_ws u of [] \<Rightarrow> None
           | c # cs \<Rightarrow> if c = CHR ''}'' then Some cs
              else if c = CHR '','' then scan_members n d (skip_ws cs) else None) = Some r"
      unfolding bind_eq_Some_conv by blast
    from r0 obtain c' cs' where u: "scan_value n d (skip_ws cs) = Some u" "skip_ws u = c' # cs'"
      and r': "(if c' = CHR ''}'' then Some cs' else if c' = CHR '','' then scan_members n d (skip_ws cs') else None) = Some r"
      using u0 by (cases "skip_ws u") simp_all
    note le = scan_str_shorter[OF s(2)] skip_ws_Cons_shorter[OF s(3)] skip_ws_le[of cs]
      Suc.IH(1)[OF u(1)] skip_ws_Cons_shorter[OF u(2)] skip_ws_le[of cs']
    from r' show ?case using le s(1) Suc.IH(3)[of d "skip_ws cs'" r] by (simp split: if_splits)
  }
qed simp_all

lemma scan_fuel:
  "2 * length s < n \<Longrightarrow> scan_value (Suc n) d s = scan_value n d s"
  "Suc (2 * length s) < n \<Longrightarrow> scan_elems (Suc n) d s = scan_elems n d s"
  "Suc (2 * length s) < n \<Longrightarrow> scan_members (Suc n) d s = scan_members n d s"
proof (induction n arbitrary: d s)
  case (Suc n)
  {
    case 1
    show ?case
    proof (cases s)
      case (Cons c cs)
      have "scan_members (Suc n) e (skip_ws cs) = scan_members n e (skip_ws cs)"
        "scan_elems (Suc n) e (skip_ws cs) = scan_elems n e (skip_ws cs)" for e
        using Suc.IH(2,3)[of "skip_ws cs" e] skip_ws_le[of cs] 1 Cons by simp_all
      then show ?thesis unfolding Cons scan_value.simps(2)[of "Suc n"] scan_value.simps(2)[of n]
        by (cases "skip_ws cs") (simp_all del: scan_value.simps scan_members.simps scan_elems.simps)
    qed simp
  next
    case 2
    have v: "scan_value (Suc n) d s = scan_value n d s" using Suc.IH(1) 2 by simp
    have e: "scan_elems (Suc n) d (skip_ws cs) = scan_elems n d (skip_ws cs)"
      if "scan_value n d s = Some r" "skip_ws r = c # cs" for r c cs
      using Suc.IH(2)[of "skip_ws cs" d] scan_shorter(1)[OF that(1)] skip_ws_Cons_shorter[OF that(2)]
        skip_ws_le[of cs] 2 by simp
    define k where "k m r = (case skip_ws r of [] \<Rightarrow> None | c # cs \<Rightarrow> if c = CHR '']'' then Some cs
        else if c = CHR '','' then scan_elems m d (skip_ws cs) else None)" for m r
    have step: "scan_elems (Suc m) d s = Option.bind (scan_value m d s) (k m)" for m
      by (simp only: scan_elems.simps(2) k_def[abs_def])
    have "k (Suc n) r = k n r" if "scan_value n d s = Some r" for r
      using e[OF that] unfolding k_def by (cases "skip_ws r") (simp_all del: scan_elems.simps)
    then show ?case unfolding step v by (cases "scan_value n d s") simp_all
  next
    case 3
    show ?case
    proof (cases s)
      case (Cons q qs)
      have v: "scan_value (Suc n) d (skip_ws cs) = scan_value n d (skip_ws cs)"
        if "scan_str qs = Some r" "skip_ws r = c # cs" for r c cs
        using Suc.IH(1)[of "skip_ws cs" d] scan_str_shorter[OF that(1)] skip_ws_Cons_shorter[OF that(2)]
          skip_ws_le[of cs] 3 Cons by simp
      have m: "scan_members (Suc n) d (skip_ws cs') = scan_members n d (skip_ws cs')"
        if "scan_str qs = Some r" "skip_ws r = c # cs" "scan_value n d (skip_ws cs) = Some r'" "skip_ws r' = c' # cs'"
        for r c cs r' c' cs'
        using Suc.IH(3)[of "skip_ws cs'" d] scan_str_shorter[OF that(1)] skip_ws_Cons_shorter[OF that(2)]
          skip_ws_le[of cs] scan_shorter(1)[OF that(3)] skip_ws_Cons_shorter[OF that(4)] skip_ws_le[of cs'] 3 Cons by simp
      define k where "k m r = (case skip_ws r of [] \<Rightarrow> None | c # cs \<Rightarrow> if c = CHR ''}'' then Some cs
          else if c = CHR '','' then scan_members m d (skip_ws cs) else None)" for m r
      define h where "h m r = (case skip_ws r of [] \<Rightarrow> None | c # cs \<Rightarrow> if c \<noteq> CHR '':'' then None
          else Option.bind (scan_value m d (skip_ws cs)) (k m))" for m r
      have step: "scan_members (Suc m) d s = (if q \<noteq> CHR 0x22 then None else Option.bind (scan_str qs) (h m))" for m
        by (simp only: scan_members.simps(2) Cons list.case h_def[abs_def] k_def[abs_def])
      have "h (Suc n) r = h n r" if r: "scan_str qs = Some r" for r
      proof (cases "skip_ws r")
        case ws: (Cons c cs)
        have "k (Suc n) t = k n t" if "scan_value n d (skip_ws cs) = Some t" for t
          using m[OF r ws that] unfolding k_def by (cases "skip_ws t") (simp_all del: scan_members.simps)
        then have "Option.bind (scan_value n d (skip_ws cs)) (k (Suc n)) = Option.bind (scan_value n d (skip_ws cs)) (k n)"
          by (cases "scan_value n d (skip_ws cs)") simp_all
        then show ?thesis by (simp only: h_def ws list.case v[OF r ws])
      qed (simp add: h_def)
      then have "Option.bind (scan_str qs) (h (Suc n)) = Option.bind (scan_str qs) (h n)"
        by (cases "scan_str qs") simp_all
      then show ?thesis by (simp only: step)
    qed simp
  }
qed simp_all

end
