(* ===== verification/Publication_Plan.thy ===== *)
theory Publication_Plan
  imports Generation_Id Manifest Go_Json
begin

section \<open>Publication plans (\<open>internal/v2/state/publication_plan.go\<close>)\<close>

text \<open>
  A publication plan turns the delta between two generation manifests into the ordered work of
  a publication: payload, immutable metadata, stable aliases, one commit unit of pointers per
  view, and deletion candidates. Building it is pure; the definitions follow the source
  function by function, every refusal included.
\<close>

subsection \<open>Data\<close>

record PublicationPlanInput =
  pi_repository_id :: string
  pi_target_identity :: string
  pi_base_checkpoint :: string
  pi_target_generation :: GenerationID
  pi_base_manifest :: "GenerationFile list"
  pi_target_manifest :: "GenerationFile list"
  pi_changes :: "FileChange list"

record PublicationPlanOperation =
  po_operation :: string
  po_path :: string
  po_phase :: string
  po_size :: int
  po_sha256 :: string
  po_expected_old_sha256 :: string

record PublicationCommitUnit =
  cu_view_id :: string
  cu_protocol :: string
  cu_pointers :: "PublicationPlanOperation list"

record PublicationPlan =
  pp_schema :: string
  pp_repository_id :: string
  pp_target_identity :: string
  pp_base_checkpoint :: string
  pp_target_generation :: GenerationID
  pp_manifest_sha256 :: string
  pp_payload :: "PublicationPlanOperation list"
  pp_immutable_metadata :: "PublicationPlanOperation list"
  pp_stable_aliases :: "PublicationPlanOperation list"
  pp_commit_units :: "PublicationCommitUnit list"
  pp_delete_candidates :: "PublicationPlanOperation list"
  pp_plan_sha256 :: string

definition PublicationPlanSchemaV1 :: string where
  "PublicationPlanSchemaV1 = ''sow/publication-plan/v1''"

subsection \<open>Helpers\<close>

text \<open>\<open>canonicalUUIDv4Pattern\<close>: \<open>^[0-9a-f]{8}-[0-9a-f]{4}-4[0-9a-f]{3}-[89ab][0-9a-f]{3}-[0-9a-f]{12}$\<close>.\<close>

definition IsCanonicalRepositoryID :: "string \<Rightarrow> bool" where
  "IsCanonicalRepositoryID value \<longleftrightarrow>
     (case Split value CHR ''-'' of
        [a, b, c, d, e] \<Rightarrow>
          length a = 8 \<and> list_all is_lower_hex a \<and> length b = 4 \<and> list_all is_lower_hex b
          \<and> length c = 4 \<and> list_all is_lower_hex c \<and> hd c = CHR ''4''
          \<and> length d = 4 \<and> list_all is_lower_hex d \<and> hd d \<in> {CHR ''8'', CHR ''9'', CHR ''a'', CHR ''b''}
          \<and> length e = 12 \<and> list_all is_lower_hex e
      | _ \<Rightarrow> False)"

definition validPublicationPath :: "string \<Rightarrow> bool" where
  "validPublicationPath value \<longleftrightarrow>
     value \<noteq> '''' \<and> value \<noteq> ''.'' \<and> path_Clean value = value \<and> \<not> HasPrefix value ''/''
     \<and> \<not> HasPrefix value ''../'' \<and> \<not> ContainsAny value unsafe_path_bytes"

definition publicationPointerView :: "string \<Rightarrow> string \<times> string \<times> bool" where
  "publicationPointerView value =
     (if HasSuffix value ''/repodata/repomd.xml'' \<or> HasSuffix value ''/repodata/repomd.xml.asc''
      then let view = TrimSuffix (TrimSuffix value ''/repomd.xml.asc'') ''/repomd.xml'';
               view' = TrimSuffix view ''/repodata''
           in (view', ''rpm'', HasPrefix view' ''dists/'')
      else case Split value slash of
             [a, b, c] \<Rightarrow>
               (if a = ''dists'' \<and> (c = ''Release.gpg'' \<or> c = ''Release'' \<or> c = ''InRelease'')
                then (Join [a, b] ''/'', ''apt'', True) else ('''', '''', False))
           | _ \<Rightarrow> ('''', '''', False))"

definition isAPTStableAlias :: "string \<Rightarrow> bool" where
  "isAPTStableAlias value =
     (if \<not> HasPrefix value ''dists/'' \<or> Contains value ''/repodata/'' \<or> Contains value ''/by-hash/''
      then False
      else case publicationPointerView value of (_, _, pointer) \<Rightarrow> \<not> pointer)"

fun canonical_manifest_loop :: "string \<Rightarrow> GenerationFile list \<Rightarrow> bool" where
  "canonical_manifest_loop previous [] = True"
| "canonical_manifest_loop previous (file # files) =
     (if gf_path file \<le> previous \<or> \<not> validPublicationPath (gf_path file) \<or> gf_size file < 0
         \<or> \<not> validSHA256Text (gf_sha256 file)
         \<or> gf_phase file \<noteq> ''payload'' \<and> gf_phase file \<noteq> ''metadata'' \<and> gf_phase file \<noteq> ''pointer''
      then False else canonical_manifest_loop (gf_path file) files)"

definition canonicalManifestArray :: "GenerationFile list \<Rightarrow> bool" where
  "canonicalManifestArray files =
     (case normalizeManifestForLayout files LayoutSinglePayloadV1 of
        Inl _ \<Rightarrow> False
      | Inr (normalized, _) \<Rightarrow> if normalized \<noteq> files then False else canonical_manifest_loop '''' files)"

fun canonical_change_loop :: "string list \<Rightarrow> FileChange list \<Rightarrow> FileChange list \<Rightarrow> bool" where
  "canonical_change_loop seen (change # changes) (want # expected) =
     (if change \<noteq> want then False
      else if fc_path change \<in> set seen then False
      else canonical_change_loop (fc_path change # seen) changes expected)"
| "canonical_change_loop seen _ _ = True"

definition canonicalChangeArray :: "FileChange list \<Rightarrow> bool" where
  "canonicalChangeArray changes = canonical_change_loop [] changes (sort_key change_key changes)"

subsection \<open>Pointers of one view\<close>

fun index_pointers ::
  "PublicationPlanOperation list \<Rightarrow> PublicationPlanOperation list \<Rightarrow> PublicationPlanOperation list result" where
  "index_pointers byPath [] = Inr byPath"
| "index_pointers byPath (change # changes) =
     (if po_path change \<in> set (map po_path byPath)
      then Inl (plain_error ''publication view repeats pointer'')
      else index_pointers (byPath @ [change]) changes)"

text \<open>
  The loop over the pointer names of the protocol: \<open>byPath\<close> is the Go map as the list of its
  values, from which a used entry is deleted.
\<close>

fun order_loop ::
  "string \<Rightarrow> (string \<rightharpoonup> GenerationFile) \<Rightarrow> string list \<Rightarrow> PublicationPlanOperation list
    \<Rightarrow> PublicationPlanOperation list \<Rightarrow> (PublicationPlanOperation list \<times> PublicationPlanOperation list) result" where
  "order_loop viewID target [] byPath ordered = Inr (byPath, ordered)"
| "order_loop viewID target (name # names) byPath ordered =
     (let pointerPath = viewID @ ''/'' @ name
      in if target pointerPath = None then order_loop viewID target names byPath ordered
         else case List.find (\<lambda>q. po_path q = pointerPath) byPath of
                None \<Rightarrow> Inl (plain_error ''publication view changed its commit pointer without changed companion'')
              | Some operation \<Rightarrow>
                  order_loop viewID target names (filter (\<lambda>q. po_path q \<noteq> pointerPath) byPath)
                    (ordered @ [operation]))"

definition pointer_names :: "string \<Rightarrow> string list" where
  "pointer_names protocol =
     (if protocol = ''rpm'' then [''repodata/repomd.xml.asc'', ''repodata/repomd.xml'']
      else [''Release.gpg'', ''Release'', ''InRelease''])"

definition orderPublicationPointers ::
  "string \<Rightarrow> string \<Rightarrow> PublicationPlanOperation list \<Rightarrow> (string \<rightharpoonup> GenerationFile)
    \<Rightarrow> PublicationPlanOperation list result" where
  "orderPublicationPointers viewID protocol changes target =
     and_then (index_pointers [] changes) (\<lambda>byPath.
     and_then (if protocol = ''rpm'' then Inr ()
               else if protocol = ''apt''
               then ensure ((target (viewID @ ''/Release.gpg'') \<noteq> None) = (target (viewID @ ''/InRelease'') \<noteq> None))
                      (plain_error ''publication view has an incomplete APT signature pair'')
               else Inl (plain_error ''unknown publication protocol'')) (\<lambda>_.
     let commitName = (if protocol = ''apt'' then ''Release'' else ''repodata/repomd.xml'')
     in if viewID @ ''/'' @ commitName \<notin> set (map po_path byPath)
        then Inl (plain_error ''publication view changes companions without its commit pointer'')
        else and_then (order_loop viewID target (pointer_names protocol) byPath []) (\<lambda>(rest, ordered).
             if rest \<noteq> [] \<or> ordered = []
             then Inl (plain_error ''publication view has an incomplete or unknown pointer unit'')
             else Inr ordered)))"

subsection \<open>Building the plan\<close>

text \<open>
  The state of the loop over the changes: the four arrays of the plan, and the two Go maps
  \<open>pointerChanges\<close> and \<open>protocols\<close> as association lists.
\<close>

record plan_state =
  ps_payload :: "PublicationPlanOperation list"
  ps_immutable :: "PublicationPlanOperation list"
  ps_aliases :: "PublicationPlanOperation list"
  ps_deletes :: "PublicationPlanOperation list"
  ps_pointers :: "(string \<times> PublicationPlanOperation list) list"
  ps_protocols :: "(string \<times> string) list"

definition plan_start :: plan_state where
  "plan_start = \<lparr>ps_payload = [], ps_immutable = [], ps_aliases = [], ps_deletes = [],
                 ps_pointers = [], ps_protocols = []\<rparr>"

fun push_pointer ::
  "string \<Rightarrow> PublicationPlanOperation \<Rightarrow> (string \<times> PublicationPlanOperation list) list
    \<Rightarrow> (string \<times> PublicationPlanOperation list) list" where
  "push_pointer v op [] = [(v, [op])]"
| "push_pointer v op ((w, ops) # rest) =
     (if v = w then (w, ops @ [op]) # rest else (w, ops) # push_pointer v op rest)"

fun set_protocol :: "string \<Rightarrow> string \<Rightarrow> (string \<times> string) list \<Rightarrow> (string \<times> string) list" where
  "set_protocol v p [] = [(v, p)]"
| "set_protocol v p ((w, q) # rest) = (if v = w then (w, p) # rest else (w, q) # set_protocol v p rest)"

definition protocol_of :: "(string \<times> string) list \<Rightarrow> string \<Rightarrow> string" where
  "protocol_of ps v = (case map_of ps v of None \<Rightarrow> '''' | Some p \<Rightarrow> p)"

definition plan_operation :: "(string \<rightharpoonup> GenerationFile) \<Rightarrow> FileChange \<Rightarrow> PublicationPlanOperation" where
  "plan_operation baseByPath change =
     \<lparr>po_operation = fc_operation change, po_path = fc_path change, po_phase = fc_phase change,
      po_size = fc_size change, po_sha256 = fc_sha256 change,
      po_expected_old_sha256 =
        (if fc_operation change = ''update''
         then (case baseByPath (fc_path change) of None \<Rightarrow> '''' | Some f \<Rightarrow> gf_sha256 f) else '''')\<rparr>"

definition plan_step ::
  "bool \<Rightarrow> (string \<rightharpoonup> GenerationFile) \<Rightarrow> plan_state \<Rightarrow> FileChange \<Rightarrow> plan_state result" where
  "plan_step reconcileLegacy baseByPath ps change =
     (let op = plan_operation baseByPath change
      in if fc_phase change = ''payload'' then
           (if fc_operation change = ''update'' \<and> \<not> reconcileLegacy
            then Inl (GoError [ErrPoolPathConflict] ''payload URL cannot be reused for different content'')
            else Inr (ps\<lparr>ps_payload := ps_payload ps @ [op]\<rparr>))
         else if fc_phase change = ''metadata'' then
           (if isAPTStableAlias (fc_path change) then Inr (ps\<lparr>ps_aliases := ps_aliases ps @ [op]\<rparr>)
            else Inr (ps\<lparr>ps_immutable := ps_immutable ps @ [op]\<rparr>))
         else if fc_phase change = ''pointer'' then
           (case publicationPointerView (fc_path change) of (viewID, protocol, ok) \<Rightarrow>
              if \<not> ok then Inl (plain_error ''unknown publication commit pointer'')
              else let previous = protocol_of (ps_protocols ps) viewID
                   in if previous \<noteq> '''' \<and> previous \<noteq> protocol
                      then Inl (plain_error ''publication view mixes protocols'')
                      else Inr (ps\<lparr>ps_protocols := set_protocol viewID protocol (ps_protocols ps),
                                  ps_pointers := push_pointer viewID op (ps_pointers ps)\<rparr>))
         else if fc_phase change = ''delete'' then
           (case baseByPath (fc_path change) of
              None \<Rightarrow> Inl (plain_error ''publication deletion lacks base identity'')
            | Some prior \<Rightarrow>
                (if gf_phase prior = ''pointer''
                 then Inl (plain_error ''publication pointer removal is unsupported'')
                 else Inr (ps\<lparr>ps_deletes := ps_deletes ps
                     @ [op\<lparr>po_size := gf_size prior, po_sha256 := gf_sha256 prior,
                           po_expected_old_sha256 := gf_sha256 prior\<rparr>]\<rparr>)))
         else Inl (plain_error ''unknown publication phase''))"

definition commit_step ::
  "plan_state \<Rightarrow> (string \<rightharpoonup> GenerationFile) \<Rightarrow> PublicationCommitUnit list \<Rightarrow> string
    \<Rightarrow> PublicationCommitUnit list result" where
  "commit_step ps target units viewID =
     and_then (orderPublicationPointers viewID (protocol_of (ps_protocols ps) viewID)
                 (case map_of (ps_pointers ps) viewID of None \<Rightarrow> [] | Some ops \<Rightarrow> ops) target)
       (\<lambda>ordered. Inr (units @ [\<lparr>cu_view_id = viewID, cu_protocol = protocol_of (ps_protocols ps) viewID,
                                cu_pointers = ordered\<rparr>]))"

definition operation_json :: "PublicationPlanOperation \<Rightarrow> string" where
  "operation_json q = json_object
     [(''op'', Some (json_str (po_operation q))), (''path'', Some (json_str (po_path q))),
      (''phase'', Some (json_str (po_phase q))), (''size'', Some (json_int (po_size q))),
      (''sha256'', omit_empty (po_sha256 q)),
      (''expected_old_sha256'', omit_empty (po_expected_old_sha256 q))]"

definition unit_json :: "PublicationCommitUnit \<Rightarrow> string" where
  "unit_json u = json_object
     [(''view_id'', Some (json_str (cu_view_id u))), (''protocol'', Some (json_str (cu_protocol u))),
      (''pointers'', Some (json_array (map operation_json (cu_pointers u))))]"

definition plan_json :: "PublicationPlan \<Rightarrow> string" where
  "plan_json p = json_object
     [(''schema'', Some (json_str (pp_schema p))),
      (''repository_id'', Some (json_str (pp_repository_id p))),
      (''target_identity'', Some (json_str (pp_target_identity p))),
      (''base_checkpoint'', omit_empty (pp_base_checkpoint p)),
      (''target_generation'', Some (json_str (GenerationString (pp_target_generation p)))),
      (''manifest_sha256'', Some (json_str (pp_manifest_sha256 p))),
      (''payload'', Some (json_array (map operation_json (pp_payload p)))),
      (''immutable_metadata'', Some (json_array (map operation_json (pp_immutable_metadata p)))),
      (''stable_aliases'', Some (json_array (map operation_json (pp_stable_aliases p)))),
      (''commit_units'', Some (json_array (map unit_json (pp_commit_units p)))),
      (''delete_candidates'', Some (json_array (map operation_json (pp_delete_candidates p)))),
      (''plan_sha256'', Some (json_str (pp_plan_sha256 p)))]"

definition publicationPlanDigest :: "PublicationPlan \<Rightarrow> string" where
  "publicationPlanDigest plan = sha256_hex (plan_json (plan\<lparr>pp_plan_sha256 := ''''\<rparr>))"

definition PublicationPlanBytes :: "PublicationPlan \<Rightarrow> string result" where
  "PublicationPlanBytes plan =
     (if pp_plan_sha256 plan \<noteq> publicationPlanDigest plan
      then Inl (plain_error ''publication plan digest mismatch'') else Inr (plan_json plan))"

definition plan_guard :: "PublicationPlanInput \<Rightarrow> string result" where
  "plan_guard input =
     (if \<not> IsCanonicalRepositoryID (pi_repository_id input) \<or> \<not> validSHA256Text (pi_target_identity input)
         \<or> pi_base_checkpoint input \<noteq> '''' \<and> \<not> validSHA256Text (pi_base_checkpoint input)
         \<or> pi_target_generation input = 0
      then Inl (plain_error ''invalid publication plan identity'')
      else if pi_base_checkpoint input = '''' \<and> pi_base_manifest input \<noteq> []
      then Inl (plain_error ''empty base checkpoint requires an empty base manifest'')
      else if \<not> canonicalManifestArray (pi_base_manifest input) \<or> \<not> canonicalManifestArray (pi_target_manifest input)
      then Inl (plain_error ''publication plan manifests must be sorted and duplicate-free'')
      else and_then (ManifestBytes (pi_target_manifest input)) (\<lambda>(_, manifestSHA).
           let expected = DiffManifests (pi_base_manifest input) (pi_target_manifest input)
           in if \<not> canonicalChangeArray (pi_changes input) \<or> pi_changes input \<noteq> expected
              then Inl (plain_error ''publication Changeset is not the exact canonical Generation delta'')
              else Inr manifestSHA))"

text \<open>The plan literal of the source, before its digest is set.\<close>

definition plan_literal ::
  "PublicationPlanInput \<Rightarrow> string \<Rightarrow> plan_state \<Rightarrow> PublicationCommitUnit list \<Rightarrow> PublicationPlan" where
  "plan_literal input manifestSHA ps units =
     \<lparr>pp_schema = PublicationPlanSchemaV1, pp_repository_id = pi_repository_id input,
      pp_target_identity = pi_target_identity input, pp_base_checkpoint = pi_base_checkpoint input,
      pp_target_generation = pi_target_generation input, pp_manifest_sha256 = manifestSHA,
      pp_payload = ps_payload ps, pp_immutable_metadata = ps_immutable ps,
      pp_stable_aliases = ps_aliases ps, pp_commit_units = units,
      pp_delete_candidates = ps_deletes ps, pp_plan_sha256 = ''''\<rparr>"

definition buildPublicationPlan :: "PublicationPlanInput \<Rightarrow> bool \<Rightarrow> PublicationPlan result" where
  "buildPublicationPlan input reconcileLegacy =
     and_then (plan_guard input) (\<lambda>manifestSHA.
     and_then (for_each (plan_step reconcileLegacy (fileByPath (pi_base_manifest input))) plan_start (pi_changes input)) (\<lambda>ps.
     and_then (for_each (commit_step ps (fileByPath (pi_target_manifest input))) [] (sort (map fst (ps_pointers ps)))) (\<lambda>units.
     let plan = plan_literal input manifestSHA ps units
     in Inr (plan\<lparr>pp_plan_sha256 := publicationPlanDigest plan\<rparr>))))"

definition BuildPublicationPlan :: "PublicationPlanInput \<Rightarrow> PublicationPlan result" where
  "BuildPublicationPlan input = buildPublicationPlan input False"

definition ReconcileLegacyPublicationPlan :: "PublicationPlanInput \<Rightarrow> PublicationPlan result" where
  "ReconcileLegacyPublicationPlan input = buildPublicationPlan input True"

text \<open>
  The whole work of a plan in the order the publication performs it, and what an operation does
  to the target's files: the specification the plan is measured against.
\<close>

definition plan_operations :: "PublicationPlan \<Rightarrow> PublicationPlanOperation list" where
  "plan_operations plan =
     pp_payload plan @ pp_immutable_metadata plan @ pp_stable_aliases plan
     @ concat (map cu_pointers (pp_commit_units plan)) @ pp_delete_candidates plan"

definition operation_effect :: "PublicationPlanOperation \<Rightarrow> GenerationFile option" where
  "operation_effect q =
     (if po_operation q = ''delete'' then None
      else Some \<lparr>gf_path = po_path q, gf_phase = po_phase q, gf_size = po_size q, gf_sha256 = po_sha256 q\<rparr>)"

definition run_operations ::
  "PublicationPlanOperation list \<Rightarrow> (string \<rightharpoonup> GenerationFile) \<Rightarrow> (string \<rightharpoonup> GenerationFile)" where
  "run_operations qs m = fold (\<lambda>q m. m(po_path q := operation_effect q)) qs m"

subsection \<open>Every change becomes exactly one operation\<close>

abbreviation op_key :: "PublicationPlanOperation \<Rightarrow> string \<times> GenerationFile option" where
  "op_key q \<equiv> (po_path q, operation_effect q)"

abbreviation fc_key :: "FileChange \<Rightarrow> string \<times> GenerationFile option" where
  "fc_key c \<equiv> (fc_path c, change_effect c)"

abbreviation op_sig :: "PublicationPlanOperation \<Rightarrow> (string \<times> string) \<times> string \<times> GenerationFile option" where
  "op_sig q \<equiv> ((po_operation q, po_phase q), op_key q)"

abbreviation fc_sig :: "FileChange \<Rightarrow> (string \<times> string) \<times> string \<times> GenerationFile option" where
  "fc_sig c \<equiv> ((fc_operation c, fc_phase c), fc_key c)"

definition state_operations :: "plan_state \<Rightarrow> PublicationPlanOperation list" where
  "state_operations ps =
     ps_payload ps @ ps_immutable ps @ ps_aliases ps @ concat (map snd (ps_pointers ps)) @ ps_deletes ps"

lemma operation_effect_plan_operation [simp]: "operation_effect (plan_operation b c) = change_effect c"
  by (simp add: plan_operation_def operation_effect_def change_effect_def)

lemma plan_operation_fields [simp]:
  "po_path (plan_operation b c) = fc_path c" "po_phase (plan_operation b c) = fc_phase c"
  "po_operation (plan_operation b c) = fc_operation c"
  by (simp_all add: plan_operation_def)

lemma push_pointer_mset:
  "mset (concat (map snd (push_pointer v q l))) = add_mset q (mset (concat (map snd l)))"
  by (induction v q l rule: push_pointer.induct) auto

lemma push_pointer_keys: "set (map fst (push_pointer v q l)) = insert v (set (map fst l))"
  by (induction v q l rule: push_pointer.induct) auto

lemma push_pointer_distinct: "distinct (map fst l) \<Longrightarrow> distinct (map fst (push_pointer v q l))"
proof (induction v q l rule: push_pointer.induct)
  case (2 v q w ops rest)
  then show ?case using push_pointer_keys[of v q rest] by auto
qed simp

text \<open>
  What the loop keeps true of its state: which phase sits in which array, that the operations
  of a delete change delete, and that each view has one entry.
\<close>

definition plan_inv :: "bool \<Rightarrow> plan_state \<Rightarrow> bool" where
  "plan_inv legacy ps \<longleftrightarrow>
     (\<forall>q \<in> set (ps_payload ps). po_phase q = ''payload'' \<and> (legacy \<or> po_operation q \<noteq> ''update''))
     \<and> (\<forall>q \<in> set (ps_immutable ps). po_phase q = ''metadata'' \<and> \<not> isAPTStableAlias (po_path q))
     \<and> (\<forall>q \<in> set (ps_aliases ps). po_phase q = ''metadata'' \<and> isAPTStableAlias (po_path q))
     \<and> (\<forall>q \<in> set (concat (map snd (ps_pointers ps))). po_phase q = ''pointer'')
     \<and> (\<forall>q \<in> set (ps_deletes ps). po_phase q = ''delete'')
     \<and> distinct (map fst (ps_pointers ps))"

lemma plan_inv_start: "plan_inv legacy plan_start"
  by (simp add: plan_inv_def plan_start_def)

lemma plan_step_cases:
  assumes "plan_step legacy b ps c = Inr ps'"
  obtains (payload) "fc_phase c = ''payload''" "legacy \<or> fc_operation c \<noteq> ''update''"
      "ps' = ps\<lparr>ps_payload := ps_payload ps @ [plan_operation b c]\<rparr>"
  | (stable) "fc_phase c = ''metadata''" "isAPTStableAlias (fc_path c)"
      "ps' = ps\<lparr>ps_aliases := ps_aliases ps @ [plan_operation b c]\<rparr>"
  | (immutable) "fc_phase c = ''metadata''" "\<not> isAPTStableAlias (fc_path c)"
      "ps' = ps\<lparr>ps_immutable := ps_immutable ps @ [plan_operation b c]\<rparr>"
  | (pointer) v p where "fc_phase c = ''pointer''" "publicationPointerView (fc_path c) = (v, p, True)"
      "ps' = ps\<lparr>ps_protocols := set_protocol v p (ps_protocols ps),
                ps_pointers := push_pointer v (plan_operation b c) (ps_pointers ps)\<rparr>"
  | (delete) prior where "fc_phase c = ''delete''" "b (fc_path c) = Some prior" "gf_phase prior \<noteq> ''pointer''"
      "ps' = ps\<lparr>ps_deletes := ps_deletes ps
         @ [plan_operation b c\<lparr>po_size := gf_size prior, po_sha256 := gf_sha256 prior,
              po_expected_old_sha256 := gf_sha256 prior\<rparr>]\<rparr>"
  using assms
  by (auto simp: plan_step_def Let_def split: if_splits option.splits prod.splits)

lemma push_pointer_set:
  "set (concat (map snd (push_pointer v q l))) = insert q (set (concat (map snd l)))"
  using arg_cong[OF push_pointer_mset[of v q l], of set_mset] by simp

lemma plan_step_inv:
  assumes "plan_step legacy b ps c = Inr ps'" and "plan_inv legacy ps"
  shows "plan_inv legacy ps'"
  using assms(1)
proof (cases rule: plan_step_cases)
  case (pointer v p)
  with assms(2) show ?thesis
    by (simp add: plan_inv_def push_pointer_distinct push_pointer_set del: set_concat set_map)
qed (use assms(2) in \<open>auto simp: plan_inv_def\<close>)

lemma plan_step_mset:
  assumes "plan_step legacy b ps c = Inr ps'" and "fc_phase c = ''delete'' \<longrightarrow> fc_operation c = ''delete''"
  shows "mset (map op_sig (state_operations ps')) = add_mset (fc_sig c) (mset (map op_sig (state_operations ps)))"
  using assms(1)
proof (cases rule: plan_step_cases)
  case (pointer v p)
  then show ?thesis by (simp add: state_operations_def push_pointer_mset del: mset_concat)
next
  case (delete prior)
  with assms(2) show ?thesis
    by (simp add: state_operations_def plan_operation_def operation_effect_def change_effect_def)
qed (simp_all add: state_operations_def)

lemma plan_loop:
  assumes "for_each (plan_step legacy b) ps cs = Inr ps'" and "plan_inv legacy ps"
    and "\<forall>c \<in> set cs. fc_phase c = ''delete'' \<longrightarrow> fc_operation c = ''delete''"
  shows "plan_inv legacy ps'"
    "mset (map op_sig (state_operations ps')) = mset (map op_sig (state_operations ps)) + mset (map fc_sig cs)"
proof -
  show "plan_inv legacy ps'"
    using assms(1,2) by (rule for_each_invariant) (rule plan_step_inv)
  show "mset (map op_sig (state_operations ps')) = mset (map op_sig (state_operations ps)) + mset (map fc_sig cs)"
    using assms(1,3)
  proof (induction cs arbitrary: ps)
    case (Cons c cs)
    then obtain q where q: "plan_step legacy b ps c = Inr q" "for_each (plan_step legacy b) q cs = Inr ps'"
      by (auto simp: and_then_Inr_iff)
    from Cons.IH[OF q(2)] Cons.prems(2) plan_step_mset[OF q(1)] show ?case by simp
  qed simp
qed

subsection \<open>The pointers of a view\<close>

lemma index_pointers_Inr:
  "index_pointers byPath cs = Inr r \<Longrightarrow> distinct (map po_path byPath) \<Longrightarrow>
     r = byPath @ cs \<and> distinct (map po_path r)"
proof (induction byPath cs rule: index_pointers.induct)
  case (2 byPath c cs)
  then have fresh: "po_path c \<notin> set (map po_path byPath)"
    and rest: "index_pointers (byPath @ [c]) cs = Inr r"
    by (simp_all split: if_splits)
  have "distinct (map po_path (byPath @ [c]))" using "2.prems"(2) fresh by simp
  from "2.IH"[OF fresh rest this] show ?case by (metis append_Cons append_Nil append_assoc)
qed simp

lemma remove_found:
  "distinct (map po_path xs) \<Longrightarrow> List.find (\<lambda>q. po_path q = p) xs = Some q \<Longrightarrow>
     po_path q = p \<and> add_mset q (mset (filter (\<lambda>q. po_path q \<noteq> p) xs)) = mset xs"
proof (induction xs)
  case (Cons x xs)
  show ?case
  proof (cases "po_path x = p")
    case True
    with Cons.prems(1) have "\<forall>q \<in> set xs. po_path q \<noteq> p" by (simp add: image_iff) metis
    then have "filter (\<lambda>q. po_path q \<noteq> p) xs = xs" by (simp add: filter_id_conv)
    with True Cons.prems show ?thesis by simp
  next
    case False
    with Cons show ?thesis by (auto simp: add_mset_commute)
  qed
qed simp

lemma order_loop_Inr:
  assumes "order_loop v t names byPath ordered = Inr (rest, out)" "distinct (map po_path byPath)"
  shows "mset rest + mset out = mset byPath + mset ordered"
    "map po_path out = map po_path ordered @ filter (\<lambda>p. t p \<noteq> None) (map (\<lambda>n. v @ ''/'' @ n) names)"
proof -
  have "mset rest + mset out = mset byPath + mset ordered \<and>
    map po_path out = map po_path ordered @ filter (\<lambda>p. t p \<noteq> None) (map (\<lambda>n. v @ ''/'' @ n) names)"
    using assms
  proof (induction v t names byPath ordered rule: order_loop.induct)
    case (2 v t name names byPath ordered)
    let ?p = "v @ ''/'' @ name"
    show ?case
    proof (cases "t ?p = None")
      case True
      with 2 show ?thesis by (auto simp: Let_def)
    next
      case False
      then obtain g where "t ?p = Some g" by blast
      with "2.prems"(1) obtain q where q: "List.find (\<lambda>q. po_path q = ?p) byPath = Some q"
        and loop: "order_loop v t names (filter (\<lambda>q. po_path q \<noteq> ?p) byPath) (ordered @ [q]) = Inr (rest, out)"
        by (cases "List.find (\<lambda>q. po_path q = ?p) byPath") (simp_all add: Let_def)
      note found = remove_found[OF "2.prems"(2) q]
      have "distinct (map po_path (filter (\<lambda>q. po_path q \<noteq> ?p) byPath))"
        using "2.prems"(2) by (simp add: distinct_map_filter)
      from "2.IH"(2)[OF refl False q loop this]
      have m: "mset rest + mset out =
          mset (filter (\<lambda>q. po_path q \<noteq> ?p) byPath) + mset (ordered @ [q])"
        and p: "map po_path out = map po_path (ordered @ [q])
          @ filter (\<lambda>p. t p \<noteq> None) (map (\<lambda>n. v @ ''/'' @ n) names)" by blast+
      have "mset rest + mset out = mset byPath + mset ordered"
        by (subst found[THEN conjunct2, symmetric]) (simp add: m)
      moreover have "map po_path out = map po_path ordered
          @ filter (\<lambda>p. t p \<noteq> None) (map (\<lambda>n. v @ ''/'' @ n) (name # names))"
        using p found[THEN conjunct1] False by simp
      ultimately show ?thesis ..
    qed
  qed simp
  then show "mset rest + mset out = mset byPath + mset ordered"
    "map po_path out = map po_path ordered @ filter (\<lambda>p. t p \<noteq> None) (map (\<lambda>n. v @ ''/'' @ n) names)"
    by blast+
qed

lemma orderPublicationPointers_Inr:
  assumes "orderPublicationPointers v proto changes t = Inr ordered"
  shows "mset ordered = mset changes"
    "map po_path ordered = filter (\<lambda>p. t p \<noteq> None) (map (\<lambda>n. v @ ''/'' @ n) (pointer_names proto))"
    "proto = ''rpm'' \<or> proto = ''apt''"
    "v @ ''/'' @ (if proto = ''apt'' then ''Release'' else ''repodata/repomd.xml'') \<in> set (map po_path ordered)"
proof -
  from assms obtain byPath rest where ix: "index_pointers [] changes = Inr byPath"
    and proto: "proto = ''rpm'' \<or> proto = ''apt''"
    and commit: "v @ ''/'' @ (if proto = ''apt'' then ''Release'' else ''repodata/repomd.xml'') \<in> set (map po_path byPath)"
    and loop: "order_loop v t (pointer_names proto) byPath [] = Inr (rest, ordered)" and rest: "rest = []"
    unfolding orderPublicationPointers_def and_then_Inr_iff Let_def
    by (auto simp: and_then_Inr_iff split: if_splits prod.splits)
  have byPath: "byPath = changes" and dist: "distinct (map po_path byPath)"
    using index_pointers_Inr[OF ix] by (metis append_Nil distinct.simps(1) list.map(1))+
  note l = order_loop_Inr[OF loop dist]
  show m: "mset ordered = mset changes" using l(1) rest byPath by simp
  show "map po_path ordered = filter (\<lambda>p. t p \<noteq> None) (map (\<lambda>n. v @ ''/'' @ n) (pointer_names proto))"
    using l(2) by simp
  show "proto = ''rpm'' \<or> proto = ''apt''" by (fact proto)
  show "v @ ''/'' @ (if proto = ''apt'' then ''Release'' else ''repodata/repomd.xml'') \<in> set (map po_path ordered)"
    using commit byPath mset_eq_setD[OF m] by simp
qed

text \<open>The pointer changes the loop collected for a view.\<close>

abbreviation view_pointers :: "plan_state \<Rightarrow> string \<Rightarrow> PublicationPlanOperation list" where
  "view_pointers ps v \<equiv> (case map_of (ps_pointers ps) v of None \<Rightarrow> [] | Some ops \<Rightarrow> ops)"

definition unit_ok :: "plan_state \<Rightarrow> (string \<rightharpoonup> GenerationFile) \<Rightarrow> string \<Rightarrow> PublicationCommitUnit \<Rightarrow> bool" where
  "unit_ok ps t v u \<longleftrightarrow>
     cu_view_id u = v \<and> mset (cu_pointers u) = mset (view_pointers ps v)
     \<and> map po_path (cu_pointers u) =
         filter (\<lambda>p. t p \<noteq> None) (map (\<lambda>n. v @ ''/'' @ n) (pointer_names (cu_protocol u)))
     \<and> (cu_protocol u = ''rpm'' \<or> cu_protocol u = ''apt'')
     \<and> v @ ''/'' @ (if cu_protocol u = ''apt'' then ''Release'' else ''repodata/repomd.xml'')
         \<in> set (map po_path (cu_pointers u))"

lemma commit_step_Inr:
  assumes "commit_step ps t units v = Inr units'"
  obtains u where "units' = units @ [u]" "unit_ok ps t v u"
proof -
  from assms obtain ordered
    where ord: "orderPublicationPointers v (protocol_of (ps_protocols ps) v) (view_pointers ps v) t = Inr ordered"
      and u: "units' = units @ [\<lparr>cu_view_id = v, cu_protocol = protocol_of (ps_protocols ps) v,
                                cu_pointers = ordered\<rparr>]"
    unfolding commit_step_def and_then_Inr_iff by blast
  from orderPublicationPointers_Inr[OF ord] have "unit_ok ps t v
      \<lparr>cu_view_id = v, cu_protocol = protocol_of (ps_protocols ps) v, cu_pointers = ordered\<rparr>"
    by (simp add: unit_ok_def)
  with u show thesis by (rule that)
qed

lemma commit_loop_Inr:
  "for_each (commit_step ps t) units vs = Inr units' \<Longrightarrow>
     \<exists>us. units' = units @ us \<and> list_all2 (unit_ok ps t) vs us"
proof (induction vs arbitrary: units)
  case (Cons v vs)
  then obtain mid where mid: "commit_step ps t units v = Inr mid"
    and rest: "for_each (commit_step ps t) mid vs = Inr units'"
    unfolding for_each.simps and_then_Inr_iff by blast
  from mid obtain u where u: "mid = units @ [u]" "unit_ok ps t v u" by (rule commit_step_Inr)
  from Cons.IH[OF rest] obtain us where "units' = mid @ us" "list_all2 (unit_ok ps t) vs us" by blast
  with u show ?case by (intro exI[of _ "u # us"]) simp
qed simp

lemma map_of_concat_snd:
  "distinct (map fst l) \<Longrightarrow> map (\<lambda>v. case map_of l v of None \<Rightarrow> [] | Some ops \<Rightarrow> ops) (map fst l) = map snd l"
proof (induction l)
  case (Cons x l)
  have "map (\<lambda>v. case map_of (x # l) v of None \<Rightarrow> [] | Some ops \<Rightarrow> ops) (map fst l) =
      map (\<lambda>v. case map_of l v of None \<Rightarrow> [] | Some ops \<Rightarrow> ops) (map fst l)"
    using Cons.prems by (cases x) (auto simp: image_iff)
  with Cons show ?case by (cases x) simp
qed simp

lemma list_all2_mset_concat:
  "list_all2 (\<lambda>v u. mset (g u) = mset (f v)) vs us \<Longrightarrow> mset (concat (map g us)) = mset (concat (map f vs))"
  by (induction rule: list_all2_induct) simp_all

lemma units_mset:
  assumes "list_all2 (unit_ok ps t) (sort (map fst (ps_pointers ps))) us" "distinct (map fst (ps_pointers ps))"
  shows "mset (concat (map cu_pointers us)) = mset (concat (map snd (ps_pointers ps)))"
proof -
  have "list_all2 (\<lambda>v u. mset (cu_pointers u) = mset (view_pointers ps v)) (sort (map fst (ps_pointers ps))) us"
    using assms(1) by (rule list_all2_mono) (simp add: unit_ok_def)
  then have "mset (concat (map cu_pointers us)) =
      mset (concat (map (view_pointers ps) (sort (map fst (ps_pointers ps)))))"
    by (rule list_all2_mset_concat)
  also have "\<dots> = mset (concat (map (view_pointers ps) (map fst (ps_pointers ps))))"
    by (rule mset_concat_map) simp
  also have "map (view_pointers ps) (map fst (ps_pointers ps)) = map snd (ps_pointers ps)"
    by (rule map_of_concat_snd[OF assms(2)])
  finally show ?thesis .
qed

subsection \<open>The plan as a whole\<close>

lemma buildPublicationPlan_Inr:
  assumes "buildPublicationPlan input legacy = Inr plan"
  obtains manifestSHA ps us where
    "plan_guard input = Inr manifestSHA"
    "pi_changes input = DiffManifests (pi_base_manifest input) (pi_target_manifest input)"
    "for_each (plan_step legacy (fileByPath (pi_base_manifest input))) plan_start (pi_changes input) = Inr ps"
    "list_all2 (unit_ok ps (fileByPath (pi_target_manifest input))) (sort (map fst (ps_pointers ps))) us"
    "pp_payload plan = ps_payload ps" "pp_immutable_metadata plan = ps_immutable ps"
    "pp_stable_aliases plan = ps_aliases ps" "pp_commit_units plan = us"
    "pp_delete_candidates plan = ps_deletes ps" "pp_manifest_sha256 plan = manifestSHA"
    "pp_plan_sha256 plan = publicationPlanDigest plan"
proof -
  from assms obtain manifestSHA ps us where
    guard: "plan_guard input = Inr manifestSHA" and
    loop: "for_each (plan_step legacy (fileByPath (pi_base_manifest input))) plan_start (pi_changes input) = Inr ps" and
    us: "for_each (commit_step ps (fileByPath (pi_target_manifest input))) [] (sort (map fst (ps_pointers ps))) = Inr us" and
    eq: "Inr plan = (let plan = plan_literal input manifestSHA ps us
       in Inr (plan\<lparr>pp_plan_sha256 := publicationPlanDigest plan\<rparr>) :: PublicationPlan result)"
    unfolding buildPublicationPlan_def and_then_Inr_iff by (metis (no_types))
  let ?lit = "plan_literal input manifestSHA ps us"
  have plan: "plan = ?lit\<lparr>pp_plan_sha256 := publicationPlanDigest ?lit\<rparr>"
    using eq by (simp add: Let_def)
  have digest: "publicationPlanDigest (?lit\<lparr>pp_plan_sha256 := d\<rparr>) = publicationPlanDigest ?lit" for d
    by (simp add: publicationPlanDigest_def)
  have delta: "pi_changes input = DiffManifests (pi_base_manifest input) (pi_target_manifest input)"
    using guard unfolding plan_guard_def
    by (simp add: and_then_Inr_iff Let_def split: if_splits prod.splits)
  have "list_all2 (unit_ok ps (fileByPath (pi_target_manifest input))) (sort (map fst (ps_pointers ps))) us"
    using commit_loop_Inr[OF us] by simp
  then show thesis
    by (rule that[OF guard delta loop]) (unfold plan digest, simp_all add: plan_literal_def)
qed

subsection \<open>Running a plan\<close>

definition put_entry :: "'k \<times> 'v option \<Rightarrow> ('k \<rightharpoonup> 'v) \<Rightarrow> ('k \<rightharpoonup> 'v)" where
  "put_entry e m = m(fst e := snd e)"

lemma run_operations_entries: "run_operations qs m = fold put_entry (map op_key qs) m"
  by (simp add: run_operations_def fold_map put_entry_def[abs_def] comp_def)

lemma apply_changes_entries: "fold (\<lambda>c m. apply_change m c) cs m = fold put_entry (map fc_key cs) m"
  by (simp add: apply_change_def fold_map put_entry_def[abs_def] comp_def)

lemma put_entry_commute: "x = y \<or> fst x \<noteq> fst y \<Longrightarrow> put_entry x \<circ> put_entry y = put_entry y \<circ> put_entry x"
  by (auto simp: put_entry_def fun_eq_iff)

lemma fold_put_entry_perm:
  assumes "mset xs = mset ys" "distinct (map fst xs)"
  shows "fold put_entry xs m = fold put_entry ys m"
proof -
  have "fold put_entry xs = fold put_entry ys"
  proof (rule fold_multiset_equiv[OF _ assms(1)])
    fix x y assume "x \<in> set xs" "y \<in> set xs"
    with assms(2) show "put_entry x \<circ> put_entry y = put_entry y \<circ> put_entry x"
      by (intro put_entry_commute) (metis distinct_map inj_on_eq_iff)
  qed
  then show ?thesis by simp
qed

lemma run_operations_notin: "p \<notin> set (map po_path qs) \<Longrightarrow> run_operations qs m p = m p"
  unfolding run_operations_def by (induction qs arbitrary: m) auto

lemma run_operations_in:
  assumes "distinct (map po_path qs)" "q \<in> set qs"
  shows "run_operations qs m (po_path q) = operation_effect q"
  using assms
proof (induction qs arbitrary: m)
  case (Cons x qs)
  show ?case
  proof (cases "q \<in> set qs")
    case True
    with Cons show ?thesis by (simp add: run_operations_def)
  next
    case False
    with Cons.prems have "q = x" "po_path q \<notin> set (map po_path qs)" by auto
    with run_operations_notin[of "po_path q" qs] show ?thesis by (simp add: run_operations_def)
  qed
qed simp

lemma plan_guard_manifests:
  assumes "plan_guard input = Inr s"
  shows "canonicalManifestArray (pi_base_manifest input)" "canonicalManifestArray (pi_target_manifest input)"
  using assms unfolding plan_guard_def by (simp_all split: if_splits)

lemma canonical_manifest_loop_files:
  "canonical_manifest_loop prev fs \<Longrightarrow> f \<in> set fs \<Longrightarrow>
     gf_phase f = ''payload'' \<or> gf_phase f = ''metadata'' \<or> gf_phase f = ''pointer''"
  by (induction prev fs rule: canonical_manifest_loop.induct) (auto split: if_splits)

lemma canonicalManifestArray_phase:
  assumes "canonicalManifestArray fs" "fileByPath fs p = Some f"
  shows "gf_phase f = ''payload'' \<or> gf_phase f = ''metadata'' \<or> gf_phase f = ''pointer''"
    "gf_path f = p"
proof -
  from assms(1) have "canonical_manifest_loop '''' fs"
    unfolding canonicalManifestArray_def by (simp split: sum.splits prod.splits if_splits)
  with fileByPath_Some[OF assms(2)]
  show "gf_phase f = ''payload'' \<or> gf_phase f = ''metadata'' \<or> gf_phase f = ''pointer''" "gf_path f = p"
    using canonical_manifest_loop_files by blast+
qed

lemma diff_delete_phase:
  assumes "canonicalManifestArray target" "c \<in> set (DiffManifests base target)"
  shows "fc_phase c = ''delete'' \<longleftrightarrow> fc_operation c = ''delete''"
  using assms(2)
proof (cases rule: DiffManifests_cases)
  case (delete g)
  then show ?thesis by (metis FileChange.select_convs(1,3) delete_of_def)
next
  case (add f)
  with canonicalManifestArray_phase[OF assms(1)] have "gf_phase f \<noteq> ''delete''" by fastforce
  with add(3) show ?thesis by (simp add: change_of_def)
next
  case (update f)
  with canonicalManifestArray_phase[OF assms(1)] have "gf_phase f \<noteq> ''delete''" by fastforce
  with update(3) show ?thesis by (simp add: change_of_def)
qed

lemma state_operations_plan:
  assumes "buildPublicationPlan input legacy = Inr plan"
  obtains ps where "plan_inv legacy ps"
    "mset (plan_operations plan) = mset (state_operations ps)"
    "mset (map op_sig (plan_operations plan)) = mset (map fc_sig (pi_changes input))"
    "pp_payload plan = ps_payload ps" "pp_immutable_metadata plan = ps_immutable ps"
    "pp_stable_aliases plan = ps_aliases ps" "pp_delete_candidates plan = ps_deletes ps"
    "mset (concat (map cu_pointers (pp_commit_units plan))) = mset (concat (map snd (ps_pointers ps)))"
    "list_all2 (unit_ok ps (fileByPath (pi_target_manifest input)))
       (sort (map fst (ps_pointers ps))) (pp_commit_units plan)"
proof -
  obtain s ps us where b: "plan_guard input = Inr s"
    "pi_changes input = DiffManifests (pi_base_manifest input) (pi_target_manifest input)"
    "for_each (plan_step legacy (fileByPath (pi_base_manifest input))) plan_start (pi_changes input) = Inr ps"
    "list_all2 (unit_ok ps (fileByPath (pi_target_manifest input))) (sort (map fst (ps_pointers ps))) us"
    "pp_payload plan = ps_payload ps" "pp_immutable_metadata plan = ps_immutable ps"
    "pp_stable_aliases plan = ps_aliases ps" "pp_commit_units plan = us"
    "pp_delete_candidates plan = ps_deletes ps"
    using buildPublicationPlan_Inr[OF assms] by metis
  have "\<forall>c \<in> set (pi_changes input). fc_phase c = ''delete'' \<longrightarrow> fc_operation c = ''delete''"
    using diff_delete_phase[OF plan_guard_manifests(2)[OF b(1)]] b(2) by metis
  note loop = plan_loop[OF b(3) plan_inv_start this]
  have "distinct (map fst (ps_pointers ps))" using loop(1) by (simp add: plan_inv_def)
  from units_mset[OF b(4) this]
  have u: "mset (concat (map cu_pointers (pp_commit_units plan))) = mset (concat (map snd (ps_pointers ps)))"
    by (simp only: b(8))
  have m: "mset (plan_operations plan) = mset (state_operations ps)"
    by (simp only: plan_operations_def state_operations_def mset_append u b(5,6,7,9))
  then have "mset (map op_sig (plan_operations plan)) = mset (map op_sig (state_operations ps))"
    by (simp only: mset_map)
  also have "\<dots> = mset (map fc_sig (pi_changes input))"
    using loop(2) by (simp add: state_operations_def plan_start_def)
  finally show thesis
    using b loop(1) u m by (intro that[of ps]) simp_all
qed

lemma plan_operation_paths:
  assumes "buildPublicationPlan input legacy = Inr plan"
  shows "distinct (map po_path (plan_operations plan))"
    "\<forall>q \<in> set (plan_operations plan). operation_effect q = fileByPath (pi_target_manifest input) (po_path q)"
    "run_operations (plan_operations plan) (fileByPath (pi_base_manifest input)) = fileByPath (pi_target_manifest input)"
proof -
  let ?b = "fileByPath (pi_base_manifest input)" and ?t = "fileByPath (pi_target_manifest input)"
  have delta: "pi_changes input = DiffManifests (pi_base_manifest input) (pi_target_manifest input)"
    using buildPublicationPlan_Inr[OF assms] by metis
  have sig: "mset (map op_sig (plan_operations plan)) = mset (map fc_sig (pi_changes input))"
    using state_operations_plan[OF assms] by metis
  have "mset (map snd (map op_sig (plan_operations plan))) = mset (map snd (map fc_sig (pi_changes input)))"
    using sig by (simp only: mset_map)
  then have m: "mset (map op_key (plan_operations plan)) = mset (map fc_key (pi_changes input))"
    by (simp add: comp_def)
  have "mset (map fst (map op_key (plan_operations plan))) = mset (map fst (map fc_key (pi_changes input)))"
    using m by (simp only: mset_map)
  then have paths: "mset (map po_path (plan_operations plan)) = mset (map fc_path (pi_changes input))"
    by (simp add: comp_def)
  then show d: "distinct (map po_path (plan_operations plan))"
    using DiffManifests_distinct delta by (metis mset_eq_imp_distinct_iff)
  have "run_operations (plan_operations plan) ?b = fold put_entry (map fc_key (pi_changes input)) ?b"
    unfolding run_operations_entries
    by (rule fold_put_entry_perm[OF m]) (use d in \<open>simp add: comp_def\<close>)
  then show run: "run_operations (plan_operations plan) ?b = ?t"
    using apply_DiffManifests[of "pi_base_manifest input" "pi_target_manifest input"] delta
    by (simp only: apply_changes_entries)
  show "\<forall>q \<in> set (plan_operations plan). operation_effect q = ?t (po_path q)"
    using run_operations_in[OF d, of _ ?b] run by simp
qed

lemma plan_operation_deletes:
  assumes "buildPublicationPlan input legacy = Inr plan" "q \<in> set (plan_operations plan)"
  shows "po_phase q = ''delete'' \<longleftrightarrow> po_operation q = ''delete''"
proof -
  obtain s where s: "plan_guard input = Inr s"
    "pi_changes input = DiffManifests (pi_base_manifest input) (pi_target_manifest input)"
    using buildPublicationPlan_Inr[OF assms(1)] by metis
  have "mset (map op_sig (plan_operations plan)) = mset (map fc_sig (pi_changes input))"
    using state_operations_plan[OF assms(1)] by metis
  then have "op_sig q \<in> set (map fc_sig (pi_changes input))"
    using assms(2) mset_eq_setD by fastforce
  then obtain c where "c \<in> set (pi_changes input)" "po_operation q = fc_operation c" "po_phase q = fc_phase c"
    by auto
  with diff_delete_phase[OF plan_guard_manifests(2)[OF s(1)]] s(2) show ?thesis by metis
qed

lemma canonical_change_loop_refl:
  "distinct (map fc_path cs) \<Longrightarrow> set seen \<inter> set (map fc_path cs) = {} \<Longrightarrow> canonical_change_loop seen cs cs"
  by (induction cs arbitrary: seen) auto

lemma canonicalChangeArray_DiffManifests: "canonicalChangeArray (DiffManifests base target)"
  unfolding canonicalChangeArray_def
  by (simp add: sort_key_id_if_sorted DiffManifests_sorted canonical_change_loop_refl DiffManifests_distinct)

text \<open>The work that precedes the pointers, and the work from the pointers on.\<close>

abbreviation content_operations :: "PublicationPlan \<Rightarrow> PublicationPlanOperation list" where
  "content_operations plan \<equiv> pp_payload plan @ pp_immutable_metadata plan @ pp_stable_aliases plan"

abbreviation pointer_operations :: "PublicationPlan \<Rightarrow> PublicationPlanOperation list" where
  "pointer_operations plan \<equiv> concat (map cu_pointers (pp_commit_units plan))"

lemma plan_operations_split:
  "plan_operations plan = content_operations plan @ pointer_operations plan @ pp_delete_candidates plan"
  by (simp add: plan_operations_def)

lemma plan_phases:
  assumes "buildPublicationPlan input legacy = Inr plan"
  shows "\<forall>q \<in> set (pp_payload plan). po_phase q = ''payload'' \<and> (legacy \<or> po_operation q \<noteq> ''update'')"
    "\<forall>q \<in> set (pp_immutable_metadata plan). po_phase q = ''metadata'' \<and> \<not> isAPTStableAlias (po_path q)"
    "\<forall>q \<in> set (pp_stable_aliases plan). po_phase q = ''metadata'' \<and> isAPTStableAlias (po_path q)"
    "\<forall>q \<in> set (pointer_operations plan). po_phase q = ''pointer''"
    "\<forall>q \<in> set (pp_delete_candidates plan). po_phase q = ''delete''"
proof -
  obtain ps where "plan_inv legacy ps" "pp_payload plan = ps_payload ps"
    "pp_immutable_metadata plan = ps_immutable ps" "pp_stable_aliases plan = ps_aliases ps"
    "pp_delete_candidates plan = ps_deletes ps"
    "mset (pointer_operations plan) = mset (concat (map snd (ps_pointers ps)))"
    by (rule state_operations_plan[OF assms]) (rule that)
  note ps = this
  have eq: "set (pointer_operations plan) = set (concat (map snd (ps_pointers ps)))"
    using ps(6) by (rule mset_eq_setD)
  note inv = ps(1)[unfolded plan_inv_def, folded ps(2-5) eq]
  from inv show "\<forall>q \<in> set (pp_payload plan). po_phase q = ''payload'' \<and> (legacy \<or> po_operation q \<noteq> ''update'')"
    by (rule conjunct1)
  from inv show "\<forall>q \<in> set (pp_immutable_metadata plan). po_phase q = ''metadata'' \<and> \<not> isAPTStableAlias (po_path q)"
    by (elim conjE)
  from inv show "\<forall>q \<in> set (pp_stable_aliases plan). po_phase q = ''metadata'' \<and> isAPTStableAlias (po_path q)"
    by (elim conjE)
  from inv show "\<forall>q \<in> set (pointer_operations plan). po_phase q = ''pointer''" by (elim conjE)
  from inv show "\<forall>q \<in> set (pp_delete_candidates plan). po_phase q = ''delete''" by (elim conjE)
qed

lemma content_before_pointers:
  assumes "A @ B = done @ rest" "\<forall>q \<in> set A. \<not> P q" "q \<in> set done" "P q"
  shows "set rest \<subseteq> set B" "set A \<subseteq> set done"
proof -
  from assms(1) obtain us where "A = done @ us \<and> us @ B = rest \<or> A @ us = done \<and> B = us @ rest"
    by (auto simp: append_eq_append_conv2)
  then have "A @ us = done \<and> B = us @ rest" using assms(2-4) by auto
  then show "set rest \<subseteq> set B" "set A \<subseteq> set done" by auto
qed

lemma run_prefix:
  assumes "buildPublicationPlan input legacy = Inr plan" "plan_operations plan = done @ rest"
  shows "run_operations done (fileByPath (pi_base_manifest input)) p =
    (if p \<in> set (map po_path done) then fileByPath (pi_target_manifest input) p
     else fileByPath (pi_base_manifest input) p)"
proof (cases "p \<in> set (map po_path done)")
  case True
  then obtain q where q: "q \<in> set done" "po_path q = p" by auto
  have "distinct (map po_path done)" using plan_operation_paths(1)[OF assms(1)] assms(2) by simp
  from run_operations_in[OF this q(1)] q plan_operation_paths(2)[OF assms(1)] assms(2) True
  show ?thesis by simp
qed (simp add: run_operations_notin)

lemma plan_operation_change:
  assumes "buildPublicationPlan input legacy = Inr plan" "q \<in> set (plan_operations plan)"
  obtains c where "c \<in> set (DiffManifests (pi_base_manifest input) (pi_target_manifest input))"
    "po_operation q = fc_operation c" "po_phase q = fc_phase c" "po_path q = fc_path c"
proof -
  have delta: "pi_changes input = DiffManifests (pi_base_manifest input) (pi_target_manifest input)"
    using buildPublicationPlan_Inr[OF assms(1)] by metis
  have "mset (map op_sig (plan_operations plan)) = mset (map fc_sig (pi_changes input))"
    using state_operations_plan[OF assms(1)] by metis
  then have "op_sig q \<in> set (map fc_sig (pi_changes input))"
    using assms(2) mset_eq_setD by fastforce
  then obtain c where "c \<in> set (pi_changes input)" "op_sig q = fc_sig c" by auto
  with delta that show thesis by simp
qed

lemma for_each_step:
  "for_each f s xs = Inr t \<Longrightarrow> x \<in> set xs \<Longrightarrow> \<exists>s1 s2. f s1 x = Inr s2"
proof (induction xs arbitrary: s)
  case (Cons y ys)
  then obtain s' where "f s y = Inr s'" "for_each f s' ys = Inr t"
    unfolding for_each.simps and_then_Inr_iff by blast
  with Cons show ?case by auto
qed simp

lemma plan_keeps_pointers:
  assumes "buildPublicationPlan input legacy = Inr plan"
    and "fileByPath (pi_base_manifest input) p = Some f" "gf_phase f = ''pointer''"
  shows "fileByPath (pi_target_manifest input) p \<noteq> None"
proof
  assume gone: "fileByPath (pi_target_manifest input) p = None"
  obtain ps where delta: "pi_changes input = DiffManifests (pi_base_manifest input) (pi_target_manifest input)"
    and loop: "for_each (plan_step legacy (fileByPath (pi_base_manifest input))) plan_start (pi_changes input) = Inr ps"
    using buildPublicationPlan_Inr[OF assms(1)] by metis
  have path: "fc_path (delete_of p) = p" by (simp add: delete_of_def)
  have "delete_of p \<in> set (pi_changes input)"
    unfolding delta set_DiffManifests path
    using gone assms(2) fileByPath_None[of "pi_base_manifest input" p] by (simp add: base_change_def)
  from for_each_step[OF loop this]
  obtain s1 s2 where "plan_step legacy (fileByPath (pi_base_manifest input)) s1 (delete_of p) = Inr s2" by blast
  then show False
    by (cases rule: plan_step_cases) (use assms(2,3) in \<open>simp_all add: delete_of_def\<close>)
qed

subsection \<open>A concrete publication\<close>

text \<open>One RPM view gains a package and moves its pointer.\<close>

definition example_file :: "string \<Rightarrow> string \<Rightarrow> char \<Rightarrow> GenerationFile" where
  "example_file p phase c = \<lparr>gf_path = p, gf_phase = phase, gf_size = 7, gf_sha256 = replicate 64 c\<rparr>"

definition example_base :: "GenerationFile list" where
  "example_base =
     [example_file ''dists/el9/x86_64/repodata/repomd.xml'' ''pointer'' CHR ''a'',
      example_file ''pool/a.rpm'' ''payload'' CHR ''b'']"

definition example_target :: "GenerationFile list" where
  "example_target =
     [example_file ''dists/el9/x86_64/repodata/repomd.xml'' ''pointer'' CHR ''c'',
      example_file ''pool/a.rpm'' ''payload'' CHR ''b'',
      example_file ''pool/b.rpm'' ''payload'' CHR ''d'']"

definition example_input :: "GenerationFile list \<Rightarrow> PublicationPlanInput" where
  "example_input target =
     \<lparr>pi_repository_id = ''01234567-89ab-4cde-8f01-23456789abcd'', pi_target_identity = replicate 64 CHR ''e'',
      pi_base_checkpoint = replicate 64 CHR ''f'', pi_target_generation = 2,
      pi_base_manifest = example_base, pi_target_manifest = target,
      pi_changes = DiffManifests example_base target\<rparr>"

definition manifest_ok :: "GenerationFile list \<Rightarrow> bool" where
  "manifest_ok files \<longleftrightarrow> sort_key gf_path files = files \<and> distinct (map gf_path files)
     \<and> list_all (\<lambda>f. \<not> invalid_generation_file LayoutSinglePayloadV1 '''' f) files
     \<and> canonical_manifest_loop '''' files"

lemma manifest_ok_canonical:
  assumes "manifest_ok files"
  shows "canonicalManifestArray files" "ManifestBytes files = Inr (manifest_wire files, sha256_hex (manifest_wire files))"
proof -
  have "normalizeManifestForLayout files LayoutSinglePayloadV1 = Inr (files, sha256_hex (manifest_wire files))"
    using normalizeManifest_success[of LayoutSinglePayloadV1 files] assms
    by (simp add: manifest_ok_def list_all_iff)
  with assms show "canonicalManifestArray files"
    "ManifestBytes files = Inr (manifest_wire files, sha256_hex (manifest_wire files))"
    by (simp_all add: canonicalManifestArray_def ManifestBytes_def ManifestBytesForLayout_def manifest_ok_def)
qed

lemma example_manifests_ok: "manifest_ok example_base" "manifest_ok example_target"
  by code_simp+

lemma example_identity: "IsCanonicalRepositoryID ''01234567-89ab-4cde-8f01-23456789abcd''"
  "validSHA256Text (replicate 64 CHR ''e'')" "validSHA256Text (replicate 64 CHR ''f'')"
  by code_simp+

lemma example_guard:
  assumes "manifest_ok target"
  shows "plan_guard (example_input target) = Inr (sha256_hex (manifest_wire target))"
  using manifest_ok_canonical[OF assms] manifest_ok_canonical(1)[OF example_manifests_ok(1)] example_identity
  by (simp add: plan_guard_def example_input_def canonicalChangeArray_DiffManifests)

lemma example_plan:
  obtains plan where "buildPublicationPlan (example_input example_target) False = Inr plan"
    "map (\<lambda>q. (po_phase q, po_path q)) (plan_operations plan) =
       [(''payload'', ''pool/b.rpm''), (''pointer'', ''dists/el9/x86_64/repodata/repomd.xml'')]"
proof -
  let ?in = "example_input example_target"
  have "case for_each (plan_step False (fileByPath (pi_base_manifest ?in))) plan_start (pi_changes ?in) of
      Inl _ \<Rightarrow> False
    | Inr ps \<Rightarrow> (case for_each (commit_step ps (fileByPath (pi_target_manifest ?in))) [] (sort (map fst (ps_pointers ps))) of
        Inl _ \<Rightarrow> False
      | Inr us \<Rightarrow> map (\<lambda>q. (po_phase q, po_path q))
          (ps_payload ps @ ps_immutable ps @ ps_aliases ps @ concat (map cu_pointers us) @ ps_deletes ps) =
          [(''payload'', ''pool/b.rpm''), (''pointer'', ''dists/el9/x86_64/repodata/repomd.xml'')])"
    by code_simp
  then obtain ps us where w:
    "for_each (plan_step False (fileByPath (pi_base_manifest ?in))) plan_start (pi_changes ?in) = Inr ps"
    "for_each (commit_step ps (fileByPath (pi_target_manifest ?in))) [] (sort (map fst (ps_pointers ps))) = Inr us"
    "map (\<lambda>q. (po_phase q, po_path q))
          (ps_payload ps @ ps_immutable ps @ ps_aliases ps @ concat (map cu_pointers us) @ ps_deletes ps) =
          [(''payload'', ''pool/b.rpm''), (''pointer'', ''dists/el9/x86_64/repodata/repomd.xml'')]"
    by (simp split: sum.splits)
  let ?lit = "plan_literal ?in (sha256_hex (manifest_wire example_target)) ps us"
  show thesis
  proof
    show "buildPublicationPlan ?in False = Inr (?lit\<lparr>pp_plan_sha256 := publicationPlanDigest ?lit\<rparr>)"
      by (simp add: buildPublicationPlan_def example_guard[OF example_manifests_ok(2)] w(1,2) Let_def)
    show "map (\<lambda>q. (po_phase q, po_path q)) (plan_operations (?lit\<lparr>pp_plan_sha256 := publicationPlanDigest ?lit\<rparr>)) =
       [(''payload'', ''pool/b.rpm''), (''pointer'', ''dists/el9/x86_64/repodata/repomd.xml'')]"
      using w(3) by (simp add: plan_operations_def plan_literal_def)
  qed
qed

subsection \<open>What a plan guarantees\<close>

text \<open>C1. A plan that is built, executed in its order on the base manifest, yields exactly the target
  manifest: every path ends with the target's file or absent, and no path is touched twice.\<close>

theorem plan_reaches_target:
  assumes "buildPublicationPlan input legacy = Inr plan"
  shows "run_operations (plan_operations plan) (fileByPath (pi_base_manifest input))
           = fileByPath (pi_target_manifest input)
         \<and> distinct (map po_path (plan_operations plan))"
  using plan_operation_paths[OF assms] by blast

theorem plan_reaches_target_witness:
  "\<exists>plan. buildPublicationPlan (example_input example_target) False = Inr plan
     \<and> run_operations (plan_operations plan) (fileByPath example_base) = fileByPath example_target
     \<and> distinct (map po_path (plan_operations plan))"
proof -
  obtain plan where "buildPublicationPlan (example_input example_target) False = Inr plan" by (rule example_plan)
  with plan_reaches_target[OF this] show ?thesis by (auto simp: example_input_def)
qed

lemma prefix_facts:
  assumes "buildPublicationPlan input legacy = Inr plan" and "plan_operations plan = done @ rest"
  shows "\<lbrakk>q \<in> set done; po_phase q = ''pointer''; fileByPath (pi_target_manifest input) p = Some f;
          gf_phase f \<noteq> ''pointer''\<rbrakk>
         \<Longrightarrow> run_operations done (fileByPath (pi_base_manifest input)) p = Some f"
    and "\<lbrakk>\<forall>q \<in> set done. po_phase q \<noteq> ''delete''; fileByPath (pi_base_manifest input) p \<noteq> None\<rbrakk>
         \<Longrightarrow> run_operations done (fileByPath (pi_base_manifest input)) p \<noteq> None"
proof -
  let ?b = "fileByPath (pi_base_manifest input)" and ?t = "fileByPath (pi_target_manifest input)"
  note run = run_prefix[OF assms] and ph = plan_phases[OF assms(1)] and paths = plan_operation_paths[OF assms(1)]
  obtain s where "plan_guard input = Inr s" using buildPublicationPlan_Inr[OF assms(1)] by metis
  note canon = canonicalManifestArray_phase[OF plan_guard_manifests(2)[OF this]]
  show "run_operations done ?b p = Some f"
    if q: "q \<in> set done" "po_phase q = ''pointer''" and f: "?t p = Some f" "gf_phase f \<noteq> ''pointer''"
  proof (cases "p \<in> set (map po_path done)")
    case False
    have "set rest \<subseteq> set (pointer_operations plan @ pp_delete_candidates plan)"
    proof (rule content_before_pointers(1))
      show "content_operations plan @ pointer_operations plan @ pp_delete_candidates plan = done @ rest"
        using assms(2) by (simp add: plan_operations_split)
      show "\<forall>q \<in> set (content_operations plan). po_phase q \<noteq> ''pointer''" using ph(1-3) by auto
    qed (fact q)+
    then have late: "po_phase r = ''pointer'' \<or> po_phase r = ''delete''" if "r \<in> set rest" for r
      using ph(4,5) that by auto
    have "p \<notin> set (map po_path rest)"
    proof
      assume "p \<in> set (map po_path rest)"
      then obtain r where r: "r \<in> set rest" "po_path r = p" by auto
      then have "operation_effect r = Some f" using paths(2) assms(2) f by auto
      then have "po_phase r = gf_phase f" by (auto simp: operation_effect_def split: if_splits)
      with late[OF r(1)] canon[OF f(1)] f(2) show False by auto
    qed
    with False have "p \<notin> set (map po_path (plan_operations plan))" using assms(2) by simp
    from run_operations_notin[OF this, of ?b] paths(3) have "?b p = ?t p" by simp
    with run[of p] False f show ?thesis by simp
  qed (use run[of p] f in simp)
  show "run_operations done ?b p \<noteq> None" if nodel: "\<forall>q \<in> set done. po_phase q \<noteq> ''delete''" and b: "?b p \<noteq> None"
  proof (cases "p \<in> set (map po_path done)")
    case True
    then obtain q where q: "q \<in> set done" "po_path q = p" by auto
    then have "operation_effect q \<noteq> None"
      using nodel plan_operation_deletes[OF assms(1), of q] assms(2) by (auto simp: operation_effect_def)
    moreover have "operation_effect q = ?t p" using paths(2) q assms(2) by simp
    ultimately show ?thesis using run[of p] True by simp
  qed (use run[of p] b in simp)
qed

text \<open>C2. Publication order is crash safe. Stop a plan anywhere: as soon as one pointer has been written,
  every payload and metadata file of the target is in place with the target's content; and as long
  as no deletion candidate has been processed, no file of the base has disappeared.\<close>

theorem plan_prefix_safe:
  assumes "buildPublicationPlan input legacy = Inr plan" and "plan_operations plan = done @ rest"
  shows "(\<forall>q p f. q \<in> set done \<longrightarrow> po_phase q = ''pointer'' \<longrightarrow> fileByPath (pi_target_manifest input) p = Some f
            \<longrightarrow> gf_phase f \<noteq> ''pointer''
            \<longrightarrow> run_operations done (fileByPath (pi_base_manifest input)) p = Some f)
         \<and> ((\<forall>q \<in> set done. po_phase q \<noteq> ''delete'') \<longrightarrow>
            dom (fileByPath (pi_base_manifest input)) \<subseteq> dom (run_operations done (fileByPath (pi_base_manifest input))))"
  using prefix_facts[OF assms] by (auto simp: dom_def)

theorem plan_prefix_safe_witness:
  "\<exists>plan done rest q. buildPublicationPlan (example_input example_target) False = Inr plan
     \<and> plan_operations plan = done @ rest \<and> q \<in> set done \<and> po_phase q = ''pointer''
     \<and> run_operations done (fileByPath example_base) ''pool/b.rpm'' =
         Some (example_file ''pool/b.rpm'' ''payload'' CHR ''d'')
     \<and> run_operations done (fileByPath example_base) ''pool/a.rpm'' \<noteq> None"
proof -
  obtain plan where plan: "buildPublicationPlan (example_input example_target) False = Inr plan"
    and ops: "map (\<lambda>q. (po_phase q, po_path q)) (plan_operations plan) =
       [(''payload'', ''pool/b.rpm''), (''pointer'', ''dists/el9/x86_64/repodata/repomd.xml'')]"
    by (rule example_plan)
  then obtain r q where rq: "plan_operations plan = [r, q]" "po_phase r = ''payload''" "po_phase q = ''pointer''"
    by (auto simp: map_eq_Cons_conv)
  have split: "plan_operations plan = [r, q] @ []" using rq by simp
  have new: "fileByPath (pi_target_manifest (example_input example_target)) ''pool/b.rpm'' =
      Some (example_file ''pool/b.rpm'' ''payload'' CHR ''d'')" by code_simp
  have old: "fileByPath (pi_base_manifest (example_input example_target)) ''pool/a.rpm'' \<noteq> None" by code_simp
  have base: "pi_base_manifest (example_input example_target) = example_base" by (simp add: example_input_def)
  note safe = plan_prefix_safe[OF plan split]
  have "run_operations [r, q] (fileByPath example_base) ''pool/b.rpm'' =
         Some (example_file ''pool/b.rpm'' ''payload'' CHR ''d'')"
    using safe[THEN conjunct1, rule_format, OF _ rq(3) new, unfolded base] by (simp add: example_file_def)
  moreover have "run_operations [r, q] (fileByPath example_base) ''pool/a.rpm'' \<noteq> None"
    using safe[THEN conjunct2, unfolded base] old[unfolded base] rq by (auto simp: dom_def)
  ultimately show ?thesis using plan split rq(3) by (metis list.set_intros(1) list.set_intros(2))
qed

lemma plan_payload_adds:
  assumes "BuildPublicationPlan input = Inr plan"
  shows "q \<in> set (pp_payload plan) \<Longrightarrow> fileByPath (pi_base_manifest input) (po_path q) = None"
    and "fileByPath (pi_base_manifest input) p = Some f \<Longrightarrow> gf_phase f = ''pointer'' \<Longrightarrow>
         fileByPath (pi_target_manifest input) p \<noteq> None"
proof -
  have build: "buildPublicationPlan input False = Inr plan" using assms by (simp add: BuildPublicationPlan_def)
  show "fileByPath (pi_base_manifest input) (po_path q) = None" if q: "q \<in> set (pp_payload plan)"
  proof -
    have ph: "po_phase q = ''payload''" "po_operation q \<noteq> ''update''" using plan_phases(1)[OF build] q by auto
    have "q \<in> set (plan_operations plan)" using q by (simp add: plan_operations_def)
    then obtain c where c: "c \<in> set (DiffManifests (pi_base_manifest input) (pi_target_manifest input))"
      "po_operation q = fc_operation c" "po_phase q = fc_phase c" "po_path q = fc_path c"
      by (rule plan_operation_change[OF build])
    from c(1) show ?thesis
    proof (cases rule: DiffManifests_cases)
      case (update f g)
      then have "fc_operation c = ''update''" by (metis FileChange.select_convs(1) change_of_def)
      with c ph show ?thesis by simp
    next
      case (delete g)
      then have "fc_phase c = ''delete''" by (metis FileChange.select_convs(3) delete_of_def)
      with c ph show ?thesis by simp
    qed (use c in simp)
  qed
  show "fileByPath (pi_base_manifest input) p = Some f \<Longrightarrow> gf_phase f = ''pointer'' \<Longrightarrow>
         fileByPath (pi_target_manifest input) p \<noteq> None"
    by (rule plan_keeps_pointers[OF build])
qed

text \<open>C28. Payload is immutable and pointers are never withdrawn: an ordinary plan only adds payload at
  paths the base does not use, and it exists only when every pointer of the base is still a file
  of the target.\<close>

theorem plan_payload_immutable:
  assumes "BuildPublicationPlan input = Inr plan"
  shows "(\<forall>q \<in> set (pp_payload plan). fileByPath (pi_base_manifest input) (po_path q) = None)
         \<and> (\<forall>p f. fileByPath (pi_base_manifest input) p = Some f \<longrightarrow> gf_phase f = ''pointer'' \<longrightarrow>
              p \<in> dom (fileByPath (pi_target_manifest input)))"
  using plan_payload_adds[OF assms] by (simp add: domIff)

theorem plan_payload_immutable_witness:
  "\<exists>plan q. BuildPublicationPlan (example_input example_target) = Inr plan \<and> q \<in> set (pp_payload plan)
     \<and> fileByPath example_base (po_path q) = None
     \<and> fileByPath example_target ''dists/el9/x86_64/repodata/repomd.xml'' \<noteq> None"
proof -
  obtain plan where plan: "buildPublicationPlan (example_input example_target) False = Inr plan"
    and ops: "map (\<lambda>q. (po_phase q, po_path q)) (plan_operations plan) =
       [(''payload'', ''pool/b.rpm''), (''pointer'', ''dists/el9/x86_64/repodata/repomd.xml'')]"
    by (rule example_plan)
  then obtain r q where rq: "plan_operations plan = [r, q]" "po_phase r = ''payload''" "po_phase q = ''pointer''"
    by (auto simp: map_eq_Cons_conv)
  have "r \<in> set (plan_operations plan)" using rq by simp
  then have r: "r \<in> set (pp_payload plan)"
    using plan_phases[OF plan] rq(2) by (auto simp: plan_operations_def)
  have build: "BuildPublicationPlan (example_input example_target) = Inr plan"
    using plan by (simp add: BuildPublicationPlan_def)
  have ptr: "fileByPath (pi_base_manifest (example_input example_target)) ''dists/el9/x86_64/repodata/repomd.xml'' =
      Some (example_file ''dists/el9/x86_64/repodata/repomd.xml'' ''pointer'' CHR ''a'')" by code_simp
  show ?thesis
    using build r plan_payload_immutable[OF build] ptr
    by (auto simp: example_input_def example_file_def dom_def)
qed

lemma commit_unit_facts:
  assumes "buildPublicationPlan input legacy = Inr plan"
  shows "sorted_wrt (<) (map cu_view_id (pp_commit_units plan))"
    and "u \<in> set (pp_commit_units plan) \<Longrightarrow>
      map po_path (cu_pointers u) =
        filter (\<lambda>p. fileByPath (pi_target_manifest input) p \<noteq> None)
          (map (\<lambda>n. cu_view_id u @ ''/'' @ n) (pointer_names (cu_protocol u)))
      \<and> (cu_protocol u = ''rpm'' \<and> cu_view_id u @ ''/repodata/repomd.xml'' \<in> set (map po_path (cu_pointers u))
         \<or> cu_protocol u = ''apt'' \<and> cu_view_id u @ ''/Release'' \<in> set (map po_path (cu_pointers u)))"
proof -
  obtain ps where inv: "plan_inv legacy ps" and units: "list_all2 (unit_ok ps (fileByPath (pi_target_manifest input)))
       (sort (map fst (ps_pointers ps))) (pp_commit_units plan)"
    by (rule state_operations_plan[OF assms]) (rule that)
  have views: "map cu_view_id (pp_commit_units plan) = sort (map fst (ps_pointers ps))"
    using units by (induction rule: list_all2_induct) (simp_all add: unit_ok_def)
  have "distinct (map fst (ps_pointers ps))" using inv by (simp add: plan_inv_def)
  then show "sorted_wrt (<) (map cu_view_id (pp_commit_units plan))"
    unfolding views by (simp add: strict_sorted_iff)
  show "map po_path (cu_pointers u) =
        filter (\<lambda>p. fileByPath (pi_target_manifest input) p \<noteq> None)
          (map (\<lambda>n. cu_view_id u @ ''/'' @ n) (pointer_names (cu_protocol u)))
      \<and> (cu_protocol u = ''rpm'' \<and> cu_view_id u @ ''/repodata/repomd.xml'' \<in> set (map po_path (cu_pointers u))
         \<or> cu_protocol u = ''apt'' \<and> cu_view_id u @ ''/Release'' \<in> set (map po_path (cu_pointers u)))"
    if "u \<in> set (pp_commit_units plan)"
  proof -
    from units that obtain v where "unit_ok ps (fileByPath (pi_target_manifest input)) v u"
      by (metis in_set_conv_nth list_all2_conv_all_nth)
    then have v: "cu_view_id u = v" and order: "map po_path (cu_pointers u) =
        filter (\<lambda>p. fileByPath (pi_target_manifest input) p \<noteq> None)
          (map (\<lambda>n. v @ ''/'' @ n) (pointer_names (cu_protocol u)))"
      and proto: "cu_protocol u = ''rpm'' \<or> cu_protocol u = ''apt''"
      and commit: "v @ ''/'' @ (if cu_protocol u = ''apt'' then ''Release'' else ''repodata/repomd.xml'')
         \<in> set (map po_path (cu_pointers u))"
      unfolding unit_ok_def by blast+
    have "cu_protocol u = ''rpm'' \<and> v @ ''/repodata/repomd.xml'' \<in> set (map po_path (cu_pointers u))
         \<or> cu_protocol u = ''apt'' \<and> v @ ''/Release'' \<in> set (map po_path (cu_pointers u))"
    proof (cases "cu_protocol u = ''apt''")
      case True with commit show ?thesis by simp
    next
      case False with commit proto show ?thesis by simp
    qed
    with v order show ?thesis by blast
  qed
qed

text \<open>C27. The commit units of a plan: one per view in increasing order of the view, and the pointers of a
  unit are exactly those the target has, in the protocol's order (the detached signature before
  the file it signs, \<open>InRelease\<close> last), the commit pointer itself among them.\<close>

theorem plan_commit_units:
  assumes "buildPublicationPlan input legacy = Inr plan"
  shows "sorted_wrt (<) (map cu_view_id (pp_commit_units plan))
    \<and> (\<forall>u \<in> set (pp_commit_units plan).
      map po_path (cu_pointers u) =
        filter (\<lambda>p. fileByPath (pi_target_manifest input) p \<noteq> None)
          (map (\<lambda>n. cu_view_id u @ ''/'' @ n) (pointer_names (cu_protocol u)))
      \<and> (cu_protocol u = ''rpm'' \<and> cu_view_id u @ ''/repodata/repomd.xml'' \<in> set (map po_path (cu_pointers u))
         \<or> cu_protocol u = ''apt'' \<and> cu_view_id u @ ''/Release'' \<in> set (map po_path (cu_pointers u))))"
  using commit_unit_facts[OF assms] by blast

theorem plan_commit_units_witness:
  "\<exists>plan. buildPublicationPlan (example_input example_target) False = Inr plan
     \<and> sorted_wrt (<) (map cu_view_id (pp_commit_units plan))
     \<and> (\<exists>u \<in> set (pp_commit_units plan). map po_path (cu_pointers u) =
        filter (\<lambda>p. fileByPath example_target p \<noteq> None)
          (map (\<lambda>n. cu_view_id u @ ''/'' @ n) (pointer_names (cu_protocol u))))"
proof -
  obtain plan where plan: "buildPublicationPlan (example_input example_target) False = Inr plan"
    and ops: "map (\<lambda>q. (po_phase q, po_path q)) (plan_operations plan) =
       [(''payload'', ''pool/b.rpm''), (''pointer'', ''dists/el9/x86_64/repodata/repomd.xml'')]"
    by (rule example_plan)
  then obtain r q where "plan_operations plan = [r, q]" "po_phase q = ''pointer''"
    by (auto simp: map_eq_Cons_conv)
  then have "q \<in> set (plan_operations plan)" "po_phase q = ''pointer''" by simp_all
  then have "q \<in> set (pointer_operations plan)"
    using plan_phases[OF plan] by (auto simp: plan_operations_def)
  then obtain u where u: "u \<in> set (pp_commit_units plan)" by auto
  show ?thesis
    using plan plan_commit_units[OF plan] u
    by (auto simp: example_input_def)
qed

lemma diff_phase_rank:
  assumes "canonicalManifestArray target" "c \<in> set (DiffManifests base target)" "change_rank (fc_phase c) = 0"
  shows "fc_phase c = ''payload''"
  using assms(2)
proof (cases rule: DiffManifests_cases)
  case (add f)
  then have "fc_phase c = gf_phase f" by (metis FileChange.select_convs(3) change_of_def)
  with canonicalManifestArray_phase(1)[OF assms(1) add(1)] assms(3) show ?thesis
    by (auto simp: change_rank_def)
next
  case (update f g)
  then have "fc_phase c = gf_phase f" by (metis FileChange.select_convs(3) change_of_def)
  with canonicalManifestArray_phase(1)[OF assms(1) update(1)] assms(3) show ?thesis
    by (auto simp: change_rank_def)
next
  case (delete g)
  then have "fc_phase c = ''delete''" by (metis FileChange.select_convs(3) delete_of_def)
  with assms(3) show ?thesis by (simp add: change_rank_def)
qed

lemma payload_steps_succeed:
  "\<forall>c \<in> set cs. fc_phase c = ''payload'' \<and> fc_operation c \<noteq> ''update'' \<Longrightarrow>
     \<exists>ps'. for_each (plan_step False b) ps cs = Inr ps'"
proof (induction cs arbitrary: ps)
  case (Cons c cs)
  then have "plan_step False b ps c = Inr (ps\<lparr>ps_payload := ps_payload ps @ [plan_operation b c]\<rparr>)"
    by (simp add: plan_step_def)
  with Cons show ?case by simp
qed simp

text \<open>C29. Reusing a payload URL for different content is refused: when the inputs are consistent and a
  payload path of the base carries other content in the target, no plan is built and the error is
  \<open>ErrPoolPathConflict\<close>, before any other refusal the changes could cause.\<close>

theorem plan_payload_conflict:
  assumes "plan_guard input = Inr manifestSHA"
    and "fileByPath (pi_base_manifest input) p = Some f" and "fileByPath (pi_target_manifest input) p = Some g"
    and "gf_phase g = ''payload''" and "f \<noteq> g"
  shows "\<exists>text. BuildPublicationPlan input = Inl (GoError [ErrPoolPathConflict] text)"
proof -
  let ?b = "fileByPath (pi_base_manifest input)"
  let ?P = "\<lambda>c. fc_phase c = ''payload'' \<and> fc_operation c = ''update''"
  have delta: "pi_changes input = DiffManifests (pi_base_manifest input) (pi_target_manifest input)"
    using assms(1) unfolding plan_guard_def
    by (simp add: and_then_Inr_iff Let_def split: if_splits prod.splits)
  note canon = plan_guard_manifests(2)[OF assms(1)]
  have "gf_path f = p" "gf_path g = p" using fileByPath_Some assms(2,3) by auto
  then have "change_of ''update'' g \<in> set (pi_changes input)"
    unfolding delta set_DiffManifests using assms(2,3,5)
    by (auto simp: change_of_def target_change_def)
  moreover have "?P (change_of ''update'' g)" using assms(4) by (simp add: change_of_def)
  ultimately obtain xs c ys where cs: "pi_changes input = xs @ c # ys" "?P c" "\<forall>x \<in> set xs. \<not> ?P x"
    using split_list_first_prop[of "pi_changes input" ?P] by blast
  have "fc_phase x = ''payload''" if "x \<in> set xs" for x
  proof (rule diff_phase_rank[OF canon])
    show "x \<in> set (DiffManifests (pi_base_manifest input) (pi_target_manifest input))"
      using that cs(1) delta by (metis Un_iff set_append)
    have "change_key x \<le> change_key c"
      using DiffManifests_sorted[of "pi_base_manifest input" "pi_target_manifest input"] that cs(1) delta
      by (auto simp: sorted_append)
    then show "change_rank (fc_phase x) = 0" using cs(2) by (auto simp: change_key_def change_rank_def split: if_splits)
  qed
  with cs(3) have "\<forall>x \<in> set xs. fc_phase x = ''payload'' \<and> fc_operation x \<noteq> ''update''" by blast
  then obtain ps where ps: "for_each (plan_step False ?b) plan_start xs = Inr ps"
    using payload_steps_succeed[of xs ?b plan_start] by blast
  have "for_each (plan_step False ?b) plan_start (pi_changes input) =
      Inl (GoError [ErrPoolPathConflict] ''payload URL cannot be reused for different content'')"
    unfolding cs(1) for_each_append ps using cs(2) by (simp add: plan_step_def)
  then show ?thesis
    using assms(1) by (simp add: BuildPublicationPlan_def buildPublicationPlan_def)
qed

theorem plan_payload_conflict_witness:
  "\<exists>text. BuildPublicationPlan (example_input
      [example_file ''dists/el9/x86_64/repodata/repomd.xml'' ''pointer'' CHR ''c'',
       example_file ''pool/a.rpm'' ''payload'' CHR ''d'']) = Inl (GoError [ErrPoolPathConflict] text)"
proof -
  let ?t = "[example_file ''dists/el9/x86_64/repodata/repomd.xml'' ''pointer'' CHR ''c'',
             example_file ''pool/a.rpm'' ''payload'' CHR ''d'']"
  have ok: "manifest_ok ?t" by code_simp
  have f: "fileByPath (pi_base_manifest (example_input ?t)) ''pool/a.rpm'' =
      Some (example_file ''pool/a.rpm'' ''payload'' CHR ''b'')" by code_simp
  have g: "fileByPath (pi_target_manifest (example_input ?t)) ''pool/a.rpm'' =
      Some (example_file ''pool/a.rpm'' ''payload'' CHR ''d'')" by code_simp
  show ?thesis
    by (rule plan_payload_conflict[OF example_guard[OF ok] f g]) (code_simp, code_simp)
qed

lemma omit_empty_text: "case omit_empty s of None \<Rightarrow> True | Some t \<Rightarrow> json_text 0 t"
  by (simp add: omit_empty_def json_text_quote)

lemma operation_json_text: "json_text 1 (operation_json q)"
  unfolding operation_json_def One_nat_def
  by (rule json_text_object) (use omit_empty_text[of "po_sha256 q"] omit_empty_text[of "po_expected_old_sha256 q"] in
    \<open>simp add: json_text_quote json_text_int\<close>)

lemma unit_json_text: "json_text 3 (unit_json u)"
proof -
  have "json_text 2 (json_array (map operation_json (cu_pointers u)))"
    using json_text_array[of 1 "map operation_json (cu_pointers u)"] operation_json_text
    by (simp add: list_all_iff numeral_2_eq_2)
  then have "json_text (Suc 2) (unit_json u)"
    unfolding unit_json_def
    by (intro json_text_object) (simp add: json_text_mono[OF json_text_quote])
  then show ?thesis by (simp add: numeral_3_eq_3)
qed

lemma plan_json_text: "json_text 5 (plan_json p)"
proof -
  have ops: "json_text 4 (json_array (map operation_json qs))" for qs
    using json_text_array[of 3 "map operation_json qs"]
    by (simp add: list_all_iff json_text_mono[OF operation_json_text])
  have units: "json_text 4 (json_array (map unit_json us))" for us
    using json_text_array[of 3 "map unit_json us"] by (simp add: list_all_iff unit_json_text)
  have opt: "case omit_empty s of None \<Rightarrow> True | Some t \<Rightarrow> json_text 4 t" for s
    by (simp add: omit_empty_def json_text_mono[OF json_text_quote])
  have "json_text (Suc 4) (plan_json p)"
    unfolding plan_json_def
    by (intro json_text_object) (simp add: ops units opt json_text_mono[OF json_text_quote])
  then show ?thesis by simp
qed

text \<open>The wire form of a plan: every plan that is built carries the digest of its own contents, so its
  bytes are produced, and they are a valid JSON document.\<close>

theorem plan_bytes_valid:
  assumes "buildPublicationPlan input legacy = Inr plan"
  shows "PublicationPlanBytes plan = Inr (plan_json plan) \<and> json_valid (plan_json plan)"
proof -
  have "pp_plan_sha256 plan = publicationPlanDigest plan" using buildPublicationPlan_Inr[OF assms] by metis
  moreover have "json_valid (plan_json plan)"
    by (rule json_text_valid[OF plan_json_text]) (simp add: max_nesting_def)
  ultimately show ?thesis by (simp add: PublicationPlanBytes_def)
qed

theorem plan_bytes_valid_witness:
  "\<exists>plan. buildPublicationPlan (example_input example_target) False = Inr plan
     \<and> PublicationPlanBytes plan = Inr (plan_json plan) \<and> json_valid (plan_json plan)"
proof -
  obtain plan where "buildPublicationPlan (example_input example_target) False = Inr plan" by (rule example_plan)
  with plan_bytes_valid[OF this] show ?thesis by blast
qed

end
