(* ===== verification/Go_Time.thy ===== *)
theory Go_Time
  imports Sow_Prelude "HOL-Library.Product_Lexorder"
begin

section \<open>UTC timestamps (Go's \<open>time\<close>, and \<open>formatTimestamp\<close> of \<open>internal/v2/state/state.go\<close>)\<close>

text \<open>
  A \<open>time.Time\<close> in UTC is modelled by its civil fields; \<open>Before\<close> and \<open>After\<close> compare them in
  order. The sources use two layouts: whole seconds (\<open>2006-01-02T15:04:05Z\<close>) and the fixed
  30-byte layout with nine fractional digits, which is what makes stored timestamps comparable
  as text. Reading a text back is reading the digits at their places; a text that is not what
  its fields print is refused wherever the sources compare it with its own formatting.
\<close>

record utc_time =
  t_year :: nat
  t_month :: nat
  t_day :: nat
  t_hour :: nat
  t_minute :: nat
  t_second :: nat
  t_nanos :: nat

definition is_leap :: "nat \<Rightarrow> bool" where
  "is_leap y \<longleftrightarrow> y mod 4 = 0 \<and> (y mod 100 \<noteq> 0 \<or> y mod 400 = 0)"

definition days_in :: "nat \<Rightarrow> nat \<Rightarrow> nat" where
  "days_in m y = (if m = 2 then (if is_leap y then 29 else 28) else if m \<in> {4, 6, 9, 11} then 30 else 31)"

definition valid_utc :: "utc_time \<Rightarrow> bool" where
  "valid_utc t \<longleftrightarrow> t_year t < 10000 \<and> 1 \<le> t_month t \<and> t_month t \<le> 12 \<and> 1 \<le> t_day t
     \<and> t_day t \<le> days_in (t_month t) (t_year t) \<and> t_hour t < 24 \<and> t_minute t < 60 \<and> t_second t < 60
     \<and> t_nanos t < 1000000000"

text \<open>The zero \<open>time.Time\<close>, January 1 of year 1.\<close>

definition zero_time :: utc_time where
  "zero_time = \<lparr>t_year = 1, t_month = 1, t_day = 1, t_hour = 0, t_minute = 0, t_second = 0, t_nanos = 0\<rparr>"

definition time_key :: "utc_time \<Rightarrow> nat \<times> nat \<times> nat \<times> nat \<times> nat \<times> nat \<times> nat" where
  "time_key t = (t_year t, t_month t, t_day t, t_hour t, t_minute t, t_second t, t_nanos t)"

definition time_Before :: "utc_time \<Rightarrow> utc_time \<Rightarrow> bool" where
  "time_Before a b \<longleftrightarrow> time_key a < time_key b"

definition digits :: "nat \<Rightarrow> nat \<Rightarrow> string" where
  "digits w n = pad_zero w (decimal n)"

definition format_date :: "utc_time \<Rightarrow> string" where
  "format_date t =
     digits 4 (t_year t) @ ''-'' @ digits 2 (t_month t) @ ''-'' @ digits 2 (t_day t) @ ''T''
     @ digits 2 (t_hour t) @ '':'' @ digits 2 (t_minute t) @ '':'' @ digits 2 (t_second t)"

definition formatTimestamp :: "utc_time \<Rightarrow> string" where
  "formatTimestamp t = format_date t @ ''.'' @ digits 9 (t_nanos t) @ ''Z''"

definition format_seconds :: "utc_time \<Rightarrow> string" where
  "format_seconds t = format_date t @ ''Z''"

definition field :: "string \<Rightarrow> nat \<Rightarrow> nat \<Rightarrow> nat" where
  "field s i w = dec_value (take w (drop i s))"

definition fields_of :: "string \<Rightarrow> nat \<Rightarrow> utc_time" where
  "fields_of s nanos =
     \<lparr>t_year = field s 0 4, t_month = field s 5 2, t_day = field s 8 2, t_hour = field s 11 2,
      t_minute = field s 14 2, t_second = field s 17 2, t_nanos = nanos\<rparr>"

text \<open>\<open>time.Parse\<close> followed by the comparison with the formatted value, for either layout.\<close>

definition parse_timestamp :: "string \<Rightarrow> utc_time option" where
  "parse_timestamp s =
     (let t = fields_of s (field s 20 9)
      in if valid_utc t \<and> formatTimestamp t = s then Some t else None)"

definition parse_seconds :: "string \<Rightarrow> utc_time option" where
  "parse_seconds s =
     (let t = fields_of s 0 in if valid_utc t \<and> format_seconds t = s then Some t else None)"

text \<open>Whole seconds since the first day of year 0 (proleptic Gregorian calendar), for \<open>Sub\<close>.\<close>

definition days_before_year :: "nat \<Rightarrow> nat" where
  "days_before_year y = 365 * y + (y + 3) div 4 - (y + 99) div 100 + (y + 399) div 400"

definition day_number :: "utc_time \<Rightarrow> nat" where
  "day_number t =
     days_before_year (t_year t) + sum_list (map (\<lambda>m. days_in m (t_year t)) [1..<t_month t]) + t_day t"

definition unix_like_seconds :: "utc_time \<Rightarrow> int" where
  "unix_like_seconds t =
     int (day_number t) * 86400 + int (t_hour t) * 3600 + int (t_minute t) * 60 + int (t_second t)"

subsection \<open>Text order is time order\<close>

lemma append_less_iff:
  fixes a b :: string
  shows "length a = length b \<Longrightarrow> a @ c < b @ d \<longleftrightarrow> a < b \<or> a = b \<and> c < d"
  by (induction a b rule: list_induct2) auto

lemma same_prefix_less [simp]: "(a :: string) @ c < a @ d \<longleftrightarrow> c < d"
  by (simp add: append_less_iff)

lemma length_digits: "n < 10 ^ w \<Longrightarrow> 0 < w \<Longrightarrow> length (digits w n) = w"
  using length_decimal_le[of n w] by (simp add: digits_def)

lemma dec_value_digits [simp]: "dec_value (digits w n) = n"
  by (simp add: digits_def)

lemma digits_eq_iff: "digits w n = digits w m \<longleftrightarrow> n = m"
  by (metis dec_value_digits)

lemma digits_less_iff:
  assumes "n < 10 ^ w" "m < 10 ^ w" "0 < w"
  shows "digits w n < digits w m \<longleftrightarrow> n < m"
proof -
  have "digits w n < digits w m \<longleftrightarrow> dec_value (digits w n) < dec_value (digits w m)"
    by (rule dec_value_less_iff) (use assms in \<open>simp_all add: length_digits\<close>, simp_all add: digits_def digits_pad_zero decimal_digits)
  then show ?thesis by simp
qed

lemma valid_utc_lengths:
  assumes "valid_utc t"
  shows "t_year t < 10 ^ 4" "t_month t < 10 ^ 2" "t_day t < 10 ^ 2" "t_hour t < 10 ^ 2"
    "t_minute t < 10 ^ 2" "t_second t < 10 ^ 2" "t_nanos t < 10 ^ 9"
  using assms by (auto simp: valid_utc_def days_in_def split: if_splits)

lemma pair_less_iff: "((a :: nat), b) < (c, d) \<longleftrightarrow> a < c \<or> a = c \<and> (b :: 'b :: order) < d"
  by (auto simp: less_prod_def)

lemma formatTimestamp_less_iff:
  assumes "valid_utc a" "valid_utc b"
  shows "formatTimestamp a < formatTimestamp b \<longleftrightarrow> time_Before a b"
  using valid_utc_lengths[OF assms(1)] valid_utc_lengths[OF assms(2)]
  unfolding formatTimestamp_def format_date_def append.assoc time_Before_def time_key_def
  by (simp add: append_less_iff length_digits digits_less_iff digits_eq_iff pair_less_iff del: less_prod_simp)

lemma field_skip: "length a = i \<Longrightarrow> field (a @ s) (i + j) w = field s j w"
  by (simp add: field_def)

lemma take_drop_append: "length a = i \<Longrightarrow> drop (i + j) (a @ s) = drop j s"
  by simp

lemma format_date_fields:
  assumes "valid_utc t"
  shows "fields_of (format_date t @ r) n = t\<lparr>t_nanos := n\<rparr>" "length (format_date t) = 19"
proof -
  note v = valid_utc_lengths[OF assms]
  have l: "length (digits 4 (t_year t)) = 4" "length (digits 2 (t_month t)) = 2" "length (digits 2 (t_day t)) = 2"
    "length (digits 2 (t_hour t)) = 2" "length (digits 2 (t_minute t)) = 2" "length (digits 2 (t_second t)) = 2"
    using v by (simp_all add: length_digits)
  show "length (format_date t) = 19" by (simp add: format_date_def l)
  show "fields_of (format_date t @ r) n = t\<lparr>t_nanos := n\<rparr>"
    by (simp add: fields_of_def field_def format_date_def l)
qed

lemma length_formatTimestamp: "valid_utc t \<Longrightarrow> length (formatTimestamp t) = 30"
  using valid_utc_lengths[of t] by (simp add: formatTimestamp_def format_date_def length_digits)


lemma parse_formatTimestamp:
  assumes "valid_utc t"
  shows "parse_timestamp (formatTimestamp t) = Some t"
proof -
  note f = format_date_fields[OF assms]
  have "field (formatTimestamp t) 20 9 = t_nanos t"
    using valid_utc_lengths(7)[OF assms] by (simp add: formatTimestamp_def field_def f(2) length_digits)
  then show ?thesis
    using assms f(1) by (simp add: parse_timestamp_def formatTimestamp_def Let_def)
qed

lemma parse_timestamp_Some: "parse_timestamp s = Some t \<longleftrightarrow> valid_utc t \<and> s = formatTimestamp t"
proof
  assume "parse_timestamp s = Some t"
  then show "valid_utc t \<and> s = formatTimestamp t"
    by (auto simp: parse_timestamp_def Let_def split: if_splits)
qed (auto simp: parse_formatTimestamp)

lemma parse_seconds_Some: "parse_seconds s = Some t \<longleftrightarrow> valid_utc t \<and> t_nanos t = 0 \<and> s = format_seconds t"
proof
  assume "parse_seconds s = Some t"
  then show "valid_utc t \<and> t_nanos t = 0 \<and> s = format_seconds t"
    by (cases t) (auto simp: parse_seconds_def Let_def fields_of_def split: if_splits)
next
  assume t: "valid_utc t \<and> t_nanos t = 0 \<and> s = format_seconds t"
  then have "fields_of s 0 = t" using format_date_fields(1)[of t "''Z''" 0] by (simp add: format_seconds_def)
  with t show "parse_seconds s = Some t" by (simp add: parse_seconds_def)
qed

text \<open>Stored timestamps are comparable as text: for valid UTC times the fixed-width spelling is thirty
  bytes long, reads back as the same time, and its byte order is the order of the times.\<close>

theorem timestamp_order:
  assumes "valid_utc a" and "valid_utc b"
  shows "(formatTimestamp a < formatTimestamp b \<longleftrightarrow> time_Before a b)
    \<and> length (formatTimestamp a) = 30 \<and> parse_timestamp (formatTimestamp a) = Some a"
  using assms by (simp add: formatTimestamp_less_iff length_formatTimestamp parse_formatTimestamp)

theorem timestamp_order_witness:
  "formatTimestamp (zero_time\<lparr>t_year := 2026, t_second := 9\<rparr>) < formatTimestamp (zero_time\<lparr>t_year := 2026, t_second := 10\<rparr>)"
  using timestamp_order[of "zero_time\<lparr>t_year := 2026, t_second := 9\<rparr>" "zero_time\<lparr>t_year := 2026, t_second := 10\<rparr>"]
  by (simp add: zero_time_def valid_utc_def days_in_def time_Before_def time_key_def pair_less_iff)

end
