(* ===== verification/Store.thy ===== *)
theory Store
  imports Publication_Plan Go_Time
begin

section \<open>The repository database (\<open>internal/v2/state\<close>: schema, transactions, identity)\<close>

text \<open>
  The tables of the schema as lists of rows. Every public operation of the package is one
  transaction: a function from the database to an error or the database it commits, so that an
  error leaves the database as it was. What SQLite refuses because of a declared constraint (a
  primary key, a \<open>CHECK\<close>, a trigger, a foreign key) is an error branch; failures of the disk or
  of the connection are not modelled. The checkpoint after a commit is best-effort maintenance
  that can only turn the answer into a \<open>CommittedMaintenanceError\<close>; its outcome is an argument.
\<close>

subsection \<open>Rows\<close>

record repository_row =
  rs_repository_id :: string
  rs_layout_version :: string
  rs_transition_receipt :: "string option"
  rs_built_generation :: GenerationID
  rs_desired_revision :: int
  rs_status :: string
  rs_dirty_reason :: "string option"

record LayoutTransitionControl =
  lc_repository_id :: string
  lc_base_generation :: GenerationID
  lc_target_manifest :: string
  lc_plan_identity :: string
  lc_planned_at :: string
  lc_commit_intent_at :: "string option"
  lc_not_before :: "string option"

text \<open>\<open>OperationState\<close> is a string; a text that is none of the nine constants is kept as it is.\<close>

datatype OperationState =
    OperationPlanned | OperationStaged | OperationApplied | OperationBuilt | OperationDone
  | OperationDoneDirty | OperationRecovering | OperationRolledBack | OperationFailed
  | OperationUnknown string

record Operation =
  op_id :: string
  op_kind :: string
  op_state :: OperationState
  op_payload :: string
  op_result :: string
  op_error_class :: "string option"
  op_error_message :: "string option"
  op_created_at :: string
  op_updated_at :: string

record operation_event =
  ev_operation :: string
  ev_sequence :: nat
  ev_state :: OperationState
  ev_detail :: string
  ev_at :: string

record operation_package =
  pk_operation :: string
  pk_sequence :: nat
  pk_input_path :: string
  pk_sha256 :: "string option"
  pk_coordinate :: "string option"
  pk_disposition :: string
  pk_error_class :: "string option"
  pk_message :: "string option"

record operation_membership =
  om_operation :: string
  om_sequence :: nat
  om_dist :: string
  om_package :: string
  om_action :: string

record operation_file =
  of_operation :: string
  of_sequence :: nat
  of_change :: FileChange

record GenerationInfo =
  gi_generation :: GenerationID
  gi_previous :: GenerationID
  gi_operation :: string
  gi_manifest :: string
  gi_renderer :: string
  gi_created_at :: string

record view_signer =
  vs_generation :: GenerationID
  vs_view :: string
  vs_identity :: string
  vs_public_key :: "string option"

record dist_row =
  di_name :: string
  di_format :: string
  di_effective_config :: string
  di_built_config :: string
  di_built_generation :: GenerationID
  di_desired_revision :: int
  di_signing :: string

record dist_architecture =
  da_dist :: string
  da_family :: string
  da_ecosystem :: string
  da_built_generation :: GenerationID

record dist_signer =
  ds_dist :: string
  ds_fingerprint :: string
  ds_public_key :: string

record membership_row =
  me_dist :: string
  me_package :: string
  me_created_revision :: int

record built_membership =
  bm_dist :: string
  bm_package :: string
  bm_generation :: GenerationID

text \<open>A row of \<open>package_objects\<close>; the two lists of dists are filled in by the listings and empty in a row.\<close>

record PackageObject =
  ob_sha256 :: string
  ob_format :: string
  ob_coordinate :: string
  ob_architecture :: string
  ob_canonical_arch :: string
  ob_pool_path :: string
  ob_filename :: string
  ob_size :: int
  ob_name :: string
  ob_source :: string
  ob_version :: string
  ob_epoch :: string
  ob_release :: string
  ob_kind :: string
  ob_payload_sha256 :: string
  ob_signature_key :: string
  ob_warning :: string
  ob_storage :: string
  ob_created_revision :: int
  ob_dists :: "string list"
  ob_built_dists :: "string list"

record published_object =
  pu_path :: string
  pu_phase :: string
  pu_sha256 :: string

record database =
  db_repository :: repository_row
  db_control :: "LayoutTransitionControl option"
  db_time_witness :: string
  db_operations :: "Operation list"
  db_events :: "operation_event list"
  db_operation_packages :: "operation_package list"
  db_operation_memberships :: "operation_membership list"
  db_operation_files :: "operation_file list"
  db_generations :: "GenerationInfo list"
  db_generation_files :: "(GenerationID \<times> GenerationFile) list"
  db_view_signers :: "view_signer list"
  db_dists :: "dist_row list"
  db_architectures :: "dist_architecture list"
  db_dist_signers :: "dist_signer list"
  db_memberships :: "membership_row list"
  db_built :: "built_membership list"
  db_prior_built :: "built_membership list"
  db_objects :: "PackageObject list"
  db_inventory :: "published_object list"
  db_abandoned :: "published_object list"
  db_rpm_keys :: "(string \<times> string) list"

subsection \<open>Transactions\<close>

text \<open>
  \<open>commit\<close>: begin, run the body, commit, then checkpoint. The first component is the database
  afterwards, the second what the caller is told. \<open>ckpt\<close> is what \<open>checkpointAfterCommit\<close> answers.
\<close>

definition commit :: "unit result \<Rightarrow> (database \<Rightarrow> database result) \<Rightarrow> database \<Rightarrow> database \<times> unit result" where
  "commit ckpt body db = (case body db of Inl e \<Rightarrow> (db, Inl e) | Inr db' \<Rightarrow> (db', ckpt))"

definition CommittedMaintenanceError :: "go_error \<Rightarrow> go_error" where
  "CommittedMaintenanceError e =
     GoError (error_sentinels e) (''SQLite transaction committed; maintenance failed: '' @ error_text e)"

definition checkpointAfterCommit :: "go_error option \<Rightarrow> unit result" where
  "checkpointAfterCommit failure =
     (case failure of None \<Rightarrow> Inr () | Some e \<Rightarrow> Inl (CommittedMaintenanceError e))"

lemma commit_fst: "fst (commit ckpt body db) = (case body db of Inl _ \<Rightarrow> db | Inr db' \<Rightarrow> db')"
  by (simp add: commit_def split: sum.splits)

lemma commit_eq_Inr: "body db = Inr db' \<Longrightarrow> commit ckpt body db = (db', ckpt)"
  by (simp add: commit_def)

lemma commit_eq_Inl: "body db = Inl e \<Longrightarrow> commit ckpt body db = (db, Inl e)"
  by (simp add: commit_def)

subsection \<open>Repository identity (\<open>repository.go\<close>)\<close>

record RepositoryIdentity =
  id_repository_id :: string
  id_layout_version :: string
  id_receipt :: string

definition validLayoutVersion :: "string \<Rightarrow> bool" where
  "validLayoutVersion layout \<longleftrightarrow>
     layout = LayoutC2V1 \<or> layout = LayoutC2ToSingleV1 \<or> layout = LayoutSinglePayloadV1"

definition null_string :: "string option \<Rightarrow> string" where
  "null_string v = (case v of None \<Rightarrow> '''' | Some s \<Rightarrow> s)"

definition repositoryIdentityOn :: "database \<Rightarrow> RepositoryIdentity result" where
  "repositoryIdentityOn db =
     (let row = db_repository db;
          identity = \<lparr>id_repository_id = rs_repository_id row, id_layout_version = rs_layout_version row,
                      id_receipt = null_string (rs_transition_receipt row)\<rparr>
      in if \<not> IsCanonicalRepositoryID (id_repository_id identity)
            \<or> \<not> validLayoutVersion (id_layout_version identity)
            \<or> id_receipt identity \<noteq> '''' \<and> \<not> validSHA256Text (id_receipt identity)
         then Inl (GoError [ErrSchema] ''invalid repository identity state'')
         else Inr identity)"

definition requireTerminalLayoutOn :: "database \<Rightarrow> unit result" where
  "requireTerminalLayoutOn db =
     and_then (repositoryIdentityOn db) (\<lambda>identity.
       ensure (id_layout_version identity = LayoutSinglePayloadV1)
         (GoError [ErrTransition] ''repository layout requires explicit migration''))"

lemma requireTerminalLayout_Inr:
  "requireTerminalLayoutOn db = Inr u \<Longrightarrow> rs_layout_version (db_repository db) = LayoutSinglePayloadV1"
  by (simp add: requireTerminalLayoutOn_def repositoryIdentityOn_def Let_def and_then_Inr_iff split: if_splits)

subsection \<open>The wall-clock witness (\<open>time_witness.go\<close>)\<close>

definition observe_time_tx :: "utc_time \<Rightarrow> database \<Rightarrow> database result" where
  "observe_time_tx observed db =
     (case parse_timestamp (db_time_witness db) of
        None \<Rightarrow> Inl (GoError [ErrSchema] ''repository time witness is invalid'')
      | Some current \<Rightarrow>
          (if time_Before observed current
           then Inl (GoError [ErrConflict] ''repository clock moved backwards'')
           else if time_Before current observed
           then Inr (db\<lparr>db_time_witness := formatTimestamp observed\<rparr>)
           else Inr db))"

definition ObserveRepositoryTime :: "unit result \<Rightarrow> utc_time \<Rightarrow> database \<Rightarrow> database \<times> unit result" where
  "ObserveRepositoryTime ckpt observed db =
     (if observed = zero_time
      then (db, Inl (GoError [ErrConflict] ''repository clock observation is zero''))
      else commit ckpt (observe_time_tx observed) db)"

lemma observe_time_tx_Inr:
  assumes "db_time_witness db = formatTimestamp w" "valid_utc w" "valid_utc t"
  shows "observe_time_tx t db =
    (if time_key w \<le> time_key t then Inr (db\<lparr>db_time_witness := formatTimestamp t\<rparr>)
     else Inl (GoError [ErrConflict] ''repository clock moved backwards''))"
proof -
  have parse: "parse_timestamp (db_time_witness db) = Some w" using assms by (simp add: parse_formatTimestamp)
  have "t = w" if "time_key t = time_key w"
    using that by (cases t; cases w) (simp add: time_key_def)
  then have same: "db\<lparr>db_time_witness := formatTimestamp t\<rparr> = db" if "time_key t = time_key w"
    using that assms(1) by (cases db) simp
  show ?thesis
    using same unfolding observe_time_tx_def parse time_Before_def
    by (auto simp: not_less not_le simp del: less_prod_simp less_eq_prod_simp)
qed

text \<open>C39. The clock witness accepts exactly the histories that never run backwards: starting from a recorded
  time, a sequence of observations is accepted entirely if and only if the times do not decrease,
  and the witness then holds the last of them. A backward observation is refused and the witness
  stays as it was.\<close>

theorem time_witness_monotone:
  assumes "db_time_witness db = formatTimestamp w" and "valid_utc w" and "list_all valid_utc ts"
  shows "for_each (\<lambda>db t. observe_time_tx t db) db ts =
    (if sorted (map time_key (w # ts))
     then Inr (db\<lparr>db_time_witness := formatTimestamp (last (w # ts))\<rparr>)
     else Inl (GoError [ErrConflict] ''repository clock moved backwards''))"
  using assms
proof (induction ts arbitrary: db w)
  case Nil
  then show ?case by (cases db) simp
next
  case (Cons t ts)
  let ?db = "db\<lparr>db_time_witness := formatTimestamp t\<rparr>"
  show ?case
  proof (cases "time_key w \<le> time_key t")
    case True
    have IH: "for_each (\<lambda>db t. observe_time_tx t db) ?db ts =
      (if sorted (map time_key (t # ts)) then Inr (?db\<lparr>db_time_witness := formatTimestamp (last (t # ts))\<rparr>)
       else Inl (GoError [ErrConflict] ''repository clock moved backwards''))"
      using Cons.prems by (intro Cons.IH) simp_all
    have sorted: "sorted (map time_key (w # t # ts)) \<longleftrightarrow> sorted (map time_key (t # ts))"
      using True by (fastforce simp del: less_eq_prod_simp)
    have "observe_time_tx t db = Inr ?db"
      using observe_time_tx_Inr[OF Cons.prems(1,2), of t] Cons.prems(3) True by simp
    then show ?thesis using IH sorted by (simp del: less_eq_prod_simp)
  next
    case False
    then have "\<not> sorted (map time_key (w # t # ts))" by (simp del: less_eq_prod_simp)
    with observe_time_tx_Inr[OF Cons.prems(1,2), of t] Cons.prems(3) False show ?thesis
      by (simp del: less_eq_prod_simp)
  qed
qed

definition example_database :: database where
  "example_database =
     \<lparr>db_repository = \<lparr>rs_repository_id = ''01234567-89ab-4cde-8f01-23456789abcd'',
        rs_layout_version = LayoutSinglePayloadV1, rs_transition_receipt = None, rs_built_generation = 1,
        rs_desired_revision = 0, rs_status = ''clean'', rs_dirty_reason = None\<rparr>,
      db_control = None, db_time_witness = formatTimestamp (zero_time\<lparr>t_year := 2026\<rparr>),
      db_operations = [], db_events = [], db_operation_packages = [], db_operation_memberships = [],
      db_operation_files = [], db_generations = [], db_generation_files = [], db_view_signers = [],
      db_dists = [], db_architectures = [], db_dist_signers = [], db_memberships = [], db_built = [],
      db_prior_built = [], db_objects = [], db_inventory = [], db_abandoned = [], db_rpm_keys = []\<rparr>"

theorem time_witness_monotone_witness:
  "for_each (\<lambda>db t. observe_time_tx t db) example_database
     [zero_time\<lparr>t_year := 2026, t_day := 2\<rparr>, zero_time\<lparr>t_year := 2026, t_day := 3\<rparr>] =
   Inr (example_database\<lparr>db_time_witness := formatTimestamp (zero_time\<lparr>t_year := 2026, t_day := 3\<rparr>)\<rparr>)"
  using time_witness_monotone[of example_database "zero_time\<lparr>t_year := 2026\<rparr>"
      "[zero_time\<lparr>t_year := 2026, t_day := 2\<rparr>, zero_time\<lparr>t_year := 2026, t_day := 3\<rparr>]"]
  by (simp add: example_database_def valid_utc_def zero_time_def days_in_def time_key_def)

end
