(* ===== verification/Operation_Log.thy ===== *)
theory Operation_Log
  imports Store
begin

section \<open>The operation log (\<open>internal/v2/state/state.go\<close>)\<close>

text \<open>
  Every repository mutation is an operation: a row with a state, and an append-only list of
  numbered events that records each state it passed through. The state graph, the
  transactions that move an operation along it and the queries over the log follow the source.
  The clock is an argument: \<open>now\<close> is the text \<open>nowText()\<close> returned.
\<close>

subsection \<open>States\<close>

definition validOperationState :: "OperationState \<Rightarrow> bool" where
  "validOperationState s \<longleftrightarrow>
     s = OperationPlanned \<or> s = OperationStaged \<or> s = OperationApplied \<or> s = OperationBuilt
     \<or> s = OperationDone \<or> s = OperationDoneDirty \<or> s = OperationRecovering
     \<or> s = OperationRolledBack \<or> s = OperationFailed"

definition isTerminal :: "OperationState \<Rightarrow> bool" where
  "isTerminal s \<longleftrightarrow>
     s = OperationDone \<or> s = OperationDoneDirty \<or> s = OperationRolledBack \<or> s = OperationFailed"

fun canTransition :: "OperationState \<Rightarrow> OperationState \<Rightarrow> bool" where
  "canTransition OperationPlanned to \<longleftrightarrow>
     to = OperationStaged \<or> to = OperationRecovering \<or> to = OperationRolledBack \<or> to = OperationFailed"
| "canTransition OperationStaged to \<longleftrightarrow>
     to = OperationApplied \<or> to = OperationRecovering \<or> to = OperationRolledBack \<or> to = OperationFailed"
| "canTransition OperationApplied to \<longleftrightarrow>
     to = OperationBuilt \<or> to = OperationDone \<or> to = OperationDoneDirty \<or> to = OperationRecovering
     \<or> to = OperationFailed"
| "canTransition OperationBuilt to \<longleftrightarrow>
     to = OperationDone \<or> to = OperationRecovering \<or> to = OperationFailed"
| "canTransition OperationRecovering to \<longleftrightarrow>
     to = OperationApplied \<or> to = OperationBuilt \<or> to = OperationDone \<or> to = OperationDoneDirty
     \<or> to = OperationRolledBack \<or> to = OperationFailed"
| "canTransition _ to \<longleftrightarrow> False"

interpretation op_machine: phase_machine canTransition isTerminal
  by unfold_locales (auto simp: isTerminal_def)

subsection \<open>Validation\<close>

text \<open>\<open>operationIDPattern\<close>: \<open>^(?:0|[1-9][0-9]*|[0-9a-f]{64})$\<close>.\<close>

definition operationIDPattern :: "string \<Rightarrow> bool" where
  "operationIDPattern s \<longleftrightarrow>
     s = ''0'' \<or> s \<noteq> [] \<and> all_digits s \<and> hd s \<noteq> CHR ''0'' \<or> length s = 64 \<and> list_all is_lower_hex s"

definition MaxOperationPayloadBytes :: int where
  "MaxOperationPayloadBytes = 16777216"

definition validateOperationPayload :: "string \<Rightarrow> unit result" where
  "validateOperationPayload payloadJSON =
     (if int (length payloadJSON) > MaxOperationPayloadBytes
      then Inl (plain_error ''operation payload exceeds the byte limit'')
      else if \<not> json_valid payloadJSON then Inl (plain_error ''operation payload is not valid JSON'')
      else Inr ())"

text \<open>The triggers of \<open>schema_v4.sql\<close>: the stored timestamps are fixed-width UTC.\<close>

definition timestamp_guard :: "string \<Rightarrow> bool" where
  "timestamp_guard s \<longleftrightarrow>
     length s = 30 \<and> s ! 4 = CHR ''-'' \<and> s ! 7 = CHR ''-'' \<and> s ! 10 = CHR ''T'' \<and> s ! 13 = CHR '':''
     \<and> s ! 16 = CHR '':'' \<and> s ! 19 = CHR ''.'' \<and> s ! 29 = CHR ''Z''"

subsection \<open>Transactions\<close>

definition find_operation :: "database \<Rightarrow> string \<Rightarrow> Operation option" where
  "find_operation db i = List.find (\<lambda>row. op_id row = i) (db_operations db)"

definition update_operation :: "string \<Rightarrow> (Operation \<Rightarrow> Operation) \<Rightarrow> database \<Rightarrow> database" where
  "update_operation i f db = db\<lparr>db_operations := map (\<lambda>row. if op_id row = i then f row else row) (db_operations db)\<rparr>"

definition events_of :: "database \<Rightarrow> string \<Rightarrow> operation_event list" where
  "events_of db i = filter (\<lambda>e. ev_operation e = i) (db_events db)"

text \<open>\<open>SELECT COALESCE(max(sequence), -1) + 1 FROM operation_events WHERE operation_id = ?\<close>.\<close>

definition next_sequence :: "database \<Rightarrow> string \<Rightarrow> nat" where
  "next_sequence db i =
     (case events_of db i of [] \<Rightarrow> 0 | e # es \<Rightarrow> Suc (fold max (map ev_sequence es) (ev_sequence e)))"

definition append_event :: "string \<Rightarrow> nat \<Rightarrow> OperationState \<Rightarrow> string \<Rightarrow> string \<Rightarrow> database \<Rightarrow> database" where
  "append_event i sequence state detail now db =
     db\<lparr>db_events := db_events db @
        [\<lparr>ev_operation = i, ev_sequence = sequence, ev_state = state, ev_detail = detail, ev_at = now\<rparr>]\<rparr>"

definition operationStateTx :: "string \<Rightarrow> database \<Rightarrow> OperationState result" where
  "operationStateTx i db =
     (case find_operation db i of
        None \<Rightarrow> Inl (GoError [ErrNotFound] ''operation'')
      | Some row \<Rightarrow> Inr (op_state row))"

definition begin_operation_tx :: "string \<Rightarrow> Operation \<Rightarrow> database \<Rightarrow> database result" where
  "begin_operation_tx now operation db =
     (if find_operation db (op_id operation) \<noteq> None then Inl (GoError [ErrExists] ''operation'')
      else if length (op_payload operation) < 1 \<or> length (op_result operation) < 2
              \<or> int (length (op_result operation)) > MaxOperationPayloadBytes \<or> \<not> timestamp_guard now
      then Inl (plain_error ''begin operation'')
      else if list_ex (\<lambda>e. ev_sequence e = 0) (events_of db (op_id operation))
      then Inl (plain_error ''record operation start'')
      else Inr (append_event (op_id operation) 0 (op_state operation) ''{}'' now
             (db\<lparr>db_operations := db_operations db @
                [operation\<lparr>op_error_class := None, op_error_message := None,
                           op_created_at := now, op_updated_at := now\<rparr>]\<rparr>)))"

definition BeginOperation :: "unit result \<Rightarrow> string \<Rightarrow> Operation \<Rightarrow> database \<Rightarrow> database \<times> unit result" where
  "BeginOperation ckpt now operation db =
     (case and_then (requireTerminalLayoutOn db) (\<lambda>_.
           and_then (ensure (operationIDPattern (op_id operation) \<and> op_kind operation \<noteq> ''''
                       \<and> validOperationState (op_state operation) \<and> \<not> isTerminal (op_state operation))
                     (plain_error ''invalid operation'')) (\<lambda>_.
           and_then (validateOperationPayload (op_payload operation)) (\<lambda>_.
           let operation = (if op_result operation = '''' then operation\<lparr>op_result := ''{}''\<rparr> else operation)
           in and_then (validateOperationPayload (op_result operation)) (\<lambda>_. Inr operation)))) of
        Inl e \<Rightarrow> (db, Inl e)
      | Inr operation \<Rightarrow> commit ckpt (begin_operation_tx now operation) db)"

definition optional_text :: "string \<Rightarrow> string option" where
  "optional_text s = (if s = '''' then None else Some s)"

definition setOperationStateTx ::
  "string \<Rightarrow> string \<Rightarrow> OperationState \<Rightarrow> string \<Rightarrow> string \<Rightarrow> database \<Rightarrow> database result" where
  "setOperationStateTx now i next errorClass errorMessage db =
     and_then (operationStateTx i db) (\<lambda>from.
       if from = next then Inr db
       else if \<not> canTransition from next then Inl (GoError [ErrTransition] ''operation transition'')
       else if \<not> timestamp_guard now then Inl (plain_error ''update operation'')
       else let db' = update_operation i (\<lambda>row. row\<lparr>op_state := next, op_error_class := optional_text errorClass,
                        op_error_message := optional_text errorMessage, op_updated_at := now\<rparr>) db
            in Inr (append_event i (next_sequence db' i) next ''{}'' now db'))"

definition SetOperationState ::
  "unit result \<Rightarrow> string \<Rightarrow> string \<Rightarrow> OperationState \<Rightarrow> string \<Rightarrow> database \<Rightarrow> database \<times> unit result" where
  "SetOperationState ckpt now i next errorClass db = commit ckpt (setOperationStateTx now i next errorClass '''') db"

definition applied_states :: "OperationState list" where
  "applied_states = [OperationApplied, OperationBuilt, OperationDone, OperationDoneDirty]"

definition fail_operation_tx ::
  "string \<Rightarrow> string \<Rightarrow> string \<Rightarrow> string \<Rightarrow> string \<Rightarrow> database \<Rightarrow> database result" where
  "fail_operation_tx now i errorClass errorMessage resultJSON db =
     (if list_ex (\<lambda>e. ev_state e \<in> set applied_states) (events_of db i)
      then Inl (GoError [ErrTransition] ''operation already applied; cannot discard its result'')
      else if find_operation db i \<noteq> None \<and> length resultJSON < 2
      then Inl (plain_error ''record operation failure result'')
      else let db1 = update_operation i (\<lambda>row. row\<lparr>op_result := resultJSON\<rparr>) db;
               db2 = db1\<lparr>db_operation_packages := map (\<lambda>p.
                   if pk_operation p = i \<and> pk_disposition p \<in> {''accepted'', ''reused'', ''removed''}
                   then p\<lparr>pk_disposition := ''failed'', pk_error_class := Some errorClass, pk_message := Some errorMessage\<rparr>
                   else p) (db_operation_packages db1)\<rparr>
           in setOperationStateTx now i OperationFailed errorClass errorMessage db2)"

definition FailOperation ::
  "unit result \<Rightarrow> string \<Rightarrow> string \<Rightarrow> string \<Rightarrow> string \<Rightarrow> string \<Rightarrow> database \<Rightarrow> database \<times> unit result" where
  "FailOperation ckpt now i errorClass errorMessage resultJSON db =
     (if errorClass = '''' \<or> errorMessage = ''''
      then (db, Inl (plain_error ''operation failure requires class and message''))
      else case validateOperationPayload resultJSON of
             Inl e \<Rightarrow> (db, Inl e)
           | Inr _ \<Rightarrow> commit ckpt (fail_operation_tx now i errorClass errorMessage resultJSON) db)"

definition update_result_tx :: "string \<Rightarrow> string \<Rightarrow> string \<Rightarrow> database \<Rightarrow> database result" where
  "update_result_tx now i resultJSON db =
     (if find_operation db i = None then Inl (GoError [ErrNotFound] ''operation'')
      else if length resultJSON < 2 \<or> \<not> timestamp_guard now then Inl (plain_error ''update operation result'')
      else Inr (update_operation i (\<lambda>row. row\<lparr>op_result := resultJSON, op_updated_at := now\<rparr>) db))"

definition UpdateOperationResult ::
  "unit result \<Rightarrow> string \<Rightarrow> string \<Rightarrow> string \<Rightarrow> database \<Rightarrow> database \<times> unit result" where
  "UpdateOperationResult ckpt now i resultJSON db =
     (case validateOperationPayload resultJSON of
        Inl e \<Rightarrow> (db, Inl e)
      | Inr _ \<Rightarrow> commit ckpt (update_result_tx now i resultJSON) db)"

definition record_progress_tx :: "string \<Rightarrow> string \<Rightarrow> string \<Rightarrow> database \<Rightarrow> database result" where
  "record_progress_tx now i detailJSON db =
     and_then (operationStateTx i db) (\<lambda>current.
       if \<not> validOperationState current \<or> isTerminal current
       then Inl (GoError [ErrTransition] ''cannot record progress in state'')
       else if \<not> timestamp_guard now then Inl (plain_error ''update operation progress time'')
       else Inr (update_operation i (\<lambda>row. row\<lparr>op_updated_at := now\<rparr>)
              (append_event i (next_sequence db i) current detailJSON now db)))"

text \<open>Recording progress does not checkpoint.\<close>

definition RecordOperationProgress :: "string \<Rightarrow> string \<Rightarrow> string \<Rightarrow> database \<Rightarrow> database \<times> unit result" where
  "RecordOperationProgress now i detailJSON db =
     (case and_then (validateOperationPayload detailJSON) (\<lambda>_.
           ensure (json_is_object detailJSON) (plain_error ''operation progress must be a JSON object'')) of
        Inl e \<Rightarrow> (db, Inl e)
      | Inr _ \<Rightarrow> commit (Inr ()) (record_progress_tx now i detailJSON) db)"

definition update_payload_tx :: "string \<Rightarrow> string \<Rightarrow> string \<Rightarrow> database \<Rightarrow> database result" where
  "update_payload_tx now i payloadJSON db =
     and_then (operationStateTx i db) (\<lambda>current.
       if current \<noteq> OperationPlanned \<and> current \<noteq> OperationStaged \<and> current \<noteq> OperationApplied
       then Inl (GoError [ErrTransition] ''cannot update payload in state'')
       else if length payloadJSON < 1 \<or> \<not> timestamp_guard now then Inl (plain_error ''update operation payload'')
       else Inr (update_operation i (\<lambda>row. row\<lparr>op_payload := payloadJSON, op_updated_at := now\<rparr>) db))"

definition UpdateOperationPayload ::
  "unit result \<Rightarrow> string \<Rightarrow> string \<Rightarrow> string \<Rightarrow> database \<Rightarrow> database \<times> unit result" where
  "UpdateOperationPayload ckpt now i payloadJSON db =
     (case validateOperationPayload payloadJSON of
        Inl e \<Rightarrow> (db, Inl e)
      | Inr _ \<Rightarrow> commit ckpt (update_payload_tx now i payloadJSON) db)"

subsection \<open>Queries\<close>

abbreviation operation_key :: "Operation \<Rightarrow> string \<times> string" where
  "operation_key row \<equiv> (op_created_at row, op_id row)"

definition PendingOperations :: "database \<Rightarrow> Operation list" where
  "PendingOperations db = sort_key operation_key (filter (\<lambda>row. \<not> isTerminal (op_state row)) (db_operations db))"

text \<open>\<open>ORDER BY created_at DESC, id DESC LIMIT 1\<close>.\<close>

definition latest :: "Operation list \<Rightarrow> Operation option" where
  "latest rows = (case rev (sort_key operation_key rows) of [] \<Rightarrow> None | row # _ \<Rightarrow> Some row)"

definition LastOperation :: "database \<Rightarrow> Operation option" where
  "LastOperation db = latest (db_operations db)"

definition LastTerminalOperation :: "database \<Rightarrow> Operation option" where
  "LastTerminalOperation db = latest (filter (\<lambda>row. isTerminal (op_state row)) (db_operations db))"

subsection \<open>The invariant of the log\<close>

text \<open>
  Operation identities are unique, every event belongs to an operation, and the events of an
  operation are numbered 0, 1, 2, \<dots> in the order they were appended, start in a state an
  operation may start in, follow the state graph, and end in the state of the row.
\<close>

definition history :: "database \<Rightarrow> string \<Rightarrow> OperationState list" where
  "history db i = map ev_state (events_of db i)"

definition history_ok :: "database \<Rightarrow> Operation \<Rightarrow> bool" where
  "history_ok db row \<longleftrightarrow>
     history db (op_id row) \<noteq> [] \<and> last (history db (op_id row)) = op_state row
     \<and> map ev_sequence (events_of db (op_id row)) = [0..<length (events_of db (op_id row))]
     \<and> op_machine.legal (history db (op_id row))
     \<and> list_all validOperationState (history db (op_id row)) \<and> \<not> isTerminal (hd (history db (op_id row)))"

definition log_wf :: "database \<Rightarrow> bool" where
  "log_wf db \<longleftrightarrow>
     distinct (map op_id (db_operations db))
     \<and> (\<forall>e \<in> set (db_events db). ev_operation e \<in> op_id ` set (db_operations db))
     \<and> (\<forall>row \<in> set (db_operations db). history_ok db row)"

lemma find_operation_Some:
  "find_operation db i = Some row \<Longrightarrow> row \<in> set (db_operations db) \<and> op_id row = i"
  by (auto simp: find_operation_def find_Some_iff)

lemma find_operation_None: "find_operation db i = None \<longleftrightarrow> i \<notin> op_id ` set (db_operations db)"
  by (auto simp: find_operation_def find_None_iff)

lemma find_operation_distinct:
  assumes "distinct (map op_id (db_operations db))" "row \<in> set (db_operations db)"
  shows "find_operation db (op_id row) = Some row"
proof (cases "find_operation db (op_id row)")
  case None
  with assms(2) show ?thesis by (auto simp: find_operation_None)
next
  case (Some r)
  from find_operation_Some[OF this] assms have "r = row" by (metis distinct_map inj_on_eq_iff)
  with Some show ?thesis by simp
qed

lemma events_of_update [simp]: "events_of (update_operation i f db) j = events_of db j"
  by (simp add: events_of_def update_operation_def)

lemma events_of_append [simp]:
  "events_of (append_event i n s d now db) j =
     (if j = i then events_of db i @ [\<lparr>ev_operation = i, ev_sequence = n, ev_state = s, ev_detail = d, ev_at = now\<rparr>]
      else events_of db j)"
  by (auto simp: events_of_def append_event_def)

lemma next_sequence_update [simp]: "next_sequence (update_operation i f db) j = next_sequence db j"
  by (simp add: next_sequence_def)

lemma db_operations_append [simp]: "db_operations (append_event i n s d now db) = db_operations db"
  by (simp add: append_event_def)

lemma db_events_update [simp]: "db_events (update_operation i f db) = db_events db"
  by (simp add: update_operation_def)

lemma append_update_commute:
  "update_operation i f (append_event j n s d now db) = append_event j n s d now (update_operation i f db)"
  by (simp add: update_operation_def append_event_def)

lemma fold_max_upt: "fold max [1..<Suc n] 0 = n" for n :: nat
  by (induction n) (simp_all add: max_def)

lemma next_sequence_wf:
  assumes "map ev_sequence (events_of db i) = [0..<length (events_of db i)]"
  shows "next_sequence db i = length (events_of db i)"
proof (cases "events_of db i")
  case (Cons e es)
  with assms have e: "ev_sequence e = 0" and es: "map ev_sequence es = [1..<Suc (length es)]"
    by (simp_all add: upt_conv_Cons del: upt_Suc)
  have "fold max (map ev_sequence es) 0 = length es"
    unfolding es by (rule fold_max_upt)
  with Cons e show ?thesis by (simp add: next_sequence_def)
qed (simp add: next_sequence_def)

lemma update_operation_ids:
  assumes "\<And>row. op_id (f row) = op_id row"
  shows "map op_id (db_operations (update_operation i f db)) = map op_id (db_operations db)"
  using assms by (simp add: update_operation_def comp_def if_distrib[of op_id] cong: if_cong)

text \<open>Rewriting a row without touching its identity or state keeps the invariant.\<close>

lemma log_wf_update:
  assumes "log_wf db" "\<And>row. op_id (f row) = op_id row" "\<And>row. op_state (f row) = op_state row"
  shows "log_wf (update_operation i f db)"
proof -
  have ids: "map op_id (db_operations (update_operation i f db)) = map op_id (db_operations db)"
    by (rule update_operation_ids) (rule assms(2))
  have "history_ok (update_operation i f db) (if op_id row = i then f row else row)" if "history_ok db row" for row
    using that assms(2,3) by (cases "op_id row = i") (auto simp: history_ok_def history_def)
  moreover have "\<forall>row \<in> set (db_operations db). history_ok db row" using assms(1) by (simp add: log_wf_def)
  moreover have "db_operations (update_operation i f db) =
      map (\<lambda>row. if op_id row = i then f row else row) (db_operations db)" by (simp add: update_operation_def)
  ultimately have "\<forall>row \<in> set (db_operations (update_operation i f db)). history_ok (update_operation i f db) row"
    by (metis (no_types, lifting) imageE image_set)
  moreover have "op_id ` set (db_operations (update_operation i f db)) = op_id ` set (db_operations db)"
    using arg_cong[OF ids, of set] by simp
  ultimately show ?thesis using assms(1) ids by (simp add: log_wf_def)
qed

text \<open>Appending an event for a permitted state, with the row moved to that state, keeps it too.\<close>

lemma history_ok_append:
  assumes "history_ok db row" "s = op_state row \<or> canTransition (op_state row) s" "validOperationState s"
    and "\<And>row. op_id (f row) = op_id row" "op_state (f row) = s"
  shows "history_ok (append_event (op_id row) (next_sequence db (op_id row)) s d now (update_operation (op_id row) f db)) (f row)"
proof -
  note h = assms(1)[unfolded history_ok_def history_def]
  have "op_machine.legal (map ev_state (events_of db (op_id row)) @ [s])"
    using h assms(2) by (auto simp: op_machine.legal_snoc)
  with h assms(3-5) show ?thesis
    by (auto simp: history_ok_def history_def next_sequence_wf hd_append)
qed

lemma log_wf_append:
  assumes "log_wf db" "find_operation db i = Some row"
    and "s = op_state row \<or> canTransition (op_state row) s" "validOperationState s"
    and f: "\<And>row. op_id (f row) = op_id row" "op_state (f row) = s"
  shows "log_wf (append_event i (next_sequence db i) s d now (update_operation i f db))" (is "log_wf ?db")
proof -
  have row: "row \<in> set (db_operations db)" "op_id row = i" using find_operation_Some[OF assms(2)] by auto
  have uniq: "r = row" if "r \<in> set (db_operations db)" "op_id r = i" for r
    using assms(1) row that by (metis log_wf_def distinct_map inj_on_eq_iff)
  have ops: "db_operations ?db = map (\<lambda>r. if op_id r = i then f r else r) (db_operations db)"
    by (simp add: update_operation_def)
  have ids: "map op_id (db_operations ?db) = map op_id (db_operations db)"
    using update_operation_ids[of f i db, OF f(1)] by simp
  have idset: "op_id ` set (db_operations ?db) = op_id ` set (db_operations db)"
    using arg_cong[OF ids, of set] by simp
  have "history_ok ?db r" if "r \<in> set (db_operations ?db)" for r
  proof -
    from that ops obtain r0 where r0: "r0 \<in> set (db_operations db)" "r = (if op_id r0 = i then f r0 else r0)" by auto
    have h0: "history_ok db r0" using assms(1) r0(1) by (simp add: log_wf_def)
    show ?thesis
    proof (cases "op_id r0 = i")
      case True
      with uniq[OF r0(1)] have "r0 = row" by simp
      with history_ok_append[OF h0[unfolded this] assms(3,4) f] row(2) r0(2) True show ?thesis by simp
    next
      case False
      with h0 r0(2) show ?thesis by (simp add: history_ok_def history_def)
    qed
  qed
  moreover have "ev_operation e \<in> op_id ` set (db_operations ?db)" if "e \<in> set (db_events ?db)" for e
    using that assms(1) row unfolding idset by (auto simp: append_event_def log_wf_def)
  ultimately show ?thesis using assms(1) ids by (simp add: log_wf_def)
qed

lemma setOperationStateTx_Inr:
  assumes "setOperationStateTx now i next ec em db = Inr db'"
  obtains (same) row where "find_operation db i = Some row" "op_state row = next" "db' = db"
  | (moved) row where "find_operation db i = Some row" "op_state row \<noteq> next" "canTransition (op_state row) next"
      "db' = append_event i (next_sequence db i) next ''{}'' now
         (update_operation i (\<lambda>row. row\<lparr>op_state := next, op_error_class := optional_text ec,
            op_error_message := optional_text em, op_updated_at := now\<rparr>) db)"
proof -
  from assms obtain row where row: "find_operation db i = Some row"
    by (cases "find_operation db i") (simp_all add: setOperationStateTx_def operationStateTx_def)
  with assms same moved show thesis
    by (simp add: setOperationStateTx_def operationStateTx_def Let_def split: if_splits)
qed

lemma canTransition_valid: "canTransition s t \<Longrightarrow> validOperationState t"
  by (cases s) (auto simp: validOperationState_def)

lemma setOperationStateTx_wf:
  assumes "log_wf db" "setOperationStateTx now i next ec em db = Inr db'"
  shows "log_wf db'"
  using assms(2)
proof (cases rule: setOperationStateTx_Inr)
  case (moved row)
  show ?thesis unfolding moved(4)
    by (rule log_wf_append[OF assms(1) moved(1)]) (use moved(3) canTransition_valid in auto)
qed (use assms(1) in simp)

lemma begin_operation_tx_wf:
  assumes "log_wf db" "begin_operation_tx now operation db = Inr db'"
    and "validOperationState (op_state operation)" "\<not> isTerminal (op_state operation)"
  shows "log_wf db'"
proof -
  let ?row = "operation\<lparr>op_error_class := None, op_error_message := None, op_created_at := now, op_updated_at := now\<rparr>"
  have fresh: "op_id operation \<notin> op_id ` set (db_operations db)"
    and db': "db' = append_event (op_id operation) 0 (op_state operation) ''{}'' now
      (db\<lparr>db_operations := db_operations db @ [?row]\<rparr>)"
    using assms(2) by (auto simp: begin_operation_tx_def find_operation_None[symmetric] split: if_splits)
  have none: "events_of db (op_id operation) = []"
    using assms(1) fresh unfolding events_of_def filter_empty_conv log_wf_def by metis
  have other: "op_id r \<noteq> op_id operation" if "r \<in> set (db_operations db)" for r
    using fresh that by (metis imageI)
  have ev: "events_of db' j = (if j = op_id operation then
      [\<lparr>ev_operation = op_id operation, ev_sequence = 0, ev_state = op_state operation, ev_detail = ''{}'', ev_at = now\<rparr>]
      else events_of db j)" for j
    using none by (auto simp: db' events_of_def append_event_def)
  have "history_ok db' ?row" using assms(3,4) by (simp add: history_ok_def history_def ev)
  moreover have "history_ok db' r" if "r \<in> set (db_operations db)" for r
    using assms(1) other[OF that] that by (simp add: log_wf_def history_ok_def history_def ev)
  ultimately show ?thesis
    using assms(1) fresh by (auto simp: log_wf_def db' append_event_def)
qed

lemma fail_operation_tx_wf:
  assumes "log_wf db" "fail_operation_tx now i ec em r db = Inr db'"
  shows "log_wf db'"
proof -
  let ?db1 = "update_operation i (\<lambda>row. row\<lparr>op_result := r\<rparr>) db"
  obtain pks where set: "setOperationStateTx now i OperationFailed ec em (?db1\<lparr>db_operation_packages := pks\<rparr>) = Inr db'"
    using assms(2) by (auto simp: fail_operation_tx_def Let_def split: if_splits)
  have "log_wf ?db1" using assms(1) by (rule log_wf_update) simp_all
  then have "log_wf (?db1\<lparr>db_operation_packages := pks\<rparr>)"
    by (simp add: log_wf_def history_ok_def history_def events_of_def)
  from setOperationStateTx_wf[OF this set] show ?thesis .
qed

lemma update_result_tx_wf: "log_wf db \<Longrightarrow> update_result_tx now i r db = Inr db' \<Longrightarrow> log_wf db'"
  by (auto simp: update_result_tx_def intro!: log_wf_update split: if_splits)

lemma update_payload_tx_wf: "log_wf db \<Longrightarrow> update_payload_tx now i p db = Inr db' \<Longrightarrow> log_wf db'"
  by (auto simp: update_payload_tx_def and_then_Inr_iff intro!: log_wf_update split: if_splits)

lemma record_progress_tx_wf:
  assumes "log_wf db" "record_progress_tx now i d db = Inr db'"
  shows "log_wf db'"
proof -
  obtain row where row: "find_operation db i = Some row"
    using assms(2) by (cases "find_operation db i") (simp_all add: record_progress_tx_def operationStateTx_def)
  then have valid: "validOperationState (op_state row)"
    and db': "db' = append_event i (next_sequence db i) (op_state row) d now
      (update_operation i (\<lambda>row. row\<lparr>op_updated_at := now\<rparr>) db)"
    using assms(2)
    by (auto simp: record_progress_tx_def operationStateTx_def append_update_commute split: if_splits)
  show ?thesis unfolding db'
    by (rule log_wf_append[OF assms(1) row]) (simp_all add: valid)
qed

subsection \<open>Histories of the log\<close>

text \<open>One call of any operation of the log, whatever its arguments, the clock and the checkpoint are.\<close>

inductive log_step :: "database \<Rightarrow> database \<Rightarrow> bool" where
  begin_op: "log_step db (fst (BeginOperation ckpt now operation db))"
| set_state: "log_step db (fst (SetOperationState ckpt now i next ec db))"
| fail_op: "log_step db (fst (FailOperation ckpt now i ec em r db))"
| update_result: "log_step db (fst (UpdateOperationResult ckpt now i r db))"
| progress: "log_step db (fst (RecordOperationProgress now i d db))"
| update_payload: "log_step db (fst (UpdateOperationPayload ckpt now i p db))"

inductive log_reachable :: "database \<Rightarrow> database \<Rightarrow> bool" for db0 where
  start: "log_reachable db0 db0"
| step: "log_reachable db0 db \<Longrightarrow> log_step db db' \<Longrightarrow> log_reachable db0 db'"

inductive_cases log_stepE: "log_step db db'"

lemma commit_wf:
  assumes "log_wf db" "\<And>db'. body db = Inr db' \<Longrightarrow> log_wf db'"
  shows "log_wf (fst (commit ckpt body db))"
  using assms by (simp add: commit_fst split: sum.splits)

lemma log_step_wf:
  assumes "log_wf db" "log_step db db'"
  shows "log_wf db'"
  using assms(2)
proof (cases rule: log_step.cases)
  case (begin_op ckpt now operation)
  show ?thesis
    unfolding begin_op BeginOperation_def
    using assms(1) begin_operation_tx_wf[OF assms(1)]
    by (auto simp: Let_def and_then_Inr_iff split: sum.splits if_splits intro!: commit_wf)
next
  case (set_state ckpt now i target ec)
  show ?thesis unfolding set_state SetOperationState_def
    using setOperationStateTx_wf[OF assms(1)] by (rule commit_wf[OF assms(1)])
next
  case (fail_op ckpt now i ec em r)
  show ?thesis unfolding fail_op FailOperation_def
    using assms(1) commit_wf[OF assms(1)] fail_operation_tx_wf[OF assms(1)] by (simp split: sum.splits)
next
  case (update_result ckpt now i r)
  show ?thesis unfolding update_result UpdateOperationResult_def
    using assms(1) commit_wf[OF assms(1)] update_result_tx_wf[OF assms(1)] by (simp split: sum.splits)
next
  case (progress now i d)
  show ?thesis unfolding progress RecordOperationProgress_def
    using assms(1) commit_wf[OF assms(1)] record_progress_tx_wf[OF assms(1)] by (simp split: sum.splits)
next
  case (update_payload ckpt now i p)
  show ?thesis unfolding update_payload UpdateOperationPayload_def
    using assms(1) commit_wf[OF assms(1)] update_payload_tx_wf[OF assms(1)] by (simp split: sum.splits)
qed

lemma log_reachable_wf: "log_reachable db0 db \<Longrightarrow> log_wf db0 \<Longrightarrow> log_wf db"
  by (induction rule: log_reachable.induct) (simp_all add: log_step_wf)

text \<open>What a step can do to one operation: its state history only ever grows, by permitted states.\<close>

definition state_of :: "database \<Rightarrow> string \<Rightarrow> OperationState option" where
  "state_of db i = map_option op_state (find_operation db i)"

definition frozen :: "string \<Rightarrow> database \<Rightarrow> database \<Rightarrow> bool" where
  "frozen i db db' \<longleftrightarrow> state_of db' i = state_of db i \<and> history db' i = history db i"

lemma frozen_refl [simp]: "frozen i db db" by (simp add: frozen_def)

lemma find_map_update:
  assumes "\<And>row. op_id (f row) = op_id row"
  shows "find_operation (update_operation j f db) i =
    map_option (\<lambda>row. if i = j then f row else row) (find_operation db i)"
proof -
  have "List.find (\<lambda>row. op_id row = i) (map (\<lambda>row. if op_id row = j then f row else row) rows) =
      map_option (\<lambda>row. if i = j then f row else row) (List.find (\<lambda>row. op_id row = i) rows)" for rows
    using assms by (induction rows) auto
  then show ?thesis by (simp add: find_operation_def update_operation_def)
qed

lemma state_of_update:
  assumes "\<And>row. op_id (f row) = op_id row" "\<And>row. op_state (f row) = op_state row"
  shows "state_of (update_operation j f db) i = state_of db i"
  using assms by (simp add: state_of_def find_map_update option.map_comp comp_def if_distrib[of op_state] cong: if_cong)

lemma frozen_update:
  "(\<And>row. op_id (f row) = op_id row) \<Longrightarrow> (\<And>row. op_state (f row) = op_state row) \<Longrightarrow> frozen i db (update_operation j f db)"
  by (simp add: frozen_def state_of_update history_def)

lemma find_operation_append [simp]: "find_operation (append_event j n s d now db) i = find_operation db i"
  by (simp add: find_operation_def)

lemma setOperationStateTx_frozen:
  assumes "setOperationStateTx now j target ec em db = Inr db'" "state_of db i = Some s" "isTerminal s"
  shows "frozen i db db'"
  using assms(1)
proof (cases rule: setOperationStateTx_Inr)
  case (moved row)
  have "i \<noteq> j"
  proof
    assume "i = j"
    with moved(1) assms(2) have "op_state row = s" by (simp add: state_of_def)
    with moved(3) assms(3) op_machine.terminal_stuck show False by blast
  qed
  then show ?thesis
    unfolding moved(4) by (simp add: frozen_def state_of_def history_def find_map_update option.map_comp comp_def)
qed simp

lemma begin_operation_tx_frozen:
  assumes "begin_operation_tx now operation db = Inr db'" "state_of db i = Some s"
  shows "frozen i db db'"
proof -
  have found: "find_operation db i \<noteq> None" using assms(2) by (auto simp: state_of_def)
  have fresh: "find_operation db (op_id operation) = None"
    using assms(1) by (simp add: begin_operation_tx_def split: if_splits)
  have ne: "i \<noteq> op_id operation" using found fresh by blast
  have keep: "List.find P (xs @ [r]) = List.find P xs" if "List.find P xs \<noteq> None" for P :: "Operation \<Rightarrow> bool" and xs r
    using that by (induction xs) auto
  show ?thesis
    using assms(1) ne found keep
    by (auto simp: begin_operation_tx_def frozen_def state_of_def history_def find_operation_def events_of_def append_event_def
        split: if_splits)
qed

lemma record_progress_tx_frozen:
  assumes "record_progress_tx now j d db = Inr db'" "state_of db i = Some s" "isTerminal s"
  shows "frozen i db db'"
proof -
  obtain row where row: "find_operation db j = Some row" "\<not> isTerminal (op_state row)"
    and db': "db' = append_event j (next_sequence db j) (op_state row) d now
      (update_operation j (\<lambda>row. row\<lparr>op_updated_at := now\<rparr>) db)"
    using assms(1)
    by (cases "find_operation db j")
      (auto simp: record_progress_tx_def operationStateTx_def append_update_commute split: if_splits)
  with assms(2,3) have "i \<noteq> j" by (auto simp: state_of_def)
  then show ?thesis
    unfolding db' by (simp add: frozen_def state_of_def history_def find_map_update option.map_comp comp_def)
qed

lemma fail_operation_tx_frozen:
  assumes "fail_operation_tx now j ec em r db = Inr db'" "state_of db i = Some s" "isTerminal s"
  shows "frozen i db db'"
proof -
  let ?db1 = "update_operation j (\<lambda>row. row\<lparr>op_result := r\<rparr>) db"
  obtain pks where set: "setOperationStateTx now j OperationFailed ec em (?db1\<lparr>db_operation_packages := pks\<rparr>) = Inr db'"
    using assms(1) by (auto simp: fail_operation_tx_def Let_def split: if_splits)
  have same: "frozen i db (?db1\<lparr>db_operation_packages := pks\<rparr>)"
    using frozen_update[of "\<lambda>row. row\<lparr>op_result := r\<rparr>" i db j]
    by (simp add: frozen_def state_of_def find_operation_def history_def events_of_def)
  then have "state_of (?db1\<lparr>db_operation_packages := pks\<rparr>) i = Some s" using assms(2) by (simp add: frozen_def)
  from setOperationStateTx_frozen[OF set this assms(3)] same show ?thesis by (simp add: frozen_def)
qed

lemma commit_frozen:
  assumes "\<And>db'. body db = Inr db' \<Longrightarrow> frozen i db db'"
  shows "frozen i db (fst (commit ckpt body db))"
  using assms by (simp add: commit_fst split: sum.splits)

lemma log_step_frozen:
  assumes "log_step db db'" "state_of db i = Some s" "isTerminal s"
  shows "frozen i db db'"
  using assms(1)
proof (cases rule: log_step.cases)
  case (begin_op ckpt now operation)
  show ?thesis unfolding begin_op BeginOperation_def
    using begin_operation_tx_frozen assms(2) by (auto split: sum.splits intro!: commit_frozen)
next
  case (set_state ckpt now j target ec)
  show ?thesis unfolding set_state SetOperationState_def
    using setOperationStateTx_frozen assms(2,3) by (blast intro: commit_frozen)
next
  case (fail_op ckpt now j ec em r)
  show ?thesis unfolding fail_op FailOperation_def
    using fail_operation_tx_frozen assms(2,3) by (auto split: sum.splits intro!: commit_frozen)
next
  case (update_result ckpt now j r)
  show ?thesis unfolding update_result UpdateOperationResult_def
    by (auto simp: update_result_tx_def split: sum.splits if_splits intro!: commit_frozen frozen_update)
next
  case (progress now j d)
  show ?thesis unfolding progress RecordOperationProgress_def
    using record_progress_tx_frozen assms(2,3) by (auto split: sum.splits intro!: commit_frozen)
next
  case (update_payload ckpt now j p)
  show ?thesis unfolding update_payload UpdateOperationPayload_def
    by (auto simp: update_payload_tx_def and_then_Inr_iff split: sum.splits if_splits intro!: commit_frozen frozen_update)
qed

lemma log_reachable_frozen:
  assumes "log_reachable db db'" "state_of db i = Some s" "isTerminal s"
  shows "frozen i db db'"
  using assms(1)
proof (induction rule: log_reachable.induct)
  case (step db1 db2)
  then have "state_of db1 i = Some s" using assms(2) by (simp add: frozen_def)
  from log_step_frozen[OF step(2) this assms(3)] step(3) show ?case by (simp add: frozen_def)
qed simp

subsection \<open>What the log guarantees\<close>

definition example_now :: string where
  "example_now = ''2026-01-01T00:00:00.000000000Z''"

definition example_operation :: Operation where
  "example_operation =
     \<lparr>op_id = ''1'', op_kind = ''add'', op_state = OperationPlanned, op_payload = ''{}'', op_result = '''',
      op_error_class = None, op_error_message = None, op_created_at = '''', op_updated_at = ''''\<rparr>"

definition example_started :: database where
  "example_started = fst (BeginOperation (Inr ()) example_now example_operation example_database)"

definition example_failed :: database where
  "example_failed =
     fst (FailOperation (Inr ()) example_now ''1'' ''input'' ''rejected'' ''{}'' example_started)"

lemma example_wf: "log_wf example_database"
  by (simp add: log_wf_def example_database_def)

lemma example_reachable: "log_reachable example_database example_failed"
  unfolding example_failed_def example_started_def
  by (rule log_reachable.step[OF log_reachable.step[OF log_reachable.start log_step.begin_op] log_step.fail_op])

text \<open>C36. The log invariant is inductive: whatever operations are called, with whatever arguments, from a
  well-formed log, identities stay unique and the events of each operation stay densely numbered,
  follow the state graph from a permitted start, and end in the state of its row.\<close>

theorem operation_log_invariant:
  assumes "log_reachable db0 db" and "log_wf db0"
  shows "log_wf db"
  using assms by (rule log_reachable_wf)

theorem operation_log_invariant_witness: "log_wf example_failed"
  by (rule operation_log_invariant[OF example_reachable example_wf])

text \<open>C37. Terminal states are final: once an operation is done, rolled back or failed, no later sequence of
  calls changes its state or adds an event to its history.\<close>

theorem terminal_operation_final:
  assumes "log_reachable db db'" and "state_of db i = Some s" and "isTerminal s"
  shows "state_of db' i = Some s \<and> history db' i = history db i"
  using log_reachable_frozen[OF assms] assms(2) by (simp add: frozen_def)

lemma example_failed_state: "state_of example_failed ''1'' = Some OperationFailed"
  "history example_failed ''1'' = [OperationPlanned, OperationFailed]"
  by code_simp+

theorem terminal_operation_final_witness:
  "state_of (fst (SetOperationState (Inr ()) example_now ''1'' OperationDone '''' example_failed)) ''1'' = Some OperationFailed
   \<and> history (fst (SetOperationState (Inr ()) example_now ''1'' OperationDone '''' example_failed)) ''1''
       = [OperationPlanned, OperationFailed]"
proof -
  have "log_reachable example_failed (fst (SetOperationState (Inr ()) example_now ''1'' OperationDone '''' example_failed))"
    by (intro log_reachable.step[OF log_reachable.start] log_step.set_state)
  from terminal_operation_final[OF this example_failed_state(1)] example_failed_state(2) show ?thesis
    by (simp add: isTerminal_def)
qed









text \<open>Pending operations are exactly the rows that are not in a terminal state, each once, oldest first;
  the last operation is the newest row, and there is none exactly when the log is empty.\<close>

theorem pending_operations_exact:
  "mset (PendingOperations db) = filter_mset (\<lambda>row. \<not> isTerminal (op_state row)) (mset (db_operations db))
   \<and> sorted (map operation_key (PendingOperations db))
   \<and> (case LastOperation db of
        None \<Rightarrow> db_operations db = []
      | Some row \<Rightarrow> row \<in> set (db_operations db)
          \<and> list_all (\<lambda>r. operation_key r \<le> operation_key row) (db_operations db))"
proof (intro conjI)
  show "case LastOperation db of
        None \<Rightarrow> db_operations db = []
      | Some row \<Rightarrow> row \<in> set (db_operations db)
          \<and> list_all (\<lambda>r. operation_key r \<le> operation_key row) (db_operations db)"
  proof (cases "rev (sort_key operation_key (db_operations db))")
    case Nil
    then have "length (rev (sort_key operation_key (db_operations db))) = 0" by simp
    then have "db_operations db = []" by (simp only: length_rev length_sort length_0_conv)
    then show ?thesis by (simp add: LastOperation_def latest_def)
  next
    case (Cons row xs)
    then have eq: "sort_key operation_key (db_operations db) = rev xs @ [row]" by (metis rev_eq_Cons_iff)
    have "sorted (map operation_key (rev xs @ [row]))"
      using sorted_sort_key[of operation_key "db_operations db"] eq by simp
    then have max: "\<forall>r \<in> set (rev xs @ [row]). operation_key r \<le> operation_key row"
      by (auto simp: sorted_append)
    have set: "set (db_operations db) = set (rev xs @ [row])" using eq by (metis set_sort)
    have last: "LastOperation db = Some row" by (simp add: LastOperation_def latest_def Cons)
    have "list_all (\<lambda>r. operation_key r \<le> operation_key row) (db_operations db)"
      using max unfolding list_all_iff set by blast
    then show ?thesis unfolding last option.case using set by simp
  qed
qed (simp_all add: PendingOperations_def)

end
