(* ===== verification/Json_Object.thy ===== *)
theory Json_Object
  imports Operation_Log
begin

section \<open>Re-encoding a JSON object (\<open>normalizeEffectiveSigningJSON\<close> of \<open>state.go\<close>)\<close>

text \<open>
  Decoding a document into \<open>map[string]json.RawMessage\<close> and encoding it again: member names are
  unquoted, the last member of a name stays, names come out sorted and quoted, and each raw value
  is compacted the way \<open>encoding/json\<close> compacts raw messages.
\<close>

subsection \<open>Unquoting a string\<close>

definition hex_digit_value :: "char \<Rightarrow> nat" where
  "hex_digit_value c =
     (if is_digit c then of_char c - 48 else if CHR ''a'' \<le> c then of_char c - 87 else of_char c - 55)"

definition hex4 :: "string \<Rightarrow> nat" where
  "hex4 s = foldl (\<lambda>a c. 16 * a + hex_digit_value c) 0 (take 4 s)"

definition utf8_encode :: "nat \<Rightarrow> string" where
  "utf8_encode n =
     (if n < 0x80 then [char_of n]
      else if n < 0x800 then [char_of (0xC0 + n div 0x40), char_of (0x80 + n mod 0x40)]
      else if n < 0x10000
      then [char_of (0xE0 + n div 0x1000), char_of (0x80 + n div 0x40 mod 0x40), char_of (0x80 + n mod 0x40)]
      else [char_of (0xF0 + n div 0x40000), char_of (0x80 + n div 0x1000 mod 0x40),
            char_of (0x80 + n div 0x40 mod 0x40), char_of (0x80 + n mod 0x40)])"

definition replacement :: string where
  "replacement = [CHR 0xEF, CHR 0xBF, CHR 0xBD]"

definition simple_unescape :: "char \<Rightarrow> char" where
  "simple_unescape e =
     (if e = CHR ''b'' then CHR 0x08 else if e = CHR ''f'' then CHR 0x0C else if e = CHR ''n'' then CHR 0x0A
      else if e = CHR ''r'' then CHR 0x0D else if e = CHR ''t'' then CHR 0x09 else e)"

text \<open>The text between the quotes of a string the scanner accepted.\<close>

fun json_unquote :: "string \<Rightarrow> string" where
  "json_unquote [] = []"
| "json_unquote (c # cs) =
     (if c = CHR 0x5C then
        (if simple_escape cs then simple_unescape (hd cs) # json_unquote (drop 1 cs)
         else if hex_escape cs then
           (let r = hex4 (tl cs); rest = drop 5 cs
            in if 0xD800 \<le> r \<and> r < 0xE000 then
                 (if r < 0xDC00 \<and> HasPrefix rest [CHR 0x5C, CHR ''u''] \<and> hex_escape (tl rest)
                     \<and> 0xDC00 \<le> hex4 (drop 2 rest) \<and> hex4 (drop 2 rest) < 0xE000
                  then utf8_encode (0x10000 + (r - 0xD800) * 0x400 + (hex4 (drop 2 rest) - 0xDC00))
                       @ json_unquote (drop 11 cs)
                  else replacement @ json_unquote rest)
               else utf8_encode r @ json_unquote rest)
         else [])
      else if (of_char c :: nat) < 0x80 then c # json_unquote cs
      else let n = utf8_len (c # cs)
           in if n = 0 then replacement @ json_unquote cs
              else take n (c # cs) @ json_unquote (drop (n - 1) cs))"

subsection \<open>Compacting a raw value\<close>

text \<open>The flags say whether the byte stands inside a string and right after a backslash.\<close>

fun json_compact :: "bool \<Rightarrow> bool \<Rightarrow> string \<Rightarrow> string" where
  "json_compact instr esc [] = []"
| "json_compact instr esc (c # cs) =
     (let instr' = (if instr then esc \<or> c \<noteq> CHR 0x22 else c = CHR 0x22);
          esc' = (instr \<and> \<not> esc \<and> c = CHR 0x5C)
      in if c = CHR ''<'' \<or> c = CHR ''>'' \<or> c = CHR ''&''
         then CHR 0x5C # ''u00'' @ [hex_nibble (of_char c div 16), hex_nibble (of_char c mod 16)]
              @ json_compact instr' esc' cs
         else if take 3 (c # cs) = [CHR 0xE2, CHR 0x80, CHR 0xA8] then CHR 0x5C # ''u2028'' @ json_compact instr' esc' (drop 2 cs)
         else if take 3 (c # cs) = [CHR 0xE2, CHR 0x80, CHR 0xA9] then CHR 0x5C # ''u2029'' @ json_compact instr' esc' (drop 2 cs)
         else if \<not> instr \<and> is_ws c then json_compact instr' esc' cs
         else c # json_compact instr' esc' cs)"

subsection \<open>Members\<close>

text \<open>The raw names and values of an accepted object, from its first name on; the length is fuel enough.\<close>

fun raw_members :: "nat \<Rightarrow> string \<Rightarrow> (string \<times> string) list" where
  "raw_members 0 s = []"
| "raw_members (Suc n) s =
     (case s of
        [] \<Rightarrow> []
      | q # qs \<Rightarrow>
          (case (if q = CHR 0x22 then scan_str qs else None) of
             None \<Rightarrow> []
           | Some r \<Rightarrow>
               (let v = skip_ws (tl (skip_ws r))
                in case scan_value (Suc (2 * length v)) 1 v of
                     None \<Rightarrow> []
                   | Some r' \<Rightarrow>
                       (json_unquote (take (length qs - length r - 1) qs), take (length v - length r') v)
                       # (case skip_ws r' of
                            [] \<Rightarrow> []
                          | c # cs \<Rightarrow> if c = CHR '','' then raw_members n (skip_ws cs) else []))))"

definition put_member :: "string \<times> string \<Rightarrow> (string \<times> string) list \<Rightarrow> (string \<times> string) list" where
  "put_member kv m = kv # filter (\<lambda>e. fst e \<noteq> fst kv) m"

definition object_members :: "string \<Rightarrow> (string \<times> string) list" where
  "object_members s = sort_key fst (fold put_member (raw_members (length s) (skip_ws (tl (skip_ws s)))) [])"

definition normalizeEffectiveSigningJSON :: "string \<Rightarrow> string result" where
  "normalizeEffectiveSigningJSON v =
     (let value = (if v = '''' then ''{}'' else v)
      in if length value < 2 \<or> int (length value) > MaxOperationPayloadBytes \<or> \<not> json_valid value
         then Inl (plain_error ''invalid effective signing snapshot'')
         else if \<not> json_is_object value
         then Inl (plain_error ''effective signing snapshot must be a JSON object'')
         else Inr (json_object (map (\<lambda>(k, raw). (k, Some (json_compact False False raw))) (object_members value))))"

lemma distinct_put_members: "distinct (map fst m) \<Longrightarrow> distinct (map fst (fold put_member kvs m))"
proof (induction kvs arbitrary: m)
  case (Cons kv kvs)
  have "distinct (map fst (put_member kv m))"
    using Cons.prems by (auto simp: put_member_def distinct_map_filter)
  then show ?case using Cons.IH by simp
qed simp

text \<open>The names of a snapshot come out once each and in order.\<close>

lemma object_members_names: "sorted_wrt (<) (map fst (object_members s))"
proof -
  let ?m = "fold put_member (raw_members (length s) (skip_ws (tl (skip_ws s)))) []"
  have "distinct (map fst (sort_key fst ?m))"
    by (simp add: distinct_map_sort_key distinct_put_members)
  then show ?thesis by (simp add: object_members_def strict_sorted_iff)
qed

end
