(* ===== verification/Generation_Ledger.thy ===== *)
theory Generation_Ledger
  imports Json_Object
begin

section \<open>The generation ledger (\<open>internal/v2/state/generations.go\<close>, \<open>signing_keys.go\<close>)\<close>

text \<open>
  Every build of the repository is a generation: a manifest, its delta to the previous one, the
  operation that made it, and for each RPM view the identity of the key that signed it. The
  transactions that record generations and the validator of the whole ledger follow the source.
  One reading \<open>now\<close> of the clock stands for all readings of one transaction.
\<close>

subsection \<open>Inserting rows\<close>

definition insert_generation_file :: "GenerationID \<Rightarrow> database \<Rightarrow> GenerationFile \<Rightarrow> database result" where
  "insert_generation_file generation db file =
     (if generation \<notin> set (map gi_generation (db_generations db))
         \<or> (generation, gf_path file) \<in> set (map (\<lambda>(g, f). (g, gf_path f)) (db_generation_files db))
         \<or> gf_phase file \<notin> {''payload'', ''metadata'', ''pointer''} \<or> gf_size file < 0
      then Inl (plain_error ''record generation files'')
      else Inr (db\<lparr>db_generation_files := db_generation_files db @ [(generation, file)]\<rparr>))"

text \<open>The batches of 128 rows only bound the statement size; each row is inserted in order.\<close>

definition insertGenerationFilesTx :: "GenerationID \<Rightarrow> GenerationFile list \<Rightarrow> database \<Rightarrow> database result" where
  "insertGenerationFilesTx generation files db = for_each (insert_generation_file generation) db files"

text \<open>A deletion is stored without size and digest, which read back as zero and empty.\<close>

definition stored_change :: "FileChange \<Rightarrow> FileChange" where
  "stored_change c = (if fc_operation c = ''delete'' then c\<lparr>fc_size := 0, fc_sha256 := ''''\<rparr> else c)"

definition insert_operation_file :: "string \<Rightarrow> database \<Rightarrow> nat \<times> FileChange \<Rightarrow> database result" where
  "insert_operation_file operationID db entry =
     (case entry of (sequence, change) \<Rightarrow>
        if find_operation db operationID = None
           \<or> (operationID, sequence) \<in> set (map (\<lambda>r. (of_operation r, of_sequence r)) (db_operation_files db))
           \<or> fc_operation change \<notin> {''add'', ''update'', ''delete''}
           \<or> fc_phase change \<notin> {''payload'', ''metadata'', ''pointer'', ''delete''}
           \<or> fc_operation change \<noteq> ''delete'' \<and> fc_size change < 0
        then Inl (plain_error ''record operation files'')
        else Inr (db\<lparr>db_operation_files := db_operation_files db
               @ [\<lparr>of_operation = operationID, of_sequence = sequence, of_change = stored_change change\<rparr>]\<rparr>))"

definition insertOperationFilesTx :: "string \<Rightarrow> FileChange list \<Rightarrow> database \<Rightarrow> database result" where
  "insertOperationFilesTx operationID changes db =
     for_each (insert_operation_file operationID) db (enumerate 0 changes)"

definition insert_view_signer :: "database \<Rightarrow> view_signer \<Rightarrow> database result" where
  "insert_view_signer db row =
     (if vs_generation row \<notin> set (map gi_generation (db_generations db))
         \<or> (vs_generation row, vs_view row) \<in> set (map (\<lambda>r. (vs_generation r, vs_view r)) (db_view_signers db))
         \<or> (if vs_identity row \<in> {''none'', ''unverified''} then vs_public_key row \<noteq> None
            else \<not> validSHA256Text (vs_identity row) \<or> null_string (vs_public_key row) = ''''
                 \<or> int (length (null_string (vs_public_key row))) > MaxOperationPayloadBytes)
      then Inl (plain_error ''insert generation view signer'')
      else Inr (db\<lparr>db_view_signers := db_view_signers db @ [row]\<rparr>))"

subsection \<open>Signers of the views of a generation\<close>

definition GenerationSignerUnverified :: string where
  "GenerationSignerUnverified = ''unverified''"

text \<open>The view of a path \<open>dists/<dist>/<family>/repodata/<name>\<close>.\<close>

definition rpm_view_path :: "string \<Rightarrow> string \<Rightarrow> (string \<times> string \<times> string) option" where
  "rpm_view_path name p =
     (case Split p slash of
        [a, b, c, d, e] \<Rightarrow> if a = ''dists'' \<and> d = ''repodata'' \<and> e = name then Some (path_Join [a, b, c], b, c) else None
      | _ \<Rightarrow> None)"

fun set_view :: "string \<Rightarrow> bool \<Rightarrow> (string \<times> bool) list \<Rightarrow> (string \<times> bool) list" where
  "set_view v b [] = [(v, b)]"
| "set_view v b ((w, c) # rest) = (if v = w then (v, b) # rest else (w, c) # set_view v b rest)"

definition repomd_step :: "(string \<times> bool) list \<Rightarrow> GenerationFile \<Rightarrow> (string \<times> bool) list result" where
  "repomd_step views file =
     (case rpm_view_path ''repomd.xml'' (gf_path file) of
        None \<Rightarrow> Inr views
      | Some (view, dist, family) \<Rightarrow>
          if gf_phase file \<noteq> ''pointer'' \<or> dist = '''' \<or> family = ''''
          then Inl (GoError [ErrConflict] ''Generation RPM view pointer is invalid'')
          else Inr (set_view view False views))"

definition signature_step :: "(string \<times> bool) list \<Rightarrow> GenerationFile \<Rightarrow> (string \<times> bool) list result" where
  "signature_step views file =
     (case rpm_view_path ''repomd.xml.asc'' (gf_path file) of
        None \<Rightarrow> Inr views
      | Some (view, _, _) \<Rightarrow>
          if map_of views view = None
          then Inl (GoError [ErrConflict] ''Generation RPM signature has no repomd pointer'')
          else Inr (set_view view True views))"

definition rpmGenerationViewSigning :: "GenerationFile list \<Rightarrow> (string \<times> bool) list result" where
  "rpmGenerationViewSigning manifest =
     and_then (for_each repomd_step [] manifest) (\<lambda>views. for_each signature_step views manifest)"

definition generationSignerViewDist :: "string \<Rightarrow> string result" where
  "generationSignerViewDist viewID =
     (case Split viewID slash of
        [a, b, c] \<Rightarrow>
          (if a \<noteq> ''dists'' \<or> b = '''' \<or> c = '''' \<or> path_Join [a, b, c] \<noteq> viewID
           then Inl (GoError [ErrConflict] ''invalid Generation signer view'') else Inr b)
      | _ \<Rightarrow> Inl (GoError [ErrConflict] ''invalid Generation signer view''))"

definition signers_of :: "database \<Rightarrow> GenerationID \<Rightarrow> view_signer list" where
  "signers_of db generation = sort_key vs_view (filter (\<lambda>r. vs_generation r = generation) (db_view_signers db))"

definition signer_row_ok :: "(string \<times> bool) list \<Rightarrow> view_signer \<Rightarrow> unit result" where
  "signer_row_ok expected row =
     (let viewID = vs_view row; identity = vs_identity row; trusted = null_string (vs_public_key row);
          signed = (map_of expected viewID = Some True)
      in and_then (generationSignerViewDist viewID) (\<lambda>_.
         if identity = ''none''
         then ensure (trusted = '''' \<and> \<not> signed)
                (GoError [ErrConflict] ''Generation view signature state differs from signer evidence'')
         else if identity = GenerationSignerUnverified
         then ensure (trusted = '''' \<and> signed)
                (GoError [ErrConflict] ''Generation view has invalid unverified signer evidence'')
         else if \<not> validSHA256Text identity \<or> trusted = '''' \<or> \<not> signed
         then Inl (GoError [ErrConflict] ''Generation view has invalid signer evidence'')
         else ensure (sha256_hex trusted = identity)
                (GoError [ErrConflict] ''Generation view signer identity differs from retained key'')))"

definition validateGenerationViewSignerCoverage ::
  "database \<Rightarrow> GenerationID \<Rightarrow> GenerationFile list \<Rightarrow> unit result" where
  "validateGenerationViewSignerCoverage db generation manifest =
     and_then (rpmGenerationViewSigning manifest) (\<lambda>expected.
     and_then (for_each (\<lambda>_. signer_row_ok expected) () (signers_of db generation)) (\<lambda>_.
       ensure (map vs_view (signers_of db generation) = sort (map fst expected))
         (GoError [ErrConflict] ''Generation signer views differ from RPM manifest views'')))"

text \<open>\<open>metadataFingerprintPattern\<close>: \<open>^(?:[0-9A-F]{40}|[0-9A-F]{64})$\<close>.\<close>

definition is_upper_hex :: "char \<Rightarrow> bool" where
  "is_upper_hex c \<longleftrightarrow> is_digit c \<or> CHR ''A'' \<le> c \<and> c \<le> CHR ''F''"

definition metadataFingerprintPattern :: "string \<Rightarrow> bool" where
  "metadataFingerprintPattern s \<longleftrightarrow> (length s = 40 \<or> length s = 64) \<and> list_all is_upper_hex s"

definition generationSignerIdentity :: "string \<Rightarrow> string \<Rightarrow> string \<Rightarrow> (string \<times> string option) result" where
  "generationSignerIdentity fingerprint publicKey claimed =
     (if fingerprint = '''' then
        (if publicKey \<noteq> '''' \<or> claimed \<noteq> '''' \<and> claimed \<noteq> ''none''
         then Inl (plain_error ''unsigned RPM metadata signer state is inconsistent'')
         else Inr (''none'', None))
      else if \<not> metadataFingerprintPattern fingerprint \<or> publicKey = ''''
              \<or> int (length publicKey) > MaxOperationPayloadBytes
      then Inl (plain_error ''signed RPM metadata signer state is invalid'')
      else let identity = sha256_hex publicKey
           in if claimed \<noteq> '''' \<and> claimed \<noteq> identity
              then Inl (plain_error ''claimed RPM metadata signer identity differs from retained key'')
              else Inr (identity, Some publicKey))"

record Architecture =
  ar_family :: string
  ar_ecosystem :: string

definition insertGenerationDistViewSignersTx ::
  "GenerationID \<Rightarrow> string \<Rightarrow> string \<Rightarrow> Architecture list \<Rightarrow> string \<Rightarrow> string \<Rightarrow> string \<Rightarrow> database \<Rightarrow> database result" where
  "insertGenerationDistViewSignersTx generation name format architectures fingerprint publicKey claimed db =
     (if format \<noteq> ''rpm'' then Inr db
      else and_then (generationSignerIdentity fingerprint publicKey claimed) (\<lambda>(identity, trusted).
           for_each (\<lambda>db architecture.
             let viewID = path_Join [''dists'', name, ar_family architecture]
             in and_then (generationSignerViewDist viewID) (\<lambda>_.
                insert_view_signer db \<lparr>vs_generation = generation, vs_view = viewID,
                  vs_identity = identity, vs_public_key = trusted\<rparr>)) db architectures))"

definition requireVerifiedGenerationSigners :: "database \<Rightarrow> GenerationID \<Rightarrow> unit result" where
  "requireVerifiedGenerationSigners db generation =
     ensure (\<not> list_ex (\<lambda>r. vs_generation r = generation \<and> vs_identity r = GenerationSignerUnverified) (db_view_signers db))
       (GoError [ErrConflict] ''Generation has unverified historical RPM signer evidence'')"

definition carryGenerationViewSignersTx ::
  "GenerationID \<Rightarrow> GenerationID \<Rightarrow> string list \<Rightarrow> database \<Rightarrow> database result" where
  "carryGenerationViewSignersTx base target replacedDists db =
     (if base = 0 then Inr db
      else and_then (requireVerifiedGenerationSigners db base) (\<lambda>_.
           and_then (for_each (\<lambda>carried row.
               and_then (generationSignerViewDist (vs_view row)) (\<lambda>dist.
                 Inr (if dist \<in> set replacedDists then carried else carried @ [row]))) [] (signers_of db base)) (\<lambda>carried.
           for_each (\<lambda>db row. insert_view_signer db (row\<lparr>vs_generation := target,
               vs_public_key := (if vs_identity row = ''none'' then None else vs_public_key row)\<rparr>)) db carried)))"

text \<open>The RPM views of the current projection, with the signer of their dist.\<close>

definition current_signer_rows :: "database \<Rightarrow> (string \<times> string \<times> string \<times> string) list" where
  "current_signer_rows db =
     concat (map (\<lambda>d. if di_format d \<noteq> ''rpm'' then []
       else map (\<lambda>a. case List.find (\<lambda>s. ds_dist s = di_name d) (db_dist_signers db) of
                None \<Rightarrow> (di_name d, da_family a, [], [])
              | Some s \<Rightarrow> (di_name d, da_family a, ds_fingerprint s, ds_public_key s))
            (filter (\<lambda>a. da_dist a = di_name d) (db_architectures db))) (db_dists db))"

definition current_view_signers :: "database \<Rightarrow> (string \<times> string \<times> string) list" where
  "current_view_signers db =
     map (\<lambda>(name, family, fingerprint, key). (path_Join [''dists'', name, family], fingerprint, key))
       (sort_key (\<lambda>(name, family, _, _). (name, family)) (current_signer_rows db))"

definition insertCurrentGenerationViewSignersTx :: "GenerationID \<Rightarrow> database \<Rightarrow> database result" where
  "insertCurrentGenerationViewSignersTx generation db =
     for_each (\<lambda>db' (viewID, fingerprint, key).
       and_then (generationSignerIdentity fingerprint key '''') (\<lambda>(identity, trusted).
         insert_view_signer db' \<lparr>vs_generation = generation, vs_view = viewID,
           vs_identity = identity, vs_public_key = trusted\<rparr>)) db (current_view_signers db)"

subsection \<open>Reading generations\<close>

definition DefaultRendererIdentity :: string where
  "DefaultRendererIdentity = ''6c603eefa3ebe62caa89581b00bfc22aed2fa40904271cf31dd97f0750a92661''"

definition find_generation :: "database \<Rightarrow> GenerationID \<Rightarrow> GenerationInfo option" where
  "find_generation db g = List.find (\<lambda>r. gi_generation r = g) (db_generations db)"

definition getGenerationOn :: "database \<Rightarrow> GenerationID \<Rightarrow> GenerationInfo result" where
  "getGenerationOn db g =
     (case find_generation db g of None \<Rightarrow> Inl (GoError [ErrNotFound] ''generation'') | Some r \<Rightarrow> Inr r)"

definition generationInfoTx :: "database \<Rightarrow> GenerationID \<Rightarrow> GenerationInfo result" where
  "generationInfoTx db g =
     (case find_generation db g of None \<Rightarrow> Inl (plain_error ''no rows'') | Some r \<Rightarrow> Inr r)"

definition generationChangesTx :: "database \<Rightarrow> string \<Rightarrow> FileChange list" where
  "generationChangesTx db operationID =
     map of_change (sort_key of_sequence (filter (\<lambda>r. of_operation r = operationID) (db_operation_files db)))"

definition generationChangesOn :: "database \<Rightarrow> GenerationID \<Rightarrow> FileChange list result" where
  "generationChangesOn db g =
     and_then (getGenerationOn db g) (\<lambda>info. Inr (generationChangesTx db (gi_operation info)))"

definition files_of :: "database \<Rightarrow> GenerationID \<Rightarrow> GenerationFile list" where
  "files_of db g = sort_key gf_path (map snd (filter (\<lambda>r. fst r = g) (db_generation_files db)))"

definition generationManifestOn :: "database \<Rightarrow> GenerationID \<Rightarrow> GenerationFile list result" where
  "generationManifestOn db g =
     (if g = 0 then Inr []
      else if files_of db g = [] \<and> find_generation db g = None then Inl (GoError [ErrNotFound] ''generation'')
      else Inr (files_of db g))"

definition generationManifestTx :: "database \<Rightarrow> GenerationID \<Rightarrow> GenerationFile list result" where
  "generationManifestTx db g =
     (if g = 0 then Inr []
      else if find_generation db g = None
      then Inl (GoError [ErrConflict] ''previous generation has no retained manifest'')
      else Inr (files_of db g))"

subsection \<open>Validating the ledger\<close>

record ledger_state =
  ls_previous :: GenerationID
  ls_manifest :: "GenerationFile list"
  ls_operations :: "string list"
  ls_transition :: bool
  ls_first :: bool

definition ledger_start :: ledger_state where
  "ledger_start = \<lparr>ls_previous = 0, ls_manifest = [], ls_operations = [], ls_transition = False, ls_first = True\<rparr>"

definition migrated :: "RepositoryIdentity \<Rightarrow> bool" where
  "migrated identity \<longleftrightarrow> id_layout_version identity = LayoutSinglePayloadV1 \<and> id_receipt identity \<noteq> ''''"

definition manifest_layout :: "RepositoryIdentity \<Rightarrow> string" where
  "manifest_layout identity =
     (if id_layout_version identity = LayoutC2ToSingleV1 then LayoutC2V1 else id_layout_version identity)"

definition ledger_link :: "ledger_state \<Rightarrow> GenerationInfo \<Rightarrow> unit result" where
  "ledger_link ls info =
     (let follows = (if ls_first ls then True
                     else case GenerationNext (ls_previous ls) of Inl _ \<Rightarrow> False | Inr e \<Rightarrow> gi_generation info = e)
      in if gi_previous info \<noteq> ls_previous ls \<or> \<not> follows
         then Inl (GoError [ErrConflict] ''generation does not follow retained generation'')
         else ensure (gi_operation info \<notin> set (ls_operations ls))
                (GoError [ErrConflict] ''operation owns more than one Generation''))"

definition ledger_layout :: "RepositoryIdentity \<Rightarrow> bool \<Rightarrow> string \<Rightarrow> (string \<times> bool) result" where
  "ledger_layout identity transitionSeen kind =
     (if migrated identity \<and> \<not> transitionSeen
      then (if kind = ''layout.migrate'' then Inr (LayoutSinglePayloadV1, True) else Inr (LayoutC2V1, transitionSeen))
      else if kind = ''layout.migrate''
      then Inl (GoError [ErrConflict] ''unexpected or duplicate layout migration generation'')
      else Inr (manifest_layout identity, transitionSeen))"

definition ledger_contents ::
  "database \<Rightarrow> GenerationID \<Rightarrow> string \<Rightarrow> GenerationFile list \<Rightarrow> GenerationInfo \<Rightarrow> GenerationFile list result" where
  "ledger_contents db current layout previousManifest info =
     and_then (generationManifestOn db (gi_generation info)) (\<lambda>manifest.
     and_then (case normalizeManifestForLayout manifest layout of
                 Inl _ \<Rightarrow> Inl (GoError [ErrConflict] ''generation manifest hash differs'')
               | Inr (normalized, digest) \<Rightarrow>
                   if digest \<noteq> gi_manifest info then Inl (GoError [ErrConflict] ''generation manifest hash differs'')
                   else Inr normalized) (\<lambda>normalized.
     and_then (validateGenerationViewSignerCoverage db (gi_generation info) normalized) (\<lambda>_.
     and_then (if gi_generation info = current then requireVerifiedGenerationSigners db (gi_generation info) else Inr ()) (\<lambda>_.
     and_then (generationChangesOn db (gi_generation info)) (\<lambda>changes.
       if isl (validateChangesForLayout changes layout) \<or> changes \<noteq> DiffManifests previousManifest normalized
       then Inl (GoError [ErrConflict] ''generation Changeset differs from its manifests'')
       else Inr normalized)))))"

definition ledger_step ::
  "database \<Rightarrow> RepositoryIdentity \<Rightarrow> GenerationID \<Rightarrow> ledger_state \<Rightarrow> GenerationInfo \<Rightarrow> ledger_state result" where
  "ledger_step db identity current ls info =
     and_then (ledger_link ls info) (\<lambda>_.
     case find_operation db (gi_operation info) of
       None \<Rightarrow> Inl (GoError [ErrConflict] ''generation operation is unavailable'')
     | Some operation \<Rightarrow>
         if op_state operation \<noteq> OperationDone then Inl (GoError [ErrConflict] ''generation operation is not done'')
         else and_then (ledger_layout identity (ls_transition ls) (op_kind operation)) (\<lambda>(layout, seen).
              and_then (ledger_contents db current layout (ls_manifest ls) info) (\<lambda>normalized.
                Inr \<lparr>ls_previous = gi_generation info, ls_manifest = normalized,
                     ls_operations = gi_operation info # ls_operations ls, ls_transition = seen, ls_first = False\<rparr>)))"

text \<open>The validator on a database of the current schema (the legacy schema 6 branch is not modelled).\<close>

definition validateGenerationLedgerOn :: "database \<Rightarrow> unit result" where
  "validateGenerationLedgerOn db =
     and_then (repositoryIdentityOn db) (\<lambda>identity.
     let current = rs_built_generation (db_repository db);
         infos = sort_key gi_generation (db_generations db)
     in if infos = []
        then ensure (current = 0) (GoError [ErrNotFound] ''built generation predates the retained ledger'')
        else if current \<noteq> gi_generation (last infos)
        then Inl (GoError [ErrConflict] ''current generation differs from ledger head'')
        else and_then (for_each (ledger_step db identity current) ledger_start infos) (\<lambda>ls.
               ensure (\<not> (migrated identity \<and> \<not> ls_transition ls))
                 (GoError [ErrConflict] ''terminal transition receipt has no layout migration Generation'')))"

subsection \<open>Recording a generation\<close>

definition insert_generation :: "GenerationInfo \<Rightarrow> database \<Rightarrow> database result" where
  "insert_generation info db =
     (if find_generation db (gi_generation info) \<noteq> None \<or> gi_generation info = 0
         \<or> find_operation db (gi_operation info) = None \<or> \<not> validSHA256Text (gi_renderer info)
      then Inl (plain_error ''record generation'')
      else Inr (db\<lparr>db_generations := db_generations db @ [info]\<rparr>))"

definition recordGenerationTx ::
  "string \<Rightarrow> string \<Rightarrow> GenerationID \<Rightarrow> GenerationFile list \<Rightarrow> FileChange list \<Rightarrow> string \<Rightarrow> database \<Rightarrow> database result" where
  "recordGenerationTx now operationID generation inputManifest changes rendererIdentity db =
     and_then (normalizeManifest inputManifest) (\<lambda>(manifest, manifestSHA).
     and_then (validateChanges changes) (\<lambda>_.
     let previous = rs_built_generation (db_repository db)
     in if GenerationNext previous \<noteq> Inr generation
        then Inl (GoError [ErrConflict] ''generation does not follow'')
        else and_then (generationManifestTx db previous) (\<lambda>previousManifest.
             if changes \<noteq> DiffManifests previousManifest manifest
             then Inl (GoError [ErrConflict] ''generation changes do not equal the manifest delta'')
             else if rendererIdentity \<noteq> '''' \<and> \<not> validSHA256Text rendererIdentity
             then Inl (plain_error ''invalid renderer identity'')
             else let renderer = (if rendererIdentity \<noteq> '''' then rendererIdentity else DefaultRendererIdentity)
                  in and_then (insert_generation \<lparr>gi_generation = generation, gi_previous = previous,
                         gi_operation = operationID, gi_manifest = manifestSHA, gi_renderer = renderer,
                         gi_created_at = now\<rparr> db) (\<lambda>db.
                     and_then (insertGenerationFilesTx generation manifest db) (\<lambda>db.
                     insertOperationFilesTx operationID changes db)))))"

definition dist_dirty :: "database \<Rightarrow> dist_row \<Rightarrow> bool" where
  "dist_dirty db d \<longleftrightarrow>
     di_effective_config d \<noteq> di_built_config d
     \<or> set (map me_package (filter (\<lambda>m. me_dist m = di_name d) (db_memberships db)))
       \<noteq> set (map bm_package (filter (\<lambda>m. bm_dist m = di_name d) (db_built db)))"

definition repositoryProjectionStatusTx :: "database \<Rightarrow> string \<times> string option" where
  "repositoryProjectionStatusTx db =
     (if list_ex (dist_dirty db) (db_dists db)
      then (''dirty'', Some ''one or more dists differ from their built projections'') else (''clean'', None))"

definition set_status :: "database \<Rightarrow> database" where
  "set_status db =
     (case repositoryProjectionStatusTx db of (status, reason) \<Rightarrow>
        db\<lparr>db_repository := (db_repository db)\<lparr>rs_status := status, rs_dirty_reason := reason\<rparr>\<rparr>)"

definition advanceGenerationTx :: "GenerationID \<Rightarrow> database \<Rightarrow> database" where
  "advanceGenerationTx generation db =
     (let db = set_status db
      in db\<lparr>db_repository := (db_repository db)\<lparr>rs_built_generation := max (rs_built_generation (db_repository db)) generation\<rparr>\<rparr>)"

end
