(* ===== verification/Dist_State.thy ===== *)
theory Dist_State
  imports Generation_Ledger
begin

section \<open>Dists and build finalisation (\<open>internal/v2/state/state.go\<close>, \<open>generations.go\<close>, \<open>signing_keys.go\<close>)\<close>

text \<open>
  A dist is a published view of the repository: its format, its architectures, the signer of its
  metadata, and the packages it should hold and was built with. A finalisation records a new
  generation, moves the projections of the dists it touches and closes its operation, all in one
  transaction.
\<close>

subsection \<open>Retained signing keys\<close>

record RPMSigningKey =
  sk_fingerprint :: string
  sk_snapshot :: string
  sk_public_key :: string

definition normalizeRPMSigningKey :: "RPMSigningKey \<Rightarrow> RPMSigningKey result" where
  "normalizeRPMSigningKey key =
     (if \<not> metadataFingerprintPattern (sk_fingerprint key) \<or> sk_fingerprint key \<noteq> ToUpper (sk_fingerprint key)
         \<or> sk_public_key key = '''' \<or> int (length (sk_public_key key)) > MaxOperationPayloadBytes
      then Inl (plain_error ''invalid retained RPM signing key'')
      else let want = sha256_hex (sk_public_key key)
           in if sk_snapshot key \<noteq> '''' \<and> sk_snapshot key \<noteq> want
              then Inl (plain_error ''retained RPM signing snapshot digest differs from certificate bytes'')
              else Inr (key\<lparr>sk_snapshot := want\<rparr>))"

text \<open>The map by fingerprint and snapshot; a later key with the same name replaces an earlier one.\<close>

definition snapshot_name :: "RPMSigningKey \<Rightarrow> string" where
  "snapshot_name key = sk_fingerprint key @ '':'' @ sk_snapshot key"

definition put_key :: "RPMSigningKey \<Rightarrow> RPMSigningKey list \<Rightarrow> RPMSigningKey list" where
  "put_key key keys = key # filter (\<lambda>k. snapshot_name k \<noteq> snapshot_name key) keys"

definition normalizeRPMSigningKeys :: "RPMSigningKey list \<Rightarrow> RPMSigningKey list result" where
  "normalizeRPMSigningKeys input =
     and_then (for_each (\<lambda>keys k. and_then (normalizeRPMSigningKey k) (\<lambda>key. Inr (put_key key keys))) [] input)
       (\<lambda>keys. Inr (sort_key (\<lambda>k. (sk_fingerprint k, sk_snapshot k)) keys))"

definition retain_key :: "database \<Rightarrow> RPMSigningKey \<Rightarrow> database result" where
  "retain_key db key =
     (if (sk_fingerprint key, sk_public_key key) \<in> set (db_rpm_keys db) then Inr db
      else Inr (db\<lparr>db_rpm_keys := db_rpm_keys db @ [(sk_fingerprint key, sk_public_key key)]\<rparr>))"

definition retainRPMSigningKeysTx :: "RPMSigningKey list \<Rightarrow> database \<Rightarrow> database result" where
  "retainRPMSigningKeysTx keys db = for_each retain_key db keys"

definition RetainRPMSigningKeys :: "unit result \<Rightarrow> RPMSigningKey list \<Rightarrow> database \<Rightarrow> database \<times> unit result" where
  "RetainRPMSigningKeys ckpt input db =
     (case normalizeRPMSigningKeys input of
        Inl e \<Rightarrow> (db, Inl e)
      | Inr keys \<Rightarrow> if keys = [] then (db, Inr ()) else commit ckpt (retainRPMSigningKeysTx keys) db)"

definition ListRPMSigningKeys :: "database \<Rightarrow> RPMSigningKey list result" where
  "ListRPMSigningKeys db =
     for_each (\<lambda>keys (fingerprint, public_key).
       case normalizeRPMSigningKey \<lparr>sk_fingerprint = fingerprint, sk_snapshot = '''', sk_public_key = public_key\<rparr> of
         Inl _ \<Rightarrow> Inl (GoError [ErrSchema] ''retained RPM signing key'')
       | Inr key \<Rightarrow> Inr (keys @ [key])) [] (sort (db_rpm_keys db))"

subsection \<open>Dist rows\<close>

record Dist =
  dd_name :: string
  dd_format :: string
  dd_config :: string
  dd_built_generation :: GenerationID
  dd_architectures :: "Architecture list"
  dd_fingerprint :: string
  dd_public_key :: string
  dd_signing :: string

definition find_dist :: "database \<Rightarrow> string \<Rightarrow> dist_row option" where
  "find_dist db name = List.find (\<lambda>d. di_name d = name) (db_dists db)"

definition replaceDistMetadataSignerTx :: "string \<Rightarrow> string \<Rightarrow> string \<Rightarrow> database \<Rightarrow> database result" where
  "replaceDistMetadataSignerTx name fingerprint publicKey db =
     (let db' = db\<lparr>db_dist_signers := filter (\<lambda>s. ds_dist s \<noteq> name) (db_dist_signers db)\<rparr>
      in if fingerprint = '''' \<and> publicKey = '''' then Inr db'
         else if \<not> metadataFingerprintPattern fingerprint \<or> publicKey = ''''
                 \<or> int (length publicKey) > MaxOperationPayloadBytes
         then Inl (plain_error ''invalid metadata signer state for Dist'')
         else if find_dist db' name = None then Inl (plain_error ''record metadata signer for Dist'')
         else Inr (db'\<lparr>db_dist_signers := db_dist_signers db'
                @ [\<lparr>ds_dist = name, ds_fingerprint = fingerprint, ds_public_key = publicKey\<rparr>]\<rparr>))"

definition insert_architecture ::
  "string \<Rightarrow> GenerationID \<Rightarrow> string list \<times> database \<Rightarrow> Architecture \<Rightarrow> (string list \<times> database) result" where
  "insert_architecture name generation s architecture =
     (case s of (seen, db) \<Rightarrow>
        if ar_family architecture \<in> set seen then Inl (plain_error ''duplicate architecture'')
        else if ar_family architecture \<notin> {''x86_64'', ''aarch64''} \<or> find_dist db name = None
                \<or> (name, ar_family architecture) \<in> set (map (\<lambda>a. (da_dist a, da_family a)) (db_architectures db))
        then Inl (plain_error ''insert architecture for dist'')
        else Inr (ar_family architecture # seen,
               db\<lparr>db_architectures := db_architectures db @ [\<lparr>da_dist = name, da_family = ar_family architecture,
                     da_ecosystem = ar_ecosystem architecture, da_built_generation = generation\<rparr>]\<rparr>))"

definition insert_architectures ::
  "string \<Rightarrow> GenerationID \<Rightarrow> Architecture list \<Rightarrow> database \<Rightarrow> database result" where
  "insert_architectures name generation architectures db =
     and_then (for_each (insert_architecture name generation) ([], db) architectures) (\<lambda>(_, db). Inr db)"

definition replaceDistArchitecturesTx ::
  "string \<Rightarrow> Architecture list \<Rightarrow> GenerationID \<Rightarrow> database \<Rightarrow> database result" where
  "replaceDistArchitecturesTx distName architectures generation db =
     insert_architectures distName generation architectures
       (db\<lparr>db_architectures := filter (\<lambda>a. da_dist a \<noteq> distName) (db_architectures db)\<rparr>)"

definition insert_dist_row :: "Dist \<Rightarrow> string \<Rightarrow> database \<Rightarrow> database" where
  "insert_dist_row dist signing db =
     db\<lparr>db_dists := db_dists db @ [\<lparr>di_name = dd_name dist, di_format = dd_format dist,
         di_effective_config = dd_config dist, di_built_config = dd_config dist,
         di_built_generation = dd_built_generation dist, di_desired_revision = 0, di_signing = signing\<rparr>]\<rparr>"

definition add_dist_tx :: "Dist \<Rightarrow> string \<Rightarrow> database \<Rightarrow> database result" where
  "add_dist_tx dist signing db =
     (if find_dist db (dd_name dist) \<noteq> None then Inl (GoError [ErrExists] ''dist'')
      else and_then (replaceDistMetadataSignerTx (dd_name dist) (dd_fingerprint dist) (dd_public_key dist)
                       (insert_dist_row dist signing db)) (\<lambda>db.
           and_then (insert_architectures (dd_name dist) (dd_built_generation dist) (dd_architectures dist) db) (\<lambda>db.
             Inr (advanceGenerationTx (dd_built_generation dist) db))))"

definition AddDist :: "unit result \<Rightarrow> Dist \<Rightarrow> database \<Rightarrow> database \<times> unit result" where
  "AddDist ckpt dist db =
     (if dd_name dist = '''' \<or> dd_format dist \<noteq> ''rpm'' \<and> dd_format dist \<noteq> ''deb''
      then (db, Inl (plain_error ''invalid dist state''))
      else case normalizeEffectiveSigningJSON (dd_signing dist) of
             Inl e \<Rightarrow> (db, Inl e)
           | Inr signing \<Rightarrow> commit ckpt (add_dist_tx dist signing) db)"

text \<open>\<open>DELETE FROM dists WHERE name = ?\<close> with the cascades the schema declares.\<close>

definition delete_dist :: "string \<Rightarrow> database \<Rightarrow> database" where
  "delete_dist name db =
     db\<lparr>db_dists := filter (\<lambda>d. di_name d \<noteq> name) (db_dists db),
        db_architectures := filter (\<lambda>a. da_dist a \<noteq> name) (db_architectures db),
        db_dist_signers := filter (\<lambda>s. ds_dist s \<noteq> name) (db_dist_signers db),
        db_memberships := filter (\<lambda>m. me_dist m \<noteq> name) (db_memberships db),
        db_built := filter (\<lambda>m. bm_dist m \<noteq> name) (db_built db),
        db_prior_built := filter (\<lambda>m. bm_dist m \<noteq> name) (db_prior_built db)\<rparr>"

definition RemoveDist :: "unit result \<Rightarrow> string \<Rightarrow> database \<Rightarrow> database \<times> unit result" where
  "RemoveDist ckpt name db =
     commit ckpt (\<lambda>db. if find_dist db name = None then Inl (GoError [ErrNotFound] ''dist'')
                       else Inr (delete_dist name db)) db"

definition CountsForDist :: "string \<Rightarrow> database \<Rightarrow> (nat \<times> nat) result" where
  "CountsForDist name db =
     (if find_dist db name = None then Inl (GoError [ErrNotFound] ''dist'')
      else Inr (length (filter (\<lambda>m. me_dist m = name) (db_memberships db)),
                length (filter (\<lambda>m. bm_dist m = name) (db_built db))))"

definition insertDistTx :: "Dist \<Rightarrow> database \<Rightarrow> database result" where
  "insertDistTx dist db =
     (if dd_name dist = '''' \<or> dd_format dist \<noteq> ''rpm'' \<and> dd_format dist \<noteq> ''deb''
      then Inl (plain_error ''invalid dist state'')
      else and_then (normalizeEffectiveSigningJSON (dd_signing dist)) (\<lambda>signing.
           case find_dist db (dd_name dist) of
             Some d \<Rightarrow>
               (if di_format d = dd_format dist \<and> di_effective_config d = dd_config dist
                   \<and> di_built_generation d = dd_built_generation dist \<and> di_signing d = signing
                then Inr db else Inl (GoError [ErrExists] ''dist exists with different state''))
           | None \<Rightarrow>
               and_then (replaceDistMetadataSignerTx (dd_name dist) (dd_fingerprint dist) (dd_public_key dist)
                           (insert_dist_row dist signing db)) (\<lambda>db.
               insert_architectures (dd_name dist) (dd_built_generation dist) (dd_architectures dist) db)))"

subsection \<open>Finalising operations\<close>

text \<open>What every finalisation does with the state of its operation before anything else.\<close>

definition finalize_from ::
  "OperationState \<Rightarrow> string \<Rightarrow> string \<Rightarrow> (database \<Rightarrow> database result) \<Rightarrow> database \<Rightarrow> database result" where
  "finalize_from required text operationID body db =
     and_then (operationStateTx operationID db) (\<lambda>state.
       if state = OperationDone then Inr db
       else if state \<noteq> required then Inl (GoError [ErrTransition] text)
       else body db)"

text \<open>A finalisation of an operation that is done already returns before it commits, so it reports no
  maintenance failure either.\<close>

definition commit_finalize :: "unit result \<Rightarrow> string \<Rightarrow> (database \<Rightarrow> database result) \<Rightarrow> database \<Rightarrow> database \<times> unit result" where
  "commit_finalize ckpt operationID body db =
     (if operationStateTx operationID db = Inr OperationDone then (db, Inr ()) else commit ckpt body db)"

record DistBuild =
  bu_name :: string
  bu_format :: string
  bu_config :: string
  bu_architectures :: "Architecture list"
  bu_fingerprint :: string
  bu_public_key :: string
  bu_signer_identity :: string
  bu_signing :: string

record FinalizeBuildInput =
  fb_operation :: string
  fb_generation :: GenerationID
  fb_dists :: "DistBuild list"
  fb_pooled :: "string list"
  fb_keys :: "RPMSigningKey list"
  fb_manifest :: "GenerationFile list"
  fb_changes :: "FileChange list"
  fb_renderer :: string

text \<open>The projection of one dist moves: the built packages become the prior ones, the desired ones the built.\<close>

definition rotate_memberships :: "GenerationID \<Rightarrow> string \<Rightarrow> database \<Rightarrow> database" where
  "rotate_memberships generation name db =
     db\<lparr>db_prior_built := filter (\<lambda>m. bm_dist m \<noteq> name) (db_prior_built db)
          @ filter (\<lambda>m. bm_dist m = name) (db_built db),
        db_built := filter (\<lambda>m. bm_dist m \<noteq> name) (db_built db)
          @ map (\<lambda>m. \<lparr>bm_dist = me_dist m, bm_package = me_package m, bm_generation = generation\<rparr>)
              (filter (\<lambda>m. me_dist m = name) (db_memberships db))\<rparr>"

definition build_dist ::
  "GenerationID \<Rightarrow> string list \<times> database \<Rightarrow> DistBuild \<Rightarrow> (string list \<times> database) result" where
  "build_dist generation s dist =
     (case s of (seen, db) \<Rightarrow>
        if bu_name dist = '''' \<or> bu_config dist = '''' then Inl (plain_error ''invalid built dist projection'')
        else if bu_name dist \<in> set seen then Inl (plain_error ''duplicate built dist'')
        else and_then (normalizeEffectiveSigningJSON (bu_signing dist)) (\<lambda>signing.
             let db = rotate_memberships generation (bu_name dist) db;
                 db = db\<lparr>db_dists := map (\<lambda>d. if di_name d = bu_name dist
                     then d\<lparr>di_effective_config := bu_config dist, di_built_config := bu_config dist,
                            di_built_generation := generation, di_signing := signing\<rparr> else d) (db_dists db)\<rparr>
             in and_then (replaceDistMetadataSignerTx (bu_name dist) (bu_fingerprint dist) (bu_public_key dist) db) (\<lambda>db.
                and_then (replaceDistArchitecturesTx (bu_name dist) (bu_architectures dist) generation db) (\<lambda>db.
                and_then (insertGenerationDistViewSignersTx generation (bu_name dist) (bu_format dist)
                            (bu_architectures dist) (bu_fingerprint dist) (bu_public_key dist) (bu_signer_identity dist) db) (\<lambda>db.
                Inr (bu_name dist # seen, db))))))"

definition pool_object :: "database \<Rightarrow> string \<Rightarrow> database result" where
  "pool_object db digest =
     (if \<not> validSHA256Text digest then Inl (plain_error ''invalid pooled sha256'')
      else Inr (db\<lparr>db_objects := map (\<lambda>b. if ob_sha256 b = digest then b\<lparr>ob_storage := ''pool''\<rparr> else b) (db_objects db)\<rparr>))"

definition set_built_generation :: "GenerationID \<Rightarrow> database \<Rightarrow> database" where
  "set_built_generation g db = db\<lparr>db_repository := (db_repository db)\<lparr>rs_built_generation := g\<rparr>\<rparr>"

definition finalize_build_body :: "string \<Rightarrow> RPMSigningKey list \<Rightarrow> FinalizeBuildInput \<Rightarrow> database \<Rightarrow> database result" where
  "finalize_build_body now keys input db =
     and_then (retainRPMSigningKeysTx keys db) (\<lambda>db.
     and_then (recordGenerationTx now (fb_operation input) (fb_generation input) (fb_manifest input)
                 (fb_changes input) (fb_renderer input) db) (\<lambda>db.
     and_then (generationInfoTx db (fb_generation input)) (\<lambda>info.
     and_then (for_each (build_dist (fb_generation input)) ([], db) (fb_dists input)) (\<lambda>(seenDists, db).
     and_then (carryGenerationViewSignersTx (gi_previous info) (fb_generation input) seenDists db) (\<lambda>db.
     and_then (validateGenerationViewSignerCoverage db (fb_generation input) (fb_manifest input)) (\<lambda>_.
     and_then (for_each pool_object db (fb_pooled input)) (\<lambda>db.
       setOperationStateTx now (fb_operation input) OperationDone '''' ''''
         (set_built_generation (fb_generation input) (set_status db)))))))))"

definition FinalizeBuild :: "unit result \<Rightarrow> string \<Rightarrow> FinalizeBuildInput \<Rightarrow> database \<Rightarrow> database \<times> unit result" where
  "FinalizeBuild ckpt now input db =
     (if fb_generation input < 1 \<or> fb_dists input = [] then (db, Inl (plain_error ''invalid build finalization''))
      else case normalizeRPMSigningKeys (fb_keys input) of
             Inl e \<Rightarrow> (db, Inl e)
           | Inr keys \<Rightarrow>
               commit_finalize ckpt (fb_operation input) (finalize_from OperationBuilt ''finalize build'' (fb_operation input)
                 (finalize_build_body now keys input)) db)"

definition FinalizeNoopBuild :: "unit result \<Rightarrow> string \<Rightarrow> string \<Rightarrow> database \<Rightarrow> database \<times> unit result" where
  "FinalizeNoopBuild ckpt now operationID db =
     commit_finalize ckpt operationID (finalize_from OperationApplied ''finalize no-op build'' operationID
       (\<lambda>db. setOperationStateTx now operationID OperationDone '''' '''' (set_status db))) db"

definition finalize_dist_add_body ::
  "string \<Rightarrow> string \<Rightarrow> Dist \<Rightarrow> GenerationFile list \<Rightarrow> FileChange list \<Rightarrow> database \<Rightarrow> database result" where
  "finalize_dist_add_body now operationID dist manifest changes db =
     and_then (recordGenerationTx now operationID (dd_built_generation dist) manifest changes '''' db) (\<lambda>db.
     and_then (generationInfoTx db (dd_built_generation dist)) (\<lambda>info.
     and_then (insertDistTx dist db) (\<lambda>db.
     and_then (carryGenerationViewSignersTx (gi_previous info) (dd_built_generation dist) [dd_name dist] db) (\<lambda>db.
     and_then (insertGenerationDistViewSignersTx (dd_built_generation dist) (dd_name dist) (dd_format dist)
                 (dd_architectures dist) (dd_fingerprint dist) (dd_public_key dist) '''' db) (\<lambda>db.
     and_then (validateGenerationViewSignerCoverage db (dd_built_generation dist) manifest) (\<lambda>_.
       setOperationStateTx now operationID OperationDone '''' '''' (advanceGenerationTx (dd_built_generation dist) db)))))))"

definition FinalizeDistAdd ::
  "unit result \<Rightarrow> string \<Rightarrow> string \<Rightarrow> Dist \<Rightarrow> GenerationFile list \<Rightarrow> FileChange list \<Rightarrow> database \<Rightarrow> database \<times> unit result" where
  "FinalizeDistAdd ckpt now operationID dist manifest changes db =
     commit_finalize ckpt operationID (finalize_from OperationBuilt ''finalize dist add'' operationID
       (finalize_dist_add_body now operationID dist manifest changes)) db"

end
