(* ===== verification/Ledger_Invariant.thy ===== *)
theory Ledger_Invariant
  imports Dist_State
begin

section \<open>Finalisation keeps the ledger valid\<close>

text \<open>
  The validator of the ledger accepts a database after a finalisation when it accepted it before.
  The proof reduces a finalisation to what it does to the rows the validator reads: it appends one
  generation with its files and changes, appends signer rows of that generation only, closes the
  operation and moves the built generation.
\<close>

subsection \<open>The rows the validator reads\<close>

definition ledger_rows where
  "ledger_rows db = (db_repository db, db_operations db, db_operation_files db, db_generations db, db_generation_files db)"

text \<open>What the schema and the writers of these rows guarantee beyond what the validator checks.\<close>

definition ledger_wf :: "database \<Rightarrow> bool" where
  "ledger_wf db \<longleftrightarrow>
     distinct (map gi_generation (db_generations db)) \<and> distinct (map op_id (db_operations db))
     \<and> list_all (\<lambda>r. fst r \<in> set (map gi_generation (db_generations db))) (db_generation_files db)
     \<and> list_all (\<lambda>r. vs_generation r \<in> set (map gi_generation (db_generations db))) (db_view_signers db)
     \<and> list_all (\<lambda>r. of_operation r \<in> set (map gi_operation (db_generations db))) (db_operation_files db)
     \<and> list_all (\<lambda>r. gi_generation r \<noteq> 0) (db_generations db)
     \<and> (db_generations db = [] \<longrightarrow> null_string (rs_transition_receipt (db_repository db)) = '''')"

text \<open>Appending signers of one generation, none of them unverified, and nothing else.\<close>

definition signers_grow :: "GenerationID \<Rightarrow> database \<Rightarrow> database \<Rightarrow> bool" where
  "signers_grow g db db' \<longleftrightarrow> ledger_rows db' = ledger_rows db
     \<and> (\<exists>new. db_view_signers db' = db_view_signers db @ new
        \<and> list_all (\<lambda>r. vs_generation r = g \<and> vs_identity r \<noteq> GenerationSignerUnverified) new)"

lemma signers_grow_refl: "ledger_rows db' = ledger_rows db \<Longrightarrow> db_view_signers db' = db_view_signers db \<Longrightarrow> signers_grow g db db'"
  by (simp add: signers_grow_def)

lemma signers_grow_trans: "signers_grow g a b \<Longrightarrow> signers_grow g b c \<Longrightarrow> signers_grow g a c"
  unfolding signers_grow_def by force

lemma insert_view_signer_grow:
  "insert_view_signer db row = Inr db' \<Longrightarrow> vs_identity row \<noteq> GenerationSignerUnverified \<Longrightarrow>
   signers_grow (vs_generation row) db db'"
  by (auto simp: insert_view_signer_def signers_grow_def ledger_rows_def split: if_splits)

lemma for_each_grow:
  assumes "for_each f s xs = Inr s'"
    and "\<And>s x s'. x \<in> set xs \<Longrightarrow> f s x = Inr s' \<Longrightarrow> signers_grow g (pr s) (pr s')"
  shows "signers_grow g (pr s) (pr s')"
  by (rule for_each_invariant[where P = "\<lambda>t. signers_grow g (pr s) (pr t)", OF assms(1)])
    (auto intro: signers_grow_refl signers_grow_trans dest: assms(2))

lemma sha256_hex_not_unverified: "sha256_hex s \<noteq> GenerationSignerUnverified"
proof
  assume "sha256_hex s = GenerationSignerUnverified"
  with validSHA256Text_sha256_hex[of s] show False
    by (simp add: validSHA256Text_def GenerationSignerUnverified_def)
qed

lemma generationSignerIdentity_verified:
  "generationSignerIdentity fingerprint key claimed = Inr (identity, trusted) \<Longrightarrow> identity \<noteq> GenerationSignerUnverified"
  using sha256_hex_not_unverified[of key]
  by (auto simp: generationSignerIdentity_def Let_def GenerationSignerUnverified_def split: if_splits)

lemma insertGenerationDistViewSigners_grow:
  assumes "insertGenerationDistViewSignersTx g name format archs fp key claimed db = Inr db'"
  shows "signers_grow g db db'"
proof (cases "format = ''rpm''")
  case True
  with assms obtain identity trusted where i: "generationSignerIdentity fp key claimed = Inr (identity, trusted)"
    and loop: "for_each (\<lambda>db architecture.
             let viewID = path_Join [''dists'', name, ar_family architecture]
             in and_then (generationSignerViewDist viewID) (\<lambda>_.
                insert_view_signer db \<lparr>vs_generation = g, vs_view = viewID,
                  vs_identity = identity, vs_public_key = trusted\<rparr>)) db archs = Inr db'"
    by (auto simp: insertGenerationDistViewSignersTx_def and_then_Inr_iff)
  note verified = generationSignerIdentity_verified[OF i]
  show ?thesis
    by (rule for_each_grow[where pr = id, OF loop, simplified])
      (use verified insert_view_signer_grow in \<open>fastforce simp: Let_def and_then_Inr_iff\<close>)
next
  case False
  with assms show ?thesis by (auto simp: insertGenerationDistViewSignersTx_def intro: signers_grow_refl)
qed

lemma carry_rows:
  assumes "for_each (\<lambda>carried row.
               and_then (generationSignerViewDist (vs_view row)) (\<lambda>dist.
                 Inr (if dist \<in> set replaced then carried else carried @ [row]))) acc rows = Inr carried"
  shows "set carried \<subseteq> set acc \<union> set rows"
  using assms
proof (induction rows arbitrary: acc)
  case (Cons r rows)
  then obtain acc' where "for_each (\<lambda>carried row.
               and_then (generationSignerViewDist (vs_view row)) (\<lambda>dist.
                 Inr (if dist \<in> set replaced then carried else carried @ [row]))) acc' rows = Inr carried"
      "set acc' \<subseteq> insert r (set acc)"
    by (auto simp: and_then_Inr_iff split: if_splits)
  with Cons.IH show ?case by fastforce
qed simp

lemma carryGenerationViewSigners_grow:
  assumes "carryGenerationViewSignersTx base target replaced db = Inr db'"
  shows "signers_grow target db db'"
proof (cases "base = 0")
  case False
  with assms obtain carried where verified: "requireVerifiedGenerationSigners db base = Inr ()"
    and rows: "for_each (\<lambda>carried row.
               and_then (generationSignerViewDist (vs_view row)) (\<lambda>dist.
                 Inr (if dist \<in> set replaced then carried else carried @ [row]))) [] (signers_of db base) = Inr carried"
    and loop: "for_each (\<lambda>db row. insert_view_signer db (row\<lparr>vs_generation := target,
               vs_public_key := (if vs_identity row = ''none'' then None else vs_public_key row)\<rparr>)) db carried = Inr db'"
    by (auto simp: carryGenerationViewSignersTx_def and_then_Inr_iff)
  have "vs_identity r \<noteq> GenerationSignerUnverified" if "r \<in> set carried" for r
    using carry_rows[OF rows] that verified
    by (auto simp: signers_of_def requireVerifiedGenerationSigners_def list_ex_iff)
  then have step: "signers_grow target s s'"
    if "r \<in> set carried" "insert_view_signer s (r\<lparr>vs_generation := target,
        vs_public_key := (if vs_identity r = ''none'' then None else vs_public_key r)\<rparr>) = Inr s'" for r s s'
    using insert_view_signer_grow[OF that(2)] that(1) by simp
  show ?thesis
    by (rule for_each_grow[where pr = id, OF loop, simplified]) (rule step)
qed (use assms in \<open>auto simp: carryGenerationViewSignersTx_def intro: signers_grow_refl\<close>)

lemma insert_architectures_grow:
  assumes "insert_architectures name gen archs db = Inr db'"
  shows "signers_grow g db db'"
proof -
  from assms obtain seen where loop: "for_each (insert_architecture name gen) ([], db) archs = Inr (seen, db')"
    by (auto simp: insert_architectures_def and_then_Inr_iff)
  show ?thesis
    by (rule for_each_grow[where pr = snd, OF loop, simplified])
      (auto simp: insert_architecture_def signers_grow_def ledger_rows_def split: if_splits)
qed

lemma replaceDistArchitectures_grow:
  assumes "replaceDistArchitecturesTx name archs gen db = Inr db'"
  shows "signers_grow g db db'"
  using insert_architectures_grow[OF assms[unfolded replaceDistArchitecturesTx_def], of g]
  by (simp add: signers_grow_def ledger_rows_def)

lemma replaceDistMetadataSigner_grow:
  "replaceDistMetadataSignerTx name fp key db = Inr db' \<Longrightarrow> signers_grow g db db'"
  by (auto simp: replaceDistMetadataSignerTx_def Let_def signers_grow_def ledger_rows_def split: if_splits)

lemma build_dist_grow:
  assumes "build_dist g s dist = Inr s'"
  shows "signers_grow g (snd s) (snd s')"
proof -
  obtain seen db where s: "s = (seen, db)" by (cases s)
  from assms obtain signing db1 db2 db3 where
    a: "replaceDistMetadataSignerTx (bu_name dist) (bu_fingerprint dist) (bu_public_key dist)
      ((rotate_memberships g (bu_name dist) db)\<lparr>db_dists := map (\<lambda>d. if di_name d = bu_name dist
          then d\<lparr>di_effective_config := bu_config dist, di_built_config := bu_config dist,
                 di_built_generation := g, di_signing := signing\<rparr> else d) (db_dists (rotate_memberships g (bu_name dist) db))\<rparr>) = Inr db1"
    and b: "replaceDistArchitecturesTx (bu_name dist) (bu_architectures dist) g db1 = Inr db2"
    and c: "insertGenerationDistViewSignersTx g (bu_name dist) (bu_format dist)
        (bu_architectures dist) (bu_fingerprint dist) (bu_public_key dist) (bu_signer_identity dist) db2 = Inr db3"
    and s': "snd s' = db3"
    by (auto simp: build_dist_def s Let_def and_then_Inr_iff split: if_splits)
  have "signers_grow g db db1"
    using replaceDistMetadataSigner_grow[OF a, of g]
    by (simp add: signers_grow_def ledger_rows_def rotate_memberships_def)
  then show ?thesis
    using replaceDistArchitectures_grow[OF b, of g] insertGenerationDistViewSigners_grow[OF c] s s'
    by (auto intro: signers_grow_trans)
qed

lemma retainRPMSigningKeys_rows:
  assumes "retainRPMSigningKeysTx keys db = Inr db'"
  shows "ledger_rows db' = ledger_rows db \<and> db_view_signers db' = db_view_signers db"
  by (rule for_each_invariant[OF assms[unfolded retainRPMSigningKeysTx_def]])
    (auto simp: retain_key_def ledger_rows_def split: if_splits)

lemma pool_objects_grow: "for_each pool_object db digests = Inr db' \<Longrightarrow> signers_grow g db db'"
  by (drule for_each_grow[where pr = id and g = g])
    (auto simp: pool_object_def signers_grow_def ledger_rows_def split: if_splits)

lemma insertDist_grow:
  assumes "insertDistTx dist db = Inr db'"
  shows "signers_grow g db db'"
proof -
  from assms consider "db' = db" | signing db1 where
      "replaceDistMetadataSignerTx (dd_name dist) (dd_fingerprint dist) (dd_public_key dist) (insert_dist_row dist signing db) = Inr db1"
      "insert_architectures (dd_name dist) (dd_built_generation dist) (dd_architectures dist) db1 = Inr db'"
    by (auto simp: insertDistTx_def and_then_Inr_iff split: if_splits option.splits)
  then show ?thesis
  proof cases
    case 2
    from 2(1) have "signers_grow g db db1"
      using replaceDistMetadataSigner_grow[of _ _ _ "insert_dist_row dist signing db" db1 g]
      by (simp add: signers_grow_def ledger_rows_def insert_dist_row_def)
    with insert_architectures_grow[OF 2(2), of g] show ?thesis by (rule signers_grow_trans[rotated])
  qed (simp add: signers_grow_refl)
qed

subsection \<open>Recording a generation\<close>

lemma insert_generation_file_Inr:
  "insert_generation_file g db f = Inr db1 \<Longrightarrow> db1 = db\<lparr>db_generation_files := db_generation_files db @ [(g, f)]\<rparr>"
  by (auto simp: insert_generation_file_def split: if_splits)

lemma insert_files_Inr:
  "insertGenerationFilesTx g files db = Inr db' \<Longrightarrow>
   db' = db\<lparr>db_generation_files := db_generation_files db @ map (Pair g) files\<rparr>"
  unfolding insertGenerationFilesTx_def
proof (induction files arbitrary: db)
  case (Cons f files)
  then obtain db1 where "insert_generation_file g db f = Inr db1" "for_each (insert_generation_file g) db1 files = Inr db'"
    by (auto simp: and_then_Inr_iff)
  with Cons.IH[of db1] insert_generation_file_Inr[of g db f db1] show ?case by simp
qed simp

definition change_rows :: "string \<Rightarrow> nat \<Rightarrow> FileChange list \<Rightarrow> operation_file list" where
  "change_rows i n changes =
     map (\<lambda>(k, c). \<lparr>of_operation = i, of_sequence = k, of_change = stored_change c\<rparr>) (enumerate n changes)"

lemma insert_operation_file_Inr:
  "insert_operation_file i db (n, c) = Inr db1 \<Longrightarrow>
   db1 = db\<lparr>db_operation_files := db_operation_files db @ [\<lparr>of_operation = i, of_sequence = n, of_change = stored_change c\<rparr>]\<rparr>"
  by (auto simp: insert_operation_file_def split: if_splits)

lemma insert_changes_Inr:
  "for_each (insert_operation_file i) db (enumerate n changes) = Inr db' \<Longrightarrow>
   db' = db\<lparr>db_operation_files := db_operation_files db @ change_rows i n changes\<rparr>"
proof (induction changes arbitrary: db n)
  case (Cons c changes)
  then obtain db1 where "insert_operation_file i db (n, c) = Inr db1"
      "for_each (insert_operation_file i) db1 (enumerate (Suc n) changes) = Inr db'"
    by (auto simp: and_then_Inr_iff)
  with Cons.IH[of db1 "Suc n"] insert_operation_file_Inr[of i db n c db1] show ?case
    by (simp add: change_rows_def)
qed (simp add: change_rows_def)

lemma sorted_change_rows: "sorted (map of_sequence (change_rows i n changes))"
  by (induction changes arbitrary: n) (force simp: change_rows_def in_set_enumerate_eq)+

lemma change_rows_back:
  "map of_change (change_rows i n changes) = map stored_change changes"
  by (induction changes arbitrary: n) (simp_all add: change_rows_def)

lemma change_rows_operation: "r \<in> set (change_rows i n changes) \<Longrightarrow> of_operation r = i"
  by (auto simp: change_rows_def)

lemma stored_DiffManifests: "map stored_change (DiffManifests base target) = DiffManifests base target"
proof -
  have t: "stored_change c = c" if "c \<in> set (target_change b t p)" for b t p c
    using that by (auto simp: stored_change_def target_change_def change_of_def split: option.splits if_splits)
  have d: "stored_change c = c" if "c \<in> set (base_change t p)" for t p c
    using that by (auto simp: stored_change_def base_change_def delete_of_def split: if_splits)
  have "stored_change c = c" if "c \<in> set (DiffManifests base target)" for c
    using that t d by (auto simp: DiffManifests_def diff_in_order_def)
  then show ?thesis by (simp add: map_idI)
qed

lemma recordGenerationTx_Inr:
  assumes "recordGenerationTx now i g input changes renderer db = Inr db'"
  obtains base manifest info where
    "normalizeManifest input = Inr (manifest, gi_manifest info)" "validateChanges changes = Inr ()"
    "GenerationNext (rs_built_generation (db_repository db)) = Inr g"
    "generationManifestTx db (rs_built_generation (db_repository db)) = Inr base"
    "changes = DiffManifests base manifest" "find_operation db i \<noteq> None" "g \<noteq> 0"
    "gi_generation info = g" "gi_previous info = rs_built_generation (db_repository db)" "gi_operation info = i"
    "db' = db\<lparr>db_generations := db_generations db @ [info],
       db_generation_files := db_generation_files db @ map (Pair g) manifest,
       db_operation_files := db_operation_files db @ change_rows i 0 changes\<rparr>"
proof -
  let ?prev = "rs_built_generation (db_repository db)"
  from assms obtain manifest digest base db1 db2 where
    n: "normalizeManifest input = Inr (manifest, digest)" and v: "validateChanges changes = Inr ()"
    and nx: "GenerationNext ?prev = Inr g" and b: "generationManifestTx db ?prev = Inr base"
    and ch: "changes = DiffManifests base manifest"
    and ins: "insert_generation \<lparr>gi_generation = g, gi_previous = ?prev, gi_operation = i, gi_manifest = digest,
        gi_renderer = (if renderer \<noteq> '''' then renderer else DefaultRendererIdentity), gi_created_at = now\<rparr> db = Inr db1"
    and fs: "insertGenerationFilesTx g manifest db1 = Inr db2"
    and cs: "insertOperationFilesTx i changes db2 = Inr db'"
    by (auto simp: recordGenerationTx_def Let_def and_then_Inr_iff split: if_splits)
  show thesis
    by (rule that[where info = "\<lparr>gi_generation = g, gi_previous = ?prev, gi_operation = i, gi_manifest = digest,
        gi_renderer = (if renderer \<noteq> '''' then renderer else DefaultRendererIdentity), gi_created_at = now\<rparr>"])
      (use n v nx b ch ins insert_files_Inr[OF fs] insert_changes_Inr[OF cs[unfolded insertOperationFilesTx_def]] in
        \<open>auto simp: insert_generation_def split: if_splits\<close>)
qed

subsection \<open>Signing of a manifest's RPM views\<close>

definition view_files :: "string \<Rightarrow> GenerationFile list \<Rightarrow> string set" where
  "view_files name fs = {view. \<exists>f d a. f \<in> set fs \<and> rpm_view_path name (gf_path f) = Some (view, d, a)}"

lemma map_of_set_view: "map_of (set_view v b views) w = (if w = v then Some b else map_of views w)"
  by (induction views) auto

lemma set_view_keys: "fst ` set (set_view v b views) = insert v (fst ` set views)"
proof (induction views)
  case (Cons w views)
  then show ?case by (cases w) (simp add: insert_commute)
qed simp

lemma distinct_set_view: "distinct (map fst views) \<Longrightarrow> distinct (map fst (set_view v b views))"
proof (induction views)
  case (Cons w views)
  then show ?case using set_view_keys[of v b views] by (cases w) auto
qed simp

definition repomd_ok :: "GenerationFile \<Rightarrow> bool" where
  "repomd_ok f = (case rpm_view_path ''repomd.xml'' (gf_path f) of None \<Rightarrow> True
     | Some (_, dist, family) \<Rightarrow> gf_phase f = ''pointer'' \<and> dist \<noteq> '''' \<and> family \<noteq> '''')"

lemma repomd_loop:
  "(\<exists>views. for_each repomd_step acc fs = Inr views) = list_all repomd_ok fs
   \<and> (for_each repomd_step acc fs = Inr views \<longrightarrow> distinct (map fst acc) \<longrightarrow>
       distinct (map fst views) \<and>
       (\<forall>v. map_of views v = (if v \<in> view_files ''repomd.xml'' fs then Some False else map_of acc v)))"
proof (induction fs arbitrary: acc)
  case (Cons f fs)
  show ?case
  proof (cases "repomd_step acc f")
    case (Inl e)
    then have "\<not> repomd_ok f" by (auto simp: repomd_step_def repomd_ok_def split: option.splits if_splits)
    with Inl show ?thesis by simp
  next
    case (Inr acc')
    then have ok: "repomd_ok f" by (auto simp: repomd_step_def repomd_ok_def split: option.splits if_splits)
    have acc': "acc' = (case rpm_view_path ''repomd.xml'' (gf_path f) of None \<Rightarrow> acc | Some (v, _, _) \<Rightarrow> set_view v False acc)"
      using Inr by (auto simp: repomd_step_def split: option.splits if_splits)
    have d: "distinct (map fst acc')" if "distinct (map fst acc)"
      using that acc' by (auto split: option.splits intro: distinct_set_view)
    have m: "map_of acc' v = (if \<exists>d a. rpm_view_path ''repomd.xml'' (gf_path f) = Some (v, d, a) then Some False else map_of acc v)" for v
      using acc' by (auto simp: map_of_set_view split: option.splits)
    have vf: "v \<in> view_files ''repomd.xml'' (f # fs) \<longleftrightarrow>
        v \<in> view_files ''repomd.xml'' fs \<or> (\<exists>d a. rpm_view_path ''repomd.xml'' (gf_path f) = Some (v, d, a))" for v
      by (auto simp: view_files_def)
    show ?thesis using Cons.IH[of acc'] Inr ok d m by (auto simp: vf)
  qed
qed (auto simp: view_files_def)

lemma signature_loop:
  assumes "distinct (map fst acc)"
  shows "(\<exists>views. for_each signature_step acc fs = Inr views) = (view_files ''repomd.xml.asc'' fs \<subseteq> dom (map_of acc))
   \<and> (for_each signature_step acc fs = Inr views \<longrightarrow>
       distinct (map fst views) \<and>
       (\<forall>v. map_of views v = (if v \<in> view_files ''repomd.xml.asc'' fs then Some True else map_of acc v)))"
  using assms
proof (induction fs arbitrary: acc)
  case (Cons f fs)
  have vf: "view_files ''repomd.xml.asc'' (f # fs) =
      view_files ''repomd.xml.asc'' fs \<union> {v. \<exists>d a. rpm_view_path ''repomd.xml.asc'' (gf_path f) = Some (v, d, a)}"
    by (auto simp: view_files_def)
  show ?case
  proof (cases "signature_step acc f")
    case (Inl e)
    then have "\<exists>v. v \<in> view_files ''repomd.xml.asc'' (f # fs) \<and> v \<notin> dom (map_of acc)"
      unfolding vf by (auto simp: signature_step_def split: option.splits if_splits)
    with Inl show ?thesis by auto
  next
    case (Inr acc')
    then have acc': "acc' = (case rpm_view_path ''repomd.xml.asc'' (gf_path f) of None \<Rightarrow> acc | Some (v, _, _) \<Rightarrow> set_view v True acc)"
      by (auto simp: signature_step_def split: option.splits if_splits)
    have old: "v \<in> dom (map_of acc)" if "rpm_view_path ''repomd.xml.asc'' (gf_path f) = Some (v, d, a)" for v d a
      using Inr that by (auto simp: signature_step_def split: if_splits)
    have d: "distinct (map fst acc')"
      using Cons.prems acc' by (auto split: option.splits intro: distinct_set_view)
    have m: "map_of acc' v = (if \<exists>d a. rpm_view_path ''repomd.xml.asc'' (gf_path f) = Some (v, d, a) then Some True else map_of acc v)" for v
      using acc' by (auto simp: map_of_set_view split: option.splits)
    then have dom: "dom (map_of acc') = dom (map_of acc)"
      using old by (auto simp: dom_def split: if_splits)
    show ?thesis using Cons.IH[OF d] Inr m old unfolding dom vf by (auto split: if_splits)
  qed
qed (auto simp: view_files_def)

lemma rpmGenerationViewSigning_perm:
  assumes "rpmGenerationViewSigning xs = Inr v" and "set ys = set xs"
  obtains w where "rpmGenerationViewSigning ys = Inr w" "map_of w = map_of v" "sort (map fst w) = sort (map fst v)"
proof -
  have vf: "view_files n ys = view_files n xs" for n by (simp add: view_files_def assms(2))
  from assms(1) obtain a where a: "for_each repomd_step [] xs = Inr a" "for_each signature_step a xs = Inr v"
    by (auto simp: rpmGenerationViewSigning_def and_then_Inr_iff)
  have "list_all repomd_ok ys" using repomd_loop[of "[]" xs a] a(1) assms(2) by (auto simp: list_all_iff)
  then obtain b where b: "for_each repomd_step [] ys = Inr b" using repomd_loop[of "[]" ys] by blast
  have ab: "map_of b = map_of a" "distinct (map fst a)" "distinct (map fst b)"
    using repomd_loop[of "[]" xs a] repomd_loop[of "[]" ys b] a(1) b by (auto simp: vf fun_eq_iff)
  have "view_files ''repomd.xml.asc'' xs \<subseteq> dom (map_of a)" using signature_loop[OF ab(2), of xs] a(2) by blast
  then have "\<exists>w. for_each signature_step b ys = Inr w"
    using signature_loop[OF ab(3), of ys] by (simp add: vf ab(1))
  then obtain w where w: "for_each signature_step b ys = Inr w" ..
  have vw: "map_of w = map_of v" "distinct (map fst v)" "distinct (map fst w)"
    using signature_loop[OF ab(2), of xs v] signature_loop[OF ab(3), of ys w] a(2) w by (auto simp: vf fun_eq_iff ab(1))
  have "set (map fst w) = set (map fst v)" using vw(1) dom_map_of_conv_image_fst[of w] dom_map_of_conv_image_fst[of v] by simp
  then have "mset (map fst w) = mset (map fst v)" by (rule iffD1[OF set_eq_iff_mset_eq_distinct[OF vw(3,2)]])
  then have "sort (map fst w) = sort (map fst v)" by (intro properties_for_sort) simp_all
  with that[of w] vw(1) b w show thesis by (simp add: rpmGenerationViewSigning_def)
qed

lemma signer_row_ok_cong: "map_of w = map_of v \<Longrightarrow> signer_row_ok w = signer_row_ok v"
  by (simp add: signer_row_ok_def fun_eq_iff)

lemma coverage_perm:
  assumes "validateGenerationViewSignerCoverage db g xs = Inr ()" and "set ys = set xs"
    and "signers_of db' g = signers_of db g"
  shows "validateGenerationViewSignerCoverage db' g ys = Inr ()"
proof -
  from assms(1) obtain v where v: "rpmGenerationViewSigning xs = Inr v"
    by (auto simp: validateGenerationViewSignerCoverage_def and_then_Inr_iff)
  obtain w where w: "rpmGenerationViewSigning ys = Inr w" "map_of w = map_of v" "sort (map fst w) = sort (map fst v)"
    by (rule rpmGenerationViewSigning_perm[OF v assms(2)])
  show ?thesis
    using assms(1) v w(1,3) signer_row_ok_cong[OF w(2)]
    by (simp add: validateGenerationViewSignerCoverage_def assms(3))
qed

subsection \<open>The fold of the validator\<close>

lemma for_each_mono:
  assumes "for_each f s xs = Inr t" and "Q s"
    and "\<And>s x s'. x \<in> set xs \<Longrightarrow> Q s \<Longrightarrow> f s x = Inr s' \<Longrightarrow> f' s x = Inr s' \<and> Q s'"
  shows "for_each f' s xs = Inr t \<and> Q t"
  using assms
proof (induction xs arbitrary: s)
  case (Cons x xs)
  from Cons.prems(1) obtain u where u: "f s x = Inr u" "for_each f u xs = Inr t" by (auto simp: and_then_Inr_iff)
  then have "f' s x = Inr u" "Q u" using Cons.prems(2) Cons.prems(3)[of x s u] by simp_all
  moreover have "for_each f' u xs = Inr t \<and> Q t"
    by (rule Cons.IH[OF u(2) \<open>Q u\<close>]) (auto dest: Cons.prems(3)[rotated])
  ultimately show ?case by simp
qed simp

lemma ledger_step_Inr:
  assumes "ledger_step db identity current ls info = Inr ls'"
  obtains operation layout where
    "ledger_link ls info = Inr ()" "find_operation db (gi_operation info) = Some operation" "op_state operation = OperationDone"
    "ledger_layout identity (ls_transition ls) (op_kind operation) = Inr (layout, ls_transition ls')"
    "ledger_contents db current layout (ls_manifest ls) info = Inr (ls_manifest ls')"
    "ls_previous ls' = gi_generation info" "ls_operations ls' = gi_operation info # ls_operations ls" "\<not> ls_first ls'"
  using assms by (auto simp: ledger_step_def and_then_Inr_iff split: option.splits if_splits)

lemma digest_case_Inr:
  "(case x of Inl _ \<Rightarrow> Inl e | Inr (n, d) \<Rightarrow> if d \<noteq> m then Inl e else Inr n) = Inr y \<longleftrightarrow> x = Inr (y, m)"
  by (auto split: sum.splits prod.splits if_splits)

lemma ledger_contents_Inr:
  "ledger_contents db current layout previous info = Inr manifest \<longleftrightarrow>
     (\<exists>fs. generationManifestOn db (gi_generation info) = Inr fs
        \<and> normalizeManifestForLayout fs layout = Inr (manifest, gi_manifest info))
     \<and> validateGenerationViewSignerCoverage db (gi_generation info) manifest = Inr ()
     \<and> (gi_generation info = current \<longrightarrow> requireVerifiedGenerationSigners db current = Inr ())
     \<and> generationChangesOn db (gi_generation info) = Inr (DiffManifests previous manifest)
     \<and> \<not> isl (validateChangesForLayout (DiffManifests previous manifest) layout)"
  unfolding ledger_contents_def and_then_Inr_iff digest_case_Inr by auto

lemma ledger_contents_files:
  assumes "ledger_contents db current layout previous info = Inr manifest" "gi_generation info \<noteq> 0"
  shows "manifest = files_of db (gi_generation info)"
proof -
  from assms obtain fs digest where "generationManifestOn db (gi_generation info) = Inr fs"
      "normalizeManifestForLayout fs layout = Inr (manifest, digest)"
    by (auto simp: ledger_contents_Inr)
  then have "manifest = sort_key gf_path (files_of db (gi_generation info))"
    using normalizeManifest_Inr(1) assms(2) by (fastforce simp: generationManifestOn_def split: if_splits)
  then show ?thesis by (simp add: files_of_def sort_key_id_if_sorted)
qed

lemma ledger_fold:
  assumes "for_each (ledger_step db identity current) ledger_start infos = Inr ls"
    and "list_all (\<lambda>r. gi_generation r \<noteq> 0) infos"
  shows "ls_previous ls = (if infos = [] then 0 else gi_generation (last infos))
    \<and> ls_manifest ls = (if infos = [] then [] else files_of db (gi_generation (last infos)))
    \<and> set (ls_operations ls) = gi_operation ` set infos \<and> ls_first ls = (infos = [])
    \<and> (\<forall>r \<in> set infos. \<exists>op. find_operation db (gi_operation r) = Some op \<and> op_state op = OperationDone)"
  using assms
proof (induction infos arbitrary: ls rule: rev_induct)
  case Nil
  then show ?case by (auto simp: ledger_start_def)
next
  case (snoc info infos)
  from snoc.prems(1) obtain u where u: "for_each (ledger_step db identity current) ledger_start infos = Inr u"
    and step: "ledger_step db identity current u info = Inr ls"
    by (auto simp: for_each_append and_then_Inr_iff)
  have nz: "gi_generation info \<noteq> 0" and "list_all (\<lambda>r. gi_generation r \<noteq> 0) infos" using snoc.prems(2) by simp_all
  note IH = snoc.IH[OF u this(2)]
  show ?case
    by (rule ledger_step_Inr[OF step]) (use IH ledger_contents_files[OF _ nz] in auto)
qed

subsection \<open>Extending the ledger by one generation\<close>

lemma find_snoc: "List.find P (xs @ [x]) = (case List.find P xs of None \<Rightarrow> if P x then Some x else None | Some y \<Rightarrow> Some y)"
  by (induction xs) auto

definition extends_ledger :: "database \<Rightarrow> database \<Rightarrow> GenerationInfo \<Rightarrow> GenerationFile list \<Rightarrow> FileChange list \<Rightarrow> bool" where
  "extends_ledger db db' info manifest changes \<longleftrightarrow>
     rs_built_generation (db_repository db') = gi_generation info
     \<and> distinct (map op_id (db_operations db'))
     \<and> (\<forall>j. j \<noteq> gi_operation info \<longrightarrow> find_operation db' j = find_operation db j)
     \<and> db_generations db' = db_generations db @ [info]
     \<and> db_generation_files db' = db_generation_files db @ map (Pair (gi_generation info)) manifest
     \<and> db_operation_files db' = db_operation_files db @ change_rows (gi_operation info) 0 changes
     \<and> (\<exists>new. db_view_signers db' = db_view_signers db @ new
        \<and> list_all (\<lambda>r. vs_generation r = gi_generation info \<and> vs_identity r \<noteq> GenerationSignerUnverified) new)"

lemma extends_ledger_wf:
  "ledger_wf db \<Longrightarrow> extends_ledger db db' info manifest changes \<Longrightarrow>
   gi_generation info \<notin> set (map gi_generation (db_generations db)) \<Longrightarrow> gi_generation info \<noteq> 0 \<Longrightarrow> ledger_wf db'"
  by (force simp: ledger_wf_def extends_ledger_def list_all_iff dest: change_rows_operation)

lemma extends_ledger_old:
  assumes "extends_ledger db db' info manifest changes" and "g \<noteq> gi_generation info"
  shows "files_of db' g = files_of db g" "signers_of db' g = signers_of db g" "find_generation db' g = find_generation db g"
    "generationManifestOn db' g = generationManifestOn db g"
proof -
  have eq: "filter (\<lambda>r. fst r = g) (map (Pair (gi_generation info)) manifest) = []"
    using assms(2) by (auto simp: filter_empty_conv)
  show f: "files_of db' g = files_of db g"
    using assms(1) eq by (simp add: extends_ledger_def files_of_def)
  from assms(1) obtain new where "db_view_signers db' = db_view_signers db @ new"
      "filter (\<lambda>r. vs_generation r = g) new = []"
    using assms(2) by (auto simp: extends_ledger_def list_all_iff filter_empty_conv)
  then show "signers_of db' g = signers_of db g" by (simp add: signers_of_def)
  show "find_generation db' g = find_generation db g"
    using assms by (simp add: extends_ledger_def find_generation_def find_snoc split: option.splits)
  with f show "generationManifestOn db' g = generationManifestOn db g" by (simp add: generationManifestOn_def)
qed

lemma extends_ledger_changes:
  assumes "extends_ledger db db' info manifest changes" "i \<noteq> gi_operation info"
  shows "generationChangesTx db' i = generationChangesTx db i"
proof -
  have "filter (\<lambda>r. of_operation r = i) (change_rows (gi_operation info) 0 changes) = []"
    using assms(2) by (auto simp: filter_empty_conv dest: change_rows_operation)
  with assms(1) show ?thesis by (simp add: extends_ledger_def generationChangesTx_def)
qed

lemma extends_ledger_contents:
  assumes ext: "extends_ledger db db' info manifest changes"
    and old: "gi_generation r \<noteq> gi_generation info" "find_generation db (gi_generation r) = Some r"
      "gi_operation r \<noteq> gi_operation info"
    and contents: "ledger_contents db current layout pm r = Inr m"
  shows "ledger_contents db' (gi_generation info) layout pm r = Inr m"
proof -
  note e = extends_ledger_old[OF ext old(1)]
  have ch: "generationChangesOn db' (gi_generation r) = generationChangesOn db (gi_generation r)"
    using extends_ledger_changes[OF ext old(3)] old(2) e(3)
    by (simp add: generationChangesOn_def getGenerationOn_def)
  have cov: "validateGenerationViewSignerCoverage db' (gi_generation r) m = validateGenerationViewSignerCoverage db (gi_generation r) m" for m
    by (simp add: validateGenerationViewSignerCoverage_def e(2))
  show ?thesis
    using contents old(1) by (auto simp: ledger_contents_Inr ch cov e(4))
qed

text \<open>A step of the validator on an old generation, when the layout it is judged by stays the same.\<close>

lemma extends_ledger_step:
  assumes ext: "extends_ledger db db' info manifest changes"
    and old: "gi_generation r \<noteq> gi_generation info" "find_generation db (gi_generation r) = Some r"
      "gi_operation r \<noteq> gi_operation info"
    and layout: "\<And>operation l. find_operation db (gi_operation r) = Some operation \<Longrightarrow>
        ledger_layout identity (ls_transition ls) (op_kind operation) = Inr l \<Longrightarrow>
        ledger_layout identity' (ls_transition ls) (op_kind operation) = Inr l"
    and step: "ledger_step db identity current ls r = Inr ls'"
  shows "ledger_step db' identity' (gi_generation info) ls r = Inr ls'"
proof -
  have op: "find_operation db' (gi_operation r) = find_operation db (gi_operation r)"
    using ext old(3) by (simp add: extends_ledger_def)
  obtain operation l where o: "ledger_link ls r = Inr ()" "find_operation db (gi_operation r) = Some operation"
      "op_state operation = OperationDone"
      "ledger_layout identity (ls_transition ls) (op_kind operation) = Inr (l, ls_transition ls')"
      "ledger_contents db current l (ls_manifest ls) r = Inr (ls_manifest ls')"
      "ls_previous ls' = gi_generation r" "ls_operations ls' = gi_operation r # ls_operations ls" "\<not> ls_first ls'"
    by (rule ledger_step_Inr[OF step]) (rule that)
  show ?thesis
    using o layout[OF o(2,4)] extends_ledger_contents[OF ext old o(5)]
    by (cases ls') (simp add: ledger_step_def op)
qed

lemma find_distinct: "distinct (map f xs) \<Longrightarrow> x \<in> set xs \<Longrightarrow> List.find (\<lambda>y. f y = f x) xs = Some x"
  by (induction xs) auto

lemma find_generation_distinct:
  "ledger_wf db \<Longrightarrow> r \<in> set (db_generations db) \<Longrightarrow> find_generation db (gi_generation r) = Some r"
  unfolding find_generation_def by (rule find_distinct) (simp_all add: ledger_wf_def)

lemma extends_ledger_new:
  assumes wf: "ledger_wf db" and ext: "extends_ledger db db' info manifest changes"
    and fresh: "gi_generation info \<notin> set (map gi_generation (db_generations db))" "gi_generation info \<noteq> 0"
      "gi_operation info \<notin> set (map gi_operation (db_generations db))"
    and manifest: "normalizeManifestForLayout input layout = Inr (manifest, gi_manifest info)"
    and changes: "changes = DiffManifests base manifest" "validateChangesForLayout changes layout = Inr ()"
    and coverage: "validateGenerationViewSignerCoverage db' (gi_generation info) input = Inr ()"
  shows "ledger_contents db' (gi_generation info) layout base info = Inr manifest"
proof -
  let ?g = "gi_generation info"
  note n = normalizeManifest_Inr[OF manifest]
  have "filter (\<lambda>r. fst r = ?g) (db_generation_files db) = []"
    using wf fresh(1) unfolding ledger_wf_def list_all_iff filter_empty_conv by metis
  then have files: "files_of db' ?g = manifest"
    using ext n(5) by (simp add: extends_ledger_def files_of_def comp_def filter_map sort_key_id_if_sorted)
  have fg: "find_generation db' ?g = Some info"
  proof -
    have "List.find (\<lambda>r. gi_generation r = ?g) (db_generations db) = None"
      unfolding find_None_iff using fresh(1) by (metis imageI set_map)
    with ext show ?thesis by (simp add: extends_ledger_def find_generation_def find_snoc)
  qed
  have "filter (\<lambda>r. of_operation r = gi_operation info) (db_operation_files db) = []"
    using wf fresh(3) unfolding ledger_wf_def list_all_iff filter_empty_conv by metis
  moreover have "filter (\<lambda>r. of_operation r = gi_operation info) (change_rows (gi_operation info) 0 changes) = change_rows (gi_operation info) 0 changes"
    by (auto simp: filter_id_conv dest: change_rows_operation)
  ultimately have "generationChangesTx db' (gi_operation info) = changes"
    using ext sorted_change_rows[of "gi_operation info" 0 changes]
    by (simp add: extends_ledger_def generationChangesTx_def sort_key_id_if_sorted change_rows_back changes(1) stored_DiffManifests)
  with fg have ch: "generationChangesOn db' ?g = Inr changes"
    by (simp add: generationChangesOn_def getGenerationOn_def)
  have verified: "requireVerifiedGenerationSigners db' ?g = Inr ()"
  proof -
    from ext obtain new where new: "db_view_signers db' = db_view_signers db @ new"
        "\<forall>r \<in> set new. vs_identity r \<noteq> GenerationSignerUnverified"
      by (auto simp: extends_ledger_def list_all_iff)
    have "\<forall>r \<in> set (db_view_signers db). vs_generation r \<noteq> ?g"
      using wf fresh(1) unfolding ledger_wf_def list_all_iff by metis
    with new show ?thesis by (auto simp: requireVerifiedGenerationSigners_def list_ex_iff)
  qed
  have norm: "normalizeManifestForLayout manifest layout = Inr (manifest, gi_manifest info)"
    using normalizeManifest_perm[of manifest input layout] manifest n(1) by simp
  have cov: "validateGenerationViewSignerCoverage db' ?g manifest = Inr ()"
    by (rule coverage_perm[OF coverage]) (simp_all add: n(1))
  have "generationManifestOn db' ?g = Inr manifest"
    using files fg fresh(2) by (simp add: generationManifestOn_def)
  with norm cov verified ch changes show ?thesis by (simp add: ledger_contents_Inr)
qed

lemma sorted_map_last: "sorted (map f xs) \<Longrightarrow> x \<in> set xs \<Longrightarrow> f x \<le> f (last xs)"
  by (induction xs rule: rev_induct) (auto simp: sorted_append)

lemma sort_key_Nil_iff [simp]: "sort_key f xs = [] \<longleftrightarrow> xs = []"
  by (metis set_empty set_sort)

lemma sort_key_snoc_max:
  assumes "\<forall>y \<in> set xs. f y \<le> f x"
  shows "sort_key f (xs @ [x]) = sort_key f xs @ [x]"
  using assms
proof (induction xs)
  case (Cons y xs)
  have "insort_key f y (zs @ [x]) = insort_key f y zs @ [x]" if "f y \<le> f x" for zs
    using that by (induction zs) auto
  with Cons show ?case by simp
qed simp

lemma ledger_valid_fold:
  assumes valid: "validateGenerationLedgerOn db = Inr ()" and wf: "ledger_wf db"
    and id: "repositoryIdentityOn db = Inr identity"
  obtains ls where "for_each (ledger_step db identity (rs_built_generation (db_repository db))) ledger_start
      (sort_key gi_generation (db_generations db)) = Inr ls"
    "rs_built_generation (db_repository db) = (if sort_key gi_generation (db_generations db) = [] then 0
      else gi_generation (last (sort_key gi_generation (db_generations db))))"
    "\<not> (migrated identity \<and> \<not> ls_transition ls)"
proof -
  have receipt: "id_receipt identity = null_string (rs_transition_receipt (db_repository db))"
    using id by (auto simp: repositoryIdentityOn_def Let_def split: if_splits)
  show thesis
    using that valid id wf receipt
    by (cases "db_generations db = []")
      (auto simp: validateGenerationLedgerOn_def Let_def and_then_Inr_iff ledger_wf_def migrated_def split: if_splits)
qed

lemma ledger_extended:
  assumes valid: "validateGenerationLedgerOn db = Inr ()" and wf: "ledger_wf db"
    and ext: "extends_ledger db db' info manifest changes"
    and id: "repositoryIdentityOn db = Inr identity" and id': "repositoryIdentityOn db' = Inr identity'"
    and busy: "\<And>row. find_operation db (gi_operation info) = Some row \<Longrightarrow> op_state row \<noteq> OperationDone"
    and closed: "find_operation db' (gi_operation info) = Some row'" "op_state row' = OperationDone"
    and start: "P False"
    and old_layout: "\<And>seen kind l s. P seen \<Longrightarrow> ledger_layout identity seen kind = Inr (l, s) \<Longrightarrow>
        ledger_layout identity' seen kind = Inr (l, s) \<and> P s"
    and new_layout: "\<And>seen. P seen \<Longrightarrow> \<not> (migrated identity \<and> \<not> seen) \<Longrightarrow>
        \<exists>s. ledger_layout identity' seen (op_kind row') = Inr (LayoutSinglePayloadV1, s) \<and> \<not> (migrated identity' \<and> \<not> s)"
    and link: "GenerationNext (rs_built_generation (db_repository db)) = Inr (gi_generation info)"
      "gi_previous info = rs_built_generation (db_repository db)"
      "generationManifestTx db (gi_previous info) = Inr base"
    and manifest: "normalizeManifest input = Inr (manifest, gi_manifest info)"
    and changes: "changes = DiffManifests base manifest" "validateChanges changes = Inr ()"
    and coverage: "validateGenerationViewSignerCoverage db' (gi_generation info) input = Inr ()"
  shows "validateGenerationLedgerOn db' = Inr () \<and> ledger_wf db' \<and> files_of db' (gi_generation info) = manifest"
proof -
  let ?infos = "sort_key gi_generation (db_generations db)"
  let ?prev = "rs_built_generation (db_repository db)" and ?g = "gi_generation info"
  have nz: "list_all (\<lambda>r. gi_generation r \<noteq> 0) ?infos" using wf by (simp add: ledger_wf_def list_all_iff)
  obtain ls where fold: "for_each (ledger_step db identity ?prev) ledger_start ?infos = Inr ls"
    and prev: "?prev = (if ?infos = [] then 0 else gi_generation (last ?infos))"
    and seen: "\<not> (migrated identity \<and> \<not> ls_transition ls)"
    by (rule ledger_valid_fold[OF valid wf id]) (rule that)
  note L = ledger_fold[OF fold nz]
  have succ: "unat ?g = Suc (unat ?prev)" using link(1) by (simp add: GenerationNext_Inr)
  have big: "gi_generation r < ?g" if "r \<in> set (db_generations db)" for r
    using sorted_map_last[OF sorted_sort_key, of r gi_generation "db_generations db"] that prev succ
    by (force simp: word_le_nat_alt word_less_nat_alt split: if_splits)
  have fresh: "?g \<notin> set (map gi_generation (db_generations db))" "?g \<noteq> 0"
    "gi_operation info \<notin> set (map gi_operation (db_generations db))"
    using big succ L busy by fastforce+
  have infos': "sort_key gi_generation (db_generations db') = ?infos @ [info]"
    using ext big by (auto simp: extends_ledger_def intro!: sort_key_snoc_max less_imp_le)
  have old: "for_each (ledger_step db' identity' ?g) ledger_start ?infos = Inr ls \<and> P (ls_transition ls)"
  proof (rule for_each_mono[OF fold])
    fix s r s'
    assume r: "r \<in> set ?infos" and P: "P (ls_transition s)" and step: "ledger_step db identity ?prev s r = Inr s'"
    from r have "gi_operation r \<in> set (map gi_operation (db_generations db))" by simp
    then have "gi_operation r \<noteq> gi_operation info" using fresh(3) by metis
    with r big[of r] step find_generation_distinct[OF wf, of r] old_layout[OF P]
    have "ledger_step db' identity' ?g s r = Inr s'"
      by (intro extends_ledger_step[OF ext, where identity = identity]) auto
    moreover have "P (ls_transition s')"
      by (rule ledger_step_Inr[OF step]) (use old_layout[OF P] in blast)
    ultimately show "ledger_step db' identity' ?g s r = Inr s' \<and> P (ls_transition s')" ..
  qed (simp add: ledger_start_def start)
  have base: "base = ls_manifest ls"
  proof (cases "db_generations db = []")
    case False
    then have "last ?infos \<in> set ?infos" by (intro last_in_set) simp
    with nz have "gi_generation (last ?infos) \<noteq> 0" by (simp add: list_all_iff)
    with False show ?thesis using L prev link(2,3) by (auto simp: generationManifestTx_def split: if_splits)
  qed (use L prev link(2,3) in \<open>simp add: generationManifestTx_def\<close>)
  have contents: "ledger_contents db' ?g LayoutSinglePayloadV1 (ls_manifest ls) info = Inr manifest"
    unfolding base[symmetric]
    by (rule extends_ledger_new[OF wf ext fresh manifest[unfolded normalizeManifest_def] changes(1)
      changes(2)[unfolded validateChanges_def] coverage])
  have link': "ledger_link ls info = Inr ()"
    using L prev link(1,2) fresh(3) by (auto simp: ledger_link_def Let_def)
  obtain s where s: "ledger_layout identity' (ls_transition ls) (op_kind row') = Inr (LayoutSinglePayloadV1, s)"
      "\<not> (migrated identity' \<and> \<not> s)"
    using new_layout[OF conjunct2[OF old] seen] by blast
  then obtain ls' where "ledger_step db' identity' ?g ls info = Inr ls'" "ls_transition ls' = s"
    using contents closed link' by (simp add: ledger_step_def)
  moreover have "rs_built_generation (db_repository db') = ?g" using ext by (simp add: extends_ledger_def)
  ultimately have "validateGenerationLedgerOn db' = Inr ()"
    using old s(2) by (simp add: validateGenerationLedgerOn_def id' Let_def infos' for_each_append)
  with extends_ledger_wf[OF wf ext fresh(1,2)] ledger_contents_files[OF contents fresh(2)] show ?thesis by simp
qed

subsection \<open>The finalisations\<close>

text \<open>The operation is open and is not a layout migration, and the repository has reached its terminal layout.\<close>

definition finalizable :: "database \<Rightarrow> string \<Rightarrow> bool" where
  "finalizable db i \<longleftrightarrow> rs_layout_version (db_repository db) = LayoutSinglePayloadV1
     \<and> (case find_operation db i of None \<Rightarrow> True | Some row \<Rightarrow> op_kind row \<noteq> ''layout.migrate'')"

lemma find_operation_close:
  assumes "setOperationStateTx now i OperationDone '''' '''' db = Inr db'"
    and "find_operation db i = Some row" "op_state row \<noteq> OperationDone"
  shows "db_operations db' = map (\<lambda>r. if op_id r = i then r\<lparr>op_state := OperationDone, op_error_class := None,
            op_error_message := None, op_updated_at := now\<rparr> else r) (db_operations db)
     \<and> db_operation_files db' = db_operation_files db \<and> db_generations db' = db_generations db
     \<and> db_generation_files db' = db_generation_files db \<and> db_view_signers db' = db_view_signers db
     \<and> db_repository db' = db_repository db"
  by (rule setOperationStateTx_Inr[OF assms(1)])
    (use assms(2,3) in \<open>simp_all add: append_event_def update_operation_def optional_text_def\<close>)

lemma find_map_state:
  assumes "ops' = map (\<lambda>r. if op_id r = i then r\<lparr>op_state := s, op_error_class := a, op_error_message := b, op_updated_at := t\<rparr> else r) ops"
  shows "List.find (\<lambda>r. op_id r = j) ops' =
    map_option (\<lambda>r. if j = i then r\<lparr>op_state := s, op_error_class := a, op_error_message := b, op_updated_at := t\<rparr> else r)
      (List.find (\<lambda>r. op_id r = j) ops)"
  unfolding assms by (induction ops) auto

lemma finalisation_ledger:
  assumes valid: "validateGenerationLedgerOn db = Inr ()" and wf: "ledger_wf db" and fin: "finalizable db i"
    and busy: "find_operation db i = Some row" "op_state row \<noteq> OperationDone"
    and retain: "ledger_rows db1 = ledger_rows db \<and> db_view_signers db1 = db_view_signers db"
    and recorded: "recordGenerationTx now i g input changes renderer db1 = Inr db2"
    and grow: "signers_grow g db2 db3"
    and coverage: "validateGenerationViewSignerCoverage db3 g input = Inr ()"
    and moved: "db_operations db4 = db_operations db3" "db_operation_files db4 = db_operation_files db3"
      "db_generations db4 = db_generations db3" "db_generation_files db4 = db_generation_files db3"
      "db_view_signers db4 = db_view_signers db3"
      "rs_repository_id (db_repository db4) = rs_repository_id (db_repository db3)"
      "rs_layout_version (db_repository db4) = rs_layout_version (db_repository db3)"
      "rs_transition_receipt (db_repository db4) = rs_transition_receipt (db_repository db3)"
      "unat g = Suc (unat (rs_built_generation (db_repository db3))) \<Longrightarrow> rs_built_generation (db_repository db4) = g"
    and close: "setOperationStateTx now i OperationDone '''' '''' db4 = Inr db5"
  shows "(validateGenerationLedgerOn db5 = Inr () \<and> ledger_wf db5)
    \<and> unat (rs_built_generation (db_repository db5)) = Suc (unat (rs_built_generation (db_repository db)))
    \<and> rs_built_generation (db_repository db5) = g
    \<and> files_of db5 g = sort_key gf_path input"
proof -
  obtain base manifest info where r:
    "normalizeManifest input = Inr (manifest, gi_manifest info)" "validateChanges changes = Inr ()"
    "GenerationNext (rs_built_generation (db_repository db1)) = Inr g"
    "generationManifestTx db1 (rs_built_generation (db_repository db1)) = Inr base"
    "changes = DiffManifests base manifest" "find_operation db1 i \<noteq> None" "g \<noteq> 0"
    "gi_generation info = g" "gi_previous info = rs_built_generation (db_repository db1)" "gi_operation info = i"
    "db2 = db1\<lparr>db_generations := db_generations db1 @ [info],
       db_generation_files := db_generation_files db1 @ map (Pair g) manifest,
       db_operation_files := db_operation_files db1 @ change_rows i 0 changes\<rparr>"
    by (rule recordGenerationTx_Inr[OF recorded]) (rule that)
  have rows1: "db_repository db1 = db_repository db" "db_operations db1 = db_operations db" "db_operation_files db1 = db_operation_files db"
    "db_generations db1 = db_generations db" "db_generation_files db1 = db_generation_files db" "db_view_signers db1 = db_view_signers db"
    using retain by (simp_all add: ledger_rows_def)
  have rows3: "db_repository db3 = db_repository db" "db_operations db3 = db_operations db"
    "db_operation_files db3 = db_operation_files db @ change_rows i 0 changes"
    "db_generations db3 = db_generations db @ [info]" "db_generation_files db3 = db_generation_files db @ map (Pair g) manifest"
    using grow r(11) rows1 by (simp_all add: signers_grow_def ledger_rows_def)
  obtain new where new: "db_view_signers db3 = db_view_signers db @ new"
      "list_all (\<lambda>r. vs_generation r = g \<and> vs_identity r \<noteq> GenerationSignerUnverified) new"
    using grow r(11) rows1 by (auto simp: signers_grow_def)
  have succ: "unat g = Suc (unat (rs_built_generation (db_repository db)))" using r(3) rows1 by (simp add: GenerationNext_Inr)
  have built: "rs_built_generation (db_repository db4) = g" using moved(9) succ rows3(1) by simp
  have op4: "find_operation db4 j = find_operation db j" for j by (simp add: find_operation_def moved(1) rows3)
  note c = find_operation_close[OF close op4[of i, unfolded busy(1)] busy(2)]
  have op5: "find_operation db5 j = map_option (\<lambda>r. if j = i then r\<lparr>op_state := OperationDone, op_error_class := None,
      op_error_message := None, op_updated_at := now\<rparr> else r) (find_operation db j)" for j
    using find_map_state[OF c[THEN conjunct1], of j] by (simp add: find_operation_def moved(1) rows3)
  have kind: "op_kind row \<noteq> ''layout.migrate''" and single: "rs_layout_version (db_repository db) = LayoutSinglePayloadV1"
    using fin busy by (simp_all add: finalizable_def)
  have ext: "extends_ledger db db5 info manifest changes"
    unfolding extends_ledger_def r(8,10)
  proof (intro conjI allI impI)
    show "\<exists>new. db_view_signers db5 = db_view_signers db @ new
        \<and> list_all (\<lambda>r. vs_generation r = g \<and> vs_identity r \<noteq> GenerationSignerUnverified) new"
      using c moved new by simp
    show "find_operation db5 j = find_operation db j" if "j \<noteq> i" for j
      using op5[of j] that by (cases "find_operation db j") simp_all
    have "map op_id (db_operations db5) = map op_id (db_operations db)"
      using c moved rows3 by (simp add: comp_def if_distrib cong: if_cong)
    then show "distinct (map op_id (db_operations db5))" using wf by (simp only: ledger_wf_def)
  qed (use c moved rows3 built in simp_all)
  have cov: "validateGenerationViewSignerCoverage db5 (gi_generation info) input = Inr ()"
    by (rule coverage_perm[of db3]) (use coverage c moved r(8) in \<open>simp_all add: signers_of_def\<close>)
  have manifest_tx: "generationManifestTx db (gi_previous info) = Inr base"
  proof -
    have "find_generation db1 = find_generation db" "files_of db1 = files_of db"
      by (simp_all add: fun_eq_iff find_generation_def files_of_def rows1)
    with r(4,9) rows1(1) show ?thesis by (auto simp: generationManifestTx_def split: if_splits)
  qed
  have same: "repositoryIdentityOn db5 = repositoryIdentityOn db"
    using c moved rows3 by (simp add: repositoryIdentityOn_def Let_def)
  have cl: "find_operation db5 i = Some (row\<lparr>op_state := OperationDone, op_error_class := None,
      op_error_message := None, op_updated_at := now\<rparr>)"
    using op5[of i] busy by simp
  from valid obtain identity where id: "repositoryIdentityOn db = Inr identity"
    by (auto simp: validateGenerationLedgerOn_def and_then_Inr_iff)
  then have layout: "id_layout_version identity = LayoutSinglePayloadV1"
    using single by (auto simp: repositoryIdentityOn_def Let_def split: if_splits)
  have goal: "validateGenerationLedgerOn db5 = Inr () \<and> ledger_wf db5 \<and> files_of db5 g = manifest"
    by (rule ledger_extended[OF valid wf ext id same[unfolded id], unfolded r(8,10), where P = "\<lambda>_. True",
        OF _ cl _ _ _ _ r(3)[unfolded rows1] r(9)[unfolded rows1] manifest_tx r(1) r(5) r(2) cov[unfolded r(8)]])
      (use busy kind layout in \<open>auto simp: ledger_layout_def manifest_layout_def LayoutSinglePayloadV1_def LayoutC2ToSingleV1_def\<close>)
  then show ?thesis using goal c built succ normalizeManifest_Inr(1)[OF r(1)[unfolded normalizeManifest_def]] by simp
qed

lemma commit_finalize_from:
  "fst (commit_finalize ckpt i (finalize_from required what i body) db) = fst (commit ckpt (finalize_from required what i body) db)"
  "commit_finalize (Inr ()) i (finalize_from required what i body) db = commit (Inr ()) (finalize_from required what i body) db"
  by (simp_all add: commit_finalize_def finalize_from_def commit_def)

lemma finalize_from_Inr:
  assumes "finalize_from required text i body db = Inr db'"
  obtains (closed) row where "find_operation db i = Some row" "op_state row = OperationDone" "db' = db"
  | (open_) row where "find_operation db i = Some row" "op_state row = required" "required \<noteq> OperationDone" "body db = Inr db'"
  using assms by (auto simp: finalize_from_def operationStateTx_def and_then_Inr_iff split: option.splits if_splits)

lemma set_status_rows [simp]:
  "db_operations (set_status db) = db_operations db" "db_operation_files (set_status db) = db_operation_files db"
  "db_generations (set_status db) = db_generations db" "db_generation_files (set_status db) = db_generation_files db"
  "db_view_signers (set_status db) = db_view_signers db"
  "rs_repository_id (db_repository (set_status db)) = rs_repository_id (db_repository db)"
  "rs_layout_version (db_repository (set_status db)) = rs_layout_version (db_repository db)"
  "rs_transition_receipt (db_repository (set_status db)) = rs_transition_receipt (db_repository db)"
  "rs_built_generation (db_repository (set_status db)) = rs_built_generation (db_repository db)"
  by (simp_all add: set_status_def split: prod.splits)

lemma finalize_build_body_ledger:
  assumes "validateGenerationLedgerOn db = Inr ()" "ledger_wf db" "finalizable db (fb_operation input)"
    and "find_operation db (fb_operation input) = Some row" "op_state row \<noteq> OperationDone"
    and "finalize_build_body now keys input db = Inr db'"
  shows "(validateGenerationLedgerOn db' = Inr () \<and> ledger_wf db')
    \<and> unat (rs_built_generation (db_repository db')) = Suc (unat (rs_built_generation (db_repository db)))
    \<and> rs_built_generation (db_repository db') = fb_generation input
    \<and> files_of db' (fb_generation input) = sort_key gf_path (fb_manifest input)"
proof -
  let ?g = "fb_generation input" and ?i = "fb_operation input"
  from assms(6) obtain db1 db2 seen db3 db4 db5 and info :: GenerationInfo where
    a: "retainRPMSigningKeysTx keys db = Inr db1"
    and b: "recordGenerationTx now ?i ?g (fb_manifest input) (fb_changes input) (fb_renderer input) db1 = Inr db2"
    and c: "for_each (build_dist ?g) ([], db2) (fb_dists input) = Inr (seen, db3)"
    and d: "carryGenerationViewSignersTx (gi_previous info) ?g seen db3 = Inr db4"
    and e: "validateGenerationViewSignerCoverage db4 ?g (fb_manifest input) = Inr ()"
    and f: "for_each pool_object db4 (fb_pooled input) = Inr db5"
    and s: "setOperationStateTx now ?i OperationDone '''' '''' (set_built_generation ?g (set_status db5)) = Inr db'"
    by (clarsimp simp: finalize_build_body_def and_then_Inr_iff)
  have "signers_grow ?g db2 db3" using for_each_grow[where pr = snd, OF c build_dist_grow] by simp
  from signers_grow_trans[OF this carryGenerationViewSigners_grow[OF d]] have "signers_grow ?g db2 db4" .
  moreover have p: "ledger_rows db5 = ledger_rows db4 \<and> db_view_signers db5 = db_view_signers db4"
    by (rule for_each_invariant[OF f]) (auto simp: pool_object_def ledger_rows_def split: if_splits)
  ultimately have grow: "signers_grow ?g db2 db5" by (auto simp: signers_grow_def)
  have e': "validateGenerationViewSignerCoverage db5 ?g (fb_manifest input) = Inr ()"
    by (rule coverage_perm[OF e]) (simp_all add: signers_of_def p)
  show ?thesis
    by (rule finalisation_ledger[OF assms(1-5) retainRPMSigningKeys_rows[OF a] b grow e' _ _ _ _ _ _ _ _ _ s])
      (simp_all add: set_built_generation_def)
qed

lemma finalize_dist_add_body_ledger:
  assumes "validateGenerationLedgerOn db = Inr ()" "ledger_wf db" "finalizable db i"
    and "find_operation db i = Some row" "op_state row \<noteq> OperationDone"
    and "finalize_dist_add_body now i dist manifest changes db = Inr db'"
  shows "(validateGenerationLedgerOn db' = Inr () \<and> ledger_wf db')
    \<and> unat (rs_built_generation (db_repository db')) = Suc (unat (rs_built_generation (db_repository db)))
    \<and> rs_built_generation (db_repository db') = dd_built_generation dist
    \<and> files_of db' (dd_built_generation dist) = sort_key gf_path manifest"
proof -
  let ?g = "dd_built_generation dist"
  from assms(6) obtain db2 db3 db4 db5 and info :: GenerationInfo where
    b: "recordGenerationTx now i ?g manifest changes '''' db = Inr db2"
    and c: "insertDistTx dist db2 = Inr db3"
    and d: "carryGenerationViewSignersTx (gi_previous info) ?g [dd_name dist] db3 = Inr db4"
    and g: "insertGenerationDistViewSignersTx ?g (dd_name dist) (dd_format dist)
                 (dd_architectures dist) (dd_fingerprint dist) (dd_public_key dist) '''' db4 = Inr db5"
    and e: "validateGenerationViewSignerCoverage db5 ?g manifest = Inr ()"
    and s: "setOperationStateTx now i OperationDone '''' '''' (advanceGenerationTx ?g db5) = Inr db'"
    by (clarsimp simp: finalize_dist_add_body_def and_then_Inr_iff)
  have grow: "signers_grow ?g db2 db5"
    using insertDist_grow[OF c, of ?g] carryGenerationViewSigners_grow[OF d] insertGenerationDistViewSigners_grow[OF g]
    by (blast intro: signers_grow_trans)
  show ?thesis
    by (rule finalisation_ledger[OF assms(1-5) _ b grow e _ _ _ _ _ _ _ _ _ s])
      (simp_all add: advanceGenerationTx_def Let_def max_def word_le_nat_alt)
qed

text \<open>C8. Finishing a build keeps the generation ledger valid: on a repository in its terminal layout whose
  ledger the validator accepts, the database after \<open>FinalizeBuild\<close> is accepted again, whatever the
  input, whether the call succeeds, is refused or finds its operation already closed.\<close>

theorem finalize_build_keeps_ledger:
  assumes "validateGenerationLedgerOn db = Inr ()" and "ledger_wf db" and "finalizable db (fb_operation input)"
  shows "validateGenerationLedgerOn (fst (FinalizeBuild ckpt now input db)) = Inr ()
    \<and> ledger_wf (fst (FinalizeBuild ckpt now input db))"
proof -
  have "validateGenerationLedgerOn db' = Inr () \<and> ledger_wf db'"
    if "finalize_from OperationBuilt ''finalize build'' (fb_operation input) (finalize_build_body now keys input) db = Inr db'"
    for keys db'
    by (rule finalize_from_Inr[OF that]) (use finalize_build_body_ledger[OF assms] assms in auto)
  then show ?thesis
    using assms by (auto simp: FinalizeBuild_def commit_finalize_from commit_fst split: sum.splits)
qed

text \<open>C10. Adding a dist keeps the generation ledger valid, whatever the input and whatever the outcome.\<close>

theorem finalize_dist_add_keeps_ledger:
  assumes "validateGenerationLedgerOn db = Inr ()" and "ledger_wf db" and "finalizable db i"
  shows "validateGenerationLedgerOn (fst (FinalizeDistAdd ckpt now i dist manifest changes db)) = Inr ()
    \<and> ledger_wf (fst (FinalizeDistAdd ckpt now i dist manifest changes db))"
proof -
  have "validateGenerationLedgerOn db' = Inr () \<and> ledger_wf db'"
    if "finalize_from OperationBuilt ''finalize dist add'' i (finalize_dist_add_body now i dist manifest changes) db = Inr db'"
    for db'
    by (rule finalize_from_Inr[OF that]) (use finalize_dist_add_body_ledger[OF assms] assms in auto)
  then show ?thesis
    using assms by (auto simp: FinalizeDistAdd_def commit_finalize_from commit_fst split: sum.splits)
qed

subsection \<open>The projections of the built dists\<close>

definition membership_rows where
  "membership_rows db = (db_dists db, db_memberships db, db_built db, db_prior_built db)"

lemma recordGeneration_membership: "recordGenerationTx now i g input changes renderer db = Inr db' \<Longrightarrow> membership_rows db' = membership_rows db"
  by (erule recordGenerationTx_Inr) (simp add: membership_rows_def)

lemma for_each_membership:
  assumes "for_each f s xs = Inr s'"
    and "\<And>s x s'. x \<in> set xs \<Longrightarrow> f s x = Inr s' \<Longrightarrow> membership_rows (pr s') = membership_rows (pr s)"
  shows "membership_rows (pr s') = membership_rows (pr s)"
  by (rule for_each_invariant[where P = "\<lambda>t. membership_rows (pr t) = membership_rows (pr s)", OF assms(1)])
    (auto dest: assms(2))

lemma insert_view_signer_membership: "insert_view_signer db row = Inr db' \<Longrightarrow> membership_rows db' = membership_rows db"
  by (auto simp: insert_view_signer_def membership_rows_def split: if_splits)

lemma insert_signers_membership:
  assumes "insertGenerationDistViewSignersTx g name format archs fp key claimed db = Inr db'"
  shows "membership_rows db' = membership_rows db"
proof (cases "format = ''rpm''")
  case True
  with assms obtain identity trusted where loop: "for_each (\<lambda>db architecture.
             let viewID = path_Join [''dists'', name, ar_family architecture]
             in and_then (generationSignerViewDist viewID) (\<lambda>_.
                insert_view_signer db \<lparr>vs_generation = g, vs_view = viewID,
                  vs_identity = identity, vs_public_key = trusted\<rparr>)) db archs = Inr db'"
    by (auto simp: insertGenerationDistViewSignersTx_def and_then_Inr_iff)
  show ?thesis
    by (rule for_each_membership[where pr = id, OF loop, simplified])
      (auto simp: Let_def and_then_Inr_iff dest: insert_view_signer_membership)
qed (use assms in \<open>simp add: insertGenerationDistViewSignersTx_def\<close>)

lemma carry_membership:
  assumes "carryGenerationViewSignersTx base g replaced db = Inr db'"
  shows "membership_rows db' = membership_rows db"
proof (cases "base = 0")
  case False
  with assms obtain carried where loop: "for_each (\<lambda>db row. insert_view_signer db (row\<lparr>vs_generation := g,
               vs_public_key := (if vs_identity row = ''none'' then None else vs_public_key row)\<rparr>)) db carried = Inr db'"
    by (auto simp: carryGenerationViewSignersTx_def and_then_Inr_iff)
  show ?thesis
    by (rule for_each_membership[where pr = id, OF loop, simplified]) (erule insert_view_signer_membership)
qed (use assms in \<open>simp add: carryGenerationViewSignersTx_def\<close>)

lemma insert_architecture_membership:
  "insert_architecture name g s a = Inr s' \<Longrightarrow> membership_rows (snd s') = membership_rows (snd s)"
  by (auto simp: insert_architecture_def membership_rows_def split: if_splits prod.splits)

lemma replace_architectures_membership:
  assumes "replaceDistArchitecturesTx name archs g db = Inr db'"
  shows "membership_rows db' = membership_rows db"
proof -
  from assms obtain seen where loop: "for_each (insert_architecture name g)
      ([], db\<lparr>db_architectures := filter (\<lambda>a. da_dist a \<noteq> name) (db_architectures db)\<rparr>) archs = Inr (seen, db')"
    by (auto simp: replaceDistArchitecturesTx_def insert_architectures_def and_then_Inr_iff)
  show ?thesis
    using for_each_membership[where pr = snd, OF loop insert_architecture_membership] by (simp add: membership_rows_def)
qed

lemma replace_signer_membership:
  "replaceDistMetadataSignerTx name fp key db = Inr db' \<Longrightarrow> membership_rows db' = membership_rows db"
  by (auto simp: replaceDistMetadataSignerTx_def Let_def membership_rows_def split: if_splits)

text \<open>The built and prior packages of one dist, and the desired ones.\<close>

definition built_of :: "database \<Rightarrow> string \<Rightarrow> built_membership list" where
  "built_of db name = filter (\<lambda>m. bm_dist m = name) (db_built db)"

definition prior_of :: "database \<Rightarrow> string \<Rightarrow> built_membership list" where
  "prior_of db name = filter (\<lambda>m. bm_dist m = name) (db_prior_built db)"

definition desired_of :: "database \<Rightarrow> string \<Rightarrow> membership_row list" where
  "desired_of db name = filter (\<lambda>m. me_dist m = name) (db_memberships db)"

definition built_row :: "GenerationID \<Rightarrow> membership_row \<Rightarrow> built_membership" where
  "built_row g m = \<lparr>bm_dist = me_dist m, bm_package = me_package m, bm_generation = g\<rparr>"

lemma filter_other: "name \<noteq> other \<Longrightarrow> filter (\<lambda>m. f m \<noteq> other \<and> f m = name) xs = filter (\<lambda>m. f m = name) xs"
  by (induction xs) auto

lemma rotate_projection:
  "built_of (rotate_memberships g dist db) name = (if name = dist then map (built_row g) (desired_of db name) else built_of db name)"
  "prior_of (rotate_memberships g dist db) name = (if name = dist then built_of db name else prior_of db name)"
  "desired_of (rotate_memberships g dist db) name = desired_of db name"
proof -
  have "filter (\<lambda>m. bm_dist m = name) (map (built_row g) (filter (\<lambda>m. me_dist m = dist) ms)) =
      (if name = dist then map (built_row g) (filter (\<lambda>m. me_dist m = name) ms) else [])" for ms
    by (induction ms) (auto simp: built_row_def)
  then show "built_of (rotate_memberships g dist db) name = (if name = dist then map (built_row g) (desired_of db name) else built_of db name)"
    by (simp add: built_of_def rotate_memberships_def desired_of_def filter_other built_row_def[abs_def])
qed (simp_all add: built_of_def prior_of_def desired_of_def rotate_memberships_def filter_other filter_empty_conv)

text \<open>A built dist whose two configurations agree.\<close>

definition settled :: "string list \<Rightarrow> database \<Rightarrow> bool" where
  "settled names db \<longleftrightarrow> (\<forall>d \<in> set (db_dists db). di_name d \<in> set names \<longrightarrow> di_effective_config d = di_built_config d)"

lemma build_dist_projection:
  assumes "build_dist g (seen, db) dist = Inr s'"
  shows "fst s' = bu_name dist # seen \<and> bu_name dist \<notin> set seen
    \<and> built_of (snd s') = built_of (rotate_memberships g (bu_name dist) db)
    \<and> prior_of (snd s') = prior_of (rotate_memberships g (bu_name dist) db)
    \<and> desired_of (snd s') = desired_of db
    \<and> (settled seen db \<longrightarrow> settled (bu_name dist # seen) (snd s'))"
proof -
  from assms obtain signing db1 db2 db3 where
    a: "replaceDistMetadataSignerTx (bu_name dist) (bu_fingerprint dist) (bu_public_key dist)
      ((rotate_memberships g (bu_name dist) db)\<lparr>db_dists := map (\<lambda>d. if di_name d = bu_name dist
          then d\<lparr>di_effective_config := bu_config dist, di_built_config := bu_config dist,
                 di_built_generation := g, di_signing := signing\<rparr> else d) (db_dists (rotate_memberships g (bu_name dist) db))\<rparr>) = Inr db1"
    and b: "replaceDistArchitecturesTx (bu_name dist) (bu_architectures dist) g db1 = Inr db2"
    and c: "insertGenerationDistViewSignersTx g (bu_name dist) (bu_format dist)
        (bu_architectures dist) (bu_fingerprint dist) (bu_public_key dist) (bu_signer_identity dist) db2 = Inr db3"
    and s': "s' = (bu_name dist # seen, db3)" "bu_name dist \<notin> set seen"
    by (auto simp: build_dist_def Let_def and_then_Inr_iff split: if_splits)
  show ?thesis
    using replace_signer_membership[OF a] replace_architectures_membership[OF b] insert_signers_membership[OF c] s'
    by (auto simp: membership_rows_def built_of_def prior_of_def desired_of_def fun_eq_iff settled_def rotate_memberships_def)
qed

lemma membership_rows_projection:
  "membership_rows db' = membership_rows db \<Longrightarrow> built_of db' = built_of db \<and> prior_of db' = prior_of db \<and> desired_of db' = desired_of db"
  by (auto simp: membership_rows_def built_of_def prior_of_def desired_of_def fun_eq_iff)

lemma build_dists_projection:
  assumes "for_each (build_dist g) (seen, db) dists = Inr (seen', db')"
  shows "desired_of db' name = desired_of db name
    \<and> built_of db' name = (if name \<in> bu_name ` set dists then map (built_row g) (desired_of db name) else built_of db name)
    \<and> prior_of db' name = (if name \<in> bu_name ` set dists then built_of db name else prior_of db name)
    \<and> set seen' = set seen \<union> bu_name ` set dists \<and> bu_name ` set dists \<inter> set seen = {} \<and> distinct (map bu_name dists)
    \<and> (settled seen db \<longrightarrow> settled seen' db')"
  using assms
proof (induction dists arbitrary: seen db)
  case (Cons d dists)
  then obtain s where step: "build_dist g (seen, db) d = Inr s" and rest: "for_each (build_dist g) s dists = Inr (seen', db')"
    by (auto simp: and_then_Inr_iff)
  obtain db1 where s: "s = (bu_name d # seen, db1)" "bu_name d \<notin> set seen"
      "built_of db1 = built_of (rotate_memberships g (bu_name d) db)" "prior_of db1 = prior_of (rotate_memberships g (bu_name d) db)"
      "desired_of db1 = desired_of db" "settled seen db \<longrightarrow> settled (bu_name d # seen) db1"
    using build_dist_projection[OF step] by (cases s) auto
  from Cons.IH[OF rest[unfolded s(1)]] s(2,6) show ?case
    by (auto simp: s(3-5) rotate_projection)
qed simp

text \<open>C9. A build that is finished in full publishes exactly the desired packages: the repository moves to the
  next generation, the operation is done, every dist of the build has the desired packages as its
  built ones and the former built ones as its prior ones, every other dist is as before, and no dist
  of the build differs from its built projection any more.\<close>

theorem finalize_build_publishes:
  assumes "FinalizeBuild (Inr ()) now input db = (db', Inr ())"
    and "state_of db (fb_operation input) = Some OperationBuilt"
  shows "unat (rs_built_generation (db_repository db')) = Suc (unat (rs_built_generation (db_repository db)))
    \<and> rs_built_generation (db_repository db') = fb_generation input
    \<and> state_of db' (fb_operation input) = Some OperationDone
    \<and> (\<forall>name. desired_of db' name = desired_of db name
        \<and> (if name \<in> bu_name ` set (fb_dists input)
           then built_of db' name = map (built_row (fb_generation input)) (desired_of db name) \<and> prior_of db' name = built_of db name
           else built_of db' name = built_of db name \<and> prior_of db' name = prior_of db name))
    \<and> filter (\<lambda>d. dist_dirty db' d \<and> di_name d \<in> bu_name ` set (fb_dists input)) (db_dists db') = []"
proof -
  let ?g = "fb_generation input" and ?i = "fb_operation input"
  from assms(1) obtain keys where "finalize_from OperationBuilt ''finalize build'' ?i (finalize_build_body now keys input) db = Inr db'"
    by (auto simp: FinalizeBuild_def commit_finalize_from commit_def split: sum.splits if_splits)
  then have body: "finalize_build_body now keys input db = Inr db'"
    by (rule finalize_from_Inr) (use assms(2) in \<open>auto simp: state_of_def\<close>)
  from body obtain db1 db2 seen db3 db4 db5 and info :: GenerationInfo where
    a: "retainRPMSigningKeysTx keys db = Inr db1"
    and b: "recordGenerationTx now ?i ?g (fb_manifest input) (fb_changes input) (fb_renderer input) db1 = Inr db2"
    and c: "for_each (build_dist ?g) ([], db2) (fb_dists input) = Inr (seen, db3)"
    and d: "carryGenerationViewSignersTx (gi_previous info) ?g seen db3 = Inr db4"
    and f: "for_each pool_object db4 (fb_pooled input) = Inr db5"
    and s: "setOperationStateTx now ?i OperationDone '''' '''' (set_built_generation ?g (set_status db5)) = Inr db'"
    by (clarsimp simp: finalize_build_body_def and_then_Inr_iff)
  have rows1: "ledger_rows db1 = ledger_rows db" using retainRPMSigningKeys_rows[OF a] by simp
  have m1: "membership_rows db1 = membership_rows db"
    by (rule for_each_membership[where pr = id, OF a[unfolded retainRPMSigningKeysTx_def], simplified])
      (auto simp: retain_key_def membership_rows_def split: if_splits)
  have m2: "membership_rows db2 = membership_rows db" using recordGeneration_membership[OF b] m1 by simp
  have m5: "membership_rows db5 = membership_rows db3"
  proof -
    have "membership_rows db5 = membership_rows db4"
      by (rule for_each_membership[where pr = id, OF f, simplified])
        (auto simp: pool_object_def membership_rows_def split: if_splits)
    with carry_membership[OF d] show ?thesis by simp
  qed
  let ?db4 = "set_built_generation ?g (set_status db5)"
  have m': "membership_rows db' = membership_rows db3"
    by (rule setOperationStateTx_Inr[OF s])
      (use m5 in \<open>auto simp: membership_rows_def append_event_def update_operation_def set_built_generation_def set_status_def split: prod.splits\<close>)
  note P = build_dists_projection[OF c] membership_rows_projection[OF m2] membership_rows_projection[OF m']
  have seen: "set seen = bu_name ` set (fb_dists input)" and "settled seen db3" using P(1) by (auto simp: settled_def)
  then have clean: "\<not> dist_dirty db' d" if "d \<in> set (db_dists db')" "di_name d \<in> bu_name ` set (fb_dists input)" for d
  proof -
    have "di_effective_config d = di_built_config d"
      using that \<open>settled seen db3\<close> seen m' by (auto simp: settled_def membership_rows_def)
    moreover have "map bm_package (built_of db' (di_name d)) = map me_package (desired_of db' (di_name d))"
      using P that(2) by (simp add: built_row_def)
    ultimately show ?thesis by (simp add: dist_dirty_def built_of_def desired_of_def flip: set_map)
  qed
  have "db_repository db' = db_repository ?db4 \<and> state_of db' ?i = Some OperationDone"
    by (rule setOperationStateTx_Inr[OF s]) (auto simp: append_event_def state_of_def find_operation_def update_operation_def find_map_state[OF refl])
  moreover have "unat ?g = Suc (unat (rs_built_generation (db_repository db)))"
    by (rule recordGenerationTx_Inr[OF b]) (use rows1 in \<open>simp add: GenerationNext_Inr ledger_rows_def\<close>)
  ultimately show ?thesis
    using P clean by (auto simp: set_built_generation_def filter_empty_conv)
qed

subsection \<open>A build of one dist\<close>

definition build_operation :: Operation where
  "build_operation = \<lparr>op_id = ''10'', op_kind = ''build'', op_state = OperationBuilt, op_payload = ''{}'',
     op_result = ''{}'', op_error_class = None, op_error_message = None,
     op_created_at = example_now, op_updated_at = example_now\<rparr>"

definition build_ready :: database where
  "build_ready = example_database\<lparr>
     db_repository := (db_repository example_database)\<lparr>rs_built_generation := 0, rs_status := ''dirty''\<rparr>,
     db_operations := [build_operation],
     db_dists := [\<lparr>di_name = ''noble'', di_format = ''deb'', di_effective_config = ''c2'', di_built_config = ''c1'',
        di_built_generation = 0, di_desired_revision = 1, di_signing = ''null''\<rparr>],
     db_memberships := [\<lparr>me_dist = ''noble'', me_package = ''p2'', me_created_revision = 1\<rparr>],
     db_built := [\<lparr>bm_dist = ''noble'', bm_package = ''p1'', bm_generation = 0\<rparr>]\<rparr>"

definition build_file :: GenerationFile where
  "build_file = \<lparr>gf_path = ''dists/noble/Release'', gf_phase = ''pointer'', gf_size = 5,
     gf_sha256 = replicate 64 CHR ''a''\<rparr>"

definition build_input :: FinalizeBuildInput where
  "build_input = \<lparr>fb_operation = ''10'', fb_generation = 1,
     fb_dists = [\<lparr>bu_name = ''noble'', bu_format = ''deb'', bu_config = ''c2'', bu_architectures = [],
        bu_fingerprint = '''', bu_public_key = '''', bu_signer_identity = '''', bu_signing = ''''\<rparr>],
     fb_pooled = [], fb_keys = [], fb_manifest = [build_file],
     fb_changes = [change_of ''add'' build_file], fb_renderer = ''''\<rparr>"

lemma build_ready_valid: "validateGenerationLedgerOn build_ready = Inr ()" by code_simp

lemma build_ready_wf: "ledger_wf build_ready" by code_simp

lemma build_file_normal: "normalizeManifest [build_file] = Inr ([build_file], sha256_hex (manifest_wire [build_file]))"
proof -
  have "\<not> invalid_generation_file LayoutSinglePayloadV1 '''' build_file" by code_simp
  then show ?thesis
    using normalizeManifest_success[of LayoutSinglePayloadV1 "[build_file]"] by (simp add: normalizeManifest_def)
qed

lemma empty_signing: "normalizeEffectiveSigningJSON '''' = Inr ''{}''" by code_simp

lemma build_changes_valid: "validateChanges [change_of ''add'' build_file] = Inr ()" by code_simp

lemma build_changes_diff: "DiffManifests [] [build_file] = [change_of ''add'' build_file]" by code_simp

lemma build_views: "rpmGenerationViewSigning [build_file] = Inr []" by code_simp

lemma example_now_ok: "timestamp_guard example_now" by code_simp

lemma default_renderer_ok: "validSHA256Text DefaultRendererIdentity" by code_simp

lemma change_of_sel: "fc_operation (change_of op f) = op" "fc_phase (change_of op f) = gf_phase f" "fc_size (change_of op f) = gf_size f"
  by (simp_all add: change_of_def)

lemma build_file_sel: "gf_phase build_file = ''pointer''" "gf_size build_file = 5" by (simp_all add: build_file_def)

lemma build_input_accepted: "\<exists>db'. FinalizeBuild (Inr ()) example_now build_input build_ready = (db', Inr ())"
  by (simp add: FinalizeBuild_def build_input_def normalizeRPMSigningKeys_def commit_finalize_from commit_def finalize_from_def
      operationStateTx_def find_operation_def build_ready_def example_database_def build_operation_def
      finalize_build_body_def retainRPMSigningKeysTx_def recordGenerationTx_def build_file_normal empty_signing build_changes_valid build_changes_diff default_renderer_ok Let_def GenerationNext_def MaxGeneration_def
      generationManifestTx_def insert_generation_def find_generation_def insertGenerationFilesTx_def insert_generation_file_def
      change_of_sel build_file_sel canTransition.simps enumerate_simps insertOperationFilesTx_def insert_operation_file_def generationInfoTx_def
      build_dist_def replaceDistMetadataSignerTx_def replaceDistArchitecturesTx_def insert_architectures_def
      insertGenerationDistViewSignersTx_def carryGenerationViewSignersTx_def validateGenerationViewSignerCoverage_def
      build_views
      signers_of_def setOperationStateTx_def example_now_ok rotate_memberships_def set_built_generation_def set_status_def repositoryProjectionStatusTx_def dist_dirty_def ensure_def)

theorem finalize_build_publishes_witness:
  "state_of (fst (FinalizeBuild (Inr ()) example_now build_input build_ready)) ''10'' = Some OperationDone
   \<and> map bm_package (built_of (fst (FinalizeBuild (Inr ()) example_now build_input build_ready)) ''noble'') = [''p2'']
   \<and> map bm_package (prior_of (fst (FinalizeBuild (Inr ()) example_now build_input build_ready)) ''noble'') = [''p1'']"
proof -
  obtain db' where r: "FinalizeBuild (Inr ()) example_now build_input build_ready = (db', Inr ())"
    using build_input_accepted ..
  have "state_of build_ready (fb_operation build_input) = Some OperationBuilt"
    by (simp add: state_of_def find_operation_def build_ready_def build_operation_def build_input_def)
  from finalize_build_publishes[OF r this] have "state_of db' ''10'' = Some OperationDone"
      "built_of db' ''noble'' = map (built_row 1) (desired_of build_ready ''noble'')" "prior_of db' ''noble'' = built_of build_ready ''noble''"
    by (auto simp: build_input_def)
  then show ?thesis
    unfolding r by (simp add: desired_of_def built_of_def build_ready_def built_row_def example_database_def)
qed

lemma build_ready_finalizable: "finalizable build_ready ''10''"
  by (simp add: finalizable_def find_operation_def build_ready_def build_operation_def example_database_def)

theorem finalize_build_keeps_ledger_witness:
  "validateGenerationLedgerOn (fst (FinalizeBuild (Inr ()) example_now build_input build_ready)) = Inr ()"
  using finalize_build_keeps_ledger[OF build_ready_valid build_ready_wf, of build_input "Inr ()" example_now]
    build_ready_finalizable by (simp add: build_input_def)

definition added_dist :: Dist where
  "added_dist = \<lparr>dd_name = ''jammy'', dd_format = ''deb'', dd_config = ''c1'', dd_built_generation = 1,
     dd_architectures = [], dd_fingerprint = '''', dd_public_key = '''', dd_signing = ''''\<rparr>"

theorem finalize_dist_add_keeps_ledger_witness:
  "validateGenerationLedgerOn (fst (FinalizeDistAdd (Inr ()) example_now ''10'' added_dist [build_file]
     [change_of ''add'' build_file] build_ready)) = Inr ()"
  using finalize_dist_add_keeps_ledger[OF build_ready_valid build_ready_wf build_ready_finalizable] by simp

end
