(* ===== verification/Layout_Transition.thy ===== *)
theory Layout_Transition
  imports Ledger_Invariant
begin

section \<open>Layout transition and legacy bootstrap (\<open>repository.go\<close>, \<open>generations.go\<close>)\<close>

text \<open>
  A repository of the old layout moves to the single-payload layout through a plan that is anchored,
  committed with a grace period and completed; the control row carries its identity. The completion
  is one transaction that records a migration generation and flips the layout. A repository without
  a ledger is anchored by the bootstrap of its current generation.
\<close>

subsection \<open>The control row\<close>

definition canonicalTransitionControlTime :: "string \<Rightarrow> bool" where
  "canonicalTransitionControlTime value \<longleftrightarrow> parse_seconds value \<noteq> None"

definition layoutTransitionControlOn :: "database \<Rightarrow> LayoutTransitionControl option result" where
  "layoutTransitionControlOn db =
     (case db_control db of
        None \<Rightarrow> Inr None
      | Some control \<Rightarrow>
          let commitIntentAt = null_string (lc_commit_intent_at control); notBefore = null_string (lc_not_before control)
          in if \<not> IsCanonicalRepositoryID (lc_repository_id control) \<or> \<not> validSHA256Text (lc_target_manifest control)
                \<or> \<not> validSHA256Text (lc_plan_identity control) \<or> \<not> canonicalTransitionControlTime (lc_planned_at control)
                \<or> (commitIntentAt = '''') \<noteq> (notBefore = '''')
                \<or> commitIntentAt \<noteq> '''' \<and> (\<not> canonicalTransitionControlTime commitIntentAt \<or> \<not> canonicalTransitionControlTime notBefore)
             then Inl (GoError [ErrSchema] ''invalid layout transition control'')
             else Inr (Some control))"

definition anchor_plan_tx ::
  "string \<Rightarrow> GenerationID \<Rightarrow> string \<Rightarrow> string \<Rightarrow> string \<Rightarrow> database \<Rightarrow> database result" where
  "anchor_plan_tx repositoryID base target plan plannedAt db =
     (if rs_repository_id (db_repository db) \<noteq> repositoryID \<or> rs_built_generation (db_repository db) \<noteq> base
         \<or> rs_layout_version (db_repository db) \<noteq> LayoutC2ToSingleV1
      then Inl (GoError [ErrConflict] ''transition plan differs from repository base/layout'')
      else case db_control db of
             None \<Rightarrow> Inr (db\<lparr>db_control := Some \<lparr>lc_repository_id = repositoryID, lc_base_generation = base,
                 lc_target_manifest = target, lc_plan_identity = plan, lc_planned_at = plannedAt,
                 lc_commit_intent_at = None, lc_not_before = None\<rparr>\<rparr>)
           | Some existing \<Rightarrow>
               (if lc_repository_id existing \<noteq> repositoryID \<or> lc_base_generation existing \<noteq> base
                   \<or> lc_target_manifest existing \<noteq> target \<or> lc_plan_identity existing \<noteq> plan
                   \<or> lc_planned_at existing \<noteq> plannedAt
                then Inl (GoError [ErrConflict] ''transition plan anchor changed'') else Inr db))"

definition AnchorLayoutTransitionPlan ::
  "unit result \<Rightarrow> string \<Rightarrow> GenerationID \<Rightarrow> string \<Rightarrow> string \<Rightarrow> string \<Rightarrow> database \<Rightarrow> database \<times> unit result" where
  "AnchorLayoutTransitionPlan ckpt repositoryID base target plan plannedAt db =
     (if \<not> IsCanonicalRepositoryID repositoryID \<or> \<not> validSHA256Text target \<or> \<not> validSHA256Text plan
         \<or> \<not> canonicalTransitionControlTime plannedAt
      then (db, Inl (plain_error ''invalid layout transition plan anchor''))
      else commit ckpt (anchor_plan_tx repositoryID base target plan plannedAt) db)"

text \<open>\<open>30*24*time.Hour\<close>, in seconds; both times have whole seconds.\<close>

definition transition_grace :: int where
  "transition_grace = 30 * 24 * 3600"

definition seconds_between :: "string \<Rightarrow> string \<Rightarrow> int" where
  "seconds_between start deadline =
     (case (parse_seconds start, parse_seconds deadline) of
        (Some s, Some d) \<Rightarrow> unix_like_seconds d - unix_like_seconds s | _ \<Rightarrow> 0)"

definition commit_plan_tx :: "string \<Rightarrow> string \<Rightarrow> string \<Rightarrow> database \<Rightarrow> database result" where
  "commit_plan_tx plan commitIntentAt notBefore db =
     (case db_control db of
        None \<Rightarrow> Inl (plain_error ''no rows'')
      | Some control \<Rightarrow>
          if lc_plan_identity control = plan \<and> lc_commit_intent_at control = None \<and> lc_not_before control = None
          then Inr (db\<lparr>db_control := Some (control\<lparr>lc_commit_intent_at := Some commitIntentAt, lc_not_before := Some notBefore\<rparr>)\<rparr>)
          else if lc_plan_identity control \<noteq> plan \<or> lc_commit_intent_at control \<noteq> Some commitIntentAt
                  \<or> lc_not_before control \<noteq> Some notBefore
          then Inl (GoError [ErrConflict] ''transition commit anchor changed'') else Inr db)"

definition CommitLayoutTransitionPlan ::
  "unit result \<Rightarrow> string \<Rightarrow> string \<Rightarrow> string \<Rightarrow> database \<Rightarrow> database \<times> unit result" where
  "CommitLayoutTransitionPlan ckpt plan commitIntentAt notBefore db =
     (if \<not> validSHA256Text plan \<or> \<not> canonicalTransitionControlTime commitIntentAt \<or> \<not> canonicalTransitionControlTime notBefore
      then (db, Inl (plain_error ''invalid layout transition commit anchor''))
      else if seconds_between commitIntentAt notBefore < transition_grace
      then (db, Inl (plain_error ''layout transition grace is shorter than 30 days''))
      else commit ckpt (commit_plan_tx plan commitIntentAt notBefore) db)"

definition abandon_plan_tx :: "database \<Rightarrow> database result" where
  "abandon_plan_tx db =
     (if rs_layout_version (db_repository db) \<noteq> LayoutC2ToSingleV1
      then Inl (GoError [ErrTransition] ''repository is not in the C2 transition layout'')
      else if (case db_control db of None \<Rightarrow> False | Some control \<Rightarrow> lc_commit_intent_at control \<noteq> None)
      then Inl (GoError [ErrTransition] ''committed layout transition cannot be abandoned'')
      else Inr (db\<lparr>db_control := None\<rparr>))"

definition AbandonLayoutTransition :: "unit result \<Rightarrow> database \<Rightarrow> database \<times> unit result" where
  "AbandonLayoutTransition ckpt db = commit ckpt abandon_plan_tx db"

subsection \<open>Recording a closed operation\<close>

text \<open>The audit operation of a one-transaction change: the row in its final state with its events.\<close>

definition insert_done_operation ::
  "string \<Rightarrow> string \<Rightarrow> string \<Rightarrow> string \<Rightarrow> string \<Rightarrow> OperationState list \<Rightarrow> database \<Rightarrow> database result" where
  "insert_done_operation now operationID kind payload outcome states db =
     (if find_operation db operationID \<noteq> None \<or> \<not> timestamp_guard now then Inl (plain_error ''record operation'')
      else let db' = db\<lparr>db_operations := db_operations db @ [\<lparr>op_id = operationID, op_kind = kind, op_state = OperationDone,
                  op_payload = payload, op_result = outcome, op_error_class = None, op_error_message = None,
                  op_created_at = now, op_updated_at = now\<rparr>]\<rparr>
           in for_each (\<lambda>db (sequence, state).
                if list_ex (\<lambda>e. ev_sequence e = sequence) (events_of db operationID) then Inl (plain_error ''record event'')
                else Inr (append_event operationID sequence state ''{}'' now db)) db' (enumerate 0 states))"

subsection \<open>Completing the transition\<close>

text \<open>The completion joins the parts of a view with slashes, without cleaning.\<close>

definition transition_view_signers :: "database \<Rightarrow> (string \<times> string \<times> string) list" where
  "transition_view_signers db =
     map (\<lambda>(name, family, fingerprint, key). (''dists/'' @ name @ ''/'' @ family, fingerprint, key))
       (sort_key (\<lambda>(name, family, _, _). (name, family)) (current_signer_rows db))"

definition insert_transition_signers :: "GenerationID \<Rightarrow> database \<Rightarrow> database result" where
  "insert_transition_signers target db =
     for_each (\<lambda>db' (viewID, fingerprint, key).
       if fingerprint \<noteq> '''' \<and> key = '''' then Inl (plain_error ''signed RPM view lacks retained public key'')
       else insert_view_signer db' \<lparr>vs_generation = target, vs_view = viewID,
              vs_identity = (if fingerprint \<noteq> '''' then sha256_hex key else ''none''),
              vs_public_key = (if fingerprint \<noteq> '''' then Some key else None)\<rparr>) db (transition_view_signers db)"

definition is_rpm_dist :: "database \<Rightarrow> string \<Rightarrow> bool" where
  "is_rpm_dist db name \<longleftrightarrow> list_ex (\<lambda>d. di_name d = name \<and> di_format d = ''rpm'') (db_dists db)"

text \<open>Only RPM views are rewritten: their built packages become prior ones and move to the new generation.\<close>

definition move_rpm_projections :: "GenerationID \<Rightarrow> database \<Rightarrow> database" where
  "move_rpm_projections target db =
     db\<lparr>db_prior_built := filter (\<lambda>m. \<not> is_rpm_dist db (bm_dist m)) (db_prior_built db)
          @ filter (\<lambda>m. is_rpm_dist db (bm_dist m)) (db_built db),
        db_built := map (\<lambda>m. if is_rpm_dist db (bm_dist m) then m\<lparr>bm_generation := target\<rparr> else m) (db_built db),
        db_dists := map (\<lambda>d. if di_format d = ''rpm'' then d\<lparr>di_built_generation := target\<rparr> else d) (db_dists db),
        db_architectures := map (\<lambda>a. if is_rpm_dist db (da_dist a) then a\<lparr>da_built_generation := target\<rparr> else a) (db_architectures db)\<rparr>"

definition transition_payload :: "GenerationID \<Rightarrow> GenerationID \<Rightarrow> string \<Rightarrow> string" where
  "transition_payload base target receipt =
     [CHR ''{'', CHR 0x22] @ ''base_generation'' @ [CHR 0x22, CHR '':'', CHR 0x22] @ GenerationString base
       @ [CHR 0x22, CHR '','', CHR 0x22] @ ''target_generation'' @ [CHR 0x22, CHR '':'', CHR 0x22] @ GenerationString target
       @ [CHR 0x22, CHR '','', CHR 0x22] @ ''transition_receipt_sha256'' @ [CHR 0x22, CHR '':'', CHR 0x22] @ receipt
       @ [CHR 0x22, CHR ''}'']"

definition json_true_member :: "string \<Rightarrow> string" where
  "json_true_member name = [CHR ''{'', CHR 0x22] @ name @ [CHR 0x22, CHR '':''] @ ''true}''"

definition transition_anchored :: "GenerationID \<Rightarrow> string \<Rightarrow> database \<Rightarrow> bool" where
  "transition_anchored base manifestSHA db =
     (case db_control db of
        None \<Rightarrow> False
      | Some control \<Rightarrow>
          lc_repository_id control = rs_repository_id (db_repository db) \<and> lc_base_generation control = base
          \<and> lc_target_manifest control = manifestSHA \<and> lc_commit_intent_at control \<noteq> None \<and> lc_not_before control \<noteq> None)"

definition complete_transition_tx ::
  "string \<Rightarrow> string \<Rightarrow> GenerationID \<Rightarrow> GenerationID \<Rightarrow> GenerationFile list \<Rightarrow> string \<Rightarrow> string \<Rightarrow> database \<Rightarrow> database result" where
  "complete_transition_tx now operationID base target manifest manifestSHA receipt db =
     (if rs_built_generation (db_repository db) \<noteq> base \<or> rs_layout_version (db_repository db) \<noteq> LayoutC2ToSingleV1
      then Inl (GoError [ErrConflict] ''transition base/layout changed'')
      else if \<not> transition_anchored base manifestSHA db
      then Inl (GoError [ErrConflict] ''transition completion differs from committed control anchor'')
      else and_then (generationManifestTx db base) (\<lambda>baseManifest.
           let changes = DiffManifests baseManifest manifest
           in and_then (insert_done_operation now operationID ''layout.migrate'' (transition_payload base target receipt)
                (json_true_member ''migrated'') [OperationPlanned, OperationStaged, OperationBuilt, OperationDone] db) (\<lambda>db.
              and_then (insert_generation \<lparr>gi_generation = target, gi_previous = base, gi_operation = operationID,
                gi_manifest = manifestSHA, gi_renderer = DefaultRendererIdentity, gi_created_at = now\<rparr> db) (\<lambda>db.
              and_then (insertGenerationFilesTx target manifest db) (\<lambda>db.
              and_then (insert_transition_signers target db) (\<lambda>db.
              and_then (validateGenerationViewSignerCoverage db target manifest) (\<lambda>_.
              and_then (insertOperationFilesTx operationID changes db) (\<lambda>db.
              let db = move_rpm_projections target db
              in Inr (db\<lparr>db_repository := (db_repository db)\<lparr>rs_built_generation := target,
                   rs_layout_version := LayoutSinglePayloadV1, rs_transition_receipt := Some receipt\<rparr>\<rparr>)))))))))"

text \<open>The generation returned is the new one also when only the checkpoint after the commit failed.\<close>

definition CompleteLayoutTransition ::
  "unit result \<Rightarrow> string \<Rightarrow> string \<Rightarrow> GenerationID \<Rightarrow> GenerationFile list \<Rightarrow> string \<Rightarrow> database \<Rightarrow> database \<times> GenerationID \<times> unit result" where
  "CompleteLayoutTransition ckpt now operationID base inputManifest receipt db =
     (if \<not> operationIDPattern operationID \<or> \<not> validSHA256Text receipt
      then (db, 0, Inl (plain_error ''invalid layout transition completion identity''))
      else case GenerationNext base of
             Inl e \<Rightarrow> (db, 0, Inl e)
           | Inr target \<Rightarrow>
               (case normalizeManifestForLayout inputManifest LayoutSinglePayloadV1 of
                  Inl e \<Rightarrow> (db, 0, Inl e)
                | Inr (manifest, manifestSHA) \<Rightarrow>
                    (case complete_transition_tx now operationID base target manifest manifestSHA receipt db of
                       Inl e \<Rightarrow> (db, 0, Inl e)
                     | Inr db' \<Rightarrow> (db', target, ckpt))))"

subsection \<open>Anchoring a repository without a ledger\<close>

definition bootstrap_payload :: "GenerationID \<Rightarrow> string" where
  "bootstrap_payload generation =
     [CHR ''{'', CHR 0x22] @ ''generation'' @ [CHR 0x22, CHR '':'', CHR 0x22] @ GenerationString generation
       @ [CHR 0x22, CHR '','', CHR 0x22] @ ''source'' @ [CHR 0x22, CHR '':'', CHR 0x22] @ ''schema-v1'' @ [CHR 0x22, CHR ''}'']"

definition bootstrap_tx ::
  "string \<Rightarrow> string \<Rightarrow> GenerationID \<Rightarrow> GenerationFile list \<Rightarrow> string \<Rightarrow> FileChange list \<Rightarrow> database \<Rightarrow> database result" where
  "bootstrap_tx now operationID generation manifest manifestSHA changes db =
     (if rs_built_generation (db_repository db) \<noteq> generation \<or> db_generations db \<noteq> []
         \<or> list_ex (\<lambda>r. \<not> isTerminal (op_state r)) (db_operations db)
      then Inl (GoError [ErrConflict] ''legacy generation bootstrap requires one settled unanchored current generation'')
      else and_then (insert_done_operation now operationID ''generation.bootstrap'' (bootstrap_payload generation)
             (json_true_member ''bootstrapped'') [OperationPlanned, OperationBuilt, OperationDone] db) (\<lambda>db.
           and_then (insert_generation \<lparr>gi_generation = generation, gi_previous = ZeroGeneration, gi_operation = operationID,
             gi_manifest = manifestSHA, gi_renderer = replicate 64 CHR ''0'', gi_created_at = now\<rparr> db) (\<lambda>db.
           and_then (insertGenerationFilesTx generation manifest db) (\<lambda>db.
           and_then (insertCurrentGenerationViewSignersTx generation db) (\<lambda>db.
           and_then (validateGenerationViewSignerCoverage db generation manifest) (\<lambda>_.
             insertOperationFilesTx operationID changes db))))))"

definition BootstrapLegacyGeneration ::
  "unit result \<Rightarrow> string \<Rightarrow> string \<Rightarrow> GenerationID \<Rightarrow> GenerationFile list \<Rightarrow> database \<Rightarrow> database \<times> unit result" where
  "BootstrapLegacyGeneration ckpt now operationID generation inputManifest db =
     (if \<not> operationIDPattern operationID \<or> generation < 1
      then (db, Inl (plain_error ''invalid legacy generation bootstrap''))
      else case and_then (repositoryIdentityOn db) (\<lambda>identity.
                let layout = manifest_layout identity
                in and_then (normalizeManifestForLayout inputManifest layout) (\<lambda>(manifest, manifestSHA).
                   let changes = DiffManifests [] manifest
                   in and_then (validateChangesForLayout changes layout) (\<lambda>_. Inr (manifest, manifestSHA, changes)))) of
             Inl e \<Rightarrow> (db, Inl e)
           | Inr (manifest, manifestSHA, changes) \<Rightarrow>
               commit ckpt (bootstrap_tx now operationID generation manifest manifestSHA changes) db)"

subsection \<open>The identity of a retained generation\<close>

definition GenerationRetentionIdentity :: "database \<Rightarrow> GenerationID \<Rightarrow> (string \<times> string) result" where
  "GenerationRetentionIdentity db generation =
     and_then (getGenerationOn db generation) (\<lambda>info.
     and_then (generationManifestOn db generation) (\<lambda>manifest.
     and_then (validateGenerationViewSignerCoverage db generation manifest) (\<lambda>_.
     and_then (requireVerifiedGenerationSigners db generation) (\<lambda>_.
       case sort (remdups (map vs_identity (signers_of db generation))) of
         [] \<Rightarrow> Inr (gi_renderer info, ''none'')
       | [signer] \<Rightarrow> Inr (gi_renderer info, signer)
       | _ \<Rightarrow> Inl (GoError [ErrConflict] ''Generation has heterogeneous RPM signer identities'')))))"

subsection \<open>The control row as a state machine\<close>

inductive transition_step :: "database \<Rightarrow> database \<Rightarrow> bool" where
  anchor: "transition_step db (fst (AnchorLayoutTransitionPlan ckpt repositoryID base target plan plannedAt db))"
| commit_plan: "transition_step db (fst (CommitLayoutTransitionPlan ckpt plan commitIntentAt notBefore db))"
| abandon: "transition_step db (fst (AbandonLayoutTransition ckpt db))"
| complete: "transition_step db (fst (CompleteLayoutTransition ckpt now operationID generation manifest receipt db))"

inductive transition_reachable :: "database \<Rightarrow> database \<Rightarrow> bool" where
  initial: "transition_reachable db db"
| extend: "transition_reachable db db' \<Longrightarrow> transition_step db' db'' \<Longrightarrow> transition_reachable db db''"

text \<open>A control row as its writers leave it: canonical, and committed only with the full grace.\<close>

definition control_ok :: "LayoutTransitionControl option \<Rightarrow> bool" where
  "control_ok control = (case control of None \<Rightarrow> True | Some c \<Rightarrow>
     IsCanonicalRepositoryID (lc_repository_id c) \<and> validSHA256Text (lc_target_manifest c)
     \<and> validSHA256Text (lc_plan_identity c) \<and> canonicalTransitionControlTime (lc_planned_at c)
     \<and> (case (lc_commit_intent_at c, lc_not_before c) of
          (None, None) \<Rightarrow> True
        | (Some start, Some deadline) \<Rightarrow> canonicalTransitionControlTime start \<and> canonicalTransitionControlTime deadline
            \<and> transition_grace \<le> seconds_between start deadline
        | _ \<Rightarrow> False))"

lemma canonical_time_ne: "canonicalTransitionControlTime t \<Longrightarrow> t \<noteq> ''''"
  by (auto simp: canonicalTransitionControlTime_def parse_seconds_def Let_def format_seconds_def format_date_def split: if_splits)

lemma for_each_control:
  assumes "for_each f s xs = Inr s'" and "\<And>s x s'. f s x = Inr s' \<Longrightarrow> db_control s' = db_control s"
  shows "db_control s' = db_control s"
  by (rule for_each_invariant[where P = "\<lambda>t. db_control t = db_control s", OF assms(1)]) (auto dest: assms(2))

lemma insert_done_operation_control: "insert_done_operation now i k p r ss db = Inr db' \<Longrightarrow> db_control db' = db_control db"
  unfolding insert_done_operation_def Let_def
  by (auto simp: append_event_def split: if_splits dest!: for_each_control)

lemma complete_control:
  assumes "complete_transition_tx now i base target manifest sha receipt db = Inr db'"
  shows "db_control db' = db_control db"
proof -
  from assms obtain bm db1 db2 db3 db4 db5 where
    "insert_done_operation now i ''layout.migrate'' (transition_payload base target receipt)
       (json_true_member ''migrated'') [OperationPlanned, OperationStaged, OperationBuilt, OperationDone] db = Inr db1"
    "insert_generation \<lparr>gi_generation = target, gi_previous = base, gi_operation = i,
        gi_manifest = sha, gi_renderer = DefaultRendererIdentity, gi_created_at = now\<rparr> db1 = Inr db2"
    and f: "insertGenerationFilesTx target manifest db2 = Inr db3" and s: "insert_transition_signers target db3 = Inr db4"
    and c: "insertOperationFilesTx i (DiffManifests bm manifest) db4 = Inr db5"
    and "db_control db' = db_control db5"
    by (auto simp: complete_transition_tx_def Let_def and_then_Inr_iff move_rpm_projections_def split: if_splits)
  moreover have "db_control db4 = db_control db3"
    using s unfolding insert_transition_signers_def
    by (rule for_each_control) (auto simp: insert_view_signer_def split: if_splits)
  ultimately show ?thesis
    using insert_files_Inr[OF f] insert_changes_Inr[OF c[unfolded insertOperationFilesTx_def]] insert_done_operation_control
    by (auto simp: insert_generation_def split: if_splits)
qed

lemma transition_step_control:
  assumes "transition_step db db'"
  shows "control_ok (db_control db) \<Longrightarrow> control_ok (db_control db')"
    and "db_control db = Some c \<Longrightarrow> lc_commit_intent_at c \<noteq> None \<Longrightarrow> db_control db' = Some c"
  using assms
proof (induction)
  case (anchor db ckpt repositoryID base target plan plannedAt)
  { case 1 then show ?case
      by (auto simp: AnchorLayoutTransitionPlan_def commit_fst anchor_plan_tx_def control_ok_def split: option.splits) }
  { case 2 then show ?case
      by (auto simp: AnchorLayoutTransitionPlan_def commit_fst anchor_plan_tx_def) }
next
  case (commit_plan db ckpt plan commitIntentAt notBefore)
  { case 1 then show ?case
      by (auto simp: CommitLayoutTransitionPlan_def commit_fst commit_plan_tx_def control_ok_def split: option.splits sum.splits if_splits) }
  { case 2 then show ?case
      by (auto simp: CommitLayoutTransitionPlan_def commit_fst commit_plan_tx_def) }
next
  case (abandon db ckpt)
  { case 1 then show ?case
      by (auto simp: AbandonLayoutTransition_def commit_fst abandon_plan_tx_def control_ok_def split: option.splits) }
  { case 2 then show ?case
      by (auto simp: AbandonLayoutTransition_def commit_fst abandon_plan_tx_def) }
next
  case (complete db ckpt now i g m r)
  have "db_control (fst (CompleteLayoutTransition ckpt now i g m r db)) = db_control db"
    by (auto simp: CompleteLayoutTransition_def dest: complete_control split: sum.splits prod.splits)
  { case 1 then show ?case using \<open>db_control (fst _) = _\<close> by simp }
  { case 2 then show ?case using \<open>db_control (fst _) = _\<close> by simp }
qed

text \<open>C19. The control row of a layout transition is always well formed and no transition is ever committed with
  less than thirty days of grace: starting from a repository without a plan, whatever sequence of
  anchoring, committing, abandoning and completing follows, the row reads back without an error and,
  once committed, its deadline is at least thirty days after the commit.\<close>

theorem transition_control_sound:
  assumes "transition_reachable db db'" and "db_control db = None"
  shows "layoutTransitionControlOn db' = Inr (db_control db') \<and> control_ok (db_control db')"
proof -
  have "control_ok (db_control db')"
    using assms by (induction rule: transition_reachable.induct)
      (auto intro: transition_step_control(1) simp: control_ok_def[of None])
  then show ?thesis
    by (auto simp: layoutTransitionControlOn_def control_ok_def Let_def null_string_def dest: canonical_time_ne split: option.splits)
qed

text \<open>C20. A committed layout transition is final: no later sequence of calls abandons or changes its control row.\<close>

theorem committed_transition_final:
  assumes "transition_reachable db db'" and "db_control db = Some c" and "lc_commit_intent_at c \<noteq> None"
  shows "db_control db' = Some c"
  using assms by (induction rule: transition_reachable.induct) (auto dest: transition_step_control(2))

subsection \<open>Completing a transition keeps the ledger valid\<close>

lemma for_each_unit: "(\<And>x. x \<in> set xs \<Longrightarrow> f () x = Inr ()) \<Longrightarrow> for_each f () xs = Inr ()"
  by (induction xs) auto

lemma fileByPath_in: "fileByPath fs p = Some f \<Longrightarrow> f \<in> set fs"
  using fileByPath_Some by blast

lemma DiffManifests_valid_changes:
  assumes layout: "layout = LayoutC2V1 \<or> layout = LayoutSinglePayloadV1"
    and target: "\<forall>f \<in> set target. \<not> invalid_generation_file layout '''' f"
    and base: "\<forall>f \<in> set base. \<not> invalid_generation_file old '''' f"
  shows "validateChangesForLayout (DiffManifests base target) layout = Inr ()"
proof -
  have path: "visibleASCIIPath (gf_path f) \<and> path_Clean (gf_path f) = gf_path f \<and> \<not> HasPrefix (gf_path f) ''/'' \<and> \<not> HasPrefix (gf_path f) ''../''"
    if "\<not> invalid_generation_file l '''' f" for l f
    using that by (simp add: invalid_generation_file_def)
  have written: "validate_change layout (change_of op f) = Inr ()"
    if "f \<in> set target" "op = ''add'' \<or> op = ''update''" for f op
    using target that path[of layout f] by (auto simp: validate_change_def change_of_def invalid_generation_file_def)
  have deleted: "validate_change layout (delete_of (gf_path g)) = Inr ()" if "g \<in> set base" for g
    using base that path[of old g] by (auto simp: validate_change_def delete_of_def)
  have "validate_change layout c = Inr ()" if "c \<in> set (DiffManifests base target)" for c
    using that
  proof (cases rule: DiffManifests_cases)
    case (add f)
    then show ?thesis using written[OF fileByPath_in] by metis
  next
    case (update f g)
    then show ?thesis using written[OF fileByPath_in] by metis
  next
    case (delete g)
    then show ?thesis using deleted[of g] fileByPath_Some[of base "fc_path c" g] by metis
  qed
  then have "for_each (\<lambda>_. validate_change layout) () (DiffManifests base target) = Inr ()"
    by (rule for_each_unit)
  with layout show ?thesis by (auto simp: validateChangesForLayout_def)
qed

lemma insert_done_operation_Inr:
  assumes "insert_done_operation now i kind payload outcome states db = Inr db'"
  obtains events where "find_operation db i = None"
    "db' = db\<lparr>db_operations := db_operations db @ [\<lparr>op_id = i, op_kind = kind, op_state = OperationDone,
       op_payload = payload, op_result = outcome, op_error_class = None, op_error_message = None,
       op_created_at = now, op_updated_at = now\<rparr>], db_events := events\<rparr>"
proof -
  let ?db = "db\<lparr>db_operations := db_operations db @ [\<lparr>op_id = i, op_kind = kind, op_state = OperationDone,
       op_payload = payload, op_result = outcome, op_error_class = None, op_error_message = None,
       op_created_at = now, op_updated_at = now\<rparr>]\<rparr>"
  have none: "find_operation db i = None"
    and loop: "for_each (\<lambda>db (sequence, state).
                if list_ex (\<lambda>e. ev_sequence e = sequence) (events_of db i) then Inl (plain_error ''record event'')
                else Inr (append_event i sequence state ''{}'' now db)) ?db (enumerate 0 states) = Inr db'"
    using assms by (auto simp: insert_done_operation_def Let_def split: if_splits)
  have "\<exists>events. db' = ?db\<lparr>db_events := events\<rparr>"
    by (rule for_each_invariant[OF loop])
      (auto simp: append_event_def split: if_splits intro: exI[of _ "db_events db"])
  with that none show thesis by auto
qed

lemma transition_signers_grow:
  assumes "insert_transition_signers g db = Inr db'"
  shows "signers_grow g db db'"
  by (rule for_each_grow[where pr = id, OF assms[unfolded insert_transition_signers_def], simplified])
    (auto split: if_splits dest!: insert_view_signer_grow simp: sha256_hex_not_unverified GenerationSignerUnverified_def[symmetric],
     auto simp: GenerationSignerUnverified_def)

lemma complete_transition_Inr:
  assumes "complete_transition_tx now i base target manifest sha receipt db = Inr db'"
  obtains bm info where
    "rs_built_generation (db_repository db) = base" "rs_layout_version (db_repository db) = LayoutC2ToSingleV1"
    "transition_anchored base sha db" "generationManifestTx db base = Inr bm" "find_operation db i = None" "target \<noteq> 0"
    "gi_generation info = target" "gi_previous info = base" "gi_operation info = i" "gi_manifest info = sha"
    "distinct (map op_id (db_operations db)) \<Longrightarrow> extends_ledger db db' info manifest (DiffManifests bm manifest)"
    "validateGenerationViewSignerCoverage db' target manifest = Inr ()"
    "find_operation db' i = Some \<lparr>op_id = i, op_kind = ''layout.migrate'', op_state = OperationDone,
       op_payload = transition_payload base target receipt, op_result = json_true_member ''migrated'',
       op_error_class = None, op_error_message = None, op_created_at = now, op_updated_at = now\<rparr>"
    "rs_repository_id (db_repository db') = rs_repository_id (db_repository db)"
    "rs_layout_version (db_repository db') = LayoutSinglePayloadV1" "rs_transition_receipt (db_repository db') = Some receipt"
proof -
  define info :: GenerationInfo where "info = \<lparr>gi_generation = target, gi_previous = base, gi_operation = i,
        gi_manifest = sha, gi_renderer = DefaultRendererIdentity, gi_created_at = now\<rparr>"
  from assms obtain bm db1 db2 db3 db4 db5 where
    guards: "rs_built_generation (db_repository db) = base" "rs_layout_version (db_repository db) = LayoutC2ToSingleV1"
      "transition_anchored base sha db" "generationManifestTx db base = Inr bm"
    and o: "insert_done_operation now i ''layout.migrate'' (transition_payload base target receipt)
       (json_true_member ''migrated'') [OperationPlanned, OperationStaged, OperationBuilt, OperationDone] db = Inr db1"
    and g: "insert_generation info db1 = Inr db2"
    and f: "insertGenerationFilesTx target manifest db2 = Inr db3" and s: "insert_transition_signers target db3 = Inr db4"
    and cov: "validateGenerationViewSignerCoverage db4 target manifest = Inr ()"
    and c: "insertOperationFilesTx i (DiffManifests bm manifest) db4 = Inr db5"
    and db': "db' = (move_rpm_projections target db5)\<lparr>db_repository := (db_repository (move_rpm_projections target db5))\<lparr>
        rs_built_generation := target, rs_layout_version := LayoutSinglePayloadV1, rs_transition_receipt := Some receipt\<rparr>\<rparr>"
    by (auto simp: complete_transition_tx_def Let_def and_then_Inr_iff info_def split: if_splits)
  obtain events where o1: "find_operation db i = None"
    "db1 = db\<lparr>db_operations := db_operations db @ [\<lparr>op_id = i, op_kind = ''layout.migrate'', op_state = OperationDone,
       op_payload = transition_payload base target receipt, op_result = json_true_member ''migrated'',
       op_error_class = None, op_error_message = None, op_created_at = now, op_updated_at = now\<rparr>], db_events := events\<rparr>"
    by (rule insert_done_operation_Inr[OF o]) (rule that)
  have g2: "db2 = db1\<lparr>db_generations := db_generations db1 @ [info]\<rparr>" "target \<noteq> 0"
    using g by (auto simp: insert_generation_def info_def split: if_splits)
  note f3 = insert_files_Inr[OF f] and c5 = insert_changes_Inr[OF c[unfolded insertOperationFilesTx_def]]
  have grow: "ledger_rows db4 = ledger_rows db3" and
    "\<exists>new. db_view_signers db4 = db_view_signers db3 @ new \<and>
       list_all (\<lambda>r. vs_generation r = target \<and> vs_identity r \<noteq> GenerationSignerUnverified) new"
    using transition_signers_grow[OF s] by (auto simp: signers_grow_def)
  then obtain new where new: "db_view_signers db4 = db_view_signers db3 @ new"
      "list_all (\<lambda>r. vs_generation r = target \<and> vs_identity r \<noteq> GenerationSignerUnverified) new" by blast
  have rows: "db_operations db' = db_operations db1" "db_generations db' = db_generations db @ [info]"
    "db_generation_files db' = db_generation_files db @ map (Pair target) manifest"
    "db_operation_files db' = db_operation_files db @ change_rows i 0 (DiffManifests bm manifest)"
    "db_view_signers db' = db_view_signers db @ new" "db_view_signers db' = db_view_signers db4"
    "db_repository db' = (db_repository db)\<lparr>rs_built_generation := target, rs_layout_version := LayoutSinglePayloadV1,
        rs_transition_receipt := Some receipt\<rparr>"
    using db' c5 grow new(1) f3 g2(1) o1(2) by (simp_all add: move_rpm_projections_def ledger_rows_def)
  have find: "find_operation db' j = (if j = i then Some (last (db_operations db1)) else find_operation db j)" for j
    using o1 by (auto simp: find_operation_def rows(1) find_snoc split: option.splits)
  have ext: "extends_ledger db db' info manifest (DiffManifests bm manifest)" if "distinct (map op_id (db_operations db))"
    using that o1(1) new(2) find rows unfolding extends_ledger_def
    by (auto simp: info_def o1(2) find_operation_None)
  have cov': "validateGenerationViewSignerCoverage db' target manifest = Inr ()"
    by (rule coverage_perm[OF cov]) (simp_all add: signers_of_def rows(6))
  show thesis
    by (rule that[of bm info]) (use guards o1 g2(2) ext cov' find[of i] rows in \<open>simp_all add: info_def\<close>)
qed

lemma ledger_head_manifest_valid:
  assumes valid: "validateGenerationLedgerOn db = Inr ()" and wf: "ledger_wf db"
    and base: "generationManifestTx db (rs_built_generation (db_repository db)) = Inr bm"
  shows "\<exists>layout. \<forall>f \<in> set bm. \<not> invalid_generation_file layout '''' f"
proof (cases "db_generations db = []")
  case True
  then have "bm = []"
    using valid base by (auto simp: validateGenerationLedgerOn_def Let_def and_then_Inr_iff generationManifestTx_def split: if_splits)
  then show ?thesis by simp
next
  case False
  let ?infos = "sort_key gi_generation (db_generations db)" and ?prev = "rs_built_generation (db_repository db)"
  from valid obtain identity where id: "repositoryIdentityOn db = Inr identity"
    by (auto simp: validateGenerationLedgerOn_def and_then_Inr_iff)
  obtain ls where fold: "for_each (ledger_step db identity ?prev) ledger_start ?infos = Inr ls"
      and prev: "?prev = (if ?infos = [] then 0 else gi_generation (last ?infos))"
    by (rule ledger_valid_fold[OF valid wf id]) (rule that)
  from False have split: "?infos = butlast ?infos @ [last ?infos]" by simp
  from fold obtain u where step: "ledger_step db identity ?prev u (last ?infos) = Inr ls"
    by (subst (asm) split) (auto simp: for_each_append and_then_Inr_iff)
  have "last ?infos \<in> set (db_generations db)" using False last_in_set[of ?infos] by simp
  then have nz: "gi_generation (last ?infos) \<noteq> 0" using wf by (auto simp: ledger_wf_def list_all_iff)
  obtain layout where c: "ledger_contents db ?prev layout (ls_manifest u) (last ?infos) = Inr (ls_manifest ls)"
    by (rule ledger_step_Inr[OF step]) (rule that)
  then have "bm = ls_manifest ls"
    using ledger_contents_files[OF c nz] base prev nz False by (auto simp: generationManifestTx_def split: if_splits)
  moreover from c obtain fs where "normalizeManifestForLayout fs layout = Inr (ls_manifest ls, gi_manifest (last ?infos))"
    by (auto simp: ledger_contents_Inr)
  ultimately show ?thesis using normalizeManifest_Inr(3) by blast
qed

text \<open>C18. Completing a layout transition keeps the generation ledger valid: the generations of the old layout are
  still judged by the old rules, the migration generation by the new ones, and the receipt of the
  transition is backed by exactly that generation. The completion succeeds only for the manifest the
  committed control row was anchored to.\<close>

theorem complete_transition_keeps_ledger:
  assumes valid: "validateGenerationLedgerOn db = Inr ()" and wf: "ledger_wf db"
    and done_: "CompleteLayoutTransition (Inr ()) now i base input receipt db = (db', target, Inr ())"
  shows "validateGenerationLedgerOn db' = Inr () \<and> ledger_wf db' \<and> requireTerminalLayoutOn db' = Inr ()
    \<and> rs_built_generation (db_repository db') = target \<and> GenerationNext base = Inr target
    \<and> (\<exists>c. db_control db = Some c \<and> lc_commit_intent_at c \<noteq> None
        \<and> lc_target_manifest c = sha256_hex (manifest_wire (files_of db' target)))"
proof -
  from done_ obtain manifest sha where receipt: "validSHA256Text receipt"
    and nx: "GenerationNext base = Inr target"
    and n: "normalizeManifestForLayout input LayoutSinglePayloadV1 = Inr (manifest, sha)"
    and tx: "complete_transition_tx now i base target manifest sha receipt db = Inr db'"
    by (auto simp: CompleteLayoutTransition_def split: sum.splits if_splits)
  note N = normalizeManifest_Inr[OF n]
  obtain bm info where c:
    "rs_built_generation (db_repository db) = base" "rs_layout_version (db_repository db) = LayoutC2ToSingleV1"
    "transition_anchored base sha db" "generationManifestTx db base = Inr bm" "find_operation db i = None" "target \<noteq> 0"
    "gi_generation info = target" "gi_previous info = base" "gi_operation info = i" "gi_manifest info = sha"
    "distinct (map op_id (db_operations db)) \<Longrightarrow> extends_ledger db db' info manifest (DiffManifests bm manifest)"
    "validateGenerationViewSignerCoverage db' target manifest = Inr ()"
    "find_operation db' i = Some \<lparr>op_id = i, op_kind = ''layout.migrate'', op_state = OperationDone,
       op_payload = transition_payload base target receipt, op_result = json_true_member ''migrated'',
       op_error_class = None, op_error_message = None, op_created_at = now, op_updated_at = now\<rparr>"
    "rs_repository_id (db_repository db') = rs_repository_id (db_repository db)"
    "rs_layout_version (db_repository db') = LayoutSinglePayloadV1" "rs_transition_receipt (db_repository db') = Some receipt"
    by (rule complete_transition_Inr[OF tx]) (rule that)
  from valid obtain identity where id: "repositoryIdentityOn db = Inr identity"
    by (auto simp: validateGenerationLedgerOn_def and_then_Inr_iff)
  then have lv: "id_layout_version identity = LayoutC2ToSingleV1" "IsCanonicalRepositoryID (rs_repository_id (db_repository db))"
    using c(2) by (auto simp: repositoryIdentityOn_def Let_def split: if_splits)
  let ?identity' = "\<lparr>id_repository_id = rs_repository_id (db_repository db), id_layout_version = LayoutSinglePayloadV1, id_receipt = receipt\<rparr>"
  have id': "repositoryIdentityOn db' = Inr ?identity'"
    using lv(2) receipt c(14-16) by (simp add: repositoryIdentityOn_def Let_def validLayoutVersion_def null_string_def)
  have ne: "receipt \<noteq> ''''" using receipt by (auto simp: validSHA256Text_def)
  have layouts: "LayoutC2ToSingleV1 \<noteq> LayoutSinglePayloadV1" by (simp add: LayoutC2ToSingleV1_def LayoutSinglePayloadV1_def)
  obtain old where "\<forall>f \<in> set bm. \<not> invalid_generation_file old '''' f"
    using ledger_head_manifest_valid[OF valid wf] c(1,4) by blast
  then have changes: "validateChanges (DiffManifests bm manifest) = Inr ()"
    unfolding validateChanges_def by (intro DiffManifests_valid_changes[where old = old]) (use N in auto)
  have norm: "normalizeManifest input = Inr (manifest, gi_manifest info)" by (simp add: normalizeManifest_def n c(10))
  have cov: "validateGenerationViewSignerCoverage db' target input = Inr ()"
    by (rule coverage_perm[OF c(12)]) (simp_all add: N(1))
  have ext: "extends_ledger db db' info manifest (DiffManifests bm manifest)" using c(11) wf by (simp add: ledger_wf_def)
  have "validateGenerationLedgerOn db' = Inr () \<and> ledger_wf db' \<and> files_of db' target = manifest"
    by (rule ledger_extended[OF valid wf ext id id', unfolded c(7,9), where P = Not,
        OF _ c(13) _ _ _ _ nx[folded c(1)] _ _ norm refl changes cov])
      (use c lv ne layouts in \<open>auto simp: ledger_layout_def manifest_layout_def migrated_def split: if_splits\<close>)
  moreover have "requireTerminalLayoutOn db' = Inr ()" by (simp add: requireTerminalLayoutOn_def id')
  moreover have "rs_built_generation (db_repository db') = target" using ext c(7) by (simp add: extends_ledger_def)
  ultimately show ?thesis
    using nx c(3) N(2) by (auto simp: transition_anchored_def split: option.splits)
qed

subsection \<open>Bootstrapping a ledger\<close>

lemma current_signers_grow:
  assumes "insertCurrentGenerationViewSignersTx g db = Inr db'"
  shows "signers_grow g db db'"
  by (rule for_each_grow[where pr = id, OF assms[unfolded insertCurrentGenerationViewSignersTx_def], simplified])
    (use generationSignerIdentity_verified in \<open>fastforce simp: and_then_Inr_iff dest!: insert_view_signer_grow\<close>)

text \<open>C21. Bootstrapping gives a repository without a ledger a valid one: when it succeeds, the validator accepts
  the database and its head is the current generation.\<close>

theorem bootstrap_establishes_ledger:
  assumes wf: "ledger_wf db"
    and done_: "BootstrapLegacyGeneration (Inr ()) now i g input db = (db', Inr ())"
  shows "validateGenerationLedgerOn db' = Inr () \<and> ledger_wf db' \<and> rs_built_generation (db_repository db') = g
    \<and> files_of db' g = sort_key gf_path input"
proof -
  from done_ obtain identity manifest sha where
    id: "repositoryIdentityOn db = Inr identity"
    and n: "normalizeManifestForLayout input (manifest_layout identity) = Inr (manifest, sha)"
    and v: "validateChangesForLayout (DiffManifests [] manifest) (manifest_layout identity) = Inr ()"
    and tx: "bootstrap_tx now i g manifest sha (DiffManifests [] manifest) db = Inr db'"
    by (auto simp: BootstrapLegacyGeneration_def Let_def and_then_Inr_iff commit_def split: sum.splits if_splits)
  define info :: GenerationInfo where "info = \<lparr>gi_generation = g, gi_previous = ZeroGeneration, gi_operation = i,
      gi_manifest = sha, gi_renderer = replicate 64 CHR ''0'', gi_created_at = now\<rparr>"
  define row :: Operation where "row = \<lparr>op_id = i, op_kind = ''generation.bootstrap'', op_state = OperationDone,
       op_payload = bootstrap_payload g, op_result = json_true_member ''bootstrapped'',
       op_error_class = None, op_error_message = None, op_created_at = now, op_updated_at = now\<rparr>"
  from tx obtain db1 db2 db3 db4 where
    guards: "rs_built_generation (db_repository db) = g" "db_generations db = []"
    and o: "insert_done_operation now i ''generation.bootstrap'' (bootstrap_payload g)
       (json_true_member ''bootstrapped'') [OperationPlanned, OperationBuilt, OperationDone] db = Inr db1"
    and g: "insert_generation info db1 = Inr db2"
    and f: "insertGenerationFilesTx g manifest db2 = Inr db3" and s: "insertCurrentGenerationViewSignersTx g db3 = Inr db4"
    and cov: "validateGenerationViewSignerCoverage db4 g manifest = Inr ()"
    and c: "insertOperationFilesTx i (DiffManifests [] manifest) db4 = Inr db'"
    by (auto simp: bootstrap_tx_def and_then_Inr_iff info_def split: if_splits)
  obtain events where o1: "find_operation db i = None"
    "db1 = db\<lparr>db_operations := db_operations db @ [row], db_events := events\<rparr>"
    by (rule insert_done_operation_Inr[OF o]) (rule that, simp_all add: row_def)
  have g2: "db2 = db1\<lparr>db_generations := db_generations db1 @ [info]\<rparr>" "g \<noteq> 0"
    using g by (auto simp: insert_generation_def info_def split: if_splits)
  note f3 = insert_files_Inr[OF f] and c5 = insert_changes_Inr[OF c[unfolded insertOperationFilesTx_def]]
  obtain new where grow: "ledger_rows db4 = ledger_rows db3" and new: "db_view_signers db4 = db_view_signers db3 @ new"
      "list_all (\<lambda>r. vs_generation r = g \<and> vs_identity r \<noteq> GenerationSignerUnverified) new"
    using current_signers_grow[OF s] by (auto simp: signers_grow_def)
  have rows: "db_operations db' = db_operations db @ [row]" "db_generations db' = [info]"
    "db_generation_files db' = db_generation_files db @ map (Pair g) manifest"
    "db_operation_files db' = db_operation_files db @ change_rows i 0 (DiffManifests [] manifest)"
    "db_view_signers db' = db_view_signers db @ new" "db_view_signers db' = db_view_signers db4"
    "db_repository db' = db_repository db"
    using c5 grow new(1) f3 g2(1) o1(2) guards(2) by (simp_all add: ledger_rows_def)
  have find: "find_operation db' j = (if j = i then Some row else find_operation db j)" for j
    using o1(1) by (auto simp: find_operation_def rows(1) find_snoc row_def split: option.splits)
  have ext: "extends_ledger db db' info manifest (DiffManifests [] manifest)"
    using wf o1(1) new(2) find rows guards unfolding extends_ledger_def ledger_wf_def
    by (auto simp: info_def row_def find_operation_None)
  have cov': "validateGenerationViewSignerCoverage db' (gi_generation info) input = Inr ()"
    unfolding info_def
    by (rule coverage_perm[of db4 _ manifest]) (use cov normalizeManifest_Inr(1)[OF n] rows(6) in \<open>simp_all add: signers_of_def\<close>)
  have contents: "ledger_contents db' g (manifest_layout identity) [] info = Inr manifest"
    using extends_ledger_new[OF wf ext _ _ _ _ refl v cov', of] n guards(2) g2(2) by (simp add: info_def)
  have "\<not> migrated identity"
    using id wf guards(2) by (auto simp: repositoryIdentityOn_def Let_def ledger_wf_def migrated_def split: if_splits)
  moreover have "ledger_link ledger_start info = Inr ()"
    by (simp add: ledger_link_def ledger_start_def info_def ZeroGeneration_def)
  ultimately have "validateGenerationLedgerOn db' = Inr ()"
    using id contents find[of i] guards(1)
    by (simp add: validateGenerationLedgerOn_def repositoryIdentityOn_def rows(2,7) ledger_step_def ledger_layout_def ledger_start_def
        info_def row_def Let_def split: if_splits)
  moreover have "ledger_wf db'" using extends_ledger_wf[OF wf ext] guards(2) g2(2) by (simp add: info_def)
  moreover have "files_of db' g = manifest" using ledger_contents_files[OF contents] g2(2) by (simp add: info_def)
  ultimately show ?thesis using rows(7) guards(1) normalizeManifest_Inr(1)[OF n] by simp
qed

subsection \<open>A transition of a small repository\<close>

definition transition_ready :: database where
  "transition_ready = build_ready\<lparr>db_operations := [],
     db_repository := (db_repository build_ready)\<lparr>rs_layout_version := LayoutC2ToSingleV1\<rparr>,
     db_control := Some \<lparr>lc_repository_id = ''01234567-89ab-4cde-8f01-23456789abcd'', lc_base_generation = 0,
       lc_target_manifest = sha256_hex (manifest_wire [build_file]), lc_plan_identity = replicate 64 CHR ''b'',
       lc_planned_at = ''2026-01-01T00:00:00Z'', lc_commit_intent_at = Some ''2026-01-02T00:00:00Z'',
       lc_not_before = Some ''2026-02-01T00:00:00Z''\<rparr>\<rparr>"

lemma transition_ready_valid: "validateGenerationLedgerOn transition_ready = Inr ()"
proof -
  have "IsCanonicalRepositoryID ''01234567-89ab-4cde-8f01-23456789abcd''" by code_simp
  then show ?thesis
    by (simp add: validateGenerationLedgerOn_def repositoryIdentityOn_def transition_ready_def build_ready_def
        example_database_def validLayoutVersion_def null_string_def Let_def ensure_def)
qed

lemma transition_ready_wf: "ledger_wf transition_ready"
  by (simp add: ledger_wf_def transition_ready_def build_ready_def example_database_def null_string_def)

lemma transition_ready_completes:
  "\<exists>db'. CompleteLayoutTransition (Inr ()) example_now ''11'' 0 [build_file] (replicate 64 CHR ''c'') transition_ready = (db', 1, Inr ())"
proof -
  have "validSHA256Text (replicate 64 CHR ''c'')" "operationIDPattern ''11''" by code_simp+
  then show ?thesis
    by (simp add: CompleteLayoutTransition_def GenerationNext_def MaxGeneration_def build_file_normal[unfolded normalizeManifest_def]
        complete_transition_tx_def transition_ready_def build_ready_def example_database_def transition_anchored_def
        generationManifestTx_def insert_done_operation_def find_operation_def example_now_ok events_of_def append_event_def
        insert_generation_def find_generation_def default_renderer_ok insertGenerationFilesTx_def insert_generation_file_def build_file_sel
        insert_transition_signers_def transition_view_signers_def current_signer_rows_def
        validateGenerationViewSignerCoverage_def build_views signers_of_def build_changes_diff insertOperationFilesTx_def
        insert_operation_file_def change_of_sel enumerate_simps Let_def ensure_def)
qed

theorem complete_transition_keeps_ledger_witness:
  "\<exists>db'. CompleteLayoutTransition (Inr ()) example_now ''11'' 0 [build_file] (replicate 64 CHR ''c'') transition_ready = (db', 1, Inr ())
     \<and> validateGenerationLedgerOn db' = Inr () \<and> requireTerminalLayoutOn db' = Inr ()"
proof -
  obtain db' where r: "CompleteLayoutTransition (Inr ()) example_now ''11'' 0 [build_file] (replicate 64 CHR ''c'') transition_ready = (db', 1, Inr ())"
    using transition_ready_completes ..
  from complete_transition_keeps_ledger[OF transition_ready_valid transition_ready_wf r] r show ?thesis by blast
qed

definition legacy_ready :: database where
  "legacy_ready = build_ready\<lparr>db_operations := [],
     db_repository := (db_repository build_ready)\<lparr>rs_built_generation := 7\<rparr>\<rparr>"

theorem bootstrap_establishes_ledger_witness:
  "\<exists>db'. BootstrapLegacyGeneration (Inr ()) example_now ''12'' 7 [build_file] legacy_ready = (db', Inr ())
     \<and> validateGenerationLedgerOn db' = Inr ()"
proof -
  have layouts: "LayoutSinglePayloadV1 \<noteq> LayoutC2ToSingleV1" by (simp add: LayoutC2ToSingleV1_def LayoutSinglePayloadV1_def)
  have "IsCanonicalRepositoryID ''01234567-89ab-4cde-8f01-23456789abcd''" "operationIDPattern ''12''"
    "validSHA256Text (replicate 64 CHR ''0'')" by code_simp+
  then have "\<exists>db'. BootstrapLegacyGeneration (Inr ()) example_now ''12'' 7 [build_file] legacy_ready = (db', Inr ())"
    using build_changes_valid layouts
    by (simp add: BootstrapLegacyGeneration_def repositoryIdentityOn_def legacy_ready_def build_ready_def example_database_def
        validLayoutVersion_def null_string_def manifest_layout_def Let_def
        build_file_normal[unfolded normalizeManifest_def] build_changes_diff validateChanges_def commit_def bootstrap_tx_def
        insert_done_operation_def find_operation_def example_now_ok events_of_def append_event_def
        insert_generation_def find_generation_def insertGenerationFilesTx_def insert_generation_file_def build_file_sel
        insertCurrentGenerationViewSignersTx_def current_view_signers_def current_signer_rows_def
        validateGenerationViewSignerCoverage_def build_views signers_of_def insertOperationFilesTx_def
        insert_operation_file_def change_of_sel enumerate_simps ensure_def)
  then obtain db' where r: "BootstrapLegacyGeneration (Inr ()) example_now ''12'' 7 [build_file] legacy_ready = (db', Inr ())" ..
  have "ledger_wf legacy_ready"
    by (simp add: ledger_wf_def legacy_ready_def build_ready_def example_database_def null_string_def)
  from bootstrap_establishes_ledger[OF this r] r show ?thesis by blast
qed

definition plan_ready :: database where
  "plan_ready = transition_ready\<lparr>db_control := None\<rparr>"

definition planned :: database where
  "planned = fst (AnchorLayoutTransitionPlan (Inr ()) ''01234567-89ab-4cde-8f01-23456789abcd'' 0 (replicate 64 CHR ''a'')
     (replicate 64 CHR ''b'') ''2026-01-01T00:00:00Z'' plan_ready)"

definition committed :: database where
  "committed = fst (CommitLayoutTransitionPlan (Inr ()) (replicate 64 CHR ''b'') ''2026-01-02T00:00:00Z'' ''2026-02-01T00:00:00Z'' planned)"

lemma committed_reachable: "transition_reachable plan_ready committed"
  unfolding committed_def planned_def
  by (rule transition_reachable.extend[OF transition_reachable.extend[OF transition_reachable.initial transition_step.anchor] transition_step.commit_plan])

theorem transition_control_sound_witness:
  "layoutTransitionControlOn committed = Inr (db_control committed) \<and> control_ok (db_control committed)"
  using transition_control_sound[OF committed_reachable] by (simp add: plan_ready_def)

lemma transition_abandoned: "transition_reachable transition_ready (fst (AbandonLayoutTransition (Inr ()) transition_ready))"
  by (rule transition_reachable.extend[OF transition_reachable.initial transition_step.abandon])

theorem committed_transition_final_witness:
  "db_control (fst (AbandonLayoutTransition (Inr ()) transition_ready)) = db_control transition_ready"
  using committed_transition_final[OF transition_abandoned] by (simp add: transition_ready_def)

end
