(* ===== verification/Go_Strings.thy ===== *)
theory Go_Strings
  imports Go_Json Go_Path
begin

section \<open>Further functions of the Go library: \<open>strings.TrimSpace\<close>, \<open>path.Match\<close>\<close>

subsection \<open>Trimming white space\<close>

text \<open>The UTF-8 encodings of the code points \<open>unicode.IsSpace\<close> accepts.\<close>

definition space_runes :: "string list" where
  "space_runes =
     [[CHR 0x09], [CHR 0x0A], [CHR 0x0B], [CHR 0x0C], [CHR 0x0D], [CHR 0x20],
      [CHR 0xC2, CHR 0x85], [CHR 0xC2, CHR 0xA0], [CHR 0xE1, CHR 0x9A, CHR 0x80]]
     @ map (\<lambda>n. [CHR 0xE2, CHR 0x80, char_of (0x80 + n)]) [0..<11]
     @ [[CHR 0xE2, CHR 0x80, CHR 0xA8], [CHR 0xE2, CHR 0x80, CHR 0xA9], [CHR 0xE2, CHR 0x80, CHR 0xAF],
        [CHR 0xE2, CHR 0x81, CHR 0x9F], [CHR 0xE3, CHR 0x80, CHR 0x80]]"

fun trim_runes :: "string list \<Rightarrow> string \<Rightarrow> string" where
  "trim_runes spaces [] = []"
| "trim_runes spaces (c # cs) =
     (case List.find (\<lambda>e. HasPrefix (c # cs) e) spaces of
        None \<Rightarrow> c # cs
      | Some e \<Rightarrow> trim_runes spaces (drop (length e - 1) cs))"

definition TrimSpace :: "string \<Rightarrow> string" where
  "TrimSpace s = rev (trim_runes (map rev space_runes) (rev (trim_runes space_runes s)))"

text \<open>\<open>strings.TrimLeft\<close> with a cutset of one byte.\<close>

definition TrimLeft :: "string \<Rightarrow> char \<Rightarrow> string" where
  "TrimLeft s c = dropWhile (\<lambda>d. d = c) s"

subsection \<open>Shell patterns\<close>

text \<open>
  \<open>path.Match\<close>: a pattern is a sequence of chunks, each optionally after a star. A chunk is matched
  byte by byte, except that a class and a question mark read one code point. After a failure the
  rest of the pattern is still checked for its syntax.
\<close>

definition rune_len :: "string \<Rightarrow> nat" where
  "rune_len s = (if s = [] then 0 else if (of_char (hd s) :: nat) < 0x80 then 1
     else if utf8_len s = 0 then 1 else utf8_len s)"

text \<open>The code point at the front of a text; bytes that are no encoding read as U+FFFD.\<close>

definition rune_at :: "string \<Rightarrow> nat" where
  "rune_at s =
     (if s = [] then 0xFFFD
      else let b = (\<lambda>i. of_char (s ! i) :: nat)
           in if b 0 < 0x80 then b 0
              else if utf8_len s = 2 then (b 0 mod 0x20) * 0x40 + b 1 mod 0x40
              else if utf8_len s = 3 then (b 0 mod 0x10) * 0x1000 + (b 1 mod 0x40) * 0x40 + b 2 mod 0x40
              else if utf8_len s = 4
              then (b 0 mod 0x08) * 0x40000 + (b 1 mod 0x40) * 0x1000 + (b 2 mod 0x40) * 0x40 + b 3 mod 0x40
              else 0xFFFD)"

datatype bad_pattern = ErrBadPattern

fun scan_stars :: "string \<Rightarrow> bool \<times> string" where
  "scan_stars (c # cs) = (if c = CHR ''*'' then (True, snd (scan_stars cs)) else (False, c # cs))"
| "scan_stars [] = (False, [])"

fun scan_body :: "bool \<Rightarrow> string \<Rightarrow> string \<times> string" where
  "scan_body inrange [] = ([], [])"
| "scan_body inrange (c # cs) =
     (if c = CHR 0x5C then
        (case cs of [] \<Rightarrow> ([c], [])
         | d # ds \<Rightarrow> (case scan_body inrange ds of (chunk, rest) \<Rightarrow> (c # d # chunk, rest)))
      else if c = CHR ''*'' \<and> \<not> inrange then ([], c # cs)
      else case scan_body (if c = CHR ''['' then True else if c = CHR '']'' then False else inrange) cs of
             (chunk, rest) \<Rightarrow> (c # chunk, rest))"

definition scanChunk :: "string \<Rightarrow> bool \<times> string \<times> string" where
  "scanChunk pattern = (case scan_stars pattern of (star, body) \<Rightarrow> (star, scan_body False body))"

definition getEsc :: "string \<Rightarrow> bad_pattern + nat \<times> string" where
  "getEsc chunk =
     (if chunk = [] \<or> hd chunk = CHR ''-'' \<or> hd chunk = CHR '']'' then Inl ErrBadPattern
      else let chunk' = (if hd chunk = CHR 0x5C then tl chunk else chunk)
           in if chunk' = [] then Inl ErrBadPattern
              else let r = rune_at chunk'; n = rune_len chunk'; rest = drop n chunk'
                   in if r = 0xFFFD \<and> n = 1 then Inl ErrBadPattern
                      else if rest = [] then Inl ErrBadPattern else Inr (r, rest))"

text \<open>The ranges of a class up to its closing bracket: whether one holds the code point, and what follows.\<close>

fun match_class :: "nat \<Rightarrow> nat \<Rightarrow> nat \<Rightarrow> bool \<Rightarrow> string \<Rightarrow> bad_pattern + bool \<times> string" where
  "match_class 0 r nrange matched chunk = Inl ErrBadPattern"
| "match_class (Suc fuel) r nrange matched chunk =
     (if chunk \<noteq> [] \<and> hd chunk = CHR '']'' \<and> nrange > 0 then Inr (matched, tl chunk)
      else and_then (getEsc chunk) (\<lambda>(lo, chunk).
           and_then (if hd chunk = CHR ''-'' then getEsc (tl chunk) else Inr (lo, chunk)) (\<lambda>(hi, chunk).
             match_class fuel r (Suc nrange) (matched \<or> lo \<le> r \<and> r \<le> hi) chunk)))"

fun match_chunk :: "nat \<Rightarrow> bool \<Rightarrow> string \<Rightarrow> string \<Rightarrow> bad_pattern + string option" where
  "match_chunk 0 failed chunk s = Inl ErrBadPattern"
| "match_chunk (Suc fuel) failed chunk s =
     (case chunk of
        [] \<Rightarrow> Inr (if failed then None else Some s)
      | c # cs \<Rightarrow>
          (let failed = (failed \<or> s = [])
           in if c = CHR ''['' then
                (let r = (if failed then 0 else rune_at s); s = (if failed then s else drop (rune_len s) s);
                     negated = (cs \<noteq> [] \<and> hd cs = CHR ''^''); cs = (if negated then tl cs else cs)
                 in and_then (match_class (Suc (length cs)) r 0 False cs) (\<lambda>(matched, rest).
                      match_chunk fuel (failed \<or> matched = negated) rest s))
              else if c = CHR ''?'' then
                match_chunk fuel (failed \<or> hd s = slash) cs (if failed then s else drop (rune_len s) s)
              else if c = CHR 0x5C then
                (case cs of
                   [] \<Rightarrow> Inl ErrBadPattern
                 | d # ds \<Rightarrow> match_chunk fuel (failed \<or> hd s \<noteq> d) ds (if failed then s else tl s))
              else match_chunk fuel (failed \<or> hd s \<noteq> c) cs (if failed then s else tl s)))"

definition matchChunk :: "string \<Rightarrow> string \<Rightarrow> bad_pattern + string option" where
  "matchChunk chunk s = match_chunk (Suc (length chunk)) False chunk s"

text \<open>Skipping bytes other than a slash until the chunk matches.\<close>

fun match_star :: "string \<Rightarrow> bool \<Rightarrow> string \<Rightarrow> bad_pattern + string option" where
  "match_star chunk final [] = Inr None"
| "match_star chunk final (c # cs) =
     (if c = slash then Inr None
      else and_then (matchChunk chunk cs) (\<lambda>r. case r of
             None \<Rightarrow> match_star chunk final cs
           | Some t \<Rightarrow> if final \<and> t \<noteq> [] then match_star chunk final cs else Inr (Some t)))"

fun check_rest :: "nat \<Rightarrow> string \<Rightarrow> bad_pattern + bool" where
  "check_rest 0 pattern = Inr False"
| "check_rest (Suc fuel) pattern =
     (if pattern = [] then Inr False
      else case scanChunk pattern of (star, chunk, rest) \<Rightarrow>
             and_then (matchChunk chunk []) (\<lambda>_. check_rest fuel rest))"

fun match_pattern :: "nat \<Rightarrow> string \<Rightarrow> string \<Rightarrow> bad_pattern + bool" where
  "match_pattern 0 pattern name = Inr (name = [])"
| "match_pattern (Suc fuel) pattern name =
     (if pattern = [] then Inr (name = [])
      else case scanChunk pattern of (star, chunk, rest) \<Rightarrow>
        (if star \<and> chunk = [] then Inr (slash \<notin> set name)
         else and_then (matchChunk chunk name) (\<lambda>r.
              case r of
                Some t \<Rightarrow>
                  (if t = [] \<or> rest \<noteq> [] then match_pattern fuel rest t
                   else if star then and_then (match_star chunk (rest = []) name) (\<lambda>r'.
                          case r' of Some t' \<Rightarrow> match_pattern fuel rest t' | None \<Rightarrow> check_rest fuel rest)
                   else check_rest fuel rest)
              | None \<Rightarrow>
                  (if star then and_then (match_star chunk (rest = []) name) (\<lambda>r'.
                          case r' of Some t' \<Rightarrow> match_pattern fuel rest t' | None \<Rightarrow> check_rest fuel rest)
                   else check_rest fuel rest))))"

text \<open>Every chunk shortens the pattern, so its length is fuel enough.\<close>

definition path_Match :: "string \<Rightarrow> string \<Rightarrow> bad_pattern + bool" where
  "path_Match pattern name = match_pattern (Suc (length pattern)) pattern name"


subsection \<open>Syntax errors of a pattern\<close>

text \<open>
  Every chunk is parsed to its end even after a mismatch, so whether a pattern is malformed does
  not depend on the name it is matched against.
\<close>

definition same_rest :: "bad_pattern + bool \<times> string \<Rightarrow> bad_pattern + bool \<times> string \<Rightarrow> bool" where
  "same_rest x y \<longleftrightarrow>
     (case (x, y) of (Inl _, Inl _) \<Rightarrow> True | (Inr (_, s), Inr (_, t)) \<Rightarrow> s = t | _ \<Rightarrow> False)"

lemma same_rest_bind:
  assumes "same_rest x y" "\<And>m m' t. isl (f (m, t)) = isl (g (m', t))"
  shows "isl (and_then x f) = isl (and_then y g)"
  using assms(1) by (cases x; cases y) (auto simp: same_rest_def assms(2)[THEN iffD1] assms(2)[THEN iffD2])

lemma match_class_parse:
  "same_rest (match_class fuel r n m chunk) (match_class fuel r' n m' chunk)"
proof (induction fuel arbitrary: n m m' chunk)
  case (Suc fuel)
  have error: "same_rest (Inl e) (Inl e')" and reached: "same_rest (Inr (b, t)) (Inr (b', t))" for e e' b b' t
    by (simp_all add: same_rest_def)
  show ?case
  proof (cases "getEsc chunk")
    case (Inr p)
    obtain lo rest where p: "p = (lo, rest)" by (cases p)
    show ?thesis
    proof (cases "getEsc (tl rest)")
      case err: (Inl e)
      show ?thesis using Inr p err by (auto intro: error reached Suc)
    next
      case hi: (Inr q)
      show ?thesis using Inr p hi by (cases q) (auto intro: error reached Suc)
    qed
  qed (auto intro: error reached)
qed (simp add: same_rest_def)

lemma match_chunk_parse: "isl (match_chunk fuel b chunk s) = isl (match_chunk fuel b' chunk s')"
proof (induction fuel arbitrary: b b' chunk s s')
  case (Suc fuel)
  show ?case
  proof (cases chunk)
    case (Cons c cs)
    let ?cs = "if cs \<noteq> [] \<and> hd cs = CHR ''^'' then tl cs else cs"
    consider "c = CHR ''[''" | "c \<noteq> CHR ''[''" "c = CHR 0x5C" "cs = []"
      | "c \<noteq> CHR ''[''" "c \<noteq> CHR 0x5C \<or> cs \<noteq> []" by auto
    then show ?thesis
    proof cases
      case 1
      show ?thesis
        unfolding Cons match_chunk.simps list.case Let_def if_P[OF 1]
        by (rule same_rest_bind[OF match_class_parse]) (simp only: prod.case, rule Suc)
    next
      case 3
      then show ?thesis
        unfolding Cons match_chunk.simps list.case Let_def
        by (cases cs) (auto simp del: match_chunk.simps intro: Suc[THEN iffD1] Suc[THEN iffD2])
    qed (simp add: Cons)
  qed simp
qed simp

lemma matchChunk_parse: "isl (matchChunk chunk s) = isl (matchChunk chunk [])"
  unfolding matchChunk_def by (rule match_chunk_parse)

lemma match_star_parse: "\<not> isl (matchChunk chunk []) \<Longrightarrow> \<not> isl (match_star chunk final s)"
proof (induction s)
  case (Cons c cs)
  then obtain r where "matchChunk chunk cs = Inr r"
    using matchChunk_parse[of chunk cs] by (cases "matchChunk chunk cs") auto
  with Cons show ?case by (auto split: option.splits)
qed simp

lemma scan_stars_body: "snd (scan_stars p) = [] \<or> hd (snd (scan_stars p)) \<noteq> CHR ''*''"
  by (induction p) auto

lemma scanChunk_trailing:
  assumes "scanChunk p = (star, [], rest)"
  shows "rest = []"
proof -
  obtain star' body where s: "scan_stars p = (star', body)" by (cases "scan_stars p")
  with assms have "scan_body False body = ([], rest)" by (simp add: scanChunk_def)
  then show ?thesis
    using scan_stars_body[of p] s by (cases body) (auto split: if_splits list.splits prod.splits)
qed

lemma match_pattern_parse: "isl (match_pattern fuel p s) = isl (check_rest fuel p)"
proof (induction fuel arbitrary: p s)
  case (Suc fuel)
  show ?case
  proof (cases "p = []")
    case False
    obtain star chunk rest where c: "scanChunk p = (star, chunk, rest)" by (cases "scanChunk p") auto
    show ?thesis
    proof (cases "isl (matchChunk chunk [])")
      case True
      then have "isl (matchChunk chunk s)" "chunk \<noteq> []"
        using matchChunk_parse[of chunk s] by (auto simp: matchChunk_def)
      with True False c show ?thesis by (auto simp: isl_def)
    next
      case ok: False
      then obtain x y where x: "matchChunk chunk s = Inr x" and y: "matchChunk chunk [] = Inr y"
        using matchChunk_parse[of chunk s] by (cases "matchChunk chunk s"; cases "matchChunk chunk []") auto
      obtain z where z: "match_star chunk (rest = []) s = Inr z"
        using match_star_parse[OF ok, of "rest = []" s] by (cases "match_star chunk (rest = []) s") auto
      have "rest = []" if "chunk = []" using c that scanChunk_trailing by simp
      with False c x y z Suc show ?thesis
        by (auto simp: matchChunk_def split: option.splits) (cases fuel; simp)+
    qed
  qed simp
qed simp

text \<open>\<open>path.Match\<close> reports a malformed pattern for every name or for none.\<close>

lemma path_Match_syntax: "isl (path_Match p s) = isl (path_Match p t)"
  unfolding path_Match_def match_pattern_parse ..


subsection \<open>The fuel of the pattern loops\<close>

text \<open>Each round consumes part of the pattern, so more fuel than bytes changes nothing.\<close>

lemma rune_len_pos: "s \<noteq> [] \<Longrightarrow> 0 < rune_len s"
  by (simp add: rune_len_def)

lemma getEsc_shorter: "getEsc chunk = Inr (r, rest) \<Longrightarrow> length rest < length chunk"
  using rune_len_pos[of chunk] rune_len_pos[of "tl chunk"]
  by (cases chunk) (auto simp: getEsc_def Let_def split: if_splits)

lemma match_class_step:
  "match_class (Suc fuel) r n m chunk = Inr (m', rest) \<Longrightarrow>
     (\<And>n m chunk. match_class fuel r n m chunk = Inr (m', rest) \<Longrightarrow> length rest < length chunk) \<Longrightarrow>
     length rest < length chunk"
  by (cases chunk)
    (fastforce simp: and_then_Inr_iff split: if_splits prod.splits dest: getEsc_shorter)+

lemma match_class_shorter:
  "match_class fuel r n m chunk = Inr (m', rest) \<Longrightarrow> length rest < length chunk"
proof (induction fuel arbitrary: n m chunk)
  case (Suc fuel)
  then show ?case by (blast intro: match_class_step)
qed simp

lemma match_class_fuel:
  "length chunk < fuel \<Longrightarrow> match_class (Suc fuel) r n m chunk = match_class fuel r n m chunk"
proof (induction fuel arbitrary: n m chunk)
  case (Suc fuel)
  have rest: "match_class (Suc fuel) r n' m' rest = match_class fuel r n' m' rest"
    if "getEsc chunk = Inr (lo, rest)" for n' m' lo rest
    using Suc.prems getEsc_shorter[OF that] by (intro Suc.IH) simp
  have range: "match_class (Suc fuel) r n' m' rest' = match_class fuel r n' m' rest'"
    if "getEsc chunk = Inr (lo, rest)" "getEsc (tl rest) = Inr (hi, rest')" for n' m' lo hi rest rest'
    using Suc.prems getEsc_shorter[OF that(1)] getEsc_shorter[OF that(2)] by (intro Suc.IH) simp
  show ?case
    by (subst match_class.simps(2), subst match_class.simps(2)[of fuel r n m chunk])
      (intro if_cong refl and_then_cong prod.case_cong;
       auto simp del: match_class.simps intro: rest range split: if_splits)
qed simp

lemma match_chunk_fuel:
  "length chunk < fuel \<Longrightarrow> match_chunk (Suc fuel) b chunk s = match_chunk fuel b chunk s"
proof (induction fuel arbitrary: b chunk s)
  case (Suc fuel)
  show ?case
  proof (cases chunk)
    case (Cons c cs)
    have after_class: "match_chunk (Suc fuel) b' rest s' = match_chunk fuel b' rest s'"
      if "match_class f r n m (if cs \<noteq> [] \<and> hd cs = CHR ''^'' then tl cs else cs) = Inr (m', rest)"
      for f r n m m' rest b' s'
      using match_class_shorter[OF that] Suc.prems Cons by (intro Suc.IH) (auto split: if_splits)
    have shorter: "match_chunk (Suc fuel) b' t s' = match_chunk fuel b' t s'"
      if "length t \<le> length cs" for t b' s'
      using that Suc.prems Cons by (intro Suc.IH) simp
    have tail: "match_chunk (Suc fuel) b' ds s' = match_chunk fuel b' ds s'"
      if "cs = d # ds" for d ds b' s'
      using that by (intro shorter) simp
    show ?thesis
      by (subst match_chunk.simps(2), subst match_chunk.simps(2)[of fuel b chunk s])
        (unfold Cons list.case Let_def, intro if_cong refl and_then_cong prod.case_cong list.case_cong;
         (rule after_class shorter tail; simp only: order_refl)?)
  qed simp
qed simp

lemma scan_body_append: "scan_body b p = (chunk, rest) \<Longrightarrow> chunk @ rest = p"
proof (induction p arbitrary: b chunk rest rule: length_induct)
  case (1 p)
  show ?case
  proof (cases p)
    case (Cons c cs)
    show ?thesis
    proof (cases "c = CHR 0x5C")
      case escape: True
      show ?thesis
      proof (cases cs)
        case tail: (Cons d ds)
        obtain chunk' rest' where r: "scan_body b ds = (chunk', rest')" by (cases "scan_body b ds")
        with "1.prems" escape Cons tail have "chunk = c # d # chunk'" "rest = rest'" by simp_all
        moreover have "chunk' @ rest' = ds" using "1.IH" Cons tail r by simp
        ultimately show ?thesis using Cons tail by simp
      qed (use "1.prems" Cons escape in simp)
    next
      case False
      let ?b = "if c = CHR ''['' then True else if c = CHR '']'' then False else b"
      obtain chunk' rest' where r: "scan_body ?b cs = (chunk', rest')" by (cases "scan_body ?b cs")
      have app: "chunk' @ rest' = cs" using "1.IH" Cons r by simp
      have "scan_body b p = (if c = CHR ''*'' \<and> \<not> b then ([], p) else (c # chunk', rest'))"
        by (simp only: Cons scan_body.simps if_not_P[OF False] r prod.case)
      with "1.prems" app Cons show ?thesis by (auto split: if_splits)
    qed
  qed (use "1.prems" in simp)
qed

lemma scan_stars_length: "length (snd (scan_stars p)) \<le> length p \<and> (fst (scan_stars p) \<longrightarrow> length (snd (scan_stars p)) < length p)"
  by (induction p) auto

lemma scanChunk_shorter:
  assumes "scanChunk p = (star, chunk, rest)" "p \<noteq> []"
  shows "length rest < length p"
proof -
  obtain star' body where s: "scan_stars p = (star', body)" by (cases "scan_stars p")
  with assms have b: "scan_body False body = (chunk, rest)" "star' = star" by (auto simp: scanChunk_def)
  show ?thesis
  proof (cases "chunk = []")
    case True
    then show ?thesis using scanChunk_trailing[of p star rest] assms by simp
  next
    case False
    then show ?thesis using scan_body_append[OF b(1)] scan_stars_length[of p] s by (cases chunk) auto
  qed
qed

lemma check_rest_fuel: "length p < fuel \<Longrightarrow> check_rest (Suc fuel) p = check_rest fuel p"
proof (induction fuel arbitrary: p)
  case (Suc fuel)
  obtain star chunk rest where c: "scanChunk p = (star, chunk, rest)" by (cases "scanChunk p") auto
  show ?case
  proof (cases "p = []")
    case False
    then have "length rest < fuel" using scanChunk_shorter[OF c] Suc.prems by simp
    then show ?thesis using Suc.IH[of rest] c by simp
  qed simp
qed simp

lemma match_pattern_fuel: "length p < fuel \<Longrightarrow> match_pattern (Suc fuel) p s = match_pattern fuel p s"
proof (induction fuel arbitrary: p s)
  case (Suc fuel)
  obtain star chunk rest where c: "scanChunk p = (star, chunk, rest)" by (cases "scanChunk p") auto
  show ?case
  proof (cases "p = []")
    case False
    then have r: "length rest < fuel" using scanChunk_shorter[OF c] Suc.prems by simp
    have "match_pattern (Suc fuel) rest = match_pattern fuel rest" by (rule ext) (rule Suc.IH[OF r])
    then show ?thesis
      by (subst match_pattern.simps(2), subst match_pattern.simps(2)[of fuel p s])
        (simp only: c prod.case check_rest_fuel[OF r])
  qed simp
qed simp

end
