(* ===== verification/Pool_Paths.thy ===== *)
theory Pool_Paths
  imports Dist_State Go_Strings
begin

section \<open>Pool paths and package facts (\<open>internal/v2/state/pool_paths.go\<close>, \<open>objects.go\<close>)\<close>

text \<open>
  A package lies in the pool under one path for ever. Paths are compared without regard to case,
  because two spellings are one file on some file systems; the owners of a path are the packages
  known to the repository and everything ever published under it. Paths are ASCII here, so that
  \<open>strings.ToLower\<close> and the \<open>lower\<close> of SQLite agree.
\<close>

subsection \<open>Owners of a path\<close>

text \<open>The map from a folded path to the set of its owners, as the list of its entries.\<close>

type_synonym PoolPathOwners = "(string \<times> string \<times> string) list"

text \<open>Go visits the owners of a path in any order; both refusals carry the same sentinels.\<close>

definition check_owner :: "string \<Rightarrow> string \<Rightarrow> unit \<Rightarrow> string \<times> string \<times> string \<Rightarrow> unit result" where
  "check_owner path digest u owner =
     (case owner of (_, opath, osha) \<Rightarrow>
        if osha \<noteq> digest then Inl (GoError [ErrConflict, ErrPoolPathConflict] ''collides case-insensitively with existing or published content'')
        else if opath \<noteq> path then Inl (GoError [ErrConflict, ErrPoolPathConflict] ''differs only by case from existing or published path'')
        else Inr ())"

definition owners_Check :: "PoolPathOwners \<Rightarrow> PackageObject \<Rightarrow> unit result" where
  "owners_Check owners object =
     for_each (check_owner (ob_pool_path object) (ob_sha256 object)) ()
       (filter (\<lambda>e. fst e = ToLower (ob_pool_path object)) owners)"

definition owners_Add :: "PoolPathOwners \<Rightarrow> string \<times> string \<Rightarrow> PoolPathOwners" where
  "owners_Add owners entry =
     (case entry of (path, digest) \<Rightarrow> List.insert (ToLower path, path, digest) owners)"

definition poolPathBatchSize :: nat where
  "poolPathBatchSize = 256"

text \<open>Slices of at most \<open>n\<close> elements.\<close>

function batches :: "nat \<Rightarrow> 'a list \<Rightarrow> 'a list list" where
  "batches n xs = (if xs = [] \<or> n = 0 then [] else take n xs # batches n (drop n xs))"
  by pat_completeness auto
termination by (relation "measure (\<lambda>(n, xs). length xs)") auto

declare batches.simps [simp del]

text \<open>The three selects of \<open>poolPathOwnersQuery\<close>.\<close>

definition poolPathOwnersQuery :: "database \<Rightarrow> string list \<Rightarrow> (string \<times> string) list" where
  "poolPathOwnersQuery db batch =
     map (\<lambda>b. (ob_pool_path b, ob_sha256 b)) (filter (\<lambda>b. ToLower (ob_pool_path b) \<in> set batch) (db_objects db))
     @ map (\<lambda>p. (pu_path p, pu_sha256 p))
         (filter (\<lambda>p. pu_phase p = ''payload'' \<and> ToLower (pu_path p) \<in> set batch) (db_inventory db))
     @ map (\<lambda>p. (pu_path p, pu_sha256 p))
         (filter (\<lambda>p. pu_phase p = ''payload'' \<and> ToLower (pu_path p) \<in> set batch) (db_abandoned db))"

definition packagePoolPathOwners :: "database \<Rightarrow> string list \<Rightarrow> PoolPathOwners" where
  "packagePoolPathOwners db paths =
     foldl (\<lambda>owners batch. foldl owners_Add owners (poolPathOwnersQuery db batch)) []
       (batches poolPathBatchSize (rev (remdups (rev (map ToLower paths)))))"

text \<open>The spellings of the directories of the packages below the folded candidates.\<close>

definition directory_prefix :: "string \<Rightarrow> string" where
  "directory_prefix directory = ToLower (TrimSuffix directory ''/'') @ ''/''"

definition directory_spellings :: "database \<Rightarrow> string \<Rightarrow> string list" where
  "directory_spellings db folded =
     remdups (map (\<lambda>b. take (length folded) (ob_pool_path b))
       (filter (\<lambda>b. folded \<le> ToLower (ob_pool_path b) \<and> ToLower (ob_pool_path b) < TrimSuffix folded ''/'' @ ''0'') (db_objects db)))"

definition PackagePoolDirectorySpellings :: "database \<Rightarrow> string list \<Rightarrow> (string \<times> string list) list" where
  "PackagePoolDirectorySpellings db directories =
     map (\<lambda>folded. (folded, directory_spellings db folded)) (rev (remdups (rev (map directory_prefix directories))))"

subsection \<open>What the owners are\<close>

lemma concat_batches: "0 < n \<Longrightarrow> concat (batches n xs) = xs"
proof (induction n xs rule: batches.induct)
  case (1 n xs)
  then show ?case by (subst batches.simps) simp
qed

lemma batches_bound: "b \<in> set (batches n xs) \<Longrightarrow> b \<noteq> [] \<and> length b \<le> n"
proof (induction n xs rule: batches.induct)
  case (1 n xs)
  then show ?case by (subst (asm) batches.simps) (auto split: if_splits)
qed

lemma set_owners_Add: "set (owners_Add owners e) = insert (ToLower (fst e), e) (set owners)"
  by (cases e) (simp add: owners_Add_def)

lemma set_foldl_Add: "set (foldl owners_Add owners es) = (\<lambda>e. (ToLower (fst e), e)) ` set es \<union> set owners"
  by (induction es arbitrary: owners) (auto simp: set_owners_Add)

text \<open>Every row that claims a path: packages, published payload, and payload of abandoned attempts.\<close>

definition path_claims :: "database \<Rightarrow> (string \<times> string) list" where
  "path_claims db =
     map (\<lambda>b. (ob_pool_path b, ob_sha256 b)) (db_objects db)
     @ map (\<lambda>p. (pu_path p, pu_sha256 p)) (filter (\<lambda>p. pu_phase p = ''payload'') (db_inventory db @ db_abandoned db))"

lemma set_poolPathOwnersQuery:
  "set (poolPathOwnersQuery db batch) = {e \<in> set (path_claims db). ToLower (fst e) \<in> set batch}"
  by (auto simp: poolPathOwnersQuery_def path_claims_def)

lemma set_foldl_query:
  "set (foldl (\<lambda>owners batch. foldl owners_Add owners (poolPathOwnersQuery db batch)) owners bs) =
     (\<lambda>e. (ToLower (fst e), e)) ` {e \<in> set (path_claims db). ToLower (fst e) \<in> set (concat bs)} \<union> set owners"
  by (induction bs arbitrary: owners) (auto simp: set_foldl_Add set_poolPathOwnersQuery)

lemma packagePoolPathOwners_set:
  "set (packagePoolPathOwners db paths) =
     (\<lambda>e. (ToLower (fst e), e)) ` {e \<in> set (path_claims db). ToLower (fst e) \<in> ToLower ` set paths}"
proof -
  have "concat (batches poolPathBatchSize xs) = xs" for xs :: "string list"
    by (rule concat_batches) (simp add: poolPathBatchSize_def)
  then show ?thesis by (simp add: packagePoolPathOwners_def set_foldl_query)
qed

lemma owners_Check_Inr:
  "owners_Check owners object = Inr () \<longleftrightarrow>
     (\<forall>(k, p, d) \<in> set owners. k = ToLower (ob_pool_path object) \<longrightarrow> p = ob_pool_path object \<and> d = ob_sha256 object)"
proof -
  have "for_each (check_owner path digest) () es = Inr () \<longleftrightarrow> (\<forall>(k, p, d) \<in> set es. p = path \<and> d = digest)"
    for path digest es
    by (induction es) (auto simp: check_owner_def and_then_Inr_iff split: if_splits)
  then show ?thesis by (auto simp: owners_Check_def)
qed

end
