(* ===== verification/Package_Objects.thy ===== *)
theory Package_Objects
  imports Pool_Paths
begin

section \<open>Desired state of packages (\<open>internal/v2/state/objects.go\<close>)\<close>

text \<open>
  The facts of a package, the sets of packages each dist should hold, and the one transaction that
  replaces such sets. Revisions count mutations and stay far below their 64 bits.
\<close>

subsection \<open>Facts of a package\<close>

definition is_alnum :: "char \<Rightarrow> bool" where
  "is_alnum c \<longleftrightarrow> is_letter c \<or> is_digit c"

definition safePackagePathComponent :: "string \<Rightarrow> bool" where
  "safePackagePathComponent value \<longleftrightarrow>
     value \<noteq> '''' \<and> value \<noteq> ''.'' \<and> value \<noteq> ''..'' \<and> path_Base value = value
     \<and> list_all (\<lambda>c. is_alnum c \<or> c \<in> set ''.-_+~^:%'') value"

definition canonicalPackagePoolPath :: "string \<Rightarrow> string \<Rightarrow> string result" where
  "canonicalPackagePoolPath source filename =
     (if \<not> safePackagePathComponent source \<or> \<not> safePackagePathComponent filename
      then Inl (plain_error ''unsafe package path component'')
      else let shard = (if HasPrefix source ''lib''
                        then (if length source < 4 then source else take 4 source) else take 1 source)
           in Inr (path_Join [''pool'', ToLower shard, source, filename]))"

definition validSignatureIdentity :: "string \<Rightarrow> bool" where
  "validSignatureIdentity value \<longleftrightarrow>
     (length value = 16 \<or> length value = 40 \<or> length value = 64) \<and> list_all is_upper_hex value"

definition invalid_field :: "string \<Rightarrow> bool" where
  "invalid_field value \<longleftrightarrow>
     value = '''' \<or> TrimSpace value \<noteq> value
     \<or> list_ex (\<lambda>c. (of_char c :: nat) < 0x20 \<or> of_char c = (0x7F :: nat)) value"

definition rpm_architecture_ok :: "PackageObject \<Rightarrow> bool" where
  "rpm_architecture_ok b \<longleftrightarrow>
     (ob_architecture b, ob_canonical_arch b) \<in> {(''noarch'', ''neutral''), (''x86_64'', ''x86_64''), (''aarch64'', ''aarch64'')}"

definition deb_architecture_ok :: "PackageObject \<Rightarrow> bool" where
  "deb_architecture_ok b \<longleftrightarrow>
     (ob_architecture b, ob_canonical_arch b) \<in> {(''all'', ''neutral''), (''amd64'', ''x86_64''), (''arm64'', ''aarch64'')}"

definition validatePackageObject :: "PackageObject \<Rightarrow> unit result" where
  "validatePackageObject b =
     (if \<not> validSHA256Text (ob_sha256 b) then Inl (plain_error ''invalid sha256'')
      else if ob_payload_sha256 b \<noteq> '''' \<and> \<not> validSHA256Text (ob_payload_sha256 b)
      then Inl (plain_error ''invalid signature-neutral payload sha256'')
      else if ob_format b \<noteq> ''rpm'' \<and> ob_format b \<noteq> ''deb'' then Inl (plain_error ''invalid format'')
      else if list_ex invalid_field [ob_coordinate b, ob_name b, ob_source b, ob_version b, ob_filename b]
      then Inl (plain_error ''invalid field'')
      else if path_Base (ob_filename b) \<noteq> ob_filename b \<or> CHR 0x5C \<in> set (ob_filename b)
      then Inl (plain_error ''unsafe filename'')
      else if ob_pool_path b = '''' \<or> path_Clean (ob_pool_path b) \<noteq> ob_pool_path b \<or> \<not> HasPrefix (ob_pool_path b) ''pool/''
              \<or> path_Base (ob_pool_path b) \<noteq> ob_filename b \<or> ContainsAny (ob_pool_path b) unsafe_path_bytes
      then Inl (plain_error ''unsafe pool path'')
      else if canonicalPackagePoolPath (ob_source b) (ob_filename b) \<noteq> Inr (ob_pool_path b)
      then Inl (plain_error ''unsafe or non-canonical pool path'')
      else if ob_size b < 0 \<or> ob_created_revision b < 0 then Inl (plain_error ''negative package size or revision'')
      else if ob_storage b \<noteq> ''pending'' \<and> ob_storage b \<noteq> ''pool'' then Inl (plain_error ''invalid storage'')
      else if ob_kind b \<notin> {''main'', ''debuginfo'', ''debugsource'', ''llvmjit'', ''dbgsym'', ''dbg''}
      then Inl (plain_error ''invalid kind'')
      else if ob_format b = ''rpm''
      then (if \<not> rpm_architecture_ok b then Inl (plain_error ''invalid RPM architecture mapping'')
            else if ob_signature_key b \<noteq> '''' \<and> \<not> validSignatureIdentity (ob_signature_key b)
            then Inl (plain_error ''invalid RPM signature identity'') else Inr ())
      else (if \<not> deb_architecture_ok b then Inl (plain_error ''invalid DEB architecture mapping'')
            else ensure (ob_signature_key b = '''') (plain_error ''DEB package object has an unexpected signature identity'')))"

definition sameImmutablePackageObject :: "PackageObject \<Rightarrow> PackageObject \<Rightarrow> bool" where
  "sameImmutablePackageObject l r \<longleftrightarrow>
     ob_sha256 l = ob_sha256 r \<and> ob_format l = ob_format r \<and> ob_coordinate l = ob_coordinate r
     \<and> ob_architecture l = ob_architecture r \<and> ob_canonical_arch l = ob_canonical_arch r
     \<and> ob_pool_path l = ob_pool_path r \<and> ob_filename l = ob_filename r \<and> ob_size l = ob_size r
     \<and> ob_name l = ob_name r \<and> ob_source l = ob_source r \<and> ob_version l = ob_version r
     \<and> ob_epoch l = ob_epoch r \<and> ob_release l = ob_release r \<and> ob_kind l = ob_kind r
     \<and> ob_payload_sha256 l = ob_payload_sha256 r \<and> ob_signature_key l = ob_signature_key r"

text \<open>Reading a row validates it.\<close>

definition scanPackageObject :: "PackageObject \<Rightarrow> PackageObject result" where
  "scanPackageObject b =
     (case validatePackageObject b of Inl _ \<Rightarrow> Inl (plain_error ''corrupt package object'')
      | Inr _ \<Rightarrow> Inr (b\<lparr>ob_dists := [], ob_built_dists := []\<rparr>))"

definition scan_all :: "PackageObject list \<Rightarrow> PackageObject list result" where
  "scan_all rows = for_each (\<lambda>acc b. and_then (scanPackageObject b) (\<lambda>b. Inr (acc @ [b]))) [] rows"

definition find_object :: "database \<Rightarrow> string \<Rightarrow> PackageObject option" where
  "find_object db digest = List.find (\<lambda>b. ob_sha256 b = digest) (db_objects db)"

definition packageObjectTx :: "database \<Rightarrow> string \<Rightarrow> PackageObject option result" where
  "packageObjectTx db digest =
     (case find_object db digest of
        None \<Rightarrow> Inr None
      | Some b \<Rightarrow> and_then (scanPackageObject b) (\<lambda>b. Inr (Some b)))"

definition insertPackageObjectTx :: "database \<Rightarrow> PackageObject \<Rightarrow> database result" where
  "insertPackageObjectTx db b =
     (if find_object db (ob_sha256 b) \<noteq> None \<or> ob_pool_path b \<in> set (map ob_pool_path (db_objects db))
         \<or> (ob_format b, ob_coordinate b) \<in> set (map (\<lambda>o'. (ob_format o', ob_coordinate o')) (db_objects db))
      then Inl (GoError [ErrConflict] ''package object'')
      else Inr (db\<lparr>db_objects := db_objects db @ [b\<lparr>ob_dists := [], ob_built_dists := []\<rparr>]\<rparr>))"

subsection \<open>Memberships\<close>

definition membershipDigestsTx :: "database \<Rightarrow> string \<Rightarrow> bool \<Rightarrow> string list" where
  "membershipDigestsTx db distName built =
     sort (if built then map bm_package (filter (\<lambda>m. bm_dist m = distName) (db_built db))
           else map me_package (filter (\<lambda>m. me_dist m = distName) (db_memberships db)))"

definition MembershipDigests :: "database \<Rightarrow> string \<Rightarrow> bool \<Rightarrow> string list result" where
  "MembershipDigests db distName built =
     (if find_dist db distName = None then Inl (GoError [ErrNotFound] ''dist'')
      else Inr (membershipDigestsTx db distName built))"

definition packageDists :: "database \<Rightarrow> string \<Rightarrow> bool \<Rightarrow> string list" where
  "packageDists db digest built =
     sort (if built then map bm_dist (filter (\<lambda>m. bm_package m = digest) (db_built db))
           else map me_dist (filter (\<lambda>m. me_package m = digest) (db_memberships db)))"

text \<open>The rows \<open>(package, dist)\<close> of a membership table.\<close>

datatype membership_table = Memberships | BuiltMemberships | PriorBuiltMemberships

definition table_rows :: "database \<Rightarrow> membership_table \<Rightarrow> (string \<times> string) list" where
  "table_rows db table =
     (case table of
        Memberships \<Rightarrow> map (\<lambda>m. (me_package m, me_dist m)) (db_memberships db)
      | BuiltMemberships \<Rightarrow> map (\<lambda>m. (bm_package m, bm_dist m)) (db_built db)
      | PriorBuiltMemberships \<Rightarrow> map (\<lambda>m. (bm_package m, bm_dist m)) (db_prior_built db))"

definition packageMembershipDigestBatchSize :: nat where
  "packageMembershipDigestBatchSize = 500"

definition add_row :: "(string \<times> string list) list \<Rightarrow> string \<times> string \<Rightarrow> (string \<times> string list) list" where
  "add_row result row = map (\<lambda>(digest, dists). if digest = fst row then (digest, dists @ [snd row]) else (digest, dists)) result"

definition packageDistsForObjects ::
  "database \<Rightarrow> PackageObject list \<Rightarrow> membership_table \<Rightarrow> bool \<Rightarrow> (string \<times> string list) list" where
  "packageDistsForObjects db objects table allObjects =
     (let digests = rev (remdups (rev (map ob_sha256 objects)));
          start = map (\<lambda>d. (d, [])) digests;
          batchSize = (if allObjects then length digests else packageMembershipDigestBatchSize)
      in foldl (\<lambda>result batch.
           foldl add_row result (sort (filter (\<lambda>r. allObjects \<or> fst r \<in> set batch) (table_rows db table))))
         start (batches batchSize digests))"

definition object_order :: "PackageObject \<Rightarrow> string \<times> string \<times> string \<times> string" where
  "object_order b = (ob_format b, ob_name b, ob_coordinate b, ob_sha256 b)"

definition listPackageObjectsByMembershipTable :: "database \<Rightarrow> string list \<Rightarrow> membership_table \<Rightarrow> PackageObject list result" where
  "listPackageObjectsByMembershipTable db distNames table =
     (let rows = sort_key object_order (filter (\<lambda>b. distNames = [] \<or>
            list_ex (\<lambda>r. fst r = ob_sha256 b \<and> snd r \<in> set distNames) (table_rows db table)) (db_objects db))
      in and_then (scan_all rows) (\<lambda>objects.
         let dists = packageDistsForObjects db objects Memberships (distNames = []);
             builtDists = packageDistsForObjects db objects BuiltMemberships (distNames = [])
         in Inr (map (\<lambda>b. b\<lparr>ob_dists := (case map_of dists (ob_sha256 b) of None \<Rightarrow> [] | Some ds \<Rightarrow> ds),
               ob_built_dists := (case map_of builtDists (ob_sha256 b) of None \<Rightarrow> [] | Some ds \<Rightarrow> ds)\<rparr>) objects)))"

definition ListPackageObjects :: "database \<Rightarrow> string list \<Rightarrow> bool \<Rightarrow> PackageObject list result" where
  "ListPackageObjects db distNames built =
     listPackageObjectsByMembershipTable db distNames (if built then BuiltMemberships else Memberships)"

definition ListPriorBuiltPackageObjects :: "database \<Rightarrow> string list \<Rightarrow> PackageObject list result" where
  "ListPriorBuiltPackageObjects db distNames = listPackageObjectsByMembershipTable db distNames PriorBuiltMemberships"

definition ListPendingPackageObjects :: "database \<Rightarrow> PackageObject list result" where
  "ListPendingPackageObjects db =
     scan_all (sort_key ob_sha256 (filter (\<lambda>b. ob_storage b = ''pending'') (db_objects db)))"

definition with_dists :: "database \<Rightarrow> PackageObject \<Rightarrow> PackageObject" where
  "with_dists db b = b\<lparr>ob_dists := packageDists db (ob_sha256 b) False, ob_built_dists := packageDists db (ob_sha256 b) True\<rparr>"

definition GetPackageObject :: "database \<Rightarrow> string \<Rightarrow> PackageObject result" where
  "GetPackageObject db digest =
     (case find_object db digest of
        None \<Rightarrow> Inl (GoError [ErrNotFound] ''package object'')
      | Some b \<Rightarrow> and_then (scanPackageObject b) (\<lambda>b. Inr (with_dists db b)))"

definition FindPackageByCoordinate :: "database \<Rightarrow> string \<Rightarrow> string \<Rightarrow> PackageObject result" where
  "FindPackageByCoordinate db format coordinate =
     (case List.find (\<lambda>b. ob_format b = format \<and> ob_coordinate b = coordinate) (db_objects db) of
        None \<Rightarrow> Inl (GoError [ErrNotFound] ''package coordinate'')
      | Some b \<Rightarrow> and_then (scanPackageObject b) (\<lambda>b. Inr (with_dists db b)))"

definition unreferencedPendingTx :: "database \<Rightarrow> PackageObject list result" where
  "unreferencedPendingTx db =
     scan_all (sort_key ob_sha256 (filter (\<lambda>b. ob_storage b = ''pending''
       \<and> ob_sha256 b \<notin> set (map me_package (db_memberships db))) (db_objects db)))"

definition validatePackageObjectRows :: "database \<Rightarrow> unit result" where
  "validatePackageObjectRows db = and_then (scan_all (sort_key ob_sha256 (db_objects db))) (\<lambda>_. Inr ())"

end
