(* ===== verification/Desired_State.thy ===== *)
theory Desired_State
  imports Package_Objects
begin

section \<open>The desired mutation (\<open>ApplyDesiredMutationWithSigningKeys\<close> of \<open>objects.go\<close>)\<close>

text \<open>
  Installs new package facts and the complete desired sets of the named dists, drops what is pending
  and no longer wanted, records what happened and moves the operation to its applied state. The
  argument \<open>desired\<close> lists the entries of the Go map in the order the loop visits them; its names
  are distinct.
\<close>

subsection \<open>The evidence of dropped packages\<close>

fun raw_elements :: "nat \<Rightarrow> string \<Rightarrow> string list" where
  "raw_elements 0 s = []"
| "raw_elements (Suc n) s =
     (case scan_value (Suc (2 * length s)) 1 s of
        None \<Rightarrow> []
      | Some r \<Rightarrow> take (length s - length r) s
          # (case skip_ws r of [] \<Rightarrow> [] | c # cs \<Rightarrow> if c = CHR '','' then raw_elements n (skip_ws cs) else []))"

definition element_string :: "string \<Rightarrow> string option" where
  "element_string raw =
     (if raw = ''null'' then Some []
      else if HasPrefix raw [CHR 0x22] then Some (json_unquote (butlast (tl raw))) else None)"

text \<open>\<open>json.Unmarshal\<close> of a raw value into a slice of strings.\<close>

definition json_strings :: "string \<Rightarrow> string list option" where
  "json_strings raw =
     (case skip_ws raw of
        [] \<Rightarrow> None
      | c # cs \<Rightarrow>
          if HasPrefix (c # cs) ''null'' then Some []
          else if c \<noteq> CHR ''['' then None
          else if HasPrefix (skip_ws cs) '']'' then Some []
          else let es = map element_string (raw_elements (length cs) (skip_ws cs))
               in if list_all (\<lambda>e. e \<noteq> None) es then Some (map the es) else None)"

definition decode_result :: "string \<Rightarrow> (string \<times> string) list result" where
  "decode_result data =
     (if json_is_object data then Inr (object_members data)
      else Inl (plain_error ''operation result must be a JSON object''))"

definition prior_digests :: "(string \<times> string) list \<Rightarrow> string list result" where
  "prior_digests prior =
     (case map_of prior ''dropped_pending'' of
        None \<Rightarrow> Inr []
      | Some raw \<Rightarrow>
          (case json_strings raw of
             None \<Rightarrow> Inl (plain_error ''operation result has malformed dropped_pending evidence'')
           | Some values \<Rightarrow>
               if list_all validSHA256Text values then Inr values
               else Inl (plain_error ''operation result has invalid dropped_pending digest'')))"

definition mergeDroppedPendingResult :: "string \<Rightarrow> string \<Rightarrow> PackageObject list \<Rightarrow> (string list \<times> string) result" where
  "mergeDroppedPendingResult requestedJSON priorJSON dropped =
     and_then (decode_result requestedJSON) (\<lambda>requested.
     and_then (decode_result priorJSON) (\<lambda>prior.
     and_then (prior_digests prior) (\<lambda>values.
       if list_ex (\<lambda>b. \<not> validSHA256Text (ob_sha256 b)) dropped
       then Inl (plain_error ''dropped pending object has invalid digest'')
       else let ordered = sort (remdups (values @ map ob_sha256 dropped));
                raw = json_array (map json_str ordered);
                members = sort_key fst (put_member (''dropped_pending'', raw) requested);
                merged = json_object (map (\<lambda>(k, v). (k, Some (json_compact False False v))) members)
            in if int (length merged) > MaxOperationPayloadBytes
               then Inl (plain_error ''operation result with dropped_pending evidence exceeds its journal limit'')
               else Inr (ordered, merged))))"

subsection \<open>Admission\<close>

definition desired_step ::
  "database \<Rightarrow> (string \<times> string list) list \<Rightarrow> string \<times> string list \<Rightarrow> (string \<times> string list) list result" where
  "desired_step db wanted entry =
     (case entry of (distName, digests) \<Rightarrow>
        if distName = '''' then Inl (plain_error ''desired mutation has an empty dist name'')
        else if find_dist db distName = None then Inl (GoError [ErrNotFound] ''dist'')
        else if list_ex (\<lambda>d. \<not> validSHA256Text d) digests then Inl (plain_error ''invalid package sha256'')
        else Inr (wanted @ [(distName, sort (remdups digests))]))"

definition admit_object ::
  "database \<Rightarrow> string list \<Rightarrow> int \<Rightarrow> string list \<times> PackageObject list \<Rightarrow> PackageObject \<Rightarrow> (string list \<times> PackageObject list) result" where
  "admit_object db needed nextRevision s b =
     (case s of (seen, newObjects) \<Rightarrow>
        if ob_sha256 b \<in> set seen then Inl (plain_error ''duplicate package object in mutation'')
        else if ob_sha256 b \<notin> set needed then Inr (ob_sha256 b # seen, newObjects)
        else and_then (packageObjectTx db (ob_sha256 b)) (\<lambda>found.
             case found of
               Some existing \<Rightarrow>
                 (if sameImmutablePackageObject existing b then Inr (ob_sha256 b # seen, newObjects)
                  else Inl (GoError [ErrConflict] ''sha256 has different package facts''))
             | None \<Rightarrow>
                 (if list_ex (\<lambda>r. ob_format r = ob_format b \<and> ob_coordinate r = ob_coordinate b) (db_objects db)
                  then Inl (GoError [ErrConflict] ''coordinate already maps to another package'')
                  else Inr (ob_sha256 b # seen, newObjects @ [b\<lparr>ob_created_revision := nextRevision\<rparr>]))))"

definition check_paths :: "database \<Rightarrow> PackageObject list \<Rightarrow> PoolPathOwners result" where
  "check_paths db newObjects =
     for_each (\<lambda>owners b. and_then (owners_Check owners b) (\<lambda>_. Inr (owners_Add owners (ob_pool_path b, ob_sha256 b))))
       (packagePoolPathOwners db (map ob_pool_path newObjects)) newObjects"

subsection \<open>Replacing memberships\<close>

definition log_membership :: "string \<Rightarrow> nat \<times> database \<Rightarrow> string \<times> string \<times> string \<Rightarrow> (nat \<times> database) result" where
  "log_membership operationID s change =
     (case (s, change) of ((sequence, db), (distName, digest, action)) \<Rightarrow>
        if list_ex (\<lambda>r. om_operation r = operationID \<and> om_sequence r = sequence) (db_operation_memberships db)
        then Inl (plain_error ''record operation membership'')
        else Inr (Suc sequence, db\<lparr>db_operation_memberships := db_operation_memberships db
               @ [\<lparr>om_operation = operationID, om_sequence = sequence, om_dist = distName, om_package = digest, om_action = action\<rparr>]\<rparr>))"

definition insert_membership :: "string \<Rightarrow> int \<Rightarrow> database \<Rightarrow> string \<Rightarrow> database result" where
  "insert_membership distName revision db digest =
     (if find_object db digest = None \<or> find_dist db distName = None
         \<or> list_ex (\<lambda>m. me_dist m = distName \<and> me_package m = digest) (db_memberships db)
      then Inl (plain_error ''add membership'')
      else Inr (db\<lparr>db_memberships := db_memberships db
             @ [\<lparr>me_dist = distName, me_package = digest, me_created_revision = revision\<rparr>]\<rparr>))"

definition set_desired_revision :: "string \<Rightarrow> int \<Rightarrow> database \<Rightarrow> database" where
  "set_desired_revision distName revision db =
     db\<lparr>db_dists := map (\<lambda>d. if di_name d = distName then d\<lparr>di_desired_revision := revision\<rparr> else d) (db_dists db)\<rparr>"

definition replace_memberships ::
  "string \<Rightarrow> int \<Rightarrow> nat \<times> database \<Rightarrow> string \<times> string list \<times> string list \<Rightarrow> (nat \<times> database) result" where
  "replace_memberships operationID revision s change =
     (case change of (distName, current, wanted) \<Rightarrow>
        and_then (for_each (log_membership operationID) s
                    (map (\<lambda>d. (distName, d, ''remove'')) (filter (\<lambda>d. d \<notin> set wanted) current)
                     @ map (\<lambda>d. (distName, d, ''add'')) (filter (\<lambda>d. d \<notin> set current) wanted))) (\<lambda>(sequence, db).
        let db = db\<lparr>db_memberships := filter (\<lambda>m. me_dist m \<noteq> distName) (db_memberships db)\<rparr>
        in and_then (for_each (insert_membership distName revision) db wanted) (\<lambda>db.
             Inr (sequence, set_desired_revision distName revision db))))"

definition drop_object :: "database \<Rightarrow> PackageObject \<Rightarrow> database result" where
  "drop_object db b =
     (if ob_sha256 b \<in> set (map me_package (db_memberships db)) \<or> ob_sha256 b \<in> set (map bm_package (db_built db))
         \<or> ob_sha256 b \<in> set (map bm_package (db_prior_built db))
      then Inl (plain_error ''drop unreferenced pending object'')
      else Inr (db\<lparr>db_objects := filter (\<lambda>o'. ob_sha256 o' \<noteq> ob_sha256 b) (db_objects db)\<rparr>))"

subsection \<open>The transaction\<close>

record DesiredMutationResult =
  mr_revision :: int
  mr_changed :: bool
  mr_changed_dists :: "string list"
  mr_dropped :: "string list"

definition set_repository_revision :: "int \<Rightarrow> database \<Rightarrow> database" where
  "set_repository_revision revision db = db\<lparr>db_repository := (db_repository db)\<lparr>rs_desired_revision := revision\<rparr>\<rparr>"

text \<open>The dists whose current set differs from the wanted one, with both sets, by name.\<close>

definition changed_dists :: "database \<Rightarrow> (string \<times> string list) list \<Rightarrow> (string \<times> string list \<times> string list) list" where
  "changed_dists db wanted =
     filter (\<lambda>(_, current, want). current \<noteq> want)
       (map (\<lambda>(name, want). (name, membershipDigestsTx db name False, want)) (sort_key fst wanted))"

definition finish_mutation ::
  "string \<Rightarrow> string \<Rightarrow> string \<Rightarrow> int \<Rightarrow> bool \<Rightarrow> string list \<Rightarrow> database \<Rightarrow> (database \<times> DesiredMutationResult) result" where
  "finish_mutation now operationID resultJSON revision changed changedDists db =
     and_then (unreferencedPendingTx db) (\<lambda>dropped.
     and_then (for_each drop_object db dropped) (\<lambda>db.
     let db = (if changed then set_repository_revision revision (set_status db) else db)
     in case find_operation db operationID of
          None \<Rightarrow> Inl (plain_error ''read prior operation result'')
        | Some row \<Rightarrow>
            and_then (mergeDroppedPendingResult resultJSON (op_result row) dropped) (\<lambda>(cleanup, merged).
            and_then (setOperationStateTx now operationID OperationApplied '''' ''''
                        (update_operation operationID (\<lambda>r. r\<lparr>op_result := merged\<rparr>) db)) (\<lambda>db.
              Inr (db, \<lparr>mr_revision = revision, mr_changed = changed, mr_changed_dists = changedDists, mr_dropped = cleanup\<rparr>)))))"

definition desired_mutation_tx ::
  "string \<Rightarrow> string \<Rightarrow> PackageObject list \<Rightarrow> RPMSigningKey list \<Rightarrow> (string \<times> string list) list \<Rightarrow> string
   \<Rightarrow> database \<Rightarrow> (database \<times> DesiredMutationResult) result" where
  "desired_mutation_tx now operationID objects keys desired resultJSON db =
     and_then (operationStateTx operationID db) (\<lambda>state.
     if state \<noteq> OperationStaged \<and> state \<noteq> OperationRecovering
     then Inl (GoError [ErrTransition] ''apply desired mutation'')
     else and_then (retainRPMSigningKeysTx keys db) (\<lambda>db.
          and_then (for_each (desired_step db) [] desired) (\<lambda>wanted.
          let currentRevision = rs_desired_revision (db_repository db);
              needed = concat (map snd wanted)
          in and_then (for_each (admit_object db needed (currentRevision + 1)) ([], []) objects) (\<lambda>(_, newObjects).
             and_then (check_paths db newObjects) (\<lambda>_.
             let changes = changed_dists db wanted;
                 changed = (changes \<noteq> [] \<or> newObjects \<noteq> []);
                 revision = (if changed then currentRevision + 1 else currentRevision)
             in and_then (for_each insertPackageObjectTx db newObjects) (\<lambda>db.
                and_then (for_each (replace_memberships operationID revision) (0, db) changes) (\<lambda>(_, db).
                  finish_mutation now operationID resultJSON revision changed (map fst changes) db)))))))"

definition ApplyDesiredMutationWithSigningKeys ::
  "unit result \<Rightarrow> string \<Rightarrow> string \<Rightarrow> PackageObject list \<Rightarrow> RPMSigningKey list \<Rightarrow> (string \<times> string list) list \<Rightarrow> string
   \<Rightarrow> database \<Rightarrow> database \<times> (DesiredMutationResult option \<times> unit result)" where
  "ApplyDesiredMutationWithSigningKeys ckpt now operationID objects signingKeys desired result db =
     (if desired = [] then (db, None, Inl (plain_error ''desired mutation requires at least one dist''))
      else let resultJSON = (if result = '''' then ''{}'' else result)
           in case and_then (validateOperationPayload resultJSON) (\<lambda>_.
                   and_then (for_each (\<lambda>_. validatePackageObject) () objects) (\<lambda>_.
                   and_then (normalizeRPMSigningKeys signingKeys) (\<lambda>keys.
                     desired_mutation_tx now operationID objects keys desired resultJSON db))) of
                Inl e \<Rightarrow> (db, None, Inl e)
              | Inr (db', outcome) \<Rightarrow> (db', Some outcome, ckpt))"

definition ApplyDesiredMutation where
  "ApplyDesiredMutation ckpt now operationID objects desired result db =
     ApplyDesiredMutationWithSigningKeys ckpt now operationID objects [] desired result db"

end
