(* ===== verification/Desired_Invariant.thy ===== *)
theory Desired_Invariant
  imports Desired_State
begin

section \<open>What a desired mutation guarantees\<close>

subsection \<open>The invariant of the package tables\<close>

text \<open>
  Packages have distinct digests and coordinates and valid facts; a pool path, read without regard
  to case, belongs to one path and one digest for ever, published history included; memberships
  name known packages.
\<close>

definition object_wf :: "database \<Rightarrow> bool" where
  "object_wf db \<longleftrightarrow>
     distinct (map ob_sha256 (db_objects db))
     \<and> distinct (map (\<lambda>b. (ob_format b, ob_coordinate b)) (db_objects db))
     \<and> list_all (\<lambda>b. validatePackageObject b = Inr ()) (db_objects db)
     \<and> list_all (\<lambda>e. list_all (\<lambda>e'. ToLower (fst e) = ToLower (fst e') \<longrightarrow> e = e') (path_claims db)) (path_claims db)
     \<and> list_all (\<lambda>m. me_package m \<in> set (map ob_sha256 (db_objects db))) (db_memberships db)
     \<and> list_all (\<lambda>m. bm_package m \<in> set (map ob_sha256 (db_objects db))) (db_built db @ db_prior_built db)
     \<and> distinct (map (\<lambda>m. (me_dist m, me_package m)) (db_memberships db))
     \<and> 0 \<le> rs_desired_revision (db_repository db)"

text \<open>The rows the invariant reads.\<close>

definition object_rows where
  "object_rows db = (db_objects db, db_inventory db, db_abandoned db, db_memberships db, db_built db, db_prior_built db,
     rs_desired_revision (db_repository db))"

lemma object_rows_wf: "object_rows db' = object_rows db \<Longrightarrow> object_wf db' = object_wf db"
  by (simp add: object_rows_def object_wf_def path_claims_def)

lemma retain_object_rows:
  assumes "retainRPMSigningKeysTx keys db = Inr db'"
  shows "object_rows db' = object_rows db \<and> db_operations db' = db_operations db \<and> db_dists db' = db_dists db"
  by (rule for_each_invariant[OF assms[unfolded retainRPMSigningKeysTx_def]])
    (auto simp: retain_key_def object_rows_def split: if_splits)

subsection \<open>Admission\<close>

lemma desired_loop:
  assumes "for_each (desired_step db) acc desired = Inr wanted"
  shows "wanted = acc @ map (\<lambda>(n, ds). (n, sort (remdups ds))) desired
    \<and> list_all (\<lambda>(n, ds). find_dist db n \<noteq> None \<and> list_all validSHA256Text ds) desired"
  using assms
proof (induction desired arbitrary: acc)
  case (Cons e desired)
  obtain n ds where e: "e = (n, ds)" by (cases e)
  from Cons.prems obtain acc' where step: "desired_step db acc e = Inr acc'" and rest: "for_each (desired_step db) acc' desired = Inr wanted"
    by (auto simp: and_then_Inr_iff)
  from step e have ok: "find_dist db n \<noteq> None" "list_all validSHA256Text ds" "acc' = acc @ [(n, sort (remdups ds))]"
    by (auto simp: desired_step_def list_ex_iff list_all_iff split: if_splits)
  from Cons.IH[OF rest] ok show ?case by (simp add: e)
qed simp

text \<open>A package that enters the tables: its facts were given, and nothing known has its digest or coordinate.\<close>

definition admissible :: "database \<Rightarrow> PackageObject list \<Rightarrow> int \<Rightarrow> PackageObject \<Rightarrow> bool" where
  "admissible db objects revision b \<longleftrightarrow>
     (\<exists>o' \<in> set objects. b = o'\<lparr>ob_created_revision := revision\<rparr>) \<and> find_object db (ob_sha256 b) = None
     \<and> (ob_format b, ob_coordinate b) \<notin> set (map (\<lambda>r. (ob_format r, ob_coordinate r)) (db_objects db))"

lemma admit_object_Inr:
  assumes "admit_object db needed revision (seen, new) b = Inr s"
  shows "ob_sha256 b \<notin> set seen \<and> fst s = ob_sha256 b # seen
    \<and> (snd s = new \<or> snd s = new @ [b\<lparr>ob_created_revision := revision\<rparr>] \<and> ob_sha256 b \<in> set needed
        \<and> admissible db [b] revision (b\<lparr>ob_created_revision := revision\<rparr>))"
proof (cases "ob_sha256 b \<in> set seen \<or> ob_sha256 b \<notin> set needed")
  case True
  with assms show ?thesis by (auto simp: admit_object_def split: if_splits)
next
  case False
  with assms obtain found where found: "packageObjectTx db (ob_sha256 b) = Inr found"
    by (auto simp: admit_object_def and_then_Inr_iff)
  show ?thesis
  proof (cases found)
    case None
    then have "find_object db (ob_sha256 b) = None"
      using found by (auto simp: packageObjectTx_def and_then_Inr_iff split: option.splits)
    with False assms found None show ?thesis
      by (auto simp: admit_object_def admissible_def list_ex_iff split: if_splits)
  next
    case (Some existing)
    with False assms found show ?thesis by (auto simp: admit_object_def split: if_splits)
  qed
qed

lemma admissible_mono: "admissible db xs r b \<Longrightarrow> set xs \<subseteq> set ys \<Longrightarrow> admissible db ys r b"
  by (auto simp: admissible_def)

lemma admit_loop:
  assumes "for_each (admit_object db needed revision) (seen, new) objects = Inr (seen', new')"
    and "distinct (map ob_sha256 new)" "set (map ob_sha256 new) \<subseteq> set seen"
  shows "distinct (map ob_sha256 new') \<and> (\<forall>b \<in> set new'. b \<in> set new \<or> admissible db objects revision b \<and> ob_sha256 b \<in> set needed)"
  using assms
proof (induction objects arbitrary: seen new)
  case (Cons b objects)
  from Cons.prems(1) obtain s where step: "admit_object db needed revision (seen, new) b = Inr s"
      and rest: "for_each (admit_object db needed revision) s objects = Inr (seen', new')"
    by (auto simp: and_then_Inr_iff)
  note a = admit_object_Inr[OF step]
  have d: "distinct (map ob_sha256 (snd s))" "set (map ob_sha256 (snd s)) \<subseteq> set (fst s)"
    using a Cons.prems(2,3) by (auto simp: subset_iff)
  have IH: "distinct (map ob_sha256 new') \<and> (\<forall>b \<in> set new'. b \<in> set (snd s) \<or> admissible db objects revision b \<and> ob_sha256 b \<in> set needed)"
    by (rule Cons.IH[of "fst s" "snd s"]) (use rest d in simp_all)
  have "b' \<in> set new \<or> admissible db (b # objects) revision b' \<and> ob_sha256 b' \<in> set needed"
    if "b' \<in> set new'" for b'
  proof -
    from IH that consider "b' \<in> set (snd s)" | "admissible db objects revision b'" "ob_sha256 b' \<in> set needed" by blast
    then show ?thesis
    proof cases
      case 1
      with a consider "b' \<in> set new" | "b' = b\<lparr>ob_created_revision := revision\<rparr>" "ob_sha256 b \<in> set needed"
          "admissible db [b] revision b'" by auto
      then show ?thesis by cases (auto intro: admissible_mono)
    next
      case 2
      then show ?thesis by (auto intro: admissible_mono)
    qed
  qed
  with IH show ?case by blast
qed auto

lemma check_paths_loop:
  assumes "for_each (\<lambda>owners b. and_then (owners_Check owners b) (\<lambda>_. Inr (owners_Add owners (ob_pool_path b, ob_sha256 b)))) owners new = Inr owners'"
    and "distinct (map ob_sha256 new)"
  shows "(\<forall>b \<in> set new. \<forall>(k, p, d) \<in> set owners. k = ToLower (ob_pool_path b) \<longrightarrow> p = ob_pool_path b \<and> d = ob_sha256 b)
    \<and> (\<forall>b \<in> set new. \<forall>b' \<in> set new. ToLower (ob_pool_path b) = ToLower (ob_pool_path b') \<longrightarrow> b = b')"
  using assms
proof (induction new arbitrary: owners)
  case (Cons b new)
  from Cons.prems(1) have check: "owners_Check owners b = Inr ()"
    and rest: "for_each (\<lambda>owners b. and_then (owners_Check owners b) (\<lambda>_. Inr (owners_Add owners (ob_pool_path b, ob_sha256 b))))
        (owners_Add owners (ob_pool_path b, ob_sha256 b)) new = Inr owners'"
    by (auto simp: and_then_Inr_iff)
  from Cons.prems(2) have notin: "ob_sha256 b \<notin> ob_sha256 ` set new" and "distinct (map ob_sha256 new)" by auto
  note IH = Cons.IH[OF rest \<open>distinct (map ob_sha256 new)\<close>]
  have "ToLower (ob_pool_path b') \<noteq> ToLower (ob_pool_path b)" if "b' \<in> set new" for b'
    using IH that notin by (force simp: set_owners_Add)
  moreover have "\<forall>(k, p, d) \<in> set owners. k = ToLower (ob_pool_path b) \<longrightarrow> p = ob_pool_path b \<and> d = ob_sha256 b"
    using check by (simp add: owners_Check_Inr)
  ultimately show ?case
    using IH by (auto simp: set_owners_Add eq_commute[of "ToLower (ob_pool_path b)"])
qed simp

lemma check_paths_Inr:
  assumes "check_paths db new = Inr owners" and "distinct (map ob_sha256 new)"
  shows "(\<forall>b \<in> set new. \<forall>(p, d) \<in> set (path_claims db). ToLower p = ToLower (ob_pool_path b) \<longrightarrow> p = ob_pool_path b \<and> d = ob_sha256 b)
    \<and> (\<forall>b \<in> set new. \<forall>b' \<in> set new. ToLower (ob_pool_path b) = ToLower (ob_pool_path b') \<longrightarrow> b = b')"
  using check_paths_loop[OF assms(1)[unfolded check_paths_def] assms(2)]
  by (fastforce simp: packagePoolPathOwners_set)

subsection \<open>Inserting and dropping\<close>

definition bare :: "PackageObject \<Rightarrow> PackageObject" where
  "bare b = b\<lparr>ob_dists := [], ob_built_dists := []\<rparr>"

lemma bare_sel [simp]: "ob_sha256 (bare b) = ob_sha256 b" "ob_format (bare b) = ob_format b" "ob_coordinate (bare b) = ob_coordinate b"
  "ob_pool_path (bare b) = ob_pool_path b" "ob_storage (bare b) = ob_storage b"
  by (simp_all add: bare_def)

lemma validate_bare [simp]: "validatePackageObject (bare b) = validatePackageObject b"
  by (simp add: validatePackageObject_def bare_def rpm_architecture_ok_def deb_architecture_ok_def)

lemma insert_objects:
  assumes "for_each insertPackageObjectTx db new = Inr db'"
    and "distinct (map (\<lambda>b. (ob_format b, ob_coordinate b)) (db_objects db))"
  shows "db' = db\<lparr>db_objects := db_objects db @ map bare new\<rparr>
    \<and> distinct (map (\<lambda>b. (ob_format b, ob_coordinate b)) (db_objects db'))"
  using assms
proof (induction new arbitrary: db)
  case (Cons b new)
  then obtain db1 where step: "insertPackageObjectTx db b = Inr db1" and rest: "for_each insertPackageObjectTx db1 new = Inr db'"
    by (auto simp: and_then_Inr_iff)
  from step have db1: "db1 = db\<lparr>db_objects := db_objects db @ [bare b]\<rparr>"
      "(ob_format b, ob_coordinate b) \<notin> set (map (\<lambda>r. (ob_format r, ob_coordinate r)) (db_objects db))"
    by (auto simp: insertPackageObjectTx_def bare_def split: if_splits)
  then have "distinct (map (\<lambda>b. (ob_format b, ob_coordinate b)) (db_objects db1))" using Cons.prems(2) by simp
  from Cons.IH[OF rest this] have "db' = db1\<lparr>db_objects := db_objects db1 @ map bare new\<rparr>"
      "distinct (map (\<lambda>b. (ob_format b, ob_coordinate b)) (db_objects db'))" by blast+
  moreover from this(1) have "db' = db\<lparr>db_objects := db_objects db @ map bare (b # new)\<rparr>" by (simp add: db1(1))
  ultimately show ?case by blast
qed simp

lemma scan_all_Inr:
  assumes "scan_all rows = Inr objects"
  shows "objects = map bare rows \<and> (\<forall>b \<in> set rows. validatePackageObject b = Inr ())"
proof -
  have "for_each (\<lambda>acc b. and_then (scanPackageObject b) (\<lambda>b. Inr (acc @ [b]))) acc rows = Inr objects \<Longrightarrow>
      objects = acc @ map bare rows \<and> (\<forall>b \<in> set rows. validatePackageObject b = Inr ())" for acc
  proof (induction rows arbitrary: acc)
    case (Cons b rows)
    then have "validatePackageObject b = Inr ()"
        and "for_each (\<lambda>acc b. and_then (scanPackageObject b) (\<lambda>b. Inr (acc @ [b]))) (acc @ [bare b]) rows = Inr objects"
      by (auto simp: scanPackageObject_def bare_def and_then_Inr_iff split: sum.splits)
    with Cons.IH[of "acc @ [bare b]"] show ?case by simp
  qed simp
  from this[of "[]"] assms show ?thesis by (simp add: scan_all_def)
qed

lemma drop_objects:
  assumes "for_each drop_object db dropped = Inr db'"
  shows "db' = db\<lparr>db_objects := filter (\<lambda>b. ob_sha256 b \<notin> ob_sha256 ` set dropped) (db_objects db)\<rparr>
    \<and> (\<forall>b \<in> set dropped. ob_sha256 b \<notin> set (map me_package (db_memberships db)) \<union> set (map bm_package (db_built db @ db_prior_built db)))"
  using assms
proof (induction dropped arbitrary: db)
  case (Cons b dropped)
  then obtain db1 where step: "drop_object db b = Inr db1" and rest: "for_each drop_object db1 dropped = Inr db'"
    by (auto simp: and_then_Inr_iff)
  from step have "db1 = db\<lparr>db_objects := filter (\<lambda>o'. ob_sha256 o' \<noteq> ob_sha256 b) (db_objects db)\<rparr>"
      "ob_sha256 b \<notin> set (map me_package (db_memberships db)) \<union> set (map bm_package (db_built db @ db_prior_built db))"
    by (auto simp: drop_object_def split: if_splits)
  with Cons.IH[OF rest] show ?case by (auto simp: conj_commute)
qed simp

subsection \<open>Replacing memberships\<close>

definition members_of :: "database \<Rightarrow> string \<Rightarrow> string list" where
  "members_of db name = map me_package (filter (\<lambda>m. me_dist m = name) (db_memberships db))"

text \<open>What a replacement of memberships leaves alone.\<close>

definition fixed_rows where
  "fixed_rows db = (db_objects db, db_inventory db, db_abandoned db, db_built db, db_prior_built db, db_repository db, db_operations db)"

lemma log_memberships:
  assumes "for_each (log_membership i) (n, db) changes = Inr (n', db')"
  shows "fixed_rows db' = fixed_rows db \<and> db_memberships db' = db_memberships db \<and> db_dists db' = db_dists db"
  by (rule for_each_invariant[where P = "\<lambda>s. fixed_rows (snd s) = fixed_rows db \<and> db_memberships (snd s) = db_memberships db \<and> db_dists (snd s) = db_dists db",
      OF assms, unfolded snd_conv])
    (auto simp: log_membership_def fixed_rows_def split: if_splits prod.splits)

lemma insert_memberships:
  assumes "for_each (insert_membership name revision) db wanted = Inr db'"
  shows "db' = db\<lparr>db_memberships := db_memberships db
      @ map (\<lambda>d. \<lparr>me_dist = name, me_package = d, me_created_revision = revision\<rparr>) wanted\<rparr>
    \<and> (\<forall>d \<in> set wanted. find_object db d \<noteq> None)"
  using assms
proof (induction wanted arbitrary: db)
  case (Cons d wanted)
  then obtain db1 where step: "insert_membership name revision db d = Inr db1"
      and rest: "for_each (insert_membership name revision) db1 wanted = Inr db'"
    by (auto simp: and_then_Inr_iff)
  from step have "db1 = db\<lparr>db_memberships := db_memberships db @ [\<lparr>me_dist = name, me_package = d, me_created_revision = revision\<rparr>]\<rparr>"
      "find_object db d \<noteq> None"
    by (auto simp: insert_membership_def split: if_splits)
  with Cons.IH[OF rest] show ?case by (auto simp: find_object_def)
qed simp

lemma replace_membership:
  assumes "replace_memberships i revision (n, db) (name, current, wanted) = Inr (n', db')"
  shows "fixed_rows db' = fixed_rows db
    \<and> db_memberships db' = filter (\<lambda>m. me_dist m \<noteq> name) (db_memberships db)
        @ map (\<lambda>d. \<lparr>me_dist = name, me_package = d, me_created_revision = revision\<rparr>) wanted
    \<and> (\<forall>d \<in> set wanted. find_object db d \<noteq> None)
    \<and> map di_name (db_dists db') = map di_name (db_dists db)"
proof -
  from assms obtain n1 db1 db2 where
    a: "for_each (log_membership i) (n, db) (map (\<lambda>d. (name, d, ''remove'')) (filter (\<lambda>d. d \<notin> set wanted) current)
         @ map (\<lambda>d. (name, d, ''add'')) (filter (\<lambda>d. d \<notin> set current) wanted)) = Inr (n1, db1)"
    and b: "for_each (insert_membership name revision) (db1\<lparr>db_memberships := filter (\<lambda>m. me_dist m \<noteq> name) (db_memberships db1)\<rparr>) wanted = Inr db2"
    and db': "db' = set_desired_revision name revision db2"
    by (auto simp: replace_memberships_def and_then_Inr_iff Let_def)
  have "map di_name (db_dists (set_desired_revision name revision db2)) = map di_name (db_dists db2)"
    by (simp add: set_desired_revision_def)
  with log_memberships[OF a] insert_memberships[OF b] show ?thesis
    by (simp add: db' fixed_rows_def set_desired_revision_def find_object_def)
qed

lemma members_of_replace:
  assumes "db_memberships db' = filter (\<lambda>m. me_dist m \<noteq> name) (db_memberships db)
        @ map (\<lambda>d. \<lparr>me_dist = name, me_package = d, me_created_revision = revision\<rparr>) wanted"
  shows "members_of db' other = (if other = name then wanted else members_of db other)"
proof -
  have "filter (\<lambda>m. me_dist m = other) (map (\<lambda>d. \<lparr>me_dist = name, me_package = d, me_created_revision = revision\<rparr>) wanted) =
      (if other = name then map (\<lambda>d. \<lparr>me_dist = name, me_package = d, me_created_revision = revision\<rparr>) wanted else [])"
    by (auto simp: filter_empty_conv)
  moreover have "filter (\<lambda>x. me_dist x \<noteq> name \<and> me_dist x = other) ms = (if other = name then [] else filter (\<lambda>x. me_dist x = other) ms)"
    for ms :: "membership_row list"
    by (induction ms) auto
  ultimately show ?thesis using assms by (auto simp: members_of_def comp_def)
qed

lemma replace_loop:
  assumes "for_each (replace_memberships i revision) (n, db) changes = Inr (n', db')" and "distinct (map fst changes)"
  shows "fixed_rows db' = fixed_rows db
    \<and> (\<forall>name. members_of db' name = (case map_of changes name of None \<Rightarrow> members_of db name | Some (_, wanted) \<Rightarrow> wanted))
    \<and> (\<forall>(_, _, wanted) \<in> set changes. \<forall>d \<in> set wanted. find_object db d \<noteq> None)
    \<and> map di_name (db_dists db') = map di_name (db_dists db)"
  using assms
proof (induction changes arbitrary: n db)
  case (Cons c changes)
  obtain name current wanted where c: "c = (name, current, wanted)" by (cases c)
  from Cons.prems(1) obtain n1 db1 where step: "replace_memberships i revision (n, db) (name, current, wanted) = Inr (n1, db1)"
      and rest: "for_each (replace_memberships i revision) (n1, db1) changes = Inr (n', db')"
    by (auto simp: and_then_Inr_iff c)
  note r = replace_membership[OF step]
  have notin: "map_of changes name = None" using Cons.prems(2) by (simp add: c map_of_eq_None_iff)
  have fo: "find_object db1 = find_object db" using r by (auto simp: fixed_rows_def find_object_def fun_eq_iff)
  note m = members_of_replace[OF conjunct1[OF conjunct2[OF r]]]
  note IH = Cons.IH[OF rest] 
  show ?case
    using IH Cons.prems(2) r m notin by (auto simp: c fo split: option.splits)
qed simp

subsection \<open>The whole mutation\<close>

lemma setOperationState_rows:
  assumes "setOperationStateTx now i s ec em db = Inr db'"
  shows "object_rows db' = object_rows db \<and> db_dists db' = db_dists db \<and> state_of db' i = Some s"
  by (rule setOperationStateTx_Inr[OF assms])
    (auto simp: object_rows_def append_event_def state_of_def find_operation_def update_operation_def find_map_update[unfolded find_operation_def update_operation_def, simplified])

text \<open>The packages no dist wants any more and that were never built.\<close>

definition unwanted :: "database \<Rightarrow> PackageObject \<Rightarrow> bool" where
  "unwanted db b \<longleftrightarrow> ob_storage b = ''pending'' \<and> ob_sha256 b \<notin> set (map me_package (db_memberships db))"

lemma finish_mutation_Inr:
  assumes "finish_mutation now i resultJSON revision changed names db = Inr (db', outcome)"
    and "distinct (map ob_sha256 (db_objects db))"
  shows "db_objects db' = filter (\<lambda>b. \<not> unwanted db b) (db_objects db)
    \<and> (\<forall>b \<in> set (db_objects db). unwanted db b \<longrightarrow> ob_sha256 b \<notin> set (map bm_package (db_built db @ db_prior_built db)))
    \<and> db_memberships db' = db_memberships db \<and> db_built db' = db_built db \<and> db_prior_built db' = db_prior_built db
    \<and> db_inventory db' = db_inventory db \<and> db_abandoned db' = db_abandoned db
    \<and> rs_desired_revision (db_repository db') = (if changed then revision else rs_desired_revision (db_repository db))
    \<and> map di_name (db_dists db') = map di_name (db_dists db)
    \<and> state_of db' i = Some OperationApplied \<and> mr_revision outcome = revision \<and> mr_changed outcome = changed
    \<and> mr_changed_dists outcome = names"
proof -
  from assms(1) obtain dropped db1 row cleanup merged where
    d: "unreferencedPendingTx db = Inr dropped" and l: "for_each drop_object db dropped = Inr db1"
    and s: "setOperationStateTx now i OperationApplied '''' '''' (update_operation i (\<lambda>r. r\<lparr>op_result := merged\<rparr>)
        (if changed then set_repository_revision revision (set_status db1) else db1)) = Inr db'"
    and o: "outcome = \<lparr>mr_revision = revision, mr_changed = changed, mr_changed_dists = names, mr_dropped = cleanup\<rparr>"
    by (auto simp: finish_mutation_def and_then_Inr_iff Let_def split: option.splits)
  have dropped: "ob_sha256 ` set dropped = ob_sha256 ` {b \<in> set (db_objects db). unwanted db b}"
  proof -
    have "set dropped = bare ` {b \<in> set (db_objects db). unwanted db b}"
      using scan_all_Inr[OF d[unfolded unreferencedPendingTx_def]] by (auto simp: unwanted_def)
    then show ?thesis by (auto simp: image_iff)
  qed
  have iff: "ob_sha256 b \<in> ob_sha256 ` set dropped \<longleftrightarrow> unwanted db b" if "b \<in> set (db_objects db)" for b
    unfolding dropped using that assms(2) by (auto simp: distinct_map dest: inj_onD)
  note D = drop_objects[OF l]
  have "db_objects db1 = filter (\<lambda>b. \<not> unwanted db b) (db_objects db)"
    using D by (simp add: iff cong: filter_cong)
  moreover have "ob_sha256 b \<notin> set (map bm_package (db_built db @ db_prior_built db))"
    if "b \<in> set (db_objects db)" "unwanted db b" for b
  proof -
    from iff[OF that(1)] that(2) obtain c where "c \<in> set dropped" "ob_sha256 c = ob_sha256 b" by auto
    with D show ?thesis by auto
  qed
  ultimately show ?thesis
    using setOperationState_rows[OF s] D o
    by (auto simp: object_rows_def update_operation_def set_repository_revision_def set_status_def split: if_splits prod.splits)
qed

lemma desired_mutation_Inr:
  assumes "desired_mutation_tx now i objects keys desired resultJSON db = Inr (db', outcome)"
  obtains db1 wanted seen new owners db2 n db3 revision where
    "retainRPMSigningKeysTx keys db = Inr db1" "for_each (desired_step db1) [] desired = Inr wanted"
    "for_each (admit_object db1 (concat (map snd wanted)) (rs_desired_revision (db_repository db1) + 1)) ([], []) objects = Inr (seen, new)"
    "check_paths db1 new = Inr owners"
    "revision = (if changed_dists db1 wanted \<noteq> [] \<or> new \<noteq> [] then rs_desired_revision (db_repository db1) + 1 else rs_desired_revision (db_repository db1))"
    "for_each insertPackageObjectTx db1 new = Inr db2"
    "for_each (replace_memberships i revision) (0, db2) (changed_dists db1 wanted) = Inr (n, db3)"
    "finish_mutation now i resultJSON revision (changed_dists db1 wanted \<noteq> [] \<or> new \<noteq> []) (map fst (changed_dists db1 wanted)) db3 = Inr (db', outcome)"
proof -
  let ?tail = "\<lambda>db1 wanted new. let changes = changed_dists db1 wanted;
                 changed = (changes \<noteq> [] \<or> new \<noteq> []);
                 revision = (if changed then rs_desired_revision (db_repository db1) + 1 else rs_desired_revision (db_repository db1))
             in and_then (for_each insertPackageObjectTx db1 new) (\<lambda>db.
                and_then (for_each (replace_memberships i revision) (0, db) changes) (\<lambda>(_, db).
                  finish_mutation now i resultJSON revision changed (map fst changes) db))"
  from assms obtain db1 wanted seen new owners where
    a: "retainRPMSigningKeysTx keys db = Inr db1" "for_each (desired_step db1) [] desired = Inr wanted"
    "for_each (admit_object db1 (concat (map snd wanted)) (rs_desired_revision (db_repository db1) + 1)) ([], []) objects = Inr (seen, new)"
    "check_paths db1 new = Inr owners" "?tail db1 wanted new = Inr (db', outcome)"
    unfolding desired_mutation_tx_def by (auto simp: and_then_Inr_iff[of "operationStateTx i db"]
      and_then_Inr_iff[of "retainRPMSigningKeysTx keys db"] and_then_Inr_iff[of "for_each (desired_step _) _ _"]
      and_then_Inr_iff[of "for_each (admit_object _ _ _) _ _"] and_then_Inr_iff[of "check_paths _ _"]
      Let_def[of "rs_desired_revision _"] Let_def[of "concat _"] split: if_splits)
  define revision where "revision = (if changed_dists db1 wanted \<noteq> [] \<or> new \<noteq> [] then rs_desired_revision (db_repository db1) + 1 else rs_desired_revision (db_repository db1))"
  from a(5) obtain db2 n db3 where "for_each insertPackageObjectTx db1 new = Inr db2"
    "for_each (replace_memberships i revision) (0, db2) (changed_dists db1 wanted) = Inr (n, db3)"
    "finish_mutation now i resultJSON revision (changed_dists db1 wanted \<noteq> [] \<or> new \<noteq> []) (map fst (changed_dists db1 wanted)) db3 = Inr (db', outcome)"
    unfolding Let_def revision_def[symmetric] by (auto simp: and_then_Inr_iff)
  with a(1-4) revision_def show thesis by (rule that)
qed

lemma map_of_filter_distinct:
  assumes "distinct (map fst entries)"
  shows "map_of (filter keep entries) name = Option.bind (map_of entries name) (\<lambda>v. if keep (name, v) then Some v else None)"
  using assms
proof (induction entries)
  case (Cons e es)
  then have "map_of es (fst e) = None" by (simp add: map_of_eq_None_iff)
  with Cons show ?case by (cases e) (auto split: option.splits bind_splits)
qed simp

lemma map_of_pairs: "map_of (map (\<lambda>(n, w). (n, f n, w)) xs) k = map_option (\<lambda>w. (f k, w)) (map_of xs k)"
  by (induction xs) auto

lemma changed_dists_spec:
  assumes "distinct (map fst wanted)"
  shows "distinct (map fst (changed_dists db wanted))"
    "map_of (changed_dists db wanted) name = (case map_of wanted name of None \<Rightarrow> None
       | Some want \<Rightarrow> if membershipDigestsTx db name False = want then None else Some (membershipDigestsTx db name False, want))"
proof -
  let ?ws = "map (\<lambda>(name, want). (name, membershipDigestsTx db name False, want)) (sort_key fst wanted)"
  have fst: "map fst ?ws = map fst (sort_key fst wanted)" by (auto simp: comp_def case_prod_beta)
  have d: "distinct (map fst ?ws)" unfolding fst using assms by (simp add: distinct_map_sort_key)
  then show "distinct (map fst (changed_dists db wanted))"
    unfolding changed_dists_def by (rule distinct_map_filter)
  have "map_of (sort_key fst wanted) = map_of wanted"
    by (rule map_of_inject_set[THEN iffD2]) (simp_all add: assms distinct_map_sort_key)
  moreover have "map_of ?ws name = map_option (\<lambda>want. (membershipDigestsTx db name False, want)) (map_of (sort_key fst wanted) name)"
    by (rule map_of_pairs)
  ultimately show "map_of (changed_dists db wanted) name = (case map_of wanted name of None \<Rightarrow> None
       | Some want \<Rightarrow> if membershipDigestsTx db name False = want then None else Some (membershipDigestsTx db name False, want))"
    unfolding changed_dists_def map_of_filter_distinct[OF d] by (auto split: option.splits bind_splits)
qed

lemma set_members_of: "set (membershipDigestsTx db name False) = set (members_of db name)"
  by (simp add: membershipDigestsTx_def members_of_def)

lemma map_of_wanted: "map_of (map (\<lambda>(n, ds). (n, f ds)) desired) name = map_option f (map_of desired name)"
  by (induction desired) auto

text \<open>All tables before and after the mutation, in one statement.\<close>

lemma desired_mutation_tables:
  assumes tx: "desired_mutation_tx now i objects keys desired resultJSON db = Inr (db', outcome)"
    and wf: "object_wf db" and names: "distinct (map fst desired)"
  obtains new where
    "distinct (map ob_sha256 new)"
    "\<forall>b \<in> set new. admissible db objects (rs_desired_revision (db_repository db) + 1) b"
    "\<forall>b \<in> set new. \<forall>(p, d) \<in> set (path_claims db). ToLower p = ToLower (ob_pool_path b) \<longrightarrow> p = ob_pool_path b \<and> d = ob_sha256 b"
    "\<forall>b \<in> set new. \<forall>b' \<in> set new. ToLower (ob_pool_path b) = ToLower (ob_pool_path b') \<longrightarrow> b = b'"
    "distinct (map (\<lambda>b. (ob_format b, ob_coordinate b)) (db_objects db @ map bare new))"
    "db_objects db' = filter (\<lambda>b. \<not> unwanted db' b) (db_objects db @ map bare new)"
    "\<forall>b \<in> set (db_objects db @ map bare new). unwanted db' b \<longrightarrow> ob_sha256 b \<notin> set (map bm_package (db_built db @ db_prior_built db))"
    "\<forall>name. members_of db' name = (case map_of desired name of None \<Rightarrow> members_of db name
        | Some ds \<Rightarrow> if membershipDigestsTx db name False = sort (remdups ds) then members_of db name else sort (remdups ds))"
    "\<forall>(name, ds) \<in> set desired. membershipDigestsTx db name False \<noteq> sort (remdups ds) \<longrightarrow>
        set ds \<subseteq> ob_sha256 ` set (db_objects db @ map bare new)"
    "db_built db' = db_built db" "db_prior_built db' = db_prior_built db" "db_inventory db' = db_inventory db"
    "db_abandoned db' = db_abandoned db" "state_of db' i = Some OperationApplied"
    "mr_changed outcome \<longleftrightarrow> new \<noteq> [] \<or> (\<exists>(name, ds) \<in> set desired. membershipDigestsTx db name False \<noteq> sort (remdups ds))"
    "rs_desired_revision (db_repository db') = mr_revision outcome"
    "mr_revision outcome = (if mr_changed outcome then rs_desired_revision (db_repository db) + 1 else rs_desired_revision (db_repository db))"
    "\<forall>b \<in> set new. \<exists>(name, ds) \<in> set desired. ob_sha256 b \<in> set ds"
proof (rule desired_mutation_Inr[OF tx])
  fix db1 wanted seen new owners db2 n db3 revision
  assume r: "retainRPMSigningKeysTx keys db = Inr db1" and w: "for_each (desired_step db1) [] desired = Inr wanted"
    and ad: "for_each (admit_object db1 (concat (map snd wanted)) (rs_desired_revision (db_repository db1) + 1)) ([], []) objects = Inr (seen, new)"
    and ch: "check_paths db1 new = Inr owners"
    and rev: "revision = (if changed_dists db1 wanted \<noteq> [] \<or> new \<noteq> [] then rs_desired_revision (db_repository db1) + 1 else rs_desired_revision (db_repository db1))"
    and ins: "for_each insertPackageObjectTx db1 new = Inr db2"
    and rep: "for_each (replace_memberships i revision) (0, db2) (changed_dists db1 wanted) = Inr (n, db3)"
    and fin: "finish_mutation now i resultJSON revision (changed_dists db1 wanted \<noteq> [] \<or> new \<noteq> []) (map fst (changed_dists db1 wanted)) db3 = Inr (db', outcome)"
  have rows: "db_objects db1 = db_objects db" "db_inventory db1 = db_inventory db" "db_abandoned db1 = db_abandoned db"
    "db_memberships db1 = db_memberships db" "db_built db1 = db_built db" "db_prior_built db1 = db_prior_built db"
    "rs_desired_revision (db_repository db1) = rs_desired_revision (db_repository db)"
    using retain_object_rows[OF r] by (simp_all add: object_rows_def)
  have fo: "find_object db1 = find_object db" and pc: "path_claims db1 = path_claims db"
    and md: "membershipDigestsTx db1 = membershipDigestsTx db" and mo: "members_of db1 = members_of db"
    by (simp_all add: fun_eq_iff find_object_def path_claims_def membershipDigestsTx_def members_of_def rows)
  have wanted: "wanted = map (\<lambda>(n, ds). (n, sort (remdups ds))) desired" using desired_loop[OF w] by simp
  have dw: "distinct (map fst wanted)" using names by (simp add: wanted comp_def case_prod_beta)
  note A = admit_loop[OF ad, simplified] and C = check_paths_Inr[OF ch]
  have I: "db2 = db1\<lparr>db_objects := db_objects db @ map bare new\<rparr>"
      "distinct (map (\<lambda>b. (ob_format b, ob_coordinate b)) (db_objects db @ map bare new))"
  proof -
    have "distinct (map (\<lambda>b. (ob_format b, ob_coordinate b)) (db_objects db1))" using wf by (simp add: rows object_wf_def)
    note i = insert_objects[OF ins this]
    show "db2 = db1\<lparr>db_objects := db_objects db @ map bare new\<rparr>" using i by (simp only: rows)
    then have "db_objects db2 = db_objects db @ map bare new" by simp
    then show "distinct (map (\<lambda>b. (ob_format b, ob_coordinate b)) (db_objects db @ map bare new))"
      using conjunct2[OF i] by (simp only:)
  qed
  note R = replace_loop[OF rep changed_dists_spec(1)[OF dw]]
  have objs3: "db_objects db3 = db_objects db @ map bare new" using R I by (simp add: fixed_rows_def)
  have sha: "distinct (map ob_sha256 (db_objects db3))"
    using wf A by (auto simp: objs3 object_wf_def admissible_def find_object_def find_None_iff rows fo comp_def image_iff)
  note F = finish_mutation_Inr[OF fin sha]
  have unw: "unwanted db3 = unwanted db'" using F by (simp add: unwanted_def fun_eq_iff)
  have mem: "members_of db2 = members_of db" using I by (simp add: members_of_def fun_eq_iff rows)
  have changes: "changed_dists db1 wanted \<noteq> [] \<longleftrightarrow> (\<exists>(name, ds) \<in> set desired. membershipDigestsTx db name False \<noteq> sort (remdups ds))"
    by (force simp: changed_dists_def filter_empty_conv wanted md)
  show thesis
  proof (rule that[of new])
    show "\<forall>name. members_of db' name = (case map_of desired name of None \<Rightarrow> members_of db name
        | Some ds \<Rightarrow> if membershipDigestsTx db name False = sort (remdups ds) then members_of db name else sort (remdups ds))"
    proof
      fix name
      have "members_of db' name = members_of db3 name" using F by (simp add: members_of_def)
      also have "\<dots> = (case map_of (changed_dists db1 wanted) name of None \<Rightarrow> members_of db name | Some (_, want) \<Rightarrow> want)"
        using R by (auto simp: mem split: option.splits)
      also have "\<dots> = (case map_of desired name of None \<Rightarrow> members_of db name
        | Some ds \<Rightarrow> if membershipDigestsTx db name False = sort (remdups ds) then members_of db name else sort (remdups ds))"
        by (simp add: changed_dists_spec(2)[OF dw] md) (simp add: wanted map_of_wanted md split: option.splits)
      finally show "members_of db' name = (case map_of desired name of None \<Rightarrow> members_of db name
        | Some ds \<Rightarrow> if membershipDigestsTx db name False = sort (remdups ds) then members_of db name else sort (remdups ds))" .
    qed
    show "\<forall>(name, ds) \<in> set desired. membershipDigestsTx db name False \<noteq> sort (remdups ds) \<longrightarrow>
        set ds \<subseteq> ob_sha256 ` set (db_objects db @ map bare new)"
    proof clarify
      fix name ds d
      assume in_desired: "(name, ds) \<in> set desired" "membershipDigestsTx db name False \<noteq> sort (remdups ds)" and "d \<in> set ds"
      have "(name, membershipDigestsTx db name False, sort (remdups ds)) \<in> set (changed_dists db1 wanted)"
        using in_desired by (force simp: changed_dists_def wanted md)
      with R \<open>d \<in> set ds\<close> have "find_object db2 d \<noteq> None" by fastforce
      then show "d \<in> ob_sha256 ` set (db_objects db @ map bare new)"
        unfolding find_object_def find_None_iff I(1) by auto
    qed
    have mc: "mr_changed outcome = (changed_dists db1 wanted \<noteq> [] \<or> new \<noteq> [])" using F by blast
    show "mr_changed outcome \<longleftrightarrow> new \<noteq> [] \<or> (\<exists>(name, ds) \<in> set desired. membershipDigestsTx db name False \<noteq> sort (remdups ds))"
      unfolding mc changes by blast
    have rev3: "rs_desired_revision (db_repository db3) = rs_desired_revision (db_repository db)"
      using R I(1) rows(7) by (simp add: fixed_rows_def)
    show "rs_desired_revision (db_repository db') = mr_revision outcome" using F rev rev3 rows(7) by simp
    show "mr_revision outcome = (if mr_changed outcome then rs_desired_revision (db_repository db) + 1 else rs_desired_revision (db_repository db))"
      unfolding mc using F rev rows(7) by simp
    show "db_objects db' = filter (\<lambda>b. \<not> unwanted db' b) (db_objects db @ map bare new)" using F unw objs3 by simp
    have "db_built db3 = db_built db" "db_prior_built db3 = db_prior_built db" using R I(1) rows by (simp_all add: fixed_rows_def)
    then show "\<forall>b \<in> set (db_objects db @ map bare new). unwanted db' b \<longrightarrow> ob_sha256 b \<notin> set (map bm_package (db_built db @ db_prior_built db))"
      using F unw objs3 by metis
    show "\<forall>b \<in> set new. admissible db objects (rs_desired_revision (db_repository db) + 1) b"
      using A rows by (simp add: admissible_def fo)
    show "\<forall>b \<in> set new. \<exists>(name, ds) \<in> set desired. ob_sha256 b \<in> set ds"
    proof
      fix b assume "b \<in> set new"
      then have "\<exists>x\<in>set wanted. ob_sha256 b \<in> set (snd x)" using A by blast
      then show "\<exists>(name, ds) \<in> set desired. ob_sha256 b \<in> set ds" by (fastforce simp: wanted)
    qed
    show "\<forall>b \<in> set new. \<forall>(p, d) \<in> set (path_claims db). ToLower p = ToLower (ob_pool_path b) \<longrightarrow> p = ob_pool_path b \<and> d = ob_sha256 b"
      using C A unfolding pc by blast
    show "\<forall>b \<in> set new. \<forall>b' \<in> set new. ToLower (ob_pool_path b) = ToLower (ob_pool_path b') \<longrightarrow> b = b'"
      using C A by blast
  qed (use A I(2) F R I(1) rows in \<open>simp_all add: fixed_rows_def\<close>)
qed

subsection \<open>Properties of the mutation\<close>

lemma apply_Inr:
  assumes "ApplyDesiredMutationWithSigningKeys ckpt now i objects signingKeys desired result db = (db', answer)"
  shows "db' = db \<or> (\<exists>keys resultJSON outcome. desired_mutation_tx now i objects keys desired resultJSON db = Inr (db', outcome)
      \<and> list_all (\<lambda>b. validatePackageObject b = Inr ()) objects \<and> answer = (Some outcome, ckpt))"
proof -
  have v: "for_each (\<lambda>_. validatePackageObject) () objects = Inr u \<Longrightarrow> list_all (\<lambda>b. validatePackageObject b = Inr ()) objects" for u objects
    by (induction objects) (auto simp: and_then_Inr_iff)
  show ?thesis
    using assms by (auto simp: ApplyDesiredMutationWithSigningKeys_def Let_def and_then_Inr_iff split: if_splits sum.splits dest: v)
qed

lemma object_wf_members:
  "object_wf db \<Longrightarrow> d \<in> set (members_of db name) \<Longrightarrow> d \<in> ob_sha256 ` set (db_objects db)"
  by (auto simp: object_wf_def members_of_def list_all_iff)

text \<open>The stored members of a dist are sorted and distinct, so two lists of them agree when the sets do.\<close>

lemma members_sorted:
  assumes "object_wf db"
  shows "membershipDigestsTx db name False = sort (remdups ds) \<longleftrightarrow> set (members_of db name) = set ds"
proof
  assume "membershipDigestsTx db name False = sort (remdups ds)"
  from arg_cong[OF this, of set] show "set (members_of db name) = set ds" by (simp add: set_members_of)
next
  assume same: "set (members_of db name) = set ds"
  have "distinct (members_of db name)"
    using assms unfolding object_wf_def members_of_def distinct_map by (auto intro!: inj_onI dest!: inj_onD)
  moreover have "membershipDigestsTx db name False = sort (members_of db name)" by (simp add: membershipDigestsTx_def members_of_def)
  ultimately show "membershipDigestsTx db name False = sort (remdups ds)"
    using same by (intro sorted_distinct_set_unique) simp_all
qed

text \<open>C23. A desired mutation installs exactly the sets it was given: after a successful call the packages of every
  named dist are its desired ones and those of every other dist are as before; the operation is
  applied; the revision moves by one exactly when the set of some named dist differs, which is also
  what the call answers. Of the packages known before exactly those are dropped that are pending and
  that no dist wants any more; a package that is new is one of those given and some dist wants it.\<close>

theorem desired_mutation_exact:
  assumes "object_wf db" and "distinct (map fst desired)"
    and "ApplyDesiredMutationWithSigningKeys (Inr ()) now i objects signingKeys desired result db = (db', Some outcome, Inr ())"
  shows "(\<forall>name. set (members_of db' name) = (case map_of desired name of None \<Rightarrow> set (members_of db name) | Some ds \<Rightarrow> set ds))
    \<and> state_of db' i = Some OperationApplied
    \<and> rs_desired_revision (db_repository db') = rs_desired_revision (db_repository db)
         + (if \<exists>(name, ds) \<in> set desired. set (members_of db name) \<noteq> set ds then 1 else 0)
    \<and> mr_revision outcome = rs_desired_revision (db_repository db')
    \<and> (mr_changed outcome \<longleftrightarrow> (\<exists>(name, ds) \<in> set desired. set (members_of db name) \<noteq> set ds))
    \<and> (\<forall>b \<in> set (db_objects db). b \<in> set (db_objects db') \<longleftrightarrow>
         ob_storage b \<noteq> ''pending'' \<or> (\<exists>name. ob_sha256 b \<in> set (members_of db' name)))
    \<and> (\<forall>b \<in> set (db_objects db') - set (db_objects db).
         ob_sha256 b \<in> ob_sha256 ` set objects \<and> (\<exists>name. ob_sha256 b \<in> set (members_of db' name)))
    \<and> db_built db' = db_built db \<and> db_prior_built db' = db_prior_built db"
proof -
  from assms(3) obtain keys resultJSON where tx: "desired_mutation_tx now i objects keys desired resultJSON db = Inr (db', outcome)"
    by (auto simp: ApplyDesiredMutationWithSigningKeys_def Let_def and_then_Inr_iff split: if_splits sum.splits)
  show ?thesis
  proof (rule desired_mutation_tables[OF tx assms(1,2)])
    fix new
    assume adm: "\<forall>b \<in> set new. admissible db objects (rs_desired_revision (db_repository db) + 1) b"
      and objs: "db_objects db' = filter (\<lambda>b. \<not> unwanted db' b) (db_objects db @ map bare new)"
      and mem: "\<forall>name. members_of db' name = (case map_of desired name of None \<Rightarrow> members_of db name
        | Some ds \<Rightarrow> if membershipDigestsTx db name False = sort (remdups ds) then members_of db name else sort (remdups ds))"
      and rest: "db_built db' = db_built db" "db_prior_built db' = db_prior_built db" "state_of db' i = Some OperationApplied"
        "rs_desired_revision (db_repository db') = mr_revision outcome"
        "mr_revision outcome = (if mr_changed outcome then rs_desired_revision (db_repository db) + 1 else rs_desired_revision (db_repository db))"
      and ch: "mr_changed outcome \<longleftrightarrow> new \<noteq> [] \<or> (\<exists>(name, ds) \<in> set desired. membershipDigestsTx db name False \<noteq> sort (remdups ds))"
      and used: "\<forall>b \<in> set new. \<exists>(name, ds) \<in> set desired. ob_sha256 b \<in> set ds"
    have sets: "set (members_of db' name) = (case map_of desired name of None \<Rightarrow> set (members_of db name) | Some ds \<Rightarrow> set ds)" for name
      using mem members_sorted[OF assms(1)] by (simp split: option.splits)
    have unknown: "ob_sha256 b \<notin> set (members_of db name)" if "b \<in> set new" for b name
    proof
      assume "ob_sha256 b \<in> set (members_of db name)"
      then have "ob_sha256 b \<in> ob_sha256 ` set (db_objects db)" by (rule object_wf_members[OF assms(1)])
      moreover have "find_object db (ob_sha256 b) = None" using adm that by (simp add: admissible_def)
      ultimately show False by (fastforce simp: find_object_def find_None_iff)
    qed
    have differs: "\<exists>(name, ds) \<in> set desired. set (members_of db name) \<noteq> set ds" if "new \<noteq> []"
    proof -
      obtain b where b: "b \<in> set new" using \<open>new \<noteq> []\<close> by (meson hd_in_set)
      then obtain name ds where "(name, ds) \<in> set desired" "ob_sha256 b \<in> set ds" using used by blast
      then show ?thesis using unknown[OF b, of name] by blast
    qed
    have changed: "mr_changed outcome \<longleftrightarrow> (\<exists>(name, ds) \<in> set desired. set (members_of db name) \<noteq> set ds)"
      unfolding ch members_sorted[OF assms(1)] using differs by blast
    have wanted: "x \<in> set (map me_package (db_memberships db')) \<longleftrightarrow> (\<exists>name. x \<in> set (members_of db' name))" for x
      by (auto simp: members_of_def)
    have kept: "b \<in> set (db_objects db') \<longleftrightarrow> ob_storage b \<noteq> ''pending'' \<or> (\<exists>name. ob_sha256 b \<in> set (members_of db' name))"
      if "b \<in> set (db_objects db)" for b
      using that unfolding objs wanted[symmetric] by (auto simp: unwanted_def)
    have "ob_sha256 b \<in> ob_sha256 ` set objects \<and> (\<exists>name. ob_sha256 b \<in> set (members_of db' name))"
      if fresh: "b \<in> set (db_objects db') - set (db_objects db)" for b
    proof -
      obtain b0 where b0: "b0 \<in> set new" "ob_sha256 b = ob_sha256 b0" using fresh unfolding objs by auto
      obtain name ds where ds: "(name, ds) \<in> set desired" "ob_sha256 b0 \<in> set ds" using used b0(1) by blast
      then have "set (members_of db' name) = set ds" using sets[of name] map_of_is_SomeI[OF assms(2) ds(1)] by simp
      moreover obtain o' where "o' \<in> set objects" "ob_sha256 b0 = ob_sha256 o'" using adm b0(1) by (auto simp: admissible_def)
      ultimately show ?thesis using b0(2) ds(2) by force
    qed
    then show ?thesis using sets rest changed kept by simp
  qed
qed

lemma validate_created:
  assumes "0 \<le> r" "validatePackageObject b = Inr ()"
  shows "validatePackageObject (b\<lparr>ob_created_revision := r\<rparr>) = Inr ()"
proof -
  have "\<not> ob_created_revision b < 0"
  proof
    assume "ob_created_revision b < 0"
    with assms(2) show False by (simp add: validatePackageObject_def split: if_splits)
  qed
  with assms(1) have "validatePackageObject (b\<lparr>ob_created_revision := r\<rparr>) = validatePackageObject b"
    by (simp add: validatePackageObject_def rpm_architecture_ok_def deb_architecture_ok_def)
  with assms(2) show ?thesis by simp
qed

lemma distinct_pairs:
  "distinct (map (\<lambda>m. (f m, g m)) ms) \<longleftrightarrow> (\<forall>n. distinct (map g (filter (\<lambda>m. f m = n) ms)))"
proof (induction ms)
  case (Cons m ms)
  have "distinct (map g (filter (\<lambda>m. f m = n) (m # ms))) \<longleftrightarrow>
      distinct (map g (filter (\<lambda>m. f m = n) ms)) \<and> (n = f m \<longrightarrow> (f m, g m) \<notin> set (map (\<lambda>m. (f m, g m)) ms))" for n
    by (force simp: image_iff)
  then show ?case using Cons by auto
qed simp

lemma kept_reference:
  assumes "db_objects db' = filter (\<lambda>b. \<not> unwanted db' b) objs" and "d \<in> ob_sha256 ` set objs"
    and "d \<in> set (map me_package (db_memberships db'))"
  shows "d \<in> ob_sha256 ` set (db_objects db')"
  using assms by (auto simp: unwanted_def)

lemma claims_exclusive:
  assumes wf: "object_wf db"
    and checked: "\<forall>b \<in> set new. \<forall>(p, d) \<in> set (path_claims db). ToLower p = ToLower (ob_pool_path b) \<longrightarrow> p = ob_pool_path b \<and> d = ob_sha256 b"
      "\<forall>b \<in> set new. \<forall>b' \<in> set new. ToLower (ob_pool_path b) = ToLower (ob_pool_path b') \<longrightarrow> b = b'"
    and claims: "e \<in> set (path_claims db) \<or> (\<exists>b \<in> set new. e = (ob_pool_path b, ob_sha256 b))"
      "e' \<in> set (path_claims db) \<or> (\<exists>b \<in> set new. e' = (ob_pool_path b, ob_sha256 b))"
    and lower: "ToLower (fst e) = ToLower (fst e')"
  shows "e = e'"
proof -
  have mixed: "e1 = (ob_pool_path b, ob_sha256 b)"
    if "e1 \<in> set (path_claims db)" "b \<in> set new" "ToLower (fst e1) = ToLower (ob_pool_path b)" for e1 b
    using checked(1) that by (cases e1) auto
  from claims(1) show ?thesis
  proof
    assume old: "e \<in> set (path_claims db)"
    from claims(2) show ?thesis
    proof
      assume "e' \<in> set (path_claims db)"
      then show ?thesis using old lower wf by (auto simp: object_wf_def list_all_iff)
    qed (use mixed[OF old] lower in auto)
  next
    assume "\<exists>b \<in> set new. e = (ob_pool_path b, ob_sha256 b)"
    then obtain b where b: "b \<in> set new" "e = (ob_pool_path b, ob_sha256 b)" by blast
    from claims(2) show ?thesis
    proof
      assume "e' \<in> set (path_claims db)"
      then show ?thesis using mixed[of e' b] b lower by simp
    next
      assume "\<exists>b' \<in> set new. e' = (ob_pool_path b', ob_sha256 b')"
      then show ?thesis using checked(2) b lower by auto
    qed
  qed
qed

lemma desired_mutation_tx_keeps:
  assumes wf: "object_wf db" and names: "distinct (map fst desired)"
    and tx: "desired_mutation_tx now i objects keys desired resultJSON db = Inr (db', outcome)"
    and valid: "list_all (\<lambda>b. validatePackageObject b = Inr ()) objects"
  shows "object_wf db'
    \<and> (\<forall>e \<in> set (path_claims db). \<forall>e' \<in> set (path_claims db'). ToLower (fst e) = ToLower (fst e') \<longrightarrow> e = e')
    \<and> db_inventory db' = db_inventory db \<and> db_abandoned db' = db_abandoned db
    \<and> (\<forall>b \<in> set (db_objects db). ob_storage b \<noteq> ''pending'' \<or> (\<exists>name. ob_sha256 b \<in> set (members_of db' name)) \<longrightarrow> b \<in> set (db_objects db'))"
proof -
  obtain new where n: "distinct (map ob_sha256 new)"
    "\<forall>b \<in> set new. admissible db objects (rs_desired_revision (db_repository db) + 1) b"
    "\<forall>b \<in> set new. \<forall>(p, d) \<in> set (path_claims db). ToLower p = ToLower (ob_pool_path b) \<longrightarrow> p = ob_pool_path b \<and> d = ob_sha256 b"
    "\<forall>b \<in> set new. \<forall>b' \<in> set new. ToLower (ob_pool_path b) = ToLower (ob_pool_path b') \<longrightarrow> b = b'"
    "distinct (map (\<lambda>b. (ob_format b, ob_coordinate b)) (db_objects db @ map bare new))"
    "db_objects db' = filter (\<lambda>b. \<not> unwanted db' b) (db_objects db @ map bare new)"
    "\<forall>b \<in> set (db_objects db @ map bare new). unwanted db' b \<longrightarrow> ob_sha256 b \<notin> set (map bm_package (db_built db @ db_prior_built db))"
    "\<forall>name. members_of db' name = (case map_of desired name of None \<Rightarrow> members_of db name
        | Some ds \<Rightarrow> if membershipDigestsTx db name False = sort (remdups ds) then members_of db name else sort (remdups ds))"
    "\<forall>(name, ds) \<in> set desired. membershipDigestsTx db name False \<noteq> sort (remdups ds) \<longrightarrow>
        set ds \<subseteq> ob_sha256 ` set (db_objects db @ map bare new)"
    "db_built db' = db_built db" "db_prior_built db' = db_prior_built db" "db_inventory db' = db_inventory db"
    "db_abandoned db' = db_abandoned db"
    "rs_desired_revision (db_repository db') = mr_revision outcome"
    "mr_revision outcome = (if mr_changed outcome then rs_desired_revision (db_repository db) + 1 else rs_desired_revision (db_repository db))"
    by (rule desired_mutation_tables[OF tx wf names]) (rule that)
  let ?objs = "db_objects db @ map bare new"
  have shas: "distinct (map ob_sha256 ?objs)"
    using wf n(1,2) by (auto simp: object_wf_def admissible_def find_object_def find_None_iff comp_def image_iff)
  have facts: "validatePackageObject b = Inr ()" if "b \<in> set ?objs" for b
  proof -
    have "validatePackageObject x = Inr ()" if "x \<in> set new" for x
    proof -
      from n(2) that obtain o' where "o' \<in> set objects" "x = o'\<lparr>ob_created_revision := rs_desired_revision (db_repository db) + 1\<rparr>"
        by (auto simp: admissible_def)
      with valid wf show ?thesis by (auto simp: list_all_iff object_wf_def intro: validate_created)
    qed
    with that wf show ?thesis by (auto simp: object_wf_def list_all_iff)
  qed
  have claims: "e \<in> set (path_claims db) \<or> (\<exists>b \<in> set new. e = (ob_pool_path b, ob_sha256 b))" if "e \<in> set (path_claims db')" for e
    using that by (auto simp: path_claims_def n(6,12,13))
  note exclusive = claims_exclusive[OF wf n(3,4)]
  have known: "d \<in> ob_sha256 ` set ?objs" if "d \<in> set (members_of db' name)" for d name
  proof (cases "map_of desired name")
    case None
    then show ?thesis using that n(8) object_wf_members[OF wf, of d name] by auto
  next
    case (Some ds)
    then have "(name, ds) \<in> set desired" by (rule map_of_SomeD)
    then show ?thesis using that n(8,9) Some object_wf_members[OF wf, of d name] by (fastforce split: if_splits)
  qed
  have memb: "me_package m \<in> ob_sha256 ` set (db_objects db')" if m: "m \<in> set (db_memberships db')" for m
  proof (rule kept_reference[OF n(6)])
    show "me_package m \<in> ob_sha256 ` set ?objs" by (rule known[of _ "me_dist m"]) (use m in \<open>auto simp: members_of_def\<close>)
  qed (use m in simp)
  have built: "bm_package m \<in> ob_sha256 ` set (db_objects db')" if m: "m \<in> set (db_built db @ db_prior_built db)" for m
  proof -
    from m wf obtain b where b: "b \<in> set ?objs" "ob_sha256 b = bm_package m"
      unfolding object_wf_def list_all_iff set_map by (metis (no_types, lifting) image_iff set_append UnCI)
    then have "\<not> unwanted db' b" using n(7) m by (metis image_eqI set_map)
    with b show ?thesis using n(6) by force
  qed
  have dist: "distinct (members_of db' name)" for name
    using wf n(8) distinct_pairs[of me_dist me_package "db_memberships db"]
    by (auto simp: object_wf_def members_of_def split: option.splits)
  have "object_wf db'"
    unfolding object_wf_def
  proof (intro conjI)
    show "distinct (map ob_sha256 (db_objects db'))" unfolding n(6) by (rule distinct_map_filter[OF shas])
    show "distinct (map (\<lambda>b. (ob_format b, ob_coordinate b)) (db_objects db'))" unfolding n(6) by (rule distinct_map_filter[OF n(5)])
    show "list_all (\<lambda>b. validatePackageObject b = Inr ()) (db_objects db')" using facts by (auto simp: n(6) list_all_iff)
    show "list_all (\<lambda>e. list_all (\<lambda>e'. ToLower (fst e) = ToLower (fst e') \<longrightarrow> e = e') (path_claims db')) (path_claims db')"
      using exclusive claims by (simp add: list_all_iff)
    show "list_all (\<lambda>m. me_package m \<in> set (map ob_sha256 (db_objects db'))) (db_memberships db')" using memb by (simp add: list_all_iff)
    show "list_all (\<lambda>m. bm_package m \<in> set (map ob_sha256 (db_objects db'))) (db_built db' @ db_prior_built db')"
      using built unfolding n(10,11) list_all_iff set_map by blast
    show "distinct (map (\<lambda>m. (me_dist m, me_package m)) (db_memberships db'))"
      using dist by (simp add: distinct_pairs members_of_def)
    show "0 \<le> rs_desired_revision (db_repository db')" using n(14,15) wf by (simp add: object_wf_def)
  qed
  moreover have "e = e'" if "e \<in> set (path_claims db)" "e' \<in> set (path_claims db')" "ToLower (fst e) = ToLower (fst e')" for e e'
    using exclusive[OF _ claims[OF that(2)] that(3)] that(1) by blast
  moreover have "b \<in> set (db_objects db')"
    if "b \<in> set (db_objects db)" "ob_storage b \<noteq> ''pending'' \<or> (\<exists>name. ob_sha256 b \<in> set (members_of db' name))" for b
    using that by (auto simp: n(6) unwanted_def members_of_def)
  ultimately show ?thesis using n(12,13) by blast
qed

text \<open>C22. The package tables stay consistent under every desired mutation, whatever its input and outcome:
  digests and coordinates stay unique, facts stay valid and every membership names a known package. A
  mutation never binds a pool path, in any spelling, to other bytes than the ones it stood for when it
  began, and it gives up no claim but those of the pending packages it drops: what was published or
  uploaded for a publication, what is in the pool and what a dist wants keeps its paths.\<close>

theorem desired_mutation_keeps_objects:
  assumes wf: "object_wf db" and names: "distinct (map fst desired)"
    and run: "ApplyDesiredMutationWithSigningKeys ckpt now i objects signingKeys desired result db = (db', answer)"
  shows "object_wf db'
    \<and> (\<forall>e \<in> set (path_claims db). \<forall>e' \<in> set (path_claims db'). ToLower (fst e) = ToLower (fst e') \<longrightarrow> e = e')
    \<and> db_inventory db' = db_inventory db \<and> db_abandoned db' = db_abandoned db
    \<and> (\<forall>b \<in> set (db_objects db). ob_storage b \<noteq> ''pending'' \<or> (\<exists>name. ob_sha256 b \<in> set (members_of db' name)) \<longrightarrow> b \<in> set (db_objects db'))"
proof (cases "db' = db")
  case False
  with apply_Inr[OF run] obtain keys resultJSON outcome where
    "desired_mutation_tx now i objects keys desired resultJSON db = Inr (db', outcome)"
    "list_all (\<lambda>b. validatePackageObject b = Inr ()) objects" by blast
  then show ?thesis by (rule desired_mutation_tx_keeps[OF wf names])
next
  case True
  have "e = e'" if "e \<in> set (path_claims db)" "e' \<in> set (path_claims db)" "ToLower (fst e) = ToLower (fst e')" for e e'
    using wf that by (auto simp: object_wf_def list_all_iff)
  then show ?thesis using True wf by blast
qed

subsection \<open>Adding one package\<close>

definition example_object :: PackageObject where
  "example_object = \<lparr>ob_sha256 = replicate 64 CHR ''a'', ob_format = ''deb'', ob_coordinate = ''foo_1_amd64'',
     ob_architecture = ''amd64'', ob_canonical_arch = ''x86_64'', ob_pool_path = ''pool/f/foo/foo_1_amd64.deb'',
     ob_filename = ''foo_1_amd64.deb'', ob_size = 7, ob_name = ''foo'', ob_source = ''foo'', ob_version = ''1'',
     ob_epoch = '''', ob_release = '''', ob_kind = ''main'', ob_payload_sha256 = '''', ob_signature_key = '''',
     ob_warning = '''', ob_storage = ''pending'', ob_created_revision = 0, ob_dists = [], ob_built_dists = []\<rparr>"

definition add_ready :: database where
  "add_ready = example_database\<lparr>
     db_operations := [\<lparr>op_id = ''20'', op_kind = ''add'', op_state = OperationStaged, op_payload = ''{}'',
       op_result = ''{}'', op_error_class = None, op_error_message = None,
       op_created_at = example_now, op_updated_at = example_now\<rparr>],
     db_dists := [\<lparr>di_name = ''noble'', di_format = ''deb'', di_effective_config = ''c1'', di_built_config = ''c1'',
        di_built_generation = 0, di_desired_revision = 0, di_signing = ''{}''\<rparr>]\<rparr>"

definition add_desired :: "(string \<times> string list) list" where
  "add_desired = [(''noble'', [replicate 64 CHR ''a''])]"

lemma add_ready_wf: "object_wf add_ready"
  by code_simp

lemma add_accepted:
  "case ApplyDesiredMutationWithSigningKeys (Inr ()) example_now ''20'' [example_object] [] add_desired '''' add_ready of
     (_, Some _, Inr _) \<Rightarrow> True | _ \<Rightarrow> False"
  by code_simp

theorem desired_mutation_exact_witness:
  "\<exists>db' outcome. ApplyDesiredMutationWithSigningKeys (Inr ()) example_now ''20'' [example_object] [] add_desired '''' add_ready
     = (db', Some outcome, Inr ())
   \<and> set (members_of db' ''noble'') = {replicate 64 CHR ''a''} \<and> state_of db' ''20'' = Some OperationApplied"
proof -
  from add_accepted obtain db' outcome where r:
    "ApplyDesiredMutationWithSigningKeys (Inr ()) example_now ''20'' [example_object] [] add_desired '''' add_ready = (db', Some outcome, Inr ())"
    by (auto split: prod.splits option.splits sum.splits)
  have "distinct (map fst add_desired)" by (simp add: add_desired_def)
  from desired_mutation_exact[OF add_ready_wf this r] have
    "set (members_of db' ''noble'') = (case map_of add_desired ''noble'' of None \<Rightarrow> set (members_of add_ready ''noble'') | Some ds \<Rightarrow> set ds)"
    "state_of db' ''20'' = Some OperationApplied" by blast+
  with r show ?thesis by (simp add: add_desired_def)
qed

theorem desired_mutation_keeps_objects_witness:
  "\<exists>db' outcome. ApplyDesiredMutationWithSigningKeys (Inr ()) example_now ''20'' [example_object] [] add_desired '''' add_ready
     = (db', Some outcome, Inr ()) \<and> object_wf db' \<and> set (members_of db' ''noble'') = {replicate 64 CHR ''a''}"
proof -
  from add_accepted obtain db' outcome where r:
    "ApplyDesiredMutationWithSigningKeys (Inr ()) example_now ''20'' [example_object] [] add_desired '''' add_ready = (db', Some outcome, Inr ())"
    by (auto split: prod.splits option.splits sum.splits)
  have names: "distinct (map fst add_desired)" by (simp add: add_desired_def)
  have "set (members_of (fst (ApplyDesiredMutationWithSigningKeys (Inr ()) example_now ''20'' [example_object] [] add_desired '''' add_ready)) ''noble'')
      = {replicate 64 CHR ''a''}"
    by code_simp
  then show ?thesis using desired_mutation_keeps_objects[OF add_ready_wf names r] r by auto
qed

end
