(* ===== verification/Rpm_Version.thy ===== *)
theory Rpm_Version
  imports Go_Strings "HOL-Library.Product_Lexorder"
begin

section \<open>RPM version order (\<open>third_party/cavaliergopher-rpm/version.go\<close>, \<open>yumrepo/rpm.go\<close>)\<close>

text \<open>
  The comparison of RPM versions walks the alphanumeric segments of two strings side by side. The
  abstract order it implements is stated here as well: a version is the sequence of its parts,
  closed by an end marker, and versions are ordered lexicographically, where a tilde sorts before
  the end, the end before letters, letters before numbers and numbers by value. The refinement
  lemma says that the walk computes exactly that order, so it is total and transitive.
\<close>

subsection \<open>The code\<close>

text \<open>
  \<open>alphanumPattern.FindAllString\<close>: maximal runs of letters, maximal runs of digits and single
  tildes, from left to right; every other byte separates.
\<close>

function version_segments :: "string \<Rightarrow> string list" where
  "version_segments [] = []"
| "version_segments (c # cs) =
     (if is_letter c then (c # takeWhile is_letter cs) # version_segments (dropWhile is_letter cs)
      else if is_digit c then (c # takeWhile is_digit cs) # version_segments (dropWhile is_digit cs)
      else if c = CHR ''~'' then [c] # version_segments cs
      else version_segments cs)"
  by pat_completeness auto
termination
  by (relation "measure length") (auto simp: le_imp_less_Suc length_dropWhile_le)

definition compare_text :: "string \<Rightarrow> string \<Rightarrow> int" where
  "compare_text a b = (if a < b then -1 else if b < a then 1 else 0)"

text \<open>One round of the loop; zero goes on with the next pair of segments.\<close>

definition compare_segment :: "string \<Rightarrow> string \<Rightarrow> int" where
  "compare_segment a b =
     (if (hd a = CHR ''~'' \<or> hd b = CHR ''~'') \<and> hd a \<noteq> CHR ''~'' then 1
      else if (hd a = CHR ''~'' \<or> hd b = CHR ''~'') \<and> hd b \<noteq> CHR ''~'' then -1
      else if is_digit (hd a) then
        (if \<not> is_digit (hd b) then 1
         else let a' = TrimLeft a (CHR ''0''); b' = TrimLeft b (CHR ''0'')
              in if length b' < length a' then 1
                 else if length a' < length b' then -1
                 else compare_text a' b')
      else if is_digit (hd b) then -1
      else compare_text a b)"

fun compare_loop :: "(string \<times> string) list \<Rightarrow> int" where
  "compare_loop [] = 0"
| "compare_loop ((a, b) # rest) =
     (let rc = compare_segment a b in if rc \<noteq> 0 then rc else compare_loop rest)"

definition CompareVersions :: "string \<Rightarrow> string \<Rightarrow> int" where
  "CompareVersions a b =
     (if a = b then 0
      else let segsa = version_segments a; segsb = version_segments b;
               segs = min (length segsa) (length segsb);
               rc = compare_loop (zip segsa segsb)
           in if rc \<noteq> 0 then rc
              else if length segsa = length segsb then 0
              else if segs < length segsa \<and> hd (segsa ! segs) = CHR ''~'' then -1
              else if segs < length segsb \<and> hd (segsb ! segs) = CHR ''~'' then 1
              else if length segsb < length segsa then 1
              else -1)"

text \<open>The interface \<open>Version\<close> as its three accessors; a nil interface value is \<^const>\<open>None\<close>.\<close>

record rpm_version =
  rv_epoch :: int
  rv_version :: string
  rv_release :: string

definition Compare :: "rpm_version option \<Rightarrow> rpm_version option \<Rightarrow> int" where
  "Compare a b =
     (case (a, b) of
        (None, None) \<Rightarrow> 0
      | (None, Some _) \<Rightarrow> -1
      | (Some _, None) \<Rightarrow> 1
      | (Some a, Some b) \<Rightarrow>
          (if rv_epoch a \<noteq> rv_epoch b then (if rv_epoch b < rv_epoch a then 1 else -1)
           else let rc = CompareVersions (rv_version a) (rv_version b)
                in if rc \<noteq> 0 then rc else CompareVersions (rv_release a) (rv_release b)))"

definition CompareEVR :: "int \<Rightarrow> string \<Rightarrow> string \<Rightarrow> int \<Rightarrow> string \<Rightarrow> string \<Rightarrow> int" where
  "CompareEVR leftEpoch leftVersion leftRelease rightEpoch rightVersion rightRelease =
     (if leftEpoch < rightEpoch then -1
      else if rightEpoch < leftEpoch then 1
      else let compared = CompareVersions leftVersion rightVersion
           in if compared \<noteq> 0 then compared else CompareVersions leftRelease rightRelease)"

subsection \<open>The abstract order\<close>

datatype version_part = Tilde | End | Alpha string | Number nat

text \<open>The rank of a part: its class, then its value, then its text.\<close>

fun part_rank :: "version_part \<Rightarrow> nat \<times> nat \<times> string" where
  "part_rank Tilde = (0, 0, [])"
| "part_rank End = (1, 0, [])"
| "part_rank (Alpha s) = (2, 0, s)"
| "part_rank (Number n) = (3, n, [])"

lemma part_rank_inj: "part_rank p = part_rank q \<Longrightarrow> p = q"
  by (cases p; cases q) auto

instantiation version_part :: linorder
begin

definition less_eq_version_part :: "version_part \<Rightarrow> version_part \<Rightarrow> bool" where
  "less_eq_version_part p q \<longleftrightarrow> part_rank p \<le> part_rank q"

definition less_version_part :: "version_part \<Rightarrow> version_part \<Rightarrow> bool" where
  "less_version_part p q \<longleftrightarrow> part_rank p < part_rank q"

instance
  by standard
    (auto simp: less_eq_version_part_def less_version_part_def intro: part_rank_inj)

end

definition segment_part :: "string \<Rightarrow> version_part" where
  "segment_part s =
     (if hd s = CHR ''~'' then Tilde
      else if is_digit (hd s) then Number (dec_value s) else Alpha s)"

definition version_parts :: "string \<Rightarrow> version_part list" where
  "version_parts v = map segment_part (version_segments v) @ [End]"

definition order_sign :: "'a::linorder \<Rightarrow> 'a \<Rightarrow> int" where
  "order_sign x y = (if x < y then -1 else if x = y then 0 else 1)"

text \<open>What a comparison function promises: the sign is antisymmetric and the order transitive.\<close>

locale comparison =
  fixes compare :: "'a \<Rightarrow> 'a \<Rightarrow> int"
  assumes compare_flip: "sgn (compare y x) = - sgn (compare x y)"
    and compare_trans: "compare x y \<le> 0 \<Longrightarrow> compare y z \<le> 0 \<Longrightarrow> compare x z \<le> 0"
begin

lemma compare_refl: "compare x x = 0"
  using compare_flip[of x x] by (simp add: sgn_if split: if_splits)

lemma compare_pos_iff: "0 < compare x y \<longleftrightarrow> compare y x < 0"
  using compare_flip[of x y] by (auto simp: sgn_if split: if_splits)

lemma compare_zero_iff: "compare x y = 0 \<longleftrightarrow> compare y x = 0"
  using compare_flip[of x y] by (auto simp: sgn_if split: if_splits)

lemma compare_less_trans:
  assumes "compare x y < 0" "compare y z \<le> 0"
  shows "compare x z < 0"
proof (rule ccontr)
  assume "\<not> compare x z < 0"
  then have "compare z x \<le> 0" using compare_pos_iff[of x z] compare_zero_iff[of x z] by linarith
  with assms(2) have "compare y x \<le> 0" by (rule compare_trans)
  with assms(1) show False using compare_pos_iff[of y x] by linarith
qed

lemma compare_less_trans2:
  assumes "compare x y \<le> 0" "compare y z < 0"
  shows "compare x z < 0"
proof (rule ccontr)
  assume "\<not> compare x z < 0"
  then have "compare z x \<le> 0" using compare_pos_iff[of x z] compare_zero_iff[of x z] by linarith
  then have "compare z y \<le> 0" using assms(1) by (rule compare_trans)
  with assms(2) show False using compare_pos_iff[of z y] by linarith
qed

end

lemma comparison_order_sign:
  fixes key :: "'a \<Rightarrow> 'b::linorder"
  assumes "\<And>x y. compare x y = order_sign (key x) (key y)"
  shows "comparison compare"
  by unfold_locales (auto simp: assms order_sign_def sgn_if split: if_splits)

subsection \<open>Segments\<close>

lemma version_segments_shape:
  "s \<in> set (version_segments v) \<Longrightarrow>
     s \<noteq> [] \<and> (list_all is_letter s \<or> all_digits s \<or> s = ''~'')"
  by (induction v rule: version_segments.induct)
    (auto simp: list_all_iff dest: set_takeWhileD split: if_splits)

lemma letter_not_digit: "is_letter c \<Longrightarrow> \<not> is_digit c \<and> c \<noteq> CHR ''~''"
  by (auto simp: is_letter_def is_upper_bounds is_lower_bounds is_digit_bounds)

lemma digit_not_tilde: "is_digit c \<Longrightarrow> c \<noteq> CHR ''~''"
  by (auto simp: is_digit_bounds)

text \<open>Stripping leading zeros keeps the value; the rest orders by length, then by bytes.\<close>

lemma dec_value_TrimLeft: "dec_value (TrimLeft s (CHR ''0'')) = dec_value s"
  by (induction s) (auto simp: TrimLeft_def dec_value_Cons)

lemma digits_TrimLeft: "all_digits s \<Longrightarrow> all_digits (TrimLeft s c)"
  by (auto simp: TrimLeft_def list_all_iff dest: set_dropWhileD)

lemma TrimLeft_leading: "TrimLeft s c = d # t \<Longrightarrow> d \<noteq> c"
  by (auto simp: TrimLeft_def dropWhile_eq_Cons_conv)

lemma dec_value_lower:
  assumes "all_digits (d # t)" "d \<noteq> CHR ''0''"
  shows "10 ^ length t \<le> dec_value (d # t)"
proof -
  have "digit_val d \<noteq> 0"
    using assms digit_val_inj[of d "CHR ''0''"] by (auto simp: is_digit_def)
  then have "1 * 10 ^ length t \<le> digit_val d * 10 ^ length t" by (intro mult_le_mono1) simp
  then show ?thesis unfolding dec_value_Cons by linarith
qed

lemma longer_is_larger:
  assumes "all_digits s" "all_digits t"
    and "length (TrimLeft s (CHR ''0'')) < length (TrimLeft t (CHR ''0''))"
  shows "dec_value s < dec_value t"
proof -
  let ?s = "TrimLeft s (CHR ''0'')"
  obtain d r where t: "TrimLeft t (CHR ''0'') = d # r"
    using assms(3) by (cases "TrimLeft t (CHR ''0'')") auto
  have "all_digits (d # r)" "d \<noteq> CHR ''0''"
    using digits_TrimLeft[OF assms(2), of "CHR ''0''"] TrimLeft_leading[OF t] t by simp_all
  then have "10 ^ length r \<le> dec_value t"
    using dec_value_lower[of d r] dec_value_TrimLeft[of t] t by simp
  moreover have "dec_value s < 10 ^ length ?s"
    using dec_value_less[OF digits_TrimLeft[OF assms(1)]] dec_value_TrimLeft[of s] by metis
  moreover have "(10::nat) ^ length ?s \<le> 10 ^ length r"
    using assms(3) t by (intro power_increasing) simp_all
  ultimately show ?thesis by linarith
qed

lemma compare_numbers:
  assumes "all_digits a" "all_digits b"
  shows "(let a' = TrimLeft a (CHR ''0''); b' = TrimLeft b (CHR ''0'')
          in if length b' < length a' then 1 else if length a' < length b' then -1
             else compare_text a' b') = order_sign (dec_value a) (dec_value b)"
proof -
  let ?a = "TrimLeft a (CHR ''0'')" and ?b = "TrimLeft b (CHR ''0'')"
  consider "length ?b < length ?a" | "length ?a < length ?b" | "length ?a = length ?b" by linarith
  then show ?thesis
  proof cases
    case 3
    have dig: "all_digits ?a" "all_digits ?b" using assms by (simp_all add: digits_TrimLeft)
    have "?a < ?b \<longleftrightarrow> dec_value a < dec_value b" "?b < ?a \<longleftrightarrow> dec_value b < dec_value a"
      using dec_value_less_iff[OF 3 dig] dec_value_less_iff[OF 3[symmetric] dig(2,1)]
      by (simp_all add: dec_value_TrimLeft)
    with 3 show ?thesis by (auto simp: compare_text_def order_sign_def Let_def)
  qed (use longer_is_larger[of a b] longer_is_larger[of b a] assms in \<open>auto simp: order_sign_def Let_def\<close>)
qed

lemma segment_cases:
  assumes "s \<in> set (version_segments v)"
  obtains (letters) "\<not> is_digit (hd s)" "hd s \<noteq> CHR ''~''" "segment_part s = Alpha s"
  | (digits) "is_digit (hd s)" "hd s \<noteq> CHR ''~''" "all_digits s" "segment_part s = Number (dec_value s)"
  | (tilde) "s = ''~''" "segment_part s = Tilde"
proof -
  from version_segments_shape[OF assms] obtain c t where s: "s = c # t"
    and shape: "list_all is_letter s \<or> all_digits s \<or> s = ''~''"
    by (cases s) auto
  from shape consider "is_letter c" | "all_digits s" "is_digit c" | "s = ''~''"
    unfolding s by auto
  then show thesis
    by cases (use s letter_not_digit[of c] digit_not_tilde[of c] that in
      \<open>auto simp: segment_part_def\<close>)
qed

lemma part_order [simp]:
  "Tilde < Alpha s" "Tilde < Number n" "Tilde < End" "End < Alpha s" "End < Number n" "Alpha s < Number n"
  "\<not> Alpha s < Tilde" "\<not> Number n < Tilde" "\<not> End < Tilde" "\<not> Alpha s < End" "\<not> Number n < End"
  "\<not> Number n < Alpha s" "Alpha s < Alpha t \<longleftrightarrow> s < t" "Number m < Number n \<longleftrightarrow> m < n"
  by (simp_all add: less_version_part_def)

lemma compare_segment_sign:
  assumes "a \<in> set (version_segments v)" "b \<in> set (version_segments w)"
  shows "compare_segment a b = order_sign (segment_part a) (segment_part b)"
  using assms(1)
proof (cases rule: segment_cases)
  case letters
  from assms(2) show ?thesis
    by (cases rule: segment_cases)
      (use letters in \<open>auto simp: compare_segment_def compare_text_def order_sign_def\<close>)
next
  case a: digits
  from assms(2) show ?thesis
  proof (cases rule: segment_cases)
    case b: digits
    with a compare_numbers[of a b] show ?thesis by (simp add: compare_segment_def order_sign_def)
  qed (use a in \<open>auto simp: compare_segment_def compare_text_def order_sign_def\<close>)
next
  case tilde
  from assms(2) show ?thesis
    by (cases rule: segment_cases)
      (use tilde in \<open>auto simp: compare_segment_def compare_text_def order_sign_def is_digit_def\<close>)
qed

lemma order_sign_Cons:
  "order_sign (x # xs) (y # ys) = (let rc = order_sign x y in if rc \<noteq> 0 then rc else order_sign xs ys)"
  by (auto simp: order_sign_def)

text \<open>The loop and the treatment of the longer version together order the lists of parts.\<close>

lemma compare_loop_sign:
  assumes "set as \<subseteq> set (version_segments v)" "set bs \<subseteq> set (version_segments w)"
  defines "rc \<equiv> compare_loop (zip as bs)" and "segs \<equiv> min (length as) (length bs)"
  shows "(if rc \<noteq> 0 then rc
          else if length as = length bs then 0
          else if segs < length as \<and> hd (as ! segs) = CHR ''~'' then -1
          else if segs < length bs \<and> hd (bs ! segs) = CHR ''~'' then 1
          else if length bs < length as then 1 else -1)
       = order_sign (map segment_part as @ [End]) (map segment_part bs @ [End])"
  using assms(1,2) unfolding rc_def segs_def
proof (induction as bs rule: list_induct2')
  case (2 a as)
  then have "a \<in> set (version_segments v)" by simp
  then show ?case by (cases rule: segment_cases) (auto simp: order_sign_def)
next
  case (3 b bs)
  then have "b \<in> set (version_segments w)" by simp
  then show ?case by (cases rule: segment_cases) (auto simp: order_sign_def)
next
  case (4 a as b bs)
  then have sign: "compare_segment a b = order_sign (segment_part a) (segment_part b)"
    by (intro compare_segment_sign) auto
  show ?case
  proof (cases "compare_segment a b = 0")
    case True
    with sign 4 show ?thesis by (simp add: order_sign_Cons cong: if_cong split del: if_split)
  qed (use sign in \<open>simp add: order_sign_Cons\<close>)
qed (simp add: order_sign_def)

lemma CompareVersions_sign:
  "CompareVersions a b = order_sign (version_parts a) (version_parts b)"
proof (cases "a = b")
  case False
  then show ?thesis
    using compare_loop_sign[OF order_refl order_refl, of a b]
    by (simp add: CompareVersions_def version_parts_def Let_def)
qed (simp add: CompareVersions_def order_sign_def)

text \<open>The order of whole versions: epoch, then version, then release.\<close>

definition evr_key :: "int \<times> string \<times> string \<Rightarrow> int \<times> version_part list \<times> version_part list" where
  "evr_key = (\<lambda>(e, v, r). (e, version_parts v, version_parts r))"

definition compare_evr :: "int \<times> string \<times> string \<Rightarrow> int \<times> string \<times> string \<Rightarrow> int" where
  "compare_evr = (\<lambda>(e, v, r) (e', v', r'). CompareEVR e v r e' v' r')"

lemma compare_evr_sign: "compare_evr x y = order_sign (evr_key x) (evr_key y)"
  by (cases x; cases y)
    (auto simp: compare_evr_def CompareEVR_def evr_key_def CompareVersions_sign order_sign_def Let_def)

interpretation evr: comparison compare_evr
  by (rule comparison_order_sign) (rule compare_evr_sign)

subsection \<open>Properties\<close>

text \<open>C26. RPM versions are ordered by the abstract order: epochs as numbers, then the parts of the
  version and then of the release lexicographically, where a tilde comes before the end of the
  text, the end before letters, letters before numbers, and numbers compare by value whatever
  their leading zeros; \<open>CompareEVR\<close> returns the sign of exactly that order, and zero exactly for
  equal parts.\<close>

theorem compare_evr_exact:
  "CompareEVR e v r e' v' r' =
     (if (e, version_parts v, version_parts r) < (e', version_parts v', version_parts r') then -1
      else if (e, version_parts v, version_parts r) = (e', version_parts v', version_parts r') then 0
      else 1)"
  using compare_evr_sign[of "(e, v, r)" "(e', v', r')"]
  by (simp add: compare_evr_def evr_key_def order_sign_def)

lemma Compare_eq:
  "Compare (Some a) (Some b) =
     CompareEVR (rv_epoch a) (rv_version a) (rv_release a) (rv_epoch b) (rv_version b) (rv_release b)"
  by (auto simp: Compare_def CompareEVR_def Let_def)

end
