(* ===== verification/Policy.thy ===== *)
theory Policy
  imports Rpm_Version Store
begin

section \<open>Package policy (\<open>internal/v2/managed/policy.go\<close>)\<close>

text \<open>
  A dist keeps, of all candidate packages, those of its format and architectures that no exclude
  rule matches, and of each name and architecture only the newest \<open>limit\<close> versions. Debian versions
  are parsed and compared by a package outside the repository, a parameter of the model: a parser
  and a comparison. Go visits the five fields of a rule in any order; the order is a parameter too.
\<close>

record ExcludeRule =
  er_name :: "string list"
  er_source :: "string list"
  er_arch :: "string list"
  er_kind :: "string list"
  er_format :: "string list"

record EffectiveDist =
  ed_format :: string
  ed_architectures :: "string list"
  ed_limit :: int
  ed_exclude :: "ExcludeRule list"

record PolicyResult =
  pr_kept :: "PackageObject list"
  pr_excluded :: "PackageObject list"
  pr_limited :: "PackageObject list"

datatype policy_field = FieldName | FieldSource | FieldArch | FieldKind | FieldFormat

abbreviation policy_fields :: "policy_field list" where
  "policy_fields \<equiv> [FieldName, FieldSource, FieldArch, FieldKind, FieldFormat]"

subsection \<open>Classification and order\<close>

definition ClassifyPackageKind :: "string \<Rightarrow> string \<Rightarrow> string" where
  "ClassifyPackageKind format name =
     (if format = ''rpm'' then
        (if HasSuffix name ''-debugsource'' then ''debugsource''
         else if HasSuffix name ''-debuginfo'' then ''debuginfo''
         else if HasSuffix name ''-llvmjit'' then ''llvmjit''
         else ''main'')
      else if format = ''deb'' then
        (if HasSuffix name ''-dbgsym'' then ''dbgsym''
         else if HasSuffix name ''-dbg'' then ''dbg''
         else ''main'')
      else ''main'')"

text \<open>\<open>sort.SliceStable\<close> with the lexicographic comparator is a stable sort by this key.\<close>

definition policy_key :: "PackageObject \<Rightarrow> string \<times> string \<times> string \<times> string \<times> string" where
  "policy_key b = (ob_format b, ob_name b, ob_canonical_arch b, ob_coordinate b, ob_sha256 b)"

definition sortPolicyObjects :: "PackageObject list \<Rightarrow> PackageObject list" where
  "sortPolicyObjects objects = sort_key policy_key objects"

definition samePolicyObject :: "PackageObject \<Rightarrow> PackageObject \<Rightarrow> bool" where
  "samePolicyObject left right \<longleftrightarrow>
     ob_format left = ob_format right \<and> ob_name left = ob_name right \<and> ob_source left = ob_source right
     \<and> ob_version left = ob_version right \<and> ob_epoch left = ob_epoch right
     \<and> ob_release left = ob_release right \<and> ob_architecture left = ob_architecture right
     \<and> ob_canonical_arch left = ob_canonical_arch right \<and> ob_coordinate left = ob_coordinate right"

text \<open>\<open>aptrepo.CompareVersions\<close> over the external parser and comparison.\<close>

definition apt_CompareVersions ::
    "(string \<Rightarrow> go_error + 'v) \<Rightarrow> ('v \<Rightarrow> 'v \<Rightarrow> int) \<Rightarrow> string \<Rightarrow> string \<Rightarrow> int result" where
  "apt_CompareVersions parse compare left right =
     and_then (parse left) (\<lambda>leftVersion.
     and_then (parse right) (\<lambda>rightVersion.
       Inr (compare leftVersion rightVersion)))"

definition parse_epoch :: "string \<Rightarrow> int result" where
  "parse_epoch s =
     (case ParseInt s 64 of
        Inl _ \<Rightarrow> Inl (plain_error ''managed: invalid RPM epoch'')
      | Inr n \<Rightarrow> if n < 0 then Inl (plain_error ''managed: invalid RPM epoch'') else Inr n)"

definition comparePolicyVersion ::
    "(string \<Rightarrow> go_error + 'v) \<Rightarrow> ('v \<Rightarrow> 'v \<Rightarrow> int) \<Rightarrow> PackageObject \<Rightarrow> PackageObject \<Rightarrow> int result" where
  "comparePolicyVersion parse compare left right =
     (if ob_format left \<noteq> ob_format right then Inr (compare_text (ob_format left) (ob_format right))
      else if ob_format left = ''rpm'' then
        and_then (parse_epoch (ob_epoch left)) (\<lambda>leftEpoch.
        and_then (parse_epoch (ob_epoch right)) (\<lambda>rightEpoch.
          Inr (CompareEVR leftEpoch (ob_version left) (ob_release left)
                 rightEpoch (ob_version right) (ob_release right))))
      else if ob_format left = ''deb'' then
        apt_CompareVersions parse compare (ob_version left) (ob_version right)
      else Inl (plain_error ''managed: unsupported package format''))"

subsection \<open>Exclude rules\<close>

fun rule_patterns :: "ExcludeRule \<Rightarrow> policy_field \<Rightarrow> string list" where
  "rule_patterns rule FieldName = er_name rule"
| "rule_patterns rule FieldSource = er_source rule"
| "rule_patterns rule FieldArch = er_arch rule"
| "rule_patterns rule FieldKind = er_kind rule"
| "rule_patterns rule FieldFormat = er_format rule"

fun field_value :: "PackageObject \<Rightarrow> policy_field \<Rightarrow> string" where
  "field_value b FieldName = ob_name b"
| "field_value b FieldSource = ob_source b"
| "field_value b FieldArch = ob_canonical_arch b"
| "field_value b FieldKind = ob_kind b"
| "field_value b FieldFormat = ob_format b"

definition field_matches :: "string list \<Rightarrow> string \<Rightarrow> bool result" where
  "field_matches patterns value =
     for_each (\<lambda>matches pattern.
       (case path_Match pattern value of
          Inl _ \<Rightarrow> Inl (plain_error ''managed: exclude rule has a bad pattern'')
        | Inr matched \<Rightarrow> Inr (matches \<or> matched))) False patterns"

text \<open>The loop over the fields of one rule, with its \<open>continue\<close> and its \<open>break\<close>.\<close>

fun rule_matches :: "PackageObject \<Rightarrow> ExcludeRule \<Rightarrow> policy_field list \<Rightarrow> bool result" where
  "rule_matches b rule [] = Inr True"
| "rule_matches b rule (fd # rest) =
     (if rule_patterns rule fd = [] then rule_matches b rule rest
      else and_then (field_matches (rule_patterns rule fd) (field_value b fd)) (\<lambda>matches.
             if \<not> matches then Inr False else rule_matches b rule rest))"

text \<open>The visit gives the order of the fields for each rule by its index.\<close>

fun excluded_from :: "(nat \<Rightarrow> policy_field list) \<Rightarrow> PackageObject \<Rightarrow> nat \<Rightarrow> ExcludeRule list \<Rightarrow> bool result" where
  "excluded_from visit b index [] = Inr False"
| "excluded_from visit b index (rule # rules) =
     and_then (rule_matches b rule (visit index)) (\<lambda>matches.
       if matches then Inr True else excluded_from visit b (Suc index) rules)"

definition excludedByPolicy :: "(nat \<Rightarrow> policy_field list) \<Rightarrow> PackageObject \<Rightarrow> ExcludeRule list \<Rightarrow> bool result" where
  "excludedByPolicy visit b rules = excluded_from visit b 0 rules"

subsection \<open>The policy\<close>

definition admissible_object :: "EffectiveDist \<Rightarrow> PackageObject \<Rightarrow> bool" where
  "admissible_object dist b \<longleftrightarrow>
     ob_format b = ed_format dist
     \<and> (ob_canonical_arch b = ''neutral'' \<or> ob_canonical_arch b \<in> set (ed_architectures dist))"

definition collect_object :: "EffectiveDist \<Rightarrow> PackageObject list \<Rightarrow> PackageObject \<Rightarrow> PackageObject list result" where
  "collect_object dist unique b =
     (if \<not> admissible_object dist b then Inr unique
      else case List.find (\<lambda>p. ob_sha256 p = ob_sha256 b) unique of
             Some previous \<Rightarrow>
               if samePolicyObject previous b then Inr unique
               else Inl (plain_error ''managed: sha256 has conflicting policy facts'')
           | None \<Rightarrow> Inr (unique @ [b\<lparr>ob_kind := ClassifyPackageKind (ob_format b) (ob_name b)\<rparr>]))"

text \<open>The map of distinct packages is visited in any order and then sorted by a key that ends in the
  digest, so the list of its values in any order stands for it.\<close>

definition unique_objects :: "PackageObject list \<Rightarrow> EffectiveDist \<Rightarrow> PackageObject list result" where
  "unique_objects packages dist = for_each (collect_object dist) [] packages"

definition split_excluded ::
    "(PackageObject \<Rightarrow> nat \<Rightarrow> policy_field list) \<Rightarrow> EffectiveDist \<Rightarrow>
     PackageObject list \<times> PackageObject list \<Rightarrow> PackageObject \<Rightarrow> (PackageObject list \<times> PackageObject list) result" where
  "split_excluded visit dist s b =
     and_then (excludedByPolicy (visit b) b (ed_exclude dist)) (\<lambda>matched.
       Inr (if matched then (fst s @ [b], snd s) else (fst s, snd s @ [b])))"

definition group_key :: "PackageObject \<Rightarrow> string" where
  "group_key b = ob_name b @ CHR 0x00 # ob_canonical_arch b"

text \<open>The comparator of a group: newest first, then by digest; an error reads as equal.\<close>

definition newer_first ::
    "(string \<Rightarrow> go_error + 'v) \<Rightarrow> ('v \<Rightarrow> 'v \<Rightarrow> int) \<Rightarrow> PackageObject \<Rightarrow> PackageObject \<Rightarrow> bool" where
  "newer_first parse compare a b =
     (let comparison = (case comparePolicyVersion parse compare a b of Inr c \<Rightarrow> c | Inl _ \<Rightarrow> 0)
      in if comparison \<noteq> 0 then 0 < comparison else ob_sha256 a < ob_sha256 b)"

text \<open>\<open>sort.SliceStable\<close> by a comparator, as insertion from the right: on a strict order every
  stable sort gives this list.\<close>

fun insert_stable :: "('a \<Rightarrow> 'a \<Rightarrow> bool) \<Rightarrow> 'a \<Rightarrow> 'a list \<Rightarrow> 'a list" where
  "insert_stable lt x [] = [x]"
| "insert_stable lt x (y # ys) = (if lt y x then y # insert_stable lt x ys else x # y # ys)"

definition SliceStable :: "('a \<Rightarrow> 'a \<Rightarrow> bool) \<Rightarrow> 'a list \<Rightarrow> 'a list" where
  "SliceStable lt xs = foldr (insert_stable lt) xs []"

text \<open>One group: every version must compare, then the newest are kept. A negative limit would panic
  on the slice; the configuration refuses it.\<close>

definition limit_group ::
    "(string \<Rightarrow> go_error + 'v) \<Rightarrow> ('v \<Rightarrow> 'v \<Rightarrow> int) \<Rightarrow> int \<Rightarrow> PackageObject list \<Rightarrow>
     PackageObject list \<times> PackageObject list \<Rightarrow> string \<Rightarrow> (PackageObject list \<times> PackageObject list) result" where
  "limit_group parse compare limit eligible s key =
     (let objects = filter (\<lambda>b. group_key b = key) eligible
      in and_then (for_each (\<lambda>u b. map_sum id (\<lambda>_. ()) (comparePolicyVersion parse compare b b)) () objects) (\<lambda>_.
           let ranked = SliceStable (newer_first parse compare) objects;
               cut = (if int (length ranked) < limit then int (length ranked) else limit)
           in if cut < 0 then Inl (plain_error ''panic: slice bounds out of range'')
              else Inr (fst s @ take (nat cut) ranked, snd s @ drop (nat cut) ranked)))"

definition ApplyPolicy ::
    "(PackageObject \<Rightarrow> nat \<Rightarrow> policy_field list) \<Rightarrow> (string \<Rightarrow> go_error + 'v) \<Rightarrow> ('v \<Rightarrow> 'v \<Rightarrow> int) \<Rightarrow>
     PackageObject list \<Rightarrow> EffectiveDist \<Rightarrow> PolicyResult result" where
  "ApplyPolicy visit parse compare packages dist =
     and_then (unique_objects packages dist) (\<lambda>unique.
     and_then (for_each (split_excluded visit dist) ([], []) (sortPolicyObjects unique)) (\<lambda>(excluded, eligible).
       if ed_limit dist = 0
       then Inr \<lparr>pr_kept = eligible, pr_excluded = excluded, pr_limited = []\<rparr>
       else and_then (for_each (limit_group parse compare (ed_limit dist) eligible) ([], [])
                        (sort (remdups (map group_key eligible)))) (\<lambda>(kept, limited).
              Inr \<lparr>pr_kept = sortPolicyObjects kept, pr_excluded = excluded,
                   pr_limited = sortPolicyObjects limited\<rparr>)))"

subsection \<open>The configuration check of a policy (\<open>validatePolicy\<close> of \<open>config.go\<close>)\<close>

definition validate_pattern :: "string set \<Rightarrow> string \<Rightarrow> (string set) result" where
  "validate_pattern seen pattern =
     (if pattern = [] \<or> TrimSpace pattern \<noteq> pattern \<or> CHR 0x00 \<in> set pattern
      then Inl (plain_error ''exclude rule has an empty or untrimmed pattern'')
      else case path_Match pattern ''candidate'' of
             Inl _ \<Rightarrow> Inl (plain_error ''exclude rule has an invalid glob'')
           | Inr _ \<Rightarrow>
               if pattern \<in> seen then Inl (plain_error ''exclude rule repeats a pattern'')
               else Inr (insert pattern seen))"

definition validate_field :: "ExcludeRule \<Rightarrow> bool \<Rightarrow> policy_field \<Rightarrow> bool result" where
  "validate_field rule nonempty fd =
     (if rule_patterns rule fd = [] then Inr nonempty
      else and_then (for_each validate_pattern {} (rule_patterns rule fd)) (\<lambda>_. Inr True))"

fun validate_rules :: "(nat \<Rightarrow> policy_field list) \<Rightarrow> nat \<Rightarrow> ExcludeRule list \<Rightarrow> unit result" where
  "validate_rules visit index [] = Inr ()"
| "validate_rules visit index (rule # rules) =
     and_then (for_each (validate_field rule) False (visit index)) (\<lambda>nonempty.
       if \<not> nonempty then Inl (plain_error ''exclude rule is empty'')
       else validate_rules visit (Suc index) rules)"

definition validatePolicy :: "(nat \<Rightarrow> policy_field list) \<Rightarrow> int \<Rightarrow> ExcludeRule list \<Rightarrow> unit result" where
  "validatePolicy visit limit exclude =
     (if limit < 0 then Inl (plain_error ''limit must be zero or positive'')
      else validate_rules visit 0 exclude)"

subsection \<open>Exclude rules whose patterns are well formed\<close>

definition valid_rule :: "ExcludeRule \<Rightarrow> bool" where
  "valid_rule rule \<longleftrightarrow> (\<forall>fd. \<forall>p\<in>set (rule_patterns rule fd). \<not> isl (path_Match p ''candidate''))"

definition rule_hits :: "ExcludeRule \<Rightarrow> PackageObject \<Rightarrow> bool" where
  "rule_hits rule b \<longleftrightarrow>
     (\<forall>fd. rule_patterns rule fd = []
        \<or> (\<exists>p\<in>set (rule_patterns rule fd). path_Match p (field_value b fd) = Inr True))"

lemma validate_patterns_Inr:
  "for_each validate_pattern seen ps = Inr seen' \<Longrightarrow> p \<in> set ps \<Longrightarrow> \<not> isl (path_Match p ''candidate'')"
  by (induction ps arbitrary: seen)
    (auto simp: and_then_Inr_iff validate_pattern_def split: if_splits sum.splits)

lemma validate_fields_Inr:
  "for_each (validate_field rule) b fds = Inr b' \<Longrightarrow> fd \<in> set fds \<Longrightarrow> p \<in> set (rule_patterns rule fd) \<Longrightarrow>
     \<not> isl (path_Match p ''candidate'')"
  by (induction fds arbitrary: b)
    (auto simp: and_then_Inr_iff validate_field_def split: if_splits dest: validate_patterns_Inr)

lemma validate_rules_Inr:
  "validate_rules visit i rules = Inr u \<Longrightarrow> (\<And>i. set (visit i) = UNIV) \<Longrightarrow> rule \<in> set rules \<Longrightarrow> valid_rule rule"
proof (induction rules arbitrary: i)
  case (Cons r rules)
  then obtain b where b: "for_each (validate_field r) False (visit i) = Inr b" "b"
    and rest: "validate_rules visit (Suc i) rules = Inr u"
    by (auto simp: and_then_Inr_iff split: if_splits)
  have "valid_rule r"
    unfolding valid_rule_def using validate_fields_Inr[OF b(1)] Cons.prems(2)[of i] by blast
  with Cons.IH[OF rest Cons.prems(2)] Cons.prems(3) show ?case by auto
qed simp

lemma field_matches_valid:
  assumes "\<forall>p\<in>set patterns. \<not> isl (path_Match p ''candidate'')"
  shows "field_matches patterns value = Inr (\<exists>p\<in>set patterns. path_Match p value = Inr True)"
proof -
  have "for_each (\<lambda>matches pattern. (case path_Match pattern value of
          Inl _ \<Rightarrow> Inl (plain_error ''managed: exclude rule has a bad pattern'')
        | Inr matched \<Rightarrow> Inr (matches \<or> matched))) acc patterns
      = (Inr (acc \<or> (\<exists>p\<in>set patterns. path_Match p value = Inr True)) :: bool result)" for acc
    using assms
  proof (induction patterns arbitrary: acc)
    case (Cons p ps)
    then obtain m where "path_Match p value = Inr m"
      using path_Match_syntax[of p "value" "''candidate''"] by (cases "path_Match p value") auto
    with Cons show ?case by auto
  qed simp
  then show ?thesis by (simp add: field_matches_def)
qed

lemma rule_matches_valid:
  "valid_rule rule \<Longrightarrow>
     rule_matches b rule fds = Inr (\<forall>fd\<in>set fds. rule_patterns rule fd = []
        \<or> (\<exists>p\<in>set (rule_patterns rule fd). path_Match p (field_value b fd) = Inr True))"
  by (induction fds) (auto simp: valid_rule_def field_matches_valid)

lemma excluded_from_valid:
  assumes "\<forall>rule\<in>set rules. valid_rule rule" "\<And>i. set (visit i) = UNIV"
  shows "excluded_from visit b i rules = Inr (\<exists>rule\<in>set rules. rule_hits rule b)"
  using assms(1)
proof (induction rules arbitrary: i)
  case (Cons rule rules)
  then have "rule_matches b rule (visit i) = Inr (rule_hits rule b)"
    using rule_matches_valid[of rule b "visit i"] assms(2)[of i] by (simp add: rule_hits_def)
  with Cons show ?case by auto
qed simp

lemma split_excluded_valid:
  assumes "\<forall>rule\<in>set (ed_exclude dist). valid_rule rule" "\<And>b i. set (visit b i) = UNIV"
  shows "for_each (split_excluded visit dist) s objects =
     Inr (fst s @ filter (\<lambda>b. \<exists>rule\<in>set (ed_exclude dist). rule_hits rule b) objects,
          snd s @ filter (\<lambda>b. \<not> (\<exists>rule\<in>set (ed_exclude dist). rule_hits rule b)) objects)"
proof (induction objects arbitrary: s)
  case (Cons b objects)
  have "excludedByPolicy (visit b) b (ed_exclude dist) = Inr (\<exists>rule\<in>set (ed_exclude dist). rule_hits rule b)"
    unfolding excludedByPolicy_def by (rule excluded_from_valid[OF assms(1)]) (rule assms(2))
  with Cons show ?case by (simp add: split_excluded_def)
qed simp

subsection \<open>The distinct candidates\<close>

abbreviation classified :: "PackageObject \<Rightarrow> PackageObject" where
  "classified b \<equiv> b\<lparr>ob_kind := ClassifyPackageKind (ob_format b) (ob_name b)\<rparr>"

lemma find_sha_Some:
  "List.find (\<lambda>p. ob_sha256 p = d) u = Some p \<Longrightarrow> p \<in> set u \<and> ob_sha256 p = d"
  by (auto simp: find_Some_iff)

lemma unique_objects_Inr:
  assumes "for_each (collect_object dist) u packages = Inr unique" "distinct (map ob_sha256 u)"
  shows "distinct (map ob_sha256 unique)
     \<and> ob_sha256 ` set unique = ob_sha256 ` (set u \<union> {b \<in> set packages. admissible_object dist b})
     \<and> set unique \<subseteq> set u \<union> classified ` {b \<in> set packages. admissible_object dist b}"
  using assms
proof (induction packages arbitrary: u)
  case (Cons b packages)
  then obtain u' where u': "collect_object dist u b = Inr u'"
    and rest: "for_each (collect_object dist) u' packages = Inr unique"
    by (auto simp: and_then_Inr_iff)
  consider "u' = u" "\<not> admissible_object dist b"
    | p where "u' = u" "admissible_object dist b" "p \<in> set u" "ob_sha256 p = ob_sha256 b"
    | "u' = u @ [classified b]" "admissible_object dist b" "\<forall>x\<in>set u. ob_sha256 x \<noteq> ob_sha256 b"
    using u' by (auto simp: collect_object_def find_None_iff split: if_splits option.splits dest!: find_sha_Some)
  then show ?case
  proof cases
    case 1
    with Cons.IH[OF _ Cons.prems(2)] rest show ?thesis by (simp cong: conj_cong) blast
  next
    case 2
    moreover from 2 have "ob_sha256 b \<in> ob_sha256 ` set u" by (metis imageI)
    ultimately show ?thesis using Cons.IH[OF _ Cons.prems(2)] rest by auto
  next
    case 3
    then have "distinct (map ob_sha256 u')" using Cons.prems(2) by auto
    with Cons.IH[OF rest] 3 show ?thesis by auto
  qed
qed simp

text \<open>When packages with one digest agree, the distinct candidates are a set.\<close>

lemma unique_objects_agree:
  assumes agree: "\<forall>b\<in>set packages. \<forall>c\<in>set packages. ob_sha256 b = ob_sha256 c \<longrightarrow> classified b = classified c"
  shows "\<exists>unique. unique_objects packages dist = Inr unique \<and> distinct (map ob_sha256 unique)
     \<and> set unique = classified ` {b \<in> set packages. admissible_object dist b}"
proof -
  have "\<exists>unique. for_each (collect_object dist) u bs = Inr unique"
    if "set bs \<subseteq> set packages" "set u \<subseteq> classified ` set packages" for u bs
    using that
  proof (induction bs arbitrary: u)
    case (Cons b bs)
    have "samePolicyObject p b" if p: "p \<in> set u" "ob_sha256 p = ob_sha256 b" for p
    proof -
      obtain c where c: "c \<in> set packages" "p = classified c" using p(1) Cons.prems(2) by auto
      then have "ob_sha256 c = ob_sha256 b" using p(2) by simp
      then have eq: "classified c = classified b" using agree[rule_format, of c b] c(1) Cons.prems(1) by simp
      show ?thesis
        using arg_cong[OF eq, of ob_format] arg_cong[OF eq, of ob_name] arg_cong[OF eq, of ob_source]
          arg_cong[OF eq, of ob_version] arg_cong[OF eq, of ob_epoch] arg_cong[OF eq, of ob_release]
          arg_cong[OF eq, of ob_architecture] arg_cong[OF eq, of ob_canonical_arch] arg_cong[OF eq, of ob_coordinate] c(2)
        by (simp add: samePolicyObject_def)
    qed
    then have "collect_object dist u b = Inr u \<or> collect_object dist u b = Inr (u @ [classified b])"
      by (auto simp: collect_object_def split: option.splits dest!: find_sha_Some)
    then obtain u' where "collect_object dist u b = Inr u'" "set u' \<subseteq> classified ` set packages"
      using Cons.prems by auto
    with Cons.IH[of u'] Cons.prems(1) show ?case by auto
  qed simp
  from this[of packages "[]"] obtain unique where u: "unique_objects packages dist = Inr unique"
    by (auto simp: unique_objects_def)
  then have facts: "distinct (map ob_sha256 unique)"
      "ob_sha256 ` set unique = ob_sha256 ` {b \<in> set packages. admissible_object dist b}"
      "set unique \<subseteq> classified ` {b \<in> set packages. admissible_object dist b}"
    using unique_objects_Inr[of dist "[]" packages unique] by (simp_all add: unique_objects_def)
  have "classified b \<in> set unique" if b: "b \<in> set packages" "admissible_object dist b" for b
  proof -
    have "ob_sha256 b \<in> ob_sha256 ` set unique" using facts(2) b by auto
    then obtain p where p: "p \<in> set unique" "ob_sha256 p = ob_sha256 b" by auto
    then obtain c where "c \<in> set packages" "p = classified c" using facts(3) by auto
    with p b agree[rule_format, of c b] show ?thesis by simp
  qed
  with u facts show ?thesis by blast
qed

lemma sortPolicyObjects_unique:
  assumes "distinct (map ob_sha256 xs)" "distinct (map ob_sha256 ys)" "set xs = set ys"
  shows "sortPolicyObjects xs = sortPolicyObjects ys"
proof -
  have d: "distinct xs" "distinct ys" using assms(1,2) by (auto simp: distinct_map)
  have "inj_on ob_sha256 (set xs)" using assms(1) by (simp add: distinct_map)
  then have "inj_on policy_key (set xs)" by (auto simp: inj_on_def policy_key_def)
  then have "distinct (map policy_key xs)" using d by (simp add: distinct_map)
  moreover have "mset xs = mset ys" using d assms(3) by (simp add: set_eq_iff_mset_eq_distinct)
  ultimately show ?thesis unfolding sortPolicyObjects_def by (rule sort_key_mset_eq[rotated])
qed

subsection \<open>Ranking a group\<close>

lemma mset_insert_stable: "mset (insert_stable lt x ys) = add_mset x (mset ys)"
  by (induction ys) auto

lemma mset_SliceStable [simp]: "mset (SliceStable lt xs) = mset xs"
  unfolding SliceStable_def by (induction xs) (auto simp: mset_insert_stable)

lemma set_insert_stable: "set (insert_stable lt x ys) = insert x (set ys)"
  by (induction ys) auto

lemma SliceStable_sorted:
  assumes "distinct xs" "set xs \<subseteq> S"
    and trans: "\<And>x y z. x \<in> S \<Longrightarrow> y \<in> S \<Longrightarrow> z \<in> S \<Longrightarrow> lt x y \<Longrightarrow> lt y z \<Longrightarrow> lt x z"
    and total: "\<And>x y. x \<in> S \<Longrightarrow> y \<in> S \<Longrightarrow> x \<noteq> y \<Longrightarrow> lt x y \<or> lt y x"
  shows "sorted_wrt lt (SliceStable lt xs)"
proof -
  have ins: "sorted_wrt lt (insert_stable lt x ys)"
    if "sorted_wrt lt ys" "x \<notin> set ys" "insert x (set ys) \<subseteq> S" for x ys
    using that
  proof (induction ys)
    case (Cons y ys)
    show ?case
    proof (cases "lt y x")
      case True
      with Cons show ?thesis by (auto simp: set_insert_stable)
    next
      case False
      then have "lt x y" using total[of x y] Cons.prems by auto
      moreover have "lt x z" if "z \<in> set ys" for z
        using trans[of x y z] calculation that Cons.prems by auto
      ultimately show ?thesis using False Cons.prems(1) by auto
    qed
  qed simp
  have set: "set (foldr (insert_stable lt) xs []) = set xs" for xs
    by (induction xs) (simp_all add: set_insert_stable)
  show ?thesis
    unfolding SliceStable_def using assms(1,2)
    by (induction xs) (auto intro!: ins simp: set)
qed

context comparison
begin

text \<open>Newest first with a tie broken by an injective text is a strict total order.\<close>

lemma ranked_trans:
  assumes "if compare x y \<noteq> 0 then 0 < compare x y else t x < t y"
    and "if compare y z \<noteq> 0 then 0 < compare y z else t y < (t z :: string)"
  shows "if compare x z \<noteq> 0 then 0 < compare x z else t x < t z"
proof -
  have flip: "compare y x \<le> 0" "compare z y \<le> 0"
    using assms compare_pos_iff[of x y] compare_pos_iff[of y z] compare_zero_iff[of x y] compare_zero_iff[of y z]
    by (auto split: if_splits)
  then have zx: "compare z x \<le> 0" by (blast intro: compare_trans)
  show ?thesis
  proof (cases "compare z x = 0")
    case True
    then have "\<not> compare z y < 0" using compare_less_trans[OF _ flip(1)] by fastforce
    moreover have "\<not> compare y x < 0" using True compare_less_trans2[OF flip(2)] by fastforce
    ultimately have "compare y x = 0" "compare z y = 0" using flip by simp_all
    then have "compare x y = 0" "compare y z = 0"
      using compare_zero_iff[of x y] compare_zero_iff[of y z] by auto
    with True assms show ?thesis by (simp add: compare_zero_iff[of x z])
  next
    case False
    with zx show ?thesis using compare_pos_iff[of x z] compare_zero_iff[of x z] by auto
  qed
qed

lemma ranked_total:
  assumes "t x \<noteq> (t y :: string)"
  shows "(if compare x y \<noteq> 0 then 0 < compare x y else t x < t y)
    \<or> (if compare y x \<noteq> 0 then 0 < compare y x else t y < t x)"
  using assms compare_pos_iff[of x y] compare_pos_iff[of y x] compare_zero_iff[of x y] by auto

end

lemma comparison_map:
  assumes "comparison c"
  shows "comparison (\<lambda>x y. c (k x) (k y))"
  by unfold_locales (rule comparison.compare_flip[OF assms], rule comparison.compare_trans[OF assms])

text \<open>Within one format, versions that can be compared with themselves are totally preordered.\<close>

lemma policy_comparison:
  assumes "comparison compare" "\<forall>b\<in>S. ob_format b = fmt"
    and self: "\<forall>b\<in>S. \<not> isl (comparePolicyVersion parse compare b b)"
  shows "\<exists>C. comparison C \<and> (\<forall>a\<in>S. \<forall>b\<in>S. comparePolicyVersion parse compare a b = Inr (C a b))"
proof -
  consider "fmt = ''rpm''" | "fmt = ''deb''" | "S = {}"
    using assms(2) self by (fastforce simp: comparePolicyVersion_def)
  then show ?thesis
  proof cases
    case 1
    let ?k = "\<lambda>b. (projr (parse_epoch (ob_epoch b)), ob_version b, ob_release b)"
    have ok: "parse_epoch (ob_epoch b) = Inr (projr (parse_epoch (ob_epoch b)))" if "b \<in> S" for b
      using that self assms(2) 1
      by (cases "parse_epoch (ob_epoch b)") (auto simp: comparePolicyVersion_def)
    have "comparePolicyVersion parse compare a b = Inr (compare_evr (?k a) (?k b))" if ab: "a \<in> S" "b \<in> S" for a b
    proof -
      obtain m n where "parse_epoch (ob_epoch a) = Inr m" "parse_epoch (ob_epoch b) = Inr n"
        using ok[OF ab(1)] ok[OF ab(2)] by blast
      with ab assms(2) 1 show ?thesis by (simp add: comparePolicyVersion_def compare_evr_def)
    qed
    moreover have "comparison (\<lambda>a b. compare_evr (?k a) (?k b))"
      by (rule comparison_map) (rule evr.comparison_axioms)
    ultimately show ?thesis by blast
  next
    case 2
    let ?k = "\<lambda>b. projr (parse (ob_version b))"
    have ok: "parse (ob_version b) = Inr (projr (parse (ob_version b)))" if "b \<in> S" for b
      using that self assms(2) 2
      by (cases "parse (ob_version b)") (auto simp: comparePolicyVersion_def apt_CompareVersions_def)
    have "comparePolicyVersion parse compare a b = Inr (compare (?k a) (?k b))" if ab: "a \<in> S" "b \<in> S" for a b
    proof -
      obtain v w where "parse (ob_version a) = Inr v" "parse (ob_version b) = Inr w"
        using ok[OF ab(1)] ok[OF ab(2)] by blast
      with ab assms(2) 2 show ?thesis by (simp add: comparePolicyVersion_def apt_CompareVersions_def)
    qed
    moreover have "comparison (\<lambda>a b. compare (?k a) (?k b))" using assms(1) by (rule comparison_map)
    ultimately show ?thesis by blast
  next
    case 3
    then show ?thesis using evr.comparison_axioms comparison_map by blast
  qed
qed

lemma ranked_group:
  assumes "comparison compare" "\<forall>b\<in>set objects. ob_format b = fmt" "distinct (map ob_sha256 objects)"
    and "\<forall>b\<in>set objects. \<not> isl (comparePolicyVersion parse compare b b)"
  shows "sorted_wrt (\<lambda>a b. \<exists>c. comparePolicyVersion parse compare a b = Inr c \<and> 0 \<le> c)
    (SliceStable (newer_first parse compare) objects)"
proof -
  obtain C where C: "comparison C"
    "\<And>a b. a \<in> set objects \<Longrightarrow> b \<in> set objects \<Longrightarrow> comparePolicyVersion parse compare a b = Inr (C a b)"
    using policy_comparison[OF assms(1,2,4)] by blast
  have lt: "newer_first parse compare a b = (if C a b \<noteq> 0 then 0 < C a b else ob_sha256 a < ob_sha256 b)"
    if "a \<in> set objects" "b \<in> set objects" for a b
    using that by (simp add: newer_first_def C(2))
  have inj: "ob_sha256 a \<noteq> ob_sha256 b" if "a \<in> set objects" "b \<in> set objects" "a \<noteq> b" for a b
    using that assms(3) by (auto simp: distinct_map inj_on_def)
  have "sorted_wrt (newer_first parse compare) (SliceStable (newer_first parse compare) objects)"
  proof (rule SliceStable_sorted[OF _ order_refl])
    show "distinct objects" using assms(3) by (simp add: distinct_map)
    show "newer_first parse compare x z"
      if "x \<in> set objects" "y \<in> set objects" "z \<in> set objects" "newer_first parse compare x y" "newer_first parse compare y z" for x y z
      using that comparison.ranked_trans[OF C(1), of x y ob_sha256 z] by (simp only: lt)
    show "newer_first parse compare x y \<or> newer_first parse compare y x"
      if "x \<in> set objects" "y \<in> set objects" "x \<noteq> y" for x y
      using comparison.ranked_total[of C ob_sha256 x y, OF C(1) inj[OF that]] that by (simp only: lt)
  qed
  moreover have "set (SliceStable (newer_first parse compare) objects) = set objects"
    by (metis mset_SliceStable set_mset_mset)
  ultimately show ?thesis
    by (elim sorted_wrt_mono_rel[rotated]) (auto simp: lt C(2) split: if_splits)
qed

subsection \<open>The groups\<close>

text \<open>What one round adds: the ranked group, split at the limit.\<close>

lemma limit_group_Inr:
  assumes "limit_group parse compare limit eligible s key = Inr s'" "0 \<le> limit"
  defines "ranked \<equiv> SliceStable (newer_first parse compare) (filter (\<lambda>b. group_key b = key) eligible)"
  shows "s' = (fst s @ take (nat limit) ranked, snd s @ drop (nat limit) ranked)"
    "\<forall>b\<in>set eligible. group_key b = key \<longrightarrow> \<not> isl (comparePolicyVersion parse compare b b)"
proof -
  let ?objects = "filter (\<lambda>b. group_key b = key) eligible"
  let ?check = "\<lambda>u b. map_sum id (\<lambda>_. ()) (comparePolicyVersion parse compare b b)"
  have check: "for_each ?check () ?objects = Inr ()"
    using assms(1) by (auto simp: limit_group_def Let_def and_then_Inr_iff)
  have "for_each ?check () bs = Inr () \<Longrightarrow> \<forall>b\<in>set bs. \<not> isl (comparePolicyVersion parse compare b b)" for bs
  proof (induction bs)
    case (Cons b bs)
    then show ?case by (cases "comparePolicyVersion parse compare b b") auto
  qed simp
  from this[OF check] show "\<forall>b\<in>set eligible. group_key b = key \<longrightarrow> \<not> isl (comparePolicyVersion parse compare b b)"
    by auto
  show "s' = (fst s @ take (nat limit) ranked, snd s @ drop (nat limit) ranked)"
    using assms(1,2) check unfolding ranked_def limit_group_def
    by (auto simp: Let_def split: if_splits)
qed

text \<open>What the loop over the groups leaves: per group its newest and the rest.\<close>

definition ranked_by ::
    "(string \<Rightarrow> go_error + 'v) \<Rightarrow> ('v \<Rightarrow> 'v \<Rightarrow> int) \<Rightarrow> PackageObject list \<Rightarrow> string \<Rightarrow> PackageObject list" where
  "ranked_by parse compare eligible key =
     SliceStable (newer_first parse compare) (filter (\<lambda>b. group_key b = key) eligible)"

lemma limit_groups_Inr:
  assumes "for_each (limit_group parse compare limit eligible) s keys = Inr s'" "0 \<le> limit"
  shows "s' = (fst s @ concat (map (\<lambda>k. take (nat limit) (ranked_by parse compare eligible k)) keys),
               snd s @ concat (map (\<lambda>k. drop (nat limit) (ranked_by parse compare eligible k)) keys))
    \<and> (\<forall>b\<in>set eligible. group_key b \<in> set keys \<longrightarrow> \<not> isl (comparePolicyVersion parse compare b b))"
  using assms(1)
proof (induction keys arbitrary: s)
  case (Cons key keys)
  then obtain t where t: "limit_group parse compare limit eligible s key = Inr t"
    and rest: "for_each (limit_group parse compare limit eligible) t keys = Inr s'"
    by (auto simp: and_then_Inr_iff)
  show ?case
    using Cons.IH[OF rest] limit_group_Inr[OF t assms(2)] by (auto simp: ranked_by_def)
qed simp

lemma set_ranked_by [simp]: "set (ranked_by parse compare eligible k) = {b \<in> set eligible. group_key b = k}"
  unfolding ranked_by_def by (metis mset_SliceStable set_mset_mset set_filter)

lemma length_ranked_by [simp]:
  "length (ranked_by parse compare eligible k) = length (filter (\<lambda>b. group_key b = k) eligible)"
  unfolding ranked_by_def by (metis mset_SliceStable size_mset)

text \<open>Selecting a group from a concatenation over distinct keys gives that key's part.\<close>

lemma filter_key_concat:
  assumes "distinct keys" "\<And>k b. b \<in> set (part k) \<Longrightarrow> key_of b = k"
  shows "filter (\<lambda>b. key_of b = k) (concat (map part keys)) = (if k \<in> set keys then part k else [])"
  using assms(1)
proof (induction keys)
  case (Cons k' keys)
  have "filter (\<lambda>b. key_of b = k) (part k') = (if k = k' then part k' else [])"
    using assms(2)[of _ k'] by (auto intro: filter_True)
  with Cons show ?case by auto
qed simp

lemma mset_concat_split:
  "mset (concat (map (\<lambda>k. take n (f k)) keys)) + mset (concat (map (\<lambda>k. drop n (f k)) keys))
     = mset (concat (map f keys))"
proof (induction keys)
  case (Cons k keys)
  have "mset (take n (f k)) + mset (drop n (f k)) = mset (f k)"
    by (metis append_take_drop_id mset_append)
  with Cons show ?case by (simp add: ac_simps)
qed simp

lemma mset_groups:
  assumes "distinct keys" "\<forall>b\<in>set xs. key_of b \<in> set keys"
  shows "mset (concat (map (\<lambda>k. filter (\<lambda>b. key_of b = k) xs) keys)) = mset xs"
  using assms
proof (induction keys arbitrary: xs)
  case (Cons k keys)
  let ?ys = "filter (\<lambda>b. key_of b \<noteq> k) xs"
  have "map (\<lambda>j. filter (\<lambda>b. key_of b = j) xs) keys = map (\<lambda>j. filter (\<lambda>b. key_of b = j) ?ys) keys"
    using Cons.prems(1) by (auto intro!: filter_cong)
  moreover have "mset (concat (map (\<lambda>j. filter (\<lambda>b. key_of b = j) ?ys) keys)) = mset ?ys"
    using Cons.prems by (intro Cons.IH) auto
  ultimately show ?case by (simp only: list.map concat.simps mset_append) (simp add: mset_filter)
qed simp

lemma mset_ranked:
  "mset (concat (map (ranked_by parse compare eligible) (sort (remdups (map group_key eligible))))) = mset eligible"
proof -
  let ?keys = "sort (remdups (map group_key eligible))"
  have "mset (concat (map (ranked_by parse compare eligible) keys))
      = mset (concat (map (\<lambda>k. filter (\<lambda>b. group_key b = k) eligible) keys))" for keys
    by (induction keys) (simp_all add: ranked_by_def)
  also have "mset (concat (map (\<lambda>k. filter (\<lambda>b. group_key b = k) eligible) ?keys)) = mset eligible"
    by (rule mset_groups) auto
  finally show ?thesis .
qed

subsection \<open>The result of the policy\<close>

abbreviation excluded_object :: "EffectiveDist \<Rightarrow> PackageObject \<Rightarrow> bool" where
  "excluded_object dist b \<equiv> \<exists>rule\<in>set (ed_exclude dist). rule_hits rule b"

lemma all_fields: "mset fds = mset policy_fields \<Longrightarrow> set fds = UNIV"
proof -
  assume "mset fds = mset policy_fields"
  then have "set fds = set policy_fields" by (rule mset_eq_setD)
  also have "\<dots> = UNIV" using policy_field.exhaust by auto
  finally show ?thesis .
qed

lemma validated_rules:
  assumes "validatePolicy check (ed_limit dist) (ed_exclude dist) = Inr ()" "\<forall>i. mset (check i) = mset policy_fields"
  shows "0 \<le> ed_limit dist" "\<forall>rule\<in>set (ed_exclude dist). valid_rule rule"
  using assms validate_rules_Inr[of check 0 "ed_exclude dist" "()"] all_fields
  by (auto simp: validatePolicy_def split: if_splits)

text \<open>The policy as the code computes it once the rules are known to be well formed.\<close>

lemma ApplyPolicy_valid:
  assumes "\<forall>rule\<in>set (ed_exclude dist). valid_rule rule" "\<forall>b i. mset (visit b i) = mset policy_fields"
  shows "ApplyPolicy visit parse compare packages dist =
    and_then (unique_objects packages dist) (\<lambda>unique.
      let ordered = sortPolicyObjects unique;
          excluded = filter (excluded_object dist) ordered;
          eligible = filter (\<lambda>b. \<not> excluded_object dist b) ordered
      in if ed_limit dist = 0
         then Inr \<lparr>pr_kept = eligible, pr_excluded = excluded, pr_limited = []\<rparr>
         else and_then (for_each (limit_group parse compare (ed_limit dist) eligible) ([], [])
                          (sort (remdups (map group_key eligible)))) (\<lambda>(kept, limited).
                Inr \<lparr>pr_kept = sortPolicyObjects kept, pr_excluded = excluded,
                     pr_limited = sortPolicyObjects limited\<rparr>))"
  unfolding ApplyPolicy_def
  by (intro and_then_cong refl)
    (simp add: split_excluded_valid[OF assms(1)] all_fields assms(2) Let_def)

lemma mset_sortPolicyObjects [simp]: "mset (sortPolicyObjects xs) = mset xs"
  by (simp add: sortPolicyObjects_def)

lemma set_sortPolicyObjects [simp]: "set (sortPolicyObjects xs) = set xs"
  by (simp add: sortPolicyObjects_def)

lemma sortPolicyObjects_key [simp]: "filter P (sortPolicyObjects xs) = sortPolicyObjects (filter P xs)"
  by (simp add: sortPolicyObjects_def filter_sort)

lemma sorted_policy_key [simp]: "sorted (map policy_key (sortPolicyObjects xs))"
  by (simp add: sortPolicyObjects_def)

lemma sorted_wrt_take_drop:
  "sorted_wrt P xs \<Longrightarrow> x \<in> set (take n xs) \<Longrightarrow> y \<in> set (drop n xs) \<Longrightarrow> P x y"
  using sorted_wrt_append[of P "take n xs" "drop n xs"] by simp

text \<open>The eligible packages split at the limit.\<close>

lemma limit_split:
  assumes "for_each (limit_group parse compare limit eligible) ([], [])
      (sort (remdups (map group_key eligible))) = Inr (kept, limited)"
    and limit: "0 \<le> limit"
  shows "mset kept + mset limited = mset eligible"
    and "length (filter (\<lambda>b. group_key b = key) kept)
       = min (nat limit) (length (filter (\<lambda>b. group_key b = key) eligible))"
    and "comparison compare \<Longrightarrow> \<forall>b\<in>set eligible. ob_format b = fmt \<Longrightarrow> distinct (map ob_sha256 eligible) \<Longrightarrow>
      k \<in> set kept \<Longrightarrow> l \<in> set limited \<Longrightarrow> group_key k = group_key l \<Longrightarrow>
      \<exists>c. comparePolicyVersion parse compare k l = Inr c \<and> 0 \<le> c"
proof -
  let ?keys = "sort (remdups (map group_key eligible))" and ?ranked = "ranked_by parse compare eligible"
  have kept: "kept = concat (map (\<lambda>k. take (nat limit) (?ranked k)) ?keys)"
    and limited: "limited = concat (map (\<lambda>k. drop (nat limit) (?ranked k)) ?keys)"
    and self: "\<forall>b\<in>set eligible. \<not> isl (comparePolicyVersion parse compare b b)"
    using limit_groups_Inr[OF assms] by auto
  show "mset kept + mset limited = mset eligible"
    unfolding kept limited mset_concat_split by (rule mset_ranked)
  have part: "filter (\<lambda>b. group_key b = key) (concat (map (\<lambda>k. f (?ranked k)) ?keys)) =
      (if key \<in> set ?keys then f (?ranked key) else [])"
    if "\<And>xs. set (f xs) \<subseteq> set xs" for f key
    using that by (intro filter_key_concat) force+
  have in_part: "b \<in> set (f (?ranked key))"
    if "\<And>xs. set (f xs) \<subseteq> set xs" "b \<in> set (concat (map (\<lambda>k. f (?ranked k)) ?keys))" "group_key b = key" for f key b
  proof -
    from that(2,3) have "b \<in> set (filter (\<lambda>b. group_key b = key) (concat (map (\<lambda>k. f (?ranked k)) ?keys)))"
      by simp
    then show ?thesis unfolding part[of f key, OF that(1)] by (simp split: if_splits)
  qed
  show "length (filter (\<lambda>b. group_key b = key) kept)
      = min (nat limit) (length (filter (\<lambda>b. group_key b = key) eligible))"
    unfolding kept part[of "take (nat limit)", OF set_take_subset]
    by (auto simp: min.commute) (metis (mono_tags, lifting) filter_False imageI length_0_conv min_0R)
  assume order: "comparison compare" "\<forall>b\<in>set eligible. ob_format b = fmt" "distinct (map ob_sha256 eligible)"
    and kl: "k \<in> set kept" "l \<in> set limited" "group_key k = group_key l"
  let ?objects = "filter (\<lambda>b. group_key b = group_key k) eligible"
  have k: "k \<in> set (take (nat limit) (?ranked (group_key k)))"
    by (rule in_part[where f = "take (nat limit)", OF set_take_subset kl(1)[unfolded kept] refl])
  have l: "l \<in> set (drop (nat limit) (?ranked (group_key k)))"
    by (rule in_part[where f = "drop (nat limit)", OF set_drop_subset kl(2)[unfolded limited] kl(3)[symmetric]])
  have "sorted_wrt (\<lambda>a b. \<exists>c. comparePolicyVersion parse compare a b = Inr c \<and> 0 \<le> c) (?ranked (group_key k))"
    unfolding ranked_by_def
    by (rule ranked_group[where fmt = fmt, OF order(1)]) (use order self in \<open>auto simp: distinct_map_filter\<close>)
  from sorted_wrt_take_drop[OF this k l] show "\<exists>c. comparePolicyVersion parse compare k l = Inr c \<and> 0 \<le> c" .
qed

lemma policy_outcome:
  assumes run: "ApplyPolicy visit parse compare packages dist = Inr r"
    and rules: "\<forall>rule\<in>set (ed_exclude dist). valid_rule rule" "\<forall>b i. mset (visit b i) = mset policy_fields"
    and limit: "0 \<le> ed_limit dist" and versions: "comparison compare"
  obtains unique eligible where
    "unique_objects packages dist = Inr unique"
    "eligible = filter (\<lambda>b. \<not> excluded_object dist b) (sortPolicyObjects unique)"
    "pr_excluded r = filter (excluded_object dist) (sortPolicyObjects unique)"
    "mset (pr_kept r) + mset (pr_limited r) = mset eligible"
    "\<forall>key. length (filter (\<lambda>b. group_key b = key) (pr_kept r)) =
       (if ed_limit dist = 0 then length (filter (\<lambda>b. group_key b = key) eligible)
        else min (nat (ed_limit dist)) (length (filter (\<lambda>b. group_key b = key) eligible)))"
    "\<forall>k\<in>set (pr_kept r). \<forall>l\<in>set (pr_limited r). group_key k = group_key l \<longrightarrow>
       (\<exists>c. comparePolicyVersion parse compare k l = Inr c \<and> 0 \<le> c)"
    "sorted (map policy_key (pr_kept r))" "sorted (map policy_key (pr_limited r))"
proof -
  obtain unique where unique: "unique_objects packages dist = Inr unique"
    using run by (auto simp: ApplyPolicy_def and_then_Inr_iff)
  define eligible where "eligible = filter (\<lambda>b. \<not> excluded_object dist b) (sortPolicyObjects unique)"
  have facts: "distinct (map ob_sha256 unique)" "\<forall>b\<in>set unique. ob_format b = ed_format dist"
    using unique_objects_Inr[of dist "[]" packages unique] unique
    by (auto simp: unique_objects_def admissible_object_def)
  then have eligible: "\<forall>b\<in>set eligible. ob_format b = ed_format dist" "distinct (map ob_sha256 eligible)"
    by (auto simp: eligible_def sortPolicyObjects_def distinct_map_sort_key distinct_map_filter)
  note result = run[unfolded ApplyPolicy_valid[OF rules] unique and_then_simps Let_def, folded eligible_def]
  show thesis
  proof (cases "ed_limit dist = 0")
    case True
    with result have "r = \<lparr>pr_kept = eligible,
        pr_excluded = filter (excluded_object dist) (sortPolicyObjects unique), pr_limited = []\<rparr>" by simp
    with unique eligible_def True show thesis by (intro that[of unique eligible]) simp_all
  next
    case False
    with result obtain kept limited where loop: "for_each (limit_group parse compare (ed_limit dist) eligible) ([], [])
        (sort (remdups (map group_key eligible))) = Inr (kept, limited)"
      and r: "r = \<lparr>pr_kept = sortPolicyObjects kept,
        pr_excluded = filter (excluded_object dist) (sortPolicyObjects unique), pr_limited = sortPolicyObjects limited\<rparr>"
      by (auto simp: and_then_Inr_iff)
    have "length (filter P (sortPolicyObjects kept)) = length (filter P kept)" for P
      by (metis mset_filter mset_sortPolicyObjects size_mset)
    with unique eligible_def r False limit_split(1,2)[OF loop limit] limit_split(3)[OF loop limit versions eligible]
    show thesis by (intro that[of unique eligible]) (simp_all del: sortPolicyObjects_key)
  qed
qed

subsection \<open>Properties\<close>

text \<open>C24. The policy is exact. Whenever it succeeds under a validated configuration, the kept,
  excluded and limited packages are together the distinct candidates of the dist's format and
  architectures, each once; excluded are exactly those a rule matches; of every name and
  architecture as many packages are kept as the limit allows, all of them without a limit; and no
  package dropped by the limit is newer than a kept one of its group. The answer is sorted.\<close>

theorem policy_exact:
  assumes run: "ApplyPolicy visit parse compare packages dist = Inr r"
    and valid: "validatePolicy check (ed_limit dist) (ed_exclude dist) = Inr ()"
    and orders: "\<forall>i. mset (check i) = mset policy_fields" "\<forall>b i. mset (visit b i) = mset policy_fields"
    and versions: "comparison compare"
  shows "distinct (map ob_sha256 (pr_kept r @ pr_excluded r @ pr_limited r))
    \<and> ob_sha256 ` set (pr_kept r @ pr_excluded r @ pr_limited r)
        = ob_sha256 ` {b \<in> set packages. admissible_object dist b}
    \<and> (\<forall>b\<in>set (pr_excluded r). excluded_object dist b)
    \<and> (\<forall>b\<in>set (pr_kept r @ pr_limited r). \<not> excluded_object dist b)
    \<and> (\<forall>key. let of_group = filter (\<lambda>b. group_key b = key); all = length (of_group (pr_kept r @ pr_limited r))
             in length (of_group (pr_kept r)) = (if ed_limit dist = 0 then all else min (nat (ed_limit dist)) all))
    \<and> (\<forall>k\<in>set (pr_kept r). \<forall>l\<in>set (pr_limited r). group_key k = group_key l \<longrightarrow>
          (\<exists>c. comparePolicyVersion parse compare k l = Inr c \<and> 0 \<le> c))
    \<and> sorted (map policy_key (pr_kept r)) \<and> sorted (map policy_key (pr_limited r))"
proof -
  note checked = validated_rules[OF valid orders(1)]
  obtain unique eligible where o: "unique_objects packages dist = Inr unique"
    "eligible = filter (\<lambda>b. \<not> excluded_object dist b) (sortPolicyObjects unique)"
    "pr_excluded r = filter (excluded_object dist) (sortPolicyObjects unique)"
    "mset (pr_kept r) + mset (pr_limited r) = mset eligible"
    "\<forall>key. length (filter (\<lambda>b. group_key b = key) (pr_kept r)) =
       (if ed_limit dist = 0 then length (filter (\<lambda>b. group_key b = key) eligible)
        else min (nat (ed_limit dist)) (length (filter (\<lambda>b. group_key b = key) eligible)))"
    "\<forall>k\<in>set (pr_kept r). \<forall>l\<in>set (pr_limited r). group_key k = group_key l \<longrightarrow>
       (\<exists>c. comparePolicyVersion parse compare k l = Inr c \<and> 0 \<le> c)"
    "sorted (map policy_key (pr_kept r))" "sorted (map policy_key (pr_limited r))"
    by (rule policy_outcome[OF run checked(2) orders(2) checked(1) versions]) (rule that)
  have "mset (pr_kept r @ pr_excluded r @ pr_limited r) = (mset (pr_kept r) + mset (pr_limited r)) + mset (pr_excluded r)"
    by (simp add: ac_simps)
  also have "\<dots> = mset unique"
    unfolding o(2-4) using multiset_partition[of "mset unique" "excluded_object dist"]
    by (simp add: add.commute del: sortPolicyObjects_key)
  finally have all: "mset (pr_kept r @ pr_excluded r @ pr_limited r) = mset unique" .
  then have "distinct (map ob_sha256 (pr_kept r @ pr_excluded r @ pr_limited r)) \<longleftrightarrow> distinct (map ob_sha256 unique)"
    by (metis mset_eq_imp_distinct_iff mset_map)
  moreover have "set (pr_kept r @ pr_excluded r @ pr_limited r) = set unique" using all by (rule mset_eq_setD)
  moreover have "distinct (map ob_sha256 unique)"
      "ob_sha256 ` set unique = ob_sha256 ` {b \<in> set packages. admissible_object dist b}"
    using unique_objects_Inr[of dist "[]" packages unique] o(1) by (simp_all add: unique_objects_def)
  moreover have "set (pr_kept r @ pr_limited r) = set eligible"
    using o(4) by (intro mset_eq_setD) simp
  moreover have "length (filter P (pr_kept r @ pr_limited r)) = length (filter P eligible)" for P
    using o(4) by (metis mset_append mset_filter size_mset)
  moreover have "\<forall>b\<in>set (pr_excluded r). excluded_object dist b" "\<forall>b\<in>set eligible. \<not> excluded_object dist b"
    by (simp_all add: o(2,3))
  ultimately show ?thesis using o(5-8) by (simp only: Let_def) blast
qed

text \<open>C25. The policy is stable: it gives the same answer, the same error included, for candidates in
  any order and with any repetitions, and for any order in which the fields of a rule are visited,
  as long as the configuration is validated and candidates with one digest carry the same facts.\<close>

theorem policy_stable:
  assumes valid: "validatePolicy check (ed_limit dist) (ed_exclude dist) = Inr ()"
    and orders: "\<forall>i. mset (check i) = mset policy_fields" "\<forall>b i. mset (visit b i) = mset policy_fields"
      "\<forall>b i. mset (visit' b i) = mset policy_fields"
    and agree: "\<forall>b\<in>set packages. \<forall>c\<in>set packages. ob_sha256 b = ob_sha256 c \<longrightarrow> classified b = classified c"
    and same: "set packages' = set packages"
  shows "ApplyPolicy visit' parse compare packages' dist = ApplyPolicy visit parse compare packages dist"
proof -
  note rules = validated_rules(2)[OF valid orders(1)]
  obtain unique where u: "unique_objects packages dist = Inr unique" "distinct (map ob_sha256 unique)"
    "set unique = classified ` {b \<in> set packages. admissible_object dist b}"
    using unique_objects_agree[OF agree] by blast
  obtain unique' where u': "unique_objects packages' dist = Inr unique'" "distinct (map ob_sha256 unique')"
    "set unique' = classified ` {b \<in> set packages. admissible_object dist b}"
    using unique_objects_agree[of packages'] agree unfolding same by blast
  have "sortPolicyObjects unique' = sortPolicyObjects unique"
    using u u' by (intro sortPolicyObjects_unique) simp_all
  then show ?thesis
    unfolding ApplyPolicy_valid[OF rules orders(2)] ApplyPolicy_valid[OF rules orders(3)] u(1) u'(1)
    by (simp only: and_then_simps Let_def)
qed

subsection \<open>A concrete dist\<close>

definition policy_object :: "string \<Rightarrow> string \<Rightarrow> char \<Rightarrow> PackageObject" where
  "policy_object name version c =
     \<lparr>ob_sha256 = [c], ob_format = ''rpm'', ob_coordinate = version, ob_architecture = ''x86_64'',
      ob_canonical_arch = ''x86_64'', ob_pool_path = [], ob_filename = [], ob_size = 1, ob_name = name,
      ob_source = name, ob_version = version, ob_epoch = ''0'', ob_release = ''1'', ob_kind = [],
      ob_payload_sha256 = [], ob_signature_key = [], ob_warning = [], ob_storage = [],
      ob_created_revision = 0, ob_dists = [], ob_built_dists = []\<rparr>"

definition policy_candidates :: "PackageObject list" where
  "policy_candidates =
     [policy_object ''pg'' ''9.6'' CHR ''a'', policy_object ''pg'' ''10.1'' CHR ''b'',
      policy_object ''pg-debuginfo'' ''10.1'' CHR ''c'', policy_object ''pg'' ''10~rc1'' CHR ''d'']"

definition policy_dist :: EffectiveDist where
  "policy_dist = \<lparr>ed_format = ''rpm'', ed_architectures = [''x86_64''], ed_limit = 1,
     ed_exclude = [\<lparr>er_name = [], er_source = [], er_arch = [''x86*''], er_kind = [''debug*''], er_format = []\<rparr>]\<rparr>"

definition text_length :: "string \<Rightarrow> go_error + nat" where
  "text_length s = Inr (length s)"

definition policy_run :: "policy_field list \<Rightarrow> PackageObject list \<Rightarrow> PolicyResult result" where
  "policy_run fds packages = ApplyPolicy (\<lambda>_ _. fds) text_length order_sign packages policy_dist"

lemmas path_Match_run = path_Match_def match_pattern.simps scanChunk_def matchChunk_def

lemma policy_patterns:
  "TrimSpace ''x86*'' = ''x86*''" "TrimSpace ''debug*'' = ''debug*''"
  "path_Match ''x86*'' ''candidate'' = Inr False" "path_Match ''x86*'' ''x86_64'' = Inr True"
  "path_Match ''debug*'' ''candidate'' = Inr False" "path_Match ''debug*'' ''main'' = Inr False"
  "path_Match ''debug*'' ''debuginfo'' = Inr True"
  by (simp_all add: path_Match_run eval_nat_numeral TrimSpace_def space_runes_def upt_rec)

lemma policy_dist_valid: "validatePolicy (\<lambda>_. policy_fields) (ed_limit policy_dist) (ed_exclude policy_dist) = Inr ()"
  by (simp add: policy_dist_def validatePolicy_def validate_field_def validate_pattern_def policy_patterns)

lemma policy_unique: "unique_objects policy_candidates policy_dist = Inr (map classified policy_candidates)"
  by (simp add: policy_candidates_def policy_object_def policy_dist_def unique_objects_def collect_object_def
      admissible_object_def)

lemma policy_versions:
  "version_segments ''9.6'' = [''9'', ''6'']" "version_segments ''10.1'' = [''10'', ''1'']"
  "version_segments ''10~rc1'' = [''10'', ''~'', ''rc'', ''1'']" "version_segments ''1'' = [''1'']"
  by (simp_all add: is_letter_def is_digit_def is_upper_def is_lower_def)

lemma policy_epoch: "parse_epoch ''0'' = Inr 0"
  by (simp add: parse_epoch_def ParseInt_def is_digit_def dec_value_Cons)
lemma policy_comparisons: "CompareVersions ''9.6'' ''10.1'' = -1" "CompareVersions ''10.1'' ''9.6'' = 1" "CompareVersions ''10~rc1'' ''10.1'' = -1" 
 "CompareVersions ''10.1'' ''10~rc1'' = 1" "CompareVersions ''9.6'' ''10~rc1'' = -1" "CompareVersions ''10~rc1'' ''9.6'' = 1"
  by code_simp+
lemma policy_kinds: "ClassifyPackageKind ''rpm'' ''pg'' = ''main''" "ClassifyPackageKind ''rpm'' ''pg-debuginfo'' = ''debuginfo''"
  by code_simp+
lemma CompareVersions_refl: "CompareVersions x x = 0"
  by (simp add: CompareVersions_def)
lemma all_policy_fields: "(\<forall>fd. P fd) \<longleftrightarrow> P FieldName \<and> P FieldSource \<and> P FieldArch \<and> P FieldKind \<and> P FieldFormat"
  by (metis policy_field.exhaust)
lemma policy_hits: "excluded_object policy_dist (classified (policy_object ''pg-debuginfo'' v c))" "\<not> excluded_object policy_dist (classified (policy_object ''pg'' v c))"
  by (simp_all add: rule_hits_def all_policy_fields policy_dist_def policy_object_def policy_kinds policy_patterns)
definition ordered_candidates :: "PackageObject list" where
  "ordered_candidates = [policy_object ''pg'' ''10.1'' CHR ''b'', policy_object ''pg'' ''10~rc1'' CHR ''d'',
      policy_object ''pg'' ''9.6'' CHR ''a'',  policy_object ''pg-debuginfo'' ''10.1'' CHR ''c'']"
lemma policy_ordered: "sortPolicyObjects (map classified policy_candidates) = map classified ordered_candidates"
  by (simp add: sortPolicyObjects_def policy_key_def policy_candidates_def ordered_candidates_def policy_object_def sort_key_def insort_key_def)


definition kept_candidate :: PackageObject where
  "kept_candidate = policy_object ''pg'' ''10.1'' CHR ''b''"

definition limited_candidates :: "PackageObject list" where
  "limited_candidates = [policy_object ''pg'' ''10~rc1'' CHR ''d'', policy_object ''pg'' ''9.6'' CHR ''a'']"

lemma policy_group:
  "limit_group text_length order_sign 1 (map classified (kept_candidate # limited_candidates)) ([], [])
     (''pg'' @ CHR 0x00 # ''x86_64'') = Inr ([classified kept_candidate], map classified limited_candidates)"
  by (simp add: limit_group_def group_key_def kept_candidate_def limited_candidates_def policy_object_def
      comparePolicyVersion_def policy_epoch CompareEVR_def policy_comparisons CompareVersions_refl
      SliceStable_def newer_first_def)

lemma policy_excluded_candidates:
  "filter (excluded_object policy_dist) (map classified ordered_candidates) = [classified (policy_object ''pg-debuginfo'' ''10.1'' CHR ''c'')]"
  "filter (\<lambda>b. \<not> excluded_object policy_dist b) (map classified ordered_candidates) = map classified (kept_candidate # limited_candidates)"
  by (simp_all only: ordered_candidates_def kept_candidate_def limited_candidates_def list.map filter.simps policy_hits
      if_True if_False not_True_eq_False not_False_eq_True)

lemma policy_group_keys:
  "sort (remdups (map group_key (map classified (kept_candidate # limited_candidates)))) = [''pg'' @ CHR 0x00 # ''x86_64'']"
  by (simp add: group_key_def kept_candidate_def limited_candidates_def policy_object_def)

lemma policy_limited_order: "sortPolicyObjects (map classified limited_candidates) = map classified limited_candidates"
  by (simp add: sortPolicyObjects_def policy_key_def limited_candidates_def policy_object_def sort_key_def insort_key_def)

lemma policy_run_newest:
  "map_sum id (\<lambda>r. (map ob_version (pr_kept r), map ob_name (pr_excluded r), map ob_version (pr_limited r)))
     (policy_run policy_fields policy_candidates) = Inr ([''10.1''], [''pg-debuginfo''], [''10~rc1'', ''9.6''])"
proof -
  have visits: "\<forall>(b::PackageObject) (i::nat). mset ((\<lambda>_ _. policy_fields) b i) = mset policy_fields" by simp
  have rules: "\<forall>rule\<in>set (ed_exclude policy_dist). valid_rule rule"
    by (rule validated_rules(2)[OF policy_dist_valid]) simp
  have limit: "ed_limit policy_dist = 1" by (simp add: policy_dist_def)
  have one: "sortPolicyObjects [b] = [b]" for b by (simp add: sortPolicyObjects_def)
  have "policy_run policy_fields policy_candidates = Inr \<lparr>pr_kept = [classified kept_candidate],
      pr_excluded = [classified (policy_object ''pg-debuginfo'' ''10.1'' CHR ''c'')],
      pr_limited = map classified limited_candidates\<rparr>"
    unfolding policy_run_def ApplyPolicy_valid[OF rules visits] policy_unique and_then_simps Let_def
      policy_ordered policy_excluded_candidates policy_group_keys limit for_each.simps policy_group
    by (simp only: one_neq_zero if_False prod.case policy_limited_order one)
  then show ?thesis by (simp add: kept_candidate_def limited_candidates_def policy_object_def)
qed

lemma comparison_text_length: "comparison (order_sign :: nat \<Rightarrow> nat \<Rightarrow> int)"
  by (rule comparison_order_sign) (rule refl)

theorem policy_exact_witness:
  "\<exists>r. policy_run policy_fields policy_candidates = Inr r \<and> map ob_version (pr_kept r) = [''10.1'']
     \<and> distinct (map ob_sha256 (pr_kept r @ pr_excluded r @ pr_limited r))"
proof -
  obtain r where r: "policy_run policy_fields policy_candidates = Inr r" "map ob_version (pr_kept r) = [''10.1'']"
    using policy_run_newest by (cases "policy_run policy_fields policy_candidates") auto
  have run: "ApplyPolicy (\<lambda>_ _. policy_fields) text_length order_sign policy_candidates policy_dist = Inr r"
    using r(1) unfolding policy_run_def .
  have check: "\<forall>i::nat. mset ((\<lambda>_. policy_fields) i) = mset policy_fields"
    and visit: "\<forall>(b::PackageObject) (i::nat). mset ((\<lambda>_ _. policy_fields) b i) = mset policy_fields" by simp_all
  have "distinct (map ob_sha256 (pr_kept r @ pr_excluded r @ pr_limited r))"
    by (rule policy_exact[of "\<lambda>_ _. policy_fields" text_length order_sign policy_candidates policy_dist r "\<lambda>_. policy_fields",
          THEN conjunct1, OF run policy_dist_valid check visit comparison_text_length])
  then show ?thesis by (intro exI[of _ r] conjI r)
qed

theorem policy_stable_witness:
  "policy_run (rev policy_fields) (rev policy_candidates @ policy_candidates) = policy_run policy_fields policy_candidates"
  unfolding policy_run_def
proof (rule policy_stable[OF policy_dist_valid])
  show "\<forall>b\<in>set policy_candidates. \<forall>c\<in>set policy_candidates. ob_sha256 b = ob_sha256 c \<longrightarrow> classified b = classified c"
    by (simp add: policy_candidates_def policy_object_def)
  show "set (rev policy_candidates @ policy_candidates) = set policy_candidates" by simp
  show "\<forall>b i. mset (rev policy_fields) = mset policy_fields" by (simp only: mset_rev simp_thms)
qed (rule allI refl)+

end
