(* ===== verification/Publication_Store.thy ===== *)
theory Publication_Store
  imports Generation_Ledger Go_Strings
begin

section \<open>The publication tables (\<open>internal/v2/state/publication.go\<close>)\<close>

text \<open>
  A target is a place a repository is published to. For every target the tables keep its binding,
  its head (the last checkpoint applied), the publication attempts with the progress of their
  views, the checkpoints with the inventory observed after each, the grace record that delays the
  cleaning of old files, the report of the files to clean and the receipts of deletions.

  The rows of a one-to-many table are kept with their owner: the views of an attempt and of a
  checkpoint, the inventory of a checkpoint, the candidates of a report. Columns no operation reads
  (creation and update times of attempts and heads) are left out. Text columns with a \<open>CHECK\<close> on
  their values are datatypes where the code ranks them; times are stored by \<open>formatTimestamp\<close>, so a
  row holds the time and the queries that read it back format it. A slice is a list; the code never
  stores a nil slice of views where the difference would show in the JSON of an identity.
\<close>

subsection \<open>Phases\<close>

datatype publication_phase =
    PhasePlanned | PhasePayload | PhaseImmutableMetadata | PhasePointerPrepared | PhaseCommitIntent
  | PhasePointerRollforward | PhaseVerified | PhaseApplied | PhaseGrace | PhaseDeletionVerified
  | PhaseRetainedReported | PhaseDone | PhaseAbandoned

fun publicationPhaseRank :: "publication_phase \<Rightarrow> int" where
  "publicationPhaseRank PhasePlanned = 0"
| "publicationPhaseRank PhasePayload = 1"
| "publicationPhaseRank PhaseImmutableMetadata = 2"
| "publicationPhaseRank PhasePointerPrepared = 3"
| "publicationPhaseRank PhaseCommitIntent = 4"
| "publicationPhaseRank PhasePointerRollforward = 5"
| "publicationPhaseRank PhaseVerified = 6"
| "publicationPhaseRank PhaseApplied = 7"
| "publicationPhaseRank PhaseGrace = 8"
| "publicationPhaseRank PhaseDeletionVerified = 9"
| "publicationPhaseRank PhaseRetainedReported = 10"
| "publicationPhaseRank PhaseDone = 11"
| "publicationPhaseRank PhaseAbandoned = -1"

text \<open>The phases the partial unique index \<open>publication_attempt_active_idx\<close> covers.\<close>

definition write_active :: "publication_phase \<Rightarrow> bool" where
  "write_active p \<longleftrightarrow> 0 \<le> publicationPhaseRank p \<and> publicationPhaseRank p \<le> 7"

definition pre_commit :: "publication_phase \<Rightarrow> bool" where
  "pre_commit p \<longleftrightarrow> 0 \<le> publicationPhaseRank p \<and> publicationPhaseRank p < publicationPhaseRank PhaseCommitIntent"

datatype view_state = ViewPending | ViewPrepared | ViewApplied | ViewVerified

fun view_rank :: "view_state \<Rightarrow> nat" where
  "view_rank ViewPending = 0"
| "view_rank ViewPrepared = 1"
| "view_rank ViewApplied = 2"
| "view_rank ViewVerified = 3"

subsection \<open>Rows\<close>

record PublicationTargetBinding =
  tb_target :: string
  tb_storage :: string
  tb_repository :: string
  tb_name :: string
  tb_provider :: string
  tb_endpoint :: string
  tb_region :: string
  tb_bucket :: string
  tb_prefix :: string
  tb_public_endpoint :: string
  tb_max_cache_ttl :: int
  tb_authoritative :: bool
  tb_single_writer :: bool
  tb_exclusive :: bool
  tb_config :: string

record PublicationTargetRebind =
  rb_binding :: PublicationTargetBinding
  rb_reason :: string
  rb_confirmed :: bool

record binding_revision =
  br_binding :: PublicationTargetBinding
  br_revision :: int
  br_reason :: string
  br_confirmed :: bool
  br_recorded_at :: string

record target_head =
  th_target :: string
  th_checkpoint :: "string option"
  th_generation :: GenerationID
  th_manifest :: "string option"
  th_revision :: int

record PublicationAttemptView =
  av_view :: string
  av_pointer :: string
  av_old :: string
  av_new :: string
  av_state :: view_state

record PublicationAttempt =
  at_identity :: string
  at_schema :: int
  at_repository :: string
  at_target :: string
  at_base :: string
  at_generation :: GenerationID
  at_manifest :: string
  at_plan :: string
  at_phase :: publication_phase
  at_commit :: bool
  at_views :: "PublicationAttemptView list"

text \<open>One record for \<open>PublicationAbandonedObject\<close>, \<open>PublicationInventoryObject\<close> and
  \<open>PublicationCandidate\<close>, which have the same fields and are converted into each other.\<close>

record PublicationObject =
  po_object_path :: string
  po_object_phase :: string
  po_object_size :: int
  po_object_sha256 :: string
  po_object_remote :: string

record PublicationCheckpointView =
  cv_view :: string
  cv_pointer :: string
  cv_remote :: string

record AppliedCheckpoint =
  cp_identity :: string
  cp_schema :: int
  cp_repository :: string
  cp_target :: string
  cp_attempt :: string
  cp_generation :: GenerationID
  cp_manifest :: string
  cp_inventory_identity :: string
  cp_complete :: bool
  cp_views :: "PublicationCheckpointView list"
  cp_inventory :: "PublicationObject list"
  cp_applied_at :: utc_time

record GraceRecord =
  gr_identity :: string
  gr_schema :: int
  gr_target :: string
  gr_checkpoint :: string
  gr_verified_at :: utc_time
  gr_not_before :: utc_time
  gr_policy :: string
  gr_state :: string

record PublicationCandidateReport =
  rp_identity :: string
  rp_schema :: int
  rp_target :: string
  rp_checkpoint :: string
  rp_inventory :: string
  rp_mode :: string
  rp_candidates :: "PublicationObject list"
  rp_created_at :: utc_time

record PublicationDeletionReceipt =
  dr_identity :: string
  dr_report :: string
  dr_object :: PublicationObject
  dr_storage_absent :: bool
  dr_public_absent :: bool
  dr_observed_at :: utc_time

record publication_tables =
  pt_bindings :: "PublicationTargetBinding list"
  pt_revisions :: "binding_revision list"
  pt_heads :: "target_head list"
  pt_attempts :: "PublicationAttempt list"
  pt_abandoned :: "(string \<times> PublicationObject) list"
  pt_checkpoints :: "AppliedCheckpoint list"
  pt_grace :: "GraceRecord list"
  pt_reports :: "PublicationCandidateReport list"
  pt_receipts :: "PublicationDeletionReceipt list"

text \<open>A transaction over these tables: an error leaves them as they were.\<close>

definition publication_tx :: "(publication_tables \<Rightarrow> (publication_tables \<times> 'a) result) \<Rightarrow> publication_tables \<Rightarrow> publication_tables \<times> 'a result" where
  "publication_tx body t = (case body t of Inl e \<Rightarrow> (t, Inl e) | Inr (t', a) \<Rightarrow> (t', Inr a))"

definition no_rows :: go_error where
  "no_rows = plain_error ''sql: no rows in result set''"

text \<open>The first row of a query that scans one row.\<close>

definition one_row :: "('a \<Rightarrow> bool) \<Rightarrow> 'a list \<Rightarrow> 'a result" where
  "one_row P rows = (case List.find P rows of None \<Rightarrow> Inl no_rows | Some r \<Rightarrow> Inr r)"

text \<open>An update that must change exactly one row.\<close>

definition update_one :: "('a \<Rightarrow> bool) \<Rightarrow> ('a \<Rightarrow> 'a) \<Rightarrow> go_error \<Rightarrow> 'a list \<Rightarrow> 'a list result" where
  "update_one P f e rows =
     (if length (filter P rows) = 1 then Inr (map (\<lambda>r. if P r then f r else r) rows) else Inl e)"

definition find_attempt :: "publication_tables \<Rightarrow> string \<Rightarrow> PublicationAttempt option" where
  "find_attempt t i = List.find (\<lambda>a. at_identity a = i) (pt_attempts t)"

definition the_attempt :: "publication_tables \<Rightarrow> string \<Rightarrow> PublicationAttempt result" where
  "the_attempt t i = one_row (\<lambda>a. at_identity a = i) (pt_attempts t)"

definition update_attempt :: "string \<Rightarrow> (PublicationAttempt \<Rightarrow> PublicationAttempt) \<Rightarrow> publication_tables \<Rightarrow> publication_tables" where
  "update_attempt i f t = t\<lparr>pt_attempts := map (\<lambda>a. if at_identity a = i then f a else a) (pt_attempts t)\<rparr>"

definition the_head :: "publication_tables \<Rightarrow> string \<Rightarrow> target_head result" where
  "the_head t target = one_row (\<lambda>h. th_target h = target) (pt_heads t)"

subsection \<open>Grace periods\<close>

text \<open>Durations are nanoseconds in 64 bits; times become nanoseconds as well where code adds to them.\<close>

definition hour_ns :: int where
  "hour_ns = 3600000000000"

definition publicationCacheGracePadding :: int where
  "publicationCacheGracePadding = 24 * hour_ns"

definition maximumPublicationCacheTTL :: int where
  "maximumPublicationCacheTTL = 9223372036854775807 - publicationCacheGracePadding"

definition publicationGraceMinimum :: "int \<Rightarrow> int result" where
  "publicationGraceMinimum ttl =
     (if ttl < 0 \<or> maximumPublicationCacheTTL < ttl then Inl (plain_error ''invalid publication cache TTL'')
      else let minimum = 30 * 24 * hour_ns; cacheMinimum = ttl + publicationCacheGracePadding
           in Inr (if minimum < cacheMinimum then cacheMinimum else minimum))"

definition time_ns :: "utc_time \<Rightarrow> int" where
  "time_ns t = unix_like_seconds t * 1000000000 + int (t_nanos t)"

definition effectivePublicationGraceDeadline :: "string \<Rightarrow> string \<Rightarrow> int \<Rightarrow> int result" where
  "effectivePublicationGraceDeadline historicalText appliedText ttl =
     (case (parse_timestamp historicalText, parse_timestamp appliedText, publicationGraceMinimum ttl) of
        (Some historical, Some applied, Inr minimum) \<Rightarrow>
          (let currentPolicy = time_ns applied + minimum
           in Inr (if time_ns historical < currentPolicy then currentPolicy else time_ns historical))
      | _ \<Rightarrow> Inl (GoError [ErrSchema] ''invalid publication grace deadline''))"

subsection \<open>Identities\<close>

definition publicationIdentity :: "string \<Rightarrow> string list \<Rightarrow> string" where
  "publicationIdentity domain parts = sha256_hex (domain @ concat (map (\<lambda>f. CHR 0x00 # f) parts))"

definition publicationSemanticIdentity :: "string \<Rightarrow> string \<Rightarrow> string" where
  "publicationSemanticIdentity domain json = sha256_hex (domain @ CHR 0x00 # json)"

definition json_bool :: "bool \<Rightarrow> string" where
  "json_bool b = (if b then ''true'' else ''false'')"

definition PublicationTargetConfigIdentity :: "PublicationTargetBinding \<Rightarrow> string" where
  "PublicationTargetConfigIdentity b = publicationSemanticIdentity ''sow/publication-target-config/v1'' (json_object
     [(''repository_id'', Some (json_str (tb_repository b))), (''target_name'', Some (json_str (tb_name b))),
      (''provider'', Some (json_str (tb_provider b))), (''endpoint'', Some (json_str (tb_endpoint b))),
      (''region'', Some (json_str (tb_region b))), (''bucket'', Some (json_str (tb_bucket b))),
      (''prefix'', Some (json_str (tb_prefix b))), (''public_endpoint'', Some (json_str (tb_public_endpoint b))),
      (''max_cache_ttl_ns'', Some (json_int (tb_max_cache_ttl b))),
      (''authoritative_workspace'', Some (json_bool (tb_authoritative b))),
      (''single_writer'', Some (json_bool (tb_single_writer b))),
      (''exclusive_write_authority'', Some (json_bool (tb_exclusive b)))])"

definition attempt_view_json :: "PublicationAttemptView \<Rightarrow> string" where
  "attempt_view_json v = json_object
     [(''view_id'', Some (json_str (av_view v))), (''pointer_path'', Some (json_str (av_pointer v))),
      (''old_identity'', omit_empty (av_old v)), (''new_identity'', Some (json_str (av_new v)))]"

definition publicationAttemptSemanticIdentity :: "PublicationAttempt \<Rightarrow> string" where
  "publicationAttemptSemanticIdentity a = publicationSemanticIdentity ''sow/publication-attempt/v1'' (json_object
     [(''repository_id'', Some (json_str (at_repository a))), (''target_identity'', Some (json_str (at_target a))),
      (''base_checkpoint'', omit_empty (at_base a)),
      (''target_generation'', Some (json_str (GenerationString (at_generation a)))),
      (''manifest_sha256'', Some (json_str (at_manifest a))), (''plan_sha256'', Some (json_str (at_plan a))),
      (''views'', Some (json_array (map attempt_view_json (at_views a))))])"

definition object_json :: "PublicationObject \<Rightarrow> string" where
  "object_json o' = json_object
     [(''path'', Some (json_str (po_object_path o'))), (''phase'', Some (json_str (po_object_phase o'))),
      (''size'', Some (json_int (po_object_size o'))), (''sha256'', Some (json_str (po_object_sha256 o'))),
      (''remote_identity'', Some (json_str (po_object_remote o')))]"

definition publicationInventoryIdentity :: "PublicationObject list \<Rightarrow> string" where
  "publicationInventoryIdentity inventory =
     publicationSemanticIdentity ''sow/publication-inventory/v1'' (json_array (map object_json inventory))"

definition checkpoint_view_json :: "PublicationCheckpointView \<Rightarrow> string" where
  "checkpoint_view_json v = json_object
     [(''view_id'', Some (json_str (cv_view v))), (''pointer_path'', Some (json_str (cv_pointer v))),
      (''remote_identity'', Some (json_str (cv_remote v)))]"

definition appliedCheckpointSemanticIdentity :: "AppliedCheckpoint \<Rightarrow> string" where
  "appliedCheckpointSemanticIdentity c = publicationSemanticIdentity ''sow/applied-checkpoint/v1'' (json_object
     [(''repository_id'', Some (json_str (cp_repository c))), (''target_identity'', Some (json_str (cp_target c))),
      (''attempt_identity'', Some (json_str (cp_attempt c))),
      (''generation'', Some (json_str (GenerationString (cp_generation c)))),
      (''manifest_sha256'', Some (json_str (cp_manifest c))),
      (''inventory_identity'', Some (json_str (cp_inventory_identity c))),
      (''inventory_complete'', Some (json_bool (cp_complete c))),
      (''views'', Some (json_array (map checkpoint_view_json (cp_views c))))])"

definition graceSemanticIdentity :: "GraceRecord \<Rightarrow> string" where
  "graceSemanticIdentity g = publicationSemanticIdentity ''sow/grace-record/v1'' (json_object
     [(''target_identity'', Some (json_str (gr_target g))), (''checkpoint_identity'', Some (json_str (gr_checkpoint g))),
      (''verified_at'', Some (json_str (formatTimestamp (gr_verified_at g)))),
      (''not_before'', Some (json_str (formatTimestamp (gr_not_before g)))),
      (''cache_policy_identity'', Some (json_str (gr_policy g)))])"

definition candidateReportSemanticIdentity :: "PublicationCandidateReport \<Rightarrow> string" where
  "candidateReportSemanticIdentity r = publicationSemanticIdentity ''sow/publication-candidate-report/v1'' (json_object
     [(''target_identity'', Some (json_str (rp_target r))), (''checkpoint_identity'', Some (json_str (rp_checkpoint r))),
      (''inventory_identity'', Some (json_str (rp_inventory r))), (''mode'', Some (json_str (rp_mode r))),
      (''candidates'', Some (json_array (map object_json (rp_candidates r))))])"

definition deletionReceiptSemanticIdentity :: "PublicationDeletionReceipt \<Rightarrow> string" where
  "deletionReceiptSemanticIdentity r = publicationSemanticIdentity ''sow/publication-deletion-receipt/v1'' (json_object
     [(''report_identity'', Some (json_str (dr_report r))), (''path'', Some (json_str (po_object_path (dr_object r)))),
      (''phase'', Some (json_str (po_object_phase (dr_object r)))), (''size'', Some (json_int (po_object_size (dr_object r)))),
      (''sha256'', Some (json_str (po_object_sha256 (dr_object r)))),
      (''remote_identity'', Some (json_str (po_object_remote (dr_object r)))),
      (''storage_absent'', Some (json_bool (dr_storage_absent r))), (''public_absent'', Some (json_bool (dr_public_absent r))),
      (''observed_at'', Some (json_str (formatTimestamp (dr_observed_at r))))])"

definition acceptSemanticIdentity :: "string \<Rightarrow> string \<Rightarrow> string result" where
  "acceptSemanticIdentity provided computed =
     (if provided \<noteq> '''' \<and> provided \<noteq> computed
      then Inl (GoError [ErrConflict] ''identity does not match canonical semantic bytes'') else Inr computed)"

subsection \<open>Validation\<close>

text \<open>A loop over keyed entries that must be valid and strictly ascending; the first key is compared
  with the empty text only where the code does.\<close>

fun ascending_from :: "bool \<Rightarrow> string \<Rightarrow> ('a \<Rightarrow> string) \<Rightarrow> ('a \<Rightarrow> bool) \<Rightarrow> 'a list \<Rightarrow> bool" where
  "ascending_from first previous key valid [] = True"
| "ascending_from first previous key valid (x # xs) =
     (if \<not> valid x \<or> (if first then previous \<noteq> '''' \<and> key x \<le> previous else key x \<le> previous)
      then False else ascending_from first (key x) key valid xs)"

definition remote_unsafe :: "string" where
  "remote_unsafe = [CHR 0x00, CHR 0x0D, CHR 0x0A]"

definition content_phase :: "string \<Rightarrow> bool" where
  "content_phase phase \<longleftrightarrow> phase = ''payload'' \<or> phase = ''metadata''"

definition valid_object :: "PublicationObject \<Rightarrow> bool" where
  "valid_object o' \<longleftrightarrow>
     validPublicationPath (po_object_path o') \<and> 0 \<le> po_object_size o' \<and> validSHA256Text (po_object_sha256 o')
     \<and> po_object_remote o' \<noteq> ''''"

definition sortedAbandonedObjects :: "PublicationObject list \<Rightarrow> bool" where
  "sortedAbandonedObjects objects =
     ascending_from False '''' po_object_path
       (\<lambda>o'. valid_object o' \<and> content_phase (po_object_phase o') \<and> length (po_object_remote o') \<le> 4096
           \<and> \<not> ContainsAny (po_object_remote o') remote_unsafe) objects"

definition view_key :: "string \<Rightarrow> string \<Rightarrow> string" where
  "view_key view pointer = view @ CHR 0x00 # pointer"

definition sortedAttemptViews :: "PublicationAttemptView list \<Rightarrow> bool" where
  "sortedAttemptViews views =
     ascending_from True '''' (\<lambda>v. view_key (av_view v) (av_pointer v))
       (\<lambda>v. validPublicationPath (av_view v) \<and> validPublicationPath (av_pointer v) \<and> validSHA256Text (av_new v)) views"

definition sortedCheckpointViews :: "PublicationCheckpointView list \<Rightarrow> bool" where
  "sortedCheckpointViews views =
     ascending_from True '''' (\<lambda>v. view_key (cv_view v) (cv_pointer v))
       (\<lambda>v. validPublicationPath (cv_view v) \<and> validPublicationPath (cv_pointer v) \<and> cv_remote v \<noteq> '''') views"

definition sortedInventory :: "PublicationObject list \<Rightarrow> bool" where
  "sortedInventory objects =
     ascending_from False '''' po_object_path
       (\<lambda>o'. valid_object o' \<and> (content_phase (po_object_phase o') \<or> po_object_phase o' = ''pointer'')) objects"

definition sortedCandidates :: "PublicationObject list \<Rightarrow> bool" where
  "sortedCandidates objects =
     ascending_from False '''' po_object_path (\<lambda>o'. valid_object o' \<and> content_phase (po_object_phase o')) objects"

definition validatePublicationAttempt :: "PublicationAttempt \<Rightarrow> unit result" where
  "validatePublicationAttempt attempt =
     (if at_schema attempt \<noteq> 1 \<or> \<not> IsCanonicalRepositoryID (at_repository attempt) \<or> \<not> validSHA256Text (at_target attempt)
         \<or> at_base attempt \<noteq> '''' \<and> \<not> validSHA256Text (at_base attempt) \<or> at_generation attempt = 0
         \<or> \<not> validSHA256Text (at_manifest attempt) \<or> \<not> validSHA256Text (at_plan attempt)
         \<or> \<not> sortedAttemptViews (at_views attempt)
      then Inl (plain_error ''invalid publication attempt'')
      else if at_phase attempt = PhaseAbandoned
      then (if at_commit attempt then Inl (plain_error ''publication attempt phase/commit intent mismatch'') else Inr ())
      else let rank = publicationPhaseRank (at_phase attempt);
               preCommit = (0 \<le> rank \<and> rank < publicationPhaseRank PhaseCommitIntent)
           in if rank < 0 \<or> preCommit = at_commit attempt
              then Inl (plain_error ''publication attempt phase/commit intent mismatch'') else Inr ())"

definition validateAppliedCheckpoint :: "AppliedCheckpoint \<Rightarrow> unit result" where
  "validateAppliedCheckpoint c =
     (if cp_schema c \<noteq> 1 \<or> \<not> cp_complete c \<or> \<not> IsCanonicalRepositoryID (cp_repository c)
         \<or> \<not> validSHA256Text (cp_target c) \<or> \<not> validSHA256Text (cp_attempt c) \<or> cp_generation c = 0
         \<or> \<not> validSHA256Text (cp_manifest c) \<or> \<not> sortedCheckpointViews (cp_views c)
         \<or> \<not> sortedInventory (cp_inventory c) \<or> cp_applied_at c = zero_time
      then Inl (plain_error ''invalid applied checkpoint'') else Inr ())"

text \<open>\<open>sameAbandonedObjects\<close> and \<open>samePublicationCandidates\<close> compare two lists entry by entry.\<close>

definition same_objects :: "PublicationObject list \<Rightarrow> PublicationObject list \<Rightarrow> bool" where
  "same_objects left right \<longleftrightarrow> length left = length right \<and> list_all (\<lambda>(x, y). x = y) (zip left right)"

text \<open>A Go map filled from the inventory: the last entry of a path stays.\<close>

definition inventoryContainsManifest :: "PublicationObject list \<Rightarrow> GenerationFile list \<Rightarrow> bool" where
  "inventoryContainsManifest inventory manifest =
     list_all (\<lambda>file. case map_of (rev (map (\<lambda>o'. (po_object_path o', o')) inventory)) (gf_path file) of
          None \<Rightarrow> False
        | Some o' \<Rightarrow> po_object_phase o' = gf_phase file \<and> po_object_size o' = gf_size file
            \<and> po_object_sha256 o' = gf_sha256 file) manifest"

definition checkpointViewsMatchVerifiedAttempt ::
    "PublicationCheckpointView list \<Rightarrow> PublicationAttemptView list \<Rightarrow> bool" where
  "checkpointViewsMatchVerifiedAttempt checkpoint attempt \<longleftrightarrow>
     length checkpoint = length attempt
     \<and> list_all (\<lambda>(c, a). cv_view c = av_view a \<and> cv_pointer c = av_pointer a \<and> cv_remote c \<noteq> ''''
                    \<and> av_state a = ViewVerified) (zip checkpoint attempt)"

definition requirePublicationBindingTx :: "publication_tables \<Rightarrow> string \<Rightarrow> string \<Rightarrow> unit result" where
  "requirePublicationBindingTx t repository target =
     ensure (length (filter (\<lambda>b. tb_repository b = repository \<and> tb_target b = target) (pt_bindings t)) = 1)
       (GoError [ErrNotFound] ''publication target binding'')"

definition publicationPrefixesOverlap :: "string \<Rightarrow> string \<Rightarrow> bool" where
  "publicationPrefixesOverlap left right \<longleftrightarrow>
     left = '''' \<or> right = '''' \<or> left = right \<or> HasPrefix left (right @ ''/'') \<or> HasPrefix right (left @ ''/'')"

lemma ascending_strict:
  "ascending_from False previous key valid xs \<longleftrightarrow> (\<forall>x\<in>set xs. valid x) \<and> sorted_wrt (<) (previous # map key xs)"
proof (induction xs arbitrary: previous)
  case (Cons x xs)
  then show ?case by (auto simp: not_le)
qed simp

lemma ascending_lenient:
  assumes "\<And>x. key x \<noteq> ''''"
  shows "ascending_from True previous key valid xs \<longleftrightarrow>
    (\<forall>x\<in>set xs. valid x) \<and> sorted_wrt (<) (if previous = '''' then map key xs else previous # map key xs)"
proof (induction xs arbitrary: previous)
  case (Cons x xs)
  then show ?case using assms[of x] by (auto simp: not_le)
qed simp

lemma sorted_wrt_less_distinct: "sorted_wrt (<) (xs :: 'a::order list) \<Longrightarrow> distinct xs"
  by (induction xs) auto

lemma sorted_paths_distinct:
  "sortedInventory objects \<Longrightarrow> distinct (map po_object_path objects)"
  "sortedCandidates objects \<Longrightarrow> distinct (map po_object_path objects)"
  "sortedAbandonedObjects objects \<Longrightarrow> distinct (map po_object_path objects)"
  unfolding sortedInventory_def sortedCandidates_def sortedAbandonedObjects_def ascending_strict
  using sorted_wrt_less_distinct[of "map po_object_path objects"] by simp_all

lemma same_objects_eq [simp]: "same_objects left right \<longleftrightarrow> left = right"
  by (auto simp: same_objects_def list_eq_iff_zip_eq list_all_iff set_zip)

end
