(* ===== verification/Publication_Attempts.thy ===== *)
theory Publication_Attempts
  imports Publication_Store
begin

section \<open>Targets and publication attempts (\<open>internal/v2/state/publication.go\<close>)\<close>

text \<open>
  Binding a target and changing its binding, and the first half of the life of an attempt: it is
  planned, its payload and metadata are uploaded, its pointers are prepared, the intent to commit is
  recorded, and its views are rolled forward until all are verified; before the intent it can be
  abandoned, and an abandoned attempt can be planned again.
\<close>

subsection \<open>Bindings\<close>

definition canonicalPublicationTargetBinding :: "database \<Rightarrow> PublicationTargetBinding \<Rightarrow> PublicationTargetBinding result" where
  "canonicalPublicationTargetBinding db b =
     and_then (repositoryIdentityOn db) (\<lambda>identity.
     and_then (acceptSemanticIdentity (tb_storage b)
       (publicationIdentity ''sow/target-storage/v1'' [tb_provider b, tb_endpoint b, tb_region b, tb_bucket b])) (\<lambda>storage.
     and_then (acceptSemanticIdentity (tb_target b) (publicationIdentity ''sow/target/v1'' [storage, tb_prefix b])) (\<lambda>target.
     and_then (acceptSemanticIdentity (tb_config b)
       (PublicationTargetConfigIdentity (b\<lparr>tb_storage := storage, tb_target := target\<rparr>))) (\<lambda>config.
     let binding = b\<lparr>tb_storage := storage, tb_target := target, tb_config := config\<rparr>
     in if tb_repository binding \<noteq> id_repository_id identity \<or> \<not> validSHA256Text storage \<or> \<not> validSHA256Text target
           \<or> \<not> validSHA256Text config \<or> tb_name binding = '''' \<or> tb_endpoint binding = ''''
           \<or> tb_public_endpoint binding = '''' \<or> tb_max_cache_ttl binding < 0
           \<or> maximumPublicationCacheTTL < tb_max_cache_ttl binding \<or> \<not> tb_authoritative binding
           \<or> \<not> tb_single_writer binding \<or> \<not> tb_exclusive binding
        then Inl (plain_error ''invalid publication target binding'')
        else if tb_provider binding \<noteq> ''filesystem'' \<and> tb_provider binding \<noteq> ''r2''
        then Inl (plain_error ''invalid publication target provider'')
        else Inr binding))))"

definition publicationTargetBindingTx :: "publication_tables \<Rightarrow> string \<Rightarrow> PublicationTargetBinding option result" where
  "publicationTargetBindingTx t target =
     (case List.find (\<lambda>b. tb_target b = target) (pt_bindings t) of
        None \<Rightarrow> Inr None
      | Some b \<Rightarrow>
          if tb_storage b \<noteq> publicationIdentity ''sow/target-storage/v1'' [tb_provider b, tb_endpoint b, tb_region b, tb_bucket b]
             \<or> tb_target b \<noteq> publicationIdentity ''sow/target/v1'' [tb_storage b, tb_prefix b]
             \<or> tb_config b \<noteq> PublicationTargetConfigIdentity b
          then Inl (GoError [ErrConflict] ''publication target binding semantic identity is corrupt'')
          else Inr (Some b))"

definition appendPublicationTargetBindingRevisionTx ::
    "string \<Rightarrow> PublicationTargetBinding \<Rightarrow> int \<Rightarrow> string \<Rightarrow> bool \<Rightarrow> publication_tables \<Rightarrow> publication_tables result" where
  "appendPublicationTargetBindingRevisionTx now b revision reason confirmed t =
     (if list_ex (\<lambda>r. tb_target (br_binding r) = tb_target b \<and> br_revision r = revision) (pt_revisions t)
      then Inl (plain_error ''UNIQUE constraint failed: publication_target_binding_revisions'')
      else Inr (t\<lparr>pt_revisions := pt_revisions t
             @ [\<lparr>br_binding = b, br_revision = revision, br_reason = reason, br_confirmed = confirmed, br_recorded_at = now\<rparr>]\<rparr>))"

definition bind_target_tx :: "string \<Rightarrow> PublicationTargetBinding \<Rightarrow> publication_tables \<Rightarrow> (publication_tables \<times> unit) result" where
  "bind_target_tx now binding t =
     and_then (publicationTargetBindingTx t (tb_target binding)) (\<lambda>found.
     case found of
       Some stored \<Rightarrow>
         if stored = binding then Inr (t, ())
         else Inl (GoError [ErrConflict] ''publication target is already bound with different mutable configuration'')
     | None \<Rightarrow>
         if list_ex (\<lambda>b. tb_name b = tb_name binding) (pt_bindings t)
         then Inl (GoError [ErrConflict] ''publication target name is already bound to different storage or prefix'')
         else if list_ex (\<lambda>b. tb_storage b = tb_storage binding \<and> tb_target b \<noteq> tb_target binding
                   \<and> publicationPrefixesOverlap (tb_prefix b) (tb_prefix binding)) (pt_bindings t)
         then Inl (GoError [ErrConflict] ''publication targets have overlapping prefixes'')
         else if list_ex (\<lambda>h. th_target h = tb_target binding) (pt_heads t)
         then Inl (plain_error ''UNIQUE constraint failed: publication_target_heads'')
         else and_then (appendPublicationTargetBindingRevisionTx now binding 1 ''initial_bind'' False
                (t\<lparr>pt_bindings := pt_bindings t @ [binding],
                   pt_heads := pt_heads t @ [\<lparr>th_target = tb_target binding, th_checkpoint = None,
                     th_generation = 0, th_manifest = None, th_revision = 0\<rparr>]\<rparr>)) (\<lambda>t. Inr (t, ())))"

definition BindPublicationTarget ::
    "string \<Rightarrow> database \<Rightarrow> PublicationTargetBinding \<Rightarrow> publication_tables \<Rightarrow> publication_tables \<times> unit result" where
  "BindPublicationTarget now db b t =
     (case canonicalPublicationTargetBinding db b of
        Inl e \<Rightarrow> (t, Inl e)
      | Inr binding \<Rightarrow> publication_tx (bind_target_tx now binding) t)"

definition sameImmutablePublicationTargetBinding :: "PublicationTargetBinding \<Rightarrow> PublicationTargetBinding \<Rightarrow> bool" where
  "sameImmutablePublicationTargetBinding l r \<longleftrightarrow>
     tb_target l = tb_target r \<and> tb_storage l = tb_storage r \<and> tb_repository l = tb_repository r
     \<and> tb_provider l = tb_provider r \<and> tb_endpoint l = tb_endpoint r \<and> tb_region l = tb_region r
     \<and> tb_bucket l = tb_bucket r \<and> tb_prefix l = tb_prefix r \<and> tb_authoritative l = tb_authoritative r
     \<and> tb_single_writer l = tb_single_writer r \<and> tb_exclusive l = tb_exclusive r"

text \<open>The attempts whose checkpoint a report of the target is about.\<close>

definition report_attempts :: "publication_tables \<Rightarrow> string \<Rightarrow> (PublicationCandidateReport \<Rightarrow> bool) \<Rightarrow> PublicationAttempt list" where
  "report_attempts t target P =
     concat (map (\<lambda>r. concat (map (\<lambda>c. filter (\<lambda>a. at_identity a = cp_attempt c) (pt_attempts t))
                                (filter (\<lambda>c. cp_identity c = rp_checkpoint r) (pt_checkpoints t))))
       (filter (\<lambda>r. rp_target r = target \<and> P r) (pt_reports t)))"

definition hasPendingPublicationMaintenanceTx :: "publication_tables \<Rightarrow> string \<Rightarrow> bool" where
  "hasPendingPublicationMaintenanceTx t target =
     list_ex (\<lambda>a. at_phase a \<noteq> PhaseDone) (report_attempts t target (\<lambda>_. True))"

definition hasActiveConditionalDeleteWorkflowTx :: "publication_tables \<Rightarrow> string \<Rightarrow> bool" where
  "hasActiveConditionalDeleteWorkflowTx t target =
     list_ex (\<lambda>a. at_phase a \<noteq> PhaseDone) (report_attempts t target (\<lambda>r. rp_mode r = ''conditional_delete''))"

definition next_revision :: "publication_tables \<Rightarrow> string \<Rightarrow> int" where
  "next_revision t target =
     fold max (map br_revision (filter (\<lambda>r. tb_target (br_binding r) = target) (pt_revisions t))) 0 + 1"

definition rebind_target_tx ::
    "string \<Rightarrow> PublicationTargetBinding \<Rightarrow> string \<Rightarrow> publication_tables \<Rightarrow> (publication_tables \<times> unit) result" where
  "rebind_target_tx now binding reason t =
     and_then (publicationTargetBindingTx t (tb_target binding)) (\<lambda>found.
     case found of
       None \<Rightarrow>
         if list_ex (\<lambda>b. tb_name b = tb_name binding) (pt_bindings t)
         then Inl (GoError [ErrConflict] ''publication target storage or prefix changed; configure a new target'')
         else Inl (GoError [ErrNotFound] ''publication target is not bound'')
     | Some stored \<Rightarrow>
         if \<not> sameImmutablePublicationTargetBinding stored binding
         then Inl (GoError [ErrConflict] ''publication target storage or prefix changed; configure a new target'')
         else if stored = binding then Inr (t, ())
         else if tb_max_cache_ttl stored \<noteq> tb_max_cache_ttl binding
              \<and> (hasPendingPublicationMaintenanceTx t (tb_target binding)
                 \<or> hasActiveConditionalDeleteWorkflowTx t (tb_target binding))
         then Inl (GoError [ErrConflict] ''max_cache_ttl cannot change while target maintenance is pending'')
         else if tb_provider stored = ''filesystem'' \<and> tb_public_endpoint stored \<noteq> tb_public_endpoint binding
              \<and> hasActiveConditionalDeleteWorkflowTx t (tb_target binding)
         then Inl (GoError [ErrConflict] ''filesystem public_endpoint cannot change during conditional-delete maintenance'')
         else if list_ex (\<lambda>b. tb_target b \<noteq> tb_target stored \<and> tb_name b = tb_name binding) (pt_bindings t)
         then Inl (GoError [ErrConflict] ''rebind publication target'')
         else and_then (update_one (\<lambda>b. tb_target b = tb_target stored \<and> tb_config b = tb_config stored)
                 (\<lambda>b. b\<lparr>tb_name := tb_name binding, tb_public_endpoint := tb_public_endpoint binding,
                        tb_max_cache_ttl := tb_max_cache_ttl binding, tb_config := tb_config binding\<rparr>)
                 (GoError [ErrConflict] ''publication target changed during rebind'') (pt_bindings t)) (\<lambda>bindings.
              and_then (appendPublicationTargetBindingRevisionTx now binding (next_revision t (tb_target binding)) reason True
                 (t\<lparr>pt_bindings := bindings\<rparr>)) (\<lambda>t. Inr (t, ()))))"

definition RebindPublicationTarget ::
    "string \<Rightarrow> database \<Rightarrow> PublicationTargetRebind \<Rightarrow> publication_tables \<Rightarrow> publication_tables \<times> unit result" where
  "RebindPublicationTarget now db input t =
     (if \<not> rb_confirmed input
      then (t, Inl (GoError [ErrConflict] ''publication target rebind requires explicit operator confirmation''))
      else if rb_reason input = '''' \<or> rb_reason input \<noteq> TrimSpace (rb_reason input) \<or> 256 < length (rb_reason input)
      then (t, Inl (plain_error ''invalid publication target rebind reason''))
      else case canonicalPublicationTargetBinding db (rb_binding input) of
             Inl e \<Rightarrow> (t, Inl e)
           | Inr binding \<Rightarrow> publication_tx (rebind_target_tx now binding (rb_reason input)) t)"

subsection \<open>Planning an attempt\<close>

definition publicationAttemptSemanticMatchTx :: "publication_tables \<Rightarrow> PublicationAttempt \<Rightarrow> bool \<times> bool" where
  "publicationAttemptSemanticMatchTx t input =
     (case find_attempt t (at_identity input) of
        None \<Rightarrow> (False, False)
      | Some stored \<Rightarrow>
          (True, publicationAttemptSemanticIdentity stored = publicationAttemptSemanticIdentity input))"

text \<open>\<open>head.Valid != (attempt.BaseCheckpoint != "") || head.Valid && head.String != attempt.BaseCheckpoint\<close>\<close>

definition base_differs :: "target_head \<Rightarrow> string \<Rightarrow> bool" where
  "base_differs head base \<longleftrightarrow>
     (case th_checkpoint head of None \<Rightarrow> base \<noteq> '''' | Some c \<Rightarrow> base = '''' \<or> c \<noteq> base)"

text \<open>The partial unique index on the write-active attempts of a target.\<close>

definition active_elsewhere :: "publication_tables \<Rightarrow> string \<Rightarrow> string \<Rightarrow> bool" where
  "active_elsewhere t target i =
     list_ex (\<lambda>a. at_target a = target \<and> write_active (at_phase a) \<and> at_identity a \<noteq> i) (pt_attempts t)"

definition unique_attempt_error :: go_error where
  "unique_attempt_error = plain_error ''record publication attempt: UNIQUE constraint failed''"

definition resurrect_attempt :: "PublicationAttempt \<Rightarrow> publication_tables \<Rightarrow> publication_tables result" where
  "resurrect_attempt attempt t =
     and_then (the_head t (at_target attempt)) (\<lambda>head.
     if base_differs head (at_base attempt)
     then Inl (GoError [ErrConflict] ''abandoned publication attempt base checkpoint differs from target head'')
     else if active_elsewhere t (at_target attempt) (at_identity attempt) then Inl unique_attempt_error
     else Inr (update_attempt (at_identity attempt)
            (\<lambda>a. a\<lparr>at_phase := PhasePlanned, at_views := map (\<lambda>v. v\<lparr>av_state := ViewPending\<rparr>) (at_views a)\<rparr>)
            (t\<lparr>pt_abandoned := filter (\<lambda>(i, _). i \<noteq> at_identity attempt) (pt_abandoned t)\<rparr>)))"

definition insert_attempt :: "database \<Rightarrow> PublicationAttempt \<Rightarrow> publication_tables \<Rightarrow> publication_tables result" where
  "insert_attempt db attempt t =
     and_then (the_head t (at_target attempt)) (\<lambda>head.
     if base_differs head (at_base attempt)
     then Inl (GoError [ErrConflict] ''publication attempt base checkpoint differs from target head'')
     else if find_generation db (at_generation attempt) = None
     then Inl (plain_error ''record publication attempt: FOREIGN KEY constraint failed'')
     else if list_ex (\<lambda>a. at_target a = at_target attempt \<and> at_generation a = at_generation attempt
               \<and> at_plan a = at_plan attempt) (pt_attempts t)
          \<or> active_elsewhere t (at_target attempt) (at_identity attempt)
     then Inl unique_attempt_error
     else Inr (t\<lparr>pt_attempts := pt_attempts t @ [attempt]\<rparr>))"

definition put_attempt_tx :: "database \<Rightarrow> PublicationAttempt \<Rightarrow> publication_tables \<Rightarrow> (publication_tables \<times> string) result" where
  "put_attempt_tx db attempt t =
     and_then (requirePublicationBindingTx t (at_repository attempt) (at_target attempt)) (\<lambda>_.
     case publicationAttemptSemanticMatchTx t attempt of
       (exists, same) \<Rightarrow>
         if exists then
           (if \<not> same then Inl (GoError [ErrConflict] ''publication attempt identity has different semantic bytes'')
            else and_then (the_attempt t (at_identity attempt)) (\<lambda>row.
              if at_phase row = PhaseAbandoned \<and> \<not> at_commit row
              then and_then (resurrect_attempt attempt t) (\<lambda>t. Inr (t, at_identity attempt))
              else Inr (t, at_identity attempt)))
         else and_then (insert_attempt db attempt t) (\<lambda>t. Inr (t, at_identity attempt)))"

text \<open>The call answers the identity it computed and stored in its argument.\<close>

definition PutPublicationAttempt :: "database \<Rightarrow> PublicationAttempt \<Rightarrow> publication_tables \<Rightarrow> publication_tables \<times> string result" where
  "PutPublicationAttempt db input t =
     (let attempt = (if at_schema input = 0 then input\<lparr>at_schema := 1\<rparr> else input)
      in case validatePublicationAttempt attempt of
           Inl e \<Rightarrow> (t, Inl e)
         | Inr _ \<Rightarrow>
             if at_phase attempt \<noteq> PhasePlanned \<or> at_commit attempt
             then (t, Inl (plain_error ''new publication attempt must start planned without commit intent''))
             else if list_ex (\<lambda>v. av_state v \<noteq> ViewPending) (at_views attempt)
             then (t, Inl (plain_error ''new publication attempt views must start pending''))
             else case acceptSemanticIdentity (at_identity attempt) (publicationAttemptSemanticIdentity attempt) of
                    Inl e \<Rightarrow> (t, Inl e)
                  | Inr identity \<Rightarrow> publication_tx (put_attempt_tx db (attempt\<lparr>at_identity := identity\<rparr>)) t)"

subsection \<open>Abandoning an attempt\<close>

definition publicationAbandonedObjectsTx :: "publication_tables \<Rightarrow> string \<Rightarrow> PublicationObject list" where
  "publicationAbandonedObjectsTx t i =
     sort_key po_object_path (map snd (filter (\<lambda>(j, _). j = i) (pt_abandoned t)))"

definition base_paths :: "publication_tables \<Rightarrow> string \<Rightarrow> string list" where
  "base_paths t base =
     (if base = '''' then []
      else map po_object_path (concat (map cp_inventory (filter (\<lambda>c. cp_identity c = base) (pt_checkpoints t)))))"

definition abandon_object ::
    "database \<Rightarrow> string \<Rightarrow> GenerationID \<Rightarrow> string list \<Rightarrow> publication_tables \<Rightarrow> PublicationObject \<Rightarrow> publication_tables result" where
  "abandon_object db i generation basePaths t o' =
     (if po_object_path o' \<in> set basePaths
      then Inl (GoError [ErrConflict] ''abandoned object was not add-only'')
      else if length (filter (\<lambda>(g, file). g = generation \<and> gf_path file = po_object_path o'
                \<and> gf_phase file = po_object_phase o' \<and> gf_size file = po_object_size o'
                \<and> gf_sha256 file = po_object_sha256 o') (db_generation_files db)) \<noteq> 1
      then Inl (GoError [ErrConflict] ''abandoned object is outside target Generation'')
      else Inr (t\<lparr>pt_abandoned := pt_abandoned t @ [(i, o')]\<rparr>))"

definition abandon_attempt_tx ::
    "database \<Rightarrow> string \<Rightarrow> PublicationObject list \<Rightarrow> publication_tables \<Rightarrow> (publication_tables \<times> unit) result" where
  "abandon_attempt_tx db i objects t =
     and_then (the_attempt t i) (\<lambda>row.
     if at_phase row = PhaseAbandoned \<and> \<not> at_commit row
     then (if \<not> same_objects (publicationAbandonedObjectsTx t i) objects
           then Inl (GoError [ErrConflict] ''abandoned publication evidence changed'') else Inr (t, ()))
     else if at_commit row \<or> at_phase row \<notin> {PhasePlanned, PhasePayload, PhaseImmutableMetadata, PhasePointerPrepared}
     then Inl (GoError [ErrTransition] ''publication attempt can no longer be abandoned'')
     else and_then (for_each (abandon_object db i (at_generation row) (base_paths t (at_base row)))
              (t\<lparr>pt_abandoned := filter (\<lambda>(j, _). j \<noteq> i) (pt_abandoned t)\<rparr>) objects) (\<lambda>t.
          and_then (update_one (\<lambda>a. at_identity a = i \<and> \<not> at_commit a \<and> pre_commit (at_phase a))
              (\<lambda>a. a\<lparr>at_phase := PhaseAbandoned\<rparr>)
              (GoError [ErrConflict] ''publication attempt changed while abandoning'') (pt_attempts t)) (\<lambda>attempts.
            Inr (t\<lparr>pt_attempts := attempts\<rparr>, ()))))"

definition AbandonPublicationAttempt ::
    "database \<Rightarrow> string \<Rightarrow> PublicationObject list \<Rightarrow> publication_tables \<Rightarrow> publication_tables \<times> unit result" where
  "AbandonPublicationAttempt db i objects t =
     (if \<not> validSHA256Text i \<or> \<not> sortedAbandonedObjects objects
      then (t, Inl (plain_error ''invalid abandoned publication evidence''))
      else publication_tx (abandon_attempt_tx db i objects) t)"

subsection \<open>Progress\<close>

definition commit_intent_tx :: "string \<Rightarrow> publication_tables \<Rightarrow> (publication_tables \<times> unit) result" where
  "commit_intent_tx i t =
     and_then (the_attempt t i) (\<lambda>row.
     if at_commit row \<and> publicationPhaseRank PhaseCommitIntent \<le> publicationPhaseRank (at_phase row) then Inr (t, ())
     else if at_phase row \<noteq> PhasePointerPrepared \<or> at_commit row \<or> list_ex (\<lambda>v. av_state v \<noteq> ViewPrepared) (at_views row)
     then Inl (GoError [ErrTransition] ''publication attempt is not ready for commit intent'')
     else Inr (update_attempt i (\<lambda>a. a\<lparr>at_phase := PhaseCommitIntent, at_commit := True\<rparr>) t, ()))"

definition SetPublicationCommitIntent :: "string \<Rightarrow> publication_tables \<Rightarrow> publication_tables \<times> unit result" where
  "SetPublicationCommitIntent i t =
     (if \<not> validSHA256Text i then (t, Inl (plain_error ''invalid publication attempt identity''))
      else publication_tx (commit_intent_tx i) t)"

definition allowed_next :: "string \<Rightarrow> publication_phase option" where
  "allowed_next text =
     (if text = ''payload'' then Some PhasePayload
      else if text = ''immutable_metadata'' then Some PhaseImmutableMetadata
      else if text = ''pointer_prepared'' then Some PhasePointerPrepared
      else if text = ''pointer_rollforward'' then Some PhasePointerRollforward
      else if text = ''verified'' then Some PhaseVerified
      else None)"

fun phase_successor :: "publication_phase \<Rightarrow> publication_phase option" where
  "phase_successor PhasePlanned = Some PhasePayload"
| "phase_successor PhasePayload = Some PhaseImmutableMetadata"
| "phase_successor PhaseImmutableMetadata = Some PhasePointerPrepared"
| "phase_successor PhaseCommitIntent = Some PhasePointerRollforward"
| "phase_successor PhasePointerRollforward = Some PhaseVerified"
| "phase_successor _ = None"

definition advance_phase_tx :: "string \<Rightarrow> publication_phase \<Rightarrow> publication_tables \<Rightarrow> (publication_tables \<times> unit) result" where
  "advance_phase_tx i to_phase t =
     and_then (the_attempt t i) (\<lambda>row.
     if publicationPhaseRank to_phase \<le> publicationPhaseRank (at_phase row) then Inr (t, ())
     else if phase_successor (at_phase row) \<noteq> Some to_phase
     then Inl (GoError [ErrTransition] ''publication attempt phase'')
     else if publicationPhaseRank PhaseCommitIntent \<le> publicationPhaseRank to_phase \<and> \<not> at_commit row
     then Inl (GoError [ErrTransition] ''publication attempt lacks commit intent'')
     else if to_phase = PhaseVerified \<and> list_ex (\<lambda>v. av_state v \<noteq> ViewVerified) (at_views row)
     then Inl (GoError [ErrTransition] ''not all publication views are verified'')
     else Inr (update_attempt i (\<lambda>a. a\<lparr>at_phase := to_phase\<rparr>) t, ()))"

definition AdvancePublicationAttemptPhase :: "string \<Rightarrow> string \<Rightarrow> publication_tables \<Rightarrow> publication_tables \<times> unit result" where
  "AdvancePublicationAttemptPhase i next_text t =
     (case (validSHA256Text i, allowed_next next_text) of
        (True, Some to_phase) \<Rightarrow> publication_tx (advance_phase_tx i to_phase) t
      | _ \<Rightarrow> (t, Inl (plain_error ''invalid publication attempt phase transition'')))"

definition view_of_text :: "string \<Rightarrow> view_state option" where
  "view_of_text text =
     (if text = ''pending'' then Some ViewPending else if text = ''prepared'' then Some ViewPrepared
      else if text = ''applied'' then Some ViewApplied else if text = ''verified'' then Some ViewVerified else None)"

abbreviation is_view :: "string \<Rightarrow> string \<Rightarrow> PublicationAttemptView \<Rightarrow> bool" where
  "is_view view pointer v \<equiv> av_view v = view \<and> av_pointer v = pointer"

definition view_state_tx ::
    "string \<Rightarrow> string \<Rightarrow> string \<Rightarrow> view_state \<Rightarrow> publication_tables \<Rightarrow> (publication_tables \<times> unit) result" where
  "view_state_tx i view pointer to_state t =
     and_then (the_attempt t i) (\<lambda>row.
     and_then (one_row (is_view view pointer) (at_views row)) (\<lambda>v.
     let current = view_rank (av_state v); rank = view_rank to_state
     in if rank \<le> current then Inr (t, ())
        else if rank \<noteq> current + 1 then Inl (GoError [ErrTransition] ''publication view'')
        else if to_state = ViewPrepared \<and> at_phase row \<noteq> PhasePointerPrepared
        then Inl (GoError [ErrTransition] ''publication pointer preparation requires pointer_prepared phase'')
        else if view_rank ViewApplied \<le> rank
             \<and> (\<not> at_commit row \<or> publicationPhaseRank (at_phase row) < publicationPhaseRank PhaseCommitIntent)
        then Inl (GoError [ErrTransition] ''publication pointer progress requires durable commit intent'')
        else if to_state = ViewVerified \<and> publicationPhaseRank (at_phase row) < publicationPhaseRank PhasePointerRollforward
        then Inl (GoError [ErrTransition] ''publication pointer verification requires roll-forward phase'')
        else Inr (update_attempt i (\<lambda>a. a\<lparr>at_views :=
               map (\<lambda>v. if is_view view pointer v then v\<lparr>av_state := to_state\<rparr> else v) (at_views a)\<rparr>) t, ())))"

definition SetPublicationAttemptViewState ::
    "string \<Rightarrow> string \<Rightarrow> string \<Rightarrow> string \<Rightarrow> publication_tables \<Rightarrow> publication_tables \<times> unit result" where
  "SetPublicationAttemptViewState i view pointer next_text t =
     (case view_of_text next_text of
        None \<Rightarrow> (t, Inl (plain_error ''invalid publication view progress''))
      | Some to_state \<Rightarrow>
          if \<not> validSHA256Text i \<or> \<not> validPublicationPath view \<or> \<not> validPublicationPath pointer
          then (t, Inl (plain_error ''invalid publication view progress''))
          else publication_tx (view_state_tx i view pointer to_state) t)"

end
