(* ===== verification/Publication_Checkpoints.thy ===== *)
theory Publication_Checkpoints
  imports Publication_Attempts
begin

section \<open>Checkpoints, grace and retention (\<open>internal/v2/state/publication.go\<close>)\<close>

text \<open>
  The second half of the life of an attempt: its verified views become a checkpoint and the head of
  the target in one transaction, a grace record delays the cleaning, and after the grace period a
  report names the objects nothing refers to any more. On a file system target every reported
  object is deleted under a receipt; on an object store the report alone ends the attempt.
\<close>

subsection \<open>Applying a checkpoint\<close>

definition the_checkpoint :: "publication_tables \<Rightarrow> string \<Rightarrow> AppliedCheckpoint result" where
  "the_checkpoint t i = one_row (\<lambda>c. cp_identity c = i) (pt_checkpoints t)"

definition appliedCheckpointSemanticMatchTx :: "publication_tables \<Rightarrow> AppliedCheckpoint \<Rightarrow> bool \<times> bool" where
  "appliedCheckpointSemanticMatchTx t input =
     (case List.find (\<lambda>c. cp_identity c = cp_identity input) (pt_checkpoints t) of
        None \<Rightarrow> (False, False)
      | Some stored \<Rightarrow>
          (True, cp_complete stored = cp_complete input
             \<and> publicationInventoryIdentity (cp_inventory stored) = publicationInventoryIdentity (cp_inventory input)
             \<and> appliedCheckpointSemanticIdentity stored = appliedCheckpointSemanticIdentity input))"

definition head_text :: "target_head \<Rightarrow> string" where
  "head_text h = (case th_checkpoint h of None \<Rightarrow> '''' | Some c \<Rightarrow> c)"

text \<open>The update of the head guarded by its revision and checkpoint.\<close>

definition swap_head :: "AppliedCheckpoint \<Rightarrow> target_head \<Rightarrow> publication_tables \<Rightarrow> target_head list result" where
  "swap_head c seen t =
     update_one (\<lambda>h. th_target h = cp_target c \<and> th_revision h = th_revision seen \<and> th_checkpoint h = th_checkpoint seen)
       (\<lambda>h. h\<lparr>th_checkpoint := Some (cp_identity c), th_generation := cp_generation c,
              th_manifest := Some (cp_manifest c), th_revision := th_revision h + 1\<rparr>)
       (GoError [ErrConflict] ''publication target head CAS failed'') (pt_heads t)"

definition apply_checkpoint_tx :: "AppliedCheckpoint \<Rightarrow> publication_tables \<Rightarrow> (publication_tables \<times> string) result" where
  "apply_checkpoint_tx c t =
     and_then (requirePublicationBindingTx t (cp_repository c) (cp_target c)) (\<lambda>_.
     case appliedCheckpointSemanticMatchTx t c of
       (exists, same) \<Rightarrow>
         if exists then
           (if \<not> same then Inl (GoError [ErrConflict] ''applied checkpoint identity has different semantic bytes'')
            else Inr (t, cp_identity c))
         else
           and_then (the_attempt t (cp_attempt c)) (\<lambda>a.
           if at_repository a \<noteq> cp_repository c \<or> at_target a \<noteq> cp_target c \<or> at_generation a \<noteq> cp_generation c
              \<or> at_manifest a \<noteq> cp_manifest c \<or> at_phase a \<noteq> PhaseVerified \<or> \<not> at_commit a
           then Inl (GoError [ErrConflict] ''checkpoint does not match one verified publication attempt'')
           else if \<not> checkpointViewsMatchVerifiedAttempt (cp_views c) (at_views a)
           then Inl (GoError [ErrConflict] ''checkpoint views differ from verified attempt views'')
           else and_then (the_head t (cp_target c)) (\<lambda>head.
           if base_differs head (at_base a)
           then Inl (GoError [ErrConflict] ''target head changed since publication attempt planning'')
           else if list_ex (\<lambda>d. cp_attempt d = cp_attempt c \<or> cp_target d = cp_target c
                     \<and> cp_generation d = cp_generation c \<and> cp_manifest d = cp_manifest c) (pt_checkpoints t)
           then Inl (plain_error ''UNIQUE constraint failed: publication_checkpoints'')
           else and_then (swap_head c head t) (\<lambda>heads.
                and_then (update_one (\<lambda>a. at_identity a = cp_attempt c \<and> at_phase a = PhaseVerified \<and> at_commit a)
                   (\<lambda>a. a\<lparr>at_phase := PhaseApplied\<rparr>)
                   (GoError [ErrConflict] ''verified attempt changed while applying checkpoint'') (pt_attempts t)) (\<lambda>attempts.
                Inr (t\<lparr>pt_checkpoints := pt_checkpoints t @ [c], pt_heads := heads, pt_attempts := attempts\<rparr>,
                     cp_identity c))))))"

definition PutAppliedCheckpoint ::
    "utc_time \<Rightarrow> database \<Rightarrow> AppliedCheckpoint \<Rightarrow> publication_tables \<Rightarrow> publication_tables \<times> string result" where
  "PutAppliedCheckpoint now db input t =
     (let c = input\<lparr>cp_schema := (if cp_schema input = 0 then 1 else cp_schema input),
                    cp_applied_at := (if cp_applied_at input = zero_time then now else cp_applied_at input)\<rparr>
      in case and_then (validateAppliedCheckpoint c) (\<lambda>_.
              and_then (generationManifestOn db (cp_generation c)) (\<lambda>manifest.
              and_then (case ManifestBytes manifest of
                  Inl _ \<Rightarrow> Inl (plain_error ''checkpoint manifest differs from Generation'')
                | Inr (_, digest) \<Rightarrow>
                    ensure (digest = cp_manifest c) (plain_error ''checkpoint manifest differs from Generation'')) (\<lambda>_.
              and_then (ensure (cp_complete c \<and> inventoryContainsManifest (cp_inventory c) manifest)
                 (plain_error ''complete publication inventory does not contain the Generation manifest closure'')) (\<lambda>_.
              and_then (acceptSemanticIdentity (cp_inventory_identity c) (publicationInventoryIdentity (cp_inventory c))) (\<lambda>inventory.
              let c = c\<lparr>cp_inventory_identity := inventory\<rparr>
              in and_then (acceptSemanticIdentity (cp_identity c) (appliedCheckpointSemanticIdentity c)) (\<lambda>identity.
                 Inr (c\<lparr>cp_identity := identity\<rparr>))))))) of
           Inl e \<Rightarrow> (t, Inl e)
         | Inr c \<Rightarrow> publication_tx (apply_checkpoint_tx c) t)"

subsection \<open>Grace\<close>

definition graceSemanticMatchTx :: "publication_tables \<Rightarrow> GraceRecord \<Rightarrow> bool \<times> bool" where
  "graceSemanticMatchTx t input =
     (case List.find (\<lambda>g. gr_identity g = gr_identity input) (pt_grace t) of
        None \<Rightarrow> (False, False)
      | Some stored \<Rightarrow> (True, graceSemanticIdentity stored = graceSemanticIdentity input))"

definition the_binding :: "publication_tables \<Rightarrow> string \<Rightarrow> PublicationTargetBinding result" where
  "the_binding t target = one_row (\<lambda>b. tb_target b = target) (pt_bindings t)"

text \<open>The join of the binding, the checkpoint that is the head of the target, and its attempt.\<close>

definition current_checkpoint ::
    "publication_tables \<Rightarrow> string \<Rightarrow> string \<Rightarrow> (PublicationTargetBinding \<times> PublicationAttempt) result" where
  "current_checkpoint t target checkpoint =
     and_then (the_binding t target) (\<lambda>b.
     and_then (one_row (\<lambda>c. cp_identity c = checkpoint \<and> cp_target c = target) (pt_checkpoints t)) (\<lambda>c.
     and_then (one_row (\<lambda>h. th_target h = target \<and> th_checkpoint h = Some checkpoint) (pt_heads t)) (\<lambda>_.
     and_then (the_attempt t (cp_attempt c)) (\<lambda>a. Inr (b, a)))))"

definition put_grace_tx :: "GraceRecord \<Rightarrow> publication_tables \<Rightarrow> (publication_tables \<times> string) result" where
  "put_grace_tx g t =
     (case graceSemanticMatchTx t g of
        (exists, same) \<Rightarrow>
          if exists then
            (if \<not> same then Inl (GoError [ErrConflict] ''grace identity has different semantic bytes'')
             else Inr (t, gr_identity g))
          else and_then (current_checkpoint t (gr_target g) (gr_checkpoint g)) (\<lambda>(b, a).
            if at_phase a \<noteq> PhaseApplied
            then Inl (GoError [ErrTransition] ''grace requires the current applied checkpoint'')
            else and_then (publicationGraceMinimum (tb_max_cache_ttl b)) (\<lambda>minimum.
            if time_ns (gr_not_before g) < time_ns (gr_verified_at g) + minimum
            then Inl (GoError [ErrConflict] ''grace is shorter than max(30d, cache TTL + 24h)'')
            else if list_ex (\<lambda>h. gr_checkpoint h = gr_checkpoint g) (pt_grace t)
            then Inl (plain_error ''UNIQUE constraint failed: publication_grace_records'')
            else and_then (update_one (\<lambda>r. at_identity r = at_identity a \<and> at_phase r = PhaseApplied \<and> at_commit r)
                   (\<lambda>r. r\<lparr>at_phase := PhaseGrace\<rparr>)
                   (GoError [ErrConflict] ''applied attempt changed while recording grace'') (pt_attempts t)) (\<lambda>attempts.
                 Inr (t\<lparr>pt_grace := pt_grace t @ [g], pt_attempts := attempts\<rparr>, gr_identity g)))))"

definition PutGraceRecord :: "GraceRecord \<Rightarrow> publication_tables \<Rightarrow> publication_tables \<times> string result" where
  "PutGraceRecord input t =
     (let g = input\<lparr>gr_schema := (if gr_schema input = 0 then 1 else gr_schema input),
                    gr_state := (if gr_state input = '''' then ''grace'' else gr_state input)\<rparr>
      in if gr_schema g \<noteq> 1 \<or> \<not> validSHA256Text (gr_target g) \<or> \<not> validSHA256Text (gr_checkpoint g)
            \<or> \<not> validSHA256Text (gr_policy g) \<or> gr_verified_at g = zero_time \<or> gr_not_before g = zero_time
            \<or> time_Before (gr_not_before g) (gr_verified_at g) \<or> gr_state g \<noteq> ''grace''
         then (t, Inl (plain_error ''invalid grace record''))
         else case acceptSemanticIdentity (gr_identity g) (graceSemanticIdentity g) of
                Inl e \<Rightarrow> (t, Inl e)
              | Inr identity \<Rightarrow> publication_tx (put_grace_tx (g\<lparr>gr_identity := identity\<rparr>)) t)"

subsection \<open>The objects nothing refers to\<close>

definition active_attempts :: "publication_tables \<Rightarrow> string \<Rightarrow> PublicationAttempt list" where
  "active_attempts t target = filter (\<lambda>a. at_target a = target \<and> write_active (at_phase a)) (pt_attempts t)"

text \<open>The generations of the head, of every checkpoint in grace and of every write-active attempt.\<close>

definition protected_generations :: "publication_tables \<Rightarrow> string \<Rightarrow> GenerationID list" where
  "protected_generations t target =
     remdups (map cp_generation (filter (\<lambda>c. cp_target c = target
         \<and> (list_ex (\<lambda>h. th_target h = target \<and> th_checkpoint h = Some (cp_identity c)) (pt_heads t)
            \<or> list_ex (\<lambda>g. gr_target g = target \<and> gr_checkpoint g = cp_identity c \<and> gr_state g = ''grace'') (pt_grace t)))
         (pt_checkpoints t))
       @ map at_generation (active_attempts t target))"

definition generation_paths :: "database \<Rightarrow> string list \<Rightarrow> GenerationID \<Rightarrow> string list result" where
  "generation_paths db paths g = and_then (generationManifestTx db g) (\<lambda>files. Inr (paths @ map gf_path files))"

definition protected_paths :: "database \<Rightarrow> publication_tables \<Rightarrow> string \<Rightarrow> GenerationFile list \<Rightarrow> string list result" where
  "protected_paths db t target manifest =
     and_then (for_each (generation_paths db) (map gf_path manifest) (protected_generations t target)) (\<lambda>paths.
       Inr (paths @ concat (map (\<lambda>a. base_paths t (at_base a)) (active_attempts t target))))"

text \<open>The objects already deleted under receipts that were verified.\<close>

definition deleted_objects :: "publication_tables \<Rightarrow> string \<Rightarrow> PublicationObject list" where
  "deleted_objects t target =
     map dr_object (filter (\<lambda>d. list_ex (\<lambda>r. rp_identity r = dr_report d \<and> rp_target r = target
         \<and> rp_mode r = ''conditional_delete''
         \<and> list_ex (\<lambda>c. cp_identity c = rp_checkpoint r
             \<and> list_ex (\<lambda>a. at_identity a = cp_attempt c \<and> at_phase a \<in> {PhaseDeletionVerified, PhaseDone}) (pt_attempts t)
             \<and> list_ex (\<lambda>g. gr_checkpoint g = cp_identity c \<and> gr_state g = ''deletion_verified'') (pt_grace t))
             (pt_checkpoints t)) (pt_reports t)) (pt_receipts t))"

text \<open>The key of \<open>publicationObjectEvidenceKey\<close>.\<close>

definition publicationObjectEvidenceKey :: "PublicationObject \<Rightarrow> string" where
  "publicationObjectEvidenceKey o' =
     po_object_path o' @ CHR 0x00 # po_object_phase o' @ CHR 0x00 # json_int (po_object_size o') @ CHR 0x00 #
     po_object_sha256 o' @ CHR 0x00 # po_object_remote o'"

definition in_closure :: "GenerationFile list \<Rightarrow> PublicationObject \<Rightarrow> bool" where
  "in_closure manifest o' \<longleftrightarrow>
     (case map_of (rev (map (\<lambda>f. (gf_path f, f)) manifest)) (po_object_path o') of
        None \<Rightarrow> False
      | Some f \<Rightarrow> gf_phase f = po_object_phase o' \<and> gf_size f = po_object_size o' \<and> gf_sha256 f = po_object_sha256 o')"

definition candidate_step ::
    "GenerationFile list \<Rightarrow> string list \<Rightarrow> string list \<Rightarrow> PublicationObject list \<Rightarrow> PublicationObject \<Rightarrow> PublicationObject list result" where
  "candidate_step manifest protectedPaths deleted candidates o' =
     (if in_closure manifest o' then Inr candidates
      else if po_object_phase o' = ''pointer''
      then Inl (GoError [ErrConflict] ''pointer cannot be a retention candidate'')
      else if po_object_path o' \<in> set protectedPaths then Inr candidates
      else if publicationObjectEvidenceKey o' \<in> set deleted then Inr candidates
      else Inr (candidates @ [o']))"

definition exactPublicationCandidatesTx :: "database \<Rightarrow> publication_tables \<Rightarrow> string \<Rightarrow> PublicationObject list result" where
  "exactPublicationCandidatesTx db t checkpoint =
     and_then (one_row (\<lambda>c. cp_identity c = checkpoint \<and> cp_complete c) (pt_checkpoints t)) (\<lambda>c.
     and_then (generationManifestTx db (cp_generation c)) (\<lambda>manifest.
     and_then (protected_paths db t (cp_target c) manifest) (\<lambda>protectedPaths.
       for_each (candidate_step manifest protectedPaths
           (map publicationObjectEvidenceKey (deleted_objects t (cp_target c)))) []
         (sort_key po_object_path (cp_inventory c)))))"

subsection \<open>Reports\<close>

definition candidateReportSemanticMatchTx :: "publication_tables \<Rightarrow> PublicationCandidateReport \<Rightarrow> bool \<times> bool" where
  "candidateReportSemanticMatchTx t input =
     (case List.find (\<lambda>r. rp_identity r = rp_identity input) (pt_reports t) of
        None \<Rightarrow> (False, False)
      | Some stored \<Rightarrow> (True, candidateReportSemanticIdentity stored = candidateReportSemanticIdentity input))"

text \<open>The join of a checkpoint with its binding, attempt and grace record.\<close>

record checkpoint_join =
  cj_binding :: PublicationTargetBinding
  cj_checkpoint :: AppliedCheckpoint
  cj_attempt :: PublicationAttempt
  cj_grace :: GraceRecord

definition join_checkpoint :: "publication_tables \<Rightarrow> string \<Rightarrow> string \<Rightarrow> checkpoint_join result" where
  "join_checkpoint t target checkpoint =
     and_then (the_binding t target) (\<lambda>b.
     and_then (one_row (\<lambda>c. cp_identity c = checkpoint \<and> cp_target c = target) (pt_checkpoints t)) (\<lambda>c.
     and_then (the_attempt t (cp_attempt c)) (\<lambda>a.
     and_then (one_row (\<lambda>g. gr_target g = target \<and> gr_checkpoint g = checkpoint) (pt_grace t)) (\<lambda>g.
       Inr \<lparr>cj_binding = b, cj_checkpoint = c, cj_attempt = a, cj_grace = g\<rparr>))))"

definition join_deadline :: "checkpoint_join \<Rightarrow> int result" where
  "join_deadline j =
     effectivePublicationGraceDeadline (formatTimestamp (gr_not_before (cj_grace j)))
       (formatTimestamp (cp_applied_at (cj_checkpoint j))) (tb_max_cache_ttl (cj_binding j))"

definition put_report_tx :: "database \<Rightarrow> PublicationCandidateReport \<Rightarrow> publication_tables \<Rightarrow> (publication_tables \<times> string) result" where
  "put_report_tx db report t =
     (case candidateReportSemanticMatchTx t report of
        (exists, same) \<Rightarrow>
          if exists then
            (if \<not> same then Inl (GoError [ErrConflict] ''candidate report identity has different semantic bytes'')
             else Inr (t, rp_identity report))
          else and_then (join_checkpoint t (rp_target report) (rp_checkpoint report)) (\<lambda>j.
               and_then (join_deadline j) (\<lambda>deadline.
               let provider = tb_provider (cj_binding j)
               in if cp_inventory_identity (cj_checkpoint j) \<noteq> rp_inventory report
                     \<or> provider = ''r2'' \<and> rp_mode report \<noteq> ''report_only''
                     \<or> provider = ''filesystem'' \<and> rp_mode report \<noteq> ''conditional_delete''
                     \<or> at_phase (cj_attempt j) \<noteq> PhaseGrace \<or> gr_state (cj_grace j) \<noteq> ''grace''
                     \<or> time_ns (rp_created_at report) < deadline
                  then Inl (GoError [ErrConflict] ''candidate report capability or inventory mismatch'')
                  else if active_attempts t (rp_target report) \<noteq> []
                  then Inl (GoError [ErrTransition] ''target has a write-active publication attempt'')
                  else and_then (exactPublicationCandidatesTx db t (rp_checkpoint report)) (\<lambda>expected.
                       if \<not> same_objects expected (rp_candidates report)
                       then Inl (GoError [ErrConflict] ''candidate report is not the exact non-pointer inventory delta'')
                       else if list_ex (\<lambda>r. rp_target r = rp_target report \<and> rp_checkpoint r = rp_checkpoint report
                                 \<and> rp_inventory r = rp_inventory report) (pt_reports t)
                       then Inl (plain_error ''UNIQUE constraint failed: publication_candidate_reports'')
                       else Inr (t\<lparr>pt_reports := pt_reports t @ [report]\<rparr>, rp_identity report)))))"

definition PutPublicationCandidateReport ::
    "utc_time \<Rightarrow> database \<Rightarrow> PublicationCandidateReport \<Rightarrow> publication_tables \<Rightarrow> publication_tables \<times> string result" where
  "PutPublicationCandidateReport now db input t =
     (let r = input\<lparr>rp_schema := (if rp_schema input = 0 then 1 else rp_schema input),
                    rp_created_at := (if rp_created_at input = zero_time then now else rp_created_at input)\<rparr>
      in if rp_schema r \<noteq> 1 \<or> \<not> validSHA256Text (rp_target r) \<or> \<not> validSHA256Text (rp_checkpoint r)
            \<or> \<not> validSHA256Text (rp_inventory r) \<or> rp_mode r \<noteq> ''report_only'' \<and> rp_mode r \<noteq> ''conditional_delete''
            \<or> \<not> sortedCandidates (rp_candidates r)
         then (t, Inl (plain_error ''invalid publication candidate report''))
         else case acceptSemanticIdentity (rp_identity r) (candidateReportSemanticIdentity r) of
                Inl e \<Rightarrow> (t, Inl e)
              | Inr identity \<Rightarrow> publication_tx (put_report_tx db (r\<lparr>rp_identity := identity\<rparr>)) t)"

subsection \<open>Deletion receipts\<close>

definition publicationDeletionReceiptByPathTx ::
    "publication_tables \<Rightarrow> string \<Rightarrow> string \<Rightarrow> PublicationDeletionReceipt option result" where
  "publicationDeletionReceiptByPathTx t report path =
     (case List.find (\<lambda>d. dr_report d = report \<and> po_object_path (dr_object d) = path) (pt_receipts t) of
        None \<Rightarrow> Inr None
      | Some d \<Rightarrow>
          if parse_timestamp (formatTimestamp (dr_observed_at d)) = None \<or> \<not> dr_storage_absent d \<or> \<not> dr_public_absent d \<or> deletionReceiptSemanticIdentity d \<noteq> dr_identity d
          then Inl (GoError [ErrConflict] ''deletion receipt semantic identity is corrupt'') else Inr (Some d))"

text \<open>The join that starts from a report; it also fixes the candidate of the receipt's path.\<close>

definition the_report :: "publication_tables \<Rightarrow> string \<Rightarrow> PublicationCandidateReport result" where
  "the_report t i = one_row (\<lambda>r. rp_identity r = i) (pt_reports t)"

definition put_receipt_tx :: "PublicationDeletionReceipt \<Rightarrow> publication_tables \<Rightarrow> (publication_tables \<times> PublicationDeletionReceipt) result" where
  "put_receipt_tx d t =
     and_then (publicationDeletionReceiptByPathTx t (dr_report d) (po_object_path (dr_object d))) (\<lambda>found.
     case found of
       Some stored \<Rightarrow>
         if dr_identity d \<noteq> '''' \<and> dr_identity d \<noteq> dr_identity stored \<or> dr_object d \<noteq> dr_object stored
            \<or> \<not> dr_storage_absent stored \<or> \<not> dr_public_absent stored
         then Inl (GoError [ErrConflict] ''deletion receipt path has different evidence'') else Inr (t, stored)
     | None \<Rightarrow>
         and_then (the_report t (dr_report d)) (\<lambda>r.
         and_then (one_row (\<lambda>p. po_object_path p = po_object_path (dr_object d)) (rp_candidates r)) (\<lambda>candidate.
         and_then (join_checkpoint t (rp_target r) (rp_checkpoint r)) (\<lambda>j.
         and_then (join_deadline j) (\<lambda>deadline.
         if tb_provider (cj_binding j) \<noteq> ''filesystem'' \<or> rp_mode r \<noteq> ''conditional_delete''
            \<or> at_phase (cj_attempt j) \<noteq> PhaseGrace \<or> gr_state (cj_grace j) \<noteq> ''grace''
            \<or> time_ns (dr_observed_at d) < deadline \<or> candidate \<noteq> dr_object d
         then Inl (GoError [ErrTransition] ''deletion receipt is not exact conditional-delete evidence'')
         else and_then (acceptSemanticIdentity (dr_identity d) (deletionReceiptSemanticIdentity d)) (\<lambda>identity.
              let d = d\<lparr>dr_identity := identity\<rparr>
              in if list_ex (\<lambda>e. dr_identity e = identity) (pt_receipts t)
                 then Inl (plain_error ''UNIQUE constraint failed: publication_deletion_receipts'')
                 else Inr (t\<lparr>pt_receipts := pt_receipts t @ [d]\<rparr>, d)))))))"

definition PutPublicationDeletionReceipt ::
    "PublicationDeletionReceipt \<Rightarrow> publication_tables \<Rightarrow> publication_tables \<times> PublicationDeletionReceipt result" where
  "PutPublicationDeletionReceipt d t =
     (if \<not> validSHA256Text (dr_report d) \<or> \<not> valid_object (dr_object d) \<or> \<not> content_phase (po_object_phase (dr_object d))
         \<or> \<not> dr_storage_absent d \<or> \<not> dr_public_absent d \<or> dr_observed_at d = zero_time
      then (t, Inl (plain_error ''invalid publication deletion receipt''))
      else publication_tx (put_receipt_tx d) t)"

definition requireExactDeletionReceiptClosureTx :: "publication_tables \<Rightarrow> string \<Rightarrow> unit result" where
  "requireExactDeletionReceiptClosureTx t report =
     (let candidates = concat (map rp_candidates (filter (\<lambda>r. rp_identity r = report) (pt_reports t)))
      in if length (filter (\<lambda>d. dr_report d = report) (pt_receipts t)) \<noteq> length candidates
         then Inl (GoError [ErrTransition] ''conditional-delete report lacks an exact receipt closure'')
         else for_each (\<lambda>_ candidate.
                and_then (publicationDeletionReceiptByPathTx t report (po_object_path candidate)) (\<lambda>found.
                  case found of
                    None \<Rightarrow> Inl (GoError [ErrConflict] ''conditional-delete receipt differs'')
                  | Some d \<Rightarrow>
                      ensure (dr_object d = candidate) (GoError [ErrConflict] ''conditional-delete receipt differs''))) ()
                (sort_key po_object_path candidates))"

subsection \<open>Ending an attempt\<close>

text \<open>The join of an attempt, its checkpoint, binding, grace record and the report named as evidence.\<close>

definition join_evidence :: "publication_tables \<Rightarrow> string \<Rightarrow> string \<Rightarrow> (checkpoint_join \<times> PublicationCandidateReport) result" where
  "join_evidence t i report =
     and_then (the_attempt t i) (\<lambda>a.
     and_then (one_row (\<lambda>c. cp_attempt c = i) (pt_checkpoints t)) (\<lambda>c.
     and_then (the_binding t (at_target a)) (\<lambda>b.
     and_then (one_row (\<lambda>g. gr_target g = at_target a \<and> gr_checkpoint g = cp_identity c) (pt_grace t)) (\<lambda>g.
     and_then (one_row (\<lambda>r. rp_target r = at_target a \<and> rp_checkpoint r = cp_identity c
                    \<and> rp_inventory r = cp_inventory_identity c \<and> rp_identity r = report) (pt_reports t)) (\<lambda>r.
       Inr (\<lparr>cj_binding = b, cj_checkpoint = c, cj_attempt = a, cj_grace = g\<rparr>, r))))))"

text \<open>The two updates that leave grace for \<open>deletion_verified\<close> or \<open>retained_reported\<close>.\<close>

definition leave_grace ::
    "string \<Rightarrow> string \<Rightarrow> publication_phase \<Rightarrow> string \<Rightarrow> publication_tables \<Rightarrow> (publication_tables \<times> unit) result" where
  "leave_grace i checkpoint to_phase to_state t =
     and_then (update_one (\<lambda>g. gr_checkpoint g = checkpoint \<and> gr_state g = ''grace'') (\<lambda>g. g\<lparr>gr_state := to_state\<rparr>)
         (GoError [ErrConflict] ''grace record changed'') (pt_grace t)) (\<lambda>grace.
     and_then (update_one (\<lambda>a. at_identity a = i \<and> at_phase a = PhaseGrace \<and> at_commit a) (\<lambda>a. a\<lparr>at_phase := to_phase\<rparr>)
         (GoError [ErrConflict] ''grace attempt changed'') (pt_attempts t)) (\<lambda>attempts.
       Inr (t\<lparr>pt_grace := grace, pt_attempts := attempts\<rparr>, ())))"

definition deletion_verified_tx ::
    "string \<Rightarrow> string \<Rightarrow> utc_time \<Rightarrow> publication_tables \<Rightarrow> (publication_tables \<times> unit) result" where
  "deletion_verified_tx i report observedAt t =
     and_then (join_evidence t i report) (\<lambda>(j, r).
     if tb_provider (cj_binding j) \<noteq> ''filesystem'' \<or> rp_mode r \<noteq> ''conditional_delete''
     then Inl (GoError [ErrTransition] ''deletion verification requires filesystem conditional-delete evidence'')
     else if at_phase (cj_attempt j) \<in> {PhaseDeletionVerified, PhaseDone} \<and> gr_state (cj_grace j) = ''deletion_verified''
     then and_then (requireExactDeletionReceiptClosureTx t report) (\<lambda>_. Inr (t, ()))
     else and_then (join_deadline j) (\<lambda>deadline.
          if at_phase (cj_attempt j) \<noteq> PhaseGrace \<or> gr_state (cj_grace j) \<noteq> ''grace'' \<or> time_ns observedAt < deadline
          then Inl (GoError [ErrTransition] ''grace is not expired or deletion evidence is not pending'')
          else and_then (requireExactDeletionReceiptClosureTx t report) (\<lambda>_.
               leave_grace i (cp_identity (cj_checkpoint j)) PhaseDeletionVerified ''deletion_verified'' t)))"

definition MarkPublicationDeletionVerified ::
    "utc_time \<Rightarrow> string \<Rightarrow> string \<Rightarrow> utc_time \<Rightarrow> publication_tables \<Rightarrow> publication_tables \<times> unit result" where
  "MarkPublicationDeletionVerified now i report observedAt t =
     (if \<not> validSHA256Text i \<or> \<not> validSHA256Text report
      then (t, Inl (plain_error ''invalid deletion verification evidence identity''))
      else publication_tx (deletion_verified_tx i report (if observedAt = zero_time then now else observedAt)) t)"

definition retained_reported_tx ::
    "string \<Rightarrow> string \<Rightarrow> utc_time \<Rightarrow> publication_tables \<Rightarrow> (publication_tables \<times> unit) result" where
  "retained_reported_tx i report observedAt t =
     and_then (join_evidence t i report) (\<lambda>(j, r).
     if tb_provider (cj_binding j) \<noteq> ''r2'' \<or> rp_mode r \<noteq> ''report_only''
     then Inl (GoError [ErrTransition] ''retained-report transition requires R2 report-only evidence'')
     else if at_phase (cj_attempt j) \<in> {PhaseRetainedReported, PhaseDone} \<and> gr_state (cj_grace j) = ''retained_reported''
     then Inr (t, ())
     else and_then (join_deadline j) (\<lambda>deadline.
          if at_phase (cj_attempt j) \<noteq> PhaseGrace \<or> gr_state (cj_grace j) \<noteq> ''grace'' \<or> time_ns observedAt < deadline
          then Inl (GoError [ErrTransition] ''grace is not expired or retention evidence is not pending'')
          else leave_grace i (cp_identity (cj_checkpoint j)) PhaseRetainedReported ''retained_reported'' t))"

definition MarkPublicationRetainedReported ::
    "utc_time \<Rightarrow> string \<Rightarrow> string \<Rightarrow> utc_time \<Rightarrow> publication_tables \<Rightarrow> publication_tables \<times> unit result" where
  "MarkPublicationRetainedReported now i report observedAt t =
     (if \<not> validSHA256Text i \<or> \<not> validSHA256Text report
      then (t, Inl (plain_error ''invalid retained-report evidence identity''))
      else publication_tx (retained_reported_tx i report (if observedAt = zero_time then now else observedAt)) t)"

definition complete_attempt_tx :: "string \<Rightarrow> string \<Rightarrow> publication_tables \<Rightarrow> (publication_tables \<times> unit) result" where
  "complete_attempt_tx i evidence t =
     and_then (join_evidence t i evidence) (\<lambda>(j, r).
     let provider = tb_provider (cj_binding j); mode = rp_mode r; state = gr_state (cj_grace j); phase = at_phase (cj_attempt j);
         deleted = (provider = ''filesystem'' \<and> mode = ''conditional_delete'' \<and> state = ''deletion_verified'');
         retained = (provider = ''r2'' \<and> mode = ''report_only'' \<and> state = ''retained_reported'')
     in if phase = PhaseDone then
          (if deleted then and_then (requireExactDeletionReceiptClosureTx t evidence) (\<lambda>_. Inr (t, ()))
           else if retained then Inr (t, ())
           else Inl (GoError [ErrTransition] ''completed publication evidence no longer matches provider capability''))
        else and_then
          (if retained \<and> phase = PhaseRetainedReported then Inr PhaseRetainedReported
           else if deleted \<and> phase = PhaseDeletionVerified
           then and_then (requireExactDeletionReceiptClosureTx t evidence) (\<lambda>_. Inr PhaseDeletionVerified)
           else Inl (GoError [ErrTransition] ''publication completion lacks provider-specific terminal evidence'')) (\<lambda>terminal.
          and_then (update_one (\<lambda>a. at_identity a = i \<and> at_phase a = terminal \<and> at_commit a) (\<lambda>a. a\<lparr>at_phase := PhaseDone\<rparr>)
             (GoError [ErrConflict] ''publication completion changed'') (pt_attempts t)) (\<lambda>attempts.
            Inr (t\<lparr>pt_attempts := attempts\<rparr>, ()))))"

definition CompletePublicationAttempt :: "string \<Rightarrow> string \<Rightarrow> publication_tables \<Rightarrow> publication_tables \<times> unit result" where
  "CompletePublicationAttempt i evidence t =
     (if \<not> validSHA256Text i \<or> \<not> validSHA256Text evidence
      then (t, Inl (plain_error ''invalid publication completion evidence''))
      else publication_tx (complete_attempt_tx i evidence) t)"

end
