(* ===== verification/Publication_Invariant.thy ===== *)
theory Publication_Invariant
  imports Publication_Checkpoints
begin

section \<open>What every reachable state of the publication tables satisfies\<close>

text \<open>
  One step is one call of the store on some database; the calls may come in any order, with any
  arguments, from any number of callers, because each runs in a transaction of its own. The
  invariant says how the rows of the tables depend on each other: what the phase of an attempt says
  about its commit intent and its views, which attempts own a checkpoint, and that the head of a
  target is a function of the log of its checkpoints, which form one chain.
\<close>

subsection \<open>Steps\<close>

text \<open>
  An attempt is named by the SHA-256 digest of its plan, and the code takes equal digests for equal
  plans. A step plans an attempt that does not collide with a stored one.
\<close>

definition separated :: "PublicationAttempt \<Rightarrow> publication_tables \<Rightarrow> bool" where
  "separated a t \<longleftrightarrow> list_all (\<lambda>b. publicationAttemptSemanticIdentity b = publicationAttemptSemanticIdentity a
     \<longrightarrow> at_target b = at_target a \<and> at_base b = at_base a) (pt_attempts t)"

inductive publication_step :: "publication_tables \<Rightarrow> publication_tables \<Rightarrow> bool" where
  bind: "publication_step t (fst (BindPublicationTarget now db b t))"
| rebind: "publication_step t (fst (RebindPublicationTarget now db r t))"
| put_attempt: "separated a t \<Longrightarrow> publication_step t (fst (PutPublicationAttempt db a t))"
| abandon: "publication_step t (fst (AbandonPublicationAttempt db i objects t))"
| commit: "publication_step t (fst (SetPublicationCommitIntent i t))"
| advance: "publication_step t (fst (AdvancePublicationAttemptPhase i phase t))"
| view: "publication_step t (fst (SetPublicationAttemptViewState i view pointer state t))"
| checkpoint: "publication_step t (fst (PutAppliedCheckpoint clock db c t))"
| grace: "publication_step t (fst (PutGraceRecord g t))"
| report: "publication_step t (fst (PutPublicationCandidateReport clock db rp t))"
| receipt: "publication_step t (fst (PutPublicationDeletionReceipt d t))"
| deleted: "publication_step t (fst (MarkPublicationDeletionVerified clock i evidence observed t))"
| retained: "publication_step t (fst (MarkPublicationRetainedReported clock i evidence observed t))"
| complete: "publication_step t (fst (CompletePublicationAttempt i evidence t))"

inductive_cases publication_stepE: "publication_step t t'"

definition empty_publication :: publication_tables where
  "empty_publication = \<lparr>pt_bindings = [], pt_revisions = [], pt_heads = [], pt_attempts = [], pt_abandoned = [],
     pt_checkpoints = [], pt_grace = [], pt_reports = [], pt_receipts = []\<rparr>"

inductive publication_reachable :: "publication_tables \<Rightarrow> bool" where
  start: "publication_reachable empty_publication"
| further: "publication_reachable t \<Longrightarrow> publication_step t t' \<Longrightarrow> publication_reachable t'"

subsection \<open>The invariant\<close>

text \<open>The least and the greatest progress of a view in a phase.\<close>

fun view_range :: "publication_phase \<Rightarrow> nat \<times> nat" where
  "view_range PhasePlanned = (0, 0)"
| "view_range PhasePayload = (0, 0)"
| "view_range PhaseImmutableMetadata = (0, 0)"
| "view_range PhasePointerPrepared = (0, 1)"
| "view_range PhaseAbandoned = (0, 1)"
| "view_range PhaseCommitIntent = (1, 2)"
| "view_range PhasePointerRollforward = (1, 3)"
| "view_range _ = (3, 3)"

definition view_pair :: "PublicationAttemptView \<Rightarrow> string \<times> string" where
  "view_pair v = (av_view v, av_pointer v)"

definition views_fit :: "publication_phase \<Rightarrow> PublicationAttemptView list \<Rightarrow> bool" where
  "views_fit p views \<longleftrightarrow> list_all (\<lambda>v. fst (view_range p) \<le> view_rank (av_state v) \<and> view_rank (av_state v) \<le> snd (view_range p)) views"

definition attempt_ok :: "PublicationAttempt \<Rightarrow> bool" where
  "attempt_ok a \<longleftrightarrow> validatePublicationAttempt a = Inr () \<and> at_identity a = publicationAttemptSemanticIdentity a
     \<and> distinct (map view_pair (at_views a)) \<and> views_fit (at_phase a) (at_views a)"

definition applied :: "PublicationAttempt \<Rightarrow> bool" where
  "applied a \<longleftrightarrow> publicationPhaseRank PhaseApplied \<le> publicationPhaseRank (at_phase a)"

definition target_checkpoints :: "publication_tables \<Rightarrow> string \<Rightarrow> AppliedCheckpoint list" where
  "target_checkpoints t target = filter (\<lambda>c. cp_target c = target) (pt_checkpoints t)"

text \<open>The head a log of checkpoints gives a target.\<close>

definition log_head :: "string \<Rightarrow> AppliedCheckpoint list \<Rightarrow> target_head" where
  "log_head target log =
     (if log = [] then \<lparr>th_target = target, th_checkpoint = None, th_generation = 0, th_manifest = None, th_revision = 0\<rparr>
      else \<lparr>th_target = target, th_checkpoint = Some (cp_identity (last log)), th_generation = cp_generation (last log),
             th_manifest = Some (cp_manifest (last log)), th_revision = int (length log)\<rparr>)"

text \<open>Each checkpoint of a log comes from an attempt that was planned on the checkpoint before it.\<close>

fun chained :: "PublicationAttempt list \<Rightarrow> string \<Rightarrow> AppliedCheckpoint list \<Rightarrow> bool" where
  "chained attempts previous [] = True"
| "chained attempts previous (c # log) =
     (list_ex (\<lambda>a. at_identity a = cp_attempt c \<and> at_base a = previous) attempts \<and> chained attempts (cp_identity c) log)"

definition log_end :: "string \<Rightarrow> AppliedCheckpoint list \<Rightarrow> string" where
  "log_end previous log = (if log = [] then previous else cp_identity (last log))"

text \<open>The observed inventory holds the whole manifest whose digest the checkpoint names.\<close>

definition checkpoint_closed :: "AppliedCheckpoint \<Rightarrow> bool" where
  "checkpoint_closed c \<longleftrightarrow>
     (\<exists>manifest bytes. ManifestBytes manifest = Inr (bytes, cp_manifest c) \<and> inventoryContainsManifest (cp_inventory c) manifest)"

definition checkpoint_ok :: "AppliedCheckpoint \<Rightarrow> bool" where
  "checkpoint_ok c \<longleftrightarrow> validateAppliedCheckpoint c = Inr () \<and> cp_inventory_identity c = publicationInventoryIdentity (cp_inventory c)
     \<and> cp_identity c = appliedCheckpointSemanticIdentity c \<and> checkpoint_closed c"

definition applied_by :: "AppliedCheckpoint \<Rightarrow> PublicationAttempt \<Rightarrow> bool" where
  "applied_by c a \<longleftrightarrow> at_identity a = cp_attempt c \<and> at_repository a = cp_repository c \<and> at_target a = cp_target c
     \<and> at_generation a = cp_generation c \<and> at_manifest a = cp_manifest c \<and> applied a"

definition grace_phases :: "string \<Rightarrow> publication_phase set" where
  "grace_phases state =
     (if state = ''grace'' then {PhaseGrace}
      else if state = ''deletion_verified'' then {PhaseDeletionVerified, PhaseDone}
      else if state = ''retained_reported'' then {PhaseRetainedReported, PhaseDone} else {})"


text \<open>A write-active attempt sees the head it was planned on until it becomes the head itself.\<close>

definition sees_head :: "publication_tables \<Rightarrow> PublicationAttempt \<Rightarrow> bool" where
  "sees_head t a \<longleftrightarrow> (let log = target_checkpoints t (at_target a) in
     if at_phase a = PhaseApplied then log \<noteq> [] \<and> cp_attempt (last log) = at_identity a
     else at_base a = log_end '''' log)"

definition tables_keyed :: "publication_tables \<Rightarrow> bool" where
  "tables_keyed t \<longleftrightarrow> distinct (map tb_target (pt_bindings t)) \<and> distinct (map at_identity (pt_attempts t))
     \<and> distinct (map cp_identity (pt_checkpoints t)) \<and> distinct (map cp_attempt (pt_checkpoints t))
     \<and> distinct (map gr_checkpoint (pt_grace t))"

definition attempts_fit :: "publication_tables \<Rightarrow> bool" where
  "attempts_fit t \<longleftrightarrow> (\<forall>a\<in>set (pt_attempts t). attempt_ok a
     \<and> (\<exists>b\<in>set (pt_bindings t). tb_target b = at_target a \<and> tb_repository b = at_repository a)
     \<and> (write_active (at_phase a) \<longrightarrow> sees_head t a \<and> (\<forall>b\<in>set (pt_attempts t). at_target b = at_target a \<and> write_active (at_phase b) \<longrightarrow> b = a))
     \<and> (applied a \<longrightarrow> (\<exists>c\<in>set (pt_checkpoints t). cp_attempt c = at_identity a)))"

definition heads_fit :: "publication_tables \<Rightarrow> bool" where
  "heads_fit t \<longleftrightarrow> pt_heads t = map (\<lambda>b. log_head (tb_target b) (target_checkpoints t (tb_target b))) (pt_bindings t)"

definition checkpoints_fit :: "publication_tables \<Rightarrow> bool" where
  "checkpoints_fit t \<longleftrightarrow> (\<forall>c\<in>set (pt_checkpoints t). checkpoint_ok c \<and> (\<exists>a\<in>set (pt_attempts t). applied_by c a))
     \<and> (\<forall>target. chained (pt_attempts t) '''' (target_checkpoints t target))"

definition grace_fits :: "publication_tables \<Rightarrow> bool" where
  "grace_fits t \<longleftrightarrow> (\<forall>g\<in>set (pt_grace t). \<exists>c\<in>set (pt_checkpoints t). \<exists>a\<in>set (pt_attempts t).
       cp_identity c = gr_checkpoint g \<and> cp_target c = gr_target g \<and> at_identity a = cp_attempt c \<and> at_phase a \<in> grace_phases (gr_state g))
     \<and> (\<forall>a\<in>set (pt_attempts t). publicationPhaseRank PhaseGrace \<le> publicationPhaseRank (at_phase a) \<longrightarrow>
          (\<exists>c\<in>set (pt_checkpoints t). \<exists>g\<in>set (pt_grace t). cp_attempt c = at_identity a \<and> gr_checkpoint g = cp_identity c))"

definition evidence_fits :: "publication_tables \<Rightarrow> bool" where
  "evidence_fits t \<longleftrightarrow> (\<forall>(i, o')\<in>set (pt_abandoned t). \<exists>a\<in>set (pt_attempts t). at_identity a = i \<and> at_phase a = PhaseAbandoned)"

definition publication_ok :: "publication_tables \<Rightarrow> bool" where
  "publication_ok t \<longleftrightarrow> tables_keyed t \<and> attempts_fit t \<and> heads_fit t \<and> checkpoints_fit t \<and> grace_fits t \<and> evidence_fits t"

subsection \<open>Updates of one row\<close>

lemma one_row_Inr: "one_row P rows = Inr r \<Longrightarrow> r \<in> set rows \<and> P r"
  by (auto simp: one_row_def find_Some_iff split: option.splits)

lemma the_attempt_Inr: "the_attempt t i = Inr a \<Longrightarrow> a \<in> set (pt_attempts t) \<and> at_identity a = i"
  unfolding the_attempt_def by (drule one_row_Inr) simp

lemma keyed_unique: "distinct (map key rows) \<Longrightarrow> x \<in> set rows \<Longrightarrow> y \<in> set rows \<Longrightarrow> key x = key y \<Longrightarrow> x = y"
  by (auto simp: distinct_map dest: inj_onD)

lemma one_row_keyed:
  assumes "distinct (map key rows)" "r \<in> set rows" "key r = k"
  shows "one_row (\<lambda>x. key x = k) rows = Inr r"
proof -
  obtain x where x: "List.find (\<lambda>x. key x = k) rows = Some x"
    using assms by (cases "List.find (\<lambda>x. key x = k) rows") (auto simp: find_None_iff)
  then have "x \<in> set rows" "key x = k" by (auto simp: find_Some_iff)
  then show ?thesis using keyed_unique[OF assms(1), of x r] assms x by (simp add: one_row_def)
qed

lemma the_attempt_keyed:
  "distinct (map at_identity (pt_attempts t)) \<Longrightarrow> a \<in> set (pt_attempts t) \<Longrightarrow> at_identity a = i \<Longrightarrow> the_attempt t i = Inr a"
  unfolding the_attempt_def by (rule one_row_keyed)

lemma update_one_keyed:
  assumes u: "update_one P f e rows = Inr rows'" and d: "distinct (map key rows)" and P: "\<And>r. P r \<Longrightarrow> key r = k"
  obtains r where "r \<in> set rows" "P r" "rows' = map (\<lambda>r. if key r = k then f r else r) rows"
proof -
  from u have "filter P rows \<noteq> []" and rows': "rows' = map (\<lambda>r. if P r then f r else r) rows"
    by (auto simp: update_one_def split: if_splits)
  then obtain r where r: "r \<in> set rows" "P r" by (auto simp: filter_empty_conv)
  then have "P x \<longleftrightarrow> key x = k" if "x \<in> set rows" for x
    using keyed_unique[OF d, of x r] P that by auto
  then show thesis using that r rows' by simp
qed

text \<open>An attempt keeps its plan when only its phase, its commit intent and the states of its views change.\<close>

definition same_plan :: "PublicationAttempt \<Rightarrow> PublicationAttempt \<Rightarrow> bool" where
  "same_plan a b \<longleftrightarrow> (\<exists>p m s. b = a\<lparr>at_phase := p, at_commit := m, at_views := map (\<lambda>v. v\<lparr>av_state := s v\<rparr>) (at_views a)\<rparr>)"

lemma same_plan_fields:
  assumes "same_plan a b"
  shows "at_identity b = at_identity a" "at_repository b = at_repository a" "at_target b = at_target a" "at_base b = at_base a"
    "at_generation b = at_generation a" "at_manifest b = at_manifest a" "at_plan b = at_plan a" "at_schema b = at_schema a"
    "map view_pair (at_views b) = map view_pair (at_views a)"
    "publicationAttemptSemanticIdentity b = publicationAttemptSemanticIdentity a"
proof -
  obtain p m s where b: "b = a\<lparr>at_phase := p, at_commit := m, at_views := map (\<lambda>v. v\<lparr>av_state := s v\<rparr>) (at_views a)\<rparr>"
    using assms by (auto simp: same_plan_def)
  have json: "map attempt_view_json (map (\<lambda>v. v\<lparr>av_state := s v\<rparr>) (at_views a)) = map attempt_view_json (at_views a)"
    by (simp add: attempt_view_json_def)
  show "at_identity b = at_identity a" "at_repository b = at_repository a" "at_target b = at_target a" "at_base b = at_base a"
    "at_generation b = at_generation a" "at_manifest b = at_manifest a" "at_plan b = at_plan a" "at_schema b = at_schema a"
    "map view_pair (at_views b) = map view_pair (at_views a)"
    by (simp_all add: b view_pair_def)
  show "publicationAttemptSemanticIdentity b = publicationAttemptSemanticIdentity a"
    unfolding publicationAttemptSemanticIdentity_def b by (simp add: json del: map_map)
qed

lemma sorted_views_keys:
  "sortedAttemptViews views \<longleftrightarrow>
     (\<forall>v\<in>set views. validPublicationPath (av_view v) \<and> validPublicationPath (av_pointer v) \<and> validSHA256Text (av_new v))
     \<and> sorted_wrt (<) (map (\<lambda>v. view_key (av_view v) (av_pointer v)) views)"
  unfolding sortedAttemptViews_def by (subst ascending_lenient) (auto simp: view_key_def)

lemma sorted_views_state [simp]:
  "sortedAttemptViews (map (\<lambda>v. v\<lparr>av_state := s v\<rparr>) views) = sortedAttemptViews views"
  by (simp add: sorted_views_keys comp_def)

lemma view_key_inj:
  assumes "validPublicationPath a" "validPublicationPath c" "view_key a b = view_key c d"
  shows "a = c \<and> b = d"
proof -
  have nul: "CHR 0x00 \<notin> set a" "CHR 0x00 \<notin> set c"
    using assms(1,2) by (auto simp: validPublicationPath_def ContainsAny_def unsafe_path_bytes_def list_ex_iff)
  have cut: "CHR 0x00 \<notin> set x \<Longrightarrow> Cut (view_key x y) CHR 0x00 = (x, y, True)" for x y
    by (induction x) (auto simp: view_key_def)
  have "(a, b, True) = (c, d, True)" using cut[OF nul(1), of b] cut[OF nul(2), of d] unfolding assms(3) by (rule trans[OF sym])
  then show ?thesis by simp
qed

subsection \<open>Updating one attempt\<close>

lemma publication_okD:
  assumes "publication_ok t"
  shows "tables_keyed t" "attempts_fit t" "heads_fit t" "checkpoints_fit t" "grace_fits t" "evidence_fits t"
  using assms by (simp_all add: publication_ok_def)

lemma chained_mono:
  assumes "\<And>a. a \<in> set rows \<Longrightarrow> \<exists>b\<in>set rows'. at_identity b = at_identity a \<and> at_base b = at_base a"
    and "chained rows previous log"
  shows "chained rows' previous log"
  using assms(2)
proof (induction log arbitrary: previous)
  case (Cons c log)
  then show ?case using assms(1) by (fastforce simp: list_ex_iff)
qed simp

lemma target_checkpoints_attempts [simp]:
  "target_checkpoints (t\<lparr>pt_attempts := r\<rparr>) = target_checkpoints t"
  "target_checkpoints (t\<lparr>pt_abandoned := e\<rparr>) = target_checkpoints t"
  "target_checkpoints (t\<lparr>pt_grace := g\<rparr>) = target_checkpoints t"
  "target_checkpoints (t\<lparr>pt_heads := h\<rparr>) = target_checkpoints t"
  "target_checkpoints (t\<lparr>pt_bindings := bs\<rparr>) = target_checkpoints t"
  "target_checkpoints (t\<lparr>pt_revisions := rs\<rparr>) = target_checkpoints t"
  by (simp_all add: target_checkpoints_def fun_eq_iff)

lemma sees_head_cong:
  "pt_checkpoints t' = pt_checkpoints t \<Longrightarrow> sees_head t' a = sees_head t a"
  by (simp add: sees_head_def target_checkpoints_def)

text \<open>The attempts after the row of \<open>a\<close> became \<open>b\<close>.\<close>

definition replaced :: "PublicationAttempt \<Rightarrow> PublicationAttempt \<Rightarrow> PublicationAttempt list \<Rightarrow> PublicationAttempt list" where
  "replaced a b rows = map (\<lambda>r. if at_identity r = at_identity a then b else r) rows"

lemma replaced_set:
  assumes "distinct (map at_identity rows)" "a \<in> set rows"
  shows "x \<in> set (replaced a b rows) \<longleftrightarrow> x = b \<or> (x \<in> set rows \<and> x \<noteq> a)"
  using assms keyed_unique[OF assms(1)] by (auto simp: replaced_def)

lemma replaced_identities:
  "at_identity b = at_identity a \<Longrightarrow> map at_identity (replaced a b rows) = map at_identity rows"
  by (induction rows) (auto simp: replaced_def)

lemma update_attempt_replaced:
  assumes "distinct (map at_identity (pt_attempts t))" "a \<in> set (pt_attempts t)" "at_identity a = i"
  shows "update_attempt i f t = t\<lparr>pt_attempts := replaced a (f a) (pt_attempts t)\<rparr>"
  using keyed_unique[OF assms(1) _ assms(2)] assms(3) by (auto simp: update_attempt_def replaced_def cong: map_cong)

lemma chained_replaced:
  assumes "distinct (map at_identity rows)" "a \<in> set rows" "same_plan a b" "chained rows previous log"
  shows "chained (replaced a b rows) previous log"
proof (rule chained_mono[OF _ assms(4)])
  fix x assume "x \<in> set rows"
  then show "\<exists>y\<in>set (replaced a b rows). at_identity y = at_identity x \<and> at_base y = at_base x"
    using assms(1-3) replaced_set[OF assms(1,2), of _ b] same_plan_fields(1,4)[OF assms(3)]
    by (intro bexI[of _ "if x = a then b else x"]) auto
qed

text \<open>What a change of one attempt, with its plan kept, may do.\<close>

lemma replace_attempt_fits:
  assumes ok: "publication_ok t" and a: "a \<in> set (pt_attempts t)" and plan: "same_plan a b" and fit: "attempt_ok b"
    and active: "write_active (at_phase b) \<Longrightarrow> sees_head t b \<and> \<not> active_elsewhere t (at_target a) (at_identity a)"
    and applied: "applied b = applied a"
  shows "tables_keyed (t\<lparr>pt_attempts := replaced a b (pt_attempts t)\<rparr>)" 
    "attempts_fit (t\<lparr>pt_attempts := replaced a b (pt_attempts t)\<rparr>)" "heads_fit (t\<lparr>pt_attempts := replaced a b (pt_attempts t)\<rparr>)"
    "checkpoints_fit (t\<lparr>pt_attempts := replaced a b (pt_attempts t)\<rparr>)"
proof -
  let ?t = "t\<lparr>pt_attempts := replaced a b (pt_attempts t)\<rparr>"
  note parts = publication_okD[OF ok]
  note same = same_plan_fields[OF plan]
  have keyed: "distinct (map at_identity (pt_attempts t))" using parts(1) by (simp add: tables_keyed_def)
  note mem = replaced_set[OF keyed a, of _ b]
  show "tables_keyed ?t" using parts(1) by (simp add: tables_keyed_def replaced_identities same)
  show "heads_fit ?t" using parts(3) by (simp add: heads_fit_def)
  show "checkpoints_fit ?t"
    unfolding checkpoints_fit_def
  proof (intro conjI allI ballI)
    fix c assume c: "c \<in> set (pt_checkpoints ?t)"
    then show "checkpoint_ok c" using parts(4) by (simp add: checkpoints_fit_def)
    obtain x where x: "x \<in> set (pt_attempts t)" "applied_by c x" using c parts(4) by (auto simp: checkpoints_fit_def)
    then show "\<exists>x\<in>set (pt_attempts ?t). applied_by c x"
      using applied same(1-6) by (intro bexI[of _ "if x = a then b else x"]) (auto simp: mem applied_by_def)
  next
    fix target show "chained (pt_attempts ?t) '''' (target_checkpoints ?t target)"
      using parts(4) chained_replaced[OF keyed a plan] by (simp add: checkpoints_fit_def)
  qed
  show "attempts_fit ?t"
    unfolding attempts_fit_def
  proof (intro ballI)
    have alone: "x = a" if "write_active (at_phase b)" "x \<in> set (pt_attempts t)" "at_target x = at_target a" "write_active (at_phase x)" for x
    proof (rule keyed_unique[OF keyed that(2) a])
      show "at_identity x = at_identity a" using active[OF that(1)] that(2-) by (auto simp: active_elsewhere_def list_ex_iff)
    qed
    fix x assume x: "x \<in> set (pt_attempts ?t)"
    show "attempt_ok x \<and> (\<exists>c\<in>set (pt_bindings ?t). tb_target c = at_target x \<and> tb_repository c = at_repository x)
       \<and> (write_active (at_phase x) \<longrightarrow> sees_head ?t x
          \<and> (\<forall>y\<in>set (pt_attempts ?t). at_target y = at_target x \<and> write_active (at_phase y) \<longrightarrow> y = x))
       \<and> (applied x \<longrightarrow> (\<exists>c\<in>set (pt_checkpoints ?t). cp_attempt c = at_identity x))"
    proof (cases "x = b")
      case True
      then show ?thesis
        using parts(2) a fit same active alone by (auto simp: attempts_fit_def mem applied sees_head_cong[of ?t t])
    next
      case False
      then have x': "x \<in> set (pt_attempts t)" "x \<noteq> a" using x by (auto simp: mem)
      then show ?thesis
        using parts(2) same alone x' by (auto simp: attempts_fit_def mem sees_head_cong[of ?t t])
    qed
  qed
qed

lemma fits_abandoned [simp]:
  "tables_keyed (t\<lparr>pt_abandoned := e\<rparr>) = tables_keyed t" "attempts_fit (t\<lparr>pt_abandoned := e\<rparr>) = attempts_fit t"
  "heads_fit (t\<lparr>pt_abandoned := e\<rparr>) = heads_fit t" "checkpoints_fit (t\<lparr>pt_abandoned := e\<rparr>) = checkpoints_fit t"
  "grace_fits (t\<lparr>pt_abandoned := e\<rparr>) = grace_fits t"
  by (simp_all add: tables_keyed_def attempts_fit_def heads_fit_def checkpoints_fit_def grace_fits_def sees_head_def)

lemma replace_attempt_ok:
  assumes ok: "publication_ok t" and a: "a \<in> set (pt_attempts t)" and plan: "same_plan a b" and fit: "attempt_ok b"
    and active: "write_active (at_phase b) \<Longrightarrow> sees_head t b \<and> \<not> active_elsewhere t (at_target a) (at_identity a)"
    and applied: "applied b = applied a"
    and grace: "\<And>s. at_phase a \<in> grace_phases s \<Longrightarrow> at_phase b \<in> grace_phases s"
    and graced: "publicationPhaseRank PhaseGrace \<le> publicationPhaseRank (at_phase b) \<Longrightarrow> publicationPhaseRank PhaseGrace \<le> publicationPhaseRank (at_phase a)"
    and evidence: "\<And>i o'. (i, o') \<in> set e \<Longrightarrow> (if i = at_identity a then at_phase b = PhaseAbandoned else (i, o') \<in> set (pt_abandoned t))"
  shows "publication_ok (t\<lparr>pt_attempts := replaced a b (pt_attempts t), pt_abandoned := e\<rparr>)"
proof -
  note parts = publication_okD[OF ok]
  note same = same_plan_fields[OF plan]
  have keyed: "distinct (map at_identity (pt_attempts t))" using parts(1) by (simp add: tables_keyed_def)
  note mem = replaced_set[OF keyed a, of _ b]
  let ?t = "t\<lparr>pt_attempts := replaced a b (pt_attempts t)\<rparr>"
  have "grace_fits ?t"
    unfolding grace_fits_def
  proof (intro conjI ballI impI)
    fix g assume "g \<in> set (pt_grace ?t)"
    then obtain c x where c: "c \<in> set (pt_checkpoints t)" "x \<in> set (pt_attempts t)" "cp_identity c = gr_checkpoint g"
        "cp_target c = gr_target g" "at_identity x = cp_attempt c" "at_phase x \<in> grace_phases (gr_state g)"
      using parts(5) by (auto simp: grace_fits_def)
    then show "\<exists>c\<in>set (pt_checkpoints ?t). \<exists>x\<in>set (pt_attempts ?t). cp_identity c = gr_checkpoint g \<and> cp_target c = gr_target g
        \<and> at_identity x = cp_attempt c \<and> at_phase x \<in> grace_phases (gr_state g)"
      using same(1) grace by (intro bexI[of _ c] bexI[of _ "if x = a then b else x"]) (auto simp: mem)
  next
    fix x assume x: "x \<in> set (pt_attempts ?t)" "publicationPhaseRank PhaseGrace \<le> publicationPhaseRank (at_phase x)"
    then obtain y where "y \<in> set (pt_attempts t)" "at_identity y = at_identity x"
        "publicationPhaseRank PhaseGrace \<le> publicationPhaseRank (at_phase y)"
      using graced a same(1) by (cases "x = b") (auto simp: mem)
    then show "\<exists>c\<in>set (pt_checkpoints ?t). \<exists>g\<in>set (pt_grace ?t). cp_attempt c = at_identity x \<and> gr_checkpoint g = cp_identity c"
      using parts(5) by (fastforce simp: grace_fits_def)
  qed
  moreover have "evidence_fits (?t\<lparr>pt_abandoned := e\<rparr>)"
    unfolding evidence_fits_def
  proof (clarsimp)
    fix i o' assume "(i, o') \<in> set e"
    then have i: "if i = at_identity a then at_phase b = PhaseAbandoned else (i, o') \<in> set (pt_abandoned t)" by (rule evidence)
    show "\<exists>x\<in>set (replaced a b (pt_attempts t)). at_identity x = i \<and> at_phase x = PhaseAbandoned"
    proof (cases "i = at_identity a")
      case True
      then show ?thesis using i same(1) by (intro bexI[of _ b]) (auto simp: mem)
    next
      case False
      then obtain x where "x \<in> set (pt_attempts t)" "at_identity x = i" "at_phase x = PhaseAbandoned"
        using i parts(6) by (auto simp: evidence_fits_def)
      then show ?thesis using False by (intro bexI[of _ x]) (auto simp: mem)
    qed
  qed
  ultimately show ?thesis
    using replace_attempt_fits[OF ok a plan fit active applied] by (simp add: publication_ok_def)
qed

text \<open>The same with the evidence of abandoned attempts left alone.\<close>

lemma replace_live_attempt_ok:
  assumes ok: "publication_ok t" and a: "a \<in> set (pt_attempts t)" and plan: "same_plan a b" and fit: "attempt_ok b"
    and live: "at_phase a \<noteq> PhaseAbandoned"
    and active: "write_active (at_phase b) \<Longrightarrow> sees_head t b \<and> \<not> active_elsewhere t (at_target a) (at_identity a)"
    and applied: "applied b = applied a"
    and grace: "\<And>s. at_phase a \<in> grace_phases s \<Longrightarrow> at_phase b \<in> grace_phases s"
    and graced: "publicationPhaseRank PhaseGrace \<le> publicationPhaseRank (at_phase b) \<Longrightarrow> publicationPhaseRank PhaseGrace \<le> publicationPhaseRank (at_phase a)"
  shows "publication_ok (t\<lparr>pt_attempts := replaced a b (pt_attempts t)\<rparr>)"
proof -
  have keyed: "distinct (map at_identity (pt_attempts t))" using ok by (simp add: publication_ok_def tables_keyed_def)
  have "i \<noteq> at_identity a" if "(i, o') \<in> set (pt_abandoned t)" for i o'
    using that publication_okD(6)[OF ok] live a by (auto simp: evidence_fits_def dest: keyed_unique[OF keyed a])
  then have "publication_ok (t\<lparr>pt_attempts := replaced a b (pt_attempts t), pt_abandoned := pt_abandoned t\<rparr>)"
    using replace_attempt_ok[OF ok a plan fit active applied grace graced, of "pt_abandoned t"] by fastforce
  then show ?thesis by simp
qed

text \<open>An attempt that stays write-active keeps what it sees.\<close>

lemma active_stays:
  assumes ok: "publication_ok t" and a: "a \<in> set (pt_attempts t)" "write_active (at_phase a)" and plan: "same_plan a b"
    and phase: "at_phase b = PhaseApplied \<longleftrightarrow> at_phase a = PhaseApplied"
  shows "sees_head t b \<and> \<not> active_elsewhere t (at_target a) (at_identity a)"
proof -
  have fits: "sees_head t a" "\<forall>x\<in>set (pt_attempts t). at_target x = at_target a \<and> write_active (at_phase x) \<longrightarrow> x = a"
    using publication_okD(2)[OF ok] a by (auto simp: attempts_fit_def)
  have "sees_head t b" using fits(1) same_plan_fields(1,3,4)[OF plan] phase by (simp add: sees_head_def Let_def)
  then show ?thesis using fits(2) by (auto simp: active_elsewhere_def list_ex_iff)
qed

subsection \<open>Progress keeps the invariant\<close>

lemma publication_tx_keeps:
  assumes "publication_ok t" "\<And>t' x. body t = Inr (t', x) \<Longrightarrow> publication_ok t'"
  shows "publication_ok (fst (publication_tx body t))"
  using assms by (auto simp: publication_tx_def split: sum.splits)

definition plan_valid :: "PublicationAttempt \<Rightarrow> bool" where
  "plan_valid a \<longleftrightarrow> at_schema a = 1 \<and> IsCanonicalRepositoryID (at_repository a) \<and> validSHA256Text (at_target a)
     \<and> (at_base a \<noteq> '''' \<longrightarrow> validSHA256Text (at_base a)) \<and> at_generation a \<noteq> 0 \<and> validSHA256Text (at_manifest a)
     \<and> validSHA256Text (at_plan a) \<and> sortedAttemptViews (at_views a)"

lemma validate_attempt_exact:
  "validatePublicationAttempt a = Inr () \<longleftrightarrow> plan_valid a \<and> (at_commit a \<longleftrightarrow> 4 \<le> publicationPhaseRank (at_phase a))"
proof (cases "plan_valid a")
  case True
  then show ?thesis
    by (cases "at_phase a") (auto simp: validatePublicationAttempt_def plan_valid_def Let_def)
next
  case False
  then show ?thesis by (auto simp: validatePublicationAttempt_def plan_valid_def)
qed

lemma plan_valid_same: "same_plan a b \<Longrightarrow> plan_valid b = plan_valid a"
  by (auto simp: same_plan_def plan_valid_def)

lemma attempt_ok_phase:
  "attempt_ok a \<Longrightarrow> at_commit a \<longleftrightarrow> 4 \<le> publicationPhaseRank (at_phase a)"
  by (simp add: attempt_ok_def validate_attempt_exact)

lemma attempt_ok_step:
  assumes "attempt_ok a" "same_plan a b" "at_commit b \<longleftrightarrow> 4 \<le> publicationPhaseRank (at_phase b)" "views_fit (at_phase b) (at_views b)"
  shows "attempt_ok b"
  using assms same_plan_fields[OF assms(2)] by (simp add: attempt_ok_def validate_attempt_exact plan_valid_same)

lemma same_plan_phase:
  "same_plan a (a\<lparr>at_phase := p\<rparr>)" "same_plan a (a\<lparr>at_phase := p, at_commit := m\<rparr>)"
  "same_plan a (a\<lparr>at_views := map (\<lambda>v. if P v then v\<lparr>av_state := s\<rparr> else v) (at_views a)\<rparr>)"
  "same_plan a (a\<lparr>at_phase := p, at_views := map (\<lambda>v. v\<lparr>av_state := s\<rparr>) (at_views a)\<rparr>)"
proof -
  have state: "map (\<lambda>v. v\<lparr>av_state := av_state v\<rparr>) views = views" for views :: "PublicationAttemptView list"
    by (simp add: map_idI)
  show "same_plan a (a\<lparr>at_phase := p\<rparr>)" unfolding same_plan_def
    by (intro exI[of _ p] exI[of _ "at_commit a"] exI[of _ av_state]) (simp add: state)
  show "same_plan a (a\<lparr>at_phase := p, at_commit := m\<rparr>)" unfolding same_plan_def
    by (intro exI[of _ p] exI[of _ m] exI[of _ av_state]) (simp add: state)
  show "same_plan a (a\<lparr>at_views := map (\<lambda>v. if P v then v\<lparr>av_state := s\<rparr> else v) (at_views a)\<rparr>)" unfolding same_plan_def
    by (intro exI[of _ "at_phase a"] exI[of _ "at_commit a"] exI[of _ "\<lambda>v. if P v then s else av_state v"])
      (simp add: if_distrib[of "\<lambda>x. _\<lparr>av_state := x\<rparr>"] cong: if_cong)
  show "same_plan a (a\<lparr>at_phase := p, at_views := map (\<lambda>v. v\<lparr>av_state := s\<rparr>) (at_views a)\<rparr>)" unfolding same_plan_def
    by (intro exI[of _ p] exI[of _ "at_commit a"] exI[of _ "\<lambda>_. s"]) simp
qed

lemma ok_attempt:
  assumes "publication_ok t" "the_attempt t i = Inr a"
  shows "a \<in> set (pt_attempts t)" "at_identity a = i" "attempt_ok a" "distinct (map at_identity (pt_attempts t))"
    "update_attempt i f t = t\<lparr>pt_attempts := replaced a (f a) (pt_attempts t)\<rparr>"
proof -
  show keyed: "distinct (map at_identity (pt_attempts t))" using assms(1) by (simp add: publication_ok_def tables_keyed_def)
  show a: "a \<in> set (pt_attempts t)" "at_identity a = i" using the_attempt_Inr[OF assms(2)] by simp_all
  show "attempt_ok a" using a(1) publication_okD(2)[OF assms(1)] by (simp add: attempts_fit_def)
  show "update_attempt i f t = t\<lparr>pt_attempts := replaced a (f a) (pt_attempts t)\<rparr>"
    by (rule update_attempt_replaced[OF keyed a])
qed

text \<open>The steps between phases inside the write-active part that keep the checkpoint of the attempt.\<close>

lemma progress_ok:
  assumes ok: "publication_ok t" and a: "the_attempt t i = Inr a" and plan: "same_plan a b"
    and ranks: "0 \<le> publicationPhaseRank (at_phase a)" "publicationPhaseRank (at_phase a) < 7"
      "0 \<le> publicationPhaseRank (at_phase b)" "publicationPhaseRank (at_phase b) < 7"
    and commit: "at_commit b \<longleftrightarrow> 4 \<le> publicationPhaseRank (at_phase b)" and views: "views_fit (at_phase b) (at_views b)"
  shows "publication_ok (t\<lparr>pt_attempts := replaced a b (pt_attempts t)\<rparr>)"
proof (rule replace_live_attempt_ok[OF ok ok_attempt(1)[OF ok a] plan])
  show "attempt_ok b" by (rule attempt_ok_step[OF ok_attempt(3)[OF ok a] plan commit views])
  show "at_phase a \<noteq> PhaseAbandoned" using ranks(1) by auto
  show "applied b = applied a" using ranks by (simp add: applied_def)
  show "sees_head t b \<and> \<not> active_elsewhere t (at_target a) (at_identity a)"
    using ranks by (intro active_stays[OF ok ok_attempt(1)[OF ok a] _ plan]) (auto simp: write_active_def)
  show "at_phase b \<in> grace_phases s" if "at_phase a \<in> grace_phases s" for s
    using that ranks by (auto simp: grace_phases_def split: if_splits)
  show "publicationPhaseRank PhaseGrace \<le> publicationPhaseRank (at_phase a)"
    if "publicationPhaseRank PhaseGrace \<le> publicationPhaseRank (at_phase b)" using that ranks by simp
qed

lemma commit_intent_keeps:
  assumes ok: "publication_ok t" and step: "commit_intent_tx i t = Inr (t', x)"
  shows "publication_ok t'"
proof -
  obtain a where a: "the_attempt t i = Inr a" using step by (auto simp: commit_intent_tx_def and_then_Inr_iff)
  consider "t' = t" | "at_phase a = PhasePointerPrepared" "\<forall>v\<in>set (at_views a). av_state v = ViewPrepared"
      "t' = t\<lparr>pt_attempts := replaced a (a\<lparr>at_phase := PhaseCommitIntent, at_commit := True\<rparr>) (pt_attempts t)\<rparr>"
    using step a ok_attempt(5)[OF ok a] by (auto simp: commit_intent_tx_def list_ex_iff split: if_splits)
  then show ?thesis
  proof cases
    case 2
    then show ?thesis using ok
      by (simp only:, intro progress_ok[OF ok a same_plan_phase(2)]) (simp_all add: views_fit_def list_all_iff)
  qed (use ok in simp)
qed

lemma views_fit_successor:
  assumes "views_fit p views" "phase_successor p = Some q" "q = PhaseVerified \<longrightarrow> (\<forall>v\<in>set views. av_state v = ViewVerified)"
  shows "views_fit q views"
  using assms by (cases p) (auto simp: views_fit_def list_all_iff)

lemma advance_phase_keeps:
  assumes ok: "publication_ok t" and step: "advance_phase_tx i p t = Inr (t', x)"
  shows "publication_ok t'"
proof -
  obtain a where a: "the_attempt t i = Inr a" using step by (auto simp: advance_phase_tx_def and_then_Inr_iff)
  consider "t' = t" | "phase_successor (at_phase a) = Some p" "p = PhaseVerified \<longrightarrow> (\<forall>v\<in>set (at_views a). av_state v = ViewVerified)"
      "4 \<le> publicationPhaseRank p \<longrightarrow> at_commit a" "t' = t\<lparr>pt_attempts := replaced a (a\<lparr>at_phase := p\<rparr>) (pt_attempts t)\<rparr>"
    using step a ok_attempt(5)[OF ok a] by (auto simp: advance_phase_tx_def list_ex_iff split: if_splits)
  then show ?thesis
  proof cases
    case 2
    have fit: "attempt_ok a" by (rule ok_attempt(3)[OF ok a])
    then have views: "views_fit p (at_views a)" using views_fit_successor 2(1,2) by (auto simp: attempt_ok_def)
    show ?thesis unfolding 2(4)
      using 2(1) views attempt_ok_phase[OF fit]
      by (intro progress_ok[OF ok a same_plan_phase(1)]) (cases "at_phase a"; auto)+
  qed (use ok in simp)
qed

lemma unverified_rank: "fst (view_range p) < 3 \<Longrightarrow> publicationPhaseRank p < 7"
  by (cases p) auto

lemma view_range_high:
  "4 \<le> publicationPhaseRank p \<Longrightarrow> 2 \<le> snd (view_range p)" "5 \<le> publicationPhaseRank p \<Longrightarrow> 3 \<le> snd (view_range p)"
  by (cases p; simp)+

lemma view_state_keeps:
  assumes ok: "publication_ok t" and step: "view_state_tx i view pointer s t = Inr (t', x)"
  shows "publication_ok t'"
proof -
  obtain a v where a: "the_attempt t i = Inr a" and v: "one_row (is_view view pointer) (at_views a) = Inr v"
    using step by (auto simp: view_state_tx_def and_then_Inr_iff)
  have fit: "attempt_ok a" by (rule ok_attempt(3)[OF ok a])
  have v': "v \<in> set (at_views a)" "view_pair v = (view, pointer)" using one_row_Inr[OF v] by (simp_all add: view_pair_def)
  have only: "w = v" if "w \<in> set (at_views a)" "is_view view pointer w" for w
    by (rule keyed_unique[of view_pair "at_views a"]) (use fit that v' in \<open>auto simp: attempt_ok_def view_pair_def\<close>)
  have range: "fst (view_range (at_phase a)) \<le> view_rank (av_state w)" "view_rank (av_state w) \<le> snd (view_range (at_phase a))"
    if "w \<in> set (at_views a)" for w
    using fit that by (auto simp: attempt_ok_def views_fit_def list_all_iff)
  let ?b = "a\<lparr>at_views := map (\<lambda>v. if is_view view pointer v then v\<lparr>av_state := s\<rparr> else v) (at_views a)\<rparr>"
  consider "t' = t" | "view_rank s = view_rank (av_state v) + 1" "s = ViewPrepared \<longrightarrow> at_phase a = PhasePointerPrepared"
      "2 \<le> view_rank s \<longrightarrow> at_commit a \<and> 4 \<le> publicationPhaseRank (at_phase a)"
      "s = ViewVerified \<longrightarrow> 5 \<le> publicationPhaseRank (at_phase a)" "t' = t\<lparr>pt_attempts := replaced a ?b (pt_attempts t)\<rparr>"
    using step a v ok_attempt(5)[OF ok a] by (auto simp: view_state_tx_def Let_def split: if_splits)
  then show ?thesis
  proof cases
    case 2
    have "view_rank s \<le> 3" by (cases s) auto
    then have "fst (view_range (at_phase a)) < 3" using 2(1) range(1)[OF v'(1)] by simp
    moreover have far: "at_phase a = PhasePointerPrepared \<and> s = ViewPrepared \<or> 4 \<le> publicationPhaseRank (at_phase a)"
      using 2(1-3) by (cases s) simp_all
    ultimately have below: "0 \<le> publicationPhaseRank (at_phase a)" "publicationPhaseRank (at_phase a) < 7"
      by (auto intro: unverified_rank)
    have "view_rank s \<le> snd (view_range (at_phase a))"
      using 2(4) far view_range_high[of "at_phase a"] by (cases s) auto
    then have state: "fst (view_range (at_phase a)) \<le> view_rank s \<and> view_rank s \<le> snd (view_range (at_phase a))"
      using 2(1) range(1)[OF v'(1)] by simp
    have views: "views_fit (at_phase a) (at_views ?b)"
      using range state by (auto simp: views_fit_def list_all_iff)
    show ?thesis unfolding 2(5)
      using below views attempt_ok_phase[OF fit] by (intro progress_ok[OF ok a same_plan_phase(3)]) simp_all
  qed (use ok in simp)
qed

lemma phase_rank_cases:
  "p \<in> {PhasePlanned, PhasePayload, PhaseImmutableMetadata, PhasePointerPrepared} \<longleftrightarrow> pre_commit p"
  by (cases p) (auto simp: pre_commit_def)

lemma abandon_objects_grow:
  assumes "for_each (abandon_object db i g paths) t objects = Inr t'"
  shows "t' = t\<lparr>pt_abandoned := pt_abandoned t @ map (Pair i) objects\<rparr>"
  using assms
proof (induction objects arbitrary: t)
  case (Cons o' objects)
  obtain t1 where t1: "abandon_object db i g paths t o' = Inr t1" "for_each (abandon_object db i g paths) t1 objects = Inr t'"
    using Cons.prems by (auto simp: and_then_Inr_iff)
  have "t1 = t\<lparr>pt_abandoned := pt_abandoned t @ [(i, o')]\<rparr>"
    using t1(1) by (auto simp: abandon_object_def split: if_splits)
  then show ?case using Cons.IH[OF t1(2)] by simp
qed simp

lemma replaced_update:
  assumes "distinct (map at_identity rows)" "a \<in> set rows" "at_identity a = i"
  shows "map (\<lambda>r. if at_identity r = i then f r else r) rows = replaced a (f a) rows"
  using keyed_unique[OF assms(1) _ assms(2)] assms(3) by (auto simp: replaced_def cong: map_cong)

lemma update_one_attempt:
  assumes ok: "publication_ok t" and a: "the_attempt t i = Inr a"
    and u: "update_one (\<lambda>a. at_identity a = i \<and> Q a) f e (pt_attempts t) = Inr rows"
  shows "Q a" "rows = replaced a (f a) (pt_attempts t)"
proof -
  note keyed = ok_attempt(4)[OF ok a]
  obtain r where r: "r \<in> set (pt_attempts t)" "at_identity r = i \<and> Q r"
      and rows: "rows = map (\<lambda>r. if at_identity r = i then f r else r) (pt_attempts t)"
    by (rule update_one_keyed[OF u keyed, of i]) auto
  have "r = a" using keyed_unique[OF keyed r(1) ok_attempt(1)[OF ok a]] ok_attempt(2)[OF ok a] r(2) by simp
  then show "Q a" "rows = replaced a (f a) (pt_attempts t)"
    using r(2) rows replaced_update[OF keyed ok_attempt(1,2)[OF ok a]] by simp_all
qed

lemma update_one_attempt3:
  assumes ok: "publication_ok t" and a: "the_attempt t i = Inr a"
    and u: "update_one (\<lambda>a. at_identity a = i \<and> P a \<and> Q a) f e (pt_attempts t) = Inr rows"
  shows "P a" "Q a" "rows = replaced a (f a) (pt_attempts t)"
  using update_one_attempt[OF ok a, of "\<lambda>a. P a \<and> Q a"] u by simp_all

lemma abandon_keeps:
  assumes ok: "publication_ok t" and step: "abandon_attempt_tx db i objects t = Inr (t', x)"
  shows "publication_ok t'"
proof -
  obtain a where a: "the_attempt t i = Inr a" using step by (auto simp: abandon_attempt_tx_def and_then_Inr_iff)
  let ?t = "t\<lparr>pt_abandoned := filter (\<lambda>(j, _). j \<noteq> i) (pt_abandoned t)\<rparr>"
  consider "t' = t" | t1 rows where "for_each (abandon_object db i (at_generation a) (base_paths t (at_base a))) ?t objects = Inr t1"
      "update_one (\<lambda>a. at_identity a = i \<and> \<not> at_commit a \<and> pre_commit (at_phase a)) (\<lambda>a. a\<lparr>at_phase := PhaseAbandoned\<rparr>)
         (GoError [ErrConflict] ''publication attempt changed while abandoning'') (pt_attempts t1) = Inr rows"
      "t' = t1\<lparr>pt_attempts := rows\<rparr>"
    using step a by (auto simp: abandon_attempt_tx_def and_then_Inr_iff split: if_splits)
  then show ?thesis
  proof cases
    case 2
    have t1: "t1 = t\<lparr>pt_abandoned := filter (\<lambda>(j, _). j \<noteq> i) (pt_abandoned t) @ map (Pair i) objects\<rparr>"
      using abandon_objects_grow[OF 2(1)] by simp
    have rows: "\<not> at_commit a" "pre_commit (at_phase a)" "rows = replaced a (a\<lparr>at_phase := PhaseAbandoned\<rparr>) (pt_attempts t)"
      using update_one_attempt3[OF ok a 2(2)[unfolded t1, simplified]] by simp_all
    note fit = ok_attempt(3)[OF ok a]
    have "publication_ok (t\<lparr>pt_attempts := rows, pt_abandoned := filter (\<lambda>(j, _). j \<noteq> i) (pt_abandoned t) @ map (Pair i) objects\<rparr>)"
      unfolding rows(3)
    proof (rule replace_attempt_ok[OF ok ok_attempt(1)[OF ok a] same_plan_phase(1)])
      have "views_fit PhaseAbandoned (at_views a)"
        using fit rows(2) by (cases "at_phase a") (auto simp: attempt_ok_def views_fit_def list_all_iff pre_commit_def)
      then show "attempt_ok (a\<lparr>at_phase := PhaseAbandoned\<rparr>)"
        using rows(1) by (intro attempt_ok_step[OF fit same_plan_phase(1)]) simp_all
      show "applied (a\<lparr>at_phase := PhaseAbandoned\<rparr>) = applied a" using rows(2) by (simp add: applied_def pre_commit_def)
      show "at_phase (a\<lparr>at_phase := PhaseAbandoned\<rparr>) \<in> grace_phases s" if "at_phase a \<in> grace_phases s" for s
        using that rows(2) by (auto simp: grace_phases_def pre_commit_def split: if_splits)
      show "if j = at_identity a then at_phase (a\<lparr>at_phase := PhaseAbandoned\<rparr>) = PhaseAbandoned else (j, o') \<in> set (pt_abandoned t)"
        if "(j, o') \<in> set (filter (\<lambda>(j, _). j \<noteq> i) (pt_abandoned t) @ map (Pair i) objects)" for j o'
        using that ok_attempt(2)[OF ok a] by auto
    qed (simp_all add: write_active_def)
    moreover have "t' = t\<lparr>pt_attempts := rows, pt_abandoned := filter (\<lambda>(j, _). j \<noteq> i) (pt_abandoned t) @ map (Pair i) objects\<rparr>"
      by (simp add: 2(3) t1)
    ultimately show ?thesis by simp
  qed (use ok in simp)
qed

subsection \<open>Planning keeps the invariant\<close>

lemma ok_head:
  assumes ok: "publication_ok t" and h: "the_head t target = Inr h"
  shows "h = log_head target (target_checkpoints t target)"
proof -
  have "h \<in> set (pt_heads t)" "th_target h = target" using one_row_Inr[OF h[unfolded the_head_def]] by simp_all
  then have "h \<in> (\<lambda>b. log_head (tb_target b) (target_checkpoints t (tb_target b))) ` set (pt_bindings t)"
    using publication_okD(3)[OF ok] by (simp add: heads_fit_def)
  then obtain b :: PublicationTargetBinding where "h = log_head (tb_target b) (target_checkpoints t (tb_target b))" by blast
  moreover from this have "tb_target b = target" using \<open>th_target h = target\<close> by (simp add: log_head_def split: if_splits)
  ultimately show ?thesis by simp
qed

lemma base_matches: "\<not> base_differs (log_head target log) base \<longleftrightarrow> base = log_end '''' log \<and> (log \<noteq> [] \<longrightarrow> base \<noteq> '''')"
  by (auto simp: base_differs_def log_head_def log_end_def)

lemma planned_attempt_ok:
  assumes "validatePublicationAttempt a = Inr ()" "at_phase a = PhasePlanned" "\<not> list_ex (\<lambda>v. av_state v \<noteq> ViewPending) (at_views a)"
    and "at_identity a = publicationAttemptSemanticIdentity a"
  shows "attempt_ok a"
proof -
  have sorted: "\<forall>v\<in>set (at_views a). validPublicationPath (av_view v)"
    "distinct (map (\<lambda>v. view_key (av_view v) (av_pointer v)) (at_views a))"
    using assms(1) by (auto simp: validate_attempt_exact plan_valid_def sorted_views_keys intro: sorted_wrt_less_distinct)
  have "distinct (at_views a)" using sorted(2) by (simp add: distinct_map)
  moreover have "inj_on view_pair (set (at_views a))"
    using sorted(2) by (auto simp: distinct_map inj_on_def view_pair_def)
  ultimately show ?thesis
    using assms by (auto simp: attempt_ok_def distinct_map views_fit_def list_all_iff list_ex_iff)
qed

lemma resurrect_keeps:
  assumes ok: "publication_ok t" and row: "the_attempt t (at_identity n) = Inr a" and abandoned: "at_phase a = PhaseAbandoned"
    and same: "at_target a = at_target n" "at_base a = at_base n" and step: "resurrect_attempt n t = Inr t'"
  shows "publication_ok t'"
proof -
  let ?i = "at_identity n"
  let ?b = "a\<lparr>at_phase := PhasePlanned, at_views := map (\<lambda>v. v\<lparr>av_state := ViewPending\<rparr>) (at_views a)\<rparr>"
  let ?e = "filter (\<lambda>(i, _). i \<noteq> ?i) (pt_abandoned t)"
  obtain h where h: "the_head t (at_target n) = Inr h" "\<not> base_differs h (at_base n)" "\<not> active_elsewhere t (at_target n) ?i"
      and t': "t' = update_attempt ?i (\<lambda>a. a\<lparr>at_phase := PhasePlanned, at_views := map (\<lambda>v. v\<lparr>av_state := ViewPending\<rparr>) (at_views a)\<rparr>)
        (t\<lparr>pt_abandoned := ?e\<rparr>)"
    using step by (auto simp: resurrect_attempt_def and_then_Inr_iff split: if_splits)
  note keyed = ok_attempt(4)[OF ok row] and a = ok_attempt(1,2)[OF ok row] and fit = ok_attempt(3)[OF ok row]
  have "t' = t\<lparr>pt_abandoned := ?e, pt_attempts := replaced a ?b (pt_attempts t)\<rparr>"
    unfolding t' by (subst update_attempt_replaced[of _ a]) (use keyed a in simp_all)
  also have "\<dots> = t\<lparr>pt_attempts := replaced a ?b (pt_attempts t), pt_abandoned := ?e\<rparr>" by simp
  finally have t'': "t' = t\<lparr>pt_attempts := replaced a ?b (pt_attempts t), pt_abandoned := ?e\<rparr>" .
  have base: "at_base a = log_end '''' (target_checkpoints t (at_target a))"
    using h(2) same unfolding ok_head[OF ok h(1)] base_matches by simp
  show ?thesis unfolding t''
  proof (rule replace_attempt_ok[OF ok a(1) same_plan_phase(4)])
    show "attempt_ok ?b"
      using fit abandoned by (intro attempt_ok_step[OF fit same_plan_phase(4)])
        (auto simp: views_fit_def list_all_iff attempt_ok_def validate_attempt_exact)
    show "sees_head t ?b \<and> \<not> active_elsewhere t (at_target a) (at_identity a)"
      using h(3) same a(2) base by (simp add: sees_head_def Let_def)
    show "at_phase ?b \<in> grace_phases s" if "at_phase a \<in> grace_phases s" for s
      using that abandoned by (auto simp: grace_phases_def split: if_splits)
    show "if j = at_identity a then at_phase ?b = PhaseAbandoned else (j, o') \<in> set (pt_abandoned t)" if "(j, o') \<in> set ?e" for j o'
      using that a(2) by auto
  qed (use abandoned in \<open>simp_all add: applied_def\<close>)
qed

lemma insert_keeps:
  assumes ok: "publication_ok t" and fit: "attempt_ok n" and planned: "at_phase n = PhasePlanned"
    and bound: "\<exists>b\<in>set (pt_bindings t). tb_target b = at_target n \<and> tb_repository b = at_repository n"
    and fresh: "at_identity n \<notin> at_identity ` set (pt_attempts t)" and step: "insert_attempt db n t = Inr t'"
  shows "publication_ok t'"
proof -
  obtain h where h: "the_head t (at_target n) = Inr h" "\<not> base_differs h (at_base n)"
      "\<not> active_elsewhere t (at_target n) (at_identity n)" and t': "t' = t\<lparr>pt_attempts := pt_attempts t @ [n]\<rparr>"
    using step by (auto simp: insert_attempt_def and_then_Inr_iff split: if_splits)
  note parts = publication_okD[OF ok]
  have base: "at_base n = log_end '''' (target_checkpoints t (at_target n))"
    using h(2) unfolding ok_head[OF ok h(1)] base_matches by simp
  have alone: "\<not> write_active (at_phase x)" if "x \<in> set (pt_attempts t)" "at_target x = at_target n" for x
  proof -
    have "at_identity x \<noteq> at_identity n" using fresh that(1) by (metis imageI)
    then show ?thesis using h(3) that by (auto simp: active_elsewhere_def list_ex_iff)
  qed
  have sees: "sees_head t' n" using base planned by (simp add: sees_head_def t' Let_def)
  have "tables_keyed t'" using parts(1) fresh by (auto simp: tables_keyed_def t')
  moreover have "attempts_fit t'"
    unfolding attempts_fit_def
  proof (rule ballI)
    fix x assume "x \<in> set (pt_attempts t')"
    then consider "x = n" | "x \<in> set (pt_attempts t)" by (auto simp: t')
    then show "attempt_ok x \<and> (\<exists>c\<in>set (pt_bindings t'). tb_target c = at_target x \<and> tb_repository c = at_repository x)
       \<and> (write_active (at_phase x) \<longrightarrow> sees_head t' x
          \<and> (\<forall>y\<in>set (pt_attempts t'). at_target y = at_target x \<and> write_active (at_phase y) \<longrightarrow> y = x))
       \<and> (applied x \<longrightarrow> (\<exists>c\<in>set (pt_checkpoints t'). cp_attempt c = at_identity x))"
    proof cases
      case 1
      then show ?thesis using fit bound sees planned alone by (auto simp: t' applied_def)
    next
      case 2
      then show ?thesis using parts(2) alone[OF 2] alone by (fastforce simp: t' attempts_fit_def sees_head_def)
    qed
  qed
  moreover have "heads_fit t'" using parts(3) by (simp add: heads_fit_def t')
  moreover have "checkpoints_fit t'"
  proof -
    have "chained (pt_attempts t') '''' log" if "chained (pt_attempts t) '''' log" for log
      by (rule chained_mono[OF _ that]) (auto simp: t')
    then show ?thesis using parts(4) by (auto simp: checkpoints_fit_def t')
  qed
  moreover have "grace_fits t'" using parts(5) planned by (fastforce simp: grace_fits_def t')
  moreover have "evidence_fits t'" using parts(6) by (fastforce simp: evidence_fits_def t')
  ultimately show ?thesis by (simp add: publication_ok_def)
qed

lemma bound_target:
  "requirePublicationBindingTx t repository target = Inr () \<Longrightarrow>
     \<exists>b\<in>set (pt_bindings t). tb_target b = target \<and> tb_repository b = repository"
  by (auto simp: requirePublicationBindingTx_def length_Suc_conv filter_eq_Cons_iff)

lemma find_attempt_Some: "find_attempt t i = Some a \<Longrightarrow> the_attempt t i = Inr a \<and> a \<in> set (pt_attempts t) \<and> at_identity a = i"
  using find_Some_iff[of "\<lambda>a. at_identity a = i" "pt_attempts t" a]
  by (auto simp: find_attempt_def the_attempt_def one_row_def)

lemma put_attempt_keeps:
  assumes ok: "publication_ok t" and fit: "attempt_ok n" and planned: "at_phase n = PhasePlanned"
    and apart: "separated n t" and step: "put_attempt_tx db n t = Inr (t', x)"
  shows "publication_ok t'"
proof -
  have bound: "\<exists>b\<in>set (pt_bindings t). tb_target b = at_target n \<and> tb_repository b = at_repository n"
    using step by (intro bound_target) (auto simp: put_attempt_tx_def and_then_Inr_iff)
  show ?thesis
  proof (cases "find_attempt t (at_identity n)")
    case None
    then have fresh: "at_identity n \<notin> at_identity ` set (pt_attempts t)" by (auto simp: find_attempt_def find_None_iff)
    from step None have "insert_attempt db n t = Inr t'"
      by (auto simp: put_attempt_tx_def and_then_Inr_iff publicationAttemptSemanticMatchTx_def)
    then show ?thesis by (rule insert_keeps[OF ok fit planned bound fresh])
  next
    case (Some a)
    note a = find_attempt_Some[OF Some]
    from step Some a consider "t' = t"
      | "at_phase a = PhaseAbandoned" "resurrect_attempt n t = Inr t'" "publicationAttemptSemanticIdentity a = publicationAttemptSemanticIdentity n"
      by (auto simp: put_attempt_tx_def and_then_Inr_iff publicationAttemptSemanticMatchTx_def split: if_splits)
    then show ?thesis
    proof cases
      case 2
      then have "at_target a = at_target n" "at_base a = at_base n"
        using apart a by (auto simp: separated_def list_all_iff)
      then show ?thesis using resurrect_keeps[OF ok _ 2(1) _ _ 2(2)] a by blast
    qed (use ok in simp)
  qed
qed

lemma plan_identity_fields [simp]:
  "publicationAttemptSemanticIdentity (a\<lparr>at_identity := i\<rparr>) = publicationAttemptSemanticIdentity a"
  "publicationAttemptSemanticIdentity (a\<lparr>at_schema := s\<rparr>) = publicationAttemptSemanticIdentity a"
  by (simp_all add: publicationAttemptSemanticIdentity_def)

lemma validate_attempt_identity [simp]:
  "validatePublicationAttempt (a\<lparr>at_identity := i\<rparr>) = validatePublicationAttempt a"
  by (simp add: validatePublicationAttempt_def)

lemma PutPublicationAttempt_keeps:
  assumes ok: "publication_ok t" and apart: "separated a t"
  shows "publication_ok (fst (PutPublicationAttempt db a t))"
proof -
  let ?a = "if at_schema a = 0 then a\<lparr>at_schema := 1\<rparr> else a"
  let ?n = "?a\<lparr>at_identity := publicationAttemptSemanticIdentity ?a\<rparr>"
  have n: "publicationAttemptSemanticIdentity ?a = publicationAttemptSemanticIdentity a" "at_target ?a = at_target a" "at_base ?a = at_base a"
    by simp_all
  have accepted: "s = publicationAttemptSemanticIdentity ?a"
    if "acceptSemanticIdentity (at_identity ?a) (publicationAttemptSemanticIdentity ?a) = Inr s" for s
    using that by (simp add: acceptSemanticIdentity_def split: if_splits)
  have "publication_ok (fst (publication_tx (put_attempt_tx db ?n) t))"
    if "validatePublicationAttempt ?a = Inr ()" "at_phase ?a = PhasePlanned" "\<not> list_ex (\<lambda>v. av_state v \<noteq> ViewPending) (at_views ?a)"
  proof (rule publication_tx_keeps[OF ok])
    have fit: "attempt_ok ?n" by (rule planned_attempt_ok) (use that in simp_all)
    have sep: "separated ?n t" using apart by (simp add: separated_def)
    show "publication_ok t'" if "put_attempt_tx db ?n t = Inr (t', x)" for t' x
      using put_attempt_keeps[OF ok fit _ sep that] \<open>at_phase ?a = PhasePlanned\<close> by simp
  qed
  then show ?thesis
    using ok accepted unfolding PutPublicationAttempt_def Let_def
    by (auto split: sum.split if_split simp del: plan_identity_fields validate_attempt_identity)
qed

subsection \<open>Leaving the write-active phases keeps the invariant\<close>

lemma checkpoint_attempt_unique:
  assumes "publication_ok t" "c \<in> set (pt_checkpoints t)" "d \<in> set (pt_checkpoints t)"
  shows "cp_attempt c = cp_attempt d \<Longrightarrow> c = d" "cp_identity c = cp_identity d \<Longrightarrow> c = d"
  using publication_okD(1)[OF assms(1)] keyed_unique[of cp_attempt _ c d] keyed_unique[of cp_identity _ c d] assms(2,3)
  by (auto simp: tables_keyed_def)

text \<open>The attempt of a checkpoint and the grace record of the same checkpoint change together.\<close>

lemma grace_change_ok:
  assumes ok: "publication_ok t" and a: "a \<in> set (pt_attempts t)" and plan: "same_plan a b" and fit: "attempt_ok b"
    and c: "c \<in> set (pt_checkpoints t)" "cp_attempt c = at_identity a"
    and live: "at_phase a \<noteq> PhaseAbandoned" "\<not> write_active (at_phase b)" and applied: "applied b = applied a"
    and records: "distinct (map gr_checkpoint records)"
    and others: "\<And>g. g \<in> set records \<Longrightarrow> gr_checkpoint g \<noteq> cp_identity c \<Longrightarrow> g \<in> set (pt_grace t)"
    and own: "\<And>g. g \<in> set records \<Longrightarrow> gr_checkpoint g = cp_identity c \<Longrightarrow> gr_target g = cp_target c \<and> at_phase b \<in> grace_phases (gr_state g)"
    and kept: "gr_checkpoint ` set (pt_grace t) \<subseteq> gr_checkpoint ` set records" "cp_identity c \<in> gr_checkpoint ` set records"
  shows "publication_ok (t\<lparr>pt_attempts := replaced a b (pt_attempts t), pt_grace := records\<rparr>)"
proof -
  note parts = publication_okD[OF ok]
  note same = same_plan_fields[OF plan]
  have keyed: "distinct (map at_identity (pt_attempts t))" using parts(1) by (simp add: tables_keyed_def)
  note mem = replaced_set[OF keyed a, of _ b]
  let ?t = "t\<lparr>pt_attempts := replaced a b (pt_attempts t)\<rparr>"
  let ?u = "?t\<lparr>pt_grace := records\<rparr>"
  note fits = replace_attempt_fits[OF ok a plan fit _ applied]
  have "grace_fits ?u"
    unfolding grace_fits_def
  proof (intro conjI ballI impI)
    fix g assume g: "g \<in> set (pt_grace ?u)"
    show "\<exists>c\<in>set (pt_checkpoints ?u). \<exists>x\<in>set (pt_attempts ?u). cp_identity c = gr_checkpoint g \<and> cp_target c = gr_target g
        \<and> at_identity x = cp_attempt c \<and> at_phase x \<in> grace_phases (gr_state g)"
    proof (cases "gr_checkpoint g = cp_identity c")
      case True
      then show ?thesis using own g c same(1) by (intro bexI[of _ c] bexI[of _ b]) (auto simp: mem)
    next
      case False
      then have "g \<in> set (pt_grace t)" using others g by simp
      then obtain d x where d: "d \<in> set (pt_checkpoints t)" "x \<in> set (pt_attempts t)" "cp_identity d = gr_checkpoint g"
          "cp_target d = gr_target g" "at_identity x = cp_attempt d" "at_phase x \<in> grace_phases (gr_state g)"
        using parts(5) by (auto simp: grace_fits_def)
      then have "x \<noteq> a" using checkpoint_attempt_unique(1)[OF ok d(1) c(1)] c(2) False by auto
      then show ?thesis using d by (intro bexI[of _ d] bexI[of _ x]) (auto simp: mem)
    qed
  next
    fix x assume x: "x \<in> set (pt_attempts ?u)" "publicationPhaseRank PhaseGrace \<le> publicationPhaseRank (at_phase x)"
    show "\<exists>c\<in>set (pt_checkpoints ?u). \<exists>g\<in>set (pt_grace ?u). cp_attempt c = at_identity x \<and> gr_checkpoint g = cp_identity c"
    proof (cases "x = b")
      case True
      obtain g where "g \<in> set records" "gr_checkpoint g = cp_identity c" using kept(2) by auto
      then show ?thesis using True c same(1) by (intro bexI[of _ c] bexI[of _ g]) auto
    next
      case False
      then have "x \<in> set (pt_attempts t)" using x(1) by (simp add: mem)
      then obtain d g where d: "d \<in> set (pt_checkpoints t)" "g \<in> set (pt_grace t)" "cp_attempt d = at_identity x" "gr_checkpoint g = cp_identity d"
        using parts(5) x(2) unfolding grace_fits_def by blast
      then obtain g' where "g' \<in> set records" "gr_checkpoint g' = gr_checkpoint g" using kept(1) by (auto simp: image_subset_iff)
      then show ?thesis using d by (intro bexI[of _ d] bexI[of _ g']) auto
    qed
  qed
  moreover have "evidence_fits ?u"
    using parts(6) live(1) by (fastforce simp: evidence_fits_def mem)
  moreover have "tables_keyed ?u" "attempts_fit ?u" "heads_fit ?u" "checkpoints_fit ?u"
    using fits live(2) records
    by (auto simp: tables_keyed_def attempts_fit_def heads_fit_def checkpoints_fit_def sees_head_def)
  ultimately show ?thesis by (simp add: publication_ok_def)
qed

lemma ranks [simp]:
  "publicationPhaseRank PhaseGrace \<le> publicationPhaseRank p \<longleftrightarrow> p \<in> {PhaseGrace, PhaseDeletionVerified, PhaseRetainedReported, PhaseDone}"
  by (cases p) auto

lemma verified_views_fit: "views_fit p views \<Longrightarrow> view_range p = (3, 3) \<Longrightarrow> view_range q = (3, 3) \<Longrightarrow> views_fit q views"
  by (simp add: views_fit_def)

lemma map_update_key:
  assumes "\<And>x. key (f x) = key x"
  shows "map key (map (\<lambda>x. if P x then f x else x) xs) = map key xs"
  using assms by (induction xs) auto

lemma leave_grace_keeps:
  assumes ok: "publication_ok t" and a: "the_attempt t i = Inr a" and c: "c \<in> set (pt_checkpoints t)" "cp_attempt c = i"
    and step: "leave_grace i (cp_identity c) p s t = Inr (t', x)"
    and ends: "p \<in> {PhaseDeletionVerified, PhaseRetainedReported}" "p \<in> grace_phases s"
  shows "publication_ok t'"
proof -
  obtain grace rows where grace: "update_one (\<lambda>g. gr_checkpoint g = cp_identity c \<and> gr_state g = ''grace'') (\<lambda>g. g\<lparr>gr_state := s\<rparr>)
         (GoError [ErrConflict] ''grace record changed'') (pt_grace t) = Inr grace"
      and rows: "update_one (\<lambda>a. at_identity a = i \<and> at_phase a = PhaseGrace \<and> at_commit a) (\<lambda>a. a\<lparr>at_phase := p\<rparr>)
         (GoError [ErrConflict] ''grace attempt changed'') (pt_attempts t) = Inr rows"
      and t': "t' = t\<lparr>pt_grace := grace, pt_attempts := rows\<rparr>"
    using step by (auto simp: leave_grace_def and_then_Inr_iff)
  note was = update_one_attempt3[OF ok a rows]
  note row = ok_attempt[OF ok a]
  have keyed: "distinct (map gr_checkpoint (pt_grace t))" using publication_okD(1)[OF ok] by (simp add: tables_keyed_def)
  obtain g where g: "g \<in> set (pt_grace t)" "gr_checkpoint g = cp_identity c \<and> gr_state g = ''grace''"
      "grace = map (\<lambda>r. if gr_checkpoint r = cp_identity c then r\<lparr>gr_state := s\<rparr> else r) (pt_grace t)"
    by (rule update_one_keyed[OF grace keyed, of "cp_identity c"]) auto
  have target: "gr_target g' = cp_target c" if "g' \<in> set (pt_grace t)" "gr_checkpoint g' = cp_identity c" for g'
    using publication_okD(5)[OF ok] that checkpoint_attempt_unique(2)[OF ok c(1)] by (fastforce simp: grace_fits_def)
  have "publication_ok (t\<lparr>pt_attempts := replaced a (a\<lparr>at_phase := p\<rparr>) (pt_attempts t), pt_grace := grace\<rparr>)"
  proof (rule grace_change_ok[OF ok row(1) same_plan_phase(1) _ c(1)])
    show "attempt_ok (a\<lparr>at_phase := p\<rparr>)"
      using row(3) was ends(1) by (intro attempt_ok_step[OF row(3) same_plan_phase(1)]) (auto simp: attempt_ok_def intro: verified_views_fit)
    show "distinct (map gr_checkpoint grace)" using keyed by (simp add: g(3) map_update_key del: map_map)
    show "gr_target g' = cp_target c \<and> at_phase (a\<lparr>at_phase := p\<rparr>) \<in> grace_phases (gr_state g')"
      if "g' \<in> set grace" "gr_checkpoint g' = cp_identity c" for g'
      using that target ends(2) by (auto simp: g(3) split: if_splits)
    show "gr_checkpoint ` set (pt_grace t) \<subseteq> gr_checkpoint ` set grace"
      by (simp only: set_map[symmetric] g(3), subst map_update_key) simp_all
    then show "cp_identity c \<in> gr_checkpoint ` set grace" using g(1,2) by (metis imageI subsetD)
    show "g' \<in> set (pt_grace t)" if "g' \<in> set grace" "gr_checkpoint g' \<noteq> cp_identity c" for g'
      using that by (auto simp: g(3) split: if_splits)
  qed (use c row(2) was(1) ends(1) in \<open>auto simp: applied_def write_active_def\<close>)
  moreover have "t' = t\<lparr>pt_attempts := replaced a (a\<lparr>at_phase := p\<rparr>) (pt_attempts t), pt_grace := grace\<rparr>"
    unfolding t' was(3) by simp
  ultimately show ?thesis by simp
qed

lemma join_evidence_Inr:
  assumes "join_evidence t i report = Inr (j, r)"
  shows "the_attempt t i = Inr (cj_attempt j)" "cj_checkpoint j \<in> set (pt_checkpoints t)" "cp_attempt (cj_checkpoint j) = i"
    "cj_grace j \<in> set (pt_grace t)" "gr_checkpoint (cj_grace j) = cp_identity (cj_checkpoint j)"
  using assms by (auto simp: join_evidence_def and_then_Inr_iff dest!: one_row_Inr)

text \<open>The shape of the transactions that leave grace, with their conditions kept abstract.\<close>

lemma leave_guard:
  "(if p then Inl e else if q then and_then r (\<lambda>_. Inr (t, ()))
     else and_then d (\<lambda>d. if b d then Inl e' else and_then r' (\<lambda>_. body))) = Inr (t', x) \<Longrightarrow> t' = t \<or> body = Inr (t', x)"
  "(if p then Inl e else if q then Inr (t, ()) else and_then d (\<lambda>d. if b d then Inl e' else body)) = Inr (t', x)
     \<Longrightarrow> t' = t \<or> body = Inr (t', x)"
  by (auto simp: and_then_Inr_iff split: if_splits)

lemma complete_guard:
  assumes "(if done' then (if deleted then and_then r (\<lambda>_. Inr (t, ())) else if retained then Inr (t, ()) else Inl e)
      else and_then (if kept then Inr PhaseRetainedReported
        else if gone then and_then r (\<lambda>_. Inr PhaseDeletionVerified) else Inl e')
      (\<lambda>terminal. and_then (update terminal) (\<lambda>rows. Inr (t\<lparr>pt_attempts := rows\<rparr>, ())))) = Inr (t', x)"
  shows "t' = t \<or> (\<exists>p rows. p \<in> {PhaseDeletionVerified, PhaseRetainedReported} \<and> update p = Inr rows \<and> t' = t\<lparr>pt_attempts := rows\<rparr>)"
  using assms by (auto simp: and_then_Inr_iff split: if_splits)

lemma deletion_verified_keeps:
  assumes ok: "publication_ok t" and step: "deletion_verified_tx i report observed t = Inr (t', x)"
  shows "publication_ok t'"
proof -
  obtain j r where j: "join_evidence t i report = Inr (j, r)" using step by (auto simp: deletion_verified_tx_def and_then_Inr_iff)
  have "t' = t \<or> leave_grace i (cp_identity (cj_checkpoint j)) PhaseDeletionVerified ''deletion_verified'' t = Inr (t', x)"
    using step unfolding deletion_verified_tx_def j and_then_simps prod.case by (rule leave_guard(1))
  then consider "t' = t" | "leave_grace i (cp_identity (cj_checkpoint j)) PhaseDeletionVerified ''deletion_verified'' t = Inr (t', x)" by blast
  then show ?thesis
    using ok leave_grace_keeps[OF ok join_evidence_Inr(1-3)[OF j]] by cases (auto simp: grace_phases_def)
qed

lemma retained_reported_keeps:
  assumes ok: "publication_ok t" and step: "retained_reported_tx i report observed t = Inr (t', x)"
  shows "publication_ok t'"
proof -
  obtain j r where j: "join_evidence t i report = Inr (j, r)" using step by (auto simp: retained_reported_tx_def and_then_Inr_iff)
  have "t' = t \<or> leave_grace i (cp_identity (cj_checkpoint j)) PhaseRetainedReported ''retained_reported'' t = Inr (t', x)"
    using step unfolding retained_reported_tx_def j and_then_simps prod.case by (rule leave_guard(2))
  then consider "t' = t" | "leave_grace i (cp_identity (cj_checkpoint j)) PhaseRetainedReported ''retained_reported'' t = Inr (t', x)" by blast
  then show ?thesis
    using ok leave_grace_keeps[OF ok join_evidence_Inr(1-3)[OF j]] by cases (auto simp: grace_phases_def)
qed

lemma complete_keeps:
  assumes ok: "publication_ok t" and step: "complete_attempt_tx i report t = Inr (t', x)"
  shows "publication_ok t'"
proof -
  obtain j r where j: "join_evidence t i report = Inr (j, r)" using step by (auto simp: complete_attempt_tx_def and_then_Inr_iff)
  note a = join_evidence_Inr(1)[OF j]
  have "t' = t \<or> (\<exists>p rows. p \<in> {PhaseDeletionVerified, PhaseRetainedReported}
      \<and> update_one (\<lambda>a. at_identity a = i \<and> at_phase a = p \<and> at_commit a) (\<lambda>a. a\<lparr>at_phase := PhaseDone\<rparr>)
         (GoError [ErrConflict] ''publication completion changed'') (pt_attempts t) = Inr rows \<and> t' = t\<lparr>pt_attempts := rows\<rparr>)"
    using step unfolding complete_attempt_tx_def j and_then_simps prod.case Let_def by (rule complete_guard)
  then consider "t' = t" | p rows where "p \<in> {PhaseDeletionVerified, PhaseRetainedReported}" "t' = t\<lparr>pt_attempts := rows\<rparr>"
      "update_one (\<lambda>a. at_identity a = i \<and> at_phase a = p \<and> at_commit a) (\<lambda>a. a\<lparr>at_phase := PhaseDone\<rparr>)
         (GoError [ErrConflict] ''publication completion changed'') (pt_attempts t) = Inr rows" by blast
  then show ?thesis
  proof cases
    case 2
    note was = update_one_attempt3[OF ok a 2(3)]
    note row = ok_attempt[OF ok a]
    have "publication_ok (t\<lparr>pt_attempts := replaced (cj_attempt j) (cj_attempt j\<lparr>at_phase := PhaseDone\<rparr>) (pt_attempts t)\<rparr>)"
    proof (rule replace_live_attempt_ok[OF ok row(1) same_plan_phase(1)])
      show "attempt_ok (cj_attempt j\<lparr>at_phase := PhaseDone\<rparr>)"
        using row(3) was 2(1) by (intro attempt_ok_step[OF row(3) same_plan_phase(1)]) (auto simp: attempt_ok_def intro: verified_views_fit)
    qed (use was(1) 2(1) in \<open>auto simp: applied_def write_active_def grace_phases_def split: if_splits\<close>)
    then show ?thesis using was(3) by (simp add: 2(2))
  qed (use ok in simp)
qed

lemma current_checkpoint_Inr:
  assumes "current_checkpoint t target checkpoint = Inr (b, a)"
  obtains c where "c \<in> set (pt_checkpoints t)" "cp_identity c = checkpoint" "cp_target c = target" "the_attempt t (cp_attempt c) = Inr a"
  using assms by (auto simp: current_checkpoint_def and_then_Inr_iff dest!: one_row_Inr)

lemma put_grace_keeps:
  assumes ok: "publication_ok t" and state: "gr_state g = ''grace''" and step: "put_grace_tx g t = Inr (t', x)"
  shows "publication_ok t'"
proof (cases "fst (graceSemanticMatchTx t g)")
  case True
  then have "t' = t" using step by (auto simp: put_grace_tx_def split: prod.splits if_splits)
  then show ?thesis using ok by simp
next
  case False
  then obtain b a where ba: "current_checkpoint t (gr_target g) (gr_checkpoint g) = Inr (b, a)"
    using step by (auto simp: put_grace_tx_def and_then_Inr_iff split: prod.splits)
  obtain rows where fresh: "\<forall>h\<in>set (pt_grace t). gr_checkpoint h \<noteq> gr_checkpoint g"
      and rows: "update_one (\<lambda>r. at_identity r = at_identity a \<and> at_phase r = PhaseApplied \<and> at_commit r) (\<lambda>r. r\<lparr>at_phase := PhaseGrace\<rparr>)
         (GoError [ErrConflict] ''applied attempt changed while recording grace'') (pt_attempts t) = Inr rows"
      and t': "t' = t\<lparr>pt_grace := pt_grace t @ [g], pt_attempts := rows\<rparr>"
    using step False ba by (auto simp: put_grace_tx_def and_then_Inr_iff list_ex_iff split: prod.splits if_splits)
  obtain c where c: "c \<in> set (pt_checkpoints t)" "cp_identity c = gr_checkpoint g" "cp_target c = gr_target g" "the_attempt t (cp_attempt c) = Inr a"
    by (rule current_checkpoint_Inr[OF ba])
  note row = ok_attempt[OF ok c(4)]
  note was = update_one_attempt3[OF ok c(4), folded row(2), OF rows]
  have "publication_ok (t\<lparr>pt_attempts := replaced a (a\<lparr>at_phase := PhaseGrace\<rparr>) (pt_attempts t), pt_grace := pt_grace t @ [g]\<rparr>)"
  proof (rule grace_change_ok[OF ok row(1) same_plan_phase(1) _ c(1)])
    show "attempt_ok (a\<lparr>at_phase := PhaseGrace\<rparr>)"
      using row(3) was by (intro attempt_ok_step[OF row(3) same_plan_phase(1)]) (auto simp: attempt_ok_def intro: verified_views_fit)
    show "distinct (map gr_checkpoint (pt_grace t @ [g]))"
      using fresh publication_okD(1)[OF ok] by (auto simp: tables_keyed_def)
    show "gr_target g' = cp_target c \<and> at_phase (a\<lparr>at_phase := PhaseGrace\<rparr>) \<in> grace_phases (gr_state g')"
      if "g' \<in> set (pt_grace t @ [g])" "gr_checkpoint g' = cp_identity c" for g'
    proof -
      have "g' = g" using that fresh c(2) by auto
      then show ?thesis using c(3) state by (simp add: grace_phases_def)
    qed
  qed (use c(2) row(2) was(1) in \<open>auto simp: applied_def write_active_def\<close>)
  moreover have "t' = t\<lparr>pt_attempts := replaced a (a\<lparr>at_phase := PhaseGrace\<rparr>) (pt_attempts t), pt_grace := pt_grace t @ [g]\<rparr>"
    unfolding t' was(3) by simp
  ultimately show ?thesis by simp
qed

subsection \<open>Applying a checkpoint keeps the invariant\<close>

lemma chained_snoc:
  "chained rows previous (log @ [c]) \<longleftrightarrow>
     chained rows previous log \<and> list_ex (\<lambda>a. at_identity a = cp_attempt c \<and> at_base a = log_end previous log) rows"
  by (induction log arbitrary: previous) (auto simp: log_end_def)

lemma swap_head_log:
  assumes ok: "publication_ok t" and h: "the_head t (cp_target c) = Inr h" and swap: "swap_head c h t = Inr heads"
  shows "heads = map (\<lambda>b. log_head (tb_target b)
      (target_checkpoints t (tb_target b) @ (if cp_target c = tb_target b then [c] else []))) (pt_bindings t)"
proof -
  have h': "h = log_head (cp_target c) (target_checkpoints t (cp_target c))" by (rule ok_head[OF ok h])
  have heads: "pt_heads t = map (\<lambda>b. log_head (tb_target b) (target_checkpoints t (tb_target b))) (pt_bindings t)"
    using publication_okD(3)[OF ok] by (simp add: heads_fit_def)
  have target: "th_target (log_head target log) = target" for target log by (simp add: log_head_def)
  have "heads = map (\<lambda>k. if th_target k = cp_target c \<and> th_revision k = th_revision h \<and> th_checkpoint k = th_checkpoint h
      then k\<lparr>th_checkpoint := Some (cp_identity c), th_generation := cp_generation c,
              th_manifest := Some (cp_manifest c), th_revision := th_revision k + 1\<rparr> else k) (pt_heads t)"
    using swap by (auto simp: swap_head_def update_one_def split: if_splits)
  then show ?thesis unfolding heads h'
    by (auto simp: target) (auto simp: log_head_def)
qed

lemma sees_head_other:
  assumes "at_target x \<noteq> cp_target c" "sees_head t x"
    and "pt_checkpoints t' = pt_checkpoints t @ [c]"
  shows "sees_head t' x"
  using assms by (simp add: sees_head_def target_checkpoints_def)

text \<open>A verified attempt becomes applied, and its checkpoint ends the log of the target.\<close>

abbreviation applied_row :: "PublicationAttempt \<Rightarrow> PublicationAttempt" where
  "applied_row a \<equiv> a\<lparr>at_phase := PhaseApplied\<rparr>"

definition applies :: "publication_tables \<Rightarrow> PublicationAttempt \<Rightarrow> AppliedCheckpoint \<Rightarrow> bool" where
  "applies t a c \<longleftrightarrow> publication_ok t \<and> a \<in> set (pt_attempts t) \<and> at_phase a = PhaseVerified \<and> checkpoint_ok c
     \<and> applied_by c (applied_row a)
     \<and> (\<forall>d\<in>set (pt_checkpoints t). cp_identity d \<noteq> cp_identity c \<and> cp_attempt d \<noteq> cp_attempt c)"

definition apply_rows :: "publication_tables \<Rightarrow> PublicationAttempt \<Rightarrow> AppliedCheckpoint \<Rightarrow> target_head list \<Rightarrow> publication_tables" where
  "apply_rows t a c heads = t\<lparr>pt_checkpoints := pt_checkpoints t @ [c], pt_heads := heads,
     pt_attempts := replaced a (applied_row a) (pt_attempts t)\<rparr>"

lemma apply_rows_log [simp]:
  "target_checkpoints (apply_rows t a c heads) target = target_checkpoints t target @ (if cp_target c = target then [c] else [])"
  by (simp add: target_checkpoints_def apply_rows_def)

lemma apply_rows_fields [simp]:
  "pt_bindings (apply_rows t a c heads) = pt_bindings t" "pt_heads (apply_rows t a c heads) = heads"
  "pt_checkpoints (apply_rows t a c heads) = pt_checkpoints t @ [c]" "pt_grace (apply_rows t a c heads) = pt_grace t"
  "pt_attempts (apply_rows t a c heads) = replaced a (applied_row a) (pt_attempts t)"
  "pt_abandoned (apply_rows t a c heads) = pt_abandoned t"
  by (simp_all add: apply_rows_def)

lemma appliesD:
  assumes "applies t a c"
  shows "a \<in> set (pt_attempts t)" "at_phase a = PhaseVerified" "cp_attempt c = at_identity a" "cp_target c = at_target a"
    "x \<in> set (replaced a (applied_row a) (pt_attempts t)) \<longleftrightarrow> x = applied_row a \<or> (x \<in> set (pt_attempts t) \<and> x \<noteq> a)"
    "attempt_ok a" "sees_head t a" "y \<in> set (pt_attempts t) \<Longrightarrow> at_target y = at_target a \<Longrightarrow> write_active (at_phase y) \<Longrightarrow> y = a"
    "publication_ok t"
proof -
  note all = assms[unfolded applies_def]
  show a: "a \<in> set (pt_attempts t)" "at_phase a = PhaseVerified" and ok: "publication_ok t" using all by simp_all
  show "cp_attempt c = at_identity a" "cp_target c = at_target a" using all by (auto simp: applied_by_def)
  show "attempt_ok a" "sees_head t a" "y \<in> set (pt_attempts t) \<Longrightarrow> at_target y = at_target a \<Longrightarrow> write_active (at_phase y) \<Longrightarrow> y = a"
    using publication_okD(2)[OF ok] a by (auto simp: attempts_fit_def write_active_def)
  show "x \<in> set (replaced a (applied_row a) (pt_attempts t)) \<longleftrightarrow> x = applied_row a \<or> (x \<in> set (pt_attempts t) \<and> x \<noteq> a)"
    by (rule replaced_set) (use publication_okD(1)[OF ok] a in \<open>simp_all add: tables_keyed_def\<close>)
qed

lemma applied_row_ok: "attempt_ok a \<Longrightarrow> at_phase a = PhaseVerified \<Longrightarrow> attempt_ok (applied_row a)"
  by (rule attempt_ok_step[OF _ same_plan_phase(1)]) (auto simp: attempt_ok_def validate_attempt_exact intro: verified_views_fit)

lemma apply_attempts_fit:
  assumes "applies t a c"
  shows "attempts_fit (apply_rows t a c heads)" (is "attempts_fit ?u")
  unfolding attempts_fit_def
proof (rule ballI)
  note all = appliesD[OF assms]
  have fits: "attempts_fit t" using publication_okD(2)[OF all(9)] .
  have sees: "sees_head ?u (applied_row a)" using all(3,4) by (simp add: sees_head_def)
  fix x assume "x \<in> set (pt_attempts ?u)"
  then consider "x = applied_row a" | "x \<in> set (pt_attempts t)" "x \<noteq> a" by (auto simp: all(5))
  then show "attempt_ok x \<and> (\<exists>d\<in>set (pt_bindings ?u). tb_target d = at_target x \<and> tb_repository d = at_repository x)
     \<and> (write_active (at_phase x) \<longrightarrow> sees_head ?u x
        \<and> (\<forall>y\<in>set (pt_attempts ?u). at_target y = at_target x \<and> write_active (at_phase y) \<longrightarrow> y = x))
     \<and> (applied x \<longrightarrow> (\<exists>d\<in>set (pt_checkpoints ?u). cp_attempt d = at_identity x))"
  proof cases
    case 1
    then show ?thesis using fits all applied_row_ok[OF all(6,2)] sees by (auto simp: attempts_fit_def)
  next
    case 2
    then have apart: "write_active (at_phase x) \<Longrightarrow> at_target x \<noteq> at_target a" using all(8) by blast
    note old = fits[unfolded attempts_fit_def, rule_format, OF 2(1)]
    have sees: "sees_head ?u x" if "write_active (at_phase x)"
      by (rule sees_head_other[of x c t]) (use old apart[OF that] all(4) that in simp_all)
    have "y = x" if "write_active (at_phase x)" "y \<in> set (pt_attempts ?u)" "at_target y = at_target x" "write_active (at_phase y)" for y
    proof -
      have "y \<in> set (pt_attempts t)" using that(2,3) apart[OF that(1)] all(5)[of y] by auto
      then show ?thesis using old that by blast
    qed
    then show ?thesis using old sees by auto
  qed
qed

lemma apply_checkpoints_fit:
  assumes "applies t a c"
  shows "checkpoints_fit (apply_rows t a c heads)" (is "checkpoints_fit ?u")
  unfolding checkpoints_fit_def
proof (intro conjI allI ballI)
  note all = appliesD[OF assms]
  have fits: "checkpoints_fit t" using publication_okD(4)[OF all(9)] .
  fix d assume "d \<in> set (pt_checkpoints ?u)"
  then consider "d = c" | "d \<in> set (pt_checkpoints t)" by auto
  then have "checkpoint_ok d \<and> (\<exists>x\<in>set (pt_attempts ?u). applied_by d x)"
  proof cases
    case 1
    then show ?thesis using assms by (auto simp: all(5) applies_def)
  next
    case 2
    then obtain x where x: "checkpoint_ok d" "x \<in> set (pt_attempts t)" "applied_by d x"
      using fits by (auto simp: checkpoints_fit_def)
    moreover from this have "x \<noteq> a" using all(2) by (auto simp: applied_by_def applied_def)
    ultimately show ?thesis by (auto simp: all(5))
  qed
  then show "checkpoint_ok d" "\<exists>x\<in>set (pt_attempts ?u). applied_by d x" by simp_all
next
  note all = appliesD[OF assms]
  have keyed: "distinct (map at_identity (pt_attempts t))" using publication_okD(1)[OF all(9)] by (simp add: tables_keyed_def)
  fix target
  have "chained (pt_attempts ?u) '''' (target_checkpoints t target)"
    using publication_okD(4)[OF all(9)] chained_replaced[OF keyed all(1) same_plan_phase(1)] by (simp add: checkpoints_fit_def)
  moreover have "list_ex (\<lambda>x. at_identity x = cp_attempt c \<and> at_base x = log_end '''' (target_checkpoints t target)) (pt_attempts ?u)"
    if "cp_target c = target"
    using all(2-4,7) that all(5)[of "applied_row a"] by (auto simp: list_ex_iff sees_head_def Let_def intro!: bexI[of _ "applied_row a"])
  ultimately show "chained (pt_attempts ?u) '''' (target_checkpoints ?u target)" by (simp add: chained_snoc)
qed

lemma apply_grace_fits:
  assumes "applies t a c"
  shows "grace_fits (apply_rows t a c heads)" (is "grace_fits ?u")
  unfolding grace_fits_def
proof (intro conjI ballI impI)
  note all = appliesD[OF assms]
  fix g assume "g \<in> set (pt_grace ?u)"
  then obtain d x where d: "d \<in> set (pt_checkpoints t)" "x \<in> set (pt_attempts t)" "cp_identity d = gr_checkpoint g"
      "cp_target d = gr_target g" "at_identity x = cp_attempt d" "at_phase x \<in> grace_phases (gr_state g)"
    using publication_okD(5)[OF all(9)] by (auto simp: grace_fits_def)
  moreover from this have "x \<noteq> a" using all(2) by (auto simp: grace_phases_def split: if_splits)
  ultimately show "\<exists>d\<in>set (pt_checkpoints ?u). \<exists>x\<in>set (pt_attempts ?u). cp_identity d = gr_checkpoint g
      \<and> cp_target d = gr_target g \<and> at_identity x = cp_attempt d \<and> at_phase x \<in> grace_phases (gr_state g)"
    by (intro bexI[of _ d] bexI[of _ x]) (auto simp: all(5))
next
  note all = appliesD[OF assms]
  fix x assume "x \<in> set (pt_attempts ?u)" "publicationPhaseRank PhaseGrace \<le> publicationPhaseRank (at_phase x)"
  moreover from this have "x \<in> set (pt_attempts t)" by (auto simp: all(5))
  ultimately obtain d g where "d \<in> set (pt_checkpoints t)" "g \<in> set (pt_grace t)" "cp_attempt d = at_identity x" "gr_checkpoint g = cp_identity d"
    using publication_okD(5)[OF all(9)] unfolding grace_fits_def by blast
  then show "\<exists>d\<in>set (pt_checkpoints ?u). \<exists>g\<in>set (pt_grace ?u). cp_attempt d = at_identity x \<and> gr_checkpoint g = cp_identity d"
    by (intro bexI[of _ d] bexI[of _ g]) auto
qed

lemma apply_keeps:
  assumes "applies t a c" "the_head t (cp_target c) = Inr h" "swap_head c h t = Inr heads"
  shows "publication_ok (apply_rows t a c heads)"
proof -
  note all = appliesD[OF assms(1)]
  note parts = publication_okD[OF all(9)]
  have "tables_keyed (apply_rows t a c heads)"
    using parts(1) assms(1) by (auto simp: tables_keyed_def replaced_identities applies_def)
  moreover have "heads_fit (apply_rows t a c heads)"
    using swap_head_log[OF all(9) assms(2,3)] by (simp add: heads_fit_def)
  moreover have "evidence_fits (apply_rows t a c heads)"
    using parts(6) all(2) by (fastforce simp: evidence_fits_def all(5))
  ultimately show ?thesis
    using apply_attempts_fit[OF assms(1)] apply_checkpoints_fit[OF assms(1)] apply_grace_fits[OF assms(1)]
    by (simp add: publication_ok_def)
qed

text \<open>What a new checkpoint needs, in the order in which the transaction asks for it.\<close>

lemma apply_checkpoint_Inr:
  assumes step: "apply_checkpoint_tx c t = Inr (t', i)"
  shows "i = cp_identity c \<and> (t' = t \<or> (\<exists>a h heads rows. the_attempt t (cp_attempt c) = Inr a \<and> at_repository a = cp_repository c \<and> at_target a = cp_target c
     \<and> at_generation a = cp_generation c \<and> at_manifest a = cp_manifest c \<and> at_phase a = PhaseVerified
     \<and> checkpointViewsMatchVerifiedAttempt (cp_views c) (at_views a)
     \<and> the_head t (cp_target c) = Inr h \<and> \<not> base_differs h (at_base a) \<and> swap_head c h t = Inr heads
     \<and> (\<forall>d\<in>set (pt_checkpoints t). cp_identity d \<noteq> cp_identity c \<and> cp_attempt d \<noteq> cp_attempt c)
     \<and> update_one (\<lambda>a. at_identity a = cp_attempt c \<and> at_phase a = PhaseVerified \<and> at_commit a) (\<lambda>a. a\<lparr>at_phase := PhaseApplied\<rparr>)
                   (GoError [ErrConflict] ''verified attempt changed while applying checkpoint'') (pt_attempts t) = Inr rows
     \<and> t' = t\<lparr>pt_checkpoints := pt_checkpoints t @ [c], pt_heads := heads, pt_attempts := rows\<rparr>))"
proof (cases "List.find (\<lambda>d. cp_identity d = cp_identity c) (pt_checkpoints t)")
  case None
  then have "\<forall>d\<in>set (pt_checkpoints t). cp_identity d \<noteq> cp_identity c" by (simp add: find_None_iff)
  then show ?thesis
    using step None unfolding apply_checkpoint_tx_def appliedCheckpointSemanticMatchTx_def option.case prod.case if_False
    by (auto simp: and_then_Inr_iff list_ex_iff split: if_splits)
next
  case (Some d)
  then show ?thesis using step
    unfolding apply_checkpoint_tx_def appliedCheckpointSemanticMatchTx_def option.case prod.case if_True
    by (auto simp: and_then_Inr_iff simp del: appliedCheckpointSemanticIdentity_def split: if_splits)
qed

lemma apply_checkpoint_keeps:
  assumes ok: "publication_ok t" and c: "checkpoint_ok c" and step: "apply_checkpoint_tx c t = Inr (t', i)"
  shows "publication_ok t'"
proof (cases "t' = t")
  case False
  then obtain a h heads rows where a: "the_attempt t (cp_attempt c) = Inr a" "at_repository a = cp_repository c" "at_target a = cp_target c"
      "at_generation a = cp_generation c" "at_manifest a = cp_manifest c" "at_phase a = PhaseVerified"
      and h: "the_head t (cp_target c) = Inr h" "swap_head c h t = Inr heads"
      and fresh: "\<forall>d\<in>set (pt_checkpoints t). cp_identity d \<noteq> cp_identity c \<and> cp_attempt d \<noteq> cp_attempt c"
      and rows: "update_one (\<lambda>a. at_identity a = cp_attempt c \<and> at_phase a = PhaseVerified \<and> at_commit a) (\<lambda>a. a\<lparr>at_phase := PhaseApplied\<rparr>)
                   (GoError [ErrConflict] ''verified attempt changed while applying checkpoint'') (pt_attempts t) = Inr rows"
      and t': "t' = t\<lparr>pt_checkpoints := pt_checkpoints t @ [c], pt_heads := heads, pt_attempts := rows\<rparr>"
    using apply_checkpoint_Inr[OF step] by blast
  have "applies t a c"
    unfolding applies_def applied_by_def using ok a c fresh ok_attempt(1,2)[OF ok a(1)] by (simp add: applied_def)
  then have "publication_ok (apply_rows t a c heads)" by (rule apply_keeps[OF _ h])
  moreover have "t' = apply_rows t a c heads"
    using update_one_attempt3(3)[OF ok a(1) rows] by (simp add: t' apply_rows_def)
  ultimately show ?thesis by simp
qed (use ok in simp)

lemma identity_accepted: "acceptSemanticIdentity provided computed = Inr i \<Longrightarrow> i = computed"
  by (simp add: acceptSemanticIdentity_def split: if_splits)

lemma checkpoint_identity_fields [simp]:
  "appliedCheckpointSemanticIdentity (c\<lparr>cp_identity := i\<rparr>) = appliedCheckpointSemanticIdentity c"
  "validateAppliedCheckpoint (c\<lparr>cp_identity := i\<rparr>) = validateAppliedCheckpoint c"
  "validateAppliedCheckpoint (c\<lparr>cp_inventory_identity := i\<rparr>) = validateAppliedCheckpoint c"
  by (simp_all add: appliedCheckpointSemanticIdentity_def validateAppliedCheckpoint_def)

text \<open>The checkpoint the call computes before its transaction.\<close>

lemma prepared_checkpoint_ok:
  assumes "and_then (validateAppliedCheckpoint c) (\<lambda>_.
              and_then (generationManifestOn db (cp_generation c)) (\<lambda>manifest.
              and_then (case ManifestBytes manifest of
                  Inl _ \<Rightarrow> Inl (plain_error ''checkpoint manifest differs from Generation'')
                | Inr (_, digest) \<Rightarrow>
                    ensure (digest = cp_manifest c) (plain_error ''checkpoint manifest differs from Generation'')) (\<lambda>_.
              and_then (ensure (cp_complete c \<and> inventoryContainsManifest (cp_inventory c) manifest)
                 (plain_error ''complete publication inventory does not contain the Generation manifest closure'')) (\<lambda>_.
              and_then (acceptSemanticIdentity (cp_inventory_identity c) (publicationInventoryIdentity (cp_inventory c))) (\<lambda>inventory.
              let c = c\<lparr>cp_inventory_identity := inventory\<rparr>
              in and_then (acceptSemanticIdentity (cp_identity c) (appliedCheckpointSemanticIdentity c)) (\<lambda>identity.
                 Inr (c\<lparr>cp_identity := identity\<rparr>))))))) = Inr d"
  shows "checkpoint_ok d"
proof -
  obtain manifest where g: "generationManifestOn db (cp_generation c) = Inr manifest"
    using assms by (auto simp: and_then_Inr_iff)
  have "\<exists>p. ManifestBytes manifest = Inr p"
    using assms g by (cases "ManifestBytes manifest") (auto simp: and_then_Inr_iff)
  then obtain bytes digest where m: "generationManifestOn db (cp_generation c) = Inr manifest" "ManifestBytes manifest = Inr (bytes, digest)"
    using g by auto
  have d: "validateAppliedCheckpoint c = Inr ()" "digest = cp_manifest c" "inventoryContainsManifest (cp_inventory c) manifest"
    "d = c\<lparr>cp_inventory_identity := publicationInventoryIdentity (cp_inventory c),
        cp_identity := appliedCheckpointSemanticIdentity (c\<lparr>cp_inventory_identity := publicationInventoryIdentity (cp_inventory c)\<rparr>)\<rparr>"
    using assms by (auto simp: and_then_Inr_iff Let_def m dest!: identity_accepted)
  then show ?thesis using m(2) by (auto simp: checkpoint_ok_def checkpoint_closed_def)
qed

subsection \<open>Every call keeps the invariant\<close>

lemma ok_other_tables [simp]:
  "publication_ok (t\<lparr>pt_reports := rs\<rparr>) = publication_ok t" "publication_ok (t\<lparr>pt_receipts := ds\<rparr>) = publication_ok t"
  "publication_ok (t\<lparr>pt_revisions := vs\<rparr>) = publication_ok t"
  by (simp_all add: publication_ok_def tables_keyed_def attempts_fit_def heads_fit_def checkpoints_fit_def grace_fits_def
      evidence_fits_def sees_head_def target_checkpoints_def)

lemma append_revision:
  "appendPublicationTargetBindingRevisionTx now b n reason confirmed t = Inr t' \<Longrightarrow> \<exists>r. t' = t\<lparr>pt_revisions := r\<rparr>"
  by (auto simp: appendPublicationTargetBindingRevisionTx_def split: if_splits)

lemma checkpoint_target_bound:
  assumes "publication_ok t" "c \<in> set (pt_checkpoints t)"
  shows "cp_target c \<in> tb_target ` set (pt_bindings t)"
proof -
  obtain a where "a \<in> set (pt_attempts t)" "applied_by c a" using publication_okD(4)[OF assms(1)] assms(2) by (auto simp: checkpoints_fit_def)
  moreover from this obtain b where "b \<in> set (pt_bindings t)" "tb_target b = at_target a"
    using publication_okD(2)[OF assms(1)] unfolding attempts_fit_def by blast
  ultimately show ?thesis by (metis applied_by_def imageI)
qed

lemma new_binding_ok:
  assumes ok: "publication_ok t" and new: "tb_target b \<notin> tb_target ` set (pt_bindings t)"
  shows "publication_ok (t\<lparr>pt_bindings := pt_bindings t @ [b], pt_heads := pt_heads t @ [log_head (tb_target b) []]\<rparr>)"
proof -
  note parts = publication_okD[OF ok]
  have "target_checkpoints t (tb_target b) = []"
    using checkpoint_target_bound[OF ok] new unfolding target_checkpoints_def filter_empty_conv by metis
  then show ?thesis
    using parts new unfolding publication_ok_def
    by (auto simp: tables_keyed_def attempts_fit_def heads_fit_def checkpoints_fit_def grace_fits_def evidence_fits_def sees_head_def)
qed

lemma binding_Inr: "publicationTargetBindingTx t target = Inr None \<Longrightarrow> target \<notin> tb_target ` set (pt_bindings t)"
  by (auto simp: publicationTargetBindingTx_def find_None_iff split: option.splits if_splits)

lemma bind_target_keeps:
  assumes ok: "publication_ok t" and step: "bind_target_tx now b t = Inr (t', x)"
  shows "publication_ok t'"
proof (cases "t' = t")
  case False
  then have none: "publicationTargetBindingTx t (tb_target b) = Inr None"
    using step by (cases "publicationTargetBindingTx t (tb_target b)") (auto simp: bind_target_tx_def split: option.splits if_splits)
  obtain v where t': "t' = (t\<lparr>pt_bindings := pt_bindings t @ [b], pt_heads := pt_heads t @ [log_head (tb_target b) []]\<rparr>)\<lparr>pt_revisions := v\<rparr>"
    using step none by (auto simp: bind_target_tx_def and_then_Inr_iff log_head_def split: if_splits dest!: append_revision)
  then show ?thesis using new_binding_ok[OF ok binding_Inr[OF none]] by (simp only: ok_other_tables)
qed (use ok in simp)

lemma changed_bindings_ok:
  assumes ok: "publication_ok t" and f: "\<And>b. tb_target (f b) = tb_target b \<and> tb_repository (f b) = tb_repository b"
  shows "publication_ok (t\<lparr>pt_bindings := map (\<lambda>b. if P b then f b else b) (pt_bindings t)\<rparr>)"
proof -
  note parts = publication_okD[OF ok]
  have "\<exists>d\<in>set (map (\<lambda>b. if P b then f b else b) (pt_bindings t)). tb_target d = target \<and> tb_repository d = repository"
    if "b \<in> set (pt_bindings t)" "tb_target b = target" "tb_repository b = repository" for b target repository
    using that f by (intro bexI[of _ "if P b then f b else b"]) auto
  then show ?thesis
    using parts f unfolding publication_ok_def
    by (auto simp: tables_keyed_def attempts_fit_def heads_fit_def checkpoints_fit_def grace_fits_def evidence_fits_def
        sees_head_def map_update_key simp del: map_map)
qed

lemma rebind_target_keeps:
  assumes ok: "publication_ok t" and step: "rebind_target_tx now b reason t = Inr (t', x)"
  shows "publication_ok t'"
proof (cases "t' = t")
  case False
  then obtain stored where stored: "publicationTargetBindingTx t (tb_target b) = Inr (Some stored)"
    using step by (cases "publicationTargetBindingTx t (tb_target b)") (auto simp: rebind_target_tx_def split: option.splits if_splits)
  obtain bindings where u: "update_one (\<lambda>b. tb_target b = tb_target stored \<and> tb_config b = tb_config stored)
                 (\<lambda>d. d\<lparr>tb_name := tb_name b, tb_public_endpoint := tb_public_endpoint b,
                        tb_max_cache_ttl := tb_max_cache_ttl b, tb_config := tb_config b\<rparr>)
                 (GoError [ErrConflict] ''publication target changed during rebind'') (pt_bindings t) = Inr bindings"
      and t': "\<exists>v. t' = t\<lparr>pt_bindings := bindings, pt_revisions := v\<rparr>"
    using step False unfolding rebind_target_tx_def stored and_then_simps option.case
    by (auto simp: and_then_Inr_iff split: if_splits dest!: append_revision)
  have "bindings = map (\<lambda>d. if tb_target d = tb_target stored \<and> tb_config d = tb_config stored
      then d\<lparr>tb_name := tb_name b, tb_public_endpoint := tb_public_endpoint b,
                        tb_max_cache_ttl := tb_max_cache_ttl b, tb_config := tb_config b\<rparr> else d) (pt_bindings t)"
    using u by (auto simp: update_one_def split: if_splits)
  then have "publication_ok (t\<lparr>pt_bindings := bindings\<rparr>)"
    using changed_bindings_ok[OF ok, of "\<lambda>d. d\<lparr>tb_name := tb_name b, tb_public_endpoint := tb_public_endpoint b,
                        tb_max_cache_ttl := tb_max_cache_ttl b, tb_config := tb_config b\<rparr>"] by simp
  then show ?thesis using t' by auto
qed (use ok in simp)

lemma put_report_keeps:
  assumes ok: "publication_ok t" and step: "put_report_tx db r t = Inr (t', x)"
  shows "publication_ok t'"
proof -
  have "t' = t \<or> (\<exists>rs. t' = t\<lparr>pt_reports := rs\<rparr>)"
    using step unfolding put_report_tx_def
    by (auto simp: and_then_Inr_iff Let_def split: prod.splits if_split_asm)
  then show ?thesis using ok by auto
qed

lemma put_receipt_keeps:
  assumes ok: "publication_ok t" and step: "put_receipt_tx d t = Inr (t', x)"
  shows "publication_ok t'"
proof -
  have "t' = t \<or> (\<exists>ds. t' = t\<lparr>pt_receipts := ds\<rparr>)"
    using step unfolding put_receipt_tx_def
    by (auto simp: and_then_Inr_iff Let_def split: option.splits if_split_asm)
  then show ?thesis using ok by auto
qed

lemma transactions_keep:
  assumes ok: "publication_ok t"
  shows "publication_ok (fst (publication_tx (bind_target_tx now b) t))"
    "publication_ok (fst (publication_tx (rebind_target_tx now b reason) t))"
    "publication_ok (fst (publication_tx (abandon_attempt_tx db i objects) t))"
    "publication_ok (fst (publication_tx (commit_intent_tx i) t))"
    "publication_ok (fst (publication_tx (advance_phase_tx i p) t))"
    "publication_ok (fst (publication_tx (view_state_tx i view pointer s) t))"
    "checkpoint_ok c \<Longrightarrow> publication_ok (fst (publication_tx (apply_checkpoint_tx c) t))"
    "gr_state g = ''grace'' \<Longrightarrow> publication_ok (fst (publication_tx (put_grace_tx g) t))"
    "publication_ok (fst (publication_tx (put_report_tx db r) t))"
    "publication_ok (fst (publication_tx (put_receipt_tx d) t))"
    "publication_ok (fst (publication_tx (deletion_verified_tx i report observed) t))"
    "publication_ok (fst (publication_tx (retained_reported_tx i report observed) t))"
    "publication_ok (fst (publication_tx (complete_attempt_tx i report) t))"
proof -
  show "publication_ok (fst (publication_tx (bind_target_tx now b) t))"
    by (rule publication_tx_keeps[OF ok]) (erule bind_target_keeps[OF ok])
  show "publication_ok (fst (publication_tx (rebind_target_tx now b reason) t))"
    by (rule publication_tx_keeps[OF ok]) (erule rebind_target_keeps[OF ok])
  show "publication_ok (fst (publication_tx (abandon_attempt_tx db i objects) t))"
    by (rule publication_tx_keeps[OF ok]) (erule abandon_keeps[OF ok])
  show "publication_ok (fst (publication_tx (commit_intent_tx i) t))"
    by (rule publication_tx_keeps[OF ok]) (erule commit_intent_keeps[OF ok])
  show "publication_ok (fst (publication_tx (advance_phase_tx i p) t))"
    by (rule publication_tx_keeps[OF ok]) (erule advance_phase_keeps[OF ok])
  show "publication_ok (fst (publication_tx (view_state_tx i view pointer s) t))"
    by (rule publication_tx_keeps[OF ok]) (erule view_state_keeps[OF ok])
  show "publication_ok (fst (publication_tx (apply_checkpoint_tx c) t))" if "checkpoint_ok c"
    by (rule publication_tx_keeps[OF ok]) (erule apply_checkpoint_keeps[OF ok that])
  show "publication_ok (fst (publication_tx (put_grace_tx g) t))" if "gr_state g = ''grace''"
    by (rule publication_tx_keeps[OF ok]) (erule put_grace_keeps[OF ok that])
  show "publication_ok (fst (publication_tx (put_report_tx db r) t))"
    by (rule publication_tx_keeps[OF ok]) (erule put_report_keeps[OF ok])
  show "publication_ok (fst (publication_tx (put_receipt_tx d) t))"
    by (rule publication_tx_keeps[OF ok]) (erule put_receipt_keeps[OF ok])
  show "publication_ok (fst (publication_tx (deletion_verified_tx i report observed) t))"
    by (rule publication_tx_keeps[OF ok]) (erule deletion_verified_keeps[OF ok])
  show "publication_ok (fst (publication_tx (retained_reported_tx i report observed) t))"
    by (rule publication_tx_keeps[OF ok]) (erule retained_reported_keeps[OF ok])
  show "publication_ok (fst (publication_tx (complete_attempt_tx i report) t))"
    by (rule publication_tx_keeps[OF ok]) (erule complete_keeps[OF ok])
qed

lemma sum_keeps:
  "(\<And>d. r = Inr d \<Longrightarrow> publication_ok (fst (f d))) \<Longrightarrow> publication_ok t \<Longrightarrow>
     publication_ok (fst (case r of Inl e \<Rightarrow> (t, Inl e) | Inr d \<Rightarrow> f d))"
  by (cases r) auto

lemma publication_step_keeps:
  assumes "publication_step t t'" "publication_ok t"
  shows "publication_ok t'"
  using assms(1)
proof cases
  case (put_attempt a db)
  then show ?thesis using PutPublicationAttempt_keeps[OF assms(2)] by simp
next
  case (checkpoint clock db c)
  show ?thesis unfolding checkpoint PutAppliedCheckpoint_def Let_def
    by (rule sum_keeps[OF transactions_keep(7)[OF assms(2) prepared_checkpoint_ok[unfolded Let_def]] assms(2)])
next
  case (grace g)
  then show ?thesis using assms(2) transactions_keep(8)[OF assms(2)] by (auto simp: PutGraceRecord_def Let_def split: sum.splits)
qed (use assms(2) in \<open>auto simp: transactions_keep BindPublicationTarget_def RebindPublicationTarget_def AbandonPublicationAttempt_def
      SetPublicationCommitIntent_def AdvancePublicationAttemptPhase_def SetPublicationAttemptViewState_def
      PutPublicationCandidateReport_def PutPublicationDeletionReceipt_def MarkPublicationDeletionVerified_def
      MarkPublicationRetainedReported_def CompletePublicationAttempt_def Let_def split: sum.splits option.splits bool.splits\<close>)

lemma empty_publication_ok: "publication_ok empty_publication"
  by (simp add: publication_ok_def tables_keyed_def attempts_fit_def heads_fit_def checkpoints_fit_def grace_fits_def
      evidence_fits_def empty_publication_def target_checkpoints_def)

lemma publication_reachable_ok: "publication_reachable t \<Longrightarrow> publication_ok t"
  by (induction rule: publication_reachable.induct) (auto intro: empty_publication_ok publication_step_keeps)

end
