(* ===== verification/Publication_Read.thy ===== *)
theory Publication_Read
  imports Publication_Invariant
begin

section \<open>Reading the publication tables (\<open>internal/v2/state/publication_read.go\<close>)\<close>

text \<open>
  The queries of the publication workflow. Each of them recomputes the semantic identities of the rows
  it returns and refuses rows that do not match; a caller never resumes from unchecked rows. A time is
  stored by \<open>formatTimestamp\<close> and read back by \<open>read_back\<close>. \<open>Publication_Readback\<close> shows that on the states
  the store can reach the checks never fail.
\<close>

subsection \<open>Targets\<close>

definition read_back :: "utc_time \<Rightarrow> utc_time option" where
  "read_back time = parse_timestamp (formatTimestamp time)"

definition binding_identities :: "PublicationTargetBinding \<Rightarrow> bool" where
  "binding_identities b \<longleftrightarrow>
     tb_storage b = publicationIdentity ''sow/target-storage/v1'' [tb_provider b, tb_endpoint b, tb_region b, tb_bucket b]
     \<and> tb_target b = publicationIdentity ''sow/target/v1'' [tb_storage b, tb_prefix b]
     \<and> tb_config b = PublicationTargetConfigIdentity b"

definition binding_settings :: "PublicationTargetBinding \<Rightarrow> bool" where
  "binding_settings b \<longleftrightarrow>
     tb_name b \<noteq> '''' \<and> tb_endpoint b \<noteq> '''' \<and> tb_public_endpoint b \<noteq> '''' \<and> 0 \<le> tb_max_cache_ttl b
     \<and> tb_max_cache_ttl b \<le> maximumPublicationCacheTTL"

definition revision_ok :: "nat \<Rightarrow> binding_revision \<Rightarrow> bool" where
  "revision_ok position r \<longleftrightarrow>
     (case parse_timestamp (br_recorded_at r) of None \<Rightarrow> False | Some recorded \<Rightarrow> recorded \<noteq> zero_time)
     \<and> br_revision r = int position
     \<and> \<not> (br_revision r = 1 \<and> (br_confirmed r \<or> br_reason r \<noteq> ''initial_bind'' \<and> br_reason r \<noteq> ''backfill''))
     \<and> \<not> (1 < br_revision r \<and> \<not> br_confirmed r)
     \<and> binding_settings (br_binding r) \<and> binding_identities (br_binding r)"

definition listPublicationTargetBindingRevisionsOn :: "publication_tables \<Rightarrow> string \<Rightarrow> binding_revision list result" where
  "listPublicationTargetBindingRevisionsOn t target =
     (if \<not> validSHA256Text target then Inl (plain_error ''invalid publication target identity'')
      else for_each (\<lambda>read r.
             if revision_ok (length read + 1) r then Inr (read @ [r])
             else Inl (GoError [ErrConflict] ''publication target binding revision is corrupt'')) []
             (sort_key br_revision (filter (\<lambda>r. tb_target (br_binding r) = target) (pt_revisions t))))"

definition getPublicationTargetOn :: "publication_tables \<Rightarrow> string \<Rightarrow> (PublicationTargetBinding \<times> target_head) result" where
  "getPublicationTargetOn t target =
     (if \<not> validSHA256Text target then Inl (plain_error ''invalid publication target identity'')
      else case (List.find (\<lambda>b. tb_target b = target) (pt_bindings t), List.find (\<lambda>h. th_target h = target) (pt_heads t)) of
        (Some b, Some h) \<Rightarrow>
          if \<not> binding_identities b \<or> \<not> binding_settings b
             \<or> \<not> tb_authoritative b \<or> \<not> tb_single_writer b \<or> \<not> tb_exclusive b
             \<or> (head_text h = '''') \<noteq> (th_generation h = 0)
             \<or> (head_text h = '''') \<noteq> (null_string (th_manifest h) = '''')
          then Inl (GoError [ErrConflict] ''publication target semantic identity or head is corrupt'')
          else Inr (b, h)
      | _ \<Rightarrow> Inl (GoError [ErrNotFound] ''publication target''))"

definition validatePublicationTargetBindingRevisions :: "publication_tables \<Rightarrow> unit result" where
  "validatePublicationTargetBindingRevisions t =
     for_each (\<lambda>_ target.
       and_then (getPublicationTargetOn t target) (\<lambda>(b, _).
       and_then (listPublicationTargetBindingRevisionsOn t target) (\<lambda>revisions.
         ensure (revisions \<noteq> [] \<and> br_binding (last revisions) = b)
           (GoError [ErrConflict] ''publication target differs from its append-only binding revisions''))))
       () (sort (map tb_target (pt_bindings t)))"

subsection \<open>Attempts\<close>

definition getPublicationAttemptTx :: "publication_tables \<Rightarrow> string \<Rightarrow> PublicationAttempt result" where
  "getPublicationAttemptTx t i =
     (case find_attempt t i of
        None \<Rightarrow> Inl (GoError [ErrNotFound] ''publication attempt'')
      | Some a \<Rightarrow>
          if publicationAttemptSemanticIdentity a \<noteq> at_identity a \<or> validatePublicationAttempt a \<noteq> Inr ()
          then Inl (GoError [ErrConflict] ''publication attempt semantic identity is corrupt'') else Inr a)"

definition GetPublicationAttempt :: "publication_tables \<Rightarrow> string \<Rightarrow> PublicationAttempt result" where
  "GetPublicationAttempt t i =
     (if \<not> validSHA256Text i then Inl (plain_error ''invalid publication attempt identity'') else getPublicationAttemptTx t i)"

definition GetActivePublicationAttempt :: "publication_tables \<Rightarrow> string \<Rightarrow> PublicationAttempt result" where
  "GetActivePublicationAttempt t target =
     (if \<not> validSHA256Text target then Inl (plain_error ''invalid publication target identity'')
      else case active_attempts t target of
             [] \<Rightarrow> Inl (GoError [ErrNotFound] ''active publication attempt'')
           | a # _ \<Rightarrow> getPublicationAttemptTx t (at_identity a))"

definition HasWriteActivePublication :: "publication_tables \<Rightarrow> bool" where
  "HasWriteActivePublication t \<longleftrightarrow> list_ex (\<lambda>a. write_active (at_phase a)) (pt_attempts t)"

definition HasPendingPublicationMaintenance :: "publication_tables \<Rightarrow> string \<Rightarrow> bool result" where
  "HasPendingPublicationMaintenance t target =
     (if \<not> validSHA256Text target then Inl (plain_error ''invalid publication target identity'')
      else Inr (hasPendingPublicationMaintenanceTx t target))"

text \<open>The abandoned objects of a target; the same object may have been left by several attempts.\<close>

definition abandoned_step :: "PublicationObject list \<Rightarrow> PublicationObject \<Rightarrow> PublicationObject list result" where
  "abandoned_step result object =
     (if result \<noteq> [] \<and> po_object_path (last result) = po_object_path object
      then (if last result \<noteq> object then Inl (GoError [ErrConflict] ''conflicting abandoned object evidence'') else Inr result)
      else Inr (result @ [object]))"

definition abandoned_rows :: "publication_tables \<Rightarrow> string \<Rightarrow> PublicationObject list" where
  "abandoned_rows t target =
     map snd (sort_key (\<lambda>(i, o'). (po_object_path o', i))
       (filter (\<lambda>(i, _). list_ex (\<lambda>a. at_identity a = i \<and> at_target a = target) (pt_attempts t)) (pt_abandoned t)))"

definition ListPublicationAbandonedObjects :: "publication_tables \<Rightarrow> string \<Rightarrow> PublicationObject list result" where
  "ListPublicationAbandonedObjects t target =
     (if \<not> validSHA256Text target then Inl (plain_error ''invalid publication target identity'')
      else and_then (for_each abandoned_step [] (abandoned_rows t target)) (\<lambda>result.
           and_then (ensure (sortedAbandonedObjects result) (GoError [ErrConflict] ''invalid abandoned object evidence'')) (\<lambda>_.
           Inr result)))"

subsection \<open>Checkpoints\<close>

definition getAppliedCheckpointTx :: "publication_tables \<Rightarrow> string \<Rightarrow> AppliedCheckpoint result" where
  "getAppliedCheckpointTx t i =
     (case List.find (\<lambda>c. cp_identity c = i) (pt_checkpoints t) of
        None \<Rightarrow> Inl (GoError [ErrNotFound] ''publication checkpoint'')
      | Some c \<Rightarrow>
          (case read_back (cp_applied_at c) of
             None \<Rightarrow> Inl (GoError [ErrSchema] ''invalid checkpoint timestamp'')
           | Some appliedAt \<Rightarrow>
               let out = c\<lparr>cp_applied_at := appliedAt\<rparr>
               in if publicationInventoryIdentity (cp_inventory out) \<noteq> cp_inventory_identity out
                     \<or> appliedCheckpointSemanticIdentity out \<noteq> cp_identity out \<or> validateAppliedCheckpoint out \<noteq> Inr ()
                  then Inl (GoError [ErrConflict] ''publication checkpoint semantic identity is corrupt'') else Inr out))"

definition GetAppliedCheckpoint :: "publication_tables \<Rightarrow> string \<Rightarrow> AppliedCheckpoint result" where
  "GetAppliedCheckpoint t i =
     (if \<not> validSHA256Text i then Inl (plain_error ''invalid publication checkpoint identity'') else getAppliedCheckpointTx t i)"

definition GetAppliedCheckpointForAttempt :: "publication_tables \<Rightarrow> string \<Rightarrow> AppliedCheckpoint result" where
  "GetAppliedCheckpointForAttempt t i =
     (if \<not> validSHA256Text i then Inl (plain_error ''invalid publication attempt identity'')
      else case List.find (\<lambda>c. cp_attempt c = i) (pt_checkpoints t) of
             None \<Rightarrow> Inl (GoError [ErrNotFound] ''publication checkpoint for attempt'')
           | Some c \<Rightarrow> GetAppliedCheckpoint t (cp_identity c))"

definition getGraceRecordOn :: "publication_tables \<Rightarrow> string \<Rightarrow> GraceRecord result" where
  "getGraceRecordOn t i =
     (if \<not> validSHA256Text i then Inl (plain_error ''invalid publication checkpoint identity'')
      else case List.find (\<lambda>g. gr_checkpoint g = i) (pt_grace t) of
             None \<Rightarrow> Inl (GoError [ErrNotFound] ''publication grace'')
           | Some g \<Rightarrow>
               (case (read_back (gr_verified_at g), read_back (gr_not_before g)) of
                  (Some verified, Some notBefore) \<Rightarrow>
                    let out = g\<lparr>gr_verified_at := verified, gr_not_before := notBefore\<rparr>
                    in if graceSemanticIdentity out \<noteq> gr_identity out
                       then Inl (GoError [ErrConflict] ''publication grace semantic identity is corrupt'') else Inr out
                | _ \<Rightarrow> Inl (GoError [ErrConflict] ''publication grace semantic identity is corrupt'')))"

text \<open>The receipts of the target that ended in \<open>deletion_verified\<close>, each read and checked by its path.\<close>

definition live_keys :: "publication_tables \<Rightarrow> string \<Rightarrow> (string \<times> string) list" where
  "live_keys t target =
     map (\<lambda>d. (dr_report d, po_object_path (dr_object d)))
       (sort_key (\<lambda>d. (po_object_path (dr_object d), dr_report d))
         (filter (\<lambda>d. list_ex (\<lambda>r. rp_identity r = dr_report d \<and> rp_target r = target \<and> rp_mode r = ''conditional_delete''
            \<and> list_ex (\<lambda>c. cp_identity c = rp_checkpoint r
                \<and> list_ex (\<lambda>a. at_identity a = cp_attempt c \<and> at_phase a \<in> {PhaseDeletionVerified, PhaseDone}) (pt_attempts t)
                \<and> list_ex (\<lambda>g. gr_checkpoint g = cp_identity c \<and> gr_state g = ''deletion_verified'') (pt_grace t))
                (pt_checkpoints t)) (pt_reports t)) (pt_receipts t)))"

definition deleted_step :: "publication_tables \<Rightarrow> string list \<Rightarrow> string \<times> string \<Rightarrow> string list result" where
  "deleted_step t deleted = (\<lambda>(report, path).
     and_then (publicationDeletionReceiptByPathTx t report path) (\<lambda>found.
       case found of
         None \<Rightarrow> Inl (GoError [ErrConflict] ''missing terminal deletion receipt'')
       | Some d \<Rightarrow> Inr (deleted @ [publicationObjectEvidenceKey (dr_object d)])))"

definition PublicationLiveInventory :: "publication_tables \<Rightarrow> string \<Rightarrow> PublicationObject list result" where
  "PublicationLiveInventory t i =
     (if \<not> validSHA256Text i then Inl (plain_error ''invalid publication checkpoint identity'')
      else and_then (getAppliedCheckpointTx t i) (\<lambda>checkpoint.
           and_then (for_each (deleted_step t) [] (live_keys t (cp_target checkpoint))) (\<lambda>deleted.
           Inr (filter (\<lambda>o'. publicationObjectEvidenceKey o' \<notin> set deleted) (cp_inventory checkpoint)))))"

subsection \<open>Maintenance\<close>

record PublicationMaintenance =
  pm_attempt :: string
  pm_checkpoint :: string
  pm_grace :: string
  pm_phase :: publication_phase
  pm_state :: string
  pm_not_before :: int

definition maintenance_rows :: "publication_tables \<Rightarrow> string \<Rightarrow> checkpoint_join list" where
  "maintenance_rows t target =
     sort_key (\<lambda>j. (formatTimestamp (gr_not_before (cj_grace j)), cp_identity (cj_checkpoint j)))
       [\<lparr>cj_binding = b, cj_checkpoint = c, cj_attempt = a, cj_grace = g\<rparr>.
          g \<leftarrow> pt_grace t, gr_target g = target, c \<leftarrow> pt_checkpoints t, cp_identity c = gr_checkpoint g,
          a \<leftarrow> pt_attempts t, at_identity a = cp_attempt c \<and> at_phase a \<noteq> PhaseDone,
          b \<leftarrow> pt_bindings t, tb_target b = gr_target g]"

definition maintenance_step :: "PublicationMaintenance list \<Rightarrow> checkpoint_join \<Rightarrow> PublicationMaintenance list result" where
  "maintenance_step items j =
     (let a = cj_attempt j; g = cj_grace j; c = cj_checkpoint j
      in case join_deadline j of
           Inl _ \<Rightarrow> Inl (GoError [ErrConflict] ''invalid publication maintenance state'')
         | Inr notBefore \<Rightarrow>
             if \<not> validSHA256Text (at_identity a) \<or> \<not> validSHA256Text (cp_identity c) \<or> \<not> validSHA256Text (gr_identity g)
                \<or> publicationPhaseRank (at_phase a) < publicationPhaseRank PhaseGrace
                \<or> gr_state g \<notin> {''grace'', ''deletion_verified'', ''retained_reported''}
             then Inl (GoError [ErrConflict] ''invalid publication maintenance state'')
             else Inr (items @ [\<lparr>pm_attempt = at_identity a, pm_checkpoint = cp_identity c, pm_grace = gr_identity g,
                                 pm_phase = at_phase a, pm_state = gr_state g, pm_not_before = notBefore\<rparr>]))"

definition ListPublicationMaintenance :: "publication_tables \<Rightarrow> string \<Rightarrow> PublicationMaintenance list result" where
  "ListPublicationMaintenance t target =
     (if \<not> validSHA256Text target then Inl (plain_error ''invalid publication target identity'')
      else for_each maintenance_step [] (maintenance_rows t target))"

definition GetPublicationCandidateReport :: "publication_tables \<Rightarrow> string \<Rightarrow> PublicationCandidateReport result" where
  "GetPublicationCandidateReport t checkpoint =
     (if \<not> validSHA256Text checkpoint then Inl (plain_error ''invalid publication checkpoint identity'')
      else case List.find (\<lambda>r. rp_checkpoint r = checkpoint) (pt_reports t) of
             None \<Rightarrow> Inl (GoError [ErrNotFound] ''publication candidate report'')
           | Some r \<Rightarrow>
               (case read_back (rp_created_at r) of
                  None \<Rightarrow> Inl (GoError [ErrSchema] ''invalid candidate report timestamp'')
                | Some created \<Rightarrow>
                    let out = r\<lparr>rp_created_at := created, rp_candidates := sort_key po_object_path (rp_candidates r)\<rparr>
                    in if candidateReportSemanticIdentity out \<noteq> rp_identity out \<or> \<not> sortedCandidates (rp_candidates out)
                       then Inl (GoError [ErrConflict] ''candidate report semantic identity is corrupt'') else Inr out))"

definition ExactPublicationCandidates ::
    "utc_time \<Rightarrow> database \<Rightarrow> publication_tables \<Rightarrow> string \<Rightarrow> utc_time \<Rightarrow> PublicationObject list result" where
  "ExactPublicationCandidates now db t checkpoint observedAt =
     (if \<not> validSHA256Text checkpoint then Inl (plain_error ''invalid publication checkpoint identity'')
      else let observed = (if observedAt = zero_time then now else observedAt)
           in and_then (one_row (\<lambda>c. cp_identity c = checkpoint) (pt_checkpoints t)) (\<lambda>c.
              and_then (join_checkpoint t (cp_target c) checkpoint) (\<lambda>j.
              and_then (join_deadline j) (\<lambda>deadline.
              if gr_state (cj_grace j) \<noteq> ''grace'' \<or> at_phase (cj_attempt j) \<noteq> PhaseGrace \<or> time_ns observed < deadline
              then Inl (GoError [ErrTransition] ''publication grace is not ready for maintenance'')
              else if active_attempts t (cp_target c) \<noteq> []
              then Inl (GoError [ErrTransition] ''target has a write-active publication attempt'')
              else exactPublicationCandidatesTx db t checkpoint))))"

definition GetPublicationDeletionReceipt :: "publication_tables \<Rightarrow> string \<Rightarrow> string \<Rightarrow> PublicationDeletionReceipt result" where
  "GetPublicationDeletionReceipt t report path =
     (if \<not> validSHA256Text report \<or> \<not> validPublicationPath path
      then Inl (plain_error ''invalid publication deletion receipt lookup'')
      else and_then (publicationDeletionReceiptByPathTx t report path) (\<lambda>found.
           case found of None \<Rightarrow> Inl (GoError [ErrNotFound] ''publication deletion receipt'') | Some d \<Rightarrow> Inr d))"

end
