(* ===== verification/Publication_Protocol.thy ===== *)
theory Publication_Protocol
  imports Publication_Invariant Sow_Codec
begin

section \<open>The publication protocol as a state machine\<close>

text \<open>
  The calls of the store read and write many tables, but seen from one attempt they are the moves of
  a small machine: forward through the phases, once aside into the abandoned phase and back to the
  start of a fresh plan. This theory states the machine, proves that every call is one of its moves
  or changes no attempt, and derives that the protocol cannot run in circles.
\<close>

subsection \<open>Runs with a measure\<close>

locale ranked_steps =
  fixes step :: "'s \<Rightarrow> 's \<Rightarrow> bool"
    and effective :: "'s \<Rightarrow> 's \<Rightarrow> bool"
    and rank :: "'s \<Rightarrow> nat"
  assumes effective_decreases: "step s t \<Longrightarrow> effective s t \<Longrightarrow> rank t < rank s"
    and idle_keeps: "step s t \<Longrightarrow> \<not> effective s t \<Longrightarrow> rank t = rank s"
begin

lemma effective_prefix:
  assumes "\<forall>k. step (f k) (f (Suc k))"
  shows "card {k. k < n \<and> effective (f k) (f (Suc k))} + rank (f n) \<le> rank (f 0)"
proof (induction n)
  case (Suc n)
  have step: "step (f n) (f (Suc n))" using assms by simp
  show ?case
  proof (cases "effective (f n) (f (Suc n))")
    case True
    then have "{k. k < Suc n \<and> effective (f k) (f (Suc k))} = insert n {k. k < n \<and> effective (f k) (f (Suc k))}"
      by (auto simp: less_Suc_eq)
    then show ?thesis using Suc.IH effective_decreases[OF step True] by simp
  next
    case False
    then have "{k. k < Suc n \<and> effective (f k) (f (Suc k))} = {k. k < n \<and> effective (f k) (f (Suc k))}"
      by (auto simp: less_Suc_eq)
    then show ?thesis using Suc.IH idle_keeps[OF step False] by simp
  qed
qed simp

lemma effective_finite:
  assumes "\<forall>k. step (f k) (f (Suc k))"
  shows "finite {k. effective (f k) (f (Suc k))}" "card {k. effective (f k) (f (Suc k))} \<le> rank (f 0)"
proof -
  let ?E = "{k. effective (f k) (f (Suc k))}"
  have bound: "card B \<le> rank (f 0)" if "B \<subseteq> ?E" "finite B" for B
  proof -
    obtain n where n: "\<forall>k\<in>B. k < n" using \<open>finite B\<close> finite_nat_set_iff_bounded by auto
    then have "card B \<le> card {k. k < n \<and> effective (f k) (f (Suc k))}" using \<open>B \<subseteq> ?E\<close> by (intro card_mono) auto
    then show ?thesis using effective_prefix[OF assms, of n] by simp
  qed
  show "finite ?E"
  proof (rule ccontr)
    assume "infinite ?E"
    then obtain B where "B \<subseteq> ?E" "finite B" "card B = Suc (rank (f 0))" using infinite_arbitrarily_large by metis
    then show False using bound[of B] by simp
  qed
  then show "card ?E \<le> rank (f 0)" using bound[of ?E] by simp
qed

end

subsection \<open>Moves of an attempt\<close>

text \<open>The edges between phases.\<close>

definition phase_can :: "publication_phase \<Rightarrow> publication_phase \<Rightarrow> bool" where
  "phase_can p q \<longleftrightarrow> (p, q) \<in> {(PhasePlanned, PhasePayload), (PhasePayload, PhaseImmutableMetadata),
     (PhaseImmutableMetadata, PhasePointerPrepared), (PhasePointerPrepared, PhaseCommitIntent),
     (PhaseCommitIntent, PhasePointerRollforward), (PhasePointerRollforward, PhaseVerified), (PhaseVerified, PhaseApplied),
     (PhaseApplied, PhaseGrace), (PhaseGrace, PhaseDeletionVerified), (PhaseGrace, PhaseRetainedReported),
     (PhaseDeletionVerified, PhaseDone), (PhaseRetainedReported, PhaseDone), (PhasePlanned, PhaseAbandoned),
     (PhasePayload, PhaseAbandoned), (PhaseImmutableMetadata, PhaseAbandoned), (PhasePointerPrepared, PhaseAbandoned)}"

inductive attempt_move :: "PublicationAttempt \<Rightarrow> PublicationAttempt \<Rightarrow> bool" where
  phase: "phase_can (at_phase a) p \<Longrightarrow> attempt_move a (a\<lparr>at_phase := p, at_commit := (4 \<le> publicationPhaseRank p)\<rparr>)"
| view: "v \<in> set (at_views a) \<Longrightarrow> view_rank s = view_rank (av_state v) + 1 \<Longrightarrow> snd (view_range (at_phase a)) \<ge> view_rank s \<Longrightarrow>
     attempt_move a (a\<lparr>at_views := map (\<lambda>w. if view_pair w = view_pair v then w\<lparr>av_state := s\<rparr> else w) (at_views a)\<rparr>)"

inductive_cases attempt_moveE: "attempt_move a b"

definition fresh_plan :: "PublicationAttempt \<Rightarrow> bool" where
  "fresh_plan a \<longleftrightarrow> at_phase a = PhasePlanned \<and> \<not> at_commit a \<and> (\<forall>v\<in>set (at_views a). av_state v = ViewPending)"

text \<open>What one call does to the attempts: nothing, one move of one attempt, or the start of a plan that is
  new or was abandoned.\<close>

definition attempts_move :: "PublicationAttempt list \<Rightarrow> PublicationAttempt list \<Rightarrow> bool" where
  "attempts_move rows rows' \<longleftrightarrow> (\<exists>a\<in>set rows. \<exists>b. attempt_move a b \<and> rows' = replaced a b rows)"

definition attempts_planned :: "PublicationAttempt list \<Rightarrow> PublicationAttempt list \<Rightarrow> bool" where
  "attempts_planned rows rows' \<longleftrightarrow>
     (\<exists>n. fresh_plan n \<and> at_identity n \<notin> at_identity ` set rows \<and> rows' = rows @ [n])
     \<or> (\<exists>a\<in>set rows. \<exists>b. at_phase a = PhaseAbandoned \<and> fresh_plan b \<and> same_plan a b \<and> rows' = replaced a b rows)"

interpretation publication_machine: phase_machine phase_can "\<lambda>p. p = PhaseDone \<or> p = PhaseAbandoned"
  by unfold_locales (auto simp: phase_can_def)

subsection \<open>Every call is a move\<close>

lemma phase_move:
  assumes ok: "publication_ok t" and a: "the_attempt t i = Inr a" and can: "phase_can (at_phase a) p"
    and rows: "rows = replaced a b (pt_attempts t)" and b: "b = a\<lparr>at_phase := p\<rparr> \<or> b = a\<lparr>at_phase := p, at_commit := True\<rparr>"
    and commit: "at_commit b \<longleftrightarrow> 4 \<le> publicationPhaseRank p"
  shows "attempts_move (pt_attempts t) rows"
proof -
  have "b = a\<lparr>at_phase := p, at_commit := (4 \<le> publicationPhaseRank p)\<rparr>" using b commit by (cases a) auto
  then show ?thesis using ok_attempt(1)[OF ok a] attempt_move.phase[OF can] rows by (auto simp: attempts_move_def)
qed

abbreviation moved :: "publication_tables \<Rightarrow> publication_tables \<Rightarrow> bool" where
  "moved t t' \<equiv> pt_attempts t' = pt_attempts t \<or> attempts_move (pt_attempts t) (pt_attempts t')"

lemma commit_intent_moves:
  assumes ok: "publication_ok t" and step: "commit_intent_tx i t = Inr (t', x)"
  shows "moved t t'"
proof -
  obtain a where a: "the_attempt t i = Inr a" using step by (auto simp: commit_intent_tx_def and_then_Inr_iff)
  have "t' = t \<or> at_phase a = PhasePointerPrepared
      \<and> t' = t\<lparr>pt_attempts := replaced a (a\<lparr>at_phase := PhaseCommitIntent, at_commit := True\<rparr>) (pt_attempts t)\<rparr>"
    using step a ok_attempt(5)[OF ok a] by (auto simp: commit_intent_tx_def split: if_splits)
  then show ?thesis by (auto simp: phase_can_def intro!: phase_move[where p = PhaseCommitIntent, OF ok a])
qed

lemma phase_successor_can: "phase_successor p = Some q \<Longrightarrow> phase_can p q"
  by (cases p) (auto simp: phase_can_def)

lemma advance_phase_moves:
  assumes ok: "publication_ok t" and step: "advance_phase_tx i p t = Inr (t', x)"
  shows "moved t t'"
proof -
  obtain a where a: "the_attempt t i = Inr a" using step by (auto simp: advance_phase_tx_def and_then_Inr_iff)
  have "t' = t \<or> phase_successor (at_phase a) = Some p \<and> (4 \<le> publicationPhaseRank p \<longrightarrow> at_commit a)
      \<and> t' = t\<lparr>pt_attempts := replaced a (a\<lparr>at_phase := p\<rparr>) (pt_attempts t)\<rparr>"
    using step a ok_attempt(5)[OF ok a] by (auto simp: advance_phase_tx_def split: if_splits)
  moreover have "at_commit a \<longleftrightarrow> 4 \<le> publicationPhaseRank p" if "phase_successor (at_phase a) = Some p" "4 \<le> publicationPhaseRank p \<longrightarrow> at_commit a"
    using that attempt_ok_phase[OF ok_attempt(3)[OF ok a]] by (cases "at_phase a") auto
  ultimately show ?thesis by (auto intro!: phase_move[OF ok a _ refl] phase_successor_can)
qed

lemma view_range_low_stays: "3 \<le> fst (view_range p) \<Longrightarrow> fst (view_range p) = 3"
  by (cases p) auto

lemma view_state_moves:
  assumes ok: "publication_ok t" and step: "view_state_tx i view pointer s t = Inr (t', x)"
  shows "moved t t'"
proof -
  obtain a v where a: "the_attempt t i = Inr a" and v: "one_row (is_view view pointer) (at_views a) = Inr v"
    using step by (auto simp: view_state_tx_def and_then_Inr_iff)
  let ?b = "a\<lparr>at_views := map (\<lambda>v. if is_view view pointer v then v\<lparr>av_state := s\<rparr> else v) (at_views a)\<rparr>"
  have v': "v \<in> set (at_views a)" "view_pair v = (view, pointer)" using one_row_Inr[OF v] by (simp_all add: view_pair_def)
  have b: "?b = a\<lparr>at_views := map (\<lambda>w. if view_pair w = view_pair v then w\<lparr>av_state := s\<rparr> else w) (at_views a)\<rparr>"
    using v'(2) by (simp add: view_pair_def)
  consider "t' = t" | "view_rank s = view_rank (av_state v) + 1" "s = ViewPrepared \<longrightarrow> at_phase a = PhasePointerPrepared"
      "2 \<le> view_rank s \<longrightarrow> 4 \<le> publicationPhaseRank (at_phase a)"
      "s = ViewVerified \<longrightarrow> 5 \<le> publicationPhaseRank (at_phase a)" "t' = t\<lparr>pt_attempts := replaced a ?b (pt_attempts t)\<rparr>"
    using step a v ok_attempt(5)[OF ok a] by (auto simp: view_state_tx_def Let_def split: if_splits)
  then show ?thesis
  proof cases
    case 2
    have "view_rank s \<le> snd (view_range (at_phase a))"
      using 2(1-4) view_range_high[of "at_phase a"] by (cases s) auto
    then have "attempt_move a ?b" unfolding b by (rule attempt_move.view[OF v'(1) 2(1)])
    then show ?thesis using ok_attempt(1)[OF ok a] 2(5) by (auto simp: attempts_move_def)
  qed simp
qed

lemma abandon_moves:
  assumes ok: "publication_ok t" and step: "abandon_attempt_tx db i objects t = Inr (t', x)"
  shows "moved t t'"
proof -
  obtain a where a: "the_attempt t i = Inr a" using step by (auto simp: abandon_attempt_tx_def and_then_Inr_iff)
  consider "t' = t" | t1 rows where "for_each (abandon_object db i (at_generation a) (base_paths t (at_base a)))
        (t\<lparr>pt_abandoned := filter (\<lambda>(j, _). j \<noteq> i) (pt_abandoned t)\<rparr>) objects = Inr t1"
      "update_one (\<lambda>a. at_identity a = i \<and> \<not> at_commit a \<and> pre_commit (at_phase a)) (\<lambda>a. a\<lparr>at_phase := PhaseAbandoned\<rparr>)
         (GoError [ErrConflict] ''publication attempt changed while abandoning'') (pt_attempts t1) = Inr rows"
      "t' = t1\<lparr>pt_attempts := rows\<rparr>"
    using step a by (auto simp: abandon_attempt_tx_def and_then_Inr_iff split: if_splits)
  then show ?thesis
  proof cases
    case 2
    have "pt_attempts t1 = pt_attempts t" using abandon_objects_grow[OF 2(1)] by simp
    note was = update_one_attempt3[OF ok a 2(2)[unfolded this]]
    have "phase_can (at_phase a) PhaseAbandoned" using was(2) by (cases "at_phase a") (auto simp: pre_commit_def phase_can_def)
    then have "attempts_move (pt_attempts t) rows"
      by (rule phase_move[where p = PhaseAbandoned, OF ok a _ was(3)]) (use was(1) in simp_all)
    then show ?thesis by (simp add: 2(3))
  qed simp
qed

lemma apply_moves:
  assumes ok: "publication_ok t" and step: "apply_checkpoint_tx c t = Inr (t', i)"
  shows "moved t t'"
proof (cases "t' = t")
  case False
  then obtain a h heads rows where a: "the_attempt t (cp_attempt c) = Inr a" "at_phase a = PhaseVerified"
      and rows: "update_one (\<lambda>a. at_identity a = cp_attempt c \<and> at_phase a = PhaseVerified \<and> at_commit a) (\<lambda>a. a\<lparr>at_phase := PhaseApplied\<rparr>)
                   (GoError [ErrConflict] ''verified attempt changed while applying checkpoint'') (pt_attempts t) = Inr rows"
      and t': "t' = t\<lparr>pt_checkpoints := pt_checkpoints t @ [c], pt_heads := heads, pt_attempts := rows\<rparr>"
    using apply_checkpoint_Inr[OF step] by blast
  note was = update_one_attempt3[OF ok a(1) rows]
  have "attempts_move (pt_attempts t) rows"
    by (rule phase_move[where p = PhaseApplied, OF ok a(1) _ was(3)]) (use was in \<open>simp_all add: phase_can_def\<close>)
  then show ?thesis by (simp add: t')
qed simp

lemma put_grace_moves:
  assumes ok: "publication_ok t" and step: "put_grace_tx g t = Inr (t', x)"
  shows "moved t t'"
proof (cases "fst (graceSemanticMatchTx t g)")
  case True
  then show ?thesis using step by (auto simp: put_grace_tx_def split: prod.splits if_splits)
next
  case False
  then obtain b a where ba: "current_checkpoint t (gr_target g) (gr_checkpoint g) = Inr (b, a)"
    using step by (auto simp: put_grace_tx_def and_then_Inr_iff split: prod.splits)
  obtain rows where
      rows: "update_one (\<lambda>r. at_identity r = at_identity a \<and> at_phase r = PhaseApplied \<and> at_commit r) (\<lambda>r. r\<lparr>at_phase := PhaseGrace\<rparr>)
         (GoError [ErrConflict] ''applied attempt changed while recording grace'') (pt_attempts t) = Inr rows"
      and t': "t' = t\<lparr>pt_grace := pt_grace t @ [g], pt_attempts := rows\<rparr>"
    using step False ba by (auto simp: put_grace_tx_def and_then_Inr_iff split: prod.splits if_splits)
  obtain c :: AppliedCheckpoint where c: "the_attempt t (cp_attempt c) = Inr a" by (rule current_checkpoint_Inr[OF ba])
  note was = update_one_attempt3[OF ok c, folded ok_attempt(2)[OF ok c], OF rows]
  have "attempts_move (pt_attempts t) rows"
    by (rule phase_move[where p = PhaseGrace, OF ok c _ was(3)]) (use was in \<open>simp_all add: phase_can_def\<close>)
  then show ?thesis by (simp add: t')
qed

lemma leave_grace_moves:
  assumes ok: "publication_ok t" and a: "the_attempt t i = Inr a" and step: "leave_grace i checkpoint p s t = Inr (t', x)"
    and ends: "p \<in> {PhaseDeletionVerified, PhaseRetainedReported}"
  shows "moved t t'"
proof -
  obtain grace rows where rows: "update_one (\<lambda>a. at_identity a = i \<and> at_phase a = PhaseGrace \<and> at_commit a) (\<lambda>a. a\<lparr>at_phase := p\<rparr>)
         (GoError [ErrConflict] ''grace attempt changed'') (pt_attempts t) = Inr rows"
      and t': "t' = t\<lparr>pt_grace := grace, pt_attempts := rows\<rparr>"
    using step by (auto simp: leave_grace_def and_then_Inr_iff)
  note was = update_one_attempt3[OF ok a rows]
  have "attempts_move (pt_attempts t) rows"
    by (rule phase_move[where p = p, OF ok a _ was(3)]) (use was ends in \<open>auto simp: phase_can_def\<close>)
  then show ?thesis by (simp add: t')
qed

lemma deletion_verified_moves:
  assumes ok: "publication_ok t" and step: "deletion_verified_tx i report observed t = Inr (t', x)"
  shows "moved t t'"
proof -
  obtain j r where j: "join_evidence t i report = Inr (j, r)" using step by (auto simp: deletion_verified_tx_def and_then_Inr_iff)
  have "t' = t \<or> leave_grace i (cp_identity (cj_checkpoint j)) PhaseDeletionVerified ''deletion_verified'' t = Inr (t', x)"
    using step unfolding deletion_verified_tx_def j and_then_simps prod.case by (rule leave_guard(1))
  then show ?thesis using leave_grace_moves[OF ok join_evidence_Inr(1)[OF j]] by blast
qed

lemma retained_reported_moves:
  assumes ok: "publication_ok t" and step: "retained_reported_tx i report observed t = Inr (t', x)"
  shows "moved t t'"
proof -
  obtain j r where j: "join_evidence t i report = Inr (j, r)" using step by (auto simp: retained_reported_tx_def and_then_Inr_iff)
  have "t' = t \<or> leave_grace i (cp_identity (cj_checkpoint j)) PhaseRetainedReported ''retained_reported'' t = Inr (t', x)"
    using step unfolding retained_reported_tx_def j and_then_simps prod.case by (rule leave_guard(2))
  then show ?thesis using leave_grace_moves[OF ok join_evidence_Inr(1)[OF j]] by blast
qed

lemma complete_moves:
  assumes ok: "publication_ok t" and step: "complete_attempt_tx i report t = Inr (t', x)"
  shows "moved t t'"
proof -
  obtain j r where j: "join_evidence t i report = Inr (j, r)" using step by (auto simp: complete_attempt_tx_def and_then_Inr_iff)
  note a = join_evidence_Inr(1)[OF j]
  have "t' = t \<or> (\<exists>p rows. p \<in> {PhaseDeletionVerified, PhaseRetainedReported}
      \<and> update_one (\<lambda>a. at_identity a = i \<and> at_phase a = p \<and> at_commit a) (\<lambda>a. a\<lparr>at_phase := PhaseDone\<rparr>)
         (GoError [ErrConflict] ''publication completion changed'') (pt_attempts t) = Inr rows \<and> t' = t\<lparr>pt_attempts := rows\<rparr>)"
    using step unfolding complete_attempt_tx_def j and_then_simps prod.case Let_def by (rule complete_guard)
  then consider "t' = t" | p rows where "p \<in> {PhaseDeletionVerified, PhaseRetainedReported}" "t' = t\<lparr>pt_attempts := rows\<rparr>"
      "update_one (\<lambda>a. at_identity a = i \<and> at_phase a = p \<and> at_commit a) (\<lambda>a. a\<lparr>at_phase := PhaseDone\<rparr>)
         (GoError [ErrConflict] ''publication completion changed'') (pt_attempts t) = Inr rows" by blast
  then show ?thesis
  proof cases
    case 2
    note was = update_one_attempt3[OF ok a 2(3)]
    have "attempts_move (pt_attempts t) rows"
      by (rule phase_move[where p = PhaseDone, OF ok a _ was(3)]) (use was 2(1) in \<open>auto simp: phase_can_def\<close>)
    then show ?thesis by (simp add: 2(2))
  qed simp
qed

lemma bindings_keep_attempts:
  "bind_target_tx now b t = Inr (t', x) \<Longrightarrow> pt_attempts t' = pt_attempts t"
  "rebind_target_tx now b reason t = Inr (t', x) \<Longrightarrow> pt_attempts t' = pt_attempts t"
proof -
  assume step: "bind_target_tx now b t = Inr (t', x)"
  then show "pt_attempts t' = pt_attempts t"
    by (cases "publicationTargetBindingTx t (tb_target b)")
      (auto simp: bind_target_tx_def and_then_Inr_iff split: option.splits if_splits dest!: append_revision)
next
  assume step: "rebind_target_tx now b reason t = Inr (t', x)"
  then obtain found where "publicationTargetBindingTx t (tb_target b) = Inr found" by (auto simp: rebind_target_tx_def and_then_Inr_iff)
  with step show "pt_attempts t' = pt_attempts t"
    by (cases found) (auto simp: rebind_target_tx_def and_then_Inr_iff split: if_splits dest!: append_revision)
qed

lemma evidence_keeps_attempts:
  "put_report_tx db r t = Inr (t', x) \<Longrightarrow> pt_attempts t' = pt_attempts t"
  "put_receipt_tx d t = Inr (t', y) \<Longrightarrow> pt_attempts t' = pt_attempts t"
proof -
  assume "put_report_tx db r t = Inr (t', x)"
  then show "pt_attempts t' = pt_attempts t" unfolding put_report_tx_def
    by (auto simp: and_then_Inr_iff Let_def split: prod.splits if_split_asm)
next
  assume "put_receipt_tx d t = Inr (t', y)"
  then show "pt_attempts t' = pt_attempts t" unfolding put_receipt_tx_def
    by (auto simp: and_then_Inr_iff Let_def split: option.splits if_split_asm)
qed

lemma put_attempt_plans:
  assumes ok: "publication_ok t" and fresh: "fresh_plan n" and step: "put_attempt_tx db n t = Inr (t', x)"
  shows "pt_attempts t' = pt_attempts t \<or> attempts_planned (pt_attempts t) (pt_attempts t')"
proof (cases "find_attempt t (at_identity n)")
  case None
  then have "at_identity n \<notin> at_identity ` set (pt_attempts t)" by (auto simp: find_attempt_def find_None_iff)
  moreover have "pt_attempts t' = pt_attempts t @ [n]"
    using step None by (auto simp: put_attempt_tx_def and_then_Inr_iff publicationAttemptSemanticMatchTx_def insert_attempt_def split: if_splits)
  ultimately show ?thesis using fresh by (auto simp: attempts_planned_def)
next
  case (Some a)
  note row = find_attempt_Some[OF Some]
  let ?b = "a\<lparr>at_phase := PhasePlanned, at_views := map (\<lambda>v. v\<lparr>av_state := ViewPending\<rparr>) (at_views a)\<rparr>"
  from step Some row consider "t' = t" | "at_phase a = PhaseAbandoned" "\<not> at_commit a" "resurrect_attempt n t = Inr t'"
    by (auto simp: put_attempt_tx_def and_then_Inr_iff publicationAttemptSemanticMatchTx_def split: if_splits)
  then show ?thesis
  proof cases
    case 2
    have "pt_attempts t' = replaced a ?b (pt_attempts t)"
      using 2(3) row replaced_update[OF ok_attempt(4)[OF ok conjunct1[OF row]], of a]
      by (auto simp: resurrect_attempt_def and_then_Inr_iff update_attempt_def split: if_splits)
    moreover have "fresh_plan ?b" using 2(2) by (simp add: fresh_plan_def)
    ultimately have "attempts_planned (pt_attempts t) (pt_attempts t')"
      unfolding attempts_planned_def using row 2(1) same_plan_phase(4) by blast
    then show ?thesis by simp
  qed simp
qed

lemma publication_tx_cases:
  assumes "\<And>t' x. body t = Inr (t', x) \<Longrightarrow> P t'" "P t"
  shows "P (fst (publication_tx body t))"
  using assms by (auto simp: publication_tx_def split: sum.splits)

lemma transactions_move:
  assumes ok: "publication_ok t"
  shows "moved t (fst (publication_tx (bind_target_tx now b) t))"
    "moved t (fst (publication_tx (rebind_target_tx now b reason) t))"
    "moved t (fst (publication_tx (abandon_attempt_tx db i objects) t))"
    "moved t (fst (publication_tx (commit_intent_tx i) t))"
    "moved t (fst (publication_tx (advance_phase_tx i p) t))"
    "moved t (fst (publication_tx (view_state_tx i view pointer s) t))"
    "moved t (fst (publication_tx (apply_checkpoint_tx c) t))"
    "moved t (fst (publication_tx (put_grace_tx g) t))"
    "moved t (fst (publication_tx (put_report_tx db r) t))"
    "moved t (fst (publication_tx (put_receipt_tx d) t))"
    "moved t (fst (publication_tx (deletion_verified_tx i report observed) t))"
    "moved t (fst (publication_tx (retained_reported_tx i report observed) t))"
    "moved t (fst (publication_tx (complete_attempt_tx i report) t))"
  by (rule publication_tx_cases[where P = "moved t"],
      ((drule bindings_keep_attempts evidence_keeps_attempts, simp)
        | erule abandon_moves[OF ok] commit_intent_moves[OF ok] advance_phase_moves[OF ok] view_state_moves[OF ok]
          apply_moves[OF ok] put_grace_moves[OF ok] deletion_verified_moves[OF ok] retained_reported_moves[OF ok] complete_moves[OF ok]),
      simp)+

lemma sum_cases: "(\<And>d. P (fst (f d))) \<Longrightarrow> P t \<Longrightarrow> P (fst (case r of Inl e \<Rightarrow> (t, Inl e) | Inr d \<Rightarrow> f d))"
  by (cases r) auto

definition call_moves :: "publication_tables \<Rightarrow> publication_tables \<Rightarrow> bool" where
  "call_moves t t' \<longleftrightarrow> moved t t' \<or> attempts_planned (pt_attempts t) (pt_attempts t')"

lemma call_moves_refl: "call_moves t t" by (simp add: call_moves_def)

lemma PutPublicationAttempt_moves:
  assumes ok: "publication_ok t"
  shows "call_moves t (fst (PutPublicationAttempt db a t))"
proof -
  define n where "n = (if at_schema a = 0 then a\<lparr>at_schema := 1\<rparr> else a)"
  have "call_moves t (fst (publication_tx (put_attempt_tx db (n\<lparr>at_identity := i\<rparr>)) t))"
    if "at_phase n = PhasePlanned" "\<not> at_commit n" "\<not> list_ex (\<lambda>v. av_state v \<noteq> ViewPending) (at_views n)" for i
  proof (rule publication_tx_cases[where P = "call_moves t", OF _ call_moves_refl])
    have "fresh_plan (n\<lparr>at_identity := i\<rparr>)" using that by (auto simp: fresh_plan_def list_ex_iff)
    then show "call_moves t u" if "put_attempt_tx db (n\<lparr>at_identity := i\<rparr>) t = Inr (u, x)" for u x
      using put_attempt_plans[OF ok _ that] by (auto simp: call_moves_def)
  qed
  then show ?thesis unfolding PutPublicationAttempt_def Let_def n_def[symmetric] by (auto split: sum.split simp: call_moves_refl)
qed

lemma publication_step_moves:
  assumes step: "publication_step t t'" and ok: "publication_ok t"
  shows "call_moves t t'"
proof -
  have tx: "call_moves t u" if "moved t u" for u using that by (simp add: call_moves_def)
  note moves = transactions_move[OF ok, THEN tx]
  show ?thesis using step
  proof cases
    case (put_attempt a db)
    then show ?thesis using PutPublicationAttempt_moves[OF ok] by simp
  next
    case (checkpoint clock db c)
    show ?thesis unfolding checkpoint PutAppliedCheckpoint_def Let_def
      by (rule sum_cases[where P = "call_moves t", OF moves(7) call_moves_refl])
  qed (use moves in \<open>auto simp: call_moves_refl BindPublicationTarget_def RebindPublicationTarget_def AbandonPublicationAttempt_def
      SetPublicationCommitIntent_def AdvancePublicationAttemptPhase_def SetPublicationAttemptViewState_def PutGraceRecord_def
      PutPublicationCandidateReport_def PutPublicationDeletionReceipt_def MarkPublicationDeletionVerified_def
      MarkPublicationRetainedReported_def CompletePublicationAttempt_def Let_def split: sum.splits option.splits bool.splits\<close>)
qed

subsection \<open>The work left\<close>

definition phase_left :: "publication_phase \<Rightarrow> nat" where
  "phase_left p = (if p = PhaseAbandoned then 0 else nat (11 - publicationPhaseRank p))"

definition view_left :: "PublicationAttemptView \<Rightarrow> nat" where
  "view_left v = 3 - view_rank (av_state v)"

definition attempt_left :: "PublicationAttempt \<Rightarrow> nat" where
  "attempt_left a = phase_left (at_phase a) + sum_list (map view_left (at_views a))"

definition tables_left :: "publication_tables \<Rightarrow> nat" where
  "tables_left t = sum_list (map attempt_left (pt_attempts t))"

lemma sum_list_less:
  fixes f g :: "'a \<Rightarrow> nat"
  assumes "\<forall>x\<in>set xs. f x \<le> g x" "y \<in> set xs" "f y < g y"
  shows "sum_list (map f xs) < sum_list (map g xs)"
  using assms
proof (induction xs)
  case (Cons x xs)
  then have le: "sum_list (map f xs) \<le> sum_list (map g xs)" by (intro sum_list_mono) simp
  show ?case
  proof (cases "y = x")
    case True
    then show ?thesis using Cons.prems(3) le by simp
  next
    case False
    then have "sum_list (map f xs) < sum_list (map g xs)" using Cons by simp
    moreover have "f x \<le> g x" using Cons.prems(1) by simp
    ultimately show ?thesis by simp
  qed
qed simp

lemma attempt_move_plan: "attempt_move a b \<Longrightarrow> same_plan a b"
  by (erule attempt_moveE) (simp_all only: same_plan_phase(2,3))

lemma attempt_move_left:
  assumes "attempt_move a b" "attempt_ok a"
  shows "attempt_left b < attempt_left a"
  using assms(1)
proof cases
  case (phase p)
  then show ?thesis by (auto simp: attempt_left_def phase_left_def phase_can_def)
next
  case (view v s)
  have only: "w = v" if "w \<in> set (at_views a)" "view_pair w = view_pair v" for w
    by (rule keyed_unique[of view_pair "at_views a"]) (use assms(2) that view(2) in \<open>auto simp: attempt_ok_def\<close>)
  have "view_rank s \<le> 3" by (cases s) auto
  then have "sum_list (map (\<lambda>w. view_left (if view_pair w = view_pair v then w\<lparr>av_state := s\<rparr> else w)) (at_views a))
      < sum_list (map view_left (at_views a))"
    using view(2,3) by (intro sum_list_less[of _ _ _ v]) (auto simp: view_left_def dest!: only)
  then show ?thesis by (simp add: view(1) attempt_left_def comp_def)
qed

lemma tables_left_move:
  assumes "publication_ok t" "attempts_move (pt_attempts t) (pt_attempts t')"
  shows "tables_left t' < tables_left t"
proof -
  obtain a b where a: "a \<in> set (pt_attempts t)" "attempt_move a b" "pt_attempts t' = replaced a b (pt_attempts t)"
    using assms(2) by (auto simp: attempts_move_def)
  have "attempt_ok a" "distinct (map at_identity (pt_attempts t))"
    using publication_okD(1,2)[OF assms(1)] a(1) by (simp_all add: attempts_fit_def tables_keyed_def)
  then have left: "attempt_left b < attempt_left a" and only: "r \<in> set (pt_attempts t) \<Longrightarrow> at_identity r = at_identity a \<Longrightarrow> r = a" for r
    using attempt_move_left[OF a(2)] keyed_unique[of at_identity _ r a] a(1) by auto
  then show ?thesis unfolding tables_left_def a(3) replaced_def map_map comp_def
    by (intro sum_list_less[of _ _ _ a]) (auto simp: a(1) dest!: only)
qed

lemma tables_left_bound: "tables_left t \<le> sum_list (map (\<lambda>a. 11 + 3 * length (at_views a)) (pt_attempts t))"
proof -
  have phases: "phase_left p \<le> 11" for p by (cases p) (simp_all add: phase_left_def)
  have "sum_list (map view_left vs) \<le> 3 * length vs" for vs
    by (induction vs) (auto simp: view_left_def intro: le_trans)
  then show ?thesis unfolding tables_left_def attempt_left_def using phases by (intro sum_list_mono add_mono) auto
qed

interpretation publication_run: ranked_steps
    "\<lambda>t t'. publication_ok t \<and> publication_step t t' \<and> \<not> attempts_planned (pt_attempts t) (pt_attempts t')"
    "\<lambda>t t'. pt_attempts t' \<noteq> pt_attempts t" tables_left
  using publication_step_moves tables_left_move by unfold_locales (auto simp: tables_left_def call_moves_def)

subsection \<open>The calls of a publication\<close>

text \<open>
  The calls \<open>Publish\<close> makes for an attempt once it is planned, in its order, with the uploads between
  them left out. A publication that was interrupted starts again with the first of them.
\<close>

type_synonym store_call = "publication_tables \<Rightarrow> publication_tables \<times> unit result"

definition run_call :: "publication_tables \<Rightarrow> store_call \<Rightarrow> publication_tables result" where
  "run_call t call = (case call t of (t', Inl e) \<Rightarrow> Inl e | (t', Inr _) \<Rightarrow> Inr t')"

definition view_calls :: "string \<Rightarrow> string \<Rightarrow> (string \<times> string) list \<Rightarrow> store_call list" where
  "view_calls i state pairs = map (\<lambda>(view, pointer). SetPublicationAttemptViewState i view pointer state) pairs"

definition publish_calls :: "string \<Rightarrow> (string \<times> string) list \<Rightarrow> (string \<times> string) list \<Rightarrow> store_call list" where
  "publish_calls i pairs written =
     [AdvancePublicationAttemptPhase i ''payload'', AdvancePublicationAttemptPhase i ''immutable_metadata'',
      AdvancePublicationAttemptPhase i ''pointer_prepared''] @
     view_calls i ''prepared'' pairs @ [SetPublicationCommitIntent i] @ view_calls i ''applied'' written @
     [AdvancePublicationAttemptPhase i ''pointer_rollforward''] @ view_calls i ''verified'' pairs @
     [AdvancePublicationAttemptPhase i ''verified'']"

text \<open>The attempt has come as far as phase rank \<open>k\<close>, its views as far as \<open>r\<close>, and those in \<open>D\<close> one further.\<close>

definition come :: "publication_tables \<Rightarrow> string \<Rightarrow> (string \<times> string) list \<Rightarrow> int \<Rightarrow> nat \<Rightarrow> (string \<times> string) set \<Rightarrow> bool" where
  "come t i pairs k r D \<longleftrightarrow> publication_ok t \<and> (\<exists>a. the_attempt t i = Inr a \<and> map view_pair (at_views a) = pairs
     \<and> k \<le> publicationPhaseRank (at_phase a) \<and> publicationPhaseRank (at_phase a) \<le> 6
     \<and> (\<forall>v\<in>set (at_views a). r \<le> view_rank (av_state v) \<and> (view_pair v \<in> D \<longrightarrow> Suc r \<le> view_rank (av_state v))))"

lemma come_identity: "come t i pairs k r D \<Longrightarrow> validSHA256Text i"
  using ok_attempt(2,3) by (force simp: come_def attempt_ok_def publicationAttemptSemanticIdentity_def publicationSemanticIdentity_def)

lemma come_views:
  assumes "come t i pairs k r D" "set pairs \<subseteq> D"
  shows "come t i pairs k (Suc r) {}"
proof -
  obtain a where a: "publication_ok t" "the_attempt t i = Inr a" "map view_pair (at_views a) = pairs"
      "k \<le> publicationPhaseRank (at_phase a)" "publicationPhaseRank (at_phase a) \<le> 6"
      and views: "\<forall>v\<in>set (at_views a). view_pair v \<in> D \<longrightarrow> Suc r \<le> view_rank (av_state v)"
    using assms(1) by (auto simp: come_def)
  have "view_pair v \<in> D" if "v \<in> set (at_views a)" for v using that a(3) assms(2) by auto
  then show ?thesis using a views by (auto simp: come_def)
qed

lemma view_rank_verified: "3 \<le> view_rank s \<longleftrightarrow> s = ViewVerified"
  by (cases s) auto

lemma attempt_after:
  assumes ok: "publication_ok t" and a: "the_attempt t i = Inr a" and b: "at_identity b = i"
  shows "the_attempt (t\<lparr>pt_attempts := replaced a b (pt_attempts t)\<rparr>) i = Inr b"
proof -
  note row = ok_attempt[OF ok a]
  show ?thesis
    by (rule the_attempt_keyed) (use row b in \<open>simp_all add: replaced_identities replaced_set\<close>)
qed



lemma come_replace:
  assumes "come t i pairs k r D" and a: "the_attempt t i = Inr a" and ok: "publication_ok t'" and t': "t' = t\<lparr>pt_attempts := replaced a b (pt_attempts t)\<rparr>"
    and plan: "same_plan a b" and rank: "k' \<le> publicationPhaseRank (at_phase b)" "publicationPhaseRank (at_phase b) \<le> 6"
    and views: "\<forall>v\<in>set (at_views b). r' \<le> view_rank (av_state v) \<and> (view_pair v \<in> D' \<longrightarrow> Suc r' \<le> view_rank (av_state v))"
  shows "come t' i pairs k' r' D'"
proof -
  have ok0: "publication_ok t" and pairs: "map view_pair (at_views a) = pairs" using assms(1) a by (auto simp: come_def)
  have "the_attempt t' i = Inr b" unfolding t'
    by (rule attempt_after[OF ok0 a]) (use same_plan_fields(1)[OF plan] ok_attempt(2)[OF ok0 a] in simp)
  then show ?thesis using ok pairs same_plan_fields(9)[OF plan] rank views by (auto simp: come_def)
qed

text \<open>One call that advances the phase.\<close>

lemma advance_run:
  assumes come: "come t i pairs k r {}" and nxt: "allowed_next name = Some p" "publicationPhaseRank p = k + 1"
    and succ: "\<And>q. publicationPhaseRank q = k \<Longrightarrow> phase_successor q = Some p"
    and verified: "p = PhaseVerified \<Longrightarrow> r = 3"
  shows "\<exists>t'. run_call t (AdvancePublicationAttemptPhase i name) = Inr t' \<and> come t' i pairs (k + 1) r {}"
proof -
  obtain a where ok: "publication_ok t" and a: "the_attempt t i = Inr a" and pairs: "map view_pair (at_views a) = pairs"
      and rank: "k \<le> publicationPhaseRank (at_phase a)" "publicationPhaseRank (at_phase a) \<le> 6"
      and views: "\<forall>v\<in>set (at_views a). r \<le> view_rank (av_state v)"
    using come by (auto simp: come_def)
  have call: "run_call t (AdvancePublicationAttemptPhase i name) = Inr t'" if "advance_phase_tx i p t = Inr (t', ())" for t'
    using that come_identity[OF come] by (simp add: AdvancePublicationAttemptPhase_def nxt(1) run_call_def publication_tx_def)
  show ?thesis
  proof (cases "publicationPhaseRank p \<le> publicationPhaseRank (at_phase a)")
    case True
    then have "advance_phase_tx i p t = Inr (t, ())" by (simp add: advance_phase_tx_def a)
    then show ?thesis using call True ok a pairs rank(2) views nxt(2) by (auto simp: come_def)
  next
    case False
    then have at: "publicationPhaseRank (at_phase a) = k" using rank(1) nxt(2) by simp
    let ?t = "t\<lparr>pt_attempts := replaced a (a\<lparr>at_phase := p\<rparr>) (pt_attempts t)\<rparr>"
    have "\<forall>v\<in>set (at_views a). av_state v = ViewVerified" if "p = PhaseVerified"
      using views verified[OF that] by (simp add: view_rank_verified)
    moreover have "4 \<le> publicationPhaseRank p \<longrightarrow> at_commit a"
      using attempt_ok_phase[OF ok_attempt(3)[OF ok a]] succ[OF at] by (cases "at_phase a") auto
    ultimately have step: "advance_phase_tx i p t = Inr (?t, ())"
      using a False succ[OF at] ok_attempt(5)[OF ok a] by (auto simp: advance_phase_tx_def list_ex_iff)
    have top: "publicationPhaseRank p \<le> 6" using succ[OF at] by (cases "at_phase a") auto
    have "come ?t i pairs (k + 1) r {}"
      by (rule come_replace[OF come a advance_phase_keeps[OF ok step] refl same_plan_phase(1)])
        (use nxt(2) at views top in auto)
    then show ?thesis using call[OF step] by blast
  qed
qed

lemma commit_run:
  assumes come: "come t i pairs 3 1 {}"
  shows "\<exists>t'. run_call t (SetPublicationCommitIntent i) = Inr t' \<and> come t' i pairs 4 1 {}"
proof -
  obtain a where ok: "publication_ok t" and a: "the_attempt t i = Inr a" and pairs: "map view_pair (at_views a) = pairs"
      and rank: "3 \<le> publicationPhaseRank (at_phase a)" "publicationPhaseRank (at_phase a) \<le> 6"
      and views: "\<forall>v\<in>set (at_views a). 1 \<le> view_rank (av_state v)"
    using come by (auto simp: come_def)
  note fit = ok_attempt(3)[OF ok a]
  have call: "run_call t (SetPublicationCommitIntent i) = Inr t'" if "commit_intent_tx i t = Inr (t', ())" for t'
    using that come_identity[OF come] by (simp add: SetPublicationCommitIntent_def run_call_def publication_tx_def)
  show ?thesis
  proof (cases "at_phase a = PhasePointerPrepared")
    case False
    then have "4 \<le> publicationPhaseRank (at_phase a)" using rank(1) by (cases "at_phase a") auto
    then have "commit_intent_tx i t = Inr (t, ())" using a attempt_ok_phase[OF fit] by (simp add: commit_intent_tx_def)
    then show ?thesis using call \<open>4 \<le> _\<close> ok a pairs rank(2) views by (auto simp: come_def)
  next
    case True
    let ?b = "a\<lparr>at_phase := PhaseCommitIntent, at_commit := True\<rparr>"
    have prepared: "av_state v = ViewPrepared" if "v \<in> set (at_views a)" for v
    proof -
      have "view_rank (av_state v) = 1"
        using fit True that views by (auto simp: attempt_ok_def views_fit_def list_all_iff intro: le_antisym)
      then show ?thesis by (cases "av_state v") auto
    qed
    have "\<not> at_commit a" using attempt_ok_phase[OF fit] True by simp
    then have step: "commit_intent_tx i t = Inr (t\<lparr>pt_attempts := replaced a ?b (pt_attempts t)\<rparr>, ())"
      using a True prepared ok_attempt(5)[OF ok a] by (auto simp: commit_intent_tx_def list_ex_iff)
    have "come (t\<lparr>pt_attempts := replaced a ?b (pt_attempts t)\<rparr>) i pairs 4 1 {}"
      by (rule come_replace[OF come a commit_intent_keeps[OF ok step] refl same_plan_phase(2)]) (use views in auto)
    then show ?thesis using call[OF step] by blast
  qed
qed

text \<open>One call that records the progress of a view.\<close>

lemma view_run:
  assumes come: "come t i pairs k r D" and pair: "(view, pointer) \<in> set pairs"
    and name: "view_of_text name = Some s" "view_rank s = Suc r" and least: "k = int r + 3"
  shows "\<exists>t'. run_call t (SetPublicationAttemptViewState i view pointer name) = Inr t' \<and> come t' i pairs k r (insert (view, pointer) D)"
proof -
  obtain a where ok: "publication_ok t" and a: "the_attempt t i = Inr a" and pairs: "map view_pair (at_views a) = pairs"
      and rank: "k \<le> publicationPhaseRank (at_phase a)" "publicationPhaseRank (at_phase a) \<le> 6"
      and views: "\<forall>v\<in>set (at_views a). r \<le> view_rank (av_state v) \<and> (view_pair v \<in> D \<longrightarrow> Suc r \<le> view_rank (av_state v))"
    using come by (auto simp: come_def)
  note fit = ok_attempt(3)[OF ok a]
  obtain v where v: "v \<in> set (at_views a)" "view_pair v = (view, pointer)" using pair pairs by auto
  have only: "w = v" if "w \<in> set (at_views a)" "is_view view pointer w" for w
    by (rule keyed_unique[of view_pair "at_views a"]) (use fit that v in \<open>auto simp: attempt_ok_def view_pair_def\<close>)
  have row: "one_row (is_view view pointer) (at_views a) = Inr v"
    using one_row_keyed[of view_pair "at_views a" v "(view, pointer)"] fit v by (simp add: attempt_ok_def view_pair_def)
  have valid: "validSHA256Text i" "validPublicationPath view" "validPublicationPath pointer"
    using come_identity[OF come] fit v by (auto simp: attempt_ok_def validate_attempt_exact plan_valid_def sorted_views_keys view_pair_def)
  have call: "run_call t (SetPublicationAttemptViewState i view pointer name) = Inr t'" if "view_state_tx i view pointer s t = Inr (t', ())" for t'
    using that valid name(1) by (simp add: SetPublicationAttemptViewState_def run_call_def publication_tx_def)
  show ?thesis
  proof (cases "Suc r \<le> view_rank (av_state v)")
    case True
    then have "view_state_tx i view pointer s t = Inr (t, ())" using a row name(2) by (simp add: view_state_tx_def Let_def)
    moreover have "come t i pairs k r (insert (view, pointer) D)"
      using ok a pairs rank views True only by (auto simp: come_def view_pair_def)
    ultimately show ?thesis using call by blast
  next
    case False
    then have current: "view_rank (av_state v) = r" using views v(1) by force
    let ?b = "a\<lparr>at_views := map (\<lambda>w. if is_view view pointer w then w\<lparr>av_state := s\<rparr> else w) (at_views a)\<rparr>"
    let ?t = "t\<lparr>pt_attempts := replaced a ?b (pt_attempts t)\<rparr>"
    have low: "fst (view_range (at_phase a)) \<le> r"
      using fit v(1) current by (auto simp: attempt_ok_def views_fit_def list_all_iff)
    have "s = ViewPrepared \<longrightarrow> at_phase a = PhasePointerPrepared"
      using low rank(1) least name(2) by (cases s; cases "at_phase a") auto
    moreover have "2 \<le> view_rank s \<longrightarrow> at_commit a \<and> 4 \<le> publicationPhaseRank (at_phase a)"
      using rank(1) least name(2) attempt_ok_phase[OF fit] by auto
    moreover have "s = ViewVerified \<longrightarrow> 5 \<le> publicationPhaseRank (at_phase a)" using rank(1) least name(2) by auto
    ultimately have step: "view_state_tx i view pointer s t = Inr (?t, ())"
      using a row name(2) current ok_attempt(5)[OF ok a] by (auto simp: view_state_tx_def Let_def)
    have "come ?t i pairs k r (insert (view, pointer) D)"
      by (rule come_replace[OF come a view_state_keeps[OF ok step] refl same_plan_phase(3)])
        (use rank views name(2) in \<open>auto simp: view_pair_def\<close>)
    then show ?thesis using call[OF step] by blast
  qed
qed

lemma view_calls_run:
  assumes come: "come t i pairs k r D" and sub: "set vs \<subseteq> set pairs"
    and name: "view_of_text name = Some s" "view_rank s = Suc r" and least: "k = int r + 3"
  shows "\<exists>t'. for_each run_call t (view_calls i name vs) = Inr t' \<and> come t' i pairs k r (set vs \<union> D)"
  using come sub
proof (induction vs arbitrary: t D)
  case Nil
  then show ?case by (simp add: view_calls_def)
next
  case (Cons p vs)
  obtain view pointer where p: "p = (view, pointer)" by (cases p)
  obtain t1 where t1: "run_call t (SetPublicationAttemptViewState i view pointer name) = Inr t1" "come t1 i pairs k r (insert p D)"
    using view_run[OF Cons.prems(1) _ name least, of view pointer] Cons.prems(2) p by auto
  obtain t' where t': "for_each run_call t1 (view_calls i name vs) = Inr t'" "come t' i pairs k r (set vs \<union> insert p D)"
    using Cons.IH[OF t1(2)] Cons.prems(2) by auto
  then show ?case using t1(1) by (auto simp: view_calls_def p)
qed

lemma view_round:
  assumes "come t i pairs k r {}" "set vs = set pairs" "view_of_text name = Some s" "view_rank s = Suc r" "k = int r + 3"
  shows "\<exists>t'. for_each run_call t (view_calls i name vs) = Inr t' \<and> come t' i pairs k (Suc r) {}"
  using view_calls_run[OF assms(1) _ assms(3-5), of vs] assms(2) come_views by fastforce

lemma then_run:
  "\<exists>t'. for_each run_call t as = Inr t' \<and> P t' \<Longrightarrow> (\<And>t'. P t' \<Longrightarrow> \<exists>u. for_each run_call t' bs = Inr u \<and> Q u) \<Longrightarrow>
     \<exists>u. for_each run_call t (as @ bs) = Inr u \<and> Q u"
  by (auto simp: for_each_append)

lemma one_call: "\<exists>t'. run_call t c = Inr t' \<and> P t' \<Longrightarrow> \<exists>t'. for_each run_call t [c] = Inr t' \<and> P t'"
  by auto

lemma publish_calls_come:
  assumes come: "come t i pairs 0 0 {}" and written: "set written = set pairs"
  shows "\<exists>t'. for_each run_call t (publish_calls i pairs written) = Inr t' \<and> come t' i pairs 6 3 {}"
proof -
  have texts: "allowed_next ''payload'' = Some PhasePayload" "allowed_next ''immutable_metadata'' = Some PhaseImmutableMetadata"
    "allowed_next ''pointer_prepared'' = Some PhasePointerPrepared" "allowed_next ''pointer_rollforward'' = Some PhasePointerRollforward"
    "allowed_next ''verified'' = Some PhaseVerified"
    "view_of_text ''prepared'' = Some ViewPrepared" "view_of_text ''applied'' = Some ViewApplied" "view_of_text ''verified'' = Some ViewVerified"
    by (simp_all add: allowed_next_def view_of_text_def)
  have succ: "publicationPhaseRank q = 0 \<Longrightarrow> phase_successor q = Some PhasePayload"
    "publicationPhaseRank q = 1 \<Longrightarrow> phase_successor q = Some PhaseImmutableMetadata"
    "publicationPhaseRank q = 2 \<Longrightarrow> phase_successor q = Some PhasePointerPrepared"
    "publicationPhaseRank q = 4 \<Longrightarrow> phase_successor q = Some PhasePointerRollforward"
    "publicationPhaseRank q = 5 \<Longrightarrow> phase_successor q = Some PhaseVerified" for q
    by (cases q; simp)+
  have head: "\<exists>t'. for_each run_call t ([AdvancePublicationAttemptPhase i ''payload''] @ [AdvancePublicationAttemptPhase i ''immutable_metadata''] @
      [AdvancePublicationAttemptPhase i ''pointer_prepared''] @ view_calls i ''prepared'' pairs @ [SetPublicationCommitIntent i]) = Inr t'
      \<and> come t' i pairs 4 1 {}"
    apply (rule then_run[OF one_call[OF advance_run[OF come texts(1) _ succ(1)]]], simp, simp, simp)
    apply (rule then_run[OF one_call[OF advance_run[OF _ texts(2) _ succ(2)]]], simp, simp, simp, simp)
    apply (rule then_run[OF one_call[OF advance_run[OF _ texts(3) _ succ(3)]]], simp, simp, simp, simp)
    apply (rule then_run[OF view_round[OF _ refl texts(6)]], simp, simp, simp)
    apply (rule one_call[OF commit_run], simp)
    done
  have tail: "\<exists>u. for_each run_call t' (view_calls i ''applied'' written @ [AdvancePublicationAttemptPhase i ''pointer_rollforward''] @
      view_calls i ''verified'' pairs @ [AdvancePublicationAttemptPhase i ''verified'']) = Inr u \<and> come u i pairs 6 3 {}"
    if "come t' i pairs 4 1 {}" for t'
    apply (rule then_run[OF view_round[OF that written texts(7)]], simp, simp)
    apply (rule then_run[OF one_call[OF advance_run[OF _ texts(4) _ succ(4)]]], simp, simp, simp, simp)
    apply (rule then_run[OF view_round[OF _ refl texts(8)]], simp, simp, simp)
    apply (rule one_call)
    apply (drule advance_run[OF _ texts(5) _ succ(5)], simp, simp, simp, simp add: numeral_3_eq_3)
    done
  show ?thesis using then_run[OF head tail] by (simp add: publish_calls_def)
qed

end
