(* ===== verification/Go_Duration.thy ===== *)
theory Go_Duration
  imports Publication_Store
begin

section \<open>Adding a duration to a time, and printing one (Go's \<open>time\<close>)\<close>

text \<open>
  A \<open>time.Duration\<close> is a number of nanoseconds. \<open>Time.Add\<close> is computed on the nanoseconds since the first
  day of year 0 and read back into civil fields by counting years and months; \<open>Duration.String\<close> prints
  hours, minutes and seconds with a trimmed fraction, and below one second the largest unit that is not
  zero.
\<close>

subsection \<open>Civil fields of a number of days\<close>

definition year_days :: "nat \<Rightarrow> nat" where
  "year_days y = (if is_leap y then 366 else 365)"

function year_of :: "nat \<Rightarrow> nat \<Rightarrow> nat \<times> nat" where
  "year_of y d = (if d < year_days y then (y, d) else year_of (Suc y) (d - year_days y))"
  by pat_completeness auto
termination by (relation "measure snd") (auto simp: year_days_def split: if_splits)

declare year_of.simps [simp del]

fun month_of :: "nat \<Rightarrow> nat list \<Rightarrow> nat \<Rightarrow> nat \<Rightarrow> nat \<times> nat" where
  "month_of y [] m d = (m, d)"
| "month_of y (k # ks) m d = (if d < days_in m y then (m, d) else month_of y ks (Suc m) (d - days_in m y))"

definition day_ns :: int where
  "day_ns = 86400000000000"

definition time_of_ns :: "int \<Rightarrow> utc_time" where
  "time_of_ns n =
     (let (y, d) = year_of 0 (nat (n div day_ns - 1));
          (m, d') = month_of y [1..<12] 1 d;
          rest = nat (n mod day_ns); secs = rest div 1000000000
      in \<lparr>t_year = y, t_month = m, t_day = d' + 1, t_hour = secs div 3600, t_minute = secs div 60 mod 60,
          t_second = secs mod 60, t_nanos = rest mod 1000000000\<rparr>)"

definition time_Add :: "utc_time \<Rightarrow> int \<Rightarrow> utc_time" where
  "time_Add t d = time_of_ns (time_ns t + d)"

lemma ceil_div:
  assumes "0 < (k :: nat)"
  shows "(y + (k - 1)) div k = y div k + (if y mod k = 0 then 0 else 1)"
proof -
  have "(y + (k - 1)) div k = y div k + (y mod k + (k - 1)) div k"
    using assms by (subst div_add1_eq) simp
  moreover have "(y mod k + (k - 1)) div k = (if y mod k = 0 then 0 else 1)"
  proof (cases "y mod k = 0")
    case False
    then have "y mod k + (k - 1) = k + (y mod k - 1)" using assms by simp
    moreover have "(k + (y mod k - 1)) div k = 1"
    proof -
      have "y mod k - 1 < k" using mod_less_divisor[OF assms, of y] by linarith
      then show ?thesis using assms by (simp only: div_add_self1 div_less)
    qed
    ultimately show ?thesis using False by simp
  qed (use assms in simp)
  ultimately show ?thesis by simp
qed

lemma ceil_div_Suc: "0 < (k :: nat) \<Longrightarrow> (Suc y + (k - 1)) div k = (y + (k - 1)) div k + (if y mod k = 0 then 1 else 0)"
  by (subst ceil_div) (simp_all add: div_add_self2)

lemma year_sum:
  fixes y A B C :: nat
  assumes "B \<le> 365 * y + A" "h \<Longrightarrow> c" "c \<Longrightarrow> q"
  shows "365 * Suc y + (A + (if q then 1 else 0)) - (B + (if c then 1 else 0)) + (C + (if h then 1 else 0))
    = 365 * y + A - B + C + (if q \<and> (\<not> c \<or> h) then 366 else 365)"
  using assms by (cases q; cases c; cases h) simp_all

lemma days_before_Suc: "days_before_year (Suc y) = days_before_year y + year_days y"
proof -
  have q: "(Suc y + 3) div 4 = (y + 3) div 4 + (if y mod 4 = 0 then 1 else 0)" using ceil_div_Suc[of 4 y] by simp
  have c: "(Suc y + 99) div 100 = (y + 99) div 100 + (if y mod 100 = 0 then 1 else 0)" using ceil_div_Suc[of 100 y] by simp
  have f: "(Suc y + 399) div 400 = (y + 399) div 400 + (if y mod 400 = 0 then 1 else 0)" using ceil_div_Suc[of 400 y] by simp
  have le: "(y + 99) div 100 \<le> 365 * y + (y + 3) div 4" by linarith
  have "y mod 400 = 0 \<Longrightarrow> y mod 100 = 0"
    using dvd_trans[of 100 400 y] by (simp add: mod_eq_0_iff_dvd)
  moreover have "y mod 100 = 0 \<Longrightarrow> y mod 4 = 0"
    using dvd_trans[of 4 100 y] by (simp add: mod_eq_0_iff_dvd)
  ultimately show ?thesis
    unfolding days_before_year_def year_days_def is_leap_def q c f by (rule year_sum[OF le])
qed

lemma year_of_spec:
  "year_of y d = (y', d') \<Longrightarrow> days_before_year y + d = days_before_year y' + d' \<and> d' < year_days y'"
proof (induction y d rule: year_of.induct)
  case (1 y d)
  show ?case
  proof (cases "d < year_days y")
    case True
    then show ?thesis using "1.prems" by (simp add: year_of.simps[of y d])
  next
    case False
    then have "year_of (Suc y) (d - year_days y) = (y', d')" using "1.prems" by (simp add: year_of.simps[of y d])
    then show ?thesis using "1.IH"[OF False] False by (simp add: days_before_Suc)
  qed
qed

lemma month_of_spec:
  assumes "month_of y ks m d = (m', d')" and "d < sum_list (map (\<lambda>i. days_in i y) [m..<Suc (m + length ks)])"
  shows "m \<le> m' \<and> m' \<le> m + length ks \<and> d' < days_in m' y
    \<and> d = sum_list (map (\<lambda>i. days_in i y) [m..<m']) + d'"
  using assms
proof (induction ks arbitrary: m d)
  case (Cons k ks)
  have split: "[m..<Suc (m + length (k # ks))] = m # [Suc m..<Suc (Suc m + length ks)]"
    by (subst upt_conv_Cons) simp_all
  show ?case
  proof (cases "d < days_in m y")
    case False
    then have rec: "month_of y ks (Suc m) (d - days_in m y) = (m', d')" using Cons.prems(1) by simp
    have "d - days_in m y < sum_list (map (\<lambda>i. days_in i y) [Suc m..<Suc (Suc m + length ks)])"
      using Cons.prems(2) False unfolding split by simp
    note ih = Cons.IH[OF rec this]
    then have "[m..<m'] = m # [Suc m..<m']" by (simp add: upt_conv_Cons)
    then have "sum_list (map (\<lambda>i. days_in i y) [m..<m']) = days_in m y + sum_list (map (\<lambda>i. days_in i y) [Suc m..<m'])"
      by simp
    then show ?thesis using ih False by (intro conjI; (simp; fail | linarith))
  qed (use Cons.prems in \<open>simp split: if_splits\<close>)
qed simp

lemma year_months: "sum_list (map (\<lambda>i. days_in i y) [1..<13]) = year_days y"
  by (simp add: upt_rec numeral_eq_Suc days_in_def year_days_def)

lemma seconds_split: "(s :: nat) div 3600 * 3600 + s div 60 mod 60 * 60 + s mod 60 = s"
proof -
  have "s div 3600 = s div 60 div 60" by (simp add: div_mult2_eq[symmetric])
  then show ?thesis
    using div_mult_mod_eq[of "s div 60" 60] div_mult_mod_eq[of s 60] by linarith
qed

lemma fields_ns:
  "time_ns \<lparr>t_year = y, t_month = m, t_day = d, t_hour = s div 3600, t_minute = s div 60 mod 60, t_second = s mod 60, t_nanos = k\<rparr>
    = int (days_before_year y + sum_list (map (\<lambda>i. days_in i y) [1..<m]) + d) * day_ns + int s * 1000000000 + int k"
proof -
  have "int (s div 3600) * 3600 + int (s div 60 mod 60) * 60 + int (s mod 60) = int s"
    using arg_cong[OF seconds_split[of s], of int] by (simp only: of_nat_add of_nat_mult of_nat_numeral)
  then have "unix_like_seconds \<lparr>t_year = y, t_month = m, t_day = d, t_hour = s div 3600, t_minute = s div 60 mod 60,
      t_second = s mod 60, t_nanos = k\<rparr>
    = int (days_before_year y + sum_list (map (\<lambda>i. days_in i y) [1..<m]) + d) * 86400 + int s"
    unfolding unix_like_seconds_def day_number_def utc_time.select_convs by linarith
  then show ?thesis unfolding time_ns_def day_ns_def utc_time.select_convs by linarith
qed

lemma time_ns_of_ns:
  assumes "day_ns \<le> n"
  shows "time_ns (time_of_ns n) = n"
proof -
  let ?days = "nat (n div day_ns - 1)"
  obtain rest where rest: "rest = nat (n mod day_ns)" by simp
  obtain y d where y: "year_of 0 ?days = (y, d)" by (cases "year_of 0 ?days")
  obtain m d' where m: "month_of y [1..<12] 1 d = (m, d')" by (cases "month_of y [1..<12] 1 d")
  have days: "days_before_year y + d = ?days" "d < year_days y"
    using year_of_spec[OF y] by (simp_all add: days_before_year_def)
  have month: "d = sum_list (map (\<lambda>i. days_in i y) [1..<m]) + d'"
    using month_of_spec[OF m] days(2) year_months[of y] by (simp add: eval_nat_numeral)
  have pos: "1 \<le> n div day_ns" using assms by (simp add: day_ns_def int_one_le_iff_zero_less pos_imp_zdiv_pos_iff)
  have "int (days_before_year y + sum_list (map (\<lambda>i. days_in i y) [1..<m]) + (d' + 1)) = n div day_ns"
    using days(1) month pos by linarith
  moreover have "int (rest div 1000000000) * 1000000000 + int (rest mod 1000000000) = n mod day_ns"
  proof -
    have "int rest = n mod day_ns" by (simp add: rest day_ns_def)
    then show ?thesis
      using arg_cong[OF div_mult_mod_eq[of rest 1000000000], of int] by (simp only: of_nat_add of_nat_mult of_nat_numeral)
  qed
  moreover have "time_of_ns n = \<lparr>t_year = y, t_month = m, t_day = d' + 1, t_hour = rest div 1000000000 div 3600,
      t_minute = rest div 1000000000 div 60 mod 60, t_second = rest div 1000000000 mod 60, t_nanos = rest mod 1000000000\<rparr>"
    unfolding time_of_ns_def y m rest Let_def prod.case by (rule refl)
  ultimately show ?thesis
    using fields_ns[of y m "d' + 1" "rest div 1000000000" "rest mod 1000000000"] div_mult_mod_eq[of n day_ns] by (simp only:)
qed

text \<open>Adding a duration to a time after the first day of year 0 moves it by exactly that much.\<close>

lemma time_ns_Add: "day_ns \<le> time_ns t + d \<Longrightarrow> time_ns (time_Add t d) = time_ns t + d"
  by (simp add: time_Add_def time_ns_of_ns)

subsection \<open>The order of civil times\<close>

definition civil :: "utc_time \<Rightarrow> bool" where
  "civil t \<longleftrightarrow> 1 \<le> t_month t \<and> t_month t \<le> 12 \<and> 1 \<le> t_day t \<and> t_day t \<le> days_in (t_month t) (t_year t)
     \<and> t_hour t < 24 \<and> t_minute t < 60 \<and> t_second t < 60 \<and> t_nanos t < 1000000000"

lemma valid_civil: "valid_utc t \<Longrightarrow> civil t"
  by (auto simp: valid_utc_def civil_def)

lemma days_before_mono: "y < y' \<Longrightarrow> days_before_year y + year_days y \<le> days_before_year y'"
proof (induction y')
  case (Suc k)
  then show ?case by (cases "y = k") (auto simp: days_before_Suc)
qed simp

abbreviation month_sum :: "nat \<Rightarrow> nat \<Rightarrow> nat" where
  "month_sum y m \<equiv> sum_list (map (\<lambda>i. days_in i y) [1..<m])"

lemma month_sum_Suc: "1 \<le> m \<Longrightarrow> month_sum y (Suc m) = month_sum y m + days_in m y"
  by simp

lemma month_sum_mono: "1 \<le> m \<Longrightarrow> m < m' \<Longrightarrow> month_sum y m + days_in m y \<le> month_sum y m'"
proof (induction m')
  case (Suc k)
  then show ?case by (cases "m = k") auto
qed simp

lemma month_sum_year: "1 \<le> m \<Longrightarrow> m \<le> 12 \<Longrightarrow> month_sum y m + days_in m y \<le> year_days y"
  using month_sum_mono[of m 13 y] year_months[of y] by simp

definition day_of :: "utc_time \<Rightarrow> nat" where
  "day_of t = days_before_year (t_year t) + month_sum (t_year t) (t_month t) + t_day t"

lemma day_order:
  assumes "civil a" "civil b" and "(t_year a, t_month a, t_day a) < (t_year b, t_month b, t_day b)"
  shows "day_of a < day_of b"
proof -
  have days: "t_day a \<le> days_in (t_month a) (t_year a)" "1 \<le> t_day b" "1 \<le> t_month a" "t_month a \<le> 12"
    using assms(1,2) by (auto simp: civil_def)
  consider "t_year a < t_year b" | "t_year a = t_year b" "t_month a < t_month b"
    | "t_year a = t_year b" "t_month a = t_month b" "t_day a < t_day b"
    using assms(3) by (cases "t_year a = t_year b"; cases "t_month a = t_month b") auto
  then show ?thesis
  proof cases
    case 1
    then show ?thesis
      using days_before_mono[OF 1] month_sum_year[OF days(3,4), of "t_year a"] days unfolding day_of_def by linarith
  next
    case 2
    then show ?thesis using month_sum_mono[OF days(3) 2(2), of "t_year a"] days unfolding day_of_def by simp
  qed (simp add: day_of_def)
qed

definition second_of :: "utc_time \<Rightarrow> nat" where
  "second_of t = t_hour t * 3600 + t_minute t * 60 + t_second t"

lemma time_ns_parts: "time_ns t = int (day_of t) * day_ns + int (second_of t) * 1000000000 + int (t_nanos t)"
  by (simp add: time_ns_def unix_like_seconds_def day_number_def day_of_def second_of_def day_ns_def algebra_simps)

text \<open>A civil time that is earlier has fewer nanoseconds.\<close>

lemma time_Before_ns:
  assumes "civil a" "civil b" and "time_Before a b"
  shows "time_ns a < time_ns b"
proof -
  have bounds: "second_of a < 86400" "second_of b < 86400" "t_nanos a < 1000000000" "t_nanos b < 1000000000"
    using assms(1,2) by (auto simp: civil_def second_of_def)
  have clock: "second_of a < second_of b" if "(t_hour a, t_minute a, t_second a) < (t_hour b, t_minute b, t_second b)"
    using that assms(1,2) unfolding civil_def second_of_def
    by (cases "t_hour a = t_hour b"; cases "t_minute a = t_minute b") auto
  consider "(t_year a, t_month a, t_day a) < (t_year b, t_month b, t_day b)"
    | "(t_year a, t_month a, t_day a) = (t_year b, t_month b, t_day b)"
      "(t_hour a, t_minute a, t_second a) < (t_hour b, t_minute b, t_second b)"
    | "(t_year a, t_month a, t_day a) = (t_year b, t_month b, t_day b)"
      "(t_hour a, t_minute a, t_second a) = (t_hour b, t_minute b, t_second b)" "t_nanos a < t_nanos b"
    using assms(3) unfolding time_Before_def time_key_def
    by (cases "t_year a = t_year b"; cases "t_month a = t_month b"; cases "t_day a = t_day b"; cases "t_hour a = t_hour b";
        cases "t_minute a = t_minute b"; cases "t_second a = t_second b") auto
  then show ?thesis
  proof cases
    case 1
    have "int (day_of a) + 1 \<le> int (day_of b)" using day_order[OF assms(1,2) 1] by simp
    then have "(int (day_of a) + 1) * day_ns \<le> int (day_of b) * day_ns" by (simp add: day_ns_def)
    then show ?thesis using bounds unfolding time_ns_parts by (simp add: day_ns_def algebra_simps)
  next
    case 2
    then have "day_of a = day_of b" by (simp add: day_of_def)
    then show ?thesis using bounds clock[OF 2(2)] by (simp add: time_ns_parts)
  next
    case 3
    then have "day_of a = day_of b" "second_of a = second_of b" by (simp_all add: day_of_def second_of_def)
    then show ?thesis using 3(3) by (simp add: time_ns_parts)
  qed
qed

lemma civil_of_ns: "day_ns \<le> n \<Longrightarrow> civil (time_of_ns n)"
proof -
  assume n: "day_ns \<le> n"
  let ?days = "nat (n div day_ns - 1)" and ?rest = "nat (n mod day_ns)"
  obtain y d where y: "year_of 0 ?days = (y, d)" by (cases "year_of 0 ?days")
  obtain m d' where m: "month_of y [1..<12] 1 d = (m, d')" by (cases "month_of y [1..<12] 1 d")
  have "1 \<le> m \<and> m \<le> 12 \<and> d' < days_in m y"
    using month_of_spec[OF m] year_of_spec[OF y] year_months[of y] by (simp add: eval_nat_numeral)
  moreover have "?rest div 1000000000 < 86400"
  proof -
    have "n mod day_ns < day_ns" by (simp add: day_ns_def)
    then have "?rest < 86400 * 1000000000" by (simp add: day_ns_def)
    then show ?thesis by (rule less_mult_imp_div_less)
  qed
  ultimately show "civil (time_of_ns n)"
    unfolding time_of_ns_def y m Let_def prod.case by (auto simp: civil_def less_mult_imp_div_less)
qed

text \<open>Adding a duration never goes back.\<close>

lemma time_Add_not_before:
  assumes "civil t" and "0 \<le> d"
  shows "\<not> time_Before (time_Add t d) t"
proof
  assume before: "time_Before (time_Add t d) t"
  have "1 \<le> day_of t" using assms(1) by (simp add: civil_def day_of_def)
  then have "day_ns \<le> int (day_of t) * day_ns" by (simp add: day_ns_def)
  then have n: "day_ns \<le> time_ns t + d" using assms(2) unfolding time_ns_parts by linarith
  then have "civil (time_Add t d)" unfolding time_Add_def by (rule civil_of_ns)
  from time_Before_ns[OF this assms(1) before] show False using time_ns_Add[OF n] assms(2) by simp
qed

lemma time_Add_positive:
  assumes "civil t" and "0 \<le> d" and "time_Before zero_time t"
  shows "time_Add t d \<noteq> zero_time" "day_ns \<le> time_ns t + d"
proof -
  have zero: "civil zero_time" by (simp add: civil_def zero_time_def days_in_def)
  have "1 \<le> day_of t" using assms(1) by (simp add: civil_def day_of_def)
  then have "day_ns \<le> int (day_of t) * day_ns" by (simp add: day_ns_def)
  then show n: "day_ns \<le> time_ns t + d" using assms(2) unfolding time_ns_parts by linarith
  show "time_Add t d \<noteq> zero_time"
  proof
    assume "time_Add t d = zero_time"
    then show False using time_Before_ns[OF zero assms(1,3)] time_ns_Add[OF n] assms(2) by simp
  qed
qed

subsection \<open>Printing a duration\<close>

definition fraction :: "nat \<Rightarrow> nat \<Rightarrow> string" where
  "fraction prec v =
     (let ds = rev (dropWhile (\<lambda>c. c = CHR ''0'') (rev (digits prec (v mod 10 ^ prec))))
      in if v mod 10 ^ prec = 0 then '''' else ''.'' @ ds)"

definition magnitude_String :: "nat \<Rightarrow> string" where
  "magnitude_String u =
     (if u = 0 then ''0s''
      else if u < 1000 then decimal u @ ''ns''
      else if u < 1000000 then decimal (u div 1000) @ fraction 3 u @ [CHR 0xC2, CHR 0xB5] @ ''s''
      else if u < 1000000000 then decimal (u div 1000000) @ fraction 6 u @ ''ms''
      else let s = u div 1000000000; secs = decimal (s mod 60) @ fraction 9 u @ ''s'';
               m = s div 60; h = m div 60
           in if m = 0 then secs
              else if h = 0 then decimal (m mod 60) @ ''m'' @ secs
              else decimal h @ ''h'' @ decimal (m mod 60) @ ''m'' @ secs)"

definition Duration_String :: "int \<Rightarrow> string" where
  "Duration_String d = (if d < 0 then ''-'' else '''') @ magnitude_String (nat (abs d))"

end
