(* ===== verification/Publish_Inventory.thy ===== *)
theory Publish_Inventory
  imports Publication_Store
begin

section \<open>Reconciling a remote inventory (\<open>internal/v2/managed/publication.go\<close>)\<close>

text \<open>
  Before, during and after a publication the workflow lists the remote target and compares the
  listing with what the database says must be there: the inventory of the last checkpoint, the
  objects known to be left by abandoned attempts and the manifest of the target generation. These
  are the pure functions that decide.

  A Go map filled from a slice is \<open>index_by\<close>: the last element of a key stays. \<open>sort.Slice\<close> by path is
  a stable sort; the slices the code sorts have distinct paths.
\<close>

record publicationRemoteObject =
  ro_path :: string
  ro_size :: int
  ro_sha256 :: string
  ro_identity :: string

definition index_by :: "('a \<Rightarrow> string) \<Rightarrow> 'a list \<Rightarrow> string \<rightharpoonup> 'a" where
  "index_by key xs = map_of (map (\<lambda>x. (key x, x)) (rev xs))"

text \<open>The comparison of size, digest and remote identity, and the one without the identity.\<close>

definition same_remote :: "publicationRemoteObject \<Rightarrow> PublicationObject \<Rightarrow> bool" where
  "same_remote r o' \<longleftrightarrow>
     po_object_size o' = ro_size r \<and> po_object_sha256 o' = ro_sha256 r \<and> po_object_remote o' = ro_identity r"

definition same_content :: "publicationRemoteObject \<Rightarrow> GenerationFile \<Rightarrow> bool" where
  "same_content r f \<longleftrightarrow> ro_size r = gf_size f \<and> ro_sha256 r = gf_sha256 f"

definition remote_object :: "string \<Rightarrow> publicationRemoteObject \<Rightarrow> PublicationObject" where
  "remote_object phase r =
     \<lparr>po_object_path = ro_path r, po_object_phase = phase, po_object_size = ro_size r,
      po_object_sha256 = ro_sha256 r, po_object_remote = ro_identity r\<rparr>"

subsection \<open>The inventory before a publication\<close>

definition requireExactRemoteInventory :: "publicationRemoteObject list \<Rightarrow> PublicationObject list \<Rightarrow> unit result" where
  "requireExactRemoteInventory remote expected =
     (if length remote \<noteq> length expected
      then Inl (GoError [ErrIntegrity] ''remote prefix inventory count differs from private checkpoint'')
      else for_each (\<lambda>_ (r, e).
             ensure (ro_path r = po_object_path e \<and> same_remote r e)
               (GoError [ErrIntegrity] ''remote prefix differs from private checkpoint'')) () (zip remote expected))"

definition recognize_step ::
    "PublicationObject list \<Rightarrow> PublicationObject list \<Rightarrow> PublicationObject list \<Rightarrow> publicationRemoteObject
      \<Rightarrow> PublicationObject list result" where
  "recognize_step base abandoned result r =
     (case index_by po_object_path base (ro_path r) of
        Some prior \<Rightarrow>
          if \<not> same_remote r prior then Inl (GoError [ErrIntegrity] ''remote base object changed'') else Inr result
      | None \<Rightarrow>
          (case index_by po_object_path abandoned (ro_path r) of
             None \<Rightarrow> Inr result
           | Some orphan \<Rightarrow> if \<not> same_remote r orphan then Inr result else Inr (result @ [orphan])))"

definition recognizePublicationAbandonedObjects ::
    "publicationRemoteObject list \<Rightarrow> PublicationObject list \<Rightarrow> PublicationObject list \<Rightarrow> PublicationObject list result" where
  "recognizePublicationAbandonedObjects remote base abandoned =
     and_then (for_each (recognize_step base abandoned) base remote) (\<lambda>result. Inr (sort_key po_object_path result))"

definition recover_step ::
    "PublicationObject list \<Rightarrow> PublicationObject list \<Rightarrow> publicationRemoteObject \<Rightarrow> PublicationObject list" where
  "recover_step base abandoned r =
     (if index_by po_object_path base (ro_path r) \<noteq> None then []
      else case index_by po_object_path abandoned (ro_path r) of
             None \<Rightarrow> []
           | Some orphan \<Rightarrow> if \<not> same_remote r orphan then [] else [orphan])"

definition recognizeRecoverablePublicationAbandonedObjects ::
    "publicationRemoteObject list \<Rightarrow> PublicationObject list \<Rightarrow> PublicationObject list \<Rightarrow> PublicationObject list" where
  "recognizeRecoverablePublicationAbandonedObjects remote base abandoned =
     sort_key po_object_path (base @ concat (map (recover_step base abandoned) remote))"

subsection \<open>The inventory of an abandoned attempt\<close>

definition reconcile_step ::
    "PublicationObject list \<Rightarrow> PublicationPlanOperation list \<Rightarrow> string list \<times> PublicationObject list
      \<Rightarrow> publicationRemoteObject \<Rightarrow> (string list \<times> PublicationObject list) result" where
  "reconcile_step base eligible acc r =
     (case index_by po_object_path base (ro_path r) of
        Some prior \<Rightarrow>
          if \<not> same_remote r prior
          then Inl (GoError [ErrRejected] ''pre-commit attempt changed existing object and cannot be abandoned'')
          else Inr (ro_path r # fst acc, snd acc)
      | None \<Rightarrow>
          (case index_by po_path (filter (\<lambda>q. po_operation q = ''add'') eligible) (ro_path r) of
             None \<Rightarrow> Inl (GoError [ErrIntegrity] ''target object is outside the reconciled pre-commit add-only closure'')
           | Some q \<Rightarrow>
               if po_size q \<noteq> ro_size r \<or> po_sha256 q \<noteq> ro_sha256 r
               then Inl (GoError [ErrIntegrity] ''target object is outside the reconciled pre-commit add-only closure'')
               else Inr (fst acc, snd acc @ [remote_object (po_phase q) r])))"

definition reconcileAbandonedPublicationInventory ::
    "publicationRemoteObject list \<Rightarrow> PublicationObject list \<Rightarrow> PublicationPlanOperation list \<Rightarrow> PublicationObject list result" where
  "reconcileAbandonedPublicationInventory remote base eligible =
     and_then (for_each (reconcile_step base eligible) ([], []) remote) (\<lambda>(seenBase, result).
     and_then (for_each (\<lambda>_ b. ensure (po_object_path b \<in> set seenBase)
                 (GoError [ErrIntegrity] ''pre-commit target lost base object'')) () base) (\<lambda>_.
     Inr (sort_key po_object_path result)))"

subsection \<open>The inventory of an interrupted attempt\<close>

definition requireRecoverableRemoteInventory ::
    "publicationRemoteObject list \<Rightarrow> PublicationObject list \<Rightarrow> GenerationFile list \<Rightarrow> unit result" where
  "requireRecoverableRemoteInventory remote base target =
     and_then (for_each (\<lambda>_ r.
         let priorMatch = (case index_by po_object_path base (ro_path r) of None \<Rightarrow> False | Some prior \<Rightarrow> same_remote r prior);
             nextMatch = (case index_by gf_path target (ro_path r) of None \<Rightarrow> False | Some f \<Rightarrow> same_content r f)
         in ensure (priorMatch \<or> nextMatch)
              (GoError [ErrIntegrity] ''remote object is outside the recoverable old/new closure'')) () remote) (\<lambda>_.
     for_each (\<lambda>_ prior. ensure (po_object_path prior \<in> ro_path ` set remote)
         (GoError [ErrIntegrity] ''base checkpoint object disappeared during publication'')) () base)"

subsection \<open>The views of an attempt\<close>

text \<open>A missing key of a Go map reads as the empty string.\<close>

definition old_identity :: "PublicationObject list \<Rightarrow> string \<Rightarrow> string" where
  "old_identity base path =
     (case index_by po_object_path base path of None \<Rightarrow> '''' | Some o' \<Rightarrow> po_object_remote o')"

definition publicationAttemptViews :: "PublicationPlan \<Rightarrow> PublicationObject list \<Rightarrow> PublicationAttemptView list" where
  "publicationAttemptViews plan base =
     sort_key (\<lambda>v. (av_view v, av_pointer v))
       (concat (map (\<lambda>unit. map (\<lambda>pointer.
          \<lparr>av_view = cu_view_id unit, av_pointer = po_path pointer, av_old = old_identity base (po_path pointer),
           av_new = po_sha256 pointer, av_state = ViewPending\<rparr>) (cu_pointers unit)) (pp_commit_units plan)))"

definition sameAttemptViewIntent :: "PublicationAttemptView list \<Rightarrow> PublicationAttemptView list \<Rightarrow> bool" where
  "sameAttemptViewIntent actual expected \<longleftrightarrow>
     length actual = length expected
     \<and> list_all (\<lambda>(a, e). av_view a = av_view e \<and> av_pointer a = av_pointer e \<and> av_old a = av_old e
                    \<and> av_new a = av_new e) (zip actual expected)"

subsection \<open>The inventory after a publication\<close>

definition inventory_step ::
    "GenerationFile list \<Rightarrow> PublicationObject list \<Rightarrow> PublicationObject list \<Rightarrow> publicationRemoteObject
      \<Rightarrow> PublicationObject list result" where
  "inventory_step target base inventory r =
     (case index_by gf_path target (ro_path r) of
        Some f \<Rightarrow>
          if \<not> same_content r f then Inl (GoError [ErrIntegrity] ''remote target object differs from Generation'')
          else Inr (inventory @ [remote_object (gf_phase f) r])
      | None \<Rightarrow>
          (case index_by po_object_path base (ro_path r) of
             None \<Rightarrow> Inl (GoError [ErrIntegrity] ''remote prefix contains unknown object'')
           | Some prior \<Rightarrow>
               if \<not> same_remote r prior then Inl (GoError [ErrIntegrity] ''remote prefix contains unknown object'')
               else Inr (inventory @ [prior])))"

definition publicationInventory ::
    "publicationRemoteObject list \<Rightarrow> GenerationFile list \<Rightarrow> PublicationObject list \<Rightarrow> PublicationObject list result" where
  "publicationInventory remote target base =
     and_then (for_each (inventory_step target base) [] remote) (\<lambda>inventory.
     and_then (for_each (\<lambda>_ f. ensure (gf_path f \<in> ro_path ` set remote)
                 (GoError [ErrIntegrity] ''remote inventory is missing Generation object'')) () target) (\<lambda>_.
     Inr (sort_key po_object_path inventory)))"

text \<open>The files whose public delivery is verified: what the plan writes, sorted by path.\<close>

definition verification_step ::
    "GenerationFile list \<Rightarrow> string list \<Rightarrow> PublicationPlanOperation \<Rightarrow> string list result" where
  "verification_step manifest paths q =
     (if po_operation q \<noteq> ''add'' \<and> po_operation q \<noteq> ''update'' then Inr paths
      else case index_by gf_path manifest (po_path q) of
             None \<Rightarrow> Inl (GoError [ErrIntegrity] ''public verification operation differs from target manifest'')
           | Some f \<Rightarrow>
               if gf_phase f \<noteq> po_phase q \<or> gf_size f \<noteq> po_size q \<or> gf_sha256 f \<noteq> po_sha256 q
               then Inl (GoError [ErrIntegrity] ''public verification operation differs from target manifest'')
               else Inr (paths @ [po_path q]))"

definition publicationVerificationFiles :: "PublicationPlan \<Rightarrow> GenerationFile list \<Rightarrow> GenerationFile list result" where
  "publicationVerificationFiles plan manifest =
     and_then (for_each (verification_step manifest) []
         (pp_payload plan @ pp_immutable_metadata plan @ pp_stable_aliases plan
          @ concat (map cu_pointers (pp_commit_units plan)))) (\<lambda>paths.
     Inr (sort_key gf_path (List.map_filter (index_by gf_path manifest) (remdups paths))))"

subsection \<open>Payload paths\<close>

text \<open>\<open>poolPath[:strings.LastIndex(poolPath, "/")+1]\<close>.\<close>

definition poolSourceDirectory :: "string \<Rightarrow> string" where
  "poolSourceDirectory path = rev (dropWhile (\<lambda>c. c \<noteq> slash) (rev path))"

type_synonym spellings = "(string \<rightharpoonup> string) \<times> (string \<rightharpoonup> string)"

definition remember :: "spellings \<Rightarrow> string \<Rightarrow> spellings" where
  "remember known path =
     (let directory = poolSourceDirectory path
      in ((fst known)(ToLower path \<mapsto> path),
          if snd known (ToLower directory) = None then (snd known)(ToLower directory \<mapsto> directory) else snd known))"

definition conflict_step ::
    "PublicationObject list \<Rightarrow> bool \<Rightarrow> spellings \<Rightarrow> PublicationPlanOperation \<Rightarrow> spellings result" where
  "conflict_step payload caseInsensitive known q =
     (if (case index_by po_object_path payload (po_path q) of
            None \<Rightarrow> False | Some prior \<Rightarrow> po_object_sha256 prior \<noteq> po_sha256 q \<or> po_object_size prior \<noteq> po_size q)
      then Inl (GoError [ErrRejected, ErrPoolPathConflict] ''published payload path already contains different bytes'')
      else if \<not> caseInsensitive then Inr known
      else if (case fst known (ToLower (po_path q)) of None \<Rightarrow> False | Some prior \<Rightarrow> prior \<noteq> po_path q)
      then Inl (GoError [ErrRejected, ErrPoolPathConflict] ''payload path differs only by case'')
      else let directory = poolSourceDirectory (po_path q)
           in if (case snd known (ToLower directory) of None \<Rightarrow> False | Some prior \<Rightarrow> prior \<noteq> directory)
              then Inl (GoError [ErrRejected, ErrPoolPathConflict] ''payload directory differs only by case'')
              else Inr (remember known (po_path q)))"

definition rejectPayloadPathConflicts ::
    "PublicationObject list \<Rightarrow> PublicationPlanOperation list \<Rightarrow> bool \<Rightarrow> unit result" where
  "rejectPayloadPathConflicts base payload caseInsensitive =
     (let held = filter (\<lambda>o'. po_object_phase o' = ''payload'') base;
          known = fold (\<lambda>o' k. remember k (po_object_path o')) held (Map.empty, Map.empty)
      in and_then (for_each (conflict_step held caseInsensitive) known payload) (\<lambda>_. Inr ()))"

subsection \<open>The inventory during maintenance\<close>

definition maintenance_missing ::
    "bool \<Rightarrow> PublicationObject list \<Rightarrow> publicationRemoteObject list \<Rightarrow> PublicationObject \<Rightarrow> bool" where
  "maintenance_missing allowCandidateAbsence candidates remote expect \<longleftrightarrow>
     po_object_path expect \<notin> ro_path ` set remote
     \<and> (\<not> allowCandidateAbsence \<or> index_by po_object_path candidates (po_object_path expect) \<noteq> Some expect)"

text \<open>The part of \<open>verifyTargetMaintenanceInventory\<close> that compares, once the queries have answered.\<close>

definition maintenance_inventory ::
    "publicationRemoteObject list \<Rightarrow> PublicationObject list \<Rightarrow> PublicationObject list \<Rightarrow> PublicationObject list
      \<Rightarrow> bool \<Rightarrow> unit result" where
  "maintenance_inventory remote live abandoned candidates allowCandidateAbsence =
     and_then (recognizePublicationAbandonedObjects remote live abandoned) (\<lambda>expected.
     and_then (for_each (\<lambda>_ r. ensure
         (case index_by po_object_path expected (ro_path r) of None \<Rightarrow> False | Some expect \<Rightarrow> same_remote r expect)
         (GoError [ErrIntegrity] ''target maintenance found unknown or changed object'')) () remote) (\<lambda>_.
     for_each (\<lambda>_ expect. ensure (\<not> maintenance_missing allowCandidateAbsence candidates remote expect)
         (GoError [ErrIntegrity] ''target maintenance is missing non-candidate object'')) () expected))"

subsection \<open>Loops and maps\<close>

lemma for_each_ensure:
  "for_each (\<lambda>_ x. ensure (P x) (e x)) () xs = Inr u \<longleftrightarrow> (\<forall>x\<in>set xs. P x)"
  by (induction xs) (auto simp: and_then_Inr_iff)

text \<open>A loop that checks every element and appends what it contributes.\<close>

lemma for_each_collect:
  assumes "\<And>acc x. f acc x = (if good x then Inr (acc @ g x) else Inl (e x))"
  shows "for_each f acc xs = Inr r \<longleftrightarrow> (\<forall>x\<in>set xs. good x) \<and> r = acc @ concat (map g xs)"
  by (induction xs arbitrary: acc) (auto simp: assms)

lemma index_by_Some: "index_by key xs k = Some x \<Longrightarrow> x \<in> set xs \<and> key x = k"
  by (auto simp: index_by_def dest!: map_of_SomeD)

lemma index_by_None: "index_by key xs k = None \<longleftrightarrow> k \<notin> key ` set xs"
  by (auto simp: index_by_def map_of_eq_None_iff image_image)

lemma index_by_distinct:
  assumes "distinct (map key xs)"
  shows "index_by key xs k = Some x \<longleftrightarrow> x \<in> set xs \<and> key x = k"
proof -
  have "distinct (map fst (map (\<lambda>x. (key x, x)) (rev xs)))" using assms by (simp add: rev_map[symmetric] comp_def)
  then show ?thesis unfolding index_by_def using map_of_eq_Some_iff by fastforce
qed

lemma index_by_path:
  assumes "distinct (map key xs)" "x \<in> set xs"
  shows "index_by key xs (key x) = Some x"
  using assms by (simp add: index_by_distinct)

lemma index_by_set_cong:
  assumes "distinct (map key xs)" "distinct (map key ys)" "set xs = set ys"
  shows "index_by key xs = index_by key ys"
proof
  fix k show "index_by key xs k = index_by key ys k"
    using index_by_distinct[OF assms(1), of k] index_by_distinct[OF assms(2), of k] assms(3)
    by (metis not_None_eq)
qed

lemma case_option_exists: "(case x of None \<Rightarrow> False | Some y \<Rightarrow> P y) \<longleftrightarrow> (\<exists>y. x = Some y \<and> P y)"
  by (cases x) auto

subsection \<open>What each check decides\<close>

definition remote_entry :: "publicationRemoteObject \<Rightarrow> string \<times> int \<times> string \<times> string" where
  "remote_entry r = (ro_path r, ro_size r, ro_sha256 r, ro_identity r)"

definition object_entry :: "PublicationObject \<Rightarrow> string \<times> int \<times> string \<times> string" where
  "object_entry o' = (po_object_path o', po_object_size o', po_object_sha256 o', po_object_remote o')"

lemma entry_eq: "remote_entry r = object_entry o' \<longleftrightarrow> ro_path r = po_object_path o' \<and> same_remote r o'"
  by (auto simp: remote_entry_def object_entry_def same_remote_def)

lemma entry_remote_object [simp]: "object_entry (remote_object phase r) = remote_entry r"
  by (simp add: remote_entry_def object_entry_def remote_object_def)

lemma exact_inventory_iff:
  "requireExactRemoteInventory remote expected = Inr u \<longleftrightarrow> map remote_entry remote = map object_entry expected"
proof -
  have "requireExactRemoteInventory remote expected = Inr u \<longleftrightarrow>
      length remote = length expected \<and> (\<forall>(r, e)\<in>set (zip remote expected). remote_entry r = object_entry e)"
    by (simp add: requireExactRemoteInventory_def entry_eq split_def for_each_ensure)
  also have "\<dots> \<longleftrightarrow> list_all2 (\<lambda>r e. remote_entry r = object_entry e) remote expected"
    by (auto simp: list_all2_iff)
  also have "\<dots> \<longleftrightarrow> map remote_entry remote = map object_entry expected"
    by (induction remote expected rule: list_induct2') auto
  finally show ?thesis .
qed

definition prior_match :: "PublicationObject list \<Rightarrow> publicationRemoteObject \<Rightarrow> bool" where
  "prior_match base r \<longleftrightarrow> (\<exists>prior. index_by po_object_path base (ro_path r) = Some prior \<and> same_remote r prior)"

definition content_match :: "GenerationFile list \<Rightarrow> publicationRemoteObject \<Rightarrow> bool" where
  "content_match target r \<longleftrightarrow> (\<exists>f. index_by gf_path target (ro_path r) = Some f \<and> same_content r f)"

lemma recoverable_inventory_iff:
  "requireRecoverableRemoteInventory remote base target = Inr u \<longleftrightarrow>
     (\<forall>r\<in>set remote. prior_match base r \<or> content_match target r) \<and> po_object_path ` set base \<subseteq> ro_path ` set remote"
  unfolding requireRecoverableRemoteInventory_def Let_def and_then_Inr_iff for_each_ensure case_option_exists
    prior_match_def[symmetric] content_match_def[symmetric]
  by auto

lemma recognize_collect:
  "recognize_step base abandoned acc r =
     (if index_by po_object_path base (ro_path r) = None \<or> prior_match base r
      then Inr (acc @ recover_step base abandoned r) else Inl (GoError [ErrIntegrity] ''remote base object changed''))"
  by (cases "index_by po_object_path base (ro_path r)"; cases "index_by po_object_path abandoned (ro_path r)")
    (auto simp: recognize_step_def recover_step_def prior_match_def)

lemma recognize_iff:
  "recognizePublicationAbandonedObjects remote base abandoned = Inr objects \<longleftrightarrow>
     (\<forall>r\<in>set remote. ro_path r \<in> po_object_path ` set base \<longrightarrow> prior_match base r)
     \<and> objects = recognizeRecoverablePublicationAbandonedObjects remote base abandoned"
  unfolding recognizePublicationAbandonedObjects_def recognizeRecoverablePublicationAbandonedObjects_def and_then_Inr_iff
    for_each_collect[OF recognize_collect]
  by (auto simp: index_by_None)

definition add_match :: "PublicationPlanOperation list \<Rightarrow> publicationRemoteObject \<Rightarrow> bool" where
  "add_match eligible r \<longleftrightarrow>
     (\<exists>q. index_by po_path (filter (\<lambda>q. po_operation q = ''add'') eligible) (ro_path r) = Some q
        \<and> po_size q = ro_size r \<and> po_sha256 q = ro_sha256 r)"

definition added_object ::
    "PublicationObject list \<Rightarrow> PublicationPlanOperation list \<Rightarrow> publicationRemoteObject \<Rightarrow> PublicationObject list" where
  "added_object base eligible r =
     (if ro_path r \<in> po_object_path ` set base then []
      else case index_by po_path (filter (\<lambda>q. po_operation q = ''add'') eligible) (ro_path r) of
             None \<Rightarrow> [] | Some q \<Rightarrow> [remote_object (po_phase q) r])"

definition reconcilable :: "PublicationObject list \<Rightarrow> PublicationPlanOperation list \<Rightarrow> publicationRemoteObject \<Rightarrow> bool" where
  "reconcilable base eligible r \<longleftrightarrow>
     (if ro_path r \<in> po_object_path ` set base then prior_match base r else add_match eligible r)"

lemma reconcile_step_eq:
  "\<exists>e. reconcile_step base eligible acc r =
     (if reconcilable base eligible r
      then Inr ((if ro_path r \<in> po_object_path ` set base then [ro_path r] else []) @ fst acc,
                snd acc @ added_object base eligible r)
      else Inl e)"
proof (cases "index_by po_object_path base (ro_path r)")
  case None
  then have "ro_path r \<notin> po_object_path ` set base" by (simp add: index_by_None)
  with None show ?thesis
    by (cases "index_by po_path (filter (\<lambda>q. po_operation q = ''add'') eligible) (ro_path r)")
      (auto simp: reconcile_step_def reconcilable_def added_object_def add_match_def)
next
  case (Some prior)
  then have "ro_path r \<in> po_object_path ` set base" using index_by_Some[OF Some] by force
  with Some show ?thesis by (auto simp: reconcile_step_def reconcilable_def added_object_def prior_match_def)
qed

lemma reconcile_loop:
  "for_each (reconcile_step base eligible) acc remote = Inr res \<longleftrightarrow>
     (\<forall>r\<in>set remote. reconcilable base eligible r)
     \<and> res = (rev (filter (\<lambda>p. p \<in> po_object_path ` set base) (map ro_path remote)) @ fst acc,
              snd acc @ concat (map (added_object base eligible) remote))"
proof (induction remote arbitrary: acc)
  case (Cons r remote)
  obtain e where "reconcile_step base eligible acc r =
     (if reconcilable base eligible r
      then Inr ((if ro_path r \<in> po_object_path ` set base then [ro_path r] else []) @ fst acc,
                snd acc @ added_object base eligible r)
      else Inl e)"
    using reconcile_step_eq by blast
  then show ?case by (auto simp: Cons.IH)
qed (cases acc, auto)

lemma reconcile_iff:
  "reconcileAbandonedPublicationInventory remote base eligible = Inr objects \<longleftrightarrow>
     (\<forall>r\<in>set remote. reconcilable base eligible r) \<and> po_object_path ` set base \<subseteq> ro_path ` set remote
     \<and> objects = sort_key po_object_path (concat (map (added_object base eligible) remote))"
  unfolding reconcileAbandonedPublicationInventory_def and_then_Inr_iff reconcile_loop
  by (auto simp: and_then_Inr_iff for_each_ensure image_iff subset_iff)

definition inventory_object ::
    "GenerationFile list \<Rightarrow> PublicationObject list \<Rightarrow> publicationRemoteObject \<Rightarrow> PublicationObject list" where
  "inventory_object target base r =
     (case index_by gf_path target (ro_path r) of
        Some f \<Rightarrow> [remote_object (gf_phase f) r]
      | None \<Rightarrow> (case index_by po_object_path base (ro_path r) of None \<Rightarrow> [] | Some prior \<Rightarrow> [prior]))"

lemma inventory_iff:
  "publicationInventory remote target base = Inr inventory \<longleftrightarrow>
     (\<forall>r\<in>set remote. if ro_path r \<in> gf_path ` set target then content_match target r else prior_match base r)
     \<and> gf_path ` set target \<subseteq> ro_path ` set remote
     \<and> inventory = sort_key po_object_path (concat (map (inventory_object target base) remote))"
proof -
  have step: "inventory_step target base acc r =
      (if if ro_path r \<in> gf_path ` set target then content_match target r else prior_match base r
       then Inr (acc @ inventory_object target base r)
       else Inl (GoError [ErrIntegrity] (if ro_path r \<in> gf_path ` set target then ''remote target object differs from Generation''
          else ''remote prefix contains unknown object'')))" for acc r
    by (cases "index_by gf_path target (ro_path r)"; cases "index_by po_object_path base (ro_path r)")
      (use index_by_None[of gf_path target "ro_path r"] in
        \<open>auto simp: inventory_step_def inventory_object_def content_match_def prior_match_def\<close>)
  show ?thesis
    unfolding publicationInventory_def and_then_Inr_iff for_each_collect[OF step]
    by (auto simp: and_then_Inr_iff for_each_ensure)
qed

subsection \<open>The new inventory\<close>

lemma inventory_object_shape:
  assumes "if ro_path r \<in> gf_path ` set target then content_match target r else prior_match base r"
  shows "\<exists>o'. inventory_object target base r = [o'] \<and> object_entry o' = remote_entry r
    \<and> (case index_by gf_path target (ro_path r) of None \<Rightarrow> o' \<in> set base | Some f \<Rightarrow> po_object_phase o' = gf_phase f)"
proof (cases "index_by gf_path target (ro_path r)")
  case None
  then have "prior_match base r" using assms by (simp add: index_by_None)
  then obtain prior where prior: "index_by po_object_path base (ro_path r) = Some prior" "same_remote r prior"
    by (auto simp: prior_match_def)
  then have "object_entry prior = remote_entry r" "prior \<in> set base"
    using index_by_Some[OF prior(1)] entry_eq[of r prior] by auto
  then show ?thesis using None prior(1) by (simp add: inventory_object_def)
qed (simp add: inventory_object_def remote_object_def object_entry_def remote_entry_def)

lemma inventory_entries:
  assumes "\<forall>r\<in>set remote. if ro_path r \<in> gf_path ` set target then content_match target r else prior_match base r"
  shows "map object_entry (concat (map (inventory_object target base) remote)) = map remote_entry remote"
  using assms
proof (induction remote)
  case (Cons r remote)
  then obtain o' where "inventory_object target base r = [o']" "object_entry o' = remote_entry r"
    using inventory_object_shape[of r target base] by auto
  then show ?case using Cons by simp
qed simp

lemma entry_paths:
  "map object_entry os = map remote_entry rs \<Longrightarrow> map po_object_path os = map ro_path rs"
  by (induction os rs rule: list_induct2') (auto simp: object_entry_def remote_entry_def)

lemma sort_key_sorted: "sorted (map f xs) \<Longrightarrow> sort_key f xs = xs"
  by (induction xs) (auto simp: insort_is_Cons)

text \<open>The inventory of a listing in path order lists the same entries in the same order.\<close>

lemma inventory_sorted:
  assumes "publicationInventory remote target base = Inr inventory" and "sorted (map ro_path remote)"
  shows "map object_entry inventory = map remote_entry remote" "map po_object_path inventory = map ro_path remote"
    and "inventory = concat (map (inventory_object target base) remote)"
proof -
  let ?objects = "concat (map (inventory_object target base) remote)"
  note facts = assms(1)[unfolded inventory_iff]
  then have entries: "map object_entry ?objects = map remote_entry remote" by (intro inventory_entries) simp
  then have "map po_object_path ?objects = map ro_path remote" by (rule entry_paths)
  then show "inventory = ?objects" using facts assms(2) by (simp add: sort_key_sorted)
  then show "map object_entry inventory = map remote_entry remote" "map po_object_path inventory = map ro_path remote"
    using entries entry_paths by simp_all
qed

lemma contains_manifest_iff:
  assumes "distinct (map po_object_path inventory)"
  shows "inventoryContainsManifest inventory manifest \<longleftrightarrow>
    (\<forall>f\<in>set manifest. \<exists>o'\<in>set inventory. po_object_path o' = gf_path f \<and> po_object_phase o' = gf_phase f
       \<and> po_object_size o' = gf_size f \<and> po_object_sha256 o' = gf_sha256 f)"
proof -
  have look: "map_of (rev (map (\<lambda>o'. (po_object_path o', o')) inventory)) p = index_by po_object_path inventory p" for p
    by (simp add: index_by_def rev_map)
  show ?thesis
    unfolding inventoryContainsManifest_def look case_option_exists list_all_iff index_by_distinct[OF assms] by auto
qed

lemma inventory_contains:
  assumes "publicationInventory remote target base = Inr inventory"
    and "sorted (map ro_path remote)" and "distinct (map ro_path remote)" and "distinct (map gf_path target)"
  shows "inventoryContainsManifest inventory target"
proof -
  note facts = assms(1)[unfolded inventory_iff]
  have "distinct (map po_object_path inventory)" using inventory_sorted(2)[OF assms(1,2)] assms(3) by simp
  moreover have "\<exists>o'\<in>set inventory. po_object_path o' = gf_path f \<and> po_object_phase o' = gf_phase f
       \<and> po_object_size o' = gf_size f \<and> po_object_sha256 o' = gf_sha256 f" if f: "f \<in> set target" for f
  proof -
    obtain r where r: "r \<in> set remote" "ro_path r = gf_path f" using facts f by auto
    have found: "index_by gf_path target (ro_path r) = Some f" using index_by_path[OF assms(4) f] r(2) by simp
    then have same: "same_content r f" using facts r f by (force simp: content_match_def)
    have "remote_object (gf_phase f) r \<in> set inventory"
      using inventory_sorted(3)[OF assms(1,2)] r(1) found by (auto simp: inventory_object_def intro!: bexI[of _ r])
    then show ?thesis using same r(2) by (intro bexI[of _ "remote_object (gf_phase f) r"]) (auto simp: remote_object_def same_content_def)
  qed
  ultimately show ?thesis by (simp add: contains_manifest_iff)
qed

lemma sorted_distinct_strict: "sorted xs \<Longrightarrow> distinct xs \<Longrightarrow> sorted_wrt (<) (xs :: 'a::linorder list)"
  by (simp add: strict_sorted_iff)

text \<open>What makes an object of an inventory valid, and that a new inventory is valid.\<close>

definition inventory_entry_ok :: "PublicationObject \<Rightarrow> bool" where
  "inventory_entry_ok o' \<longleftrightarrow> valid_object o' \<and> (content_phase (po_object_phase o') \<or> po_object_phase o' = ''pointer'')"

lemma sortedInventory_iff:
  "sortedInventory objects \<longleftrightarrow>
     (\<forall>o'\<in>set objects. inventory_entry_ok o') \<and> sorted_wrt (<) (map po_object_path objects)"
proof -
  have pos: "[] < (p :: string) \<longleftrightarrow> p \<noteq> []" for p by (cases p) auto
  show ?thesis
    by (auto simp: sortedInventory_def ascending_strict inventory_entry_ok_def valid_object_def validPublicationPath_def pos)
qed

end
