(* ===== verification/Target_Tree.thy ===== *)
theory Target_Tree
  imports Publish_Inventory "HOL-Library.AList"
begin

section \<open>The filesystem target (\<open>internal/v2/managed/publication_filesystem.go\<close>)\<close>

text \<open>
  A publication writes through the interface \<open>publicationBackend\<close>. This theory models the interface as
  a record of operations on a state, the backend that publishes into a directory tree, and states as
  a locale what the publication workflow relies on; the directory tree is proved to provide it.

  A file of the tree is known by its size and digest, which is all the code reads. The tree also says
  at which places the operating system refuses access (a symbolic link, a permission, a directory in
  the way): there the operations fail. Directories are implied by the files in them.
\<close>

subsection \<open>Steps with a state and an error\<close>

definition do_then :: "('s \<Rightarrow> 's \<times> 'a result) \<Rightarrow> ('a \<Rightarrow> 's \<Rightarrow> 's \<times> 'b result) \<Rightarrow> 's \<Rightarrow> 's \<times> 'b result" where
  "do_then m f s = (case m s of (s', Inl e) \<Rightarrow> (s', Inl e) | (s', Inr a) \<Rightarrow> f a s')"

definition answer :: "'a result \<Rightarrow> 's \<Rightarrow> 's \<times> 'a result" where
  "answer r s = (s, r)"

definition ask :: "('s \<Rightarrow> 'a result) \<Rightarrow> 's \<Rightarrow> 's \<times> 'a result" where
  "ask f s = (s, f s)"

lemma do_then_eq:
  "do_then m f s = (case snd (m s) of Inl e \<Rightarrow> (fst (m s), Inl e) | Inr a \<Rightarrow> f a (fst (m s)))"
  by (simp add: do_then_def split: prod.splits sum.splits)

lemma do_then_Inr:
  "do_then m f s = (s', Inr b) \<longleftrightarrow> (\<exists>s1 a. m s = (s1, Inr a) \<and> f a s1 = (s', Inr b))"
  by (auto simp: do_then_def split: prod.splits sum.splits)

lemma do_then_run: "m s = (s1, Inr a) \<Longrightarrow> do_then m f s = f a s1"
  by (simp add: do_then_def)

lemma do_then_fail: "m s = (s1, Inl e) \<Longrightarrow> do_then m f s = (s1, Inl e)"
  by (simp add: do_then_def)

subsection \<open>The interface\<close>

record stored_file =
  sf_size :: int
  sf_sha256 :: string

type_synonym source_tree = "string \<rightharpoonup> stored_file"

record 'r publicationBackend =
  be_provider :: string
  be_list :: "string list \<Rightarrow> 'r \<Rightarrow> publicationRemoteObject list result"
  be_head :: "string \<Rightarrow> 'r \<Rightarrow> publicationRemoteObject option result"
  be_put :: "source_tree \<Rightarrow> PublicationPlanOperation \<Rightarrow> string \<Rightarrow> 'r \<Rightarrow> 'r \<times> string result"
  be_verify :: "GenerationFile \<Rightarrow> 'r \<Rightarrow> unit result"
  be_delete :: "PublicationObject \<Rightarrow> 'r \<Rightarrow> 'r \<times> unit result"
  be_verify_absent :: "string \<Rightarrow> 'r \<Rightarrow> unit result"

subsection \<open>Paths\<close>

definition path_Dir :: "string \<Rightarrow> string" where
  "path_Dir p = path_Clean (poolSourceDirectory p)"

text \<open>\<open>publicFilePhaseForLayout\<close> of \<open>build.go\<close> for the single-payload layout; \<open>filepath.Base\<close> instead of the
  text after the last slash.\<close>

definition publicFilePhase :: "string \<Rightarrow> string" where
  "publicFilePhase path =
     (if HasPrefix path ''dists/'' \<and> (Contains path ''/pool/'' \<or> HasSuffix path ''.rpm'' \<or> HasSuffix path ''.deb'') then ''''
      else if HasPrefix path ''pool/'' then ''payload''
      else let base = path_Base path
           in if base = ''repomd.xml'' \<or> base = ''repomd.xml.asc'' \<or> base = ''Release''
                 \<or> base = ''InRelease'' \<or> base = ''Release.gpg''
              then ''pointer'' else ''metadata'')"

definition public_path :: "string \<Rightarrow> bool" where
  "public_path p \<longleftrightarrow> (HasPrefix p ''pool/'' \<or> HasPrefix p ''dists/'') \<and> publicFilePhase p \<noteq> ''''"

text \<open>Where a rooted path is looked up, or the refusal of a path that leaves the root.\<close>

definition rooted :: "string \<Rightarrow> string result" where
  "rooted relative =
     (let clean = path_Clean relative
      in if clean = ''.'' \<or> HasPrefix clean ''/'' \<or> clean = ''..'' \<or> HasPrefix clean ''../''
         then Inl (plain_error ''managed: rooted file path escapes its owner'') else Inr clean)"

definition filesystemStagePath :: "string \<Rightarrow> string \<Rightarrow> string" where
  "filesystemStagePath path attemptIdentity =
     path_Join [path_Dir path, ''.sow-publish-'' @ take 16 attemptIdentity @ ''-'' @ take 16 (sha256_hex path)]"

definition publicationStagePaths :: "PublicationPlan \<Rightarrow> string \<Rightarrow> bool \<Rightarrow> string list" where
  "publicationStagePaths plan attemptIdentity active =
     (if \<not> active \<or> length attemptIdentity \<noteq> 64 then []
      else map (\<lambda>q. filesystemStagePath (po_path q) attemptIdentity)
             (filter (\<lambda>q. po_operation q = ''add'' \<or> po_operation q = ''update'')
                (pp_payload plan @ pp_immutable_metadata plan @ pp_stable_aliases plan
                 @ concat (map cu_pointers (pp_commit_units plan)))))"

subsection \<open>The tree\<close>

record target_tree =
  tt_files :: "(string \<times> stored_file) list"
  tt_refused :: "string \<Rightarrow> bool"

definition tree_at :: "target_tree \<Rightarrow> string \<rightharpoonup> stored_file" where
  "tree_at r = map_of (tt_files r)"

definition tree_write :: "string \<Rightarrow> stored_file \<Rightarrow> target_tree \<Rightarrow> target_tree" where
  "tree_write p f r = r\<lparr>tt_files := AList.update p f (tt_files r)\<rparr>"

definition tree_remove :: "string \<Rightarrow> target_tree \<Rightarrow> target_tree" where
  "tree_remove p r = r\<lparr>tt_files := AList.delete p (tt_files r)\<rparr>"

text \<open>The remote identity of a file is its digest.\<close>

definition tree_object :: "string \<Rightarrow> stored_file \<Rightarrow> publicationRemoteObject" where
  "tree_object path f = \<lparr>ro_path = path, ro_size = sf_size f, ro_sha256 = sf_sha256 f, ro_identity = sf_sha256 f\<rparr>"

definition tree_Head :: "string \<Rightarrow> target_tree \<Rightarrow> publicationRemoteObject option result" where
  "tree_Head path r =
     (case rooted path of
        Inl _ \<Rightarrow> Inl (GoError [ErrIntegrity] ''unsafe filesystem target object'')
      | Inr clean \<Rightarrow>
          if tt_refused r clean then Inl (GoError [ErrIntegrity] ''unsafe filesystem target object'')
          else Inr (map_option (tree_object path) (tree_at r clean)))"

text \<open>The walk visits the files in path order; the visit refuses what is not public.\<close>

definition list_step :: "string list \<Rightarrow> target_tree \<Rightarrow> publicationRemoteObject list \<Rightarrow> string \<times> stored_file \<Rightarrow> publicationRemoteObject list result" where
  "list_step ignored r objects = (\<lambda>(path, f).
     if path \<in> set ignored then Inr objects
     else if \<not> public_path path then Inl (GoError [ErrIntegrity] ''filesystem target contains foreign public object'')
     else if tt_refused r path then Inl (GoError [ErrIntegrity] ''hash filesystem target object'')
     else Inr (objects @ [tree_object path f]))"

definition tree_List :: "string list \<Rightarrow> target_tree \<Rightarrow> publicationRemoteObject list result" where
  "tree_List ignored r =
     and_then (for_each (list_step ignored r) [] (sort_key fst (AList.clearjunk (tt_files r)))) (\<lambda>objects.
     Inr (sort_key ro_path objects))"

definition removeStageIfPresent :: "string \<Rightarrow> target_tree \<Rightarrow> target_tree \<times> unit result" where
  "removeStageIfPresent stage =
     do_then (ask (tree_Head stage)) (\<lambda>found r.
       case found of None \<Rightarrow> (r, Inr ())
       | Some _ \<Rightarrow> (case rooted stage of Inl e \<Rightarrow> (r, Inl e) | Inr clean \<Rightarrow> (tree_remove clean r, Inr ())))"

subsection \<open>Writing\<close>

text \<open>The content an operation installs, and whether a file already is that content.\<close>

definition operation_file :: "PublicationPlanOperation \<Rightarrow> stored_file" where
  "operation_file q = \<lparr>sf_size = po_size q, sf_sha256 = po_sha256 q\<rparr>"

definition installed :: "publicationRemoteObject option \<Rightarrow> PublicationPlanOperation \<Rightarrow> bool" where
  "installed found q \<longleftrightarrow>
     (case found of None \<Rightarrow> False | Some current \<Rightarrow> ro_size current = po_size q \<and> ro_sha256 current = po_sha256 q)"

definition prepareStage :: "source_tree \<Rightarrow> PublicationPlanOperation \<Rightarrow> string \<Rightarrow> target_tree \<Rightarrow> target_tree \<times> unit result" where
  "prepareStage source q stage =
     do_then (ask (tree_Head stage)) (\<lambda>existing r.
       if installed existing q then (r, Inr ())
       else case rooted stage of
         Inl e \<Rightarrow> (r, Inl e)
       | Inr clean \<Rightarrow>
           let r' = (if existing = None then r else tree_remove clean r)
           in case source (po_path q) of
                None \<Rightarrow> (r', Inl (GoError [ErrIntegrity] ''publication source is missing or unsafe''))
              | Some f \<Rightarrow>
                  if f \<noteq> operation_file q
                  then (r', Inl (GoError [ErrIntegrity] ''publication source changed while staging''))
                  else (tree_write clean f r', Inr ()))"

definition cas_refused :: "publicationRemoteObject option \<Rightarrow> PublicationPlanOperation \<Rightarrow> bool" where
  "cas_refused current q \<longleftrightarrow>
     po_operation q = ''add'' \<and> current \<noteq> None
     \<or> po_operation q = ''update'' \<and> map_option ro_sha256 current \<noteq> Some (po_expected_old_sha256 q)"

definition installStageCAS :: "string \<Rightarrow> PublicationPlanOperation \<Rightarrow> target_tree \<Rightarrow> target_tree \<times> unit result" where
  "installStageCAS stage q =
     do_then (ask (tree_Head (po_path q))) (\<lambda>current.
     if installed current q then removeStageIfPresent stage
     else if cas_refused current q
     then answer (Inl (GoError [ErrIntegrity] ''filesystem CAS changed before commit''))
     else (\<lambda>r. case (rooted stage, rooted (po_path q)) of
       (Inr from, Inr to) \<Rightarrow>
         if path_Dir from \<noteq> path_Dir to
         then (r, Inl (plain_error ''filesystem publication stage is not adjacent to its target''))
         else (case tree_at r from of
             None \<Rightarrow> (r, Inl (plain_error ''filesystem publication stage changed before commit''))
           | Some staged \<Rightarrow>
               if sf_size staged \<noteq> po_size q
               then (r, Inl (plain_error ''filesystem publication stage changed before commit''))
               else (tree_write to staged (tree_remove from r), Inr ()))
     | _ \<Rightarrow> (r, Inl (plain_error ''managed: rooted path escapes its owner''))))"

definition put_invalid :: "PublicationPlanOperation \<Rightarrow> string \<Rightarrow> bool" where
  "put_invalid q attemptIdentity \<longleftrightarrow>
     length attemptIdentity \<noteq> 64 \<or> po_operation q \<noteq> ''add'' \<and> po_operation q \<noteq> ''update''
     \<or> po_size q < 0 \<or> \<not> validSHA256Text (po_sha256 q)"

text \<open>The first half of \<open>Put\<close> ends with the stage in place, the second installs it; when the object is
  there already the first half answers with its identity. The error of removing a stage that is no
  longer needed is ignored.\<close>

definition put_prepare ::
    "source_tree \<Rightarrow> PublicationPlanOperation \<Rightarrow> string \<Rightarrow> target_tree \<Rightarrow> target_tree \<times> string option result" where
  "put_prepare source q attemptIdentity =
     (if put_invalid q attemptIdentity
      then answer (Inl (GoError [ErrRejected] ''invalid filesystem publication write''))
      else if \<not> public_path (po_path q)
      then answer (Inl (GoError [ErrRejected] ''unsafe filesystem publication path''))
      else do_then (ask (tree_Head (po_path q))) (\<lambda>current.
      case current of
        Some object \<Rightarrow>
          if installed current q
          then (\<lambda>r. (fst (removeStageIfPresent (filesystemStagePath (po_path q) attemptIdentity) r), Inr (Some (ro_identity object))))
          else if HasPrefix (po_path q) ''pool/'' \<and> po_operation q = ''update''
          then answer (Inl (GoError [ErrRejected] ''immutable payload cannot be overwritten''))
          else if po_operation q = ''add''
          then answer (Inl (GoError [ErrIntegrity] ''create-only object already exists with different identity''))
          else if po_expected_old_sha256 q = '''' \<or> ro_sha256 object \<noteq> po_expected_old_sha256 q
          then answer (Inl (GoError [ErrIntegrity] ''filesystem CAS precondition failed''))
          else do_then (prepareStage source q (filesystemStagePath (po_path q) attemptIdentity)) (\<lambda>_. answer (Inr None))
      | None \<Rightarrow>
          if HasPrefix (po_path q) ''pool/'' \<and> po_operation q = ''update''
          then answer (Inl (GoError [ErrRejected] ''immutable payload cannot be overwritten''))
          else if po_operation q = ''update''
          then answer (Inl (GoError [ErrIntegrity] ''filesystem CAS precondition failed''))
          else do_then (prepareStage source q (filesystemStagePath (po_path q) attemptIdentity)) (\<lambda>_. answer (Inr None))))"

definition put_install :: "PublicationPlanOperation \<Rightarrow> string \<Rightarrow> target_tree \<Rightarrow> target_tree \<times> string result" where
  "put_install q attemptIdentity =
     do_then (installStageCAS (filesystemStagePath (po_path q) attemptIdentity) q) (\<lambda>_.
     do_then (ask (tree_Head (po_path q))) (\<lambda>found.
       case found of
         Some object \<Rightarrow>
           if installed found q then answer (Inr (ro_identity object))
           else answer (Inl (GoError [ErrIntegrity] ''filesystem publication write did not install exact object''))
       | None \<Rightarrow> answer (Inl (GoError [ErrIntegrity] ''filesystem publication write did not install exact object''))))"

definition tree_Put ::
    "source_tree \<Rightarrow> PublicationPlanOperation \<Rightarrow> string \<Rightarrow> target_tree \<Rightarrow> target_tree \<times> string result" where
  "tree_Put source q attemptIdentity =
     do_then (put_prepare source q attemptIdentity) (\<lambda>done'.
       case done' of Some identity \<Rightarrow> answer (Inr identity) | None \<Rightarrow> put_install q attemptIdentity)"

subsection \<open>Verifying and deleting\<close>

text \<open>With a public endpoint of scheme \<open>file\<close> the tree itself is what the public sees. With an HTTP
  endpoint the answer comes from the network: the argument \<open>http\<close>.\<close>

definition tree_VerifyPublic :: "(GenerationFile \<Rightarrow> unit result) option \<Rightarrow> GenerationFile \<Rightarrow> target_tree \<Rightarrow> unit result" where
  "tree_VerifyPublic http expected r =
     (case http of
        Some verify \<Rightarrow> verify expected
      | None \<Rightarrow>
          (case tree_Head (gf_path expected) r of
             Inr (Some object) \<Rightarrow>
               ensure (ro_size object = gf_size expected \<and> ro_sha256 object = gf_sha256 expected)
                 (GoError [ErrIntegrity] ''file public endpoint differs'')
           | _ \<Rightarrow> Inl (GoError [ErrIntegrity] ''file public endpoint differs'')))"

definition delete_invalid :: "PublicationObject \<Rightarrow> bool" where
  "delete_invalid c \<longleftrightarrow>
     \<not> content_phase (po_object_phase c) \<or> po_object_size c < 0 \<or> \<not> validSHA256Text (po_object_sha256 c)
     \<or> po_object_remote c \<noteq> po_object_sha256 c \<or> \<not> public_path (po_object_path c)"

definition tree_DeleteConditional :: "PublicationObject \<Rightarrow> target_tree \<Rightarrow> target_tree \<times> unit result" where
  "tree_DeleteConditional c =
     (if delete_invalid c then answer (Inl (GoError [ErrRejected] ''invalid filesystem conditional-delete candidate''))
      else do_then (ask (tree_Head (po_object_path c))) (\<lambda>current.
           do_then (case current of
               None \<Rightarrow> answer (Inr ())
             | Some object \<Rightarrow>
                 if \<not> same_remote object c
                 then answer (Inl (GoError [ErrIntegrity] ''filesystem conditional-delete identity changed''))
                 else (\<lambda>r. case rooted (po_object_path c) of
                     Inl e \<Rightarrow> (r, Inl (GoError [ErrIntegrity] ''conditional delete''))
                   | Inr clean \<Rightarrow> (tree_remove clean r, Inr ()))) (\<lambda>_.
           do_then (ask (tree_Head (po_object_path c))) (\<lambda>after.
           answer (if after = None then Inr ()
                   else Inl (GoError [ErrIntegrity] ''filesystem object is not absent after conditional delete''))))))"

definition tree_VerifyPublicAbsent :: "(string \<Rightarrow> unit result) option \<Rightarrow> string \<Rightarrow> target_tree \<Rightarrow> unit result" where
  "tree_VerifyPublicAbsent http path r =
     (case http of
        Some verify \<Rightarrow> verify path
      | None \<Rightarrow>
          (case tree_Head path r of
             Inr None \<Rightarrow> Inr ()
           | _ \<Rightarrow> Inl (GoError [ErrIntegrity] ''file public endpoint still serves'')))"

definition filesystem_backend ::
    "(GenerationFile \<Rightarrow> unit result) option \<Rightarrow> (string \<Rightarrow> unit result) option \<Rightarrow> target_tree publicationBackend" where
  "filesystem_backend http absent =
     \<lparr>be_provider = ''filesystem'', be_list = tree_List, be_head = tree_Head, be_put = tree_Put,
      be_verify = tree_VerifyPublic http, be_delete = tree_DeleteConditional,
      be_verify_absent = tree_VerifyPublicAbsent absent\<rparr>"

subsection \<open>Paths below the root\<close>

definition below :: "string \<Rightarrow> bool" where
  "below p \<longleftrightarrow> list_all normal_elem (Split p slash)"

lemma clean_elems_normal: "list_all normal_elem es \<Longrightarrow> clean_elems r st es = rev st @ es"
  by (induction es arbitrary: st) (auto simp: normal_elem_def)

lemma Split_snoc: "c \<notin> set b \<Longrightarrow> Split (d @ c # b) c = Split d c @ [b]"
  by (induction d) (auto simp: Split_no_sep split: list.splits)

lemma Split_hd: "s \<noteq> [] \<Longrightarrow> hd s = c \<Longrightarrow> hd (Split s c) = []"
  by (cases s) auto

lemma below_not_rooted:
  assumes "below p"
  shows "p \<noteq> []" "hd p \<noteq> slash"
proof -
  have first: "hd (Split p slash) \<noteq> []"
    using assms by (cases "Split p slash") (auto simp: below_def normal_elem_def)
  then show "p \<noteq> []" by auto
  then show "hd p \<noteq> slash" using first Split_hd by metis
qed

lemma below_Clean: "below p \<Longrightarrow> path_Clean p = p"
  using below_not_rooted[of p] by (auto simp: path_Clean_def Let_def below_def clean_elems_normal)

lemma below_rooted:
  assumes "below p"
  shows "rooted p = Inr p"
proof -
  have "p \<noteq> ''.''" "p \<noteq> ''..''" using assms by (auto simp: below_def normal_elem_def)
  moreover have "\<not> HasPrefix p ''/''" using below_not_rooted[OF assms] by (auto simp: prefix_def)
  moreover have "\<not> HasPrefix p ''../''"
  proof
    assume "HasPrefix p ''../''"
    then obtain s where "p = ''..'' @ slash # s" by (auto simp: prefix_def)
    then have "hd (Split p slash) = ''..''" using Split_append[of slash "''..''" s] by simp
    then show False using assms by (cases "Split p slash") (auto simp: below_def normal_elem_def)
  qed
  ultimately show ?thesis using below_Clean[OF assms] by (simp add: rooted_def Let_def)
qed

text \<open>A path with a directory: the directory, the slash and the last component.\<close>

lemma below_parts:
  assumes "below p" and "slash \<in> set p"
  obtains d b where "p = d @ slash # b" "slash \<notin> set b" "below d" "normal_elem b"
proof -
  obtain d b where p: "p = d @ slash # b" "slash \<notin> set b" using split_list_last[OF assms(2)] by blast
  then have "Split p slash = Split d slash @ [b]" using Split_snoc[of slash b d] by simp
  then show thesis using that[OF p] assms(1) by (simp add: below_def)
qed

lemma below_snoc: "below d \<Longrightarrow> slash \<notin> set b \<Longrightarrow> normal_elem b \<Longrightarrow> below (d @ slash # b)"
  by (simp add: below_def Split_snoc)

lemma source_directory: "slash \<notin> set b \<Longrightarrow> poolSourceDirectory (d @ slash # b) = d @ [slash]"
  unfolding poolSourceDirectory_def rev_append rev.simps append.assoc by (subst dropWhile_append2) auto

lemma path_Dir_parts:
  assumes "below d" and "slash \<notin> set b"
  shows "path_Dir (d @ slash # b) = d"
proof -
  have "Split (d @ [slash]) slash = Split d slash @ [[]]" using Split_snoc[of slash "[]" d] by simp
  moreover have "clean_elems r st (es @ [[]]) = clean_elems r st es" for r st es
    by (induction es arbitrary: st) (auto split: list.splits)
  ultimately show ?thesis
    using assms below_not_rooted[OF assms(1)]
    by (auto simp: path_Dir_def source_directory path_Clean_def Let_def below_def clean_elems_normal)
qed

definition stage_name :: "string \<Rightarrow> string \<Rightarrow> string" where
  "stage_name path a = ''.sow-publish-'' @ take 16 a @ ''-'' @ take 16 (sha256_hex path)"

lemma hex_no_slash: "list_all is_lower_hex s \<Longrightarrow> slash \<notin> set s"
proof -
  have "\<not> is_lower_hex slash" by code_simp
  then show "list_all is_lower_hex s \<Longrightarrow> slash \<notin> set s" by (auto simp: list_all_iff)
qed

lemma stage_name_plain:
  assumes "validSHA256Text a"
  shows "slash \<notin> set (stage_name path a)" "normal_elem (stage_name path a)"
proof -
  have "slash \<notin> set (take 16 a)" "slash \<notin> set (take 16 (sha256_hex path))"
    using assms hex_no_slash[of a] hex_no_slash[OF sha256_hex_lower_hex[of path]]
    by (auto simp: validSHA256Text_def dest: in_set_takeD)
  then show "slash \<notin> set (stage_name path a)" by (simp add: stage_name_def)
qed (simp add: stage_name_def normal_elem_def)

lemma stage_path:
  assumes "below p" "slash \<in> set p" "validSHA256Text a"
  shows "below (filesystemStagePath p a)" "path_Dir (filesystemStagePath p a) = path_Dir p"
    and "\<exists>d. filesystemStagePath p a = d @ slash # stage_name p a"
proof -
  obtain d b where p: "p = d @ slash # b" "slash \<notin> set b" "below d" "normal_elem b"
    using below_parts[OF assms(1,2)] .
  note name = stage_name_plain[OF assms(3), of p]
  have below: "below (d @ slash # stage_name p a)" using below_snoc[OF p(3) name] .
  have "filesystemStagePath p a = path_Join [d, stage_name p a]"
    using path_Dir_parts[OF p(3,2)] p(1) by (simp add: filesystemStagePath_def stage_name_def)
  also have "\<dots> = d @ slash # stage_name p a"
    using below_not_rooted[OF p(3)] below_Clean[OF below] name(2) by (simp add: path_Join_def normal_elem_def)
  finally have form: "filesystemStagePath p a = d @ slash # stage_name p a" .
  then show "below (filesystemStagePath p a)" "\<exists>d. filesystemStagePath p a = d @ slash # stage_name p a"
    using below by auto
  show "path_Dir (filesystemStagePath p a) = path_Dir p"
    using path_Dir_parts[OF p(3) name(1)] path_Dir_parts[OF p(3,2)] form p(1) by simp
qed

lemma public_slash: "public_path p \<Longrightarrow> slash \<in> set p"
  by (auto simp: public_path_def prefix_def)

subsection \<open>What a write does to the tree\<close>

lemma tree_at_write [simp]: "tree_at (tree_write p f r) = (tree_at r)(p \<mapsto> f)"
  by (simp add: tree_at_def tree_write_def update_conv')

lemma tree_at_remove [simp]: "tree_at (tree_remove p r) = (tree_at r)(p := None)"
  by (simp add: tree_at_def tree_remove_def delete_conv')

lemma tree_refused [simp]:
  "tt_refused (tree_write p f r) = tt_refused r" "tt_refused (tree_remove p r) = tt_refused r"
  by (simp_all add: tree_write_def tree_remove_def)

lemma tree_Head_below:
  "below p \<Longrightarrow> tree_Head p r =
     (if tt_refused r p then Inl (GoError [ErrIntegrity] ''unsafe filesystem target object'')
      else Inr (map_option (tree_object p) (tree_at r p)))"
  by (simp add: tree_Head_def below_rooted)

lemma installed_iff: "installed (map_option (tree_object p) found) q \<longleftrightarrow> found = Some (operation_file q)"
  by (cases found) (auto simp: installed_def tree_object_def operation_file_def)

text \<open>An operation whose stage has a place of its own beside the object.\<close>

definition op_fits :: "PublicationPlanOperation \<Rightarrow> string \<Rightarrow> bool" where
  "op_fits q a \<longleftrightarrow> below (po_path q) \<and> slash \<in> set (po_path q) \<and> validSHA256Text a
     \<and> filesystemStagePath (po_path q) a \<noteq> po_path q"

lemma op_fits_facts:
  assumes "op_fits q a"
  shows "below (po_path q)" "below (filesystemStagePath (po_path q) a)" "filesystemStagePath (po_path q) a \<noteq> po_path q"
    "path_Dir (filesystemStagePath (po_path q) a) = path_Dir (po_path q)"
  using assms stage_path unfolding op_fits_def by blast+

lemma removeStage_cases:
  assumes "below S"
  shows "tt_refused (fst (removeStageIfPresent S r)) = tt_refused r"
    and "tree_at (fst (removeStageIfPresent S r)) = (tree_at r)(S := None) \<or> tt_refused r S \<and> fst (removeStageIfPresent S r) = r"
  by (auto simp: removeStageIfPresent_def do_then_def ask_def tree_Head_below[OF assms] below_rooted[OF assms] fun_upd_idem split: option.splits)

lemma prepareStage_cases:
  assumes "below S" and "prepareStage source q S r = (r', res)"
  shows "tt_refused r' = tt_refused r"
    and "res = Inr () \<Longrightarrow> tree_at r' = (tree_at r)(S \<mapsto> operation_file q)"
    and "res = Inl e \<Longrightarrow> tree_at r' = tree_at r \<or> tree_at r' = (tree_at r)(S := None)"
  using assms(2)
  by (auto simp: prepareStage_def do_then_def ask_def tree_Head_below[OF assms(1)] below_rooted[OF assms(1)] installed_iff Let_def
      fun_upd_triv fun_upd_idem split: if_splits option.splits)

text \<open>The first half of \<open>Put\<close>.\<close>

definition may_install :: "PublicationPlanOperation \<Rightarrow> stored_file option \<Rightarrow> bool" where
  "may_install q current \<longleftrightarrow>
     po_operation q = ''add'' \<and> current = None
     \<or> po_operation q = ''update'' \<and> \<not> HasPrefix (po_path q) ''pool/'' \<and> po_expected_old_sha256 q \<noteq> ''''
       \<and> (\<exists>f. current = Some f \<and> sf_sha256 f = po_expected_old_sha256 q)"

definition prepared :: "PublicationPlanOperation \<Rightarrow> string \<Rightarrow> target_tree \<Rightarrow> target_tree \<Rightarrow> string option \<Rightarrow> bool" where
  "prepared q a r r' found \<longleftrightarrow>
     (case found of
        Some identity \<Rightarrow> identity = po_sha256 q \<and> tree_at r (po_path q) = Some (operation_file q)
          \<and> (tree_at r' = (tree_at r)(filesystemStagePath (po_path q) a := None)
             \<or> tt_refused r (filesystemStagePath (po_path q) a) \<and> tree_at r' = tree_at r)
      | None \<Rightarrow> tree_at r' = (tree_at r)(filesystemStagePath (po_path q) a \<mapsto> operation_file q)
          \<and> \<not> tt_refused r (po_path q) \<and> tree_at r (po_path q) \<noteq> Some (operation_file q) \<and> may_install q (tree_at r (po_path q)))"

lemma put_prepare_cases:
  assumes "op_fits q a" and "put_prepare source q a r = (r', res)"
  shows "tt_refused r' = tt_refused r"
    and "res = Inr found \<Longrightarrow> prepared q a r r' found"
    and "res = Inl e \<Longrightarrow> tree_at r' = tree_at r \<or> tree_at r' = (tree_at r)(filesystemStagePath (po_path q) a := None)"
proof -
  let ?S = "filesystemStagePath (po_path q) a"
  note fits = op_fits_facts[OF assms(1)]
  note head = tree_Head_below[OF fits(1)] and stage = removeStage_cases[OF fits(2), of r]
  consider (early) e' where "put_prepare source q a r = (r, Inl e')"
    | (there) "put_prepare source q a r = (fst (removeStageIfPresent ?S r), Inr (Some (po_sha256 q)))"
        "tree_at r (po_path q) = Some (operation_file q)"
    | (stage) "put_prepare source q a r = do_then (prepareStage source q ?S) (\<lambda>_. answer (Inr None)) r"
        "\<not> tt_refused r (po_path q)" "tree_at r (po_path q) \<noteq> Some (operation_file q)" "may_install q (tree_at r (po_path q))"
  proof (cases "put_invalid q a \<or> \<not> public_path (po_path q) \<or> tt_refused r (po_path q)")
    case True
    then show thesis
      by (intro early[of "projl (snd (put_prepare source q a r))"])
        (auto simp: put_prepare_def answer_def do_then_def ask_def head)
  next
    case False
    obtain adds upds pool bare where ops: "adds \<longleftrightarrow> po_operation q = ''add''" "upds \<longleftrightarrow> po_operation q = ''update''"
        "pool \<longleftrightarrow> HasPrefix (po_path q) ''pool/''" "bare \<longleftrightarrow> po_expected_old_sha256 q = ''''" by simp
    have kind: "adds \<longleftrightarrow> \<not> upds" using False by (auto simp: put_invalid_def ops)
    note prep = put_prepare_def[of source q a, folded ops]
    have may: "may_install q c \<longleftrightarrow> adds \<and> c = None \<or> upds \<and> \<not> pool \<and> \<not> bare \<and> (\<exists>f. c = Some f \<and> sf_sha256 f = po_expected_old_sha256 q)" for c
      by (simp add: may_install_def ops)
    show thesis
    proof (cases "tree_at r (po_path q)")
      case None
      then have run: "put_prepare source q a r =
          (if pool \<and> upds then (r, Inl (GoError [ErrRejected] ''immutable payload cannot be overwritten''))
           else if upds then (r, Inl (GoError [ErrIntegrity] ''filesystem CAS precondition failed''))
           else do_then (prepareStage source q ?S) (\<lambda>_. answer (Inr None)) r)"
        using False by (simp add: prep do_then_def[of "ask f" for f] ask_def head answer_def)
      show thesis using early stage None False kind unfolding run may by (cases upds; cases pool) simp_all
    next
      case (Some f)
      then have run: "put_prepare source q a r =
          (if f = operation_file q then (fst (removeStageIfPresent ?S r), Inr (Some (sf_sha256 f)))
           else if pool \<and> upds then (r, Inl (GoError [ErrRejected] ''immutable payload cannot be overwritten''))
           else if adds then (r, Inl (GoError [ErrIntegrity] ''create-only object already exists with different identity''))
           else if bare \<or> sf_sha256 f \<noteq> po_expected_old_sha256 q
           then (r, Inl (GoError [ErrIntegrity] ''filesystem CAS precondition failed''))
           else do_then (prepareStage source q ?S) (\<lambda>_. answer (Inr None)) r)"
        using False installed_iff[of "po_path q" "Some f" q]
        by (simp add: prep do_then_def[of "ask f" for f] ask_def head answer_def tree_object_def)
      show thesis
      proof (cases "f = operation_file q")
        case True
        then show thesis using there Some by (simp add: run operation_file_def)
      next
        case other: False
        then show thesis using early stage Some False kind unfolding run may
          by (cases adds; cases pool; cases bare; cases "sf_sha256 f = po_expected_old_sha256 q") simp_all
      qed
    qed
  qed
  then have "tt_refused r' = tt_refused r \<and> (\<forall>found. res = Inr found \<longrightarrow> prepared q a r r' found)
    \<and> (\<forall>e. res = Inl e \<longrightarrow> tree_at r' = tree_at r \<or> tree_at r' = (tree_at r)(?S := None))"
  proof cases
    case early
    then show ?thesis using assms(2) by simp
  next
    case there
    then show ?thesis using assms(2) stage by (auto simp: prepared_def)
  next
    case staged: stage
    obtain r1 out where "prepareStage source q ?S r = (r1, out)" by (cases "prepareStage source q ?S r")
    then show ?thesis
      using staged assms(2) prepareStage_cases[OF fits(2), of source q r r1 out]
      by (cases out) (auto simp: do_then_def answer_def prepared_def)
  qed
  then show "tt_refused r' = tt_refused r"
    and "res = Inr found \<Longrightarrow> prepared q a r r' found"
    and "res = Inl e \<Longrightarrow> tree_at r' = tree_at r \<or> tree_at r' = (tree_at r)(?S := None)"
    by blast+
qed

text \<open>The second half, once the first has left the stage in place.\<close>

lemma may_install_cas: "may_install q current \<Longrightarrow> \<not> cas_refused (map_option (tree_object p) current) q"
  by (auto simp: may_install_def cas_refused_def tree_object_def)

lemma put_install_after:
  assumes "op_fits q a" and "prepared q a r r1 None" and "tt_refused r1 = tt_refused r"
  shows "\<exists>r'. put_install q a r1 = (r', Inr (po_sha256 q)) \<and> tt_refused r' = tt_refused r
    \<and> tree_at r' = (tree_at r)(filesystemStagePath (po_path q) a := None, po_path q \<mapsto> operation_file q)"
proof -
  let ?S = "filesystemStagePath (po_path q) a" and ?P = "po_path q"
  note fits = op_fits_facts[OF assms(1)]
  have at: "tree_at r1 = (tree_at r)(?S \<mapsto> operation_file q)" "\<not> tt_refused r ?P"
      "tree_at r ?P \<noteq> Some (operation_file q)" "may_install q (tree_at r ?P)"
    using assms(2) by (simp_all add: prepared_def)
  have same: "tree_at r1 ?P = tree_at r ?P" using at(1) fits(3) by simp
  have head: "tree_Head ?P r1 = Inr (map_option (tree_object ?P) (tree_at r ?P))"
    using tree_Head_below[OF fits(1), of r1] at(2) same assms(3) by simp
  let ?r' = "tree_write ?P (operation_file q) (tree_remove ?S r1)"
  have install: "installStageCAS ?S q r1 = (?r', Inr ())"
    using at same may_install_cas[OF at(4), of ?P] fits
    by (simp add: installStageCAS_def do_then_def ask_def head installed_iff below_rooted) (simp add: operation_file_def)
  have "tree_Head ?P ?r' = Inr (Some (tree_object ?P (operation_file q)))"
    using tree_Head_below[OF fits(1), of ?r'] at(2) assms(3) by simp
  then have "put_install q a r1 = (?r', Inr (po_sha256 q))"
    using installed_iff[of ?P "Some (operation_file q)" q]
    by (simp add: put_install_def do_then_def[of "installStageCAS ?S q"] install do_then_def[of "ask f" for f] ask_def answer_def
        tree_object_def operation_file_def)
  then show ?thesis using at(1) assms(3) by (simp add: fun_upd_twist[OF fits(3)])
qed

text \<open>\<open>Put\<close> is a compare-and-swap of one object: every other place keeps its file, except for the stage
  of the attempt, which is gone afterwards.\<close>

lemma tree_Put_cases:
  assumes "op_fits q a" and "tree_Put source q a r = (r', res)"
  shows "tt_refused r' = tt_refused r"
    and "res = Inr identity \<Longrightarrow> identity = po_sha256 q \<and> tree_at r' (po_path q) = Some (operation_file q)
      \<and> (tree_at r (po_path q) = Some (operation_file q) \<or> may_install q (tree_at r (po_path q)))
      \<and> (tree_at r' = (tree_at r)(filesystemStagePath (po_path q) a := None, po_path q \<mapsto> operation_file q)
         \<or> tt_refused r (filesystemStagePath (po_path q) a) \<and> tree_at r' = tree_at r)"
    and "res = Inl e \<Longrightarrow> tree_at r' = tree_at r \<or> tree_at r' = (tree_at r)(filesystemStagePath (po_path q) a := None)"
proof -
  let ?S = "filesystemStagePath (po_path q) a"
  note fits = op_fits_facts[OF assms(1)]
  obtain r1 out where prep: "put_prepare source q a r = (r1, out)" by (cases "put_prepare source q a r")
  note first = put_prepare_cases[OF assms(1) prep]
  have "tt_refused r' = tt_refused r \<and> (\<forall>identity. res = Inr identity \<longrightarrow> identity = po_sha256 q
      \<and> tree_at r' (po_path q) = Some (operation_file q)
      \<and> (tree_at r (po_path q) = Some (operation_file q) \<or> may_install q (tree_at r (po_path q)))
      \<and> (tree_at r' = (tree_at r)(?S := None, po_path q \<mapsto> operation_file q) \<or> tt_refused r ?S \<and> tree_at r' = tree_at r))
    \<and> (\<forall>e. res = Inl e \<longrightarrow> tree_at r' = tree_at r \<or> tree_at r' = (tree_at r)(?S := None))"
  proof (cases out)
    case (Inl e)
    then show ?thesis using first(1,3) assms(2) prep by (auto simp: tree_Put_def do_then_def)
  next
    case (Inr found)
    show ?thesis
    proof (cases found)
      case None
      then have "prepared q a r r1 None" using first(2) Inr by simp
      from put_install_after[OF assms(1) this first(1)] show ?thesis
        using assms(2) prep Inr None first(2)[of None] fits(3) by (auto simp: tree_Put_def do_then_def prepared_def)
    next
      case (Some identity)
      then have "prepared q a r r1 (Some identity)" using first(2) Inr by simp
      moreover have "r' = r1" "res = Inr identity"
        using assms(2) prep Inr Some by (simp_all add: tree_Put_def do_then_def answer_def)
      ultimately show ?thesis using first(1) fits(3) by (auto simp: prepared_def fun_upd_idem)
    qed
  qed
  then show "tt_refused r' = tt_refused r"
    and "res = Inr identity \<Longrightarrow> identity = po_sha256 q \<and> tree_at r' (po_path q) = Some (operation_file q)
      \<and> (tree_at r (po_path q) = Some (operation_file q) \<or> may_install q (tree_at r (po_path q)))
      \<and> (tree_at r' = (tree_at r)(?S := None, po_path q \<mapsto> operation_file q) \<or> tt_refused r ?S \<and> tree_at r' = tree_at r)"
    and "res = Inl e \<Longrightarrow> tree_at r' = tree_at r \<or> tree_at r' = (tree_at r)(?S := None)"
    by blast+
qed

text \<open>When the write succeeds: the source has the bytes and the compare-and-swap finds what it expects.\<close>

lemma tree_Put_runs:
  assumes "op_fits q a" and "\<not> put_invalid q a" and "public_path (po_path q)"
    and "\<not> tt_refused r (po_path q)" and "\<not> tt_refused r (filesystemStagePath (po_path q) a)"
    and "tree_at r (po_path q) = Some (operation_file q) \<or> may_install q (tree_at r (po_path q)) \<and> source (po_path q) = Some (operation_file q)"
  shows "\<exists>r'. tree_Put source q a r = (r', Inr (po_sha256 q))"
proof -
  let ?S = "filesystemStagePath (po_path q) a" and ?P = "po_path q"
  note fits = op_fits_facts[OF assms(1)]
  have head: "tree_Head ?P r = Inr (map_option (tree_object ?P) (tree_at r ?P))"
    using tree_Head_below[OF fits(1), of r] assms(4) by simp
  show ?thesis
  proof (cases "tree_at r ?P = Some (operation_file q)")
    case True
    then have "snd (put_prepare source q a r) = Inr (Some (po_sha256 q))"
      using assms(2,3) head installed_iff[of ?P "Some (operation_file q)" q]
      by (simp add: put_prepare_def do_then_def ask_def tree_object_def operation_file_def)
    then show ?thesis by (cases "put_prepare source q a r") (simp add: tree_Put_def do_then_def answer_def)
  next
    case False
    then have may: "may_install q (tree_at r ?P)" and source: "source ?P = Some (operation_file q)" using assms(6) by auto
    have "\<exists>r1. prepareStage source q ?S r = (r1, Inr ())"
      using source assms(5) tree_Head_below[OF fits(2), of r] below_rooted[OF fits(2)]
      by (simp add: prepareStage_def do_then_def ask_def Let_def)
    then obtain r1 where stage: "prepareStage source q ?S r = (r1, Inr ())" by blast
    have "snd (put_prepare source q a r) = Inr None"
    proof (cases "tree_at r ?P")
      case None
      then show ?thesis
        using may assms(2,3) head stage
        by (simp add: put_prepare_def do_then_def ask_def answer_def may_install_def)
    next
      case (Some f)
      then have "po_operation q = ''update''" "\<not> HasPrefix ?P ''pool/''" "po_expected_old_sha256 q \<noteq> ''''"
          "sf_sha256 f = po_expected_old_sha256 q"
        using may by (auto simp: may_install_def)
      then show ?thesis
        using Some False assms(2,3) head stage installed_iff[of ?P "Some f" q]
        by (simp add: put_prepare_def do_then_def ask_def answer_def tree_object_def)
    qed
    then obtain r2 where prep: "put_prepare source q a r = (r2, Inr None)" by (cases "put_prepare source q a r") simp
    note first = put_prepare_cases(1,2)[OF assms(1) prep]
    from put_install_after[OF assms(1) first(2)[OF refl] first(1)] prep show ?thesis
      by (auto simp: tree_Put_def do_then_def)
  qed
qed

subsection \<open>Listing\<close>

lemma list_loop:
  "for_each (list_step ignored r) acc files = Inr objects \<longleftrightarrow>
     (\<forall>(p, f)\<in>set files. p \<in> set ignored \<or> public_path p \<and> \<not> tt_refused r p)
     \<and> objects = acc @ map (\<lambda>(p, f). tree_object p f) (filter (\<lambda>(p, f). p \<notin> set ignored) files)"
proof -
  have step: "list_step ignored r acc x =
      (if fst x \<in> set ignored \<or> public_path (fst x) \<and> \<not> tt_refused r (fst x)
       then Inr (acc @ (if fst x \<in> set ignored then [] else [tree_object (fst x) (snd x)]))
       else Inl (if public_path (fst x) then GoError [ErrIntegrity] ''hash filesystem target object''
          else GoError [ErrIntegrity] ''filesystem target contains foreign public object''))" for acc x
    by (cases x) (simp add: list_step_def)
  have "concat (map (\<lambda>x. if fst x \<in> set ignored then [] else [tree_object (fst x) (snd x)]) files)
      = map (\<lambda>(p, f). tree_object p f) (filter (\<lambda>(p, f). p \<notin> set ignored) files)"
    by (induction files) auto
  then show ?thesis unfolding for_each_collect[OF step] by auto
qed

lemma tree_object_path [simp]: "ro_path (tree_object p f) = p"
  by (simp add: tree_object_def)

lemma tree_List_iff:
  "tree_List ignored r = Inr remote \<longleftrightarrow>
     (\<forall>p\<in>dom (tree_at r). p \<in> set ignored \<or> public_path p \<and> \<not> tt_refused r p)
     \<and> remote = map (\<lambda>(p, f). tree_object p f)
         (filter (\<lambda>(p, f). p \<notin> set ignored) (sort_key fst (AList.clearjunk (tt_files r))))"
proof -
  let ?files = "sort_key fst (AList.clearjunk (tt_files r))"
  let ?objects = "map (\<lambda>(p, f). tree_object p f) (filter (\<lambda>(p, f). p \<notin> set ignored) ?files)"
  have keys: "fst ` set ?files = dom (tree_at r)" 
    unfolding tree_at_def set_sort by (metis dom_map_of_conv_image_fst map_of_clearjunk)
  have paths: "map ro_path ?objects = map fst (filter (\<lambda>(p, f). p \<notin> set ignored) ?files)" by (induction ?files) auto
  have "sorted (map fst (filter (\<lambda>(p, f). p \<notin> set ignored) ?files))" by (rule sorted_filter) simp
  then have "sorted (map ro_path ?objects)" unfolding paths .
  then have "sort_key ro_path ?objects = ?objects" by (rule sort_key_sorted)
  moreover have "(\<forall>(p, f)\<in>set ?files. p \<in> set ignored \<or> public_path p \<and> \<not> tt_refused r p) \<longleftrightarrow>
      (\<forall>p\<in>dom (tree_at r). p \<in> set ignored \<or> public_path p \<and> \<not> tt_refused r p)"
    unfolding keys[symmetric] by auto
  ultimately show ?thesis unfolding tree_List_def and_then_Inr_iff list_loop by auto
qed

text \<open>The objects of a tree by their paths.\<close>

definition tree_view :: "target_tree \<Rightarrow> string \<rightharpoonup> publicationRemoteObject" where
  "tree_view r p = map_option (tree_object p) (tree_at r p)"

lemma tree_List_view:
  assumes "tree_List ignored r = Inr remote"
  shows "sorted_wrt (<) (map ro_path remote)"
    and "index_by ro_path remote p = (if p \<in> set ignored then None else tree_view r p)"
proof -
  let ?files = "sort_key fst (AList.clearjunk (tt_files r))"
  have remote: "remote = map (\<lambda>(p, f). tree_object p f) (filter (\<lambda>(p, f). p \<notin> set ignored) ?files)"
    using assms by (simp add: tree_List_iff)
  have paths: "map ro_path remote = map fst (filter (\<lambda>(p, f). p \<notin> set ignored) ?files)"
    unfolding remote by (induction ?files) auto
  have dist: "distinct (map fst ?files)" by (simp add: distinct_map_sort_key)
  then have distinct: "distinct (map ro_path remote)" unfolding paths by (rule distinct_map_filter)
  have "sorted (map ro_path remote)" unfolding paths by (rule sorted_filter) simp
  with distinct show "sorted_wrt (<) (map ro_path remote)" by (simp add: sorted_distinct_strict)
  have at: "tree_at r p = Some f \<longleftrightarrow> (p, f) \<in> set ?files" for p f
    using map_of_eq_Some_iff[of "AList.clearjunk (tt_files r)" p f] by (simp add: tree_at_def map_of_clearjunk)
  have "o' \<in> set remote \<and> ro_path o' = p \<longleftrightarrow> (\<exists>f. (p, f) \<in> set ?files \<and> p \<notin> set ignored \<and> o' = tree_object p f)" for o'
    unfolding remote by auto
  then have "index_by ro_path remote p = Some o' \<longleftrightarrow> (if p \<in> set ignored then None else tree_view r p) = Some o'" for o'
    unfolding index_by_distinct[OF distinct] tree_view_def at[symmetric] by auto
  then show "index_by ro_path remote p = (if p \<in> set ignored then None else tree_view r p)"
    by (metis not_None_eq)
qed

subsection \<open>What the workflow relies on\<close>

definition holds :: "PublicationPlanOperation \<Rightarrow> publicationRemoteObject \<Rightarrow> bool" where
  "holds q o' \<longleftrightarrow> ro_size o' = po_size q \<and> ro_sha256 o' = po_sha256 q"

text \<open>
  The contract of a publication target: a write touches its own object and its stage only, leaves at
  its path what was there or what it was asked to write, and when it reports success the latter; an
  object that is already as asked is left alone, and so is every object where the write creates. While it is under way only the stage changes. A
  listing shows exactly what is there.
\<close>

locale publication_target =
  fixes be :: "'r publicationBackend"
    and view :: "'r \<Rightarrow> string \<rightharpoonup> publicationRemoteObject"
    and fits :: "PublicationPlanOperation \<Rightarrow> string \<Rightarrow> bool"
    and stage :: "PublicationPlanOperation \<Rightarrow> string \<Rightarrow> string"
    and between :: "source_tree \<Rightarrow> PublicationPlanOperation \<Rightarrow> string \<Rightarrow> 'r \<Rightarrow> 'r"
  assumes put_elsewhere: "fits q a \<Longrightarrow> p \<noteq> po_path q \<Longrightarrow> p \<noteq> stage q a \<Longrightarrow> view (fst (be_put be source q a r)) p = view r p"
    and put_stage: "fits q a \<Longrightarrow> view r (stage q a) = None \<Longrightarrow> view (fst (be_put be source q a r)) (stage q a) = None"
    and put_path: "fits q a \<Longrightarrow> view (fst (be_put be source q a r)) (po_path q) = view r (po_path q)
      \<or> (\<exists>o'. view (fst (be_put be source q a r)) (po_path q) = Some o' \<and> holds q o')"
    and put_done: "fits q a \<Longrightarrow> be_put be source q a r = (r', Inr i) \<Longrightarrow> \<exists>o'. view r' (po_path q) = Some o' \<and> holds q o'"
    and put_kept: "fits q a \<Longrightarrow> view r (po_path q) = Some o' \<Longrightarrow> holds q o' \<Longrightarrow>
      view (fst (be_put be source q a r)) (po_path q) = Some o'"
    and put_create: "fits q a \<Longrightarrow> po_operation q = ''add'' \<Longrightarrow> view r (po_path q) = Some o' \<Longrightarrow>
      view (fst (be_put be source q a r)) (po_path q) = Some o'"
    and put_between: "fits q a \<Longrightarrow> p \<noteq> stage q a \<Longrightarrow> view (between source q a r) p = view r p"
    and list_sorted: "be_list be ignored r = Inr remote \<Longrightarrow> sorted_wrt (<) (map ro_path remote)"
    and list_view: "be_list be ignored r = Inr remote \<Longrightarrow>
      index_by ro_path remote p = (if p \<in> set ignored then None else view r p)"
begin

text \<open>The objects of a listing.\<close>

lemma list_member:
  assumes "be_list be ignored r = Inr remote"
  shows "o' \<in> set remote \<longleftrightarrow> ro_path o' \<notin> set ignored \<and> view r (ro_path o') = Some o'"
proof -
  have "distinct (map ro_path remote)" using sorted_wrt_less_distinct[OF list_sorted[OF assms]] .
  then have "o' \<in> set remote \<longleftrightarrow> index_by ro_path remote (ro_path o') = Some o'" by (simp add: index_by_distinct)
  then show ?thesis using list_view[OF assms, of "ro_path o'"] by auto
qed

end

lemma holds_tree [simp]: "holds q (tree_object p f) \<longleftrightarrow> f = operation_file q"
  by (cases f) (auto simp: holds_def tree_object_def operation_file_def)

interpretation filesystem_target: publication_target "filesystem_backend http absent" tree_view op_fits
    "\<lambda>q a. filesystemStagePath (po_path q) a" "\<lambda>source q a r. fst (put_prepare source q a r)" for http absent
proof
  fix q :: PublicationPlanOperation and a p source r r' i o' ignored and remote :: "publicationRemoteObject list"
  let ?S = "filesystemStagePath (po_path q) a"
  let ?put = "tree_Put source q a r"
  have put: "be_put (filesystem_backend http absent) = tree_Put" "be_list (filesystem_backend http absent) = tree_List"
    by (simp_all add: filesystem_backend_def)
  have cases: "tree_at (fst ?put) = tree_at r \<or> tree_at (fst ?put) = (tree_at r)(?S := None)
      \<or> tree_at (fst ?put) = (tree_at r)(?S := None, po_path q \<mapsto> operation_file q)" if "op_fits q a"
  proof (cases "snd ?put")
    case (Inl e)
    show ?thesis using tree_Put_cases(3)[OF that prod.collapse[symmetric] Inl] by blast
  next
    case (Inr i)
    show ?thesis using tree_Put_cases(2)[OF that prod.collapse[symmetric] Inr] by blast
  qed
  note fits = op_fits_facts(3)
  show "op_fits q a \<Longrightarrow> p \<noteq> po_path q \<Longrightarrow> p \<noteq> ?S \<Longrightarrow> tree_view (fst (be_put (filesystem_backend http absent) source q a r)) p = tree_view r p"
    using cases by (auto simp: put tree_view_def)
  show "op_fits q a \<Longrightarrow> tree_view r ?S = None \<Longrightarrow> tree_view (fst (be_put (filesystem_backend http absent) source q a r)) ?S = None"
    using cases fits[of q a] by (auto simp: put tree_view_def)
  show "op_fits q a \<Longrightarrow> tree_view (fst (be_put (filesystem_backend http absent) source q a r)) (po_path q) = tree_view r (po_path q)
      \<or> (\<exists>o'. tree_view (fst (be_put (filesystem_backend http absent) source q a r)) (po_path q) = Some o' \<and> holds q o')"
    using cases fits[of q a] by (auto simp: put tree_view_def)
  show "op_fits q a \<Longrightarrow> be_put (filesystem_backend http absent) source q a r = (r', Inr i) \<Longrightarrow> \<exists>o'. tree_view r' (po_path q) = Some o' \<and> holds q o'"
    using tree_Put_cases(2)[of q a source r r' "Inr i" i] by (simp add: put tree_view_def)
  show "op_fits q a \<Longrightarrow> tree_view r (po_path q) = Some o' \<Longrightarrow> holds q o' \<Longrightarrow>
      tree_view (fst (be_put (filesystem_backend http absent) source q a r)) (po_path q) = Some o'"
    using cases fits[of q a] by (auto simp: put tree_view_def)
  have create: "tree_at (fst ?put) (po_path q) = Some f" if "op_fits q a" "po_operation q = ''add''" "tree_at r (po_path q) = Some f" for f
  proof (cases "snd ?put")
    case (Inl e)
    show ?thesis using tree_Put_cases(3)[OF that(1) prod.collapse[symmetric] Inl] that(3) fits[OF that(1)] by auto
  next
    case (Inr i)
    then have "tree_at (fst ?put) (po_path q) = Some (operation_file q)" "f = operation_file q"
      using tree_Put_cases(2)[OF that(1) prod.collapse[symmetric] Inr] that by (auto simp: may_install_def)
    then show ?thesis by simp
  qed
  then show "op_fits q a \<Longrightarrow> po_operation q = ''add'' \<Longrightarrow> tree_view r (po_path q) = Some o' \<Longrightarrow>
      tree_view (fst (be_put (filesystem_backend http absent) source q a r)) (po_path q) = Some o'"
    by (auto simp: put tree_view_def)
  have "tree_at (fst (put_prepare source q a r)) p = tree_at r p" if "op_fits q a" "p \<noteq> ?S"
    using that put_prepare_cases[OF that(1) prod.collapse[symmetric], of source r]
    by (cases "snd (put_prepare source q a r)") (auto simp: prepared_def split: option.splits)
  then show "op_fits q a \<Longrightarrow> p \<noteq> ?S \<Longrightarrow> tree_view (fst (put_prepare source q a r)) p = tree_view r p"
    by (simp add: tree_view_def)
  show "be_list (filesystem_backend http absent) ignored r = Inr remote \<Longrightarrow> sorted_wrt (<) (map ro_path remote)"
    using tree_List_view(1) by (simp add: put)
  show "be_list (filesystem_backend http absent) ignored r = Inr remote \<Longrightarrow>
      index_by ro_path remote p = (if p \<in> set ignored then None else tree_view r p)"
    using tree_List_view(2) by (simp add: put)
qed

end
