(* ===== verification/Publish_Workflow.thy ===== *)
theory Publish_Workflow
  imports Publication_Read Publication_Protocol Go_Duration Target_Tree
begin

section \<open>Publishing (\<open>internal/v2/managed/publication.go\<close>, \<open>publication_gc_target.go\<close>)\<close>

text \<open>
  The three commands that touch a remote target: publish a generation, abandon a publication before
  its commit, and clean a target. Each is the interleaving of calls of the store with operations of
  the backend; the state of the model is the repository database, the publication tables and the
  target. Taking locks, opening the database and reading the configuration come before and are the
  environment: the configured binding, the answers of the checks that only look at the host, the files
  of the repository on disk, and the two readings of the clock. A fault is an error a test injects at
  a named point; it stands for a process that stops there.
\<close>

record 'r world =
  w_db :: database
  w_tables :: publication_tables
  w_remote :: 'r

record 'r publish_env =
  pe_binding :: "PublicationTargetBinding result"
  pe_rebind :: bool
  pe_recover :: "database \<Rightarrow> database \<times> unit result"
  pe_preflight :: "unit result"
  pe_backend :: "'r publicationBackend result"
  pe_source :: source_tree
  pe_physical :: "GenerationFile list result"
  pe_case_insensitive :: "bool result"
  pe_apt_metadata :: "unit result"
  pe_fault :: "string \<Rightarrow> unit result"
  pe_now :: utc_time
  pe_applied_at :: utc_time
  pe_remove_stage :: "(string \<Rightarrow> 'r \<Rightarrow> 'r \<times> unit result) option"

definition on_db :: "(database \<Rightarrow> database \<times> 'a result) \<Rightarrow> 'r world \<Rightarrow> 'r world \<times> 'a result" where
  "on_db m w = (case m (w_db w) of (db, res) \<Rightarrow> (w\<lparr>w_db := db\<rparr>, res))"

definition on_tables :: "(publication_tables \<Rightarrow> publication_tables \<times> 'a result) \<Rightarrow> 'r world \<Rightarrow> 'r world \<times> 'a result" where
  "on_tables m w = (case m (w_tables w) of (t, res) \<Rightarrow> (w\<lparr>w_tables := t\<rparr>, res))"

definition on_remote :: "('r \<Rightarrow> 'r \<times> 'a result) \<Rightarrow> 'r world \<Rightarrow> 'r world \<times> 'a result" where
  "on_remote m w = (case m (w_remote w) of (r, res) \<Rightarrow> (w\<lparr>w_remote := r\<rparr>, res))"

text \<open>\<open>fmt.Errorf("%w: ...: %v", sentinel, err)\<close>.\<close>

definition refuse :: "sentinel \<Rightarrow> string \<Rightarrow> 'a result \<Rightarrow> 'a result" where
  "refuse s message r = (case r of Inl _ \<Rightarrow> Inl (GoError [s] message) | Inr a \<Rightarrow> Inr a)"

text \<open>A loop whose body changes the state and may fail.\<close>

fun each :: "('acc \<Rightarrow> 'a \<Rightarrow> 's \<Rightarrow> 's \<times> 'acc result) \<Rightarrow> 'acc \<Rightarrow> 'a list \<Rightarrow> 's \<Rightarrow> 's \<times> 'acc result" where
  "each f acc [] = answer (Inr acc)"
| "each f acc (x # xs) = do_then (f acc x) (\<lambda>acc'. each f acc' xs)"

subsection \<open>The generation that is published\<close>

definition sameGenerationManifest :: "GenerationFile list \<Rightarrow> GenerationFile list \<Rightarrow> bool" where
  "sameGenerationManifest left right \<longleftrightarrow> sort_key gf_path left = sort_key gf_path right"

definition publicationSourceGeneration ::
    "database \<Rightarrow> GenerationFile list result \<Rightarrow> PublicationAttempt option \<Rightarrow> (GenerationID \<times> GenerationFile list \<times> string) result" where
  "publicationSourceGeneration db scanned active =
     (let generation = (case active of None \<Rightarrow> rs_built_generation (db_repository db) | Some a \<Rightarrow> at_generation a)
      in if generation = 0 then Inl (GoError [ErrNotReady] ''repository has no Built Generation'')
         else and_then (generationManifestOn db generation) (\<lambda>manifest.
              if (case scanned of Inl _ \<Rightarrow> True | Inr physical \<Rightarrow> \<not> sameGenerationManifest manifest physical)
              then Inl (GoError [ErrIntegrity] ''publication source is not the exact target Generation'')
              else and_then (ManifestBytes manifest) (\<lambda>(_, digest). Inr (generation, manifest, digest))))"

definition verifiedGenerationManifest :: "database \<Rightarrow> GenerationID \<Rightarrow> string \<Rightarrow> GenerationFile list result" where
  "verifiedGenerationManifest db generation manifestSHA =
     and_then (generationManifestOn db generation) (\<lambda>manifest.
       case ManifestBytes manifest of
         Inl _ \<Rightarrow> Inl (GoError [ErrIntegrity] ''checkpoint Generation manifest changed'')
       | Inr (_, digest) \<Rightarrow>
           if digest \<noteq> manifestSHA then Inl (GoError [ErrIntegrity] ''checkpoint Generation manifest changed'')
           else Inr manifest)"

subsection \<open>The base of a plan\<close>

text \<open>The manifest and the live inventory of the checkpoint the target is at.\<close>

definition publication_base ::
    "database \<Rightarrow> publication_tables \<Rightarrow> string \<Rightarrow> string \<Rightarrow> target_head \<Rightarrow> (GenerationFile list \<times> PublicationObject list) result" where
  "publication_base db t repository target head =
     (if head_text head = '''' then Inr ([], [])
      else and_then (GetAppliedCheckpoint t (head_text head)) (\<lambda>checkpoint.
           if cp_target checkpoint \<noteq> target \<or> cp_repository checkpoint \<noteq> repository
              \<or> cp_generation checkpoint \<noteq> th_generation head \<or> cp_manifest checkpoint \<noteq> null_string (th_manifest head)
           then Inl (GoError [ErrIntegrity] ''target head and checkpoint differ'')
           else and_then (generationManifestOn db (cp_generation checkpoint)) (\<lambda>manifest.
                and_then (PublicationLiveInventory t (cp_identity checkpoint)) (\<lambda>inventory.
                Inr (manifest, inventory)))))"

definition plan_input ::
    "string \<Rightarrow> string \<Rightarrow> string \<Rightarrow> GenerationID \<Rightarrow> GenerationFile list \<Rightarrow> GenerationFile list \<Rightarrow> PublicationPlanInput" where
  "plan_input repository target base generation baseManifest targetManifest =
     \<lparr>pi_repository_id = repository, pi_target_identity = target, pi_base_checkpoint = base,
      pi_target_generation = generation, pi_base_manifest = baseManifest, pi_target_manifest = targetManifest,
      pi_changes = DiffManifests baseManifest targetManifest\<rparr>"

definition publication_plan :: "PublicationPlanInput \<Rightarrow> bool \<Rightarrow> PublicationPlan result" where
  "publication_plan input recovering =
     refuse ErrIntegrity ''build target publication plan''
       (case BuildPublicationPlan input of
          Inr plan \<Rightarrow> Inr plan
        | Inl e \<Rightarrow> if errors_Is e ErrPoolPathConflict \<and> recovering then ReconcileLegacyPublicationPlan input else Inl e)"

subsection \<open>The remote before the first write\<close>

text \<open>A new attempt requires exactly the base, abandoned uploads included, and refuses payload paths that
  hold other bytes; an attempt that is resumed requires the bound plan and an inventory that is
  between the old and the new one.\<close>

definition fresh_remote ::
    "publicationRemoteObject list \<Rightarrow> PublicationObject list \<Rightarrow> PublicationObject list \<Rightarrow> bool result
      \<Rightarrow> PublicationPlan \<Rightarrow> PublicationObject list result" where
  "fresh_remote remote base orphans caseInsensitive plan =
     and_then (recognizePublicationAbandonedObjects remote base orphans) (\<lambda>inventory.
     and_then (requireExactRemoteInventory remote inventory) (\<lambda>_.
     and_then caseInsensitive (\<lambda>folded.
     and_then (rejectPayloadPathConflicts inventory (pp_payload plan) folded) (\<lambda>_. Inr inventory))))"

definition resumed_remote ::
    "publicationRemoteObject list \<Rightarrow> PublicationObject list \<Rightarrow> PublicationObject list \<Rightarrow> PublicationAttempt \<Rightarrow> string \<Rightarrow> string
      \<Rightarrow> PublicationPlan \<Rightarrow> GenerationFile list \<Rightarrow> PublicationObject list result" where
  "resumed_remote remote base orphans active repository target plan targetManifest =
     (if at_repository active \<noteq> repository \<or> at_target active \<noteq> target \<or> at_base active \<noteq> pp_base_checkpoint plan
         \<or> at_generation active \<noteq> pp_target_generation plan \<or> at_manifest active \<noteq> pp_manifest_sha256 plan
         \<or> at_plan active \<noteq> pp_plan_sha256 plan
      then Inl (GoError [ErrIntegrity] ''active publication attempt differs from the only recoverable plan'')
      else let inventory = recognizeRecoverablePublicationAbandonedObjects remote base orphans
           in and_then (requireRecoverableRemoteInventory remote inventory targetManifest) (\<lambda>_. Inr inventory))"

subsection \<open>The writes\<close>

datatype publish_action =
    Upload PublicationPlanOperation
  | Record store_call
  | Fault string

definition view_actions :: "string \<Rightarrow> string \<Rightarrow> PublicationAttemptView list \<Rightarrow> publish_action list" where
  "view_actions i state views =
     map (\<lambda>v. Record (SetPublicationAttemptViewState i (av_view v) (av_pointer v) state)) views"

definition pointer_actions :: "string \<Rightarrow> string \<Rightarrow> PublicationPlanOperation \<Rightarrow> publish_action list" where
  "pointer_actions i view q =
     [Fault (''publish.pointer.before.'' @ po_path q), Upload q, Fault (''publish.pointer.written.'' @ po_path q),
      Record (SetPublicationAttemptViewState i view (po_path q) ''applied''),
      Fault (''publish.pointer.recorded.'' @ po_path q)]"

definition prepare_actions :: "string \<Rightarrow> PublicationPlan \<Rightarrow> PublicationAttemptView list \<Rightarrow> publish_action list" where
  "prepare_actions i plan views =
     map Upload (pp_payload plan) @ [Record (AdvancePublicationAttemptPhase i ''payload''), Fault ''publish.payload''] @
     map Upload (pp_immutable_metadata plan)
       @ [Record (AdvancePublicationAttemptPhase i ''immutable_metadata''), Fault ''publish.immutable_metadata'',
          Record (AdvancePublicationAttemptPhase i ''pointer_prepared'')] @
     view_actions i ''prepared'' views @ [Fault ''publish.pointer_prepared'']"

definition commit_actions :: "string \<Rightarrow> PublicationPlan \<Rightarrow> publish_action list" where
  "commit_actions i plan =
     [Record (SetPublicationCommitIntent i), Fault ''publish.commit_intent''] @ map Upload (pp_stable_aliases plan) @
     concat (map (\<lambda>unit. concat (map (pointer_actions i (cu_view_id unit)) (cu_pointers unit))) (pp_commit_units plan)) @
     [Record (AdvancePublicationAttemptPhase i ''pointer_rollforward'')]"

definition verify_actions :: "string \<Rightarrow> PublicationAttemptView list \<Rightarrow> publish_action list" where
  "verify_actions i views =
     view_actions i ''verified'' views @ [Record (AdvancePublicationAttemptPhase i ''verified''), Fault ''publish.verified'']"

definition run_action ::
    "'r publicationBackend \<Rightarrow> source_tree \<Rightarrow> (string \<Rightarrow> unit result) \<Rightarrow> string \<Rightarrow> publish_action \<Rightarrow> 'r world \<Rightarrow> 'r world \<times> unit result" where
  "run_action be source fault i action =
     (case action of
        Upload q \<Rightarrow> do_then (on_remote (be_put be source q i)) (\<lambda>_. answer (Inr ()))
      | Record call \<Rightarrow> on_tables call
      | Fault point \<Rightarrow> answer (fault point))"

definition run_actions ::
    "'r publicationBackend \<Rightarrow> source_tree \<Rightarrow> (string \<Rightarrow> unit result) \<Rightarrow> string \<Rightarrow> publish_action list \<Rightarrow> 'r world \<Rightarrow> 'r world \<times> unit result" where
  "run_actions be source fault i actions = each (\<lambda>_. run_action be source fault i) () actions"

subsection \<open>The checkpoint\<close>

definition publicationCheckpointViews ::
    "'r publicationBackend \<Rightarrow> 'r \<Rightarrow> PublicationAttemptView list \<Rightarrow> PublicationCheckpointView list result" where
  "publicationCheckpointViews be r views =
     for_each (\<lambda>result view.
       case be_head be (av_pointer view) r of
         Inr (Some object) \<Rightarrow>
           if ro_sha256 object \<noteq> av_new view then Inl (GoError [ErrIntegrity] ''publication pointer did not verify'')
           else Inr (result @ [\<lparr>cv_view = av_view view, cv_pointer = av_pointer view, cv_remote = ro_identity object\<rparr>])
       | _ \<Rightarrow> Inl (GoError [ErrIntegrity] ''publication pointer did not verify'')) [] views"

definition verifyPublishedFiles :: "'r publicationBackend \<Rightarrow> 'r \<Rightarrow> GenerationFile list \<Rightarrow> unit result" where
  "verifyPublishedFiles be r files = for_each (\<lambda>_ f. be_verify be f r) () files"

definition verifyPublishedPointers ::
    "'r publicationBackend \<Rightarrow> database \<Rightarrow> 'r \<Rightarrow> GenerationID \<Rightarrow> string \<Rightarrow> unit result" where
  "verifyPublishedPointers be db r generation manifestSHA =
     and_then (verifiedGenerationManifest db generation manifestSHA) (\<lambda>manifest.
       verifyPublishedFiles be r (filter (\<lambda>f. gf_phase f = ''pointer'') manifest))"

definition verifyAppliedCheckpointInventory :: "'r publicationBackend \<Rightarrow> 'r world \<Rightarrow> AppliedCheckpoint \<Rightarrow> unit result" where
  "verifyAppliedCheckpointInventory be w checkpoint =
     and_then (verifiedGenerationManifest (w_db w) (cp_generation checkpoint) (cp_manifest checkpoint)) (\<lambda>_.
     and_then (PublicationLiveInventory (w_tables w) (cp_identity checkpoint)) (\<lambda>expected.
     and_then (be_list be [] (w_remote w)) (\<lambda>remote. requireExactRemoteInventory remote expected)))"

text \<open>The managed side has its own copy of the minimum, with another sentinel.\<close>

definition managed_grace_minimum :: "int \<Rightarrow> int result" where
  "managed_grace_minimum ttl =
     refuse ErrIntegrity ''publication cache TTL is outside the supported range'' (publicationGraceMinimum ttl)"

definition cache_policy :: "PublicationTargetBinding \<Rightarrow> string" where
  "cache_policy b =
     sha256_hex (''sow/cache-policy/v1'' @ CHR 0x00 # tb_public_endpoint b @ CHR 0x00 # Duration_String (tb_max_cache_ttl b))"

definition putPublicationGrace :: "PublicationTargetBinding \<Rightarrow> AppliedCheckpoint \<Rightarrow> publication_tables \<Rightarrow> publication_tables \<times> unit result" where
  "putPublicationGrace b checkpoint =
     do_then (answer (managed_grace_minimum (tb_max_cache_ttl b))) (\<lambda>minimum.
     do_then (PutGraceRecord
        \<lparr>gr_identity = '''', gr_schema = 0, gr_target = tb_target b, gr_checkpoint = cp_identity checkpoint,
         gr_verified_at = cp_applied_at checkpoint, gr_not_before = time_Add (cp_applied_at checkpoint) minimum,
         gr_policy = cache_policy b, gr_state = ''grace''\<rparr>) (\<lambda>_. answer (Inr ())))"

record PublishResult =
  pr_generation :: GenerationID
  pr_attempt :: string
  pr_checkpoint :: string
  pr_phase :: string
  pr_objects :: nat
  pr_noop :: bool

text \<open>From the last write to the grace record.\<close>

definition publish_finish ::
    "'r publish_env \<Rightarrow> 'r publicationBackend \<Rightarrow> PublicationTargetBinding \<Rightarrow> string \<Rightarrow> GenerationID \<Rightarrow> string \<Rightarrow> PublicationPlan
      \<Rightarrow> GenerationFile list \<Rightarrow> PublicationObject list \<Rightarrow> PublicationAttemptView list \<Rightarrow> 'r world \<Rightarrow> 'r world \<times> PublishResult result" where
  "publish_finish env be b i generation manifestSHA plan targetManifest base views =
     do_then (ask (\<lambda>w. be_list be [] (w_remote w))) (\<lambda>remote.
     do_then (answer (publicationInventory remote targetManifest base)) (\<lambda>inventory.
     do_then (run_actions be (pe_source env) (pe_fault env) i (verify_actions i views)) (\<lambda>_.
     do_then (ask (\<lambda>w. publicationCheckpointViews be (w_remote w) views)) (\<lambda>checkpointViews.
     do_then (answer (publicationVerificationFiles plan targetManifest)) (\<lambda>files.
     do_then (ask (\<lambda>w. verifyPublishedFiles be (w_remote w) files)) (\<lambda>_.
     do_then (\<lambda>w. apsnd (refuse ErrIntegrity ''publish checkpoint clock'')
                (on_db (ObserveRepositoryTime (Inr ()) (pe_applied_at env)) w)) (\<lambda>_.
     let checkpoint = \<lparr>cp_identity = '''', cp_schema = 0, cp_repository = tb_repository b, cp_target = tb_target b,
           cp_attempt = i, cp_generation = generation, cp_manifest = manifestSHA,
           cp_inventory_identity = '''', cp_complete = True, cp_views = checkpointViews, cp_inventory = inventory,
           cp_applied_at = pe_applied_at env\<rparr>
     in do_then (\<lambda>w. on_tables (PutAppliedCheckpoint (pe_applied_at env) (w_db w) checkpoint) w) (\<lambda>identity.
     do_then (answer (pe_fault env ''publish.checkpoint'')) (\<lambda>_.
     do_then (on_tables (putPublicationGrace b (checkpoint\<lparr>cp_identity := identity\<rparr>))) (\<lambda>_.
     do_then (answer (pe_fault env ''publish.grace'')) (\<lambda>_.
     answer (Inr \<lparr>pr_generation = generation, pr_attempt = i, pr_checkpoint = identity,
                  pr_phase = ''grace'', pr_objects = length inventory, pr_noop = False\<rparr>))))))))))))"

subsection \<open>Publish\<close>

definition publish_write ::
    "'r publish_env \<Rightarrow> 'r publicationBackend \<Rightarrow> PublicationTargetBinding \<Rightarrow> string \<Rightarrow> GenerationID \<Rightarrow> string \<Rightarrow> PublicationPlan
      \<Rightarrow> GenerationFile list \<Rightarrow> PublicationObject list \<Rightarrow> PublicationAttemptView list \<Rightarrow> 'r world \<Rightarrow> 'r world \<times> PublishResult result" where
  "publish_write env be b i generation manifestSHA plan targetManifest base views =
     do_then (run_actions be (pe_source env) (pe_fault env) i (prepare_actions i plan views @ commit_actions i plan)) (\<lambda>_.
       publish_finish env be b i generation manifestSHA plan targetManifest base views)"

text \<open>An attempt whose checkpoint is already applied only needs its grace record.\<close>

definition publish_applied ::
    "'r publish_env \<Rightarrow> 'r publicationBackend \<Rightarrow> PublicationTargetBinding \<Rightarrow> PublicationAttempt \<Rightarrow> 'r world \<Rightarrow> 'r world \<times> PublishResult result" where
  "publish_applied env be b active =
     do_then (ask (\<lambda>w. GetAppliedCheckpointForAttempt (w_tables w) (at_identity active))) (\<lambda>checkpoint.
     do_then (ask (\<lambda>w. verifyAppliedCheckpointInventory be w checkpoint)) (\<lambda>_.
     do_then (on_tables (putPublicationGrace b checkpoint)) (\<lambda>_.
     do_then (answer (pe_fault env ''publish.grace'')) (\<lambda>_.
     answer (Inr \<lparr>pr_generation = cp_generation checkpoint, pr_attempt = at_identity active,
                  pr_checkpoint = cp_identity checkpoint, pr_phase = ''grace'',
                  pr_objects = length (cp_inventory checkpoint), pr_noop = False\<rparr>)))))"

definition publish_fresh ::
    "'r publish_env \<Rightarrow> 'r publicationBackend \<Rightarrow> PublicationTargetBinding \<Rightarrow> GenerationID \<Rightarrow> string \<Rightarrow> target_head \<Rightarrow> PublicationPlanInput
      \<Rightarrow> PublicationPlan \<Rightarrow> publicationRemoteObject list \<Rightarrow> PublicationObject list \<Rightarrow> PublicationObject list
      \<Rightarrow> 'r world \<Rightarrow> 'r world \<times> PublishResult result" where
  "publish_fresh env be b generation manifestSHA head input plan remote base orphans =
     do_then (answer (fresh_remote remote base orphans (pe_case_insensitive env) plan)) (\<lambda>inventory.
     if pi_changes input = []
     then answer (Inr \<lparr>pr_generation = generation, pr_attempt = '''', pr_checkpoint = head_text head,
                      pr_phase = ''applied'', pr_objects = length remote, pr_noop = True\<rparr>)
     else do_then (answer (pe_apt_metadata env)) (\<lambda>_.
     let views = publicationAttemptViews plan inventory
     in do_then (\<lambda>w. on_tables (PutPublicationAttempt (w_db w)
            \<lparr>at_identity = '''', at_schema = 0, at_repository = tb_repository b, at_target = tb_target b,
             at_base = pp_base_checkpoint plan, at_generation = generation, at_manifest = manifestSHA,
             at_plan = pp_plan_sha256 plan, at_phase = PhasePlanned, at_commit = False, at_views = views\<rparr>) w) (\<lambda>i.
     do_then (answer (pe_fault env ''publish.attempt'')) (\<lambda>_.
     publish_write env be b i generation manifestSHA plan (pi_target_manifest input) inventory views))))"

definition publish_resumed ::
    "'r publish_env \<Rightarrow> 'r publicationBackend \<Rightarrow> PublicationTargetBinding \<Rightarrow> GenerationID \<Rightarrow> string \<Rightarrow> PublicationPlanInput
      \<Rightarrow> PublicationPlan \<Rightarrow> publicationRemoteObject list \<Rightarrow> PublicationObject list \<Rightarrow> PublicationObject list
      \<Rightarrow> PublicationAttempt \<Rightarrow> 'r world \<Rightarrow> 'r world \<times> PublishResult result" where
  "publish_resumed env be b generation manifestSHA input plan remote base orphans active =
     do_then (answer (resumed_remote remote base orphans active (tb_repository b) (tb_target b) plan (pi_target_manifest input))) (\<lambda>inventory.
     let views = publicationAttemptViews plan inventory
     in if \<not> sameAttemptViewIntent (at_views active) views
        then answer (Inl (GoError [ErrIntegrity] ''active publication view intent differs from plan''))
        else publish_write env be b (at_identity active) generation manifestSHA plan (pi_target_manifest input) inventory views)"

definition publish_planned ::
    "'r publish_env \<Rightarrow> 'r publicationBackend \<Rightarrow> PublicationTargetBinding \<Rightarrow> PublicationAttempt option \<Rightarrow> 'r world \<Rightarrow> 'r world \<times> PublishResult result" where
  "publish_planned env be b active =
     do_then (ask (\<lambda>w. publicationSourceGeneration (w_db w) (pe_physical env) active)) (\<lambda>(generation, targetManifest, manifestSHA).
     do_then (ask (\<lambda>w. getPublicationTargetOn (w_tables w) (tb_target b))) (\<lambda>(_, head).
     do_then (ask (\<lambda>w. publication_base (w_db w) (w_tables w) (tb_repository b) (tb_target b) head)) (\<lambda>(baseManifest, base).
     let input = plan_input (tb_repository b) (tb_target b) (head_text head) generation baseManifest targetManifest
     in do_then (answer (publication_plan input (active \<noteq> None))) (\<lambda>plan.
     let ignored = (case active of None \<Rightarrow> publicationStagePaths plan '''' False
                    | Some a \<Rightarrow> publicationStagePaths plan (at_identity a) True)
     in do_then (ask (\<lambda>w. be_list be ignored (w_remote w))) (\<lambda>remote.
     do_then (ask (\<lambda>w. ListPublicationAbandonedObjects (w_tables w) (tb_target b))) (\<lambda>orphans.
     case active of
       None \<Rightarrow> publish_fresh env be b generation manifestSHA head input plan remote base orphans
     | Some a \<Rightarrow> publish_resumed env be b generation manifestSHA input plan remote base orphans a))))))"

text \<open>The store draws the time of a binding itself; here it is the first reading of the clock.\<close>

definition bind_step :: "'r publish_env \<Rightarrow> PublicationTargetBinding \<Rightarrow> 'r world \<Rightarrow> 'r world \<times> unit result" where
  "bind_step env b w =
     on_tables (if pe_rebind env
        then RebindPublicationTarget (formatTimestamp (pe_now env)) (w_db w)
               \<lparr>rb_binding = b, rb_reason = ''operator_rebind'', rb_confirmed = True\<rparr>
        else BindPublicationTarget (formatTimestamp (pe_now env)) (w_db w) b) w"

definition active_attempt :: "publication_tables \<Rightarrow> string \<Rightarrow> PublicationAttempt option result" where
  "active_attempt t target =
     (case GetActivePublicationAttempt t target of
        Inr a \<Rightarrow> Inr (Some a)
      | Inl e \<Rightarrow> if errors_Is e ErrNotFound then Inr None else Inl e)"

text \<open>What every command on a target starts with: the layout, the clock, recovery, and the binding of the
  target for this repository.\<close>

definition target_preflight :: "'r publish_env \<Rightarrow> 'r world \<Rightarrow> 'r world \<times> PublicationTargetBinding result" where
  "target_preflight env =
     do_then (ask (\<lambda>w. refuse ErrNotReady ''unavailable during layout transition'' (requireTerminalLayoutOn (w_db w)))) (\<lambda>_.
     do_then (\<lambda>w. apsnd (refuse ErrIntegrity ''clock preflight'') (on_db (ObserveRepositoryTime (Inr ()) (pe_now env)) w)) (\<lambda>_.
     do_then (on_db (pe_recover env)) (\<lambda>_.
     do_then (ask (\<lambda>w. repositoryIdentityOn (w_db w))) (\<lambda>identity.
     do_then (answer (pe_binding env)) (\<lambda>b.
     do_then (answer (pe_preflight env)) (\<lambda>_.
     answer (Inr (b\<lparr>tb_repository := id_repository_id identity\<rparr>))))))))"

definition Publish :: "'r publish_env \<Rightarrow> 'r world \<Rightarrow> 'r world \<times> PublishResult result" where
  "Publish env =
     do_then (target_preflight env) (\<lambda>b.
     do_then (bind_step env b) (\<lambda>_.
     do_then (ask (\<lambda>w. HasPendingPublicationMaintenance (w_tables w) (tb_target b))) (\<lambda>pending.
     if pending then answer (Inl (GoError [ErrNotReady] ''target has an unfinished candidate report; resume with gc''))
     else do_then (answer (pe_backend env)) (\<lambda>be.
     do_then (ask (\<lambda>w. active_attempt (w_tables w) (tb_target b))) (\<lambda>active.
     case active of
       Some a \<Rightarrow> if at_phase a = PhaseApplied then publish_applied env be b a else publish_planned env be b active
     | None \<Rightarrow> publish_planned env be b None)))))"

subsection \<open>Abandoning a publication\<close>

definition abandon_base ::
    "database \<Rightarrow> publication_tables \<Rightarrow> PublicationAttempt \<Rightarrow> (GenerationFile list \<times> PublicationObject list) result" where
  "abandon_base db t active =
     (if at_base active = '''' then Inr ([], [])
      else and_then (GetAppliedCheckpoint t (at_base active)) (\<lambda>checkpoint.
           and_then (generationManifestOn db (cp_generation checkpoint)) (\<lambda>manifest.
           and_then (PublicationLiveInventory t (at_base active)) (\<lambda>inventory. Inr (manifest, inventory)))))"

definition abandon_plan ::
    "string \<Rightarrow> string \<Rightarrow> PublicationAttempt \<Rightarrow> GenerationFile list \<Rightarrow> GenerationFile list \<Rightarrow> PublicationPlan result" where
  "abandon_plan repository target active baseManifest targetManifest =
     (case ReconcileLegacyPublicationPlan
        (plan_input repository target (at_base active) (at_generation active) baseManifest targetManifest) of
        Inl _ \<Rightarrow> Inl (GoError [ErrIntegrity] ''publication abandon plan differs from active attempt'')
      | Inr plan \<Rightarrow>
          if pp_plan_sha256 plan \<noteq> at_plan active \<or> pp_manifest_sha256 plan \<noteq> at_manifest active
          then Inl (GoError [ErrIntegrity] ''publication abandon plan differs from active attempt'') else Inr plan)"

definition remove_stages ::
    "'r publish_env \<Rightarrow> string \<Rightarrow> PublicationPlanOperation list \<Rightarrow> 'r world \<Rightarrow> 'r world \<times> unit result" where
  "remove_stages env i operations =
     (case pe_remove_stage env of
        None \<Rightarrow> answer (Inr ())
      | Some remove \<Rightarrow> each (\<lambda>_ q. on_remote (remove (filesystemStagePath (po_path q) i))) () operations)"

definition abandon_active ::
    "'r publish_env \<Rightarrow> PublicationTargetBinding \<Rightarrow> PublicationAttempt \<Rightarrow> 'r world \<Rightarrow> 'r world \<times> nat result" where
  "abandon_active env b active =
     do_then (answer (pe_backend env)) (\<lambda>be.
     do_then (ask (\<lambda>w. generationManifestOn (w_db w) (at_generation active))) (\<lambda>targetManifest.
     do_then (ask (\<lambda>w. abandon_base (w_db w) (w_tables w) active)) (\<lambda>(baseManifest, base).
     do_then (answer (abandon_plan (tb_repository b) (tb_target b) active baseManifest targetManifest)) (\<lambda>plan.
     let preCommit = pp_payload plan @ pp_immutable_metadata plan
     in do_then (remove_stages env (at_identity active) preCommit) (\<lambda>_.
     do_then (ask (\<lambda>w. be_list be [] (w_remote w))) (\<lambda>remote.
     do_then (ask (\<lambda>w. ListPublicationAbandonedObjects (w_tables w) (tb_target b))) (\<lambda>orphans.
     let inventory = recognizeRecoverablePublicationAbandonedObjects remote base orphans
     in do_then (answer (reconcileAbandonedPublicationInventory remote inventory preCommit)) (\<lambda>objects.
     do_then (\<lambda>w. on_tables (AbandonPublicationAttempt (w_db w) (at_identity active) objects) w) (\<lambda>_.
     answer (Inr (length objects)))))))))))"

definition AbandonPublication :: "'r publish_env \<Rightarrow> 'r world \<Rightarrow> 'r world \<times> nat result" where
  "AbandonPublication env =
     do_then (ask (\<lambda>w. refuse ErrNotReady ''publication abandon requires terminal Repository layout'' (requireTerminalLayoutOn (w_db w)))) (\<lambda>_.
     do_then (ask (\<lambda>w. repositoryIdentityOn (w_db w))) (\<lambda>identity.
     do_then (answer (pe_binding env)) (\<lambda>b.
     do_then (ask (\<lambda>w. active_attempt (w_tables w) (tb_target b))) (\<lambda>active.
     case active of
       None \<Rightarrow> answer (Inl (GoError [ErrRejected] ''target has no active publication attempt to abandon''))
     | Some a \<Rightarrow>
         if at_commit a
         then answer (Inl (GoError [ErrRejected] ''publication attempt has commit intent and must roll forward''))
         else abandon_active env (b\<lparr>tb_repository := id_repository_id identity\<rparr>) a))))"

subsection \<open>Cleaning a target\<close>

definition verifyTargetMaintenanceInventory ::
    "'r publicationBackend \<Rightarrow> string \<Rightarrow> PublicationObject list \<Rightarrow> bool \<Rightarrow> 'r world \<Rightarrow> unit result" where
  "verifyTargetMaintenanceInventory be target candidates allowCandidateAbsence w =
     and_then (getPublicationTargetOn (w_tables w) target) (\<lambda>(_, head).
     if head_text head = '''' then Inl (GoError [ErrIntegrity] ''target maintenance has no applied checkpoint'')
     else and_then (verifyPublishedPointers be (w_db w) (w_remote w) (th_generation head) (null_string (th_manifest head))) (\<lambda>_.
          and_then (PublicationLiveInventory (w_tables w) (head_text head)) (\<lambda>live.
          and_then (be_list be [] (w_remote w)) (\<lambda>remote.
          and_then (ListPublicationAbandonedObjects (w_tables w) target) (\<lambda>abandoned.
          maintenance_inventory remote live abandoned candidates allowCandidateAbsence)))))"

record TargetGCResult =
  gc_phase :: string
  gc_reports :: nat
  gc_candidates :: nat
  gc_deleted :: nat
  gc_deleted_bytes :: int
  gc_retained :: nat
  gc_pending :: nat
  gc_completed :: nat
  gc_noop :: bool

definition gc_start :: TargetGCResult where
  "gc_start = \<lparr>gc_phase = '''', gc_reports = 0, gc_candidates = 0, gc_deleted = 0, gc_deleted_bytes = 0,
                gc_retained = 0, gc_pending = 0, gc_completed = 0, gc_noop = False\<rparr>"

text \<open>The report of a checkpoint: the persisted one, or a new one over the verified inventory.\<close>

definition gc_report ::
    "'r publish_env \<Rightarrow> 'r publicationBackend \<Rightarrow> string \<Rightarrow> AppliedCheckpoint \<Rightarrow> TargetGCResult
      \<Rightarrow> 'r world \<Rightarrow> 'r world \<times> (PublicationCandidateReport \<times> TargetGCResult) result" where
  "gc_report env be target checkpoint result =
     do_then (ask (\<lambda>w. case GetPublicationCandidateReport (w_tables w) (cp_identity checkpoint) of
         Inr report \<Rightarrow> Inr (Some report)
       | Inl e \<Rightarrow> if errors_Is e ErrNotFound then Inr None else Inl e)) (\<lambda>stored.
     case stored of
       Some report \<Rightarrow>
         if rp_target report \<noteq> target \<or> rp_checkpoint report \<noteq> cp_identity checkpoint
            \<or> rp_inventory report \<noteq> cp_inventory_identity checkpoint
            \<or> be_provider be = ''r2'' \<and> rp_mode report \<noteq> ''report_only''
            \<or> be_provider be = ''filesystem'' \<and> rp_mode report \<noteq> ''conditional_delete''
         then answer (Inl (GoError [ErrIntegrity] ''persisted target maintenance report differs from provider checkpoint''))
         else answer (Inr (report, result))
     | None \<Rightarrow>
         do_then (ask (verifyTargetMaintenanceInventory be target [] False)) (\<lambda>_.
         do_then (ask (\<lambda>w. ExactPublicationCandidates (pe_now env) (w_db w) (w_tables w) (cp_identity checkpoint) (pe_now env))) (\<lambda>candidates.
         let report = \<lparr>rp_identity = '''', rp_schema = 0, rp_target = target, rp_checkpoint = cp_identity checkpoint,
               rp_inventory = cp_inventory_identity checkpoint,
               rp_mode = (if be_provider be = ''r2'' then ''report_only'' else ''conditional_delete''),
               rp_candidates = candidates, rp_created_at = pe_now env\<rparr>
         in do_then (\<lambda>w. on_tables (PutPublicationCandidateReport (pe_now env) (w_db w) report) w) (\<lambda>identity.
         do_then (answer (pe_fault env ''target_gc.report'')) (\<lambda>_.
         answer (Inr (report\<lparr>rp_identity := identity\<rparr>, result\<lparr>gc_reports := gc_reports result + 1\<rparr>)))))))"

definition gc_delete ::
    "'r publish_env \<Rightarrow> 'r publicationBackend \<Rightarrow> PublicationCandidateReport \<Rightarrow> TargetGCResult \<Rightarrow> PublicationObject
      \<Rightarrow> 'r world \<Rightarrow> 'r world \<times> TargetGCResult result" where
  "gc_delete env be report result candidate =
     do_then (on_remote (be_delete be candidate)) (\<lambda>_.
     do_then (answer (pe_fault env (''target_gc.deleted.'' @ po_object_path candidate))) (\<lambda>_.
     do_then (ask (\<lambda>w. be_verify_absent be (po_object_path candidate) (w_remote w))) (\<lambda>_.
     do_then (on_tables (PutPublicationDeletionReceipt
        \<lparr>dr_identity = '''', dr_report = rp_identity report, dr_object = candidate, dr_storage_absent = True,
         dr_public_absent = True, dr_observed_at = pe_now env\<rparr>)) (\<lambda>_.
     do_then (answer (pe_fault env (''target_gc.receipt.'' @ po_object_path candidate))) (\<lambda>_.
     answer (Inr (result\<lparr>gc_deleted := gc_deleted result + 1,
                         gc_deleted_bytes := gc_deleted_bytes result + po_object_size candidate\<rparr>)))))))"

definition gc_complete ::
    "string \<Rightarrow> string \<Rightarrow> TargetGCResult \<Rightarrow> 'r world \<Rightarrow> 'r world \<times> TargetGCResult result" where
  "gc_complete i report result =
     do_then (on_tables (CompletePublicationAttempt i report)) (\<lambda>_.
     answer (Inr (result\<lparr>gc_completed := gc_completed result + 1\<rparr>)))"

text \<open>One target in grace whose time has come.\<close>

definition gc_expired ::
    "'r publish_env \<Rightarrow> 'r publicationBackend \<Rightarrow> string \<Rightarrow> TargetGCResult \<Rightarrow> PublicationMaintenance
      \<Rightarrow> 'r world \<Rightarrow> 'r world \<times> TargetGCResult result" where
  "gc_expired env be target result item =
     do_then (ask (\<lambda>w. GetAppliedCheckpoint (w_tables w) (pm_checkpoint item))) (\<lambda>checkpoint.
     do_then (ask (\<lambda>w. case getGraceRecordOn (w_tables w) (pm_checkpoint item) of
         Inl _ \<Rightarrow> Inl (GoError [ErrIntegrity] ''target grace changed during maintenance'')
       | Inr grace \<Rightarrow>
           ensure (gr_identity grace = pm_grace item \<and> time_ns (gr_not_before grace) \<le> time_ns (pe_now env))
             (GoError [ErrIntegrity] ''target grace changed during maintenance''))) (\<lambda>_.
     do_then (gc_report env be target checkpoint result) (\<lambda>(report, result).
     do_then (ask (verifyTargetMaintenanceInventory be target (rp_candidates report) True)) (\<lambda>_.
     let result = result\<lparr>gc_candidates := gc_candidates result + length (rp_candidates report)\<rparr>
     in if be_provider be = ''r2''
        then do_then (on_tables (MarkPublicationRetainedReported (pe_now env) (pm_attempt item) (rp_identity report) (pe_now env))) (\<lambda>_.
             do_then (answer (pe_fault env ''target_gc.retained_reported'')) (\<lambda>_.
             gc_complete (pm_attempt item) (rp_identity report)
               (result\<lparr>gc_retained := gc_retained result + length (rp_candidates report)\<rparr>)))
        else do_then (each (gc_delete env be report) result (rp_candidates report)) (\<lambda>result.
             do_then (on_tables (MarkPublicationDeletionVerified (pe_now env) (pm_attempt item) (rp_identity report) (pe_now env))) (\<lambda>_.
             do_then (answer (pe_fault env ''target_gc.deletion_verified'')) (\<lambda>_.
             gc_complete (pm_attempt item) (rp_identity report) result)))))))"

definition gc_item ::
    "'r publish_env \<Rightarrow> 'r publicationBackend \<Rightarrow> string \<Rightarrow> TargetGCResult \<Rightarrow> PublicationMaintenance
      \<Rightarrow> 'r world \<Rightarrow> 'r world \<times> TargetGCResult result" where
  "gc_item env be target result item =
     (if pm_phase item = PhaseDeletionVerified \<or> pm_phase item = PhaseRetainedReported
      then do_then (ask (\<lambda>w. GetPublicationCandidateReport (w_tables w) (pm_checkpoint item))) (\<lambda>report.
           gc_complete (pm_attempt item) (rp_identity report) result)
      else if pm_phase item \<noteq> PhaseGrace \<or> pm_state item \<noteq> ''grace''
      then answer (Inl (GoError [ErrIntegrity] ''unsupported target maintenance state''))
      else if time_ns (pe_now env) < pm_not_before item
      then answer (Inr (result\<lparr>gc_pending := gc_pending result + 1\<rparr>))
      else gc_expired env be target result item)"

definition gc_summary :: "TargetGCResult \<Rightarrow> TargetGCResult" where
  "gc_summary result =
     result\<lparr>gc_phase := (if gc_pending result \<noteq> 0 then ''pending_grace'' else ''done''),
            gc_noop := (gc_reports result = 0 \<and> gc_completed result = 0 \<and> gc_deleted result = 0 \<and> gc_retained result = 0)\<rparr>"

definition TargetGC :: "'r publish_env \<Rightarrow> 'r world \<Rightarrow> 'r world \<times> TargetGCResult result" where
  "TargetGC env =
     do_then (target_preflight env) (\<lambda>b.
     do_then (\<lambda>w. on_tables (BindPublicationTarget (formatTimestamp (pe_now env)) (w_db w) b) w) (\<lambda>_.
     do_then (ask (\<lambda>w. active_attempt (w_tables w) (tb_target b))) (\<lambda>active.
     if active \<noteq> None then answer (Inl (GoError [ErrNotReady] ''target has write-active publication attempt''))
     else do_then (answer (pe_backend env)) (\<lambda>be.
     do_then (ask (\<lambda>w. ListPublicationMaintenance (w_tables w) (tb_target b))) (\<lambda>maintenance.
     if maintenance = [] then answer (Inr (gc_start\<lparr>gc_phase := ''done'', gc_noop := True\<rparr>))
     else do_then (each (gc_item env be (tb_target b)) gc_start maintenance) (\<lambda>result.
          answer (Inr (gc_summary result))))))))"

end
