(* ===== verification/Publication_Properties.thy ===== *)
theory Publication_Properties
  imports Publication_Protocol
begin

section \<open>What the publication tables promise\<close>

text \<open>
  The properties of the publication tables, stated over every state the calls of the store can
  reach, and a publication that runs from the first binding of a target to an applied checkpoint.
\<close>

subsection \<open>An example publication\<close>

definition release_file :: GenerationFile where
  "release_file = \<lparr>gf_path = ''dists/noble/Release'', gf_phase = ''pointer'', gf_size = 5, gf_sha256 = replicate 64 CHR ''a''\<rparr>"

definition publication_db :: database where
  "publication_db = example_database\<lparr>
     db_generations := [\<lparr>gi_generation = 1, gi_previous = 0, gi_operation = ''10'', gi_manifest = '''', gi_renderer = '''', gi_created_at = ''''\<rparr>],
     db_generation_files := [(1, release_file)]\<rparr>"

definition release_digest :: string where
  "release_digest = sha256_hex (manifest_wire [release_file])"

definition example_binding :: PublicationTargetBinding where
  "example_binding = \<lparr>tb_target = '''', tb_storage = '''', tb_repository = ''01234567-89ab-4cde-8f01-23456789abcd'',
     tb_name = ''prod'', tb_provider = ''filesystem'', tb_endpoint = ''/srv'', tb_region = '''', tb_bucket = '''', tb_prefix = '''',
     tb_public_endpoint = ''http://repo'', tb_max_cache_ttl = 0, tb_authoritative = True, tb_single_writer = True, tb_exclusive = True,
     tb_config = ''''\<rparr>"

definition example_storage :: string where
  "example_storage = publicationIdentity ''sow/target-storage/v1'' [''filesystem'', ''/srv'', '''', '''']"

definition example_place :: string where
  "example_place = publicationIdentity ''sow/target/v1'' [example_storage, '''']"

definition bound_target :: publication_tables where
  "bound_target = fst (BindPublicationTarget ''2026'' publication_db example_binding empty_publication)"

definition release_view :: PublicationAttemptView where
  "release_view = \<lparr>av_view = ''dists/noble'', av_pointer = ''dists/noble/Release'', av_old = '''',
     av_new = replicate 64 CHR ''a'', av_state = ViewPending\<rparr>"

definition release_attempt :: PublicationAttempt where
  "release_attempt = \<lparr>at_identity = '''', at_schema = 1, at_repository = ''01234567-89ab-4cde-8f01-23456789abcd'',
     at_target = example_place, at_base = '''', at_generation = 1, at_manifest = release_digest, at_plan = replicate 64 CHR ''b'',
     at_phase = PhasePlanned, at_commit = False, at_views = [release_view]\<rparr>"

definition planned_target :: publication_tables where
  "planned_target = fst (PutPublicationAttempt publication_db release_attempt bound_target)"

lemma identity_valid [simp]:
  "validSHA256Text (publicationIdentity d fs)" "validSHA256Text (publicationSemanticIdentity d j)"
  "validSHA256Text (publicationAttemptSemanticIdentity a)" "validSHA256Text (PublicationTargetConfigIdentity b)"
  "validSHA256Text (appliedCheckpointSemanticIdentity c)"
  by (simp_all add: publicationIdentity_def publicationSemanticIdentity_def publicationAttemptSemanticIdentity_def
      PublicationTargetConfigIdentity_def appliedCheckpointSemanticIdentity_def)

lemma identity_drawn [simp]: "acceptSemanticIdentity '''' computed = Inr computed"
  by (simp add: acceptSemanticIdentity_def)

lemma example_repository: "repositoryIdentityOn publication_db = Inr \<lparr>id_repository_id = ''01234567-89ab-4cde-8f01-23456789abcd'',
    id_layout_version = LayoutSinglePayloadV1, id_receipt = ''''\<rparr>"
  by code_simp

lemma release_view_valid: "sortedAttemptViews [release_view]" by code_simp

lemma example_ids: "IsCanonicalRepositoryID ''01234567-89ab-4cde-8f01-23456789abcd''" "validSHA256Text (replicate 64 CHR ''b'')"
  by code_simp+

lemma bound_target_rows:
  "\<exists>b v. bound_target = empty_publication\<lparr>pt_bindings := [b], pt_revisions := v,
     pt_heads := [\<lparr>th_target = example_place, th_checkpoint = None, th_generation = 0, th_manifest = None, th_revision = 0\<rparr>]\<rparr>
     \<and> tb_target b = example_place \<and> tb_repository b = ''01234567-89ab-4cde-8f01-23456789abcd'' \<and> tb_max_cache_ttl b = 0"
  unfolding bound_target_def BindPublicationTarget_def canonicalPublicationTargetBinding_def example_repository
  by (simp add: example_binding_def Let_def bind_target_tx_def publicationTargetBindingTx_def empty_publication_def publication_tx_def
      appendPublicationTargetBindingRevisionTx_def example_place_def example_storage_def maximumPublicationCacheTTL_def
      publicationCacheGracePadding_def hour_ns_def)

lemma release_attempt_valid: "validatePublicationAttempt release_attempt = Inr ()"
  unfolding validate_attempt_exact plan_valid_def
  by (simp add: release_attempt_def release_view_valid example_ids release_digest_def example_place_def)

lemma planned_target_rows:
  "planned_target = bound_target\<lparr>pt_attempts := [release_attempt\<lparr>at_identity := publicationAttemptSemanticIdentity release_attempt\<rparr>]\<rparr>"
proof -
  obtain b v where t: "bound_target = empty_publication\<lparr>pt_bindings := [b], pt_revisions := v,
     pt_heads := [\<lparr>th_target = example_place, th_checkpoint = None, th_generation = 0, th_manifest = None, th_revision = 0\<rparr>]\<rparr>"
    "tb_target b = example_place" "tb_repository b = ''01234567-89ab-4cde-8f01-23456789abcd''"
    using bound_target_rows by blast
  have fields: "at_schema release_attempt = 1" "at_phase release_attempt = PhasePlanned" "\<not> at_commit release_attempt"
    "at_views release_attempt = [release_view]" "av_state release_view = ViewPending" "at_identity release_attempt = ''''"
    "at_target release_attempt = example_place" "at_base release_attempt = ''''" "at_generation release_attempt = 1"
    "at_repository release_attempt = ''01234567-89ab-4cde-8f01-23456789abcd''"
    by (simp_all add: release_attempt_def release_view_def)
  have generation: "find_generation publication_db 1 \<noteq> None" by (simp add: find_generation_def publication_db_def)
  show ?thesis
    unfolding planned_target_def PutPublicationAttempt_def Let_def
    by (simp add: fields release_attempt_valid t publication_tx_def put_attempt_tx_def requirePublicationBindingTx_def
        publicationAttemptSemanticMatchTx_def find_attempt_def empty_publication_def insert_attempt_def the_head_def one_row_def
        base_differs_def generation active_elsewhere_def ensure_def)
qed

lemma planned_target_reachable: "publication_reachable planned_target"
proof -
  have "publication_reachable bound_target"
    unfolding bound_target_def by (intro publication_reachable.further[OF publication_reachable.start] publication_step.bind)
  moreover have "separated release_attempt bound_target"
  proof -
    obtain b v where t: "bound_target = empty_publication\<lparr>pt_bindings := [b], pt_revisions := v,
       pt_heads := [\<lparr>th_target = example_place, th_checkpoint = None, th_generation = 0, th_manifest = None, th_revision = 0\<rparr>]\<rparr>"
      by (rule exE[OF bound_target_rows]) (elim exE conjE, rule that)
    show ?thesis by (simp add: t empty_publication_def separated_def)
  qed
  ultimately show ?thesis
    unfolding planned_target_def by (rule publication_reachable.further[OF _ publication_step.put_attempt])
qed

subsection \<open>Reading the invariant\<close>

lemma filter_keyed:
  assumes "distinct (map key rows)" "b \<in> set rows" "key b = k" "Q b"
  shows "filter (\<lambda>x. Q x \<and> key x = k) rows = [b]"
  using assms
proof (induction rows)
  case (Cons x rows)
  show ?case
  proof (cases "x = b")
    case True
    then have "\<forall>y\<in>set rows. key y \<noteq> k" using Cons.prems by (auto simp: rev_image_eqI)
    then show ?thesis using True Cons.prems by (simp add: filter_empty_conv)
  next
    case False
    then have "b \<in> set rows" using Cons.prems(2) by simp
    moreover from this have "key x \<noteq> k" using Cons.prems(1,3) by (metis distinct.simps(2) imageI list.simps(9) list.set_map)
    ultimately show ?thesis using Cons by simp
  qed
qed simp

lemma require_bound:
  assumes "distinct (map tb_target (pt_bindings t))" "b \<in> set (pt_bindings t)" "tb_target b = target" "tb_repository b = repository"
  shows "requirePublicationBindingTx t repository target = Inr ()"
  using filter_keyed[OF assms(1-3), of "\<lambda>b. tb_repository b = repository"] assms(4)
  by (simp add: requirePublicationBindingTx_def ensure_def)

lemma publication_ok_rows:
  assumes ok: "publication_ok t" and a: "a \<in> set (pt_attempts t)"
  shows "validatePublicationAttempt a = Inr () \<and> at_identity a = publicationAttemptSemanticIdentity a
    \<and> (\<forall>v\<in>set (at_views a). fst (view_range (at_phase a)) \<le> view_rank (av_state v)
         \<and> view_rank (av_state v) \<le> snd (view_range (at_phase a)))
    \<and> requirePublicationBindingTx t (at_repository a) (at_target a) = Inr ()
    \<and> (publicationPhaseRank PhaseApplied \<le> publicationPhaseRank (at_phase a) \<longleftrightarrow>
         (\<exists>c\<in>set (pt_checkpoints t). cp_attempt c = at_identity a))
    \<and> (publicationPhaseRank PhaseApplied < publicationPhaseRank (at_phase a) \<longleftrightarrow>
         (\<exists>c\<in>set (pt_checkpoints t). \<exists>g\<in>set (pt_grace t). cp_attempt c = at_identity a \<and> gr_checkpoint g = cp_identity c))
    \<and> (\<forall>c\<in>set (pt_checkpoints t). \<forall>g\<in>set (pt_grace t). cp_attempt c = at_identity a \<and> gr_checkpoint g = cp_identity c \<longrightarrow>
         gr_target g = at_target a \<and> at_phase a \<in> grace_phases (gr_state g))
    \<and> (publicationAbandonedObjectsTx t (at_identity a) \<noteq> [] \<longrightarrow> at_phase a = PhaseAbandoned)"
proof (intro conjI impI)
  note parts = publication_okD[OF ok]
  have fit: "attempt_ok a" "\<exists>b\<in>set (pt_bindings t). tb_target b = at_target a \<and> tb_repository b = at_repository a"
      and owner: "applied a \<longrightarrow> (\<exists>c\<in>set (pt_checkpoints t). cp_attempt c = at_identity a)"
    using parts(2) a by (simp_all add: attempts_fit_def)
  have keyed: "distinct (map at_identity (pt_attempts t))" "distinct (map tb_target (pt_bindings t))"
    using parts(1) by (simp_all add: tables_keyed_def)
  have same: "x = a" if "x \<in> set (pt_attempts t)" "at_identity x = at_identity a" for x
    by (rule keyed_unique[OF keyed(1) that(1) a that(2)])
  have by_a: "applied_by c a" if "c \<in> set (pt_checkpoints t)" "cp_attempt c = at_identity a" for c
  proof -
    obtain x where "x \<in> set (pt_attempts t)" "applied_by c x" using parts(4) \<open>c \<in> _\<close> by (auto simp: checkpoints_fit_def)
    moreover from this have "x = a" using same that(2) by (simp add: applied_by_def)
    ultimately show ?thesis by simp
  qed
  show "validatePublicationAttempt a = Inr ()" "at_identity a = publicationAttemptSemanticIdentity a"
    using fit(1) by (simp_all add: attempt_ok_def)
  show "\<forall>v\<in>set (at_views a). fst (view_range (at_phase a)) \<le> view_rank (av_state v) \<and> view_rank (av_state v) \<le> snd (view_range (at_phase a))"
    using fit(1) by (simp add: attempt_ok_def views_fit_def list_all_iff)
  show "requirePublicationBindingTx t (at_repository a) (at_target a) = Inr ()"
    using fit(2) require_bound[OF keyed(2)] by blast
  show "publicationPhaseRank PhaseApplied \<le> publicationPhaseRank (at_phase a) \<longleftrightarrow> (\<exists>c\<in>set (pt_checkpoints t). cp_attempt c = at_identity a)"
    using owner by_a by (auto simp: applied_def applied_by_def)
  show "at_phase a = PhaseAbandoned" if "publicationAbandonedObjectsTx t (at_identity a) \<noteq> []"
  proof -
    have "filter (\<lambda>(j, _). j = at_identity a) (pt_abandoned t) \<noteq> []"
      using that by (intro notI) (simp add: publicationAbandonedObjectsTx_def)
    then have "\<exists>o'. (at_identity a, o') \<in> set (pt_abandoned t)" by (auto simp: filter_empty_conv)
    then obtain x where "x \<in> set (pt_attempts t)" "at_identity x = at_identity a" "at_phase x = PhaseAbandoned"
      using parts(6) by (auto simp: evidence_fits_def)
    then show ?thesis using same by blast
  qed
  have in_grace: "gr_target g = at_target a \<and> at_phase a \<in> grace_phases (gr_state g)"
    if c: "c \<in> set (pt_checkpoints t)" "g \<in> set (pt_grace t)" "cp_attempt c = at_identity a" "gr_checkpoint g = cp_identity c" for c g
  proof -
    obtain d x where d: "d \<in> set (pt_checkpoints t)" "x \<in> set (pt_attempts t)" "cp_identity d = gr_checkpoint g" "cp_target d = gr_target g"
        "at_identity x = cp_attempt d" "at_phase x \<in> grace_phases (gr_state g)"
      using parts(5) c(2) unfolding grace_fits_def by blast
    have "d = c" using checkpoint_attempt_unique(2)[OF ok d(1) c(1)] c(4) d(3) by simp
    then have "x = a" using same d c(3) by simp
    then show ?thesis using d \<open>d = c\<close> by_a[OF c(1,3)] by (simp add: applied_by_def)
  qed
  then show "\<forall>c\<in>set (pt_checkpoints t). \<forall>g\<in>set (pt_grace t). cp_attempt c = at_identity a \<and> gr_checkpoint g = cp_identity c \<longrightarrow>
      gr_target g = at_target a \<and> at_phase a \<in> grace_phases (gr_state g)" by blast
  show "publicationPhaseRank PhaseApplied < publicationPhaseRank (at_phase a) \<longleftrightarrow>
      (\<exists>c\<in>set (pt_checkpoints t). \<exists>g\<in>set (pt_grace t). cp_attempt c = at_identity a \<and> gr_checkpoint g = cp_identity c)"
  proof
    assume "publicationPhaseRank PhaseApplied < publicationPhaseRank (at_phase a)"
    then have "publicationPhaseRank PhaseGrace \<le> publicationPhaseRank (at_phase a)" by (cases "at_phase a") simp_all
    then show "\<exists>c\<in>set (pt_checkpoints t). \<exists>g\<in>set (pt_grace t). cp_attempt c = at_identity a \<and> gr_checkpoint g = cp_identity c"
      using parts(5) a unfolding grace_fits_def by blast
  next
    assume "\<exists>c\<in>set (pt_checkpoints t). \<exists>g\<in>set (pt_grace t). cp_attempt c = at_identity a \<and> gr_checkpoint g = cp_identity c"
    then obtain g :: GraceRecord where "at_phase a \<in> grace_phases (gr_state g)" using in_grace by blast
    then show "publicationPhaseRank PhaseApplied < publicationPhaseRank (at_phase a)"
      by (auto simp: grace_phases_def split: if_splits)
  qed
qed

lemma verified_unapplied:
  assumes "publication_ok t" and "a \<in> set (pt_attempts t)" and "at_phase a = PhaseVerified" and "d \<in> set (pt_checkpoints t)"
  shows "cp_attempt d \<noteq> at_identity a"
proof -
  have "publicationPhaseRank PhaseApplied \<le> publicationPhaseRank (at_phase a) \<longleftrightarrow>
      (\<exists>c\<in>set (pt_checkpoints t). cp_attempt c = at_identity a)"
    using publication_ok_rows[OF assms(1,2)] by blast
  with assms(3,4) show ?thesis by auto
qed

lemma stored_identity: "publication_ok t \<Longrightarrow> d \<in> set (pt_checkpoints t) \<Longrightarrow> cp_identity d = appliedCheckpointSemanticIdentity d"
  using publication_okD(4)[of t] by (simp add: checkpoints_fit_def checkpoint_ok_def)

subsection \<open>Rows\<close>

text \<open>C17. In every reachable state a stored attempt still passes the validation a new one has to pass:
  its phase and its commit intent agree, its identity is the digest of its plan, and the progress of
  its views lies in the range its phase allows. It belongs to a bound target, it owns a checkpoint
  exactly when its phase says that it was applied, its checkpoint has a grace record exactly when its
  phase says that it went on from there, that record is the target's and in a state that matches the
  phase, and evidence of abandoned objects is kept for abandoned attempts only.\<close>

theorem publication_rows_valid:
  assumes "publication_reachable t" and "a \<in> set (pt_attempts t)"
  shows "validatePublicationAttempt a = Inr () \<and> at_identity a = publicationAttemptSemanticIdentity a
    \<and> (\<forall>v\<in>set (at_views a). fst (view_range (at_phase a)) \<le> view_rank (av_state v)
         \<and> view_rank (av_state v) \<le> snd (view_range (at_phase a)))
    \<and> requirePublicationBindingTx t (at_repository a) (at_target a) = Inr ()
    \<and> (publicationPhaseRank PhaseApplied \<le> publicationPhaseRank (at_phase a) \<longleftrightarrow>
         (\<exists>c\<in>set (pt_checkpoints t). cp_attempt c = at_identity a))
    \<and> (publicationPhaseRank PhaseApplied < publicationPhaseRank (at_phase a) \<longleftrightarrow>
         (\<exists>c\<in>set (pt_checkpoints t). \<exists>g\<in>set (pt_grace t). cp_attempt c = at_identity a \<and> gr_checkpoint g = cp_identity c))
    \<and> (\<forall>c\<in>set (pt_checkpoints t). \<forall>g\<in>set (pt_grace t). cp_attempt c = at_identity a \<and> gr_checkpoint g = cp_identity c \<longrightarrow>
         gr_target g = at_target a \<and> at_phase a \<in> grace_phases (gr_state g))
    \<and> (publicationAbandonedObjectsTx t (at_identity a) \<noteq> [] \<longrightarrow> at_phase a = PhaseAbandoned)"
  using publication_ok_rows[OF publication_reachable_ok[OF assms(1)] assms(2)] by blast

theorem publication_rows_valid_witness:
  "\<exists>t a. publication_reachable t \<and> pt_attempts t = [a] \<and> at_phase a = PhasePlanned \<and> validatePublicationAttempt a = Inr ()
     \<and> requirePublicationBindingTx t (at_repository a) (at_target a) = Inr () \<and> publicationAbandonedObjectsTx t (at_identity a) = []"
proof -
  let ?a = "release_attempt\<lparr>at_identity := publicationAttemptSemanticIdentity release_attempt\<rparr>"
  have rows: "pt_attempts planned_target = [?a]" by (simp add: planned_target_rows)
  have phase: "at_phase ?a = PhasePlanned" by (simp add: release_attempt_def)
  note valid = publication_rows_valid[OF planned_target_reachable, of ?a]
  have "validatePublicationAttempt ?a = Inr ()" "requirePublicationBindingTx planned_target (at_repository ?a) (at_target ?a) = Inr ()"
    "publicationAbandonedObjectsTx planned_target (at_identity ?a) = []"
    using valid rows phase by auto
  then show ?thesis using planned_target_reachable rows phase by blast
qed

subsection \<open>The head and the log of a target\<close>

text \<open>C11. The head of every target is the last of the checkpoints applied to it, with their number as its
  revision. The checkpoints of a target form one chain: each comes from an attempt that was planned
  on the checkpoint before it, so no publication is ever based on a state that was replaced in
  between, and no two publications of a target are open at once. Each checkpoint names the bytes of
  its inventory, which holds the whole manifest whose digest it carries.\<close>

theorem publication_history_linear:
  assumes "publication_reachable t"
  shows "pt_heads t = map (\<lambda>b. log_head (tb_target b) (target_checkpoints t (tb_target b))) (pt_bindings t)
    \<and> (\<forall>target. chained (pt_attempts t) '''' (target_checkpoints t target))
    \<and> (\<forall>c\<in>set (pt_checkpoints t). cp_complete c \<and> cp_identity c = appliedCheckpointSemanticIdentity c
         \<and> cp_inventory_identity c = publicationInventoryIdentity (cp_inventory c)
         \<and> (\<exists>manifest bytes. ManifestBytes manifest = Inr (bytes, cp_manifest c) \<and> inventoryContainsManifest (cp_inventory c) manifest))
    \<and> (\<forall>a\<in>set (pt_attempts t). \<forall>b\<in>set (pt_attempts t).
         at_target a = at_target b \<and> write_active (at_phase a) \<and> write_active (at_phase b) \<longrightarrow> a = b)"
proof -
  note parts = publication_okD[OF publication_reachable_ok[OF assms]]
  have "cp_complete c" if "validateAppliedCheckpoint c = Inr ()" for c
    using that by (auto simp: validateAppliedCheckpoint_def split: if_splits)
  moreover have "a = b" if "a \<in> set (pt_attempts t)" "b \<in> set (pt_attempts t)" "at_target a = at_target b"
      "write_active (at_phase a)" "write_active (at_phase b)" for a b
    using parts(2) that unfolding attempts_fit_def by (metis (no_types, lifting))
  ultimately show ?thesis
    using parts(3,4) by (auto simp: heads_fit_def checkpoints_fit_def checkpoint_ok_def checkpoint_closed_def)
qed

subsection \<open>The protocol as a machine\<close>

lemma same_plan_refl: "same_plan a a"
  using same_plan_phase(1)[of a "at_phase a"] by simp

lemma done_stuck:
  assumes "attempt_ok a" "at_phase a = PhaseDone" shows "\<not> attempt_move a b"
proof
  assume "attempt_move a b"
  then show False
  proof cases
    case (phase p)
    then show False using publication_machine.terminal_stuck[of PhaseDone p] assms(2) by simp
  next
    case (view v s)
    have "view_rank (av_state v) = 3"
      using assms view(2) by (auto simp: attempt_ok_def views_fit_def list_all_iff intro: le_antisym)
    then show False using view(3,4) assms(2) by simp
  qed
qed

lemma moved_rows:
  assumes ok: "publication_ok t" and move: "call_moves t t'" and x: "x \<in> set (pt_attempts t)"
  shows "\<exists>y\<in>set (pt_attempts t'). same_plan x y \<and> (at_phase x = PhaseDone \<longrightarrow> y = x)"
proof -
  have keyed: "distinct (map at_identity (pt_attempts t))" using publication_okD(1)[OF ok] by (simp add: tables_keyed_def)
  have row: "\<exists>y\<in>set (replaced a b (pt_attempts t)). same_plan x y \<and> (at_phase x = PhaseDone \<longrightarrow> y = x)"
    if "a \<in> set (pt_attempts t)" "same_plan a b" "at_phase a \<noteq> PhaseDone" for a b
    using that x replaced_set[OF keyed that(1), of _ b] same_plan_refl[of x]
    by (intro bexI[of _ "if x = a then b else x"]) auto
  from move consider "pt_attempts t' = pt_attempts t" | "attempts_move (pt_attempts t) (pt_attempts t')"
    | "attempts_planned (pt_attempts t) (pt_attempts t')" by (auto simp: call_moves_def)
  then show ?thesis
  proof cases
    case 1
    then show ?thesis using x same_plan_refl[of x] by (intro bexI[of _ x]) auto
  next
    case 2
    then obtain a b where a: "a \<in> set (pt_attempts t)" "attempt_move a b" "pt_attempts t' = replaced a b (pt_attempts t)"
      by (auto simp: attempts_move_def)
    have "attempt_ok a" using publication_okD(2)[OF ok] a(1) by (simp add: attempts_fit_def)
    then have "at_phase a \<noteq> PhaseDone" using done_stuck a(2) by blast
    then show ?thesis using row[OF a(1) attempt_move_plan[OF a(2)]] a(3) by simp
  next
    case 3
    then consider n where "pt_attempts t' = pt_attempts t @ [n]"
      | a b where "a \<in> set (pt_attempts t)" "at_phase a = PhaseAbandoned" "same_plan a b" "pt_attempts t' = replaced a b (pt_attempts t)"
      by (auto simp: attempts_planned_def)
    then show ?thesis
    proof cases
      case 1
      then show ?thesis using x same_plan_refl[of x] by (intro bexI[of _ x]) auto
    next
      case 2
      then show ?thesis using row[OF 2(1,3)] by simp
    qed
  qed
qed

text \<open>C15. The store implements the phase machine of a publication: from a reachable state every call, whatever
  tables it reads and writes and whatever it answers, leaves the attempts alone, makes one move of the
  machine on one of them, or starts a fresh plan. No attempt disappears or changes its plan, and one
  that is done never changes again.\<close>

theorem publication_refines_machine:
  assumes "publication_reachable t" and "publication_step t t'"
  shows "(pt_attempts t' = pt_attempts t
      \<or> (\<exists>a\<in>set (pt_attempts t). \<exists>b. attempt_move a b \<and> pt_attempts t' = replaced a b (pt_attempts t))
      \<or> attempts_planned (pt_attempts t) (pt_attempts t'))
    \<and> (\<forall>x\<in>set (pt_attempts t). \<exists>y\<in>set (pt_attempts t'). same_plan x y \<and> (at_phase x = PhaseDone \<longrightarrow> y = x))"
proof -
  note ok = publication_reachable_ok[OF assms(1)]
  have move: "call_moves t t'" by (rule publication_step_moves[OF assms(2) ok])
  then show ?thesis using moved_rows[OF ok move] by (auto simp: call_moves_def attempts_move_def)
qed

abbreviation example_attempt :: PublicationAttempt where
  "example_attempt \<equiv> release_attempt\<lparr>at_identity := publicationAttemptSemanticIdentity release_attempt\<rparr>"

definition uploaded_target :: publication_tables where
  "uploaded_target = fst (AdvancePublicationAttemptPhase (publicationAttemptSemanticIdentity release_attempt) ''payload'' planned_target)"

lemma uploaded_target_rows: "uploaded_target = planned_target\<lparr>pt_attempts := [example_attempt\<lparr>at_phase := PhasePayload\<rparr>]\<rparr>"
  by (simp add: uploaded_target_def AdvancePublicationAttemptPhase_def allowed_next_def publication_tx_def advance_phase_tx_def
      the_attempt_def one_row_def planned_target_rows update_attempt_def release_attempt_def)

lemma uploaded_target_step: "publication_step planned_target uploaded_target"
  unfolding uploaded_target_def by (rule publication_step.advance)

theorem publication_refines_machine_witness:
  "\<exists>t t' a b. publication_reachable t \<and> publication_step t t' \<and> pt_attempts t = [a] \<and> pt_attempts t' = [b] \<and> same_plan a b
     \<and> at_phase a = PhasePlanned \<and> at_phase b = PhasePayload"
proof -
  have rows: "pt_attempts planned_target = [example_attempt]" "pt_attempts uploaded_target = [example_attempt\<lparr>at_phase := PhasePayload\<rparr>]"
    by (simp_all add: planned_target_rows uploaded_target_rows)
  have "same_plan example_attempt (example_attempt\<lparr>at_phase := PhasePayload\<rparr>)"
    using publication_refines_machine[OF planned_target_reachable uploaded_target_step] rows by simp
  moreover have "at_phase example_attempt = PhasePlanned" by (simp add: release_attempt_def)
  moreover have "at_phase (example_attempt\<lparr>at_phase := PhasePayload\<rparr>) = PhasePayload" by simp
  ultimately show ?thesis using planned_target_reachable uploaded_target_step rows by blast
qed

text \<open>C14. The protocol ends: however often the calls of the store are repeated and in whatever order, as long
  as no new plan is started only finitely many of them change anything about the attempts, and at most
  as many as the phases and views that are left, eleven for each attempt and three for each view.\<close>

theorem publication_terminates:
  assumes "publication_reachable (f 0)" and "\<forall>n. publication_step (f n) (f (Suc n))"
    and "\<forall>n. \<not> attempts_planned (pt_attempts (f n)) (pt_attempts (f (Suc n)))"
  shows "finite {n. pt_attempts (f (Suc n)) \<noteq> pt_attempts (f n)}
    \<and> card {n. pt_attempts (f (Suc n)) \<noteq> pt_attempts (f n)} \<le> tables_left (f 0)
    \<and> tables_left (f 0) \<le> sum_list (map (\<lambda>a. 11 + 3 * length (at_views a)) (pt_attempts (f 0)))"
proof -
  have "publication_reachable (f n)" for n
    by (induction n) (use assms(1,2) publication_reachable.further in blast)+
  then have steps: "\<forall>n. publication_ok (f n) \<and> publication_step (f n) (f (Suc n))
      \<and> \<not> attempts_planned (pt_attempts (f n)) (pt_attempts (f (Suc n)))"
    using assms(2,3) publication_reachable_ok by blast
  show ?thesis using publication_run.effective_finite[OF steps] tables_left_bound by simp
qed

theorem publication_terminates_witness:
  "\<exists>f. publication_reachable (f 0) \<and> pt_attempts (f 1) \<noteq> pt_attempts (f 0) \<and> tables_left (f 0) = 14
     \<and> finite {n. pt_attempts (f (Suc n)) \<noteq> pt_attempts (f n)} \<and> card {n. pt_attempts (f (Suc n)) \<noteq> pt_attempts (f n)} \<le> 14"
proof -
  let ?f = "\<lambda>n. if n = 0 then planned_target else uploaded_target"
  have rows: "pt_attempts planned_target = [example_attempt]" "pt_attempts uploaded_target = [example_attempt\<lparr>at_phase := PhasePayload\<rparr>]"
    by (simp_all add: planned_target_rows uploaded_target_rows)
  have phase: "at_phase example_attempt = PhasePlanned" by (simp add: release_attempt_def)
  have differ: "pt_attempts uploaded_target \<noteq> pt_attempts planned_target"
  proof
    assume "pt_attempts uploaded_target = pt_attempts planned_target"
    then have "at_phase (example_attempt\<lparr>at_phase := PhasePayload\<rparr>) = at_phase example_attempt" by (simp only: rows list.inject simp_thms)
    then show False using phase by simp
  qed
  have stays: "publication_step uploaded_target uploaded_target"
    using publication_step.commit[of uploaded_target "[]"] by (simp add: SetPublicationCommitIntent_def validSHA256Text_def)
  have fresh: "\<not> attempts_planned rows [example_attempt\<lparr>at_phase := PhasePayload\<rparr>]"
    if "rows = [example_attempt] \<or> rows = [example_attempt\<lparr>at_phase := PhasePayload\<rparr>]" for rows
    using that phase by (auto simp: attempts_planned_def replaced_def fresh_plan_def)
  have left: "tables_left planned_target = 14"
    by (simp add: tables_left_def rows attempt_left_def release_attempt_def release_view_def phase_left_def view_left_def)
  have start: "publication_reachable (?f 0)" by (simp add: planned_target_reachable)
  have steps: "\<forall>n. publication_step (?f n) (?f (Suc n))" by (simp add: uploaded_target_step stays)
  have plans: "\<forall>n. \<not> attempts_planned (pt_attempts (?f n)) (pt_attempts (?f (Suc n)))"
    using fresh[of "[example_attempt]"] fresh[of "[example_attempt\<lparr>at_phase := PhasePayload\<rparr>]"] rows by simp
  have "finite {n. pt_attempts (?f (Suc n)) \<noteq> pt_attempts (?f n)} \<and> card {n. pt_attempts (?f (Suc n)) \<noteq> pt_attempts (?f n)} \<le> 14"
    using publication_terminates[of ?f, OF start steps plans] left by (simp only: if_P simp_thms)
  then show ?thesis using planned_target_reachable differ left by (intro exI[of _ ?f]) simp
qed

subsection \<open>Recovery\<close>

lemma same_plan_trans: "same_plan a b \<Longrightarrow> same_plan b c \<Longrightarrow> same_plan a c"
proof -
  assume "same_plan a b" "same_plan b c"
  then obtain p m s q n u where b: "b = a\<lparr>at_phase := p, at_commit := m, at_views := map (\<lambda>v. v\<lparr>av_state := s v\<rparr>) (at_views a)\<rparr>"
      and c: "c = b\<lparr>at_phase := q, at_commit := n, at_views := map (\<lambda>v. v\<lparr>av_state := u v\<rparr>) (at_views b)\<rparr>"
    by (auto simp: same_plan_def)
  have "c = a\<lparr>at_phase := q, at_commit := n, at_views := map (\<lambda>v. v\<lparr>av_state := u (v\<lparr>av_state := s v\<rparr>)\<rparr>) (at_views a)\<rparr>"
    unfolding c b by simp
  then show "same_plan a c" unfolding same_plan_def by (intro exI[of _ q] exI[of _ n] exI[of _ "\<lambda>v. u (v\<lparr>av_state := s v\<rparr>)"])
qed

lemma calls_reach:
  assumes "for_each run_call t calls = Inr t'" "publication_reachable t" "a \<in> set (pt_attempts t)"
    and "\<And>c u. c \<in> set calls \<Longrightarrow> publication_step u (fst (c u))"
  shows "publication_reachable t' \<and> (\<exists>b\<in>set (pt_attempts t'). same_plan a b)"
  using assms
proof (induction calls arbitrary: t a)
  case Nil
  then show ?case using same_plan_refl by auto
next
  case (Cons c calls)
  from Cons.prems(1) obtain t1 where t1: "run_call t c = Inr t1" "for_each run_call t1 calls = Inr t'" by (auto simp: and_then_Inr_iff)
  have "t1 = fst (c t)" using t1(1) by (auto simp: run_call_def split: prod.splits sum.splits)
  then have step: "publication_step t t1" using Cons.prems(4)[of c t] by simp
  have reach: "publication_reachable t1" by (rule publication_reachable.further[OF Cons.prems(2) step])
  note ok = publication_reachable_ok[OF Cons.prems(2)]
  obtain b where b: "b \<in> set (pt_attempts t1)" "same_plan a b"
    using moved_rows[OF ok publication_step_moves[OF step ok] Cons.prems(3)] by blast
  show ?case using Cons.IH[OF t1(2) reach b(1)] Cons.prems(4) same_plan_trans[OF b(2)] by auto
qed

lemma publish_calls_steps: "c \<in> set (publish_calls i pairs written) \<Longrightarrow> publication_step u (fst (c u))"
  by (auto simp: publish_calls_def view_calls_def intro: publication_step.advance publication_step.commit publication_step.view)

lemma publish_calls_reach:
  assumes "for_each run_call t (publish_calls i pairs written) = Inr t'" "publication_reachable t" "a \<in> set (pt_attempts t)"
  shows "publication_reachable t' \<and> (\<exists>b\<in>set (pt_attempts t'). same_plan a b)"
  by (rule calls_reach[OF assms]) (rule publish_calls_steps)

lemma active_come:
  assumes "publication_ok t" "a \<in> set (pt_attempts t)" "write_active (at_phase a)" "at_phase a \<noteq> PhaseApplied"
  shows "come t (at_identity a) (map view_pair (at_views a)) 0 0 {}"
proof -
  have "the_attempt t (at_identity a) = Inr a"
    using assms(1,2) publication_okD(1) by (intro the_attempt_keyed) (auto simp: tables_keyed_def)
  moreover have "0 \<le> publicationPhaseRank (at_phase a)" "publicationPhaseRank (at_phase a) \<le> 6"
    using assms(3,4) by (cases "at_phase a"; simp add: write_active_def)+
  ultimately show ?thesis using assms(1) by (auto simp: come_def)
qed

text \<open>C12. A publication can always be finished. Wherever an attempt was interrupted before its checkpoint,
  the calls of a publication started again from the first one all succeed, with the pointers recorded
  in any order that covers the views, and bring the same attempt to the verified phase with every
  view verified.\<close>

theorem publication_recovers:
  assumes "publication_reachable t" and "a \<in> set (pt_attempts t)" and "write_active (at_phase a)" and "at_phase a \<noteq> PhaseApplied"
    and "set written = set (map view_pair (at_views a))"
  shows "\<exists>t' b. for_each run_call t (publish_calls (at_identity a) (map view_pair (at_views a)) written) = Inr t'
    \<and> publication_reachable t' \<and> b \<in> set (pt_attempts t') \<and> same_plan a b \<and> at_phase b = PhaseVerified \<and> at_commit b
    \<and> (\<forall>v\<in>set (at_views b). av_state v = ViewVerified)"
proof -
  obtain t' where run: "for_each run_call t (publish_calls (at_identity a) (map view_pair (at_views a)) written) = Inr t'"
      and come: "come t' (at_identity a) (map view_pair (at_views a)) 6 3 {}"
    using publish_calls_come[OF active_come[OF publication_reachable_ok[OF assms(1)] assms(2-4)] assms(5)] by blast
  obtain b where b: "publication_reachable t'" "b \<in> set (pt_attempts t')" "same_plan a b"
    using publish_calls_reach[OF run assms(1,2)] by blast
  obtain c where c: "publication_ok t'" "the_attempt t' (at_identity a) = Inr c" "publicationPhaseRank (at_phase c) = 6"
      "\<forall>v\<in>set (at_views c). 3 \<le> view_rank (av_state v)"
    using come by (auto simp: come_def)
  note row = ok_attempt[OF c(1,2)]
  have "b = c" by (rule keyed_unique[OF row(4) b(2) row(1)]) (simp add: row(2) same_plan_fields(1)[OF b(3)])
  moreover have "at_phase c = PhaseVerified" using c(3) by (cases "at_phase c") auto
  moreover have "at_commit c" using attempt_ok_phase[OF row(3)] c(3) by simp
  ultimately show ?thesis using run b c(4) by (auto simp: view_rank_verified)
qed

theorem publication_recovers_witness:
  "\<exists>t t' a b. publication_reachable t \<and> pt_attempts t = [a] \<and> at_phase a = PhasePayload \<and> at_views a \<noteq> []
     \<and> for_each run_call t (publish_calls (at_identity a) (map view_pair (at_views a)) (map view_pair (at_views a))) = Inr t'
     \<and> b \<in> set (pt_attempts t') \<and> same_plan a b \<and> at_phase b = PhaseVerified"
proof -
  let ?a = "example_attempt\<lparr>at_phase := PhasePayload\<rparr>"
  have reach: "publication_reachable uploaded_target"
    by (rule publication_reachable.further[OF planned_target_reachable uploaded_target_step])
  have rows: "pt_attempts uploaded_target = [?a]" by (simp add: uploaded_target_rows)
  have member: "?a \<in> set (pt_attempts uploaded_target)" and phase: "at_phase ?a = PhasePayload" "write_active (at_phase ?a)" "at_phase ?a \<noteq> PhaseApplied"
    by (simp_all add: rows write_active_def)
  have views: "at_views ?a \<noteq> []" by (simp add: release_attempt_def)
  show ?thesis
    using publication_recovers[OF reach member phase(2,3) refl] reach rows phase(1) views by blast
qed

subsection \<open>Applying the checkpoint of a verified attempt\<close>

lemma head_rows:
  assumes ok: "publication_ok t" and b: "b \<in> set (pt_bindings t)" "tb_target b = target"
  shows "distinct (map th_target (pt_heads t))" "log_head target (target_checkpoints t target) \<in> set (pt_heads t)"
    "th_target (log_head target log) = target"
proof -
  have heads: "pt_heads t = map (\<lambda>b. log_head (tb_target b) (target_checkpoints t (tb_target b))) (pt_bindings t)"
    using publication_okD(3)[OF ok] by (simp add: heads_fit_def)
  have name: "th_target (log_head x l) = x" for x l by (simp add: log_head_def)
  show "th_target (log_head target log) = target" by (rule name)
  show "distinct (map th_target (pt_heads t))" using publication_okD(1)[OF ok] by (simp add: heads tables_keyed_def comp_def name)
  show "log_head target (target_checkpoints t target) \<in> set (pt_heads t)"
    unfolding heads set_map b(2)[symmetric] by (rule imageI[OF b(1)])
qed

lemma the_head_log:
  assumes "publication_ok t" "b \<in> set (pt_bindings t)" "tb_target b = target"
  shows "the_head t target = Inr (log_head target (target_checkpoints t target))"
  unfolding the_head_def by (rule one_row_keyed[OF head_rows(1,2)[OF assms] head_rows(3)[OF assms]])

lemma update_one_ok:
  assumes "distinct (map key rows)" "r \<in> set rows" "key r = k" "Q r" "\<And>x. P x \<longleftrightarrow> Q x \<and> key x = k"
  shows "\<exists>rows'. update_one P f e rows = Inr rows'"
proof -
  have "P = (\<lambda>x. Q x \<and> key x = k)" using assms(5) by auto
  then show ?thesis using filter_keyed[of key rows r k Q, OF assms(1-4)] by (simp add: update_one_def)
qed

text \<open>Up to the unique keys nothing can refuse the checkpoint of a verified attempt: its target is bound, its
  row is there with the commit intent, and the head still is the one it was planned on.\<close>

lemma verified_attempt_accepted:
  assumes ok: "publication_ok t" and a: "a \<in> set (pt_attempts t)" "at_phase a = PhaseVerified" "applied_by c (applied_row a)"
  shows "requirePublicationBindingTx t (cp_repository c) (cp_target c) = Inr ()" "the_attempt t (cp_attempt c) = Inr a"
    and "at_repository a = cp_repository c" "at_target a = cp_target c" "at_generation a = cp_generation c" "at_manifest a = cp_manifest c"
    and "at_commit a" "the_head t (cp_target c) = Inr (log_head (cp_target c) (target_checkpoints t (cp_target c)))"
    and "\<not> base_differs (log_head (cp_target c) (target_checkpoints t (cp_target c))) (at_base a)"
proof -
  note parts = publication_okD[OF ok]
  have own: "at_identity a = cp_attempt c" "at_repository a = cp_repository c" "at_target a = cp_target c"
      "at_generation a = cp_generation c" "at_manifest a = cp_manifest c"
    using a(3) by (simp_all add: applied_by_def)
  then show "at_repository a = cp_repository c" "at_target a = cp_target c" "at_generation a = cp_generation c" "at_manifest a = cp_manifest c"
    by blast+
  have keyed: "distinct (map at_identity (pt_attempts t))" using parts(1) by (simp add: tables_keyed_def)
  show bound: "requirePublicationBindingTx t (cp_repository c) (cp_target c) = Inr ()"
    using publication_ok_rows[OF ok a(1)] own by simp
  show "the_attempt t (cp_attempt c) = Inr a" by (rule the_attempt_keyed[OF keyed a(1) own(1)])
  show "at_commit a" using attempt_ok_phase a parts(2) by (auto simp: attempts_fit_def)
  obtain b where b: "b \<in> set (pt_bindings t)" "tb_target b = cp_target c" using bound_target[OF bound] by blast
  let ?log = "target_checkpoints t (cp_target c)"
  show "the_head t (cp_target c) = Inr (log_head (cp_target c) ?log)" by (rule the_head_log[OF ok b])
  have base: "at_base a = log_end '''' ?log"
    using parts(2) a own by (auto simp: attempts_fit_def sees_head_def write_active_def Let_def)
  have "cp_identity d \<noteq> ''''" if "d \<in> set (pt_checkpoints t)" for d
    using parts(4) that identity_valid(5)[of d] by (auto simp: checkpoints_fit_def checkpoint_ok_def validSHA256Text_def)
  then have "?log \<noteq> [] \<longrightarrow> log_end '''' ?log \<noteq> ''''"
    using last_in_set[of ?log] by (auto simp: log_end_def target_checkpoints_def)
  then show "\<not> base_differs (log_head (cp_target c) ?log) (at_base a)" by (simp add: base_matches base)
qed

lemma apply_checkpoint_runs:
  assumes ok: "publication_ok t" and a: "a \<in> set (pt_attempts t)" "at_phase a = PhaseVerified" "applied_by c (applied_row a)"
    and views: "checkpointViewsMatchVerifiedAttempt (cp_views c) (at_views a)"
    and unique: "\<forall>d\<in>set (pt_checkpoints t). cp_identity d \<noteq> cp_identity c
      \<and> (cp_target d = cp_target c \<longrightarrow> cp_generation d = cp_generation c \<longrightarrow> cp_manifest d \<noteq> cp_manifest c)"
  shows "\<exists>t'. apply_checkpoint_tx c t = Inr (t', cp_identity c) \<and> pt_checkpoints t' = pt_checkpoints t @ [c]"
proof -
  note v = verified_attempt_accepted[OF ok a]
  have id: "at_identity a = cp_attempt c" using a(3) by (simp add: applied_by_def)
  have keyed: "distinct (map at_identity (pt_attempts t))" using publication_okD(1)[OF ok] by (simp add: tables_keyed_def)
  have none: "List.find (\<lambda>d. cp_identity d = cp_identity c) (pt_checkpoints t) = None" using unique by (auto simp: find_None_iff)
  have fresh: "\<not> list_ex (\<lambda>d. cp_attempt d = cp_attempt c \<or> cp_target d = cp_target c
        \<and> cp_generation d = cp_generation c \<and> cp_manifest d = cp_manifest c) (pt_checkpoints t)"
    using unique verified_unapplied[OF ok a(1,2)] id by (auto simp: list_ex_iff)
  obtain b where b: "b \<in> set (pt_bindings t)" "tb_target b = cp_target c" using bound_target[OF v(1)] by blast
  let ?log = "target_checkpoints t (cp_target c)"
  have "\<exists>hs. swap_head c (log_head (cp_target c) ?log) t = Inr hs"
    unfolding swap_head_def
    by (rule update_one_ok[where key = th_target and Q = "\<lambda>h. th_revision h = th_revision (log_head (cp_target c) ?log)
       \<and> th_checkpoint h = th_checkpoint (log_head (cp_target c) ?log)", OF head_rows[OF ok b]]) auto
  then obtain hs where hs: "swap_head c (log_head (cp_target c) ?log) t = Inr hs" by blast
  have "\<exists>rs. update_one (\<lambda>a. at_identity a = cp_attempt c \<and> at_phase a = PhaseVerified \<and> at_commit a) (\<lambda>a. a\<lparr>at_phase := PhaseApplied\<rparr>)
                   (GoError [ErrConflict] ''verified attempt changed while applying checkpoint'') (pt_attempts t) = Inr rs"
    by (rule update_one_ok[where key = at_identity and Q = "\<lambda>a. at_phase a = PhaseVerified \<and> at_commit a", OF keyed a(1) id])
      (use a(2) v(7) in auto)
  then obtain rs where rs: "update_one (\<lambda>a. at_identity a = cp_attempt c \<and> at_phase a = PhaseVerified \<and> at_commit a) (\<lambda>a. a\<lparr>at_phase := PhaseApplied\<rparr>)
                   (GoError [ErrConflict] ''verified attempt changed while applying checkpoint'') (pt_attempts t) = Inr rs" by blast
  show ?thesis
    unfolding apply_checkpoint_tx_def appliedCheckpointSemanticMatchTx_def none option.case prod.case if_False
    by (simp only: v a(2) views fresh hs rs and_then_simps simp_thms if_False if_True) simp
qed

definition verified_target :: publication_tables where
  "verified_target = planned_target\<lparr>pt_attempts := [example_attempt\<lparr>at_phase := PhaseVerified, at_commit := True,
     at_views := [release_view\<lparr>av_state := ViewVerified\<rparr>]\<rparr>]\<rparr>"

lemma release_paths: "validPublicationPath ''dists/noble''" "validPublicationPath ''dists/noble/Release''" by code_simp+

lemma advance_example:
  assumes "at_identity a = publicationAttemptSemanticIdentity release_attempt"
    and "allowed_next name = Some p" "phase_successor (at_phase a) = Some p" "publicationPhaseRank p > publicationPhaseRank (at_phase a)"
    and "4 \<le> publicationPhaseRank p \<longrightarrow> at_commit a" "p = PhaseVerified \<longrightarrow> (\<forall>v\<in>set (at_views a). av_state v = ViewVerified)"
  shows "run_call (t\<lparr>pt_attempts := [a]\<rparr>) (AdvancePublicationAttemptPhase (publicationAttemptSemanticIdentity release_attempt) name) = Inr (t\<lparr>pt_attempts := [a\<lparr>at_phase := p\<rparr>]\<rparr>)"
  using assms by (auto simp: run_call_def AdvancePublicationAttemptPhase_def publication_tx_def advance_phase_tx_def the_attempt_def
      one_row_def update_attempt_def list_ex_iff)

lemma view_example:
  assumes "at_identity a = publicationAttemptSemanticIdentity release_attempt" "at_views a = [v]"
    and "av_view v = ''dists/noble''" "av_pointer v = ''dists/noble/Release''"
    and "view_of_text name = Some s" "view_rank s = Suc (view_rank (av_state v))" "s = ViewPrepared \<longrightarrow> at_phase a = PhasePointerPrepared"
    and "2 \<le> view_rank s \<longrightarrow> at_commit a \<and> 4 \<le> publicationPhaseRank (at_phase a)" "s = ViewVerified \<longrightarrow> 5 \<le> publicationPhaseRank (at_phase a)"
  shows "run_call (t\<lparr>pt_attempts := [a]\<rparr>) (SetPublicationAttemptViewState (publicationAttemptSemanticIdentity release_attempt) ''dists/noble'' ''dists/noble/Release'' name)
    = Inr (t\<lparr>pt_attempts := [a\<lparr>at_views := [v\<lparr>av_state := s\<rparr>]\<rparr>]\<rparr>)"
  using assms release_paths by (auto simp: run_call_def SetPublicationAttemptViewState_def publication_tx_def view_state_tx_def the_attempt_def
      one_row_def update_attempt_def Let_def)

lemma commit_example:
  assumes "at_identity a = publicationAttemptSemanticIdentity release_attempt"
    and "at_phase a = PhasePointerPrepared" "\<not> at_commit a" "\<forall>v\<in>set (at_views a). av_state v = ViewPrepared"
  shows "run_call (t\<lparr>pt_attempts := [a]\<rparr>) (SetPublicationCommitIntent (publicationAttemptSemanticIdentity release_attempt))
    = Inr (t\<lparr>pt_attempts := [a\<lparr>at_phase := PhaseCommitIntent, at_commit := True\<rparr>]\<rparr>)"
  using assms by (auto simp: run_call_def SetPublicationCommitIntent_def publication_tx_def commit_intent_tx_def the_attempt_def
      one_row_def update_attempt_def list_ex_iff)

lemma verified_target_run:
  "for_each run_call planned_target (publish_calls (publicationAttemptSemanticIdentity release_attempt)
     [(''dists/noble'', ''dists/noble/Release'')] [(''dists/noble'', ''dists/noble/Release'')]) = Inr verified_target"
proof -
  have start: "at_views release_attempt = [release_view]" "at_phase release_attempt = PhasePlanned" "\<not> at_commit release_attempt"
    "av_view release_view = ''dists/noble''" "av_pointer release_view = ''dists/noble/Release''" "av_state release_view = ViewPending"
    by (simp_all add: release_attempt_def release_view_def)
  show ?thesis
    unfolding publish_calls_def view_calls_def
    by (simp add: start planned_target_rows verified_target_def advance_example view_example commit_example allowed_next_def view_of_text_def)
qed

lemma verified_target_reachable: "publication_reachable verified_target"
  using publish_calls_reach[OF verified_target_run planned_target_reachable, of example_attempt]
  by (simp add: planned_target_rows)

text \<open>The row and the checkpoint the call computes from its argument.\<close>

definition sealed :: "AppliedCheckpoint \<Rightarrow> AppliedCheckpoint" where
  "sealed c = (let d = c\<lparr>cp_inventory_identity := publicationInventoryIdentity (cp_inventory c)\<rparr>
     in d\<lparr>cp_identity := appliedCheckpointSemanticIdentity d\<rparr>)"

lemma sealed_fields [simp]:
  "cp_attempt (sealed c) = cp_attempt c" "cp_repository (sealed c) = cp_repository c" "cp_target (sealed c) = cp_target c"
  "cp_generation (sealed c) = cp_generation c" "cp_manifest (sealed c) = cp_manifest c" "cp_views (sealed c) = cp_views c"
  by (simp_all add: sealed_def Let_def)

lemma sealed_identity: "cp_identity (sealed c) = appliedCheckpointSemanticIdentity (sealed c)"
  by (simp add: sealed_def Let_def appliedCheckpointSemanticIdentity_def)

lemma PutAppliedCheckpoint_sealed:
  assumes "validateAppliedCheckpoint c = Inr ()" "cp_identity c = ''''" "cp_inventory_identity c = ''''"
    and "generationManifestOn db (cp_generation c) = Inr manifest" "ManifestBytes manifest = Inr (bytes, cp_manifest c)"
    and "inventoryContainsManifest (cp_inventory c) manifest"
  shows "PutAppliedCheckpoint now db c t = publication_tx (apply_checkpoint_tx (sealed c)) t"
proof -
  have valid: "cp_schema c = 1" "cp_complete c" "cp_applied_at c \<noteq> zero_time"
    using assms(1) by (auto simp: validateAppliedCheckpoint_def split: if_splits)
  then have same: "c\<lparr>cp_schema := (if cp_schema c = 0 then 1 else cp_schema c),
      cp_applied_at := (if cp_applied_at c = zero_time then now else cp_applied_at c)\<rparr> = c" by simp
  show ?thesis
    unfolding PutAppliedCheckpoint_def same by (simp add: Let_def assms valid ensure_def sealed_def)
qed

lemma applies_run:
  assumes reach: "publication_reachable t" and a: "a \<in> set (pt_attempts t)" "at_phase a = PhaseVerified"
    and own: "at_identity a = cp_attempt c" "at_repository a = cp_repository c" "at_target a = cp_target c"
      "at_generation a = cp_generation c" "at_manifest a = cp_manifest c"
    and views: "checkpointViewsMatchVerifiedAttempt (cp_views c) (at_views a)"
    and c: "validateAppliedCheckpoint c = Inr ()" "cp_identity c = ''''" "cp_inventory_identity c = ''''"
    and closed: "generationManifestOn db (cp_generation c) = Inr manifest" "ManifestBytes manifest = Inr (bytes, cp_manifest c)"
      "inventoryContainsManifest (cp_inventory c) manifest"
    and unique: "\<forall>d\<in>set (pt_checkpoints t). cp_identity d \<noteq> cp_identity (sealed c)
      \<and> (cp_target d = cp_target c \<longrightarrow> cp_generation d = cp_generation c \<longrightarrow> cp_manifest d \<noteq> cp_manifest c)"
  shows "\<exists>t'. PutAppliedCheckpoint now db c t = (t', Inr (cp_identity (sealed c))) \<and> publication_reachable t'
    \<and> pt_checkpoints t' = pt_checkpoints t @ [sealed c]
    \<and> the_head t' (cp_target c) = Inr \<lparr>th_target = cp_target c, th_checkpoint = Some (cp_identity (sealed c)),
         th_generation = cp_generation c, th_manifest = Some (cp_manifest c),
         th_revision = int (length (target_checkpoints t (cp_target c))) + 1\<rparr>"
proof -
  note ok = publication_reachable_ok[OF reach]
  have "applied_by (sealed c) (applied_row a)" using own by (simp add: applied_by_def applied_def)
  then obtain t' where t': "apply_checkpoint_tx (sealed c) t = Inr (t', cp_identity (sealed c))"
      "pt_checkpoints t' = pt_checkpoints t @ [sealed c]"
    using apply_checkpoint_runs[OF ok a, of "sealed c"] views unique by auto
  have call: "PutAppliedCheckpoint now db c t = (t', Inr (cp_identity (sealed c)))"
    using PutAppliedCheckpoint_sealed[OF c closed] t'(1) by (simp add: publication_tx_def)
  then have reach': "publication_reachable t'"
    using publication_reachable.further[OF reach publication_step.checkpoint[of t now db c]] by simp
  have log: "target_checkpoints t' (cp_target c) = target_checkpoints t (cp_target c) @ [sealed c]"
    by (simp add: target_checkpoints_def t'(2))
  have "cp_target c \<in> tb_target ` set (pt_bindings t')"
    using checkpoint_target_bound[OF publication_reachable_ok[OF reach'], of "sealed c"] t'(2) by simp
  then obtain b where "b \<in> set (pt_bindings t')" "tb_target b = cp_target c" by (elim imageE) simp
  then have "the_head t' (cp_target c) = Inr (log_head (cp_target c) (target_checkpoints t' (cp_target c)))"
    by (rule the_head_log[OF publication_reachable_ok[OF reach']])
  then show ?thesis using call reach' t'(2) by (simp add: log log_head_def)
qed

lemma apply_checkpoint_repeated:
  assumes ok: "publication_ok t" and a: "a \<in> set (pt_attempts t)" "at_phase a = PhaseVerified" "applied_by c (applied_row a)"
    and views: "checkpointViewsMatchVerifiedAttempt (cp_views c) (at_views a)"
    and new: "\<forall>d\<in>set (pt_checkpoints t). cp_identity d \<noteq> cp_identity c"
    and again: "\<exists>d\<in>set (pt_checkpoints t). cp_target d = cp_target c \<and> cp_generation d = cp_generation c \<and> cp_manifest d = cp_manifest c"
  shows "apply_checkpoint_tx c t = Inl (plain_error ''UNIQUE constraint failed: publication_checkpoints'')"
proof -
  note v = verified_attempt_accepted[OF ok a]
  have none: "List.find (\<lambda>d. cp_identity d = cp_identity c) (pt_checkpoints t) = None" using new by (auto simp: find_None_iff)
  have taken: "list_ex (\<lambda>d. cp_attempt d = cp_attempt c \<or> cp_target d = cp_target c
        \<and> cp_generation d = cp_generation c \<and> cp_manifest d = cp_manifest c) (pt_checkpoints t)"
    using again by (auto simp: list_ex_iff)
  show ?thesis
    unfolding apply_checkpoint_tx_def appliedCheckpointSemanticMatchTx_def none option.case prod.case if_False
    by (simp only: v a(2) views taken and_then_simps simp_thms if_False if_True)
qed

lemma repeated_run:
  assumes reach: "publication_reachable t" and a: "a \<in> set (pt_attempts t)" "at_phase a = PhaseVerified"
    and own: "at_identity a = cp_attempt c" "at_repository a = cp_repository c" "at_target a = cp_target c"
      "at_generation a = cp_generation c" "at_manifest a = cp_manifest c"
    and views: "checkpointViewsMatchVerifiedAttempt (cp_views c) (at_views a)"
    and c: "validateAppliedCheckpoint c = Inr ()" "cp_identity c = ''''" "cp_inventory_identity c = ''''"
    and closed: "generationManifestOn db (cp_generation c) = Inr manifest" "ManifestBytes manifest = Inr (bytes, cp_manifest c)"
      "inventoryContainsManifest (cp_inventory c) manifest"
    and new: "\<forall>d\<in>set (pt_checkpoints t). cp_identity d \<noteq> cp_identity (sealed c)"
    and again: "\<exists>d\<in>set (pt_checkpoints t). cp_target d = cp_target c \<and> cp_generation d = cp_generation c \<and> cp_manifest d = cp_manifest c"
  shows "PutAppliedCheckpoint now db c t = (t, Inl (plain_error ''UNIQUE constraint failed: publication_checkpoints''))"
proof -
  have "applied_by (sealed c) (applied_row a)" using own by (simp add: applied_by_def applied_def)
  from apply_checkpoint_repeated[OF publication_reachable_ok[OF reach] a this, unfolded sealed_fields, OF views new again]
  show ?thesis using PutAppliedCheckpoint_sealed[OF c closed] by (simp add: publication_tx_def)
qed

text \<open>C13. A verified attempt becomes the head, once. In a reachable state the compare-and-swap of the head
  never finds another value than the one the attempt was planned on: a complete inventory that holds
  the manifest of the generation, with the views of the attempt, becomes the next checkpoint of the
  target and its head, one revision further. It is refused, by the unique key of the checkpoints and
  with nothing changed, exactly when the target already has a checkpoint of this generation and
  manifest; the only other way out is a SHA-256 collision with the checkpoint of another attempt.\<close>

theorem verified_attempt_applies:
  assumes "publication_reachable t" and "a \<in> set (pt_attempts t)" and "at_phase a = PhaseVerified"
    and "at_identity a = cp_attempt c" and "at_repository a = cp_repository c" and "at_target a = cp_target c"
    and "at_generation a = cp_generation c" and "at_manifest a = cp_manifest c"
    and "checkpointViewsMatchVerifiedAttempt (cp_views c) (at_views a)"
    and "validateAppliedCheckpoint c = Inr ()" and "cp_identity c = ''''" and "cp_inventory_identity c = ''''"
    and "generationManifestOn db (cp_generation c) = Inr manifest" and "ManifestBytes manifest = Inr (bytes, cp_manifest c)"
    and "inventoryContainsManifest (cp_inventory c) manifest"
  shows "(\<exists>d\<in>set (pt_checkpoints t). cp_attempt d \<noteq> cp_attempt c
        \<and> appliedCheckpointSemanticIdentity d = appliedCheckpointSemanticIdentity (sealed c))
    \<or> (if \<exists>d\<in>set (pt_checkpoints t). cp_target d = cp_target c \<and> cp_generation d = cp_generation c \<and> cp_manifest d = cp_manifest c
       then PutAppliedCheckpoint now db c t = (t, Inl (plain_error ''UNIQUE constraint failed: publication_checkpoints''))
       else \<exists>t'. PutAppliedCheckpoint now db c t = (t', Inr (cp_identity (sealed c)))
         \<and> pt_checkpoints t' = pt_checkpoints t @ [sealed c]
         \<and> the_head t' (cp_target c) = Inr \<lparr>th_target = cp_target c, th_checkpoint = Some (cp_identity (sealed c)),
              th_generation = cp_generation c, th_manifest = Some (cp_manifest c),
              th_revision = int (length (target_checkpoints t (cp_target c))) + 1\<rparr>)"
proof (cases "\<forall>d\<in>set (pt_checkpoints t). cp_identity d \<noteq> cp_identity (sealed c)")
  case True
  show ?thesis using repeated_run[OF assms True, of now] applies_run[OF assms, of now] True by (auto split: if_split)
next
  case False
  then obtain d where d: "d \<in> set (pt_checkpoints t)" "cp_identity d = cp_identity (sealed c)" by blast
  have "cp_attempt d \<noteq> cp_attempt c"
    using verified_unapplied[OF publication_reachable_ok[OF assms(1)] assms(2,3) d(1)] assms(4) by simp
  then show ?thesis
    using stored_identity[OF publication_reachable_ok[OF assms(1)] d(1)] d sealed_identity[of c] by metis
qed

definition release_checkpoint :: AppliedCheckpoint where
  "release_checkpoint = \<lparr>cp_identity = '''', cp_schema = 1, cp_repository = ''01234567-89ab-4cde-8f01-23456789abcd'',
     cp_target = example_place, cp_attempt = publicationAttemptSemanticIdentity release_attempt, cp_generation = 1,
     cp_manifest = release_digest, cp_inventory_identity = '''', cp_complete = True,
     cp_views = [\<lparr>cv_view = ''dists/noble'', cv_pointer = ''dists/noble/Release'', cv_remote = ''etag''\<rparr>],
     cp_inventory = [\<lparr>po_object_path = ''dists/noble/Release'', po_object_phase = ''pointer'', po_object_size = 5,
        po_object_sha256 = replicate 64 CHR ''a'', po_object_remote = ''etag''\<rparr>],
     cp_applied_at = zero_time\<lparr>t_year := 2026\<rparr>\<rparr>"

abbreviation verified_attempt :: PublicationAttempt where
  "verified_attempt \<equiv> example_attempt\<lparr>at_phase := PhaseVerified, at_commit := True, at_views := [release_view\<lparr>av_state := ViewVerified\<rparr>]\<rparr>"

lemma release_checkpoint_valid: "validateAppliedCheckpoint release_checkpoint = Inr ()"
proof -
  have views: "sortedCheckpointViews (cp_views release_checkpoint)" "sortedInventory (cp_inventory release_checkpoint)"
    unfolding release_checkpoint_def AppliedCheckpoint.select_convs by code_simp+
  have applied: "cp_applied_at release_checkpoint \<noteq> zero_time"
    by (simp add: release_checkpoint_def zero_time_def)
  show ?thesis
    using views applied example_ids
    by (simp add: validateAppliedCheckpoint_def) (simp add: release_checkpoint_def release_digest_def example_place_def)
qed

lemma release_manifest: "generationManifestOn publication_db 1 = Inr [release_file]"
  by (simp add: generationManifestOn_def files_of_def publication_db_def)

lemma release_manifest_bytes: "ManifestBytes [release_file] = Inr (manifest_wire [release_file], release_digest)"
proof -
  have "\<not> invalid_generation_file LayoutSinglePayloadV1 '''' release_file" by code_simp
  then show ?thesis
    using normalizeManifest_success[of LayoutSinglePayloadV1 "[release_file]"]
    by (simp add: ManifestBytes_def ManifestBytesForLayout_def release_digest_def)
qed

lemma verified_rows: "pt_attempts verified_target = [verified_attempt]" "pt_checkpoints verified_target = []"
proof -
  have "pt_checkpoints bound_target = []"
  proof -
    obtain b v where t: "bound_target = empty_publication\<lparr>pt_bindings := [b], pt_revisions := v,
       pt_heads := [\<lparr>th_target = example_place, th_checkpoint = None, th_generation = 0, th_manifest = None, th_revision = 0\<rparr>]\<rparr>"
      by (rule exE[OF bound_target_rows]) (elim exE conjE, rule that)
    show ?thesis by (simp add: t empty_publication_def)
  qed
  then show "pt_checkpoints verified_target = []" by (simp add: verified_target_def planned_target_rows)
  show "pt_attempts verified_target = [verified_attempt]" by (simp add: verified_target_def)
qed

lemma release_checkpoint_matches:
  "verified_attempt \<in> set (pt_attempts verified_target)" "at_phase verified_attempt = PhaseVerified"
  "at_identity verified_attempt = cp_attempt release_checkpoint" "at_repository verified_attempt = cp_repository release_checkpoint"
  "at_target verified_attempt = cp_target release_checkpoint" "at_generation verified_attempt = cp_generation release_checkpoint"
  "at_manifest verified_attempt = cp_manifest release_checkpoint"
  "checkpointViewsMatchVerifiedAttempt (cp_views release_checkpoint) (at_views verified_attempt)"
  "cp_identity release_checkpoint = ''''" "cp_inventory_identity release_checkpoint = ''''"
  "generationManifestOn publication_db (cp_generation release_checkpoint) = Inr [release_file]"
  "ManifestBytes [release_file] = Inr (manifest_wire [release_file], cp_manifest release_checkpoint)"
  "inventoryContainsManifest (cp_inventory release_checkpoint) [release_file]"
  "\<forall>d\<in>set (pt_checkpoints verified_target). cp_identity d \<noteq> cp_identity (sealed release_checkpoint)
      \<and> (cp_target d = cp_target release_checkpoint \<longrightarrow> cp_generation d = cp_generation release_checkpoint
         \<longrightarrow> cp_manifest d \<noteq> cp_manifest release_checkpoint)"
  using release_manifest_bytes
  by (simp_all add: verified_rows release_manifest release_checkpoint_def release_attempt_def release_view_def
      checkpointViewsMatchVerifiedAttempt_def inventoryContainsManifest_def) (simp_all add: release_file_def)

theorem verified_attempt_applies_witness:
  "\<exists>t t' i. publication_reachable t \<and> pt_checkpoints t = []
     \<and> PutAppliedCheckpoint zero_time publication_db release_checkpoint t = (t', Inr i)
     \<and> the_head t' example_place = Inr \<lparr>th_target = example_place, th_checkpoint = Some i, th_generation = 1,
         th_manifest = Some release_digest, th_revision = 1\<rparr>"
proof -
  note applied = verified_attempt_applies[OF verified_target_reachable release_checkpoint_matches(1-8) release_checkpoint_valid
      release_checkpoint_matches(9-13), of zero_time]
  have fields: "cp_target release_checkpoint = example_place" "cp_generation release_checkpoint = 1" "cp_manifest release_checkpoint = release_digest"
    "target_checkpoints verified_target example_place = []"
    by (simp_all add: release_checkpoint_def target_checkpoints_def verified_rows)
  show ?thesis using applied verified_target_reachable verified_rows(2) by (auto simp: fields)
qed

theorem publication_history_linear_witness:
  "\<exists>t c. publication_reachable t \<and> pt_checkpoints t = [c] \<and> chained (pt_attempts t) '''' [c]
     \<and> pt_heads t = map (\<lambda>b. log_head (tb_target b) (target_checkpoints t (tb_target b))) (pt_bindings t)
     \<and> (\<exists>manifest bytes. ManifestBytes manifest = Inr (bytes, cp_manifest c) \<and> inventoryContainsManifest (cp_inventory c) manifest)"
proof -
  let ?c = "sealed release_checkpoint"
  obtain t where t: "publication_reachable t" "pt_checkpoints t = [?c]"
    using applies_run[OF verified_target_reachable release_checkpoint_matches(1-8) release_checkpoint_valid
      release_checkpoint_matches(9-14), of zero_time] verified_rows(2) by auto
  have "target_checkpoints t (cp_target ?c) = [?c]" by (simp add: target_checkpoints_def t(2))
  then have "chained (pt_attempts t) '''' [?c]"
    using publication_history_linear[OF t(1)] by metis
  moreover have "pt_heads t = map (\<lambda>b. log_head (tb_target b) (target_checkpoints t (tb_target b))) (pt_bindings t)"
    "\<exists>manifest bytes. ManifestBytes manifest = Inr (bytes, cp_manifest ?c) \<and> inventoryContainsManifest (cp_inventory ?c) manifest"
    using publication_history_linear[OF t(1)] t(2) by simp_all
  ultimately show ?thesis using t by blast
qed

subsection \<open>The objects a report may name\<close>

lemma candidate_steps:
  assumes "for_each (candidate_step manifest protected deleted) acc objects = Inr out"
  shows "out = acc @ filter (\<lambda>p. \<not> in_closure manifest p \<and> po_object_path p \<notin> set protected
      \<and> publicationObjectEvidenceKey p \<notin> set deleted) objects
    \<and> (\<forall>p\<in>set objects. in_closure manifest p \<or> po_object_phase p \<noteq> ''pointer'')"
  using assms
proof (induction objects arbitrary: acc)
  case (Cons p objects)
  from Cons.prems obtain acc' where a: "candidate_step manifest protected deleted acc p = Inr acc'"
      "for_each (candidate_step manifest protected deleted) acc' objects = Inr out" by (auto simp: and_then_Inr_iff)
  then show ?case using Cons.IH[OF a(2)] by (auto simp: candidate_step_def split: if_splits)
qed simp

lemma generation_paths_exact:
  assumes "for_each (generation_paths db) paths gs = Inr out"
  shows "(\<forall>g\<in>set gs. \<exists>files. generationManifestTx db g = Inr files)
    \<and> (path \<in> set out \<longleftrightarrow> path \<in> set paths \<or> (\<exists>g\<in>set gs. \<exists>files. generationManifestTx db g = Inr files \<and> path \<in> gf_path ` set files))"
  using assms
proof (induction gs arbitrary: paths)
  case (Cons g gs)
  from Cons.prems obtain more where f: "generation_paths db paths g = Inr more" "for_each (generation_paths db) more gs = Inr out"
    by (auto simp: and_then_Inr_iff)
  obtain files where files: "generationManifestTx db g = Inr files" "more = paths @ map gf_path files"
    using f(1) by (auto simp: generation_paths_def and_then_Inr_iff)
  then show ?case using Cons.IH[OF f(2)] by auto
qed simp

text \<open>What a target still needs, said without the code's own lists: the generations of the head, of a
  checkpoint in grace and of an open attempt. An object is referenced by the manifest of its own
  checkpoint, by a file of a needed generation, or by the inventory an open attempt is based on. It is
  withdrawn when a receipt of a conditional deletion names it and the record of the checkpoint it was
  reported for says that the deletion was verified.\<close>

definition needs_generation :: "publication_tables \<Rightarrow> string \<Rightarrow> GenerationID \<Rightarrow> bool" where
  "needs_generation t target g \<longleftrightarrow>
     (\<exists>d\<in>set (pt_checkpoints t). cp_target d = target \<and> cp_generation d = g
        \<and> ((\<exists>h\<in>set (pt_heads t). th_target h = target \<and> th_checkpoint h = Some (cp_identity d))
           \<or> (\<exists>r\<in>set (pt_grace t). gr_target r = target \<and> gr_checkpoint r = cp_identity d \<and> gr_state r = ''grace'')))
     \<or> (\<exists>a\<in>set (pt_attempts t). at_target a = target \<and> at_generation a = g \<and> write_active (at_phase a))"

definition referenced :: "database \<Rightarrow> publication_tables \<Rightarrow> string \<Rightarrow> GenerationFile list \<Rightarrow> string \<Rightarrow> bool" where
  "referenced db t target manifest path \<longleftrightarrow>
     path \<in> gf_path ` set manifest
     \<or> (\<exists>g files. needs_generation t target g \<and> generationManifestTx db g = Inr files \<and> path \<in> gf_path ` set files)
     \<or> (\<exists>a\<in>set (pt_attempts t). \<exists>d\<in>set (pt_checkpoints t). at_target a = target \<and> write_active (at_phase a)
          \<and> at_base a \<noteq> '''' \<and> cp_identity d = at_base a \<and> path \<in> po_object_path ` set (cp_inventory d))"

definition withdrawn :: "publication_tables \<Rightarrow> string \<Rightarrow> PublicationObject \<Rightarrow> bool" where
  "withdrawn t target p \<longleftrightarrow>
     (\<exists>d\<in>set (pt_receipts t). \<exists>r\<in>set (pt_reports t). \<exists>c\<in>set (pt_checkpoints t).
        publicationObjectEvidenceKey (dr_object d) = publicationObjectEvidenceKey p
        \<and> rp_identity r = dr_report d \<and> rp_target r = target \<and> rp_mode r = ''conditional_delete'' \<and> cp_identity c = rp_checkpoint r
        \<and> (\<exists>a\<in>set (pt_attempts t). at_identity a = cp_attempt c \<and> at_phase a \<in> {PhaseDeletionVerified, PhaseDone})
        \<and> (\<exists>g\<in>set (pt_grace t). gr_checkpoint g = cp_identity c \<and> gr_state g = ''deletion_verified''))"

lemma protected_generations_needed: "g \<in> set (protected_generations t target) \<longleftrightarrow> needs_generation t target g"
  unfolding needs_generation_def protected_generations_def active_attempts_def list_ex_iff
  by (simp add: image_iff) blast

lemma deleted_withdrawn:
  "publicationObjectEvidenceKey p \<in> set (map publicationObjectEvidenceKey (deleted_objects t target)) \<longleftrightarrow> withdrawn t target p"
  unfolding withdrawn_def deleted_objects_def list_ex_iff by (simp add: image_iff eq_commute) blast

lemma based_paths:
  "path \<in> set (concat (map (\<lambda>a. base_paths t (at_base a)) (active_attempts t target))) \<longleftrightarrow>
     (\<exists>a\<in>set (pt_attempts t). \<exists>d\<in>set (pt_checkpoints t). at_target a = target \<and> write_active (at_phase a)
        \<and> at_base a \<noteq> '''' \<and> cp_identity d = at_base a \<and> path \<in> po_object_path ` set (cp_inventory d))"
  unfolding active_attempts_def base_paths_def by (simp add: image_iff if_distrib) blast

lemma protected_referenced:
  assumes "protected_paths db t target manifest = Inr protected"
  shows "path \<in> set protected \<longleftrightarrow> referenced db t target manifest path"
    and "needs_generation t target g \<Longrightarrow> \<exists>files. generationManifestTx db g = Inr files"
proof -
  obtain paths where p: "for_each (generation_paths db) (map gf_path manifest) (protected_generations t target) = Inr paths"
      "protected = paths @ concat (map (\<lambda>a. base_paths t (at_base a)) (active_attempts t target))"
    using assms by (auto simp: protected_paths_def and_then_Inr_iff)
  note exact = generation_paths_exact[OF p(1), of path]
  show "\<exists>files. generationManifestTx db g = Inr files" if "needs_generation t target g"
    using exact that by (simp add: protected_generations_needed)
  show "path \<in> set protected \<longleftrightarrow> referenced db t target manifest path"
    unfolding p(2) set_append Un_iff conjunct2[OF exact] based_paths protected_generations_needed[symmetric] referenced_def set_map
    by blast
qed

lemma in_closure_file:
  assumes "in_closure manifest p"
  shows "\<exists>f\<in>set manifest. gf_path f = po_object_path p \<and> gf_phase f = po_object_phase p \<and> gf_size f = po_object_size p
    \<and> gf_sha256 f = po_object_sha256 p"
proof -
  obtain f where f: "map_of (rev (map (\<lambda>f. (gf_path f, f)) manifest)) (po_object_path p) = Some f"
      "gf_phase f = po_object_phase p" "gf_size f = po_object_size p" "gf_sha256 f = po_object_sha256 p"
    using assms by (auto simp: in_closure_def split: option.splits)
  have "f \<in> set manifest \<and> gf_path f = po_object_path p" using map_of_SomeD[OF f(1)] by auto
  with f(2-4) show ?thesis by blast
qed

lemma in_closure_referenced: "in_closure manifest p \<Longrightarrow> referenced db t target manifest (po_object_path p)"
  using in_closure_file[of manifest p] by (force simp: referenced_def)

lemma exact_candidates:
  assumes "exactPublicationCandidatesTx db t i = Inr candidates" and "the_checkpoint t i = Inr c"
    and "distinct (map cp_identity (pt_checkpoints t))"
  obtains manifest protected where "generationManifestTx db (cp_generation c) = Inr manifest"
    "protected_paths db t (cp_target c) manifest = Inr protected"
    "candidates = filter (\<lambda>p. \<not> in_closure manifest p \<and> po_object_path p \<notin> set protected
        \<and> publicationObjectEvidenceKey p \<notin> set (map publicationObjectEvidenceKey (deleted_objects t (cp_target c))))
        (sort_key po_object_path (cp_inventory c))"
    "\<forall>p\<in>set (cp_inventory c). in_closure manifest p \<or> po_object_phase p \<noteq> ''pointer''"
proof -
  obtain d manifest protected where d: "one_row (\<lambda>c. cp_identity c = i \<and> cp_complete c) (pt_checkpoints t) = Inr d"
      "generationManifestTx db (cp_generation d) = Inr manifest" "protected_paths db t (cp_target d) manifest = Inr protected"
      "for_each (candidate_step manifest protected (map publicationObjectEvidenceKey (deleted_objects t (cp_target d)))) []
         (sort_key po_object_path (cp_inventory d)) = Inr candidates"
    using assms(1) by (auto simp: exactPublicationCandidatesTx_def and_then_Inr_iff)
  have "d \<in> set (pt_checkpoints t)" "cp_identity d = i" "c \<in> set (pt_checkpoints t)" "cp_identity c = i"
    using one_row_Inr[OF d(1)] one_row_Inr[OF assms(2)[unfolded the_checkpoint_def]] by auto
  then have "d = c" using keyed_unique[OF assms(3), of d c] by simp
  then show thesis using that[OF d(2,3)[unfolded \<open>d = c\<close>]] candidate_steps[OF d(4)] by auto
qed

text \<open>C16. The objects a report may name are exactly the ones nothing refers to any more. Every pointer of
  the inventory is a file of the checkpoint's generation with its bytes, and of the objects the
  candidates are, in path order, those whose path is not in the manifest of that generation, nor in
  any generation the target still needs (its head's, one in grace, one being published), nor in the
  inventory an open attempt is based on, and that were not withdrawn by a verified deletion.\<close>

theorem candidates_unreferenced:
  assumes "exactPublicationCandidatesTx db t i = Inr candidates" and "the_checkpoint t i = Inr c"
    and "distinct (map cp_identity (pt_checkpoints t))"
  shows "\<exists>manifest. generationManifestTx db (cp_generation c) = Inr manifest
    \<and> (\<forall>g. needs_generation t (cp_target c) g \<longrightarrow> (\<exists>files. generationManifestTx db g = Inr files))
    \<and> candidates = filter (\<lambda>p. \<not> referenced db t (cp_target c) manifest (po_object_path p) \<and> \<not> withdrawn t (cp_target c) p)
        (sort_key po_object_path (cp_inventory c))
    \<and> (\<forall>p\<in>set (cp_inventory c). po_object_phase p = ''pointer'' \<longrightarrow>
         (\<exists>f\<in>set manifest. gf_path f = po_object_path p \<and> gf_phase f = ''pointer'' \<and> gf_size f = po_object_size p
            \<and> gf_sha256 f = po_object_sha256 p))"
proof -
  obtain manifest protected where m: "generationManifestTx db (cp_generation c) = Inr manifest"
    "protected_paths db t (cp_target c) manifest = Inr protected"
    "candidates = filter (\<lambda>p. \<not> in_closure manifest p \<and> po_object_path p \<notin> set protected
        \<and> publicationObjectEvidenceKey p \<notin> set (map publicationObjectEvidenceKey (deleted_objects t (cp_target c))))
        (sort_key po_object_path (cp_inventory c))"
    "\<forall>p\<in>set (cp_inventory c). in_closure manifest p \<or> po_object_phase p \<noteq> ''pointer''"
    by (rule exact_candidates[OF assms])
  have "candidates = filter (\<lambda>p. \<not> referenced db t (cp_target c) manifest (po_object_path p) \<and> \<not> withdrawn t (cp_target c) p)
      (sort_key po_object_path (cp_inventory c))"
    unfolding m(3) protected_referenced(1)[OF m(2)] deleted_withdrawn
    by (rule filter_cong[OF refl]) (use in_closure_referenced in blast)
  moreover have "\<exists>f\<in>set manifest. gf_path f = po_object_path p \<and> gf_phase f = ''pointer'' \<and> gf_size f = po_object_size p
      \<and> gf_sha256 f = po_object_sha256 p" if "p \<in> set (cp_inventory c)" "po_object_phase p = ''pointer''" for p
    using in_closure_file[of manifest p] m(4) that by metis
  ultimately show ?thesis using m(1) protected_referenced(2)[OF m(2)] by blast
qed

definition stored_object :: "string \<Rightarrow> PublicationObject" where
  "stored_object path = \<lparr>po_object_path = path, po_object_phase = ''payload'', po_object_size = 3, po_object_sha256 = replicate 64 CHR ''c'',
     po_object_remote = ''etag''\<rparr>"

definition retained_file :: "string \<Rightarrow> GenerationFile" where
  "retained_file path = \<lparr>gf_path = path, gf_phase = ''payload'', gf_size = 3, gf_sha256 = replicate 64 CHR ''c''\<rparr>"

definition retention_db :: database where
  "retention_db = example_database\<lparr>
     db_generations := [\<lparr>gi_generation = 2, gi_previous = 1, gi_operation = ''10'', gi_manifest = '''', gi_renderer = '''', gi_created_at = ''''\<rparr>],
     db_generation_files := [(2, retained_file ''pool/b'')]\<rparr>"

definition retention_checkpoint :: AppliedCheckpoint where
  "retention_checkpoint = \<lparr>cp_identity = ''c2'', cp_schema = 1, cp_repository = '''', cp_target = ''t'', cp_attempt = ''a2'', cp_generation = 2,
     cp_manifest = '''', cp_inventory_identity = '''', cp_complete = True, cp_views = [],
     cp_inventory = [stored_object ''pool/a'', stored_object ''pool/b''], cp_applied_at = zero_time\<rparr>"

definition retention_target :: publication_tables where
  "retention_target = empty_publication\<lparr>pt_checkpoints := [retention_checkpoint],
     pt_heads := [\<lparr>th_target = ''t'', th_checkpoint = Some ''c2'', th_generation = 2, th_manifest = None, th_revision = 1\<rparr>]\<rparr>"

lemma retention_candidates: "exactPublicationCandidatesTx retention_db retention_target ''c2'' = Inr [stored_object ''pool/a'']"
  by code_simp

lemma retention_checkpoint_row: "the_checkpoint retention_target ''c2'' = Inr retention_checkpoint"
  by (simp add: the_checkpoint_def retention_target_def one_row_def retention_checkpoint_def)

theorem candidates_unreferenced_witness:
  "needs_generation retention_target ''t'' 2
   \<and> [stored_object ''pool/a''] = filter (\<lambda>p. \<not> referenced retention_db retention_target ''t'' [retained_file ''pool/b''] (po_object_path p)
        \<and> \<not> withdrawn retention_target ''t'' p) (sort_key po_object_path (cp_inventory retention_checkpoint))"
proof -
  have keyed: "distinct (map cp_identity (pt_checkpoints retention_target))" by (simp add: retention_target_def)
  have row: "cp_generation retention_checkpoint = 2" "cp_target retention_checkpoint = ''t''"
    "generationManifestTx retention_db 2 = Inr [retained_file ''pool/b'']"
    by (simp_all add: retention_checkpoint_def generationManifestTx_def find_generation_def retention_db_def files_of_def)
  have "needs_generation retention_target ''t'' 2"
    by (auto simp: needs_generation_def retention_target_def retention_checkpoint_def)
  then show ?thesis
    using candidates_unreferenced[OF retention_candidates retention_checkpoint_row keyed] unfolding row by auto
qed

end
