(* ===== verification/Publish_Properties.thy ===== *)
theory Publish_Properties
  imports Publish_Workflow Publication_Properties
begin

section \<open>What publishing guarantees\<close>

text \<open>
  The states a publication passes through and what holds in each of them: the contract of a target is
  composed with the plan and with the calls of the store. A crash may happen anywhere, so the states
  are those between two actions and the one in the middle of every upload, whether the run goes on or
  fails there.
\<close>

subsection \<open>The states of a run\<close>

fun passes ::
    "(source_tree \<Rightarrow> PublicationPlanOperation \<Rightarrow> string \<Rightarrow> 'r \<Rightarrow> 'r) \<Rightarrow> 'r publicationBackend \<Rightarrow> source_tree
      \<Rightarrow> (string \<Rightarrow> unit result) \<Rightarrow> string \<Rightarrow> publish_action list \<Rightarrow> 'r world \<Rightarrow> 'r world list" where
  "passes between be source fault i [] w = [w]"
| "passes between be source fault i (x # xs) w =
     w # (case x of Upload q \<Rightarrow> [w\<lparr>w_remote := between source q i (w_remote w)\<rparr>] | _ \<Rightarrow> []) @
     (case run_action be source fault i x w of
        (w', Inl e) \<Rightarrow> [w'] | (w', Inr _) \<Rightarrow> passes between be source fault i xs w')"

fun uploads :: "publish_action list \<Rightarrow> PublicationPlanOperation list" where
  "uploads [] = []"
| "uploads (Upload q # xs) = q # uploads xs"
| "uploads (Record call # xs) = uploads xs"
| "uploads (Fault point # xs) = uploads xs"

fun records :: "publish_action list \<Rightarrow> store_call list" where
  "records [] = []"
| "records (Upload q # xs) = records xs"
| "records (Record call # xs) = call # records xs"
| "records (Fault point # xs) = records xs"

lemma run_actions_simps [simp]:
  "run_actions be source fault i [] w = (w, Inr ())"
  "run_actions be source fault i (x # xs) w =
     do_then (run_action be source fault i x) (\<lambda>_. run_actions be source fault i xs) w"
  by (simp_all add: run_actions_def answer_def)

lemma run_action_simps:
  "run_action be source fault i (Upload q) w =
     (w\<lparr>w_remote := fst (be_put be source q i (w_remote w))\<rparr>, map_sum id (\<lambda>_. ()) (snd (be_put be source q i (w_remote w))))"
  "run_action be source fault i (Record call) w = (w\<lparr>w_tables := fst (call (w_tables w))\<rparr>, snd (call (w_tables w)))"
  "run_action be source fault i (Fault point) w = (w, fault point)"
  by (auto simp: run_action_def on_remote_def on_tables_def do_then_def answer_def split: prod.splits sum.splits)

lemma run_passes: "fst (run_actions be source fault i xs w) \<in> set (passes between be source fault i xs w)"
  by (induction xs arbitrary: w) (auto simp: do_then_def split: prod.splits sum.splits)

lemma run_append:
  "run_actions be source fault i (xs @ ys) w = do_then (run_actions be source fault i xs) (\<lambda>_. run_actions be source fault i ys) w"
  by (induction xs arbitrary: w) (auto simp: do_then_def split: prod.splits sum.splits)

text \<open>A state passed after the first part of a run is passed by the rest, and the first part is done.\<close>

lemma passes_append:
  assumes "v \<in> set (passes between be source fault i (xs @ ys) w)"
  shows "v \<in> set (passes between be source fault i xs w)
    \<or> (\<exists>w1. run_actions be source fault i xs w = (w1, Inr ()) \<and> v \<in> set (passes between be source fault i ys w1))"
  using assms
proof (induction xs arbitrary: w)
  case (Cons x xs)
  show ?case
  proof (cases "run_action be source fault i x w")
    case (Pair w1 res)
    then show ?thesis using Cons.prems Cons.IH[of w1] by (cases res) (auto simp: do_then_def)
  qed
qed simp

lemma uploads_append [simp]: "uploads (xs @ ys) = uploads xs @ uploads ys"
  by (induction xs rule: uploads.induct) simp_all

lemma uploads_map [simp]: "uploads (map Upload qs) = qs" "uploads (view_actions i state views) = []"
  by (induction qs) (simp_all, induction views, simp_all add: view_actions_def)

lemma uploads_pointers [simp]: "uploads (concat (map (pointer_actions i view) qs)) = qs"
  by (induction qs) (simp_all add: pointer_actions_def)

lemma uploads_units [simp]:
  "uploads (concat (map (\<lambda>unit. concat (map (pointer_actions i (cu_view_id unit)) (cu_pointers unit))) units))
     = concat (map cu_pointers units)"
  by (induction units) simp_all

lemma plan_uploads:
  "uploads (prepare_actions i plan views) = pp_payload plan @ pp_immutable_metadata plan"
  "uploads (commit_actions i plan) = pp_stable_aliases plan @ pointer_operations plan"
  by (simp_all add: prepare_actions_def commit_actions_def)

lemma records_append [simp]: "records (xs @ ys) = records xs @ records ys"
  by (induction xs rule: records.induct) simp_all

lemma records_map [simp]: "records (map Upload qs) = []"
  by (induction qs) simp_all

subsection \<open>What writing does to a target\<close>

text \<open>Outside the stages, an object is the old one or what one of the operations has written.\<close>

definition grown ::
    "string set \<Rightarrow> PublicationPlanOperation set \<Rightarrow> (string \<rightharpoonup> publicationRemoteObject) \<Rightarrow> (string \<rightharpoonup> publicationRemoteObject) \<Rightarrow> bool" where
  "grown S Q m m' \<longleftrightarrow> (\<forall>p. p \<notin> S \<longrightarrow> m' p = m p \<or> (\<exists>q\<in>Q. po_path q = p \<and> (\<exists>o'. m' p = Some o' \<and> holds q o')))"

lemma grown_refl: "grown S Q m m"
  by (simp add: grown_def)

lemma grown_trans: "grown S Q m m1 \<Longrightarrow> grown S R m1 m' \<Longrightarrow> Q \<subseteq> T \<Longrightarrow> R \<subseteq> T \<Longrightarrow> grown S T m m'"
  unfolding grown_def by (metis subset_iff)

lemma grown_mono: "grown S Q m m' \<Longrightarrow> Q \<subseteq> T \<Longrightarrow> grown S T m m'"
  by (auto simp: grown_def)

lemma grown_kept:
  assumes "grown S Q m m'" and "p \<notin> S" and "m p = Some o'" "holds q o'"
    and "\<And>r. r \<in> Q \<Longrightarrow> po_path r = p \<Longrightarrow> r = q"
  shows "\<exists>o'. m' p = Some o' \<and> holds q o'"
  using assms unfolding grown_def by metis

lemma grown_elsewhere: "grown S Q m m' \<Longrightarrow> p \<notin> S \<Longrightarrow> p \<notin> po_path ` Q \<Longrightarrow> m' p = m p"
  by (auto simp: grown_def)

context publication_target
begin

lemma put_grown:
  assumes "fits q i" "stage q i \<in> S" "q \<in> Q"
  shows "grown S Q (view r) (view (fst (be_put be source q i r)))"
  unfolding grown_def using put_elsewhere[OF assms(1)] put_path[OF assms(1)] assms(2,3) by metis

lemma between_grown:
  assumes "fits q i" "stage q i \<in> S"
  shows "grown S Q (view r) (view (between source q i r))"
  unfolding grown_def using put_between[OF assms(1)] assms(2) by metis

lemma action_grown:
  assumes "\<forall>q\<in>set (uploads [x]). fits q i \<and> stage q i \<in> S"
  shows "grown S (set (uploads [x])) (view (w_remote w)) (view (w_remote (fst (run_action be source fault i x w))))"
  using assms by (cases x) (auto simp: run_action_simps grown_refl intro: put_grown)

lemma passes_grown:
  assumes "\<forall>q\<in>set (uploads xs). fits q i \<and> stage q i \<in> S" and "v \<in> set (passes between be source fault i xs w)"
  shows "grown S (set (uploads xs)) (view (w_remote w)) (view (w_remote v))"
  using assms
proof (induction xs arbitrary: w)
  case Nil
  then show ?case by (simp add: grown_refl)
next
  case (Cons x xs)
  have ops: "set (uploads (x # xs)) = set (uploads [x]) \<union> set (uploads xs)" using uploads_append[of "[x]" xs] by simp
  obtain w1 res where run: "run_action be source fault i x w = (w1, res)" by (cases "run_action be source fault i x w")
  have step: "grown S (set (uploads [x])) (view (w_remote w)) (view (w_remote w1))"
    using action_grown[of x i S w source fault] Cons.prems(1) ops run by simp
  consider "v = w" | q where "x = Upload q" "v = w\<lparr>w_remote := between source q i (w_remote w)\<rparr>" | "v = w1"
    | "v \<in> set (passes between be source fault i xs w1)"
    using Cons.prems(2) run by (cases x; cases res) auto
  then show ?case
  proof cases
    case 2
    then show ?thesis using between_grown[of q i S] Cons.prems(1) by simp
  next
    case 3
    then show ?thesis using grown_mono[OF step] ops by simp
  next
    case 4
    have "grown S (set (uploads xs)) (view (w_remote w1)) (view (w_remote v))"
      using Cons.IH[OF _ 4] Cons.prems(1) ops by simp
    then show ?thesis using grown_trans[OF step] ops by simp
  qed (simp add: grown_refl)
qed

text \<open>When a run is through, every upload of it is in place, even if the run is followed by others.\<close>

lemma run_uploads:
  assumes "\<forall>q\<in>set (uploads xs). fits q i \<and> stage q i \<in> S \<and> po_path q \<notin> S" and "distinct (map po_path (uploads xs))"
    and "run_actions be source fault i xs w = (w', Inr u)" and "q \<in> set (uploads xs)"
  shows "\<exists>o'. view (w_remote w') (po_path q) = Some o' \<and> holds q o'"
  using assms
proof (induction xs arbitrary: w)
  case (Cons x xs)
  have split: "uploads (x # xs) = uploads [x] @ uploads xs" using uploads_append[of "[x]" xs] by simp
  obtain w1 where run: "run_action be source fault i x w = (w1, Inr ())" "run_actions be source fault i xs w1 = (w', Inr u)"
    using Cons.prems(3) by (auto simp: do_then_Inr)
  show ?case
  proof (cases "q \<in> set (uploads xs)")
    case True
    then show ?thesis using Cons.IH[OF _ _ run(2)] Cons.prems(1,2) by (simp add: split)
  next
    case False
    then have x: "x = Upload q" using Cons.prems(4) by (cases x) auto
    obtain r1 res where put: "be_put be source q i (w_remote w) = (r1, res)" by (cases "be_put be source q i (w_remote w)")
    then have "w1 = w\<lparr>w_remote := r1\<rparr>" "map_sum id (\<lambda>_. ()) res = Inr ()" using run(1) x by (auto simp: run_action_simps)
    then obtain id where "be_put be source q i (w_remote w) = (w_remote w1, Inr id)" using put by (cases res) auto
    moreover have "fits q i" using Cons.prems(1) x by simp
    ultimately obtain o' where o': "view (w_remote w1) (po_path q) = Some o'" "holds q o'" by (blast dest: put_done)
    have "w' \<in> set (passes between be source fault i xs w1)" using run_passes[of be source fault i xs w1 between] run(2) by simp
    then have grown: "grown S (set (uploads xs)) (view (w_remote w1)) (view (w_remote w'))"
      using Cons.prems(1) by (intro passes_grown) (auto simp: split)
    show ?thesis
    proof (rule grown_kept[OF grown _ o'])
      show "po_path q \<notin> S" using Cons.prems(1) x by simp
      show "r = q" if "r \<in> set (uploads xs)" "po_path r = po_path q" for r
        using Cons.prems(2) that x by (auto simp: image_iff)
    qed
  qed
qed simp

end

context publication_target
begin

text \<open>A listing that mixes the old inventory and the new generation keeps doing so.\<close>

lemma recoverable_kept:
  assumes "be_list be stages r = Inr remote" and "requireRecoverableRemoteInventory remote base target = Inr u"
    and "grown (set stages) Q (view r) (view r')"
    and "\<And>q. q \<in> Q \<Longrightarrow> po_path q \<notin> set stages \<Longrightarrow> operation_effect q \<noteq> None \<and> operation_effect q = fileByPath target (po_path q)"
    and "be_list be stages r' = Inr remote'"
  shows "requireRecoverableRemoteInventory remote' base target = Inr ()"
proof -
  note old = assms(2)[unfolded recoverable_inventory_iff]
  have "prior_match base o' \<or> content_match target o'" if o': "o' \<in> set remote'" for o'
  proof -
    have at: "view r' (ro_path o') = Some o'" "ro_path o' \<notin> set stages" using o' list_member[OF assms(5)] by auto
    show ?thesis
    proof (cases "view r (ro_path o') = Some o'")
      case True
      then have "o' \<in> set remote" using list_member[OF assms(1)] at(2) by simp
      then show ?thesis using old by blast
    next
      case False
      then have "view r' (ro_path o') \<noteq> view r (ro_path o')" using at(1) by auto
      then obtain q where q: "q \<in> Q" "po_path q = ro_path o'" "holds q o'"
        using assms(3) at unfolding grown_def by (metis option.inject)
      then obtain f where "operation_effect q = Some f" "fileByPath target (ro_path o') = Some f"
        using assms(4)[OF q(1)] at(2) q(2) by (cases "operation_effect q") auto
      then show ?thesis using q(3)
        by (auto simp: content_match_def same_content_def holds_def fileByPath_def index_by_def operation_effect_def split: if_splits)
    qed
  qed
  moreover have "po_object_path ` set base \<subseteq> ro_path ` set remote'"
  proof
    fix p assume "p \<in> po_object_path ` set base"
    then have "p \<in> ro_path ` set remote" using old by blast
    then have "p \<notin> set stages" "view r p \<noteq> None" using list_member[OF assms(1)] by auto
    then have "view r' p \<noteq> None" using assms(3) unfolding grown_def by fastforce
    then obtain o' where o': "view r' p = Some o'" by auto
    then have "index_by ro_path remote' p = Some o'" using list_view[OF assms(5), of p] \<open>p \<notin> set stages\<close> by simp
    then show "p \<in> ro_path ` set remote'" using index_by_Some by force
  qed
  ultimately show ?thesis by (simp add: recoverable_inventory_iff)
qed

text \<open>A run that only creates loses nothing.\<close>

lemma action_creates:
  assumes "\<forall>q\<in>set (uploads [x]). fits q i \<and> stage q i \<in> S \<and> po_operation q = ''add''"
    and "p \<notin> S" "view (w_remote w) p = Some o'"
  shows "view (w_remote (fst (run_action be source fault i x w))) p = Some o'"
proof (cases x)
  case (Upload q)
  then show ?thesis
    using assms put_elsewhere[of q i p source "w_remote w"] put_create[of q i "w_remote w" o' source]
    by (cases "p = po_path q") (auto simp: run_action_simps)
qed (use assms in \<open>simp_all add: run_action_simps\<close>)

lemma passes_create:
  assumes "\<forall>q\<in>set (uploads xs). fits q i \<and> stage q i \<in> S \<and> po_operation q = ''add''"
    and "v \<in> set (passes between be source fault i xs w)" and "p \<notin> S" "view (w_remote w) p = Some o'"
  shows "view (w_remote v) p = Some o'"
  using assms
proof (induction xs arbitrary: w)
  case (Cons x xs)
  have split: "uploads (x # xs) = uploads [x] @ uploads xs" using uploads_append[of "[x]" xs] by simp
  obtain w1 res where run: "run_action be source fault i x w = (w1, res)" by (cases "run_action be source fault i x w")
  have step: "view (w_remote w1) p = Some o'"
    using action_creates[of x i S p w o' source fault] Cons.prems run by (simp add: split)
  consider "v = w" | q where "x = Upload q" "v = w\<lparr>w_remote := between source q i (w_remote w)\<rparr>" | "v = w1"
    | "v \<in> set (passes between be source fault i xs w1)"
    using Cons.prems(2) run by (cases x; cases res) auto
  then show ?case
  proof cases
    case 2
    then show ?thesis using Cons.prems put_between[of q i p source "w_remote w"] by auto
  next
    case 4
    then show ?thesis using Cons.IH[OF _ 4] Cons.prems(1,3) step by (simp add: split)
  qed (use step Cons.prems(4) in simp_all)
qed simp

text \<open>What the first part of a run has written is not touched by the rest of it.\<close>

lemma first_part:
  assumes "\<forall>q\<in>set (uploads (xs @ ys)). fits q i \<and> stage q i \<in> S \<and> po_path q \<notin> S" and "distinct (map po_path (uploads (xs @ ys)))"
    and "run_actions be source fault i xs w = (w1, Inr u)" and "v \<in> set (passes between be source fault i ys w1)"
    and "q \<in> set (uploads xs)"
  shows "\<exists>o'. view (w_remote v) (po_path q) = Some o' \<and> holds q o'"
proof -
  have there: "\<exists>o'. view (w_remote w1) (po_path q) = Some o' \<and> holds q o'"
    using run_uploads[of xs i S source fault w w1 u q] assms by simp
  have "grown S (set (uploads ys)) (view (w_remote w1)) (view (w_remote v))"
    using passes_grown[OF _ assms(4), of S] assms(1) by simp
  moreover have "po_path q \<notin> po_path ` set (uploads ys)" "po_path q \<notin> S" using assms(1,2,5) by auto
  ultimately show ?thesis using there grown_elsewhere by metis
qed

text \<open>An object that only the rest of a run names changes after the first part is through.\<close>

lemma changed_after:
  assumes fits: "\<forall>q\<in>set (uploads (xs @ ys)). fits q i \<and> stage q i \<in> S \<and> po_path q \<notin> S" and "distinct (map po_path (uploads (xs @ ys)))"
    and v: "v \<in> set (passes between be source fault i (xs @ ys) w)"
    and p: "p \<notin> S" "p \<notin> po_path ` set (uploads xs)" and changed: "view (w_remote v) p \<noteq> view (w_remote w) p"
  shows "\<exists>w1. run_actions be source fault i xs w = (w1, Inr ()) \<and> v \<in> set (passes between be source fault i ys w1)
    \<and> view (w_remote v) p \<noteq> view (w_remote w1) p
    \<and> (\<forall>q\<in>set (uploads xs). \<exists>o'. view (w_remote v) (po_path q) = Some o' \<and> holds q o')"
proof -
  have same: "view (w_remote x) p = view (w_remote w) p" if "x \<in> set (passes between be source fault i xs w)" for x
    by (rule grown_elsewhere[OF passes_grown[OF _ that] p]) (use fits in simp)
  then have "v \<notin> set (passes between be source fault i xs w)" using changed by blast
  then obtain w1 where w1: "run_actions be source fault i xs w = (w1, Inr ())" "v \<in> set (passes between be source fault i ys w1)"
    using passes_append[OF v] by blast
  have "view (w_remote w1) p = view (w_remote w) p" using same run_passes[of be source fault i xs w between] w1(1) by simp
  then show ?thesis using w1 changed first_part[OF fits assms(2) w1] by metis
qed

end

subsection \<open>What the calls do to the tables\<close>

definition committed :: "publication_tables \<Rightarrow> string \<Rightarrow> bool" where
  "committed t i \<longleftrightarrow> (\<exists>a\<in>set (pt_attempts t). at_identity a = i \<and> at_commit a)"

lemma committed_step:
  assumes ok: "publication_ok t" and step: "publication_step t t'" and "committed t i"
  shows "committed t' i"
proof -
  obtain a where a: "a \<in> set (pt_attempts t)" "at_identity a = i" "at_commit a" using assms(3) by (auto simp: committed_def)
  have keyed: "distinct (map at_identity (pt_attempts t))" using publication_okD(1)[OF ok] by (simp add: tables_keyed_def)
  have fit: "attempt_ok x" if "x \<in> set (pt_attempts t)" for x using publication_okD(2)[OF ok] that by (simp add: attempts_fit_def)
  have row: "committed t' i" if "x \<in> set (pt_attempts t)" "pt_attempts t' = replaced x y (pt_attempts t)"
      "at_identity y = at_identity x" "at_commit x \<longrightarrow> at_commit y" for x y
    using that a replaced_set[OF keyed that(1), of _ y] unfolding committed_def by (cases "x = a") auto
  from publication_step_moves[OF step ok] consider "pt_attempts t' = pt_attempts t"
    | x y where "x \<in> set (pt_attempts t)" "attempt_move x y" "pt_attempts t' = replaced x y (pt_attempts t)"
    | n where "pt_attempts t' = pt_attempts t @ [n]"
    | x y where "x \<in> set (pt_attempts t)" "at_phase x = PhaseAbandoned" "same_plan x y" "pt_attempts t' = replaced x y (pt_attempts t)"
    unfolding call_moves_def attempts_move_def attempts_planned_def by blast
  then show ?thesis
  proof cases
    case 2
    have "at_commit y" if "at_commit x"
      using 2(2)
    proof cases
      case (phase p)
      have "4 \<le> publicationPhaseRank (at_phase x)" using attempt_ok_phase[OF fit[OF 2(1)]] that by simp
      then have "4 \<le> publicationPhaseRank p" using phase(2) by (auto simp: phase_can_def)
      then show ?thesis using phase(1) by simp
    qed (use that in simp)
    then show ?thesis using row[OF 2(1,3)] attempt_move_plan[OF 2(2)] same_plan_fields(1) by blast
  next
    case 4
    then show ?thesis using row[OF 4(1,4)] same_plan_fields(1)[OF 4(3)] attempt_ok_phase[OF fit[OF 4(1)]] by simp
  qed (use a in \<open>auto simp: committed_def\<close>)
qed

lemma commit_recorded:
  assumes ok: "publication_ok t" and "SetPublicationCommitIntent i t = (t', Inr u)"
  shows "committed t' i"
proof -
  have step: "commit_intent_tx i t = Inr (t', ())"
    using assms(2) by (auto simp: SetPublicationCommitIntent_def publication_tx_def split: if_splits sum.splits)
  then obtain a where a: "the_attempt t i = Inr a" by (auto simp: commit_intent_tx_def and_then_Inr_iff)
  note row = ok_attempt[OF ok a]
  have "t' = t \<and> at_commit a
      \<or> t' = t\<lparr>pt_attempts := replaced a (a\<lparr>at_phase := PhaseCommitIntent, at_commit := True\<rparr>) (pt_attempts t)\<rparr>"
    using step a row(5) by (auto simp: commit_intent_tx_def split: if_splits)
  then show ?thesis
  proof
    assume t': "t' = t\<lparr>pt_attempts := replaced a (a\<lparr>at_phase := PhaseCommitIntent, at_commit := True\<rparr>) (pt_attempts t)\<rparr>"
    have "a\<lparr>at_phase := PhaseCommitIntent, at_commit := True\<rparr> \<in> set (pt_attempts t')"
      unfolding t' using row(1) by (auto simp: replaced_def)
    then show ?thesis using row(2) by (auto simp: committed_def intro: bexI[rotated])
  qed (use row(1,2) in \<open>auto simp: committed_def\<close>)
qed

definition steps_only :: "store_call list \<Rightarrow> bool" where
  "steps_only calls \<longleftrightarrow> (\<forall>c\<in>set calls. \<forall>u. publication_step u (fst (c u)))"

lemma view_actions_steps: "c \<in> set (records (view_actions i state views)) \<Longrightarrow> publication_step u (fst (c u))"
  by (induction views) (auto simp: view_actions_def intro: publication_step.view)

lemma pointer_actions_steps: "c \<in> set (records (concat (map (pointer_actions i view) qs))) \<Longrightarrow> publication_step u (fst (c u))"
  by (induction qs) (auto simp: pointer_actions_def intro: publication_step.view)

lemma actions_steps:
  "steps_only (records (prepare_actions i plan views))" "steps_only (records (commit_actions i plan))"
  "steps_only (records (verify_actions i views))"
proof -
  have units: "c \<in> set (records (concat (map (\<lambda>unit. concat (map (pointer_actions i (cu_view_id unit)) (cu_pointers unit))) units)))
      \<Longrightarrow> publication_step u (fst (c u))" for c u units
    by (induction units) (auto dest: pointer_actions_steps)
  show "steps_only (records (prepare_actions i plan views))" "steps_only (records (commit_actions i plan))"
    "steps_only (records (verify_actions i views))"
    unfolding steps_only_def prepare_actions_def commit_actions_def verify_actions_def
    by (auto dest: view_actions_steps units intro: publication_step.advance publication_step.commit)
qed

lemma action_tables:
  "w_tables (fst (run_action be source fault i x w)) = (case x of Record c \<Rightarrow> fst (c (w_tables w)) | _ \<Rightarrow> w_tables w)"
  by (cases x) (simp_all add: run_action_simps)

lemma passes_tables:
  assumes "steps_only (records xs)" and "v \<in> set (passes between be source fault i xs w)" and "publication_reachable (w_tables w)"
  shows "publication_reachable (w_tables v) \<and> (committed (w_tables w) j \<longrightarrow> committed (w_tables v) j)"
  using assms
proof (induction xs arbitrary: w)
  case (Cons x xs)
  have split: "records (x # xs) = records [x] @ records xs" using records_append[of "[x]" xs] by simp
  obtain w1 res where run: "run_action be source fault i x w = (w1, res)" by (cases "run_action be source fault i x w")
  have step: "w_tables w1 = w_tables w \<or> publication_step (w_tables w) (w_tables w1)"
    using action_tables[of be source fault i x w] Cons.prems(1) run by (cases x) (auto simp: steps_only_def)
  have reach: "publication_reachable (w_tables w1)" using step Cons.prems(3) publication_reachable.further by metis
  have stays: "committed (w_tables w) j \<longrightarrow> committed (w_tables w1) j"
    using step committed_step publication_reachable_ok[OF Cons.prems(3)] by metis
  consider "v = w" | q where "v = w\<lparr>w_remote := between source q i (w_remote w)\<rparr>" | "v = w1"
    | "v \<in> set (passes between be source fault i xs w1)"
    using Cons.prems(2) run by (cases x; cases res) auto
  then show ?case
  proof cases
    case 4
    then show ?thesis using Cons.IH[OF _ 4 reach] Cons.prems(1) stays by (auto simp: steps_only_def split)
  qed (use reach stays Cons.prems(3) in auto)
qed simp

subsection \<open>The writes of a plan\<close>

abbreviation write_operations :: "PublicationPlan \<Rightarrow> PublicationPlanOperation list" where
  "write_operations plan \<equiv> content_operations plan @ pointer_operations plan"

text \<open>Every path is clean, has a directory, and is not named like a stage.\<close>

definition plain_path :: "string \<Rightarrow> bool" where
  "plain_path p \<longleftrightarrow> below p \<and> slash \<in> set p \<and> \<not> HasPrefix (last (Split p slash)) ''.sow-publish-''"

definition writes_plain :: "PublicationPlan \<Rightarrow> bool" where
  "writes_plain plan \<longleftrightarrow> (\<forall>q\<in>set (write_operations plan). plain_path (po_path q))"

abbreviation plan_stages :: "PublicationPlan \<Rightarrow> string \<Rightarrow> string list" where
  "plan_stages plan i \<equiv> publicationStagePaths plan i True"

lemma plain_not_stage:
  assumes "plain_path p" and "plain_path p'" and "validSHA256Text i"
  shows "p \<noteq> filesystemStagePath p' i"
proof
  assume stage: "p = filesystemStagePath p' i"
  obtain d where "filesystemStagePath p' i = d @ slash # stage_name p' i"
    using stage_path(3)[of p' i] assms(2,3) by (auto simp: plain_path_def)
  then have "Split p slash = Split d slash @ [stage_name p' i]"
    using stage Split_snoc[of slash "stage_name p' i" d] stage_name_plain(1)[OF assms(3), of p'] by simp
  then have "\<not> HasPrefix (stage_name p' i) ''.sow-publish-''" using assms(1) by (simp add: plain_path_def)
  then show False by (simp add: stage_name_def)
qed

lemma plain_fits: "plain_path (po_path q) \<Longrightarrow> validSHA256Text i \<Longrightarrow> op_fits q i"
  using plain_not_stage[of "po_path q" "po_path q" i] by (auto simp: op_fits_def plain_path_def)

lemma write_facts:
  assumes plan: "buildPublicationPlan input legacy = Inr plan"
  shows "distinct (map po_path (write_operations plan))"
    and "q \<in> set (write_operations plan) \<Longrightarrow> po_operation q = ''add'' \<or> po_operation q = ''update''"
    and "q \<in> set (write_operations plan) \<Longrightarrow> operation_effect q \<noteq> None
      \<and> operation_effect q = fileByPath (pi_target_manifest input) (po_path q)"
proof -
  note ops = plan_operation_paths[OF plan]
  have "plan_operations plan = write_operations plan @ pp_delete_candidates plan" by (simp add: plan_operations_split)
  then show "distinct (map po_path (write_operations plan))" using ops(1) by (simp only: map_append distinct_append)
  assume q: "q \<in> set (write_operations plan)"
  then have in_plan: "q \<in> set (plan_operations plan)" by (auto simp: plan_operations_split)
  have "po_phase q \<noteq> ''delete''" using q plan_phases[OF plan] by auto
  then have kept: "po_operation q \<noteq> ''delete''" using plan_operation_deletes[OF plan in_plan] by simp
  obtain c where c: "c \<in> set (DiffManifests (pi_base_manifest input) (pi_target_manifest input))"
      "po_operation q = fc_operation c" "po_path q = fc_path c"
    using plan_operation_change[OF plan in_plan] by metis
  from c(1) have "fc_operation c = ''add'' \<or> fc_operation c = ''update'' \<or> fc_operation c = ''delete''"
    by (cases rule: DiffManifests_cases) (metis FileChange.select_convs(1) change_of_def delete_of_def)+
  then show "po_operation q = ''add'' \<or> po_operation q = ''update''" using c(2) kept by simp
  show "operation_effect q \<noteq> None \<and> operation_effect q = fileByPath (pi_target_manifest input) (po_path q)"
    using bspec[OF ops(2) in_plan] kept unfolding operation_effect_def[of q] by (metis option.distinct(1))
qed

lemma write_file:
  assumes "buildPublicationPlan input legacy = Inr plan" "q \<in> set (write_operations plan)"
  shows "fileByPath (pi_target_manifest input) (po_path q) =
    Some \<lparr>gf_path = po_path q, gf_phase = po_phase q, gf_size = po_size q, gf_sha256 = po_sha256 q\<rparr>"
  using write_facts(2,3)[OF assms] by (auto simp: operation_effect_def)

lemma plan_stage_known:
  assumes "buildPublicationPlan input legacy = Inr plan" "q \<in> set (write_operations plan)" "validSHA256Text i"
  shows "filesystemStagePath (po_path q) i \<in> set (plan_stages plan i)"
proof -
  have "length i = 64" using assms(3) by (auto simp: validSHA256Text_def)
  then show ?thesis
    using assms(2) write_facts(2)[OF assms(1,2)] by (auto simp: publicationStagePaths_def image_iff)
qed

lemma plan_stage_plain:
  assumes "writes_plain plan" "validSHA256Text i" "plain_path p"
  shows "p \<notin> set (plan_stages plan i)"
  using assms plain_not_stage[of p] by (auto simp: publicationStagePaths_def writes_plain_def)

text \<open>All that the lemmas on targets ask of the uploads of a plan.\<close>

lemma plan_writes_fit:
  assumes "buildPublicationPlan input legacy = Inr plan" "writes_plain plan" "validSHA256Text i" "q \<in> set (write_operations plan)"
  shows "op_fits q i" "filesystemStagePath (po_path q) i \<in> set (plan_stages plan i)" "po_path q \<notin> set (plan_stages plan i)"
proof -
  have plain: "plain_path (po_path q)" using assms(2,4) by (simp add: writes_plain_def)
  show "op_fits q i" by (rule plain_fits[OF plain assms(3)])
  show "filesystemStagePath (po_path q) i \<in> set (plan_stages plan i)" by (rule plan_stage_known[OF assms(1,4,3)])
  show "po_path q \<notin> set (plan_stages plan i)" by (rule plan_stage_plain[OF assms(2,3) plain])
qed

lemma action_uploads:
  "uploads (prepare_actions i plan views @ commit_actions i plan) = write_operations plan"
  by (simp add: plan_uploads)

abbreviation tree_passes where
  "tree_passes \<equiv> passes (\<lambda>source q a r. fst (put_prepare source q a r))"

lemma distinct_apart: "distinct (map f (xs @ ys)) \<Longrightarrow> y \<in> set ys \<Longrightarrow> f y \<notin> f ` set xs"
  by auto

lemma tree_view_at: "tree_view r p = tree_view r' p \<longleftrightarrow> tree_at r p = tree_at r' p"
proof -
  have "f = g" if "tree_object p f = tree_object p g" for f g
    using that by (cases f; cases g) (simp add: tree_object_def)
  then show ?thesis by (cases "tree_at r p"; cases "tree_at r' p") (auto simp: tree_view_def)
qed

subsection \<open>A crash is recoverable\<close>

text \<open>C7. A publication can be interrupted anywhere. In every state it passes through, in the middle of
  an upload and after a failure too, the directory tree holds what \<open>Publish\<close> requires to take the
  attempt up again: every object is one of the old inventory or one of the new generation, and no
  object of the old inventory is missing.\<close>

theorem publish_interrupted_recoverable:
  assumes "buildPublicationPlan input legacy = Inr plan" and "writes_plain plan" and "validSHA256Text i"
    and "tree_List (plan_stages plan i) (w_remote w) = Inr remote"
    and "requireRecoverableRemoteInventory remote base (pi_target_manifest input) = Inr ()"
    and "v \<in> set (tree_passes (filesystem_backend http absent) source fault i
           (prepare_actions i plan views @ commit_actions i plan) w)"
    and "tree_List (plan_stages plan i) (w_remote v) = Inr remote'"
  shows "requireRecoverableRemoteInventory remote' base (pi_target_manifest input) = Inr ()"
proof -
  note fits = plan_writes_fit[OF assms(1-3)]
  have list: "be_list (filesystem_backend http absent) = tree_List" by (simp add: filesystem_backend_def)
  have "grown (set (plan_stages plan i)) (set (write_operations plan)) (tree_view (w_remote w)) (tree_view (w_remote v))"
    using filesystem_target.passes_grown[OF _ assms(6), of "set (plan_stages plan i)"] fits(1,2) unfolding action_uploads by blast
  then show ?thesis
    using filesystem_target.recoverable_kept[of http absent "plan_stages plan i" "w_remote w" remote base]
      assms(4,5,7) write_facts(3)[OF assms(1)] unfolding list by blast
qed

text \<open>C4. Readers never see an index before what it points to. Whatever state a publication passes
  through, once one of the mutable names (an alias or a pointer) differs from the start, every payload
  and metadata object of the plan is in place and the commit intent of the attempt is recorded; once a
  pointer differs, the aliases are in place as well.\<close>

theorem publish_readers_consistent:
  assumes "publication_reachable (w_tables w)"
    and "buildPublicationPlan input legacy = Inr plan" and "writes_plain plan" and "validSHA256Text i"
    and "v \<in> set (tree_passes (filesystem_backend http absent) source fault i
           (prepare_actions i plan views @ commit_actions i plan) w)"
    and "q \<in> set (pp_stable_aliases plan @ pointer_operations plan)"
    and "tree_at (w_remote v) (po_path q) \<noteq> tree_at (w_remote w) (po_path q)"
  shows "committed (w_tables v) i
    \<and> (\<forall>p\<in>set (pp_payload plan @ pp_immutable_metadata plan). tree_at (w_remote v) (po_path p) = Some (operation_file p))
    \<and> (q \<in> set (pointer_operations plan) \<longrightarrow>
         (\<forall>p\<in>set (pp_stable_aliases plan). tree_at (w_remote v) (po_path p) = Some (operation_file p)))"
proof -
  let ?S = "set (plan_stages plan i)" and ?be = "filesystem_backend http absent"
  let ?prepare = "prepare_actions i plan views" and ?intent = "[Record (SetPublicationCommitIntent i)]"
  let ?aliases = "Fault ''publish.commit_intent'' # map Upload (pp_stable_aliases plan)"
  let ?pointers = "concat (map (\<lambda>unit. concat (map (pointer_actions i (cu_view_id unit)) (cu_pointers unit))) (pp_commit_units plan))
      @ [Record (AdvancePublicationAttemptPhase i ''pointer_rollforward'')]"
  let ?in_place = "\<lambda>p. tree_at (w_remote v) (po_path p) = Some (operation_file p)"
  have parts: "?prepare @ commit_actions i plan = ?prepare @ ?intent @ ?aliases @ ?pointers"
    by (simp add: commit_actions_def)
  have ups: "uploads ?prepare = pp_payload plan @ pp_immutable_metadata plan" "uploads ?aliases = pp_stable_aliases plan"
      "uploads ?intent = []" "uploads ?pointers = pointer_operations plan"
    by (simp_all add: plan_uploads)
  have fits: "op_fits p i \<and> filesystemStagePath (po_path p) i \<in> ?S \<and> po_path p \<notin> ?S" if "p \<in> set (write_operations plan)" for p
    using plan_writes_fit[OF assms(2-4) that] by blast
  have distinct: "distinct (map po_path (write_operations plan))" by (rule write_facts(1)[OF assms(2)])
  have q: "q \<in> set (write_operations plan)" using assms(6) by auto
  have away: "po_path q \<notin> ?S" "po_path q \<notin> po_path ` set (uploads ?prepare)" "po_path q \<notin> po_path ` set (uploads ?intent)"
    using fits[OF q] distinct_apart[of po_path "pp_payload plan @ pp_immutable_metadata plan", OF _ assms(6)] distinct
    by (simp_all add: ups)
  have moved: "tree_view (w_remote v) (po_path q) \<noteq> tree_view (w_remote w) (po_path q)"
    using assms(7) by (simp add: tree_view_at)
  have place: "?in_place p" if "tree_view (w_remote v) (po_path p) = Some o'" "holds p o'" for p o'
    using that by (auto simp: tree_view_def)
  note after = filesystem_target.changed_after[where S = ?S and http = http and absent = absent and p = "po_path q"]
  have all: "\<forall>p\<in>set (uploads (?prepare @ ?intent @ ?aliases @ ?pointers)). op_fits p i \<and> filesystemStagePath (po_path p) i \<in> ?S \<and> po_path p \<notin> ?S"
      "distinct (map po_path (uploads (?prepare @ ?intent @ ?aliases @ ?pointers)))"
    using fits distinct unfolding uploads_append ups by simp_all
  then have all2: "\<forall>p\<in>set (uploads (?intent @ ?aliases @ ?pointers)). op_fits p i \<and> filesystemStagePath (po_path p) i \<in> ?S \<and> po_path p \<notin> ?S"
      "distinct (map po_path (uploads (?intent @ ?aliases @ ?pointers)))"
    unfolding uploads_append by simp_all
  then have all3: "\<forall>p\<in>set (uploads (?aliases @ ?pointers)). op_fits p i \<and> filesystemStagePath (po_path p) i \<in> ?S \<and> po_path p \<notin> ?S"
      "distinct (map po_path (uploads (?aliases @ ?pointers)))"
    unfolding uploads_append by simp_all
  obtain w1 where w1: "run_actions ?be source fault i ?prepare w = (w1, Inr ())"
      "v \<in> set (tree_passes ?be source fault i (?intent @ ?aliases @ ?pointers) w1)"
      "tree_view (w_remote v) (po_path q) \<noteq> tree_view (w_remote w1) (po_path q)"
      "\<forall>p\<in>set (uploads ?prepare). \<exists>o'. tree_view (w_remote v) (po_path p) = Some o' \<and> holds p o'"
    using after[OF all assms(5)[unfolded parts] away(1,2) moved] by (elim exE conjE) (rule that)
  obtain w2 where w2: "run_actions ?be source fault i ?intent w1 = (w2, Inr ())"
      "v \<in> set (tree_passes ?be source fault i (?aliases @ ?pointers) w2)"
      "tree_view (w_remote v) (po_path q) \<noteq> tree_view (w_remote w2) (po_path q)"
    using after[OF all2 w1(2) away(1,3) w1(3)] by (elim exE conjE) (rule that)
  have w1_reach: "publication_reachable (w_tables w1)"
    using passes_tables[OF actions_steps(1) _ assms(1)] run_passes[of ?be source fault i ?prepare w] w1(1) by fastforce
  have "SetPublicationCommitIntent i (w_tables w1) = (w_tables w2, Inr ())"
    using w2(1) by (auto simp: run_action_simps do_then_Inr answer_def intro: prod_eqI)
  then have w2_commit: "committed (w_tables w2) i" "publication_reachable (w_tables w2)"
    using commit_recorded[OF publication_reachable_ok[OF w1_reach]]
      publication_reachable.further[OF w1_reach publication_step.commit[of "w_tables w1" i]] by auto
  have "steps_only (records (?aliases @ ?pointers))"
    using actions_steps(2)[of i plan] by (simp add: commit_actions_def steps_only_def)
  then have "committed (w_tables v) i" using passes_tables[OF _ w2(2) w2_commit(2)] w2_commit(1) by blast
  moreover have "?in_place p" if "p \<in> set (pp_payload plan @ pp_immutable_metadata plan)" for p
    using w1(4) that place unfolding ups by blast
  moreover have "?in_place p" if "q \<in> set (pointer_operations plan)" "p \<in> set (pp_stable_aliases plan)" for p
  proof -
    have "distinct (map po_path (pp_stable_aliases plan @ pointer_operations plan))"
      using distinct by (simp only: map_append distinct_append append_assoc)
    from distinct_apart[OF this that(1)] have "po_path q \<notin> po_path ` set (uploads ?aliases)" unfolding ups .
    from after[OF all3 w2(2) away(1) this w2(3)] show ?thesis using that(2) place unfolding ups by blast
  qed
  ultimately show ?thesis by blast
qed

subsection \<open>Runs that go through\<close>

definition put_all ::
    "'r publicationBackend \<Rightarrow> source_tree \<Rightarrow> string \<Rightarrow> PublicationPlanOperation list \<Rightarrow> 'r \<Rightarrow> 'r \<times> unit result" where
  "put_all be source i qs = each (\<lambda>_ q. do_then (be_put be source q i) (\<lambda>_. answer (Inr ()))) () qs"

lemma put_all_Cons:
  "put_all be source i [] r = (r, Inr ())"
  "be_put be source q i r = (r1, Inr k) \<Longrightarrow> put_all be source i (q # qs) r = put_all be source i qs r1"
  by (simp_all add: put_all_def answer_def do_then_def)

text \<open>The uploads work on the target and the calls on the tables, so a run goes through when both do.\<close>

lemma run_split:
  assumes "for_each run_call (w_tables w) (records xs) = Inr t'" and "put_all be source i (uploads xs) (w_remote w) = (r', Inr ())"
    and "\<And>point. fault point = Inr ()"
  shows "run_actions be source fault i xs w = (w\<lparr>w_tables := t', w_remote := r'\<rparr>, Inr ())"
  using assms(1,2)
proof (induction xs arbitrary: w)
  case (Cons x xs)
  show ?case
  proof (cases x)
    case (Upload q)
    obtain r1 res where put: "be_put be source q i (w_remote w) = (r1, res)" by (cases "be_put be source q i (w_remote w)")
    obtain k where res: "res = Inr k" using Cons.prems(2) Upload put by (cases res) (auto simp: put_all_def do_then_def answer_def)
    have "run_actions be source fault i xs (w\<lparr>w_remote := r1\<rparr>) = (w\<lparr>w_remote := r1\<rparr>\<lparr>w_tables := t', w_remote := r'\<rparr>, Inr ())"
      by (rule Cons.IH) (use Cons.prems Upload put_all_Cons(2)[OF put[unfolded res]] in simp_all)
    then show ?thesis using Upload put res by (simp add: do_then_def run_action_simps)
  next
    case (Record call)
    then obtain t1 where t1: "run_call (w_tables w) call = Inr t1" "for_each run_call t1 (records xs) = Inr t'"
      using Cons.prems(1) by (auto simp: and_then_Inr_iff)
    then have call: "call (w_tables w) = (t1, Inr ())" by (auto simp: run_call_def split: prod.splits sum.splits)
    have "run_actions be source fault i xs (w\<lparr>w_tables := t1\<rparr>) = (w\<lparr>w_tables := t1\<rparr>\<lparr>w_tables := t', w_remote := r'\<rparr>, Inr ())"
      by (rule Cons.IH) (use Cons.prems Record t1(2) in simp_all)
    then show ?thesis using Record call by (simp add: do_then_def run_action_simps)
  next
    case (Fault point)
    have "run_actions be source fault i xs w = (w\<lparr>w_tables := t', w_remote := r'\<rparr>, Inr ())"
      by (rule Cons.IH) (use Cons.prems Fault in simp_all)
    then show ?thesis using Fault assms(3)[of point] by (simp add: do_then_def run_action_simps)
  qed
qed (simp add: put_all_def answer_def)

text \<open>What the directory tree needs for an upload, and what a list of uploads does to it.\<close>

definition put_ready :: "source_tree \<Rightarrow> string \<Rightarrow> target_tree \<Rightarrow> PublicationPlanOperation \<Rightarrow> bool" where
  "put_ready source i r q \<longleftrightarrow>
     op_fits q i \<and> \<not> put_invalid q i \<and> public_path (po_path q) \<and> \<not> tt_refused r (po_path q)
     \<and> \<not> tt_refused r (filesystemStagePath (po_path q) i)
     \<and> (tree_at r (po_path q) = Some (operation_file q)
        \<or> may_install q (tree_at r (po_path q)) \<and> source (po_path q) = Some (operation_file q))"

definition put_effect :: "string \<Rightarrow> PublicationPlanOperation \<Rightarrow> (string \<rightharpoonup> stored_file) \<Rightarrow> string \<rightharpoonup> stored_file" where
  "put_effect i q m = m(filesystemStagePath (po_path q) i := None, po_path q \<mapsto> operation_file q)"

lemma put_runs:
  assumes "put_ready source i r q"
  shows "\<exists>r'. be_put (filesystem_backend http absent) source q i r = (r', Inr (po_sha256 q))
    \<and> tt_refused r' = tt_refused r \<and> tree_at r' = put_effect i q (tree_at r)"
proof -
  note ready = assms[unfolded put_ready_def]
  have fits: "op_fits q i" using ready by blast
  obtain r' where put: "tree_Put source q i r = (r', Inr (po_sha256 q))" using tree_Put_runs[OF fits] ready by blast
  then have "tt_refused r' = tt_refused r" "tree_at r' = put_effect i q (tree_at r)"
    using tree_Put_cases(1)[OF fits put] tree_Put_cases(2)[OF fits put refl] ready by (auto simp: put_effect_def)
  then show ?thesis using put by (simp add: filesystem_backend_def)
qed

lemma put_effect_at: "put_effect i q m (po_path q) = Some (operation_file q)"
  by (simp add: put_effect_def)

lemma put_effect_elsewhere:
  assumes "p \<noteq> po_path q" "p \<noteq> filesystemStagePath (po_path q) i"
  shows "put_effect i q m p = m p"
  using assms by (simp add: put_effect_def)

lemma put_ready_after:
  assumes "put_ready source i r q" "tt_refused r' = tt_refused r" "tree_at r' (po_path q) = tree_at r (po_path q)"
  shows "put_ready source i r' q"
  using assms by (simp add: put_ready_def)

lemma put_all_runs:
  assumes "\<forall>q\<in>set qs. put_ready source i r q \<and> filesystemStagePath (po_path q) i \<in> S \<and> po_path q \<notin> S" and "distinct (map po_path qs)"
  shows "\<exists>r'. put_all (filesystem_backend http absent) source i qs r = (r', Inr ())
    \<and> tt_refused r' = tt_refused r \<and> tree_at r' = fold (put_effect i) qs (tree_at r)"
  using assms
proof (induction qs arbitrary: r)
  case Nil
  then show ?case by (simp add: put_all_Cons)
next
  case (Cons q qs)
  then obtain r1 where r1: "be_put (filesystem_backend http absent) source q i r = (r1, Inr (po_sha256 q))"
      "tt_refused r1 = tt_refused r" "tree_at r1 = put_effect i q (tree_at r)"
    using put_runs[of source i r q http absent] by auto
  have "put_ready source i r1 p" if "p \<in> set qs" for p
  proof (rule put_ready_after[OF _ r1(2)])
    show "put_ready source i r p" using Cons.prems(1) that by simp
    show "tree_at r1 (po_path p) = tree_at r (po_path p)"
      unfolding r1(3) using Cons.prems that by (intro put_effect_elsewhere) (auto simp: image_iff)
  qed
  then obtain r' where "put_all (filesystem_backend http absent) source i qs r1 = (r', Inr ())"
      "tt_refused r' = tt_refused r1" "tree_at r' = fold (put_effect i) qs (tree_at r1)"
    using Cons.IH[of r1] Cons.prems by auto
  then show ?case using put_all_Cons(2)[OF r1(1)] r1(2,3) by simp
qed

lemma puts_elsewhere:
  assumes "p \<notin> po_path ` set qs" "p \<notin> (\<lambda>q. filesystemStagePath (po_path q) i) ` set qs"
  shows "fold (put_effect i) qs m p = m p"
  using assms by (induction qs arbitrary: m) (auto simp: put_effect_def)

lemma puts_at:
  assumes "q \<in> set qs" "distinct (map po_path qs)" "po_path q \<notin> (\<lambda>q. filesystemStagePath (po_path q) i) ` set qs"
  shows "fold (put_effect i) qs m (po_path q) = Some (operation_file q)"
  using assms
proof (induction qs arbitrary: m)
  case (Cons x qs)
  show ?case
  proof (cases "q = x")
    case True
    then have "fold (put_effect i) qs (put_effect i x m) (po_path q) = put_effect i x m (po_path q)"
      using Cons.prems by (intro puts_elsewhere) auto
    then show ?thesis using True by (simp add: put_effect_at)
  next
    case False
    then show ?thesis using Cons by simp
  qed
qed simp

lemma puts_stage:
  assumes "p \<in> (\<lambda>q. filesystemStagePath (po_path q) i) ` set qs" "p \<notin> po_path ` set qs"
  shows "fold (put_effect i) qs m p = None"
  using assms
proof (induction qs arbitrary: m)
  case (Cons x qs)
  show ?case
  proof (cases "p \<in> (\<lambda>q. filesystemStagePath (po_path q) i) ` set qs")
    case True
    then show ?thesis using Cons by simp
  next
    case False
    then have "p = filesystemStagePath (po_path x) i" "p \<noteq> po_path x" using Cons.prems by auto
    then have "put_effect i x m p = None" by (simp add: put_effect_def)
    then show ?thesis using puts_elsewhere[OF _ False] Cons.prems(2) by simp
  qed
qed simp

subsection \<open>The calls of a run\<close>

definition written_pointers :: "PublicationPlan \<Rightarrow> (string \<times> string) list" where
  "written_pointers plan = concat (map (\<lambda>unit. map (\<lambda>q. (cu_view_id unit, po_path q)) (cu_pointers unit)) (pp_commit_units plan))"

lemma records_views: "records (view_actions i state views) = view_calls i state (map view_pair views)"
  by (induction views) (simp_all add: view_actions_def view_calls_def view_pair_def)

lemma records_pointers:
  "records (concat (map (pointer_actions i view) qs)) = view_calls i ''applied'' (map (\<lambda>q. (view, po_path q)) qs)"
  by (induction qs) (simp_all add: pointer_actions_def view_calls_def)

lemma records_units:
  "records (concat (map (\<lambda>unit. concat (map (pointer_actions i (cu_view_id unit)) (cu_pointers unit))) units))
     = view_calls i ''applied'' (concat (map (\<lambda>unit. map (\<lambda>q. (cu_view_id unit, po_path q)) (cu_pointers unit)) units))"
  by (induction units) (simp_all add: records_pointers, simp_all add: view_calls_def)

text \<open>Together the actions make exactly the calls of the protocol.\<close>

lemma publish_records:
  "records (prepare_actions i plan views @ commit_actions i plan) @ records (verify_actions i views)
     = publish_calls i (map view_pair views) (written_pointers plan)"
  by (simp add: prepare_actions_def commit_actions_def verify_actions_def records_views records_units publish_calls_def written_pointers_def)

subsection \<open>An example\<close>

text \<open>The first publication of a repository with one view and one package.\<close>

definition first_manifest :: "GenerationFile list" where
  "first_manifest = [release_file, example_file ''pool/a.deb'' ''payload'' CHR ''b'']"

definition first_input :: PublicationPlanInput where
  "first_input = plan_input ''01234567-89ab-4cde-8f01-23456789abcd'' (replicate 64 CHR ''e'') '''' 1 [] first_manifest"

definition first_payload :: PublicationPlanOperation where
  "first_payload = \<lparr>po_operation = ''add'', po_path = ''pool/a.deb'', po_phase = ''payload'', po_size = 7,
     po_sha256 = replicate 64 CHR ''b'', po_expected_old_sha256 = ''''\<rparr>"

definition first_pointer :: PublicationPlanOperation where
  "first_pointer = \<lparr>po_operation = ''add'', po_path = ''dists/noble/Release'', po_phase = ''pointer'', po_size = 5,
     po_sha256 = replicate 64 CHR ''a'', po_expected_old_sha256 = ''''\<rparr>"

lemma first_plan:
  obtains plan where "buildPublicationPlan first_input False = Inr plan" "pp_payload plan = [first_payload]"
    "pp_immutable_metadata plan = []" "pp_stable_aliases plan = []"
    "pp_commit_units plan = [\<lparr>cu_view_id = ''dists/noble'', cu_protocol = ''apt'', cu_pointers = [first_pointer]\<rparr>]"
proof -
  have ok: "manifest_ok []" "manifest_ok first_manifest" by code_simp+
  have guard: "plan_guard first_input = Inr (sha256_hex (manifest_wire first_manifest))"
    using manifest_ok_canonical[OF ok(1)] manifest_ok_canonical[OF ok(2)] example_identity
    by (simp add: plan_guard_def first_input_def plan_input_def canonicalChangeArray_DiffManifests)
  have steps: "(case for_each (plan_step False (fileByPath (pi_base_manifest first_input))) plan_start (pi_changes first_input) of
      Inl _ \<Rightarrow> False
    | Inr ps \<Rightarrow> (case for_each (commit_step ps (fileByPath (pi_target_manifest first_input))) [] (sort (map fst (ps_pointers ps))) of
        Inl _ \<Rightarrow> False
      | Inr us \<Rightarrow> ps_payload ps = [first_payload] \<and> ps_immutable ps = [] \<and> ps_aliases ps = []
          \<and> us = [\<lparr>cu_view_id = ''dists/noble'', cu_protocol = ''apt'', cu_pointers = [first_pointer]\<rparr>]))"
    by code_simp
  then obtain ps us where w: "for_each (plan_step False (fileByPath (pi_base_manifest first_input))) plan_start (pi_changes first_input) = Inr ps"
      "for_each (commit_step ps (fileByPath (pi_target_manifest first_input))) [] (sort (map fst (ps_pointers ps))) = Inr us"
      "ps_payload ps = [first_payload]" "ps_immutable ps = []" "ps_aliases ps = []"
      "us = [\<lparr>cu_view_id = ''dists/noble'', cu_protocol = ''apt'', cu_pointers = [first_pointer]\<rparr>]"
    by (simp split: sum.splits)
  let ?lit = "plan_literal first_input (sha256_hex (manifest_wire first_manifest)) ps us"
  show thesis
  proof
    show "buildPublicationPlan first_input False = Inr (?lit\<lparr>pp_plan_sha256 := publicationPlanDigest ?lit\<rparr>)"
      by (simp add: buildPublicationPlan_def guard w(1,2) Let_def)
  qed (use w(3-6) in \<open>simp_all add: plan_literal_def\<close>)
qed

definition first_source :: source_tree where
  "first_source = [''pool/a.deb'' \<mapsto> operation_file first_payload, ''dists/noble/Release'' \<mapsto> operation_file first_pointer]"

definition empty_tree :: target_tree where
  "empty_tree = \<lparr>tt_files = [], tt_refused = (\<lambda>_. False)\<rparr>"

lemma empty_tree_at [simp]: "tree_at empty_tree p = None"
  by (simp add: empty_tree_def tree_at_def)

definition first_world :: "target_tree world" where
  "first_world = \<lparr>w_db = publication_db, w_tables = planned_target, w_remote = empty_tree\<rparr>"

abbreviation first_identity :: string where
  "first_identity \<equiv> publicationAttemptSemanticIdentity release_attempt"

lemma first_ready:
  "plain_path (po_path first_payload)" "plain_path (po_path first_pointer)"
  "put_ready first_source first_identity empty_tree first_payload" "put_ready first_source first_identity empty_tree first_pointer"
proof -
  show plain: "plain_path (po_path first_payload)" "plain_path (po_path first_pointer)" by code_simp+
  have id: "length first_identity = 64" using identity_valid(3)[of release_attempt] by (auto simp: validSHA256Text_def)
  have ops: "po_operation first_payload = ''add'' \<and> 0 \<le> po_size first_payload \<and> validSHA256Text (po_sha256 first_payload) \<and> public_path (po_path first_payload)"
    "po_operation first_pointer = ''add'' \<and> 0 \<le> po_size first_pointer \<and> validSHA256Text (po_sha256 first_pointer) \<and> public_path (po_path first_pointer)"
    by code_simp+
  have source: "first_source (po_path first_payload) = Some (operation_file first_payload)"
    "first_source (po_path first_pointer) = Some (operation_file first_pointer)"
    by (simp_all add: first_source_def first_payload_def first_pointer_def)
  show "put_ready first_source first_identity empty_tree first_payload" "put_ready first_source first_identity empty_tree first_pointer"
    using plain_fits[OF plain(1)] plain_fits[OF plain(2)] ops source id
    by (simp_all add: put_ready_def put_invalid_def empty_tree_def tree_at_def may_install_def)
qed

text \<open>The run of the example to its last pointer.\<close>

lemma first_run:
  assumes plan: "buildPublicationPlan first_input False = Inr plan" "pp_payload plan = [first_payload]"
    "pp_immutable_metadata plan = []" "pp_stable_aliases plan = []"
    "pp_commit_units plan = [\<lparr>cu_view_id = ''dists/noble'', cu_protocol = ''apt'', cu_pointers = [first_pointer]\<rparr>]"
  obtains t r where
    "run_actions (filesystem_backend http absent) first_source (\<lambda>_. Inr ()) first_identity
       (prepare_actions first_identity plan [release_view] @ commit_actions first_identity plan) first_world
       = (first_world\<lparr>w_tables := t, w_remote := r\<rparr>, Inr ())"
    "\<forall>p. \<not> tt_refused r p" "tree_at r = [''pool/a.deb'' \<mapsto> operation_file first_payload, ''dists/noble/Release'' \<mapsto> operation_file first_pointer]"
    "writes_plain plan"
proof -
  let ?run = "prepare_actions first_identity plan [release_view] @ commit_actions first_identity plan"
  have pairs: "map view_pair [release_view] = [(''dists/noble'', ''dists/noble/Release'')]"
      "written_pointers plan = [(''dists/noble'', ''dists/noble/Release'')]"
    using plan(5) by (simp_all add: view_pair_def release_view_def written_pointers_def first_pointer_def)
  have "for_each run_call planned_target (records ?run @ records (verify_actions first_identity [release_view])) = Inr verified_target"
    using verified_target_run by (simp only: publish_records pairs)
  then obtain t where t: "for_each run_call planned_target (records ?run) = Inr t" by (auto simp: for_each_append and_then_Inr_iff)
  have ups: "uploads ?run = [first_payload, first_pointer]" unfolding action_uploads using plan(2-5) by simp
  have plain: "writes_plain plan" using first_ready(1,2) plan(2-5) by (simp add: writes_plain_def)
  let ?stages = "(\<lambda>q. filesystemStagePath (po_path q) first_identity) ` {first_payload, first_pointer}"
  have away: "po_path first_payload \<notin> ?stages" "po_path first_pointer \<notin> ?stages"
    using plain_not_stage first_ready(1,2) identity_valid(3)[of release_attempt] by blast+
  have names: "po_path first_payload = ''pool/a.deb''" "po_path first_pointer = ''dists/noble/Release''"
    by (simp_all add: first_payload_def first_pointer_def)
  have "\<exists>r. put_all (filesystem_backend http absent) first_source first_identity (uploads ?run) empty_tree = (r, Inr ())
      \<and> tt_refused r = tt_refused empty_tree \<and> tree_at r = fold (put_effect first_identity) (uploads ?run) (tree_at empty_tree)"
    unfolding ups by (rule put_all_runs[where S = ?stages]) (use first_ready(3,4) away names in auto)
  then obtain r where r: "put_all (filesystem_backend http absent) first_source first_identity (uploads ?run) empty_tree = (r, Inr ())"
      "tt_refused r = tt_refused empty_tree" "tree_at r = fold (put_effect first_identity) (uploads ?run) (tree_at empty_tree)" by blast
  have "tree_at r p = [''pool/a.deb'' \<mapsto> operation_file first_payload, ''dists/noble/Release'' \<mapsto> operation_file first_pointer] p" for p
    unfolding r(3) ups using away names(1,2)[symmetric] by (auto simp: put_effect_def)
  then have at: "tree_at r = [''pool/a.deb'' \<mapsto> operation_file first_payload, ''dists/noble/Release'' \<mapsto> operation_file first_pointer]"
    by (rule ext)
  have "run_actions (filesystem_backend http absent) first_source (\<lambda>_. Inr ()) first_identity ?run first_world
      = (first_world\<lparr>w_tables := t, w_remote := r\<rparr>, Inr ())"
    by (rule run_split) (use t r(1) in \<open>simp_all add: first_world_def\<close>)
  then show thesis using that at r(2) plain by (simp add: empty_tree_def)
qed

lemma first_listing:
  assumes "\<forall>p. \<not> tt_refused r p"
    and at: "tree_at r = [''pool/a.deb'' \<mapsto> operation_file first_payload, ''dists/noble/Release'' \<mapsto> operation_file first_pointer]"
    and plain: "writes_plain plan"
  obtains remote where "tree_List (plan_stages plan first_identity) r = Inr remote" "remote \<noteq> []"
proof -
  have public: "public_path ''pool/a.deb''" "public_path ''dists/noble/Release''" by code_simp+
  have "dom (tree_at r) = {''pool/a.deb'', ''dists/noble/Release''}" by (auto simp: at)
  then obtain remote where remote: "tree_List (plan_stages plan first_identity) r = Inr remote"
    using public assms(1) by (fastforce simp: tree_List_iff)
  have "''pool/a.deb'' \<notin> set (plan_stages plan first_identity)"
    using plan_stage_plain[OF plain _ first_ready(1)] by (simp add: first_payload_def)
  then have "index_by ro_path remote ''pool/a.deb'' \<noteq> None" using tree_List_view(2)[OF remote] by (simp add: tree_view_def at)
  then have "remote \<noteq> []" by (auto simp: index_by_def)
  then show thesis using remote that by blast
qed

theorem publish_interrupted_recoverable_witness:
  "\<exists>plan v remote. buildPublicationPlan first_input False = Inr plan
     \<and> v \<in> set (tree_passes (filesystem_backend None None) first_source (\<lambda>_. Inr ()) first_identity
          (prepare_actions first_identity plan [release_view] @ commit_actions first_identity plan) first_world)
     \<and> tree_List (plan_stages plan first_identity) (w_remote v) = Inr remote \<and> remote \<noteq> []
     \<and> requireRecoverableRemoteInventory remote [] first_manifest = Inr ()"
proof (rule first_plan)
  fix plan
  assume plan: "buildPublicationPlan first_input False = Inr plan" "pp_payload plan = [first_payload]"
    "pp_immutable_metadata plan = []" "pp_stable_aliases plan = []"
    "pp_commit_units plan = [\<lparr>cu_view_id = ''dists/noble'', cu_protocol = ''apt'', cu_pointers = [first_pointer]\<rparr>]"
  let ?run = "prepare_actions first_identity plan [release_view] @ commit_actions first_identity plan"
  obtain t r where run: "run_actions (filesystem_backend None None) first_source (\<lambda>_. Inr ()) first_identity ?run first_world
       = (first_world\<lparr>w_tables := t, w_remote := r\<rparr>, Inr ())" "\<forall>p. \<not> tt_refused r p"
      "tree_at r = [''pool/a.deb'' \<mapsto> operation_file first_payload, ''dists/noble/Release'' \<mapsto> operation_file first_pointer]" "writes_plain plan"
    by (rule first_run[OF plan, of None None]) (rule that)
  let ?v = "first_world\<lparr>w_tables := t, w_remote := r\<rparr>"
  have v: "?v \<in> set (tree_passes (filesystem_backend None None) first_source (\<lambda>_. Inr ()) first_identity ?run first_world)"
    using run_passes[of "filesystem_backend None None" first_source "\<lambda>_. Inr ()" first_identity ?run first_world] run(1) by simp
  obtain remote where remote: "tree_List (plan_stages plan first_identity) r = Inr remote" "remote \<noteq> []"
    using first_listing[OF run(2-4)] .
  have start: "tree_List (plan_stages plan first_identity) (w_remote first_world) = Inr []"
    by (simp add: tree_List_iff first_world_def empty_tree_def tree_at_def)
  have "requireRecoverableRemoteInventory [] [] (pi_target_manifest first_input) = Inr ()"
    by (simp add: requireRecoverableRemoteInventory_def)
  from publish_interrupted_recoverable[OF plan(1) run(4) identity_valid(3) start this v, of remote] remote plan(1) v
  show ?thesis by (intro exI[of _ plan] exI[of _ ?v] exI[of _ remote]) (simp add: first_input_def plan_input_def)
qed

theorem publish_readers_consistent_witness:
  "\<exists>plan v. buildPublicationPlan first_input False = Inr plan
     \<and> v \<in> set (tree_passes (filesystem_backend None None) first_source (\<lambda>_. Inr ()) first_identity
          (prepare_actions first_identity plan [release_view] @ commit_actions first_identity plan) first_world)
     \<and> tree_at (w_remote v) ''dists/noble/Release'' \<noteq> None
     \<and> committed (w_tables v) first_identity \<and> tree_at (w_remote v) ''pool/a.deb'' = Some (operation_file first_payload)"
proof (rule first_plan)
  fix plan
  assume plan: "buildPublicationPlan first_input False = Inr plan" "pp_payload plan = [first_payload]"
    "pp_immutable_metadata plan = []" "pp_stable_aliases plan = []"
    "pp_commit_units plan = [\<lparr>cu_view_id = ''dists/noble'', cu_protocol = ''apt'', cu_pointers = [first_pointer]\<rparr>]"
  let ?run = "prepare_actions first_identity plan [release_view] @ commit_actions first_identity plan"
  obtain t r where run: "run_actions (filesystem_backend None None) first_source (\<lambda>_. Inr ()) first_identity ?run first_world
       = (first_world\<lparr>w_tables := t, w_remote := r\<rparr>, Inr ())"
      "tree_at r = [''pool/a.deb'' \<mapsto> operation_file first_payload, ''dists/noble/Release'' \<mapsto> operation_file first_pointer]" "writes_plain plan"
    by (rule first_run[OF plan, of None None]) (rule that)
  let ?v = "first_world\<lparr>w_tables := t, w_remote := r\<rparr>"
  have v: "?v \<in> set (tree_passes (filesystem_backend None None) first_source (\<lambda>_. Inr ()) first_identity ?run first_world)"
    using run_passes[of "filesystem_backend None None" first_source "\<lambda>_. Inr ()" first_identity ?run first_world] run(1) by simp
  have reach: "publication_reachable (w_tables first_world)" by (simp add: first_world_def planned_target_reachable)
  have pointer: "first_pointer \<in> set (pp_stable_aliases plan @ pointer_operations plan)" using plan(5) by simp
  have "tree_at (w_remote ?v) (po_path first_pointer) \<noteq> tree_at (w_remote first_world) (po_path first_pointer)"
    by (simp add: run(2) first_world_def first_pointer_def)
  from publish_readers_consistent[OF reach plan(1) run(3) identity_valid(3) v pointer this] plan v run(2)
  show ?thesis by (intro exI[of _ plan] exI[of _ ?v]) (simp add: first_payload_def)
qed

subsection \<open>A publication that succeeds\<close>

lemma run_tables:
  "run_actions be source fault i xs w = (w', Inr u) \<Longrightarrow> for_each run_call (w_tables w) (records xs) = Inr (w_tables w')"
proof (induction xs arbitrary: w)
  case (Cons x xs)
  obtain w1 where step: "run_action be source fault i x w = (w1, Inr ())" "run_actions be source fault i xs w1 = (w', Inr u)"
    using Cons.prems by (auto simp: do_then_Inr)
  note rest = Cons.IH[OF step(2)]
  show ?case
  proof (cases x)
    case (Record call)
    have "call (w_tables w) = (w_tables w1, Inr ())" using step(1) Record by (auto simp: run_action_simps intro: prod_eqI)
    then have "run_call (w_tables w) call = Inr (w_tables w1)" by (simp add: run_call_def)
    then show ?thesis using rest Record by simp
  qed (use rest step(1) in \<open>auto simp: run_action_simps\<close>)
qed simp

lemma run_remote: "uploads xs = [] \<Longrightarrow> w_remote (fst (run_actions be source fault i xs w)) = w_remote w"
proof (induction xs arbitrary: w)
  case (Cons x xs)
  then show ?case
    by (cases x; cases "run_action be source fault i x w"; cases "snd (run_action be source fault i x w)")
      (auto simp: do_then_def run_action_simps)
qed simp

text \<open>What each kind of step contributes to a run that succeeds.\<close>

lemma refuse_Inr [simp]: "refuse s message r = Inr a \<longleftrightarrow> r = Inr a"
  by (cases r) (simp_all add: refuse_def)

lemma step_Inr:
  "do_then (ask f) g w = (w', Inr b) \<longleftrightarrow> (\<exists>a. f w = Inr a \<and> g a w = (w', Inr b))"
  "do_then (answer r) h v = (v', Inr c) \<longleftrightarrow> (\<exists>a. r = Inr a \<and> h a v = (v', Inr c))"
  "answer r s = (s', Inr d) \<longleftrightarrow> s' = s \<and> r = Inr d"
  by (auto simp: do_then_def ask_def answer_def split: sum.splits)

lemma world_Inr:
  "do_then (\<lambda>w. on_tables (m w) w) g w = (w', Inr b) \<longleftrightarrow>
     (\<exists>t a. m w (w_tables w) = (t, Inr a) \<and> g a (w\<lparr>w_tables := t\<rparr>) = (w', Inr b))"
  "do_then (on_tables m') g w = (w', Inr b) \<longleftrightarrow>
     (\<exists>t a. m' (w_tables w) = (t, Inr a) \<and> g a (w\<lparr>w_tables := t\<rparr>) = (w', Inr b))"
  "do_then (on_remote p) g w = (w', Inr b) \<longleftrightarrow>
     (\<exists>r a. p (w_remote w) = (r, Inr a) \<and> g a (w\<lparr>w_remote := r\<rparr>) = (w', Inr b))"
  "do_then (\<lambda>w. apsnd (refuse s message) (on_db d w)) g w = (w', Inr b) \<longleftrightarrow>
     (\<exists>db a. d (w_db w) = (db, Inr a) \<and> g a (w\<lparr>w_db := db\<rparr>) = (w', Inr b))"
  by (auto simp: do_then_def on_tables_def on_db_def on_remote_def refuse_def split: prod.splits sum.splits)

lemma publish_finish_Inr:
  assumes "publish_finish env be b i generation manifestSHA plan target base views w = (w', Inr result)"
  obtains remote inventory w1 cviews files c t2 where
    "be_list be [] (w_remote w) = Inr remote" "publicationInventory remote target base = Inr inventory"
    "run_actions be (pe_source env) (pe_fault env) i (verify_actions i views) w = (w1, Inr ())"
    "publicationCheckpointViews be (w_remote w1) views = Inr cviews"
    "publicationVerificationFiles plan target = Inr files" "verifyPublishedFiles be (w_remote w1) files = Inr ()"
    "cp_identity c = ''''" "cp_schema c = 0" "cp_repository c = tb_repository b" "cp_target c = tb_target b" "cp_attempt c = i"
    "cp_generation c = generation" "cp_manifest c = manifestSHA" "cp_inventory_identity c = ''''" "cp_views c = cviews"
    "cp_inventory c = inventory"
    "PutAppliedCheckpoint (pe_applied_at env) (w_db w') c (w_tables w1) = (t2, Inr (pr_checkpoint result))"
    "putPublicationGrace b (c\<lparr>cp_identity := pr_checkpoint result\<rparr>) t2 = (w_tables w', Inr ())"
    "w_remote w' = w_remote w1" "pr_attempt result = i" "pr_generation result = generation" "pr_objects result = length inventory"
proof -
  let ?c = "\<lambda>cviews inventory. \<lparr>cp_identity = '''', cp_schema = 0, cp_repository = tb_repository b, cp_target = tb_target b,
           cp_attempt = i, cp_generation = generation, cp_manifest = manifestSHA,
           cp_inventory_identity = '''', cp_complete = True, cp_views = cviews, cp_inventory = inventory,
           cp_applied_at = pe_applied_at env\<rparr>"
  have "\<exists>remote inventory w1 cviews files db t2 t3 identity.
      be_list be [] (w_remote w) = Inr remote \<and> publicationInventory remote target base = Inr inventory
      \<and> run_actions be (pe_source env) (pe_fault env) i (verify_actions i views) w = (w1, Inr ())
      \<and> publicationCheckpointViews be (w_remote w1) views = Inr cviews
      \<and> publicationVerificationFiles plan target = Inr files \<and> verifyPublishedFiles be (w_remote w1) files = Inr ()
      \<and> PutAppliedCheckpoint (pe_applied_at env) db (?c cviews inventory) (w_tables w1) = (t2, Inr identity)
      \<and> putPublicationGrace b ((?c cviews inventory)\<lparr>cp_identity := identity\<rparr>) t2 = (t3, Inr ())
      \<and> w' = w1\<lparr>w_db := db, w_tables := t3\<rparr>
      \<and> result = \<lparr>pr_generation = generation, pr_attempt = i, pr_checkpoint = identity,
                  pr_phase = ''grace'', pr_objects = length inventory, pr_noop = False\<rparr>"
    using assms unfolding publish_finish_def Let_def step_Inr world_Inr do_then_Inr[of "run_actions be source fault j xs" for source fault j xs]
    by (elim exE conjE) (intro exI conjI; force)
  then show thesis
  proof (elim exE conjE)
    fix remote inventory w1 cviews files db t2 t3 identity
    assume run: "be_list be [] (w_remote w) = Inr remote" "publicationInventory remote target base = Inr inventory"
      "run_actions be (pe_source env) (pe_fault env) i (verify_actions i views) w = (w1, Inr ())"
      "publicationCheckpointViews be (w_remote w1) views = Inr cviews"
      "publicationVerificationFiles plan target = Inr files" "verifyPublishedFiles be (w_remote w1) files = Inr ()"
      and stored: "PutAppliedCheckpoint (pe_applied_at env) db (?c cviews inventory) (w_tables w1) = (t2, Inr identity)"
      "putPublicationGrace b ((?c cviews inventory)\<lparr>cp_identity := identity\<rparr>) t2 = (t3, Inr ())"
      and ends: "w' = w1\<lparr>w_db := db, w_tables := t3\<rparr>"
      "result = \<lparr>pr_generation = generation, pr_attempt = i, pr_checkpoint = identity,
                  pr_phase = ''grace'', pr_objects = length inventory, pr_noop = False\<rparr>"
    show thesis
      by (rule that[OF run, of "?c cviews inventory" t2]) (use stored in \<open>simp_all add: ends\<close>)
  qed
qed

text \<open>The pointers a publication writes are the views of its attempt.\<close>

lemma attempt_views_pairs: "set (map view_pair (publicationAttemptViews plan base)) = set (written_pointers plan)"
proof -
  let ?views = "\<lambda>unit. map (\<lambda>pointer. \<lparr>av_view = cu_view_id unit, av_pointer = po_path pointer, av_old = old_identity base (po_path pointer),
           av_new = po_sha256 pointer, av_state = ViewPending\<rparr>) (cu_pointers unit)"
  have "map view_pair (concat (map ?views (pp_commit_units plan))) = written_pointers plan"
    unfolding written_pointers_def by (simp add: map_concat view_pair_def comp_def)
  moreover have "set (map view_pair (publicationAttemptViews plan base)) = set (map view_pair (concat (map ?views (pp_commit_units plan))))"
    by (simp add: publicationAttemptViews_def)
  ultimately show ?thesis by simp
qed

text \<open>A checkpoint that is accepted under an identity not taken yet is a new row.\<close>

lemma checkpoint_recorded:
  assumes put: "PutAppliedCheckpoint now db c t = (t', Inr identity)" and new: "identity \<notin> cp_identity ` set (pt_checkpoints t)"
  obtains d manifest bytes where "pt_checkpoints t' = pt_checkpoints t @ [d]" "cp_identity d = identity" "cp_attempt d = cp_attempt c"
    "cp_target d = cp_target c" "cp_generation d = cp_generation c" "cp_manifest d = cp_manifest c"
    "cp_inventory d = cp_inventory c" "cp_views d = cp_views c"
    "generationManifestOn db (cp_generation c) = Inr manifest" "ManifestBytes manifest = Inr (bytes, cp_manifest c)"
    "inventoryContainsManifest (cp_inventory c) manifest"
proof -
  let ?e = "c\<lparr>cp_schema := (if cp_schema c = 0 then 1 else cp_schema c),
       cp_applied_at := (if cp_applied_at c = zero_time then now else cp_applied_at c)\<rparr>"
  let ?x = "and_then (validateAppliedCheckpoint ?e) (\<lambda>_. and_then (generationManifestOn db (cp_generation ?e)) (\<lambda>manifest.
      and_then (case ManifestBytes manifest of Inl _ \<Rightarrow> Inl (plain_error ''checkpoint manifest differs from Generation'')
          | Inr (_, digest) \<Rightarrow> ensure (digest = cp_manifest ?e) (plain_error ''checkpoint manifest differs from Generation'')) (\<lambda>_.
      and_then (ensure (cp_complete ?e \<and> inventoryContainsManifest (cp_inventory ?e) manifest)
          (plain_error ''complete publication inventory does not contain the Generation manifest closure'')) (\<lambda>_.
      and_then (acceptSemanticIdentity (cp_inventory_identity ?e) (publicationInventoryIdentity (cp_inventory ?e))) (\<lambda>inventory.
      let c = ?e\<lparr>cp_inventory_identity := inventory\<rparr>
      in and_then (acceptSemanticIdentity (cp_identity c) (appliedCheckpointSemanticIdentity c)) (\<lambda>identity.
         Inr (c\<lparr>cp_identity := identity\<rparr>)))))))"
  have run: "PutAppliedCheckpoint now db c t = (case ?x of Inl e \<Rightarrow> (t, Inl e) | Inr d \<Rightarrow> publication_tx (apply_checkpoint_tx d) t)"
    by (simp only: PutAppliedCheckpoint_def Let_def)
  then obtain d where d: "?x = Inr d" "apply_checkpoint_tx d t = Inr (t', identity)"
    using put by (auto simp: publication_tx_def split: sum.splits)
  have digest: "(case r of Inl _ \<Rightarrow> Inl e | Inr (_, digest) \<Rightarrow> ensure (digest = m) e) = Inr u \<longleftrightarrow> (\<exists>bytes. r = Inr (bytes, m))"
    for r :: "(string \<times> string) result" and e m u
    by (auto simp: ensure_def split: sum.splits prod.splits if_splits)

  from d(1) obtain manifest bytes where parts: "generationManifestOn db (cp_generation c) = Inr manifest"
      "ManifestBytes manifest = Inr (bytes, cp_manifest c)" "inventoryContainsManifest (cp_inventory c) manifest"
    unfolding and_then_Inr_iff digest ensure_Inr_iff by auto
  from d(1) have same: "cp_attempt d = cp_attempt c" "cp_target d = cp_target c" "cp_generation d = cp_generation c"
      "cp_manifest d = cp_manifest c" "cp_inventory d = cp_inventory c" "cp_views d = cp_views c"
    unfolding and_then_Inr_iff Let_def by auto
  have "pt_checkpoints t' = pt_checkpoints t @ [d] \<and> identity = cp_identity d"
  proof (cases "fst (appliedCheckpointSemanticMatchTx t d)")
    case True
    then obtain x where "List.find (\<lambda>c. cp_identity c = cp_identity d) (pt_checkpoints t) = Some x"
      by (auto simp: appliedCheckpointSemanticMatchTx_def split: option.splits)
    then have "cp_identity d \<in> cp_identity ` set (pt_checkpoints t)"
      unfolding find_Some_iff by (metis image_eqI nth_mem)
    moreover have "identity = cp_identity d"
      using d(2) True by (auto simp: apply_checkpoint_tx_def and_then_Inr_iff split: prod.splits if_splits)
    ultimately show ?thesis using new by simp
  next
    case False
    then show ?thesis using d(2) by (auto simp: apply_checkpoint_tx_def and_then_Inr_iff split: prod.splits if_splits)
  qed
  then show thesis using that[of d, OF _ _ same parts] by simp
qed

lemma protocol_keeps:
  assumes "c \<in> set (publish_calls i pairs written)"
  shows "pt_checkpoints (fst (c t)) = pt_checkpoints t \<and> pt_grace (fst (c t)) = pt_grace t \<and> pt_bindings (fst (c t)) = pt_bindings t"
  using assms
  by (auto simp: publish_calls_def view_calls_def AdvancePublicationAttemptPhase_def SetPublicationCommitIntent_def
      SetPublicationAttemptViewState_def publication_tx_def advance_phase_tx_def commit_intent_tx_def view_state_tx_def
      update_attempt_def and_then_Inr_iff Let_def split: sum.splits option.splits if_splits bool.splits)

lemma calls_keep:
  assumes "for_each run_call t calls = Inr t'" and "\<And>c u. c \<in> set calls \<Longrightarrow> f (fst (c u)) = f u"
  shows "f t' = f t"
  using assms
proof (induction calls arbitrary: t)
  case (Cons c calls)
  obtain t1 where t1: "run_call t c = Inr t1" "for_each run_call t1 calls = Inr t'" using Cons.prems(1) by (auto simp: and_then_Inr_iff)
  have "t1 = fst (c t)" using t1(1) by (auto simp: run_call_def split: prod.splits sum.splits)
  then show ?case using Cons.IH[OF t1(2)] Cons.prems(2) by simp
qed simp

lemma grace_keeps_checkpoints:
  assumes "putPublicationGrace b c t = (t', Inr u)"
  shows "publication_step t t'" "pt_checkpoints t' = pt_checkpoints t"
proof -
  obtain g i where g: "PutGraceRecord g t = (t', Inr i)"
    using assms unfolding putPublicationGrace_def step_Inr do_then_Inr by blast
  then show "publication_step t t'" using publication_step.grace[of t g] by simp
  show "pt_checkpoints t' = pt_checkpoints t"
    using g by (auto simp: PutGraceRecord_def publication_tx_def put_grace_tx_def and_then_Inr_iff Let_def
        split: sum.splits prod.splits if_splits)
qed

lemma last_checkpoint_head:
  assumes reach: "publication_reachable t'" and rows: "pt_checkpoints t' = pt_checkpoints t @ [d]"
  shows "the_head t' (cp_target d) = Inr \<lparr>th_target = cp_target d, th_checkpoint = Some (cp_identity d),
         th_generation = cp_generation d, th_manifest = Some (cp_manifest d),
         th_revision = int (length (target_checkpoints t (cp_target d))) + 1\<rparr>"
proof -
  have log: "target_checkpoints t' (cp_target d) = target_checkpoints t (cp_target d) @ [d]"
    by (simp add: target_checkpoints_def rows)
  have "cp_target d \<in> tb_target ` set (pt_bindings t')"
    using checkpoint_target_bound[OF publication_reachable_ok[OF reach], of d] rows by simp
  then obtain b where "b \<in> set (pt_bindings t')" "tb_target b = cp_target d" by (elim imageE) simp
  then have "the_head t' (cp_target d) = Inr (log_head (cp_target d) (target_checkpoints t' (cp_target d)))"
    by (rule the_head_log[OF publication_reachable_ok[OF reach]])
  then show ?thesis by (simp add: log log_head_def)
qed

text \<open>What an accepted inventory says of the tree it was listed from.\<close>

lemma inventory_tree:
  assumes inventory: "publicationInventory remote target base = Inr inventory" and listed: "tree_List [] r = Inr remote"
  shows "\<forall>p f. fileByPath target p = Some f \<longrightarrow> tree_at r p = Some \<lparr>sf_size = gf_size f, sf_sha256 = gf_sha256 f\<rparr>"
    and "\<forall>p f. fileByPath target p = None \<longrightarrow> tree_at r p = Some f \<longrightarrow>
         (\<exists>o'\<in>set base. po_object_path o' = p \<and> po_object_size o' = sf_size f \<and> po_object_sha256 o' = sf_sha256 f)"
proof -
  note facts = inventory[unfolded inventory_iff]
  have index: "fileByPath target = index_by gf_path target" by (simp add: fileByPath_def index_by_def)
  have member: "x \<in> set remote \<longleftrightarrow> tree_view r (ro_path x) = Some x" for x
    using filesystem_target.list_member[of http absent "[]" r remote x] listed by (simp add: filesystem_backend_def)
  show "\<forall>p f. fileByPath target p = Some f \<longrightarrow> tree_at r p = Some \<lparr>sf_size = gf_size f, sf_sha256 = gf_sha256 f\<rparr>"
  proof (intro allI impI)
    fix p f
    assume f: "fileByPath target p = Some f"
    then have p: "p \<in> gf_path ` set target" using fileByPath_Some by force
    then obtain x where x: "x \<in> set remote" "ro_path x = p" using facts by auto
    then have "content_match target x" using facts p by auto
    then have same: "same_content x f" using f x(2) by (auto simp: content_match_def index)
    obtain g where "tree_at r p = Some g" "x = tree_object p g" using member[of x] x by (auto simp: tree_view_def)
    then show "tree_at r p = Some \<lparr>sf_size = gf_size f, sf_sha256 = gf_sha256 f\<rparr>"
      using same by (cases g) (simp add: same_content_def tree_object_def)
  qed
  show "\<forall>p f. fileByPath target p = None \<longrightarrow> tree_at r p = Some f \<longrightarrow>
         (\<exists>o'\<in>set base. po_object_path o' = p \<and> po_object_size o' = sf_size f \<and> po_object_sha256 o' = sf_sha256 f)"
  proof (intro allI impI)
    fix p f
    assume none: "fileByPath target p = None" and at: "tree_at r p = Some f"
    have x: "tree_object p f \<in> set remote" using member[of "tree_object p f"] at by (simp add: tree_view_def)
    have "p \<notin> gf_path ` set target" using none by (simp add: index index_by_None)
    then have "prior_match base (tree_object p f)" using facts x by auto
    then obtain o' where "index_by po_object_path base p = Some o'" "same_remote (tree_object p f) o'" by (auto simp: prior_match_def)
    then show "\<exists>o'\<in>set base. po_object_path o' = p \<and> po_object_size o' = sf_size f \<and> po_object_sha256 o' = sf_sha256 f"
      using index_by_Some by (fastforce simp: same_remote_def tree_object_def)
  qed
qed

end
