(* ===== verification/Publish_Completes.thy ===== *)
theory Publish_Completes
  imports Publish_Properties
begin

section \<open>A publication that finds what it expects succeeds\<close>

text \<open>
  The other half of correctness: when nothing is out of reach, the target is what the attempt was
  planned on and the repository has the bytes, the publication goes through to its grace record. The
  theory follows the run of \<open>Publish\<close> from its first write to its result.
\<close>

subsection \<open>The tree after the writes\<close>

text \<open>
  The target before the writes: nothing is out of reach, every write finds what it expects, the
  listing is between the old inventory and the new generation, and the old inventory is valid and
  holds the manifest the plan starts from.
\<close>

definition tree_ready :: "source_tree \<Rightarrow> string \<Rightarrow> PublicationPlan \<Rightarrow> PublicationPlanInput \<Rightarrow> PublicationObject list \<Rightarrow> target_tree \<Rightarrow> bool" where
  "tree_ready source i plan input base r \<longleftrightarrow>
     (\<forall>p. \<not> tt_refused r p) \<and> (\<forall>q\<in>set (write_operations plan). put_ready source i r q)
     \<and> (\<exists>remote. tree_List (plan_stages plan i) r = Inr remote
          \<and> requireRecoverableRemoteInventory remote base (pi_target_manifest input) = Inr ())
     \<and> (\<forall>o'\<in>set base. inventory_entry_ok o') \<and> distinct (map po_object_path base)
     \<and> inventoryContainsManifest base (pi_base_manifest input)"

text \<open>After the writes the tree is the generation, and the rest of the old inventory.\<close>

lemma written_tree:
  assumes plan: "buildPublicationPlan input legacy = Inr plan" and plain: "writes_plain plan" and i: "validSHA256Text i"
    and ready: "tree_ready source i plan input base r"
    and r': "tree_at r' = fold (put_effect i) (write_operations plan) (tree_at r)" "tt_refused r' = tt_refused r"
  shows "q \<in> set (write_operations plan) \<Longrightarrow> tree_at r' (po_path q) = Some (operation_file q)"
    and "p \<in> set (plan_stages plan i) \<Longrightarrow> tree_at r' p = None"
    and "p \<notin> po_path ` set (write_operations plan) \<Longrightarrow> p \<notin> set (plan_stages plan i) \<Longrightarrow> tree_at r' p = tree_at r p"
    and "\<exists>remote. tree_List [] r' = Inr remote"
proof -
  let ?W = "write_operations plan"
  let ?stages = "(\<lambda>q. filesystemStagePath (po_path q) i) ` set ?W"
  note fits = plan_writes_fit[OF plan plain i]
  have stages: "set (plan_stages plan i) = ?stages"
  proof -
    have "length i = 64" using i by (auto simp: validSHA256Text_def)
    then have "plan_stages plan i = map (\<lambda>q. filesystemStagePath (po_path q) i)
        (filter (\<lambda>q. po_operation q = ''add'' \<or> po_operation q = ''update'') ?W)"
      by (simp add: publicationStagePaths_def)
    moreover have "filter (\<lambda>q. po_operation q = ''add'' \<or> po_operation q = ''update'') ?W = ?W"
      using write_facts(2)[OF plan] by (intro filter_True) blast
    ultimately show ?thesis by (simp only: set_map)
  qed
  show at: "tree_at r' (po_path q) = Some (operation_file q)" if "q \<in> set ?W" for q
    unfolding r'(1) using fits(3)[OF that] by (intro puts_at[OF that write_facts(1)[OF plan]]) (simp add: stages)
  show gone: "tree_at r' p = None" if "p \<in> set (plan_stages plan i)" for p
    unfolding r'(1) by (rule puts_stage) (use that stages fits(3) in blast)+
  show same: "tree_at r' p = tree_at r p" if "p \<notin> po_path ` set ?W" "p \<notin> set (plan_stages plan i)" for p
    unfolding r'(1) by (rule puts_elsewhere) (use that stages in auto)
  show "\<exists>remote. tree_List [] r' = Inr remote"
  proof -
    obtain remote where listed: "tree_List (plan_stages plan i) r = Inr remote" using ready by (auto simp: tree_ready_def)
    have "public_path p" if "p \<in> dom (tree_at r')" for p
    proof (cases "p \<in> po_path ` set ?W")
      case True
      then show ?thesis using ready by (auto simp: tree_ready_def put_ready_def)
    next
      case False
      moreover have "p \<notin> set (plan_stages plan i)" using gone[of p] that by auto
      ultimately have "p \<in> dom (tree_at r)" using same[of p] that by auto
      then show ?thesis using listed \<open>p \<notin> set (plan_stages plan i)\<close> by (auto simp: tree_List_iff)
    qed
    then show ?thesis using ready r'(2) by (auto simp: tree_List_iff tree_ready_def)
  qed
qed

text \<open>The check of the new inventory accepts it.\<close>

lemma written_inventory:
  assumes plan: "buildPublicationPlan input legacy = Inr plan" and plain: "writes_plain plan" and i: "validSHA256Text i"
    and ready: "tree_ready source i plan input base r"
    and r': "tree_at r' = fold (put_effect i) (write_operations plan) (tree_at r)" "tt_refused r' = tt_refused r"
    and listed: "tree_List [] r' = Inr remote"
  shows "\<exists>inventory. publicationInventory remote (pi_target_manifest input) base = Inr inventory"
proof -
  let ?W = "write_operations plan" and ?target = "pi_target_manifest input"
  note tree = written_tree[OF plan plain i ready r']
  note fits = plan_writes_fit[OF plan plain i]
  obtain before where before: "tree_List (plan_stages plan i) r = Inr before" "requireRecoverableRemoteInventory before base ?target = Inr ()"
    using ready by (auto simp: tree_ready_def)
  note old = before(2)[unfolded recoverable_inventory_iff]
  have index: "fileByPath fs = index_by gf_path fs" for fs by (simp add: fileByPath_def index_by_def)
  have member: "x \<in> set remote \<longleftrightarrow> tree_view r' (ro_path x) = Some x" for x
    using filesystem_target.list_member[of None None "[]" r' remote x] listed by (simp add: filesystem_backend_def)
  have member0: "x \<in> set before \<longleftrightarrow> ro_path x \<notin> set (plan_stages plan i) \<and> tree_view r (ro_path x) = Some x" for x
    using filesystem_target.list_member[of None None "plan_stages plan i" r before x] before(1) by (simp add: filesystem_backend_def)
  text \<open>An object the plan does not write is the same in both manifests.\<close>
  have unwritten: "fileByPath (pi_base_manifest input) p = fileByPath ?target p" if "p \<notin> po_path ` set ?W" "fileByPath ?target p \<noteq> None" for p
  proof -
    have "p \<notin> po_path ` set (pp_delete_candidates plan)"
    proof
      assume "p \<in> po_path ` set (pp_delete_candidates plan)"
      then obtain q where q: "q \<in> set (pp_delete_candidates plan)" "po_path q = p" by auto
      then have "q \<in> set (plan_operations plan)" by (simp add: plan_operations_split)
      then have "operation_effect q = fileByPath ?target p" "po_operation q = ''delete''"
        using plan_operation_paths(2)[OF plan] plan_operation_deletes[OF plan] plan_phases(5)[OF plan] q by auto
      then show False using that(2) by (simp add: operation_effect_def)
    qed
    then have "p \<notin> set (map po_path (plan_operations plan))" using that(1) by (auto simp: plan_operations_split)
    then show ?thesis using run_operations_notin[of p "plan_operations plan"] plan_operation_paths(3)[OF plan] by metis
  qed
  have base_object: "\<exists>o'\<in>set base. po_object_path o' = p \<and> po_object_size o' = gf_size f \<and> po_object_sha256 o' = gf_sha256 f"
    if "fileByPath (pi_base_manifest input) p = Some f" for p f
    using ready contains_manifest_iff[of base "pi_base_manifest input"] fileByPath_Some[OF that] by (force simp: tree_ready_def)
  have object: "if ro_path x \<in> gf_path ` set ?target then content_match ?target x else prior_match base x" if x: "x \<in> set remote" for x
  proof -
    obtain g where g: "tree_at r' (ro_path x) = Some g" "x = tree_object (ro_path x) g"
      using member[of x] x by (auto simp: tree_view_def)
    show ?thesis
    proof (cases "ro_path x \<in> po_path ` set ?W")
      case True
      then obtain q where q: "q \<in> set ?W" "ro_path x = po_path q" by auto
      note f = write_file[OF plan q(1), folded q(2)]
      have "g = operation_file q" using tree(1)[OF q(1)] g(1) q(2) by simp
      then have "ro_size x = po_size q" "ro_sha256 x = po_sha256 q"
        using g(2) by (metis tree_object_def operation_file_def publicationRemoteObject.select_convs(2,3) stored_file.select_convs)+
      then have "content_match ?target x" using f by (simp add: content_match_def index[symmetric] same_content_def)
      then show ?thesis using fileByPath_Some[OF f] by force
    next
      case False
      moreover have away: "ro_path x \<notin> set (plan_stages plan i)" using tree(2)[of "ro_path x"] g(1) by auto
      ultimately have "tree_at r (ro_path x) = Some g" using tree(3)[of "ro_path x"] g(1) by simp
      then have "x \<in> set before" using member0[of x] away g(2) by (simp add: tree_view_def)
      then consider "content_match ?target x" | "prior_match base x" using old by blast
      then show ?thesis
      proof cases
        case 1
        then show ?thesis using index_by_Some[of gf_path ?target] by (force simp: content_match_def)
      next
        case 2
        show ?thesis
        proof (cases "fileByPath ?target (ro_path x)")
          case None
          then show ?thesis using 2 index_by_None[of gf_path ?target] by (auto simp: index)
        next
          case (Some f)
          then obtain o' where o': "o' \<in> set base" "po_object_path o' = ro_path x" "po_object_size o' = gf_size f" "po_object_sha256 o' = gf_sha256 f"
            using unwritten[OF False] base_object[of "ro_path x" f] by auto
          have "index_by po_object_path base (ro_path x) = Some o'"
            using index_by_path[of po_object_path base o'] o'(1,2) ready by (simp add: tree_ready_def)
          then have "content_match ?target x" using 2 o'(3,4) Some
            by (auto simp: prior_match_def same_remote_def content_match_def same_content_def index)
          then show ?thesis using fileByPath_Some[OF Some] by force
        qed
      qed
    qed
  qed
  have "gf_path ` set ?target \<subseteq> ro_path ` set remote"
  proof
    fix p assume "p \<in> gf_path ` set ?target"
    then have known: "fileByPath ?target p \<noteq> None" using index_by_None[of gf_path ?target p] by (simp add: index)
    have "tree_at r' p \<noteq> None"
    proof (cases "p \<in> po_path ` set ?W")
      case True
      then show ?thesis using tree(1) by auto
    next
      case False
      then obtain f where "fileByPath (pi_base_manifest input) p = Some f" using unwritten[OF False known] known by auto
      then have "p \<in> po_object_path ` set base" using base_object[of p f] by force
      then have "p \<in> ro_path ` set before" using old by blast
      then have "p \<notin> set (plan_stages plan i)" "tree_at r p \<noteq> None" using member0 by (auto simp: tree_view_def)
      then show ?thesis using tree(3)[OF False] by simp
    qed
    then obtain g where "tree_at r' p = Some g" by auto
    then have "tree_object p g \<in> set remote" using member[of "tree_object p g"] by (simp add: tree_view_def)
    then show "p \<in> ro_path ` set remote" by force
  qed
  then show ?thesis using object by (auto simp: inventory_iff)
qed

lemma canonical_file:
  assumes "canonicalManifestArray fs" and "f \<in> set fs"
  shows "validPublicationPath (gf_path f)" "0 \<le> gf_size f" "validSHA256Text (gf_sha256 f)"
    "content_phase (gf_phase f) \<or> gf_phase f = ''pointer''"
proof -
  have "canonical_manifest_loop '''' fs"
    using assms(1) by (simp add: canonicalManifestArray_def split: sum.splits prod.splits if_splits)
  moreover have "canonical_manifest_loop previous fs \<Longrightarrow> validPublicationPath (gf_path f) \<and> 0 \<le> gf_size f
      \<and> validSHA256Text (gf_sha256 f) \<and> (content_phase (gf_phase f) \<or> gf_phase f = ''pointer'')" for previous
    using assms(2) by (induction previous fs rule: canonical_manifest_loop.induct) (auto simp: content_phase_def split: if_splits)
  ultimately show "validPublicationPath (gf_path f)" "0 \<le> gf_size f" "validSHA256Text (gf_sha256 f)"
    "content_phase (gf_phase f) \<or> gf_phase f = ''pointer''" by blast+
qed

lemma canonical_distinct: "canonicalManifestArray fs \<Longrightarrow> distinct (map gf_path fs)"
  by (auto simp: canonicalManifestArray_def dest: normalizeManifest_Inr(4) split: sum.splits prod.splits if_splits)

text \<open>The new inventory is valid.\<close>

lemma inventory_valid:
  assumes inventory: "publicationInventory remote target base = Inr inventory" and listed: "tree_List [] r = Inr remote"
    and target: "canonicalManifestArray target" and base: "\<forall>o'\<in>set base. inventory_entry_ok o'"
  shows "sortedInventory inventory"
proof -
  note facts = inventory[unfolded inventory_iff]
  have sorted: "sorted_wrt (<) (map ro_path remote)" using tree_List_view(1)[OF listed] .
  note shape = inventory_sorted[OF inventory, OF strict_sorted_imp_sorted[OF sorted]]
  have "inventory_entry_ok o'" if o': "o' \<in> set inventory" for o'
  proof -
    obtain x where x: "x \<in> set remote" "o' \<in> set (inventory_object target base x)" using o' shape(3) by auto
    then obtain o1 where one: "inventory_object target base x = [o1]" "object_entry o1 = remote_entry x"
        "case index_by gf_path target (ro_path x) of None \<Rightarrow> o1 \<in> set base | Some f \<Rightarrow> po_object_phase o1 = gf_phase f"
      using inventory_object_shape[of x target base] facts by blast
    show ?thesis
    proof (cases "index_by gf_path target (ro_path x)")
      case None
      then show ?thesis using one x(2) base by simp
    next
      case (Some f)
      note f = index_by_Some[OF Some]
      have "ro_path x \<in> gf_path ` set target" using f by force
      then have "content_match target x" using facts x(1) by auto
      then have same: "same_content x f" using Some by (simp add: content_match_def)
      have "tree_view r (ro_path x) = Some x"
        using filesystem_target.list_member[of None None "[]" r remote x] listed x(1) by (simp add: filesystem_backend_def)
      then obtain z where "tree_object (ro_path x) z = x" by (auto simp: tree_view_def)
      moreover have "ro_identity (tree_object p z) = ro_sha256 (tree_object p z)" for p by (simp add: tree_object_def)
      ultimately have "ro_identity x = ro_sha256 x" by metis
      then have "po_object_path o' = gf_path f" "po_object_size o' = gf_size f" "po_object_sha256 o' = gf_sha256 f"
          "po_object_remote o' = gf_sha256 f" "po_object_phase o' = gf_phase f"
        using one x(2) same Some f by (auto simp: object_entry_def remote_entry_def same_content_def)
      moreover have "gf_sha256 f \<noteq> ''''" using canonical_file(3)[OF target, of f] f by (auto simp: validSHA256Text_def)
      ultimately show ?thesis using canonical_file[OF target, of f] f by (simp add: inventory_entry_ok_def valid_object_def)
    qed
  qed
  then show ?thesis using sorted shape(2) by (simp add: sortedInventory_iff)
qed

text \<open>The pointers are read back, and the public sees what was written.\<close>

definition checkpoint_views :: "PublicationAttemptView list \<Rightarrow> PublicationCheckpointView list" where
  "checkpoint_views views = map (\<lambda>v. \<lparr>cv_view = av_view v, cv_pointer = av_pointer v, cv_remote = av_new v\<rparr>) views"

lemma attempt_view_pointer:
  "v \<in> set (publicationAttemptViews plan base) \<Longrightarrow>
     \<exists>q\<in>set (pointer_operations plan). av_pointer v = po_path q \<and> av_new v = po_sha256 q"
  by (force simp: publicationAttemptViews_def)

lemma views_read_back:
  assumes "\<forall>v\<in>set views. \<exists>q. av_pointer v = po_path q \<and> av_new v = po_sha256 q \<and> below (po_path q)
      \<and> tree_at r (po_path q) = Some (operation_file q)" and "\<forall>p. \<not> tt_refused r p"
  shows "publicationCheckpointViews (filesystem_backend http absent) r views = Inr (checkpoint_views views)"
proof -
  let ?f = "\<lambda>result view. case be_head (filesystem_backend http absent) (av_pointer view) r of
         Inr (Some object) \<Rightarrow>
           if ro_sha256 object \<noteq> av_new view then Inl (GoError [ErrIntegrity] ''publication pointer did not verify'')
           else Inr (result @ [\<lparr>cv_view = av_view view, cv_pointer = av_pointer view, cv_remote = ro_identity object\<rparr>])
       | _ \<Rightarrow> Inl (GoError [ErrIntegrity] ''publication pointer did not verify'')"
  have step: "?f acc v = Inr (acc @ checkpoint_views [v])" if v: "v \<in> set views" for acc v
  proof -
    obtain q where q: "av_pointer v = po_path q" "av_new v = po_sha256 q" "below (po_path q)" "tree_at r (po_path q) = Some (operation_file q)"
      using bspec[OF assms(1) v] by (elim exE conjE) (rule that)
    then have "tree_Head (av_pointer v) r = Inr (Some (tree_object (po_path q) (operation_file q)))"
      using assms(2) by (simp add: tree_Head_below)
    then show ?thesis using q(1,2) by (simp add: filesystem_backend_def tree_object_def operation_file_def checkpoint_views_def)
  qed
  have "for_each ?f acc vs = Inr (acc @ checkpoint_views vs)" if "set vs \<subseteq> set views" for acc vs
    using that
  proof (induction vs arbitrary: acc)
    case (Cons v vs)
    have "checkpoint_views (v # vs) = checkpoint_views [v] @ checkpoint_views vs" by (simp add: checkpoint_views_def)
    then show ?case using Cons step[of v acc] by (simp add: and_then_def)
  qed (simp add: checkpoint_views_def)
  then show ?thesis unfolding publicationCheckpointViews_def by simp
qed

lemma verification_files:
  assumes plan: "buildPublicationPlan input legacy = Inr plan"
  obtains files where "publicationVerificationFiles plan (pi_target_manifest input) = Inr files"
    "\<forall>f\<in>set files. \<exists>q\<in>set (write_operations plan). f = \<lparr>gf_path = po_path q, gf_phase = po_phase q, gf_size = po_size q, gf_sha256 = po_sha256 q\<rparr>"
proof -
  let ?target = "pi_target_manifest input" and ?W = "write_operations plan"
  have index: "fileByPath fs = index_by gf_path fs" for fs by (simp add: fileByPath_def index_by_def)
  have step: "verification_step ?target paths q = Inr (paths @ [po_path q])" if "q \<in> set ?W" for paths q
    using write_facts(2)[OF plan that] write_file[OF plan that] by (auto simp: verification_step_def index)
  have loop: "for_each (verification_step ?target) paths qs = Inr (paths @ map po_path qs)" if "set qs \<subseteq> set ?W" for paths qs
    using that by (induction qs arbitrary: paths) (simp_all add: step and_then_def)
  have known: "f = \<lparr>gf_path = po_path q, gf_phase = po_phase q, gf_size = po_size q, gf_sha256 = po_sha256 q\<rparr>"
    if "q \<in> set ?W" "index_by gf_path ?target (po_path q) = Some f" for q f
    using write_file[OF plan that(1)] that(2) by (simp add: index)
  have "for_each (verification_step ?target) [] ?W = Inr (map po_path ?W)" using loop[of ?W "[]"] by simp
  then have "publicationVerificationFiles plan ?target =
      Inr (sort_key gf_path (List.map_filter (index_by gf_path ?target) (remdups (map po_path ?W))))"
    unfolding publicationVerificationFiles_def by (simp add: and_then_def)
  moreover have "\<exists>q\<in>set ?W. f = \<lparr>gf_path = po_path q, gf_phase = po_phase q, gf_size = po_size q, gf_sha256 = po_sha256 q\<rparr>"
    if f: "f \<in> set (List.map_filter (index_by gf_path ?target) (remdups (map po_path ?W)))" for f
  proof -
    have "\<exists>p\<in>set (map po_path ?W). index_by gf_path ?target p = Some f"
      using f unfolding List.map_filter_def set_map set_filter set_remdups by auto
    then obtain q where "q \<in> set ?W" "index_by gf_path ?target (po_path q) = Some f" unfolding set_map by blast
    then show ?thesis using known by blast
  qed
  ultimately show thesis by (intro that[of "sort_key gf_path (List.map_filter (index_by gf_path ?target) (remdups (map po_path ?W)))"])
    (assumption, unfold set_sort, blast)
qed

lemma files_verified:
  assumes "\<forall>f\<in>set files. \<exists>q. f = \<lparr>gf_path = po_path q, gf_phase = po_phase q, gf_size = po_size q, gf_sha256 = po_sha256 q\<rparr>
      \<and> below (po_path q) \<and> tree_at r (po_path q) = Some (operation_file q)" and "\<forall>p. \<not> tt_refused r p"
  shows "verifyPublishedFiles (filesystem_backend None absent) r files = Inr ()"
proof -
  have "tree_VerifyPublic None f r = Inr ()" if f: "f \<in> set files" for f
  proof -
    obtain q where "f = \<lparr>gf_path = po_path q, gf_phase = po_phase q, gf_size = po_size q, gf_sha256 = po_sha256 q\<rparr>"
        "below (po_path q)" "tree_at r (po_path q) = Some (operation_file q)"
      using bspec[OF assms(1) f] by (elim exE conjE) (rule that)
    then show ?thesis using assms(2) by (simp add: tree_VerifyPublic_def tree_Head_below tree_object_def operation_file_def)
  qed
  then show ?thesis unfolding verifyPublishedFiles_def filesystem_backend_def
    by (induction files) (simp_all add: and_then_def)
qed

subsection \<open>The checkpoint and its grace\<close>

lemma checkpoint_views_valid:
  assumes "sortedAttemptViews as" and "map view_pair as = map view_pair views" and "\<forall>v\<in>set views. av_new v \<noteq> ''''"
  shows "sortedCheckpointViews (checkpoint_views views)"
proof -
  have pairs: "map (\<lambda>v. (av_view v, av_pointer v)) as = map (\<lambda>v. (av_view v, av_pointer v)) views"
    using assms(2) by (simp add: view_pair_def[abs_def])
  have keys: "map (\<lambda>v. view_key (av_view v) (av_pointer v)) as = map (\<lambda>v. view_key (av_view v) (av_pointer v)) views"
    using arg_cong[OF pairs, of "map (\<lambda>(a, b). view_key a b)"] by (simp add: comp_def)
  have "\<forall>v\<in>set views. validPublicationPath (av_view v) \<and> validPublicationPath (av_pointer v)"
  proof
    fix v assume "v \<in> set views"
    then have "(av_view v, av_pointer v) \<in> set (map (\<lambda>v. (av_view v, av_pointer v)) as)" unfolding pairs by simp
    then show "validPublicationPath (av_view v) \<and> validPublicationPath (av_pointer v)" using assms(1) by (auto simp: sorted_views_keys)
  qed
  then show ?thesis
    using assms(1,3) unfolding sortedCheckpointViews_def checkpoint_views_def
    by (subst ascending_lenient) (use keys in \<open>auto simp: sorted_views_keys comp_def view_key_def\<close>)
qed

lemma checkpoint_views_match:
  assumes "map view_pair as = map view_pair views" and "\<forall>v\<in>set views. av_new v \<noteq> ''''" and "\<forall>v\<in>set as. av_state v = ViewVerified"
  shows "checkpointViewsMatchVerifiedAttempt (checkpoint_views views) as"
  using assms
proof (induction as views rule: list_induct2')
  case (4 a as v views)
  then show ?case by (simp add: checkpointViewsMatchVerifiedAttempt_def checkpoint_views_def view_pair_def)
qed (simp_all add: checkpointViewsMatchVerifiedAttempt_def checkpoint_views_def)

lemma put_checkpoint_schema:
  "cp_schema c = 0 \<Longrightarrow> PutAppliedCheckpoint now db c t = PutAppliedCheckpoint now db (c\<lparr>cp_schema := 1\<rparr>) t"
  by (simp add: PutAppliedCheckpoint_def)

text \<open>After its checkpoint the attempt is in the applied phase.\<close>

lemma checkpoint_keeps:
  assumes "PutAppliedCheckpoint now db c t = (t', r)"
  shows "pt_grace t' = pt_grace t" "pt_bindings t' = pt_bindings t"
proof -
  have "pt_grace (fst (publication_tx (apply_checkpoint_tx d) t)) = pt_grace t
      \<and> pt_bindings (fst (publication_tx (apply_checkpoint_tx d) t)) = pt_bindings t" for d
    by (auto simp: publication_tx_def apply_checkpoint_tx_def and_then_Inr_iff split: sum.splits prod.splits if_splits)
  then have "pt_grace (fst (PutAppliedCheckpoint now db c t)) = pt_grace t \<and> pt_bindings (fst (PutAppliedCheckpoint now db c t)) = pt_bindings t"
    unfolding PutAppliedCheckpoint_def Let_def by (simp split: sum.split)
  then show "pt_grace t' = pt_grace t" "pt_bindings t' = pt_bindings t" using assms by simp_all
qed

lemma applied_phase:
  assumes ok: "publication_ok t" "publication_ok t'" and rows: "pt_checkpoints t' = pt_checkpoints t @ [d]" and grace: "pt_grace t' = pt_grace t"
    and a: "a \<in> set (pt_attempts t')" "at_identity a = cp_attempt d"
  shows "at_phase a = PhaseApplied"
proof -
  note row = publication_ok_rows[OF ok(2) a(1)]
  have d: "d \<in> set (pt_checkpoints t')" by (simp add: rows)
  have low: "7 \<le> publicationPhaseRank (at_phase a)" using row d a(2) by auto
  have "\<not> 7 < publicationPhaseRank (at_phase a)"
  proof
    assume "7 < publicationPhaseRank (at_phase a)"
    then obtain c g where c: "c \<in> set (pt_checkpoints t')" "cp_attempt c = at_identity a" and g: "g \<in> set (pt_grace t)" "gr_checkpoint g = cp_identity c"
      using row grace by auto
    have "c = d" using checkpoint_attempt_unique(1)[OF ok(2) c(1) d] c(2) a(2) by simp
    then obtain e where "e \<in> set (pt_checkpoints t)" "cp_identity e = cp_identity d"
      using publication_okD(5)[OF ok(1)] g by (auto simp: grace_fits_def)
    moreover have "distinct (map cp_identity (pt_checkpoints t @ [d]))"
      using publication_okD(1)[OF ok(2)] rows by (simp add: tables_keyed_def)
    ultimately show False using image_eqI[of "cp_identity d" cp_identity e "set (pt_checkpoints t)"] by simp
  qed
  then show ?thesis using low by (cases "at_phase a") auto
qed

lemma one_row_unique:
  assumes "r \<in> set rows" "P r" "\<And>x. x \<in> set rows \<Longrightarrow> P x \<Longrightarrow> x = r"
  shows "one_row P rows = Inr r"
proof -
  have "List.find P rows \<noteq> None" using assms(1,2) by (subst find_None_iff) blast
  then obtain x where x: "List.find P rows = Some x" by blast
  then have "x \<in> set rows" "P x" using nth_mem unfolding find_Some_iff by blast+
  then show ?thesis using assms(3) x by (simp add: one_row_def)
qed

text \<open>The grace record of the newest checkpoint is accepted.\<close>

lemma grace_runs:
  assumes reach: "publication_reachable t" and rows: "pt_checkpoints t = cs @ [d]"
    and a: "a \<in> set (pt_attempts t)" "at_identity a = cp_attempt d" "at_phase a = PhaseApplied"
    and b: "b \<in> set (pt_bindings t)" "tb_target b = cp_target d" "publicationGraceMinimum (tb_max_cache_ttl b) = Inr m"
    and g: "gr_target g = cp_target d" "gr_checkpoint g = cp_identity d" "time_ns (gr_verified_at g) + m \<le> time_ns (gr_not_before g)"
    and new: "gr_identity g \<notin> gr_identity ` set (pt_grace t)"
  shows "\<exists>t'. put_grace_tx g t = Inr (t', gr_identity g)"
proof -
  note ok = publication_reachable_ok[OF reach] 
  note parts = publication_okD[OF ok]
  have keyed: "distinct (map tb_target (pt_bindings t))" "distinct (map at_identity (pt_attempts t))" "distinct (map cp_identity (pt_checkpoints t))"
    using parts(1) by (simp_all add: tables_keyed_def)
  have none: "List.find (\<lambda>h. gr_identity h = gr_identity g) (pt_grace t) = None" using new unfolding find_None_iff by (metis image_eqI)
  have binding: "the_binding t (cp_target d) = Inr b" unfolding the_binding_def by (rule one_row_keyed[OF keyed(1) b(1,2)])
  have attempt: "the_attempt t (cp_attempt d) = Inr a" by (rule the_attempt_keyed[OF keyed(2) a(1,2)])
  have d: "d \<in> set (pt_checkpoints t)" by (simp add: rows)
  have checkpoint: "one_row (\<lambda>c. cp_identity c = cp_identity d \<and> cp_target c = cp_target d) (pt_checkpoints t) = Inr d"
    by (rule one_row_unique[OF d]) (use checkpoint_attempt_unique(2)[OF ok _ d] in blast)+
  let ?log = "target_checkpoints t (cp_target d)"
  have "th_checkpoint (log_head (cp_target d) ?log) = Some (cp_identity d)"
    by (simp add: target_checkpoints_def rows log_head_def)
  then have head: "\<exists>h. one_row (\<lambda>h. th_target h = cp_target d \<and> th_checkpoint h = Some (cp_identity d)) (pt_heads t) = Inr h"
    using head_rows[OF ok b(1,2)] by (auto simp: one_row_def find_None_iff split: option.splits)
  have fresh: "\<not> list_ex (\<lambda>h. gr_checkpoint h = cp_identity d) (pt_grace t)"
  proof
    assume "list_ex (\<lambda>h. gr_checkpoint h = cp_identity d) (pt_grace t)"
    then obtain c x s where c: "c \<in> set (pt_checkpoints t)" "cp_identity c = cp_identity d"
        and x: "x \<in> set (pt_attempts t)" "at_identity x = cp_attempt c" "at_phase x \<in> grace_phases s"
      using parts(5) unfolding grace_fits_def list_ex_iff by metis
    have "c = d" by (rule checkpoint_attempt_unique(2)[OF ok c(1) d c(2)])
    then have "x = a" using keyed_unique[OF keyed(2) x(1) a(1)] x(2) a(2) by simp
    then show False using x(3) a(3) by (simp add: grace_phases_def split: if_splits)
  qed
  have "\<exists>rs. update_one (\<lambda>r. at_identity r = at_identity a \<and> at_phase r = PhaseApplied \<and> at_commit r) (\<lambda>r. r\<lparr>at_phase := PhaseGrace\<rparr>)
                   (GoError [ErrConflict] ''applied attempt changed while recording grace'') (pt_attempts t) = Inr rs"
    by (rule update_one_ok[where key = at_identity and Q = "\<lambda>r. at_phase r = PhaseApplied \<and> at_commit r", OF keyed(2) a(1) refl])
      (use a(1,3) attempt_ok_phase[of a] parts(2) in \<open>auto simp: attempts_fit_def\<close>)
  then obtain rs where rs: "update_one (\<lambda>r. at_identity r = at_identity a \<and> at_phase r = PhaseApplied \<and> at_commit r) (\<lambda>r. r\<lparr>at_phase := PhaseGrace\<rparr>)
                   (GoError [ErrConflict] ''applied attempt changed while recording grace'') (pt_attempts t) = Inr rs" by blast
  obtain h where h: "one_row (\<lambda>h. th_target h = cp_target d \<and> th_checkpoint h = Some (cp_identity d)) (pt_heads t) = Inr h" using head by blast
  have current: "current_checkpoint t (gr_target g) (gr_checkpoint g) = Inr (b, a)"
    unfolding current_checkpoint_def g by (simp add: binding checkpoint h attempt and_then_def)
  have late: "\<not> time_ns (gr_not_before g) < time_ns (gr_verified_at g) + m" using g(3) by simp
  show ?thesis
    unfolding put_grace_tx_def graceSemanticMatchTx_def none option.case prod.case if_False current
    by (simp only: and_then_simps prod.case a(3) b(3) late fresh rs g(2) simp_thms if_False if_True) simp
qed

text \<open>The two records that close a publication: the checkpoint of what the target holds, and its grace record.
  Each is identified by the SHA-256 digest of its own fields. \<open>identity_taken\<close> says that one of these
  two digests, of the records this very run computes once its writes are done, already identifies a
  record of another attempt or of another checkpoint.\<close>

definition closing_checkpoint ::
    "'r publish_env \<Rightarrow> 'r publicationBackend \<Rightarrow> PublicationTargetBinding \<Rightarrow> string \<Rightarrow> GenerationID \<Rightarrow> string
      \<Rightarrow> GenerationFile list \<Rightarrow> PublicationObject list \<Rightarrow> PublicationAttemptView list \<Rightarrow> 'r \<Rightarrow> AppliedCheckpoint result" where
  "closing_checkpoint env be b i generation manifestSHA target base views r =
     and_then (be_list be [] r) (\<lambda>remote.
     and_then (publicationInventory remote target base) (\<lambda>inventory.
     and_then (publicationCheckpointViews be r views) (\<lambda>checkpointViews.
       Inr (sealed \<lparr>cp_identity = '''', cp_schema = 1, cp_repository = tb_repository b, cp_target = tb_target b,
           cp_attempt = i, cp_generation = generation, cp_manifest = manifestSHA,
           cp_inventory_identity = '''', cp_complete = True, cp_views = checkpointViews, cp_inventory = inventory,
           cp_applied_at = pe_applied_at env\<rparr>))))"

definition closing_grace :: "PublicationTargetBinding \<Rightarrow> AppliedCheckpoint \<Rightarrow> GraceRecord result" where
  "closing_grace b c =
     and_then (managed_grace_minimum (tb_max_cache_ttl b)) (\<lambda>minimum.
       let g = \<lparr>gr_identity = '''', gr_schema = 1, gr_target = tb_target b, gr_checkpoint = cp_identity c,
                gr_verified_at = cp_applied_at c, gr_not_before = time_Add (cp_applied_at c) minimum,
                gr_policy = cache_policy b, gr_state = ''grace''\<rparr>
       in Inr (g\<lparr>gr_identity := graceSemanticIdentity g\<rparr>))"

definition identity_taken ::
    "'r publish_env \<Rightarrow> 'r publicationBackend \<Rightarrow> PublicationTargetBinding \<Rightarrow> string \<Rightarrow> GenerationID \<Rightarrow> string \<Rightarrow> PublicationPlan
      \<Rightarrow> GenerationFile list \<Rightarrow> PublicationObject list \<Rightarrow> PublicationAttemptView list \<Rightarrow> 'r world \<Rightarrow> bool" where
  "identity_taken env be b i generation manifestSHA plan target base views w \<longleftrightarrow>
     (case run_actions be (pe_source env) (pe_fault env) i (prepare_actions i plan views @ commit_actions i plan) w of
        (_, Inl _) \<Rightarrow> False
      | (w1, Inr _) \<Rightarrow> (case closing_checkpoint env be b i generation manifestSHA target base views (w_remote w1) of
           Inl _ \<Rightarrow> False
         | Inr c \<Rightarrow> (\<exists>d\<in>set (pt_checkpoints (w_tables w)). cp_attempt d \<noteq> i \<and> cp_identity d = cp_identity c)
             \<or> (case closing_grace b c of
                  Inl _ \<Rightarrow> False
                | Inr h \<Rightarrow> \<exists>g\<in>set (pt_grace (w_tables w)). gr_checkpoint g \<noteq> cp_identity c \<and> gr_identity g = gr_identity h)))"

lemma not_taken:
  assumes "pt_checkpoints (w_tables w) = []" and "pt_grace (w_tables w) = []"
  shows "\<not> identity_taken env be b i generation manifestSHA plan target base views w"
proof (cases "run_actions be (pe_source env) (pe_fault env) i (prepare_actions i plan views @ commit_actions i plan) w")
  case (Pair w1 x)
  then show ?thesis
    by (cases x; cases "closing_checkpoint env be b i generation manifestSHA target base views (w_remote w1)")
      (simp_all add: identity_taken_def assms split: sum.split)
qed

lemma put_grace_runs:
  assumes reach: "publication_reachable t" and rows: "pt_checkpoints t = cs @ [d]" and d: "cp_target d = tb_target b" "cp_identity d = i"
    and a: "a \<in> set (pt_attempts t)" "at_identity a = cp_attempt d" "at_phase a = PhaseApplied"
    and b: "b0 \<in> set (pt_bindings t)" "tb_target b0 = tb_target b" "tb_max_cache_ttl b0 = tb_max_cache_ttl b"
      "publicationGraceMinimum (tb_max_cache_ttl b) = Inr m"
    and c: "cp_identity c = i" "validSHA256Text i" "civil (cp_applied_at c)" "time_Before zero_time (cp_applied_at c)"
    and new: "\<And>h. closing_grace b c = Inr h \<Longrightarrow> gr_identity h \<notin> gr_identity ` set (pt_grace t)"
  shows "\<exists>t'. putPublicationGrace b c t = (t', Inr ())"
proof -
  have m: "0 \<le> m" using b(4) by (auto simp: publicationGraceMinimum_def hour_ns_def publicationCacheGracePadding_def Let_def split: if_splits)
  let ?g = "\<lparr>gr_identity = '''', gr_schema = 1, gr_target = tb_target b, gr_checkpoint = i, gr_verified_at = cp_applied_at c,
     gr_not_before = time_Add (cp_applied_at c) m, gr_policy = cache_policy b, gr_state = ''grace''\<rparr>"
  let ?h = "?g\<lparr>gr_identity := graceSemanticIdentity ?g\<rparr>"
  have target: "validSHA256Text (tb_target b)"
  proof -
    have "d \<in> set (pt_checkpoints t)" by (simp add: rows)
    then show ?thesis
      using publication_okD(4)[OF publication_reachable_ok[OF reach]] d(1)
      by (auto simp: checkpoints_fit_def checkpoint_ok_def validateAppliedCheckpoint_def split: if_splits)
  qed
  have policy: "validSHA256Text (cache_policy b)" by (simp add: cache_policy_def)
  note add = time_Add_positive[OF c(3) m c(4)]
  have "closing_grace b c = Inr ?h"
    using b(4) c(1) by (simp add: closing_grace_def managed_grace_minimum_def refuse_def Let_def)
  note new = new[OF this]
  have "time_ns (gr_verified_at ?h) + m \<le> time_ns (gr_not_before ?h)" using time_ns_Add[OF add(2)] by simp
  then obtain t' where "put_grace_tx ?h t = Inr (t', gr_identity ?h)"
    using grace_runs[OF reach rows a b(1) _ _, of m ?h] b d new by auto
  moreover have "cp_applied_at c \<noteq> zero_time" using c(4) by (auto simp: time_Before_def)
  ultimately have "PutGraceRecord (?g\<lparr>gr_schema := 0\<rparr>) t = (t', Inr (graceSemanticIdentity ?g))"
    using target c(2) policy add(1) time_Add_not_before[OF c(3) m]
    by (simp add: PutGraceRecord_def Let_def publication_tx_def acceptSemanticIdentity_def)
  then show ?thesis
    using b(4) c(1) by (auto simp: putPublicationGrace_def managed_grace_minimum_def refuse_def do_then_def answer_def)
qed

text \<open>The two records that close a publication, one after the other.\<close>

lemma checkpoint_and_grace:
  assumes reach: "publication_reachable t" and a: "a \<in> set (pt_attempts t)" "at_phase a = PhaseVerified"
    and own: "at_identity a = cp_attempt c" "at_repository a = cp_repository c" "at_target a = cp_target c"
      "at_generation a = cp_generation c" "at_manifest a = cp_manifest c"
    and views: "checkpointViewsMatchVerifiedAttempt (cp_views c) (at_views a)"
    and c: "cp_schema c = 0" "validateAppliedCheckpoint (c\<lparr>cp_schema := 1\<rparr>) = Inr ()" "cp_identity c = ''''" "cp_inventory_identity c = ''''"
    and closed: "generationManifestOn db (cp_generation c) = Inr manifest" "ManifestBytes manifest = Inr (bytes, cp_manifest c)"
      "inventoryContainsManifest (cp_inventory c) manifest"
    and b: "b0 \<in> set (pt_bindings t)" "tb_target b0 = tb_target b" "tb_max_cache_ttl b0 = tb_max_cache_ttl b"
      "publicationGraceMinimum (tb_max_cache_ttl b) = Inr minimum" "cp_target c = tb_target b"
    and time: "civil (cp_applied_at c)" "time_Before zero_time (cp_applied_at c)"
    and new: "\<forall>d\<in>set (pt_checkpoints t). cp_identity d \<noteq> cp_identity (sealed (c\<lparr>cp_schema := 1\<rparr>))
        \<and> (cp_target d = cp_target c \<longrightarrow> cp_generation d = cp_generation c \<longrightarrow> cp_manifest d \<noteq> cp_manifest c)"
      "\<And>h. closing_grace b (sealed (c\<lparr>cp_schema := 1\<rparr>)) = Inr h \<Longrightarrow> gr_identity h \<notin> gr_identity ` set (pt_grace t)"
  shows "\<exists>t2 i. PutAppliedCheckpoint now db c t = (t2, Inr i) \<and> i \<notin> cp_identity ` set (pt_checkpoints t)
    \<and> (\<exists>t3. putPublicationGrace b (c\<lparr>cp_identity := i\<rparr>) t2 = (t3, Inr ()))"
proof -
  let ?d = "sealed (c\<lparr>cp_schema := 1\<rparr>)"
  have id: "validSHA256Text (cp_identity ?d)" "cp_identity ?d \<notin> cp_identity ` set (pt_checkpoints t)"
    using new(1) unfolding sealed_identity[of "c\<lparr>cp_schema := 1\<rparr>"] by auto
  obtain t2 where put: "PutAppliedCheckpoint now db c t = (t2, Inr (cp_identity ?d))" and t2: "publication_reachable t2"
      "pt_checkpoints t2 = pt_checkpoints t @ [?d]"
    using applies_run[OF reach a, of "c\<lparr>cp_schema := 1\<rparr>" db manifest bytes now] own views c closed new(1)
      put_checkpoint_schema[OF c(1), of now db t] by auto
  note keeps = checkpoint_keeps[OF put]
  note ok = publication_reachable_ok[OF reach] publication_reachable_ok[OF t2(1)]
  have "publication_step t t2" using publication_step.checkpoint[of t now db c] put by simp
  then obtain y where y: "y \<in> set (pt_attempts t2)" "same_plan a y"
    using moved_rows[OF ok(1) publication_step_moves[OF _ ok(1)] a(1)] by blast
  have y_id: "at_identity y = cp_attempt ?d" using same_plan_fields(1)[OF y(2)] own(1) by simp
  have "closing_grace b (c\<lparr>cp_identity := cp_identity ?d\<rparr>) = closing_grace b ?d"
    by (simp add: closing_grace_def sealed_def Let_def)
  then have fresh: "gr_identity h \<notin> gr_identity ` set (pt_grace t2)" if "closing_grace b (c\<lparr>cp_identity := cp_identity ?d\<rparr>) = Inr h" for h
    using new(2)[of h] that keeps(1) by simp
  have "\<exists>t3. putPublicationGrace b (c\<lparr>cp_identity := cp_identity ?d\<rparr>) t2 = (t3, Inr ())"
    by (rule put_grace_runs[OF t2 _ refl y(1) y_id applied_phase[OF ok t2(2) keeps(1) y(1) y_id] _ b(2-4) _ _ _ _ fresh])
      (use b(1,5) keeps(2) id(1) time in simp_all)
  then show ?thesis using put id(2) by blast
qed

subsection \<open>The whole run\<close>

text \<open>What the run leaves before its checkpoint: the attempt verified, and the tree written.\<close>

lemma writes_run:
  assumes reach: "publication_reachable (w_tables w)" and a: "a \<in> set (pt_attempts (w_tables w))"
    and open': "write_active (at_phase a)" "at_phase a \<noteq> PhaseApplied"
    and views: "map view_pair (at_views a) = map view_pair views" "views = publicationAttemptViews plan base"
    and plan: "buildPublicationPlan input legacy = Inr plan" "writes_plain plan"
    and ready: "tree_ready source (at_identity a) plan input base (w_remote w)" and fault: "\<And>point. fault point = Inr ()"
  obtains t0 t1 r v where
    "run_actions (filesystem_backend http absent) source fault (at_identity a)
       (prepare_actions (at_identity a) plan views @ commit_actions (at_identity a) plan) w = (w\<lparr>w_tables := t0, w_remote := r\<rparr>, Inr ())"
    "run_actions (filesystem_backend http absent) source fault (at_identity a) (verify_actions (at_identity a) views)
       (w\<lparr>w_tables := t0, w_remote := r\<rparr>) = (w\<lparr>w_tables := t1, w_remote := r\<rparr>, Inr ())"
    "publication_reachable t1" "pt_checkpoints t1 = pt_checkpoints (w_tables w)" "pt_grace t1 = pt_grace (w_tables w)"
    "pt_bindings t1 = pt_bindings (w_tables w)"
    "v \<in> set (pt_attempts t1)" "same_plan a v" "at_phase v = PhaseVerified" "\<forall>x\<in>set (at_views v). av_state x = ViewVerified"
    "tree_at r = fold (put_effect (at_identity a)) (write_operations plan) (tree_at (w_remote w))" "tt_refused r = tt_refused (w_remote w)"
proof -
  let ?i = "at_identity a" and ?be = "filesystem_backend http absent" and ?t = "w_tables w"
  let ?run = "prepare_actions ?i plan views @ commit_actions ?i plan"
  let ?calls = "publish_calls ?i (map view_pair (at_views a)) (written_pointers plan)"
  have id: "validSHA256Text ?i"
    using publication_ok_rows[OF publication_reachable_ok[OF reach] a] by (metis identity_valid(3))
  have "set (written_pointers plan) = set (map view_pair (at_views a))"
    using attempt_views_pairs[of plan base] views by simp
  from publication_recovers[OF reach a open' this] obtain t1 v where t1: "for_each run_call ?t ?calls = Inr t1" "publication_reachable t1"
      "v \<in> set (pt_attempts t1)" "same_plan a v" "at_phase v = PhaseVerified" "\<forall>x\<in>set (at_views v). av_state x = ViewVerified"
    by blast
  have same: "pt_checkpoints t1 = pt_checkpoints ?t" "pt_grace t1 = pt_grace ?t" "pt_bindings t1 = pt_bindings ?t"
    by (rule calls_keep[OF t1(1)], use protocol_keeps in blast)+
  have "for_each run_call ?t (records ?run @ records (verify_actions ?i views)) = Inr t1"
    using t1(1) by (simp only: publish_records views(1))
  then obtain t0 where t0: "for_each run_call ?t (records ?run) = Inr t0" "for_each run_call t0 (records (verify_actions ?i views)) = Inr t1"
    by (auto simp: for_each_append and_then_Inr_iff)
  let ?S = "set (plan_stages plan ?i)"
  have "\<exists>r. put_all ?be source ?i (uploads ?run) (w_remote w) = (r, Inr ()) \<and> tt_refused r = tt_refused (w_remote w)
      \<and> tree_at r = fold (put_effect ?i) (uploads ?run) (tree_at (w_remote w))"
    unfolding action_uploads
    by (rule put_all_runs[where S = ?S]) (use ready plan_writes_fit[OF plan id] write_facts(1)[OF plan(1)] in \<open>unfold tree_ready_def, blast+\<close>)
  then obtain r where r: "put_all ?be source ?i (uploads ?run) (w_remote w) = (r, Inr ())" "tt_refused r = tt_refused (w_remote w)"
      "tree_at r = fold (put_effect ?i) (write_operations plan) (tree_at (w_remote w))"
    unfolding action_uploads by blast
  have run: "run_actions ?be source fault ?i ?run w = (w\<lparr>w_tables := t0, w_remote := r\<rparr>, Inr ())"
    by (rule run_split[OF t0(1) r(1) fault])
  have "run_actions ?be source fault ?i (verify_actions ?i views) (w\<lparr>w_tables := t0, w_remote := r\<rparr>)
      = (w\<lparr>w_tables := t0, w_remote := r\<rparr>\<lparr>w_tables := t1, w_remote := r\<rparr>, Inr ())"
    by (rule run_split[OF _ _ fault]) (use t0(2) in \<open>simp_all add: verify_actions_def put_all_Cons\<close>)
  then show thesis using that[OF run _ t1(2) same t1(3-6) r(3,2)] by simp
qed



lemma observe_keeps_generations:
  "ObserveRepositoryTime ckpt now db = (db', r) \<Longrightarrow> generationManifestOn db' g = generationManifestOn db g"
  by (auto simp: ObserveRepositoryTime_def commit_def observe_time_tx_def generationManifestOn_def files_of_def find_generation_def
      split: if_splits option.splits sum.splits)

lemma finish_run:
  assumes "be_list be [] (w_remote w) = Inr remote" and "publicationInventory remote target base = Inr inventory"
    and "run_actions be (pe_source env) (pe_fault env) i (verify_actions i views) w = (w1, Inr ())"
    and "publicationCheckpointViews be (w_remote w1) views = Inr checkpointViews"
    and "publicationVerificationFiles plan target = Inr files" and "verifyPublishedFiles be (w_remote w1) files = Inr ()"
    and "ObserveRepositoryTime (Inr ()) (pe_applied_at env) (w_db w1) = (db', Inr ())" and fault: "\<And>point. pe_fault env point = Inr ()"
    and c: "c = \<lparr>cp_identity = '''', cp_schema = 0, cp_repository = tb_repository b, cp_target = tb_target b,
           cp_attempt = i, cp_generation = generation, cp_manifest = manifestSHA,
           cp_inventory_identity = '''', cp_complete = True, cp_views = checkpointViews, cp_inventory = inventory,
           cp_applied_at = pe_applied_at env\<rparr>"
  shows "PutAppliedCheckpoint (pe_applied_at env) db' c (w_tables w1) = (t2, Inl e) \<Longrightarrow>
      publish_finish env be b i generation manifestSHA plan target base views w = (w1\<lparr>w_db := db', w_tables := t2\<rparr>, Inl e)"
    and "PutAppliedCheckpoint (pe_applied_at env) db' c (w_tables w1) = (t2, Inr identity) \<Longrightarrow>
      putPublicationGrace b (c\<lparr>cp_identity := identity\<rparr>) t2 = (t3, Inr ()) \<Longrightarrow>
      publish_finish env be b i generation manifestSHA plan target base views w = (w1\<lparr>w_db := db', w_tables := t3\<rparr>,
        Inr \<lparr>pr_generation = generation, pr_attempt = i, pr_checkpoint = identity, pr_phase = ''grace'',
             pr_objects = length inventory, pr_noop = False\<rparr>)"
  unfolding publish_finish_def Let_def c do_then_def ask_def answer_def on_db_def on_tables_def
  by (simp_all add: assms(1-7) fault refuse_def)

lemma publish_write_runs:
  assumes reach: "publication_reachable (w_tables w)" and a: "a \<in> set (pt_attempts (w_tables w))"
    and open': "write_active (at_phase a)" "at_phase a \<noteq> PhaseApplied"
    and own: "at_repository a = tb_repository b" "at_target a = tb_target b" "at_generation a = generation" "at_manifest a = manifestSHA"
    and views: "map view_pair (at_views a) = map view_pair (publicationAttemptViews plan base)"
    and plan: "buildPublicationPlan input legacy = Inr plan" "writes_plain plan"
    and ready: "tree_ready (pe_source env) (at_identity a) plan input base (w_remote w)"
    and fault: "\<And>point. pe_fault env point = Inr ()"
    and db: "generationManifestOn (w_db w) generation = Inr (pi_target_manifest input)"
      "ManifestBytes (pi_target_manifest input) = Inr (bytes, manifestSHA)"
    and clock: "ObserveRepositoryTime (Inr ()) (pe_applied_at env) (w_db w) = (db', Inr ())" "civil (pe_applied_at env)"
      "time_Before zero_time (pe_applied_at env)"
    and ttl: "b0 \<in> set (pt_bindings (w_tables w))" "tb_target b0 = tb_target b" "tb_max_cache_ttl b0 = tb_max_cache_ttl b"
      "publicationGraceMinimum (tb_max_cache_ttl b) = Inr minimum"
  shows "identity_taken env (filesystem_backend None absent) b (at_identity a) generation manifestSHA plan
      (pi_target_manifest input) base (publicationAttemptViews plan base) w
    \<or> (if \<exists>d\<in>set (pt_checkpoints (w_tables w)). cp_target d = tb_target b \<and> cp_generation d = generation \<and> cp_manifest d = manifestSHA
       then \<exists>w'. publish_write env (filesystem_backend None absent) b (at_identity a) generation manifestSHA plan
           (pi_target_manifest input) base (publicationAttemptViews plan base) w
             = (w', Inl (plain_error ''UNIQUE constraint failed: publication_checkpoints''))
         \<and> pt_checkpoints (w_tables w') = pt_checkpoints (w_tables w)
       else \<exists>w' result. publish_write env (filesystem_backend None absent) b (at_identity a) generation manifestSHA plan
           (pi_target_manifest input) base (publicationAttemptViews plan base) w = (w', Inr result)
         \<and> pr_phase result = ''grace'' \<and> pr_checkpoint result \<notin> cp_identity ` set (pt_checkpoints (w_tables w)))"
proof -
  let ?i = "at_identity a" and ?be = "filesystem_backend None absent" and ?t = "w_tables w" and ?target = "pi_target_manifest input"
  let ?views = "publicationAttemptViews plan base"
  have id: "validSHA256Text ?i" using publication_ok_rows[OF publication_reachable_ok[OF reach] a] by (metis identity_valid(3))
  obtain t0 t1 r v where run:
    "run_actions ?be (pe_source env) (pe_fault env) ?i (prepare_actions ?i plan ?views @ commit_actions ?i plan) w
       = (w\<lparr>w_tables := t0, w_remote := r\<rparr>, Inr ())"
    "run_actions ?be (pe_source env) (pe_fault env) ?i (verify_actions ?i ?views) (w\<lparr>w_tables := t0, w_remote := r\<rparr>)
       = (w\<lparr>w_tables := t1, w_remote := r\<rparr>, Inr ())"
    and t1: "publication_reachable t1" "pt_checkpoints t1 = pt_checkpoints ?t" "pt_grace t1 = pt_grace ?t" "pt_bindings t1 = pt_bindings ?t"
    and v: "v \<in> set (pt_attempts t1)" "same_plan a v" "at_phase v = PhaseVerified" "\<forall>x\<in>set (at_views v). av_state x = ViewVerified"
    and r: "tree_at r = fold (put_effect ?i) (write_operations plan) (tree_at (w_remote w))" "tt_refused r = tt_refused (w_remote w)"
    by (rule writes_run[OF reach a open' views refl plan ready fault]) (rule that)
  note tree = written_tree[OF plan id ready r]
  have clear: "\<forall>p. \<not> tt_refused r p" using ready r(2) by (simp add: tree_ready_def)
  have plain: "below (po_path q)" if "q \<in> set (write_operations plan)" for q
    using plan(2) that by (simp add: writes_plain_def plain_path_def)
  obtain remote where remote: "tree_List [] r = Inr remote" using tree(4) by blast
  obtain inventory where inventory: "publicationInventory remote ?target base = Inr inventory"
    using written_inventory[OF plan id ready r remote] by blast
  have listed: "be_list ?be [] r = Inr remote" using remote by (simp add: filesystem_backend_def)
  have seen: "publicationCheckpointViews ?be r ?views = Inr (checkpoint_views ?views)"
  proof (rule views_read_back[OF _ clear], rule ballI)
    fix x assume "x \<in> set ?views"
    then obtain q where q: "q \<in> set (pointer_operations plan)" "av_pointer x = po_path q" "av_new x = po_sha256 q"
      using attempt_view_pointer by blast
    then have "q \<in> set (write_operations plan)" by auto
    then show "\<exists>q. av_pointer x = po_path q \<and> av_new x = po_sha256 q \<and> below (po_path q) \<and> tree_at r (po_path q) = Some (operation_file q)"
      using q plain tree(1) by blast
  qed
  obtain files where files: "publicationVerificationFiles plan ?target = Inr files"
      and written: "\<forall>f\<in>set files. \<exists>q\<in>set (write_operations plan). f = \<lparr>gf_path = po_path q, gf_phase = po_phase q, gf_size = po_size q, gf_sha256 = po_sha256 q\<rparr>"
    by (rule verification_files[OF plan(1)]) (rule that)
  have verified: "verifyPublishedFiles ?be r files = Inr ()"
    by (rule files_verified[OF _ clear]) (use written plain tree(1) in blast)
  let ?c = "\<lparr>cp_identity = '''', cp_schema = 0, cp_repository = tb_repository b, cp_target = tb_target b,
           cp_attempt = ?i, cp_generation = generation, cp_manifest = manifestSHA,
           cp_inventory_identity = '''', cp_complete = True, cp_views = checkpoint_views ?views, cp_inventory = inventory,
           cp_applied_at = pe_applied_at env\<rparr>"
  let ?d = "sealed (?c\<lparr>cp_schema := 1\<rparr>)"
  obtain s where "plan_guard input = Inr s" using buildPublicationPlan_Inr[OF plan(1)] by metis
  then have array: "canonicalManifestArray ?target" by (rule plan_guard_manifests(2))
  have valid_a: "plan_valid v" using publication_ok_rows[OF publication_reachable_ok[OF t1(1)] v(1)] validate_attempt_exact by blast
  have shown: "\<forall>x\<in>set ?views. av_new x \<noteq> ''''"
  proof
    fix x assume "x \<in> set ?views"
    then obtain q where q: "q \<in> set (pointer_operations plan)" "av_new x = po_sha256 q" using attempt_view_pointer by blast
    then have "q \<in> set (write_operations plan)" by auto
    from fileByPath_Some[OF write_file[OF plan(1) this]] have "validSHA256Text (po_sha256 q)"
      using canonical_file(3)[OF array] by fastforce
    then show "av_new x \<noteq> ''''" using q(2) by (auto simp: validSHA256Text_def)
  qed
  have pairs: "map view_pair (at_views v) = map view_pair ?views" using same_plan_fields(9)[OF v(2)] views by simp
  have sorted: "sortedInventory inventory"
    using inventory_valid[OF inventory remote array] ready by (simp add: tree_ready_def)
  have valid: "validateAppliedCheckpoint (?c\<lparr>cp_schema := 1\<rparr>) = Inr ()"
    using valid_a own same_plan_fields[OF v(2)] sorted id checkpoint_views_valid[OF _ pairs shown] clock(3)
    by (auto simp: validateAppliedCheckpoint_def plan_valid_def time_Before_def)
  have contains: "inventoryContainsManifest inventory ?target"
    using inventory_contains[OF inventory] tree_List_view(1)[OF remote] canonical_distinct[OF array]
    by (simp add: strict_sorted_iff)
  have match: "checkpointViewsMatchVerifiedAttempt (checkpoint_views ?views) (at_views v)"
    by (rule checkpoint_views_match[OF pairs shown v(4)])
  have closed: "generationManifestOn db' generation = Inr ?target" using db(1) observe_keeps_generations[OF clock(1)] by simp
  have fits: "at_identity v = cp_attempt ?c" "at_repository v = cp_repository ?c" "at_target v = cp_target ?c"
    "at_generation v = cp_generation ?c" "at_manifest v = cp_manifest ?c"
    "checkpointViewsMatchVerifiedAttempt (cp_views ?c) (at_views v)"
    "generationManifestOn db' (cp_generation ?c) = Inr ?target" "ManifestBytes ?target = Inr (bytes, cp_manifest ?c)"
    "inventoryContainsManifest (cp_inventory ?c) ?target"
    using own same_plan_fields[OF v(2)] match closed db(2) contains by simp_all
  let ?w = "w\<lparr>w_tables := t0, w_remote := r\<rparr>"
  note finish = finish_run[of ?be ?w remote ?target base inventory env ?i ?views "w\<lparr>w_tables := t1, w_remote := r\<rparr>" "checkpoint_views ?views" plan files
      db' ?c b generation manifestSHA]
  have written_run: "publish_write env ?be b ?i generation manifestSHA plan ?target base ?views w
      = publish_finish env ?be b ?i generation manifestSHA plan ?target base ?views ?w"
    using run(1) by (simp add: publish_write_def do_then_run)
  show ?thesis
  proof (cases "identity_taken env ?be b ?i generation manifestSHA plan ?target base ?views w")
    case free: False
    have "closing_checkpoint env ?be b ?i generation manifestSHA ?target base ?views r = Inr ?d"
      by (simp add: closing_checkpoint_def listed inventory seen)
    then have free: "\<not> (\<exists>d\<in>set (pt_checkpoints ?t). cp_attempt d \<noteq> ?i \<and> cp_identity d = cp_identity ?d)"
      "closing_grace b ?d = Inr h \<Longrightarrow> \<not> (\<exists>g\<in>set (pt_grace ?t). gr_checkpoint g \<noteq> cp_identity ?d \<and> gr_identity g = gr_identity h)" for h
      using free by (simp_all add: identity_taken_def run(1))
    have new: "\<forall>d\<in>set (pt_checkpoints t1). cp_identity d \<noteq> cp_identity ?d"
      using verified_unapplied[OF publication_reachable_ok[OF t1(1)] v(1,3)] free(1) fits(1) t1(2) by fastforce
    have new_grace: "gr_identity h \<notin> gr_identity ` set (pt_grace t1)" if h: "closing_grace b ?d = Inr h" for h
    proof
      assume "gr_identity h \<in> gr_identity ` set (pt_grace t1)"
      then obtain g where g: "g \<in> set (pt_grace t1)" "gr_identity g = gr_identity h" by auto
      then obtain e where "e \<in> set (pt_checkpoints t1)" "cp_identity e = gr_checkpoint g"
        using publication_okD(5)[OF publication_reachable_ok[OF t1(1)]] unfolding grace_fits_def by metis
      then have "gr_checkpoint g \<noteq> cp_identity ?d" using new by metis
      then show False using free(2)[OF h] g t1(3) by metis
    qed
    show ?thesis
    proof (cases "\<exists>d\<in>set (pt_checkpoints ?t). cp_target d = tb_target b \<and> cp_generation d = generation \<and> cp_manifest d = manifestSHA")
      case again: True
      have "PutAppliedCheckpoint (pe_applied_at env) db' ?c t1 = (t1, Inl (plain_error ''UNIQUE constraint failed: publication_checkpoints''))"
        using repeated_run[OF t1(1) v(1,3), of "?c\<lparr>cp_schema := 1\<rparr>" db' ?target bytes "pe_applied_at env"] fits valid new again
        by (simp add: put_checkpoint_schema t1(2))
      then have "publish_finish env ?be b ?i generation manifestSHA plan ?target base ?views ?w
          = (w\<lparr>w_tables := t1, w_remote := r\<rparr>\<lparr>w_db := db', w_tables := t1\<rparr>,
             Inl (plain_error ''UNIQUE constraint failed: publication_checkpoints''))"
        by (intro finish(1)) (simp_all add: listed inventory run(2) seen files verified clock(1) fault)
      then show ?thesis using again t1(2) by (simp add: written_run)
    next
      case first: False
      have "\<exists>t2 i. PutAppliedCheckpoint (pe_applied_at env) db' ?c t1 = (t2, Inr i) \<and> i \<notin> cp_identity ` set (pt_checkpoints t1)
        \<and> (\<exists>t3. putPublicationGrace b (?c\<lparr>cp_identity := i\<rparr>) t2 = (t3, Inr ()))"
        by (rule checkpoint_and_grace[OF t1(1) v(1,3) fits(1-6) _ valid _ _ fits(7-9) _ ttl(2-4) _ _ _ _ new_grace])
          (use first new t1(2,4) ttl(1) clock(2,3) in auto)
      then obtain t2 i t3 where stored: "PutAppliedCheckpoint (pe_applied_at env) db' ?c t1 = (t2, Inr i)" "i \<notin> cp_identity ` set (pt_checkpoints ?t)"
          "putPublicationGrace b (?c\<lparr>cp_identity := i\<rparr>) t2 = (t3, Inr ())" unfolding t1(2) by blast
      have "publish_finish env ?be b ?i generation manifestSHA plan ?target base ?views ?w
          = (w\<lparr>w_tables := t1, w_remote := r\<rparr>\<lparr>w_db := db', w_tables := t3\<rparr>,
             Inr \<lparr>pr_generation = generation, pr_attempt = ?i, pr_checkpoint = i, pr_phase = ''grace'',
               pr_objects = length inventory, pr_noop = False\<rparr>)"
        by (rule finish(2)[where ?t2.0 = t2]) (use stored(1,3) in \<open>simp_all add: listed inventory run(2) seen files verified clock(1) fault\<close>)
      then show ?thesis using first stored(2) by (auto simp: written_run)
    qed
  qed simp
qed

subsection \<open>What publishing achieves\<close>

text \<open>C5. A publication completes. For a directory tree in which nothing is out of reach, that is in any
  state between the old inventory and the new generation, and a repository that has the bytes of the
  generation, publishing an open attempt runs through every phase to its grace record, wherever the
  attempt stood, whatever part of it was done before and whatever was published before. The one
  refusal is the unique key of the checkpoints, exactly when the target already has a checkpoint of this
  generation and manifest; and the statement leaves open only a SHA-256 collision of one of the two
  records the run computes with a stored one.\<close>

theorem publish_completes:
  assumes reach: "publication_reachable (w_tables w)" and a: "a \<in> set (pt_attempts (w_tables w))"
    and open': "write_active (at_phase a)" "at_phase a \<noteq> PhaseApplied"
    and own: "at_repository a = tb_repository b" "at_target a = tb_target b" "at_generation a = generation" "at_manifest a = manifestSHA"
    and views: "map view_pair (at_views a) = map view_pair (publicationAttemptViews plan base)"
    and plan: "buildPublicationPlan input legacy = Inr plan" "writes_plain plan"
    and ready: "tree_ready (pe_source env) (at_identity a) plan input base (w_remote w)"
    and fault: "\<And>point. pe_fault env point = Inr ()"
    and db: "generationManifestOn (w_db w) generation = Inr (pi_target_manifest input)"
      "ManifestBytes (pi_target_manifest input) = Inr (bytes, manifestSHA)"
    and clock: "ObserveRepositoryTime (Inr ()) (pe_applied_at env) (w_db w) = (db', Inr ())" "civil (pe_applied_at env)"
      "time_Before zero_time (pe_applied_at env)"
    and ttl: "b0 \<in> set (pt_bindings (w_tables w))" "tb_target b0 = tb_target b" "tb_max_cache_ttl b0 = tb_max_cache_ttl b"
      "publicationGraceMinimum (tb_max_cache_ttl b) = Inr minimum"
  shows "identity_taken env (filesystem_backend None absent) b (at_identity a) generation manifestSHA plan
      (pi_target_manifest input) base (publicationAttemptViews plan base) w
    \<or> (if \<exists>d\<in>set (pt_checkpoints (w_tables w)). cp_target d = tb_target b \<and> cp_generation d = generation \<and> cp_manifest d = manifestSHA
       then \<exists>w'. publish_write env (filesystem_backend None absent) b (at_identity a) generation manifestSHA plan
           (pi_target_manifest input) base (publicationAttemptViews plan base) w
             = (w', Inl (plain_error ''UNIQUE constraint failed: publication_checkpoints''))
         \<and> pt_checkpoints (w_tables w') = pt_checkpoints (w_tables w)
       else \<exists>w' result. publish_write env (filesystem_backend None absent) b (at_identity a) generation manifestSHA plan
           (pi_target_manifest input) base (publicationAttemptViews plan base) w = (w', Inr result)
         \<and> pr_phase result = ''grace'' \<and> pr_checkpoint result \<notin> cp_identity ` set (pt_checkpoints (w_tables w)))"
  by (rule publish_write_runs[OF assms])

text \<open>C6. A publication that reports success has published exactly the generation. It has appended one
  checkpoint, of its attempt and generation, which is now the head of the target; the inventory of the
  checkpoint is the listing of the target, entry by entry; every file of the generation is there with
  its size and digest; and whatever else is there belonged to the old inventory and is unchanged.\<close>

theorem publish_success_exact:
  assumes "publication_reachable (w_tables w)" and "a \<in> set (pt_attempts (w_tables w))"
    and "write_active (at_phase a)" and "at_phase a \<noteq> PhaseApplied"
    and "map view_pair (at_views a) = map view_pair views" and "views = publicationAttemptViews plan base"
    and "publish_write env (filesystem_backend http absent) b (at_identity a) generation manifestSHA plan target base views w = (w', Inr result)"
    and "pr_checkpoint result \<notin> cp_identity ` set (pt_checkpoints (w_tables w))"
  shows "\<exists>c remote manifest bytes. pt_checkpoints (w_tables w') = pt_checkpoints (w_tables w) @ [c]
    \<and> cp_identity c = pr_checkpoint result \<and> cp_attempt c = at_identity a \<and> cp_generation c = generation \<and> pr_generation result = generation
    \<and> generationManifestOn (w_db w') generation = Inr manifest \<and> ManifestBytes manifest = Inr (bytes, manifestSHA)
    \<and> inventoryContainsManifest (cp_inventory c) manifest
    \<and> the_head (w_tables w') (tb_target b) = Inr \<lparr>th_target = tb_target b, th_checkpoint = Some (pr_checkpoint result),
         th_generation = generation, th_manifest = Some manifestSHA,
         th_revision = int (length (target_checkpoints (w_tables w) (tb_target b))) + 1\<rparr>
    \<and> tree_List [] (w_remote w') = Inr remote \<and> map remote_entry remote = map object_entry (cp_inventory c)
    \<and> (\<forall>p f. fileByPath target p = Some f \<longrightarrow> tree_at (w_remote w') p = Some \<lparr>sf_size = gf_size f, sf_sha256 = gf_sha256 f\<rparr>)
    \<and> (\<forall>p f. fileByPath target p = None \<longrightarrow> tree_at (w_remote w') p = Some f \<longrightarrow>
         (\<exists>o'\<in>set base. po_object_path o' = p \<and> po_object_size o' = sf_size f \<and> po_object_sha256 o' = sf_sha256 f))"
proof -
  let ?be = "filesystem_backend http absent" and ?i = "at_identity a"
  let ?run = "prepare_actions ?i plan views @ commit_actions ?i plan"
  obtain w0 where w0: "run_actions ?be (pe_source env) (pe_fault env) ?i ?run w = (w0, Inr ())"
      and finish: "publish_finish env ?be b ?i generation manifestSHA plan target base views w0 = (w', Inr result)"
    using assms(7) unfolding publish_write_def do_then_Inr by auto
  obtain remote inventory w1 cviews files c t2 where f:
    "be_list ?be [] (w_remote w0) = Inr remote" "publicationInventory remote target base = Inr inventory"
    "run_actions ?be (pe_source env) (pe_fault env) ?i (verify_actions ?i views) w0 = (w1, Inr ())"
    "cp_target c = tb_target b" "cp_attempt c = ?i" "cp_generation c = generation" "cp_manifest c = manifestSHA" "cp_inventory c = inventory"
    "PutAppliedCheckpoint (pe_applied_at env) (w_db w') c (w_tables w1) = (t2, Inr (pr_checkpoint result))"
    "putPublicationGrace b (c\<lparr>cp_identity := pr_checkpoint result\<rparr>) t2 = (w_tables w', Inr ())"
    "w_remote w' = w_remote w1" "pr_generation result = generation"
    by (rule publish_finish_Inr[OF finish]) (rule that)
  note calls = run_tables[OF w0] run_tables[OF f(3)]
  have pairs: "set (written_pointers plan) = set (map view_pair views)" using attempt_views_pairs[of plan base] assms(6) by simp
  let ?calls = "publish_calls ?i (map view_pair views) (written_pointers plan)"
  have run: "for_each run_call (w_tables w) ?calls = Inr (w_tables w1)"
    using calls by (simp only: publish_records[symmetric] for_each_append) simp
  have reach1: "publication_reachable (w_tables w1)" using publish_calls_reach[OF run assms(1,2)] by blast
  have same: "pt_checkpoints (w_tables w1) = pt_checkpoints (w_tables w)"
    by (rule calls_keep[OF run]) (use protocol_keeps in blast)
  obtain d manifest bytes where d: "pt_checkpoints t2 = pt_checkpoints (w_tables w1) @ [d]" "cp_identity d = pr_checkpoint result"
    "cp_attempt d = ?i" "cp_target d = tb_target b" "cp_generation d = generation" "cp_manifest d = manifestSHA" "cp_inventory d = inventory"
    "generationManifestOn (w_db w') generation = Inr manifest" "ManifestBytes manifest = Inr (bytes, manifestSHA)"
    "inventoryContainsManifest inventory manifest"
    using checkpoint_recorded[OF f(9)] assms(8) same f(4-8) by metis
  have "publication_reachable t2"
    using publication_reachable.further[OF reach1 publication_step.checkpoint[of "w_tables w1" "pe_applied_at env" "w_db w'" c]] f(9) by simp
  then have reach': "publication_reachable (w_tables w')" by (rule publication_reachable.further[OF _ grace_keeps_checkpoints(1)[OF f(10)]])
  have rows: "pt_checkpoints (w_tables w') = pt_checkpoints (w_tables w) @ [d]"
    using grace_keeps_checkpoints(2)[OF f(10)] d(1) same by simp
  have head: "the_head (w_tables w') (tb_target b) = Inr \<lparr>th_target = tb_target b, th_checkpoint = Some (pr_checkpoint result),
         th_generation = generation, th_manifest = Some manifestSHA,
         th_revision = int (length (target_checkpoints (w_tables w) (tb_target b))) + 1\<rparr>"
    using last_checkpoint_head[OF reach' rows] by (simp add: d(2,4-6))
  have list: "be_list ?be = tree_List" by (simp add: filesystem_backend_def)
  have still: "w_remote w' = w_remote w0"
    using f(11) run_remote[of "verify_actions ?i views" ?be "pe_source env" "pe_fault env" ?i w0] f(3)
    by (simp add: verify_actions_def)
  have listed: "tree_List [] (w_remote w') = Inr remote" using f(1) by (simp add: list still)
  have entries: "map remote_entry remote = map object_entry (cp_inventory d)"
    using inventory_sorted(1)[OF f(2)] tree_List_view(1)[OF listed] by (simp add: d(7) strict_sorted_iff)
  note holds = inventory_tree[OF f(2) listed]
  show ?thesis
    using rows d(2,3,5,8-10) f(12) head listed entries holds by (intro exI[of _ d] exI[of _ remote] exI[of _ manifest] exI[of _ bytes]) (simp add: d(7))
qed

subsection \<open>An example\<close>

definition release_input :: PublicationPlanInput where
  "release_input = plan_input ''01234567-89ab-4cde-8f01-23456789abcd'' (replicate 64 CHR ''e'') '''' 1 [] [release_file]"

lemma release_plan:
  obtains plan where "buildPublicationPlan release_input False = Inr plan" "write_operations plan = [first_pointer]"
    "pp_commit_units plan = [\<lparr>cu_view_id = ''dists/noble'', cu_protocol = ''apt'', cu_pointers = [first_pointer]\<rparr>]"
proof -
  have ok: "manifest_ok []" "manifest_ok [release_file]" by code_simp+
  have guard: "plan_guard release_input = Inr release_digest"
    using manifest_ok_canonical[OF ok(1)] manifest_ok_canonical[OF ok(2)] example_identity
    by (simp add: plan_guard_def release_input_def plan_input_def canonicalChangeArray_DiffManifests release_digest_def)
  have steps: "(case for_each (plan_step False (fileByPath (pi_base_manifest release_input))) plan_start (pi_changes release_input) of
      Inl _ \<Rightarrow> False
    | Inr ps \<Rightarrow> (case for_each (commit_step ps (fileByPath (pi_target_manifest release_input))) [] (sort (map fst (ps_pointers ps))) of
        Inl _ \<Rightarrow> False
      | Inr us \<Rightarrow> ps_payload ps = [] \<and> ps_immutable ps = [] \<and> ps_aliases ps = []
          \<and> us = [\<lparr>cu_view_id = ''dists/noble'', cu_protocol = ''apt'', cu_pointers = [first_pointer]\<rparr>]))"
    by code_simp
  then obtain ps us where w: "for_each (plan_step False (fileByPath (pi_base_manifest release_input))) plan_start (pi_changes release_input) = Inr ps"
      "for_each (commit_step ps (fileByPath (pi_target_manifest release_input))) [] (sort (map fst (ps_pointers ps))) = Inr us"
      "ps_payload ps = []" "ps_immutable ps = []" "ps_aliases ps = []"
      "us = [\<lparr>cu_view_id = ''dists/noble'', cu_protocol = ''apt'', cu_pointers = [first_pointer]\<rparr>]"
    by (simp split: sum.splits)
  let ?lit = "plan_literal release_input release_digest ps us"
  show thesis
  proof
    show "buildPublicationPlan release_input False = Inr (?lit\<lparr>pp_plan_sha256 := publicationPlanDigest ?lit\<rparr>)"
      by (simp add: buildPublicationPlan_def guard w(1,2) Let_def)
  qed (use w(3-6) in \<open>simp_all add: plan_literal_def\<close>)
qed

definition release_env :: "target_tree publish_env" where
  "release_env = \<lparr>pe_binding = Inl no_rows, pe_rebind = False, pe_recover = (\<lambda>db. (db, Inr ())), pe_preflight = Inr (),
     pe_backend = Inr (filesystem_backend None None), pe_source = first_source, pe_physical = Inr [release_file],
     pe_case_insensitive = Inr False, pe_apt_metadata = Inr (), pe_fault = (\<lambda>_. Inr ()), pe_now = zero_time\<lparr>t_year := 2026\<rparr>,
     pe_applied_at = zero_time\<lparr>t_year := 2026\<rparr>, pe_remove_stage = Some removeStageIfPresent\<rparr>"

lemma release_clock:
  "\<exists>db. ObserveRepositoryTime (Inr ()) (pe_applied_at release_env) publication_db = (db, Inr ())"
  "civil (pe_applied_at release_env)" "time_Before zero_time (pe_applied_at release_env)"
proof -
  let ?t = "zero_time\<lparr>t_year := 2026\<rparr>"
  have valid: "valid_utc ?t" by (simp add: valid_utc_def zero_time_def days_in_def)
  have "db_time_witness publication_db = formatTimestamp ?t" by (simp add: publication_db_def example_database_def)
  from observe_time_tx_Inr[OF this valid valid]
  have "observe_time_tx ?t publication_db = Inr (publication_db\<lparr>db_time_witness := formatTimestamp ?t\<rparr>)" by simp
  then show "\<exists>db. ObserveRepositoryTime (Inr ()) (pe_applied_at release_env) publication_db = (db, Inr ())"
    by (simp add: ObserveRepositoryTime_def commit_def release_env_def zero_time_def)
  show "civil (pe_applied_at release_env)" using valid_civil[OF valid] by (simp add: release_env_def)
  show "time_Before zero_time (pe_applied_at release_env)" by (simp add: release_env_def time_Before_def time_key_def zero_time_def)
qed

lemma release_ready:
  assumes "buildPublicationPlan release_input False = Inr plan" "write_operations plan = [first_pointer]"
  shows "writes_plain plan" "tree_ready (pe_source release_env) first_identity plan release_input [] (w_remote first_world)"
proof -
  show "writes_plain plan" using assms(2) first_ready(2) by (simp add: writes_plain_def)
  have listing: "tree_List (plan_stages plan first_identity) empty_tree = Inr []"
    by (simp add: tree_List_iff empty_tree_def tree_at_def)
  have "requireRecoverableRemoteInventory [] [] (pi_target_manifest release_input) = Inr ()"
    by (simp add: requireRecoverableRemoteInventory_def)
  then show "tree_ready (pe_source release_env) first_identity plan release_input [] (w_remote first_world)"
    using first_ready(4) assms(2) listing
    by (simp add: tree_ready_def release_env_def first_world_def inventoryContainsManifest_def release_input_def plan_input_def)
      (simp add: empty_tree_def)
qed

lemma release_target:
  obtains b where "tb_repository b = at_repository example_attempt" "tb_target b = at_target example_attempt" "tb_max_cache_ttl b = 0"
    "b \<in> set (pt_bindings (w_tables first_world))" "publication_reachable (w_tables first_world)"
    "example_attempt \<in> set (pt_attempts (w_tables first_world))" "pt_checkpoints (w_tables first_world) = []"
    "pt_grace (w_tables first_world) = []"
proof -
  obtain b v where t: "bound_target = empty_publication\<lparr>pt_bindings := [b], pt_revisions := v,
     pt_heads := [\<lparr>th_target = example_place, th_checkpoint = None, th_generation = 0, th_manifest = None, th_revision = 0\<rparr>]\<rparr>"
    "tb_target b = example_place" "tb_repository b = ''01234567-89ab-4cde-8f01-23456789abcd''" "tb_max_cache_ttl b = 0"
    using bound_target_rows by blast
  show thesis
    by (rule that[of b]) (use t(2-4) planned_target_reachable in
        \<open>simp_all add: first_world_def planned_target_rows t(1) empty_publication_def release_attempt_def\<close>)
qed

lemma release_views:
  assumes "pp_commit_units plan = [\<lparr>cu_view_id = ''dists/noble'', cu_protocol = ''apt'', cu_pointers = [first_pointer]\<rparr>]"
  shows "map view_pair (at_views example_attempt) = map view_pair (publicationAttemptViews plan [])"
  by (simp add: publicationAttemptViews_def assms release_attempt_def release_view_def view_pair_def first_pointer_def)

lemma release_written: "pi_target_manifest release_input = [release_file]"
  "generationManifestOn (w_db first_world) (at_generation example_attempt) = Inr [release_file]"
  "ManifestBytes [release_file] = Inr (manifest_wire [release_file], at_manifest example_attempt)"
  using release_manifest release_manifest_bytes
  by (simp_all add: release_input_def plan_input_def first_world_def release_attempt_def)

text \<open>All that the first publication needs, and the publication.\<close>

lemma release_setting:
  obtains plan b db m where "buildPublicationPlan release_input False = Inr plan"
    "publication_reachable (w_tables first_world)" "example_attempt \<in> set (pt_attempts (w_tables first_world))"
    "write_active (at_phase example_attempt)" "at_phase example_attempt \<noteq> PhaseApplied"
    "at_repository example_attempt = tb_repository b" "at_target example_attempt = tb_target b" "at_generation example_attempt = 1"
    "at_manifest example_attempt = release_digest"
    "map view_pair (at_views example_attempt) = map view_pair (publicationAttemptViews plan [])" "writes_plain plan"
    "tree_ready (pe_source release_env) (at_identity example_attempt) plan release_input [] (w_remote first_world)"
    "generationManifestOn (w_db first_world) 1 = Inr (pi_target_manifest release_input)"
    "ManifestBytes (pi_target_manifest release_input) = Inr (manifest_wire [release_file], release_digest)"
    "ObserveRepositoryTime (Inr ()) (pe_applied_at release_env) (w_db first_world) = (db, Inr ())"
    "b \<in> set (pt_bindings (w_tables first_world))" "publicationGraceMinimum (tb_max_cache_ttl b) = Inr m"
    "pt_checkpoints (w_tables first_world) = []" "pt_grace (w_tables first_world) = []"
proof (rule release_plan)
  fix plan
  assume plan: "buildPublicationPlan release_input False = Inr plan" "write_operations plan = [first_pointer]"
    "pp_commit_units plan = [\<lparr>cu_view_id = ''dists/noble'', cu_protocol = ''apt'', cu_pointers = [first_pointer]\<rparr>]"
  obtain b where b: "tb_repository b = at_repository example_attempt" "tb_target b = at_target example_attempt" "tb_max_cache_ttl b = 0"
    "b \<in> set (pt_bindings (w_tables first_world))" "publication_reachable (w_tables first_world)"
    "example_attempt \<in> set (pt_attempts (w_tables first_world))" "pt_checkpoints (w_tables first_world) = []"
    "pt_grace (w_tables first_world) = []"
    by (rule release_target) (rule that)
  obtain db where db: "ObserveRepositoryTime (Inr ()) (pe_applied_at release_env) (w_db first_world) = (db, Inr ())"
    using release_clock(1) by (auto simp: first_world_def)
  obtain m where m: "publicationGraceMinimum (tb_max_cache_ttl b) = Inr m" using b(3)
    by (simp add: publicationGraceMinimum_def maximumPublicationCacheTTL_def publicationCacheGracePadding_def hour_ns_def Let_def)
  have own: "at_generation example_attempt = 1" "at_manifest example_attempt = release_digest" "at_phase example_attempt = PhasePlanned"
    by (simp_all add: release_attempt_def)
  note written = release_written[unfolded own]
  show thesis
    by (rule that[OF plan(1) b(5,6) _ _ b(1,2)[symmetric] own(1,2) release_views[OF plan(3)] release_ready(1)[OF plan(1,2)] _
          written(2)[folded written(1)] _ db b(4) m b(7,8)])
      (use release_ready(2)[OF plan(1,2)] written(1,3) own(3) in \<open>simp_all add: write_active_def\<close>)
qed

lemma release_fault: "pe_fault release_env point = Inr ()"
  by (simp add: release_env_def)

theorem publish_completes_witness:
  "\<exists>plan b w' result. buildPublicationPlan release_input False = Inr plan
     \<and> publish_write release_env (filesystem_backend None None) b first_identity 1 release_digest plan [release_file] []
         (publicationAttemptViews plan []) first_world = (w', Inr result)
     \<and> pr_phase result = ''grace''"
proof (rule release_setting)
  fix plan b db m
  assume s: "buildPublicationPlan release_input False = Inr plan"
    "publication_reachable (w_tables first_world)" "example_attempt \<in> set (pt_attempts (w_tables first_world))"
    "write_active (at_phase example_attempt)" "at_phase example_attempt \<noteq> PhaseApplied"
    "at_repository example_attempt = tb_repository b" "at_target example_attempt = tb_target b" "at_generation example_attempt = 1"
    "at_manifest example_attempt = release_digest"
    "map view_pair (at_views example_attempt) = map view_pair (publicationAttemptViews plan [])" "writes_plain plan"
    "tree_ready (pe_source release_env) (at_identity example_attempt) plan release_input [] (w_remote first_world)"
    "generationManifestOn (w_db first_world) 1 = Inr (pi_target_manifest release_input)"
    "ManifestBytes (pi_target_manifest release_input) = Inr (manifest_wire [release_file], release_digest)"
    "ObserveRepositoryTime (Inr ()) (pe_applied_at release_env) (w_db first_world) = (db, Inr ())"
    "b \<in> set (pt_bindings (w_tables first_world))" "publicationGraceMinimum (tb_max_cache_ttl b) = Inr m"
    "pt_checkpoints (w_tables first_world) = []" "pt_grace (w_tables first_world) = []"
  show ?thesis
    using publish_completes[where absent = None, OF s(2-10,1,11,12) release_fault s(13-15) release_clock(2,3) s(16) refl refl s(17)]
      not_taken[OF s(18,19)] s(1,18) release_written(1)
    by auto
qed

theorem publish_success_exact_witness:
  "\<exists>plan b w' result remote. buildPublicationPlan release_input False = Inr plan
     \<and> publish_write release_env (filesystem_backend None None) b first_identity 1 release_digest plan [release_file] []
         (publicationAttemptViews plan []) first_world = (w', Inr result)
     \<and> tree_List [] (w_remote w') = Inr remote
     \<and> tree_at (w_remote w') ''dists/noble/Release'' = Some \<lparr>sf_size = 5, sf_sha256 = replicate 64 CHR ''a''\<rparr>"
proof (rule release_setting)
  fix plan b db m
  assume s: "buildPublicationPlan release_input False = Inr plan"
    "publication_reachable (w_tables first_world)" "example_attempt \<in> set (pt_attempts (w_tables first_world))"
    "write_active (at_phase example_attempt)" "at_phase example_attempt \<noteq> PhaseApplied"
    "at_repository example_attempt = tb_repository b" "at_target example_attempt = tb_target b" "at_generation example_attempt = 1"
    "at_manifest example_attempt = release_digest"
    "map view_pair (at_views example_attempt) = map view_pair (publicationAttemptViews plan [])" "writes_plain plan"
    "tree_ready (pe_source release_env) (at_identity example_attempt) plan release_input [] (w_remote first_world)"
    "generationManifestOn (w_db first_world) 1 = Inr (pi_target_manifest release_input)"
    "ManifestBytes (pi_target_manifest release_input) = Inr (manifest_wire [release_file], release_digest)"
    "ObserveRepositoryTime (Inr ()) (pe_applied_at release_env) (w_db first_world) = (db, Inr ())"
    "b \<in> set (pt_bindings (w_tables first_world))" "publicationGraceMinimum (tb_max_cache_ttl b) = Inr m"
    "pt_checkpoints (w_tables first_world) = []" "pt_grace (w_tables first_world) = []"
  have target: "pi_target_manifest release_input = [release_file]" by (rule release_written(1))
  obtain w' result where run: "publish_write release_env (filesystem_backend None None) b (at_identity example_attempt) 1 release_digest plan
      [release_file] [] (publicationAttemptViews plan []) first_world = (w', Inr result)"
      "pr_checkpoint result \<notin> cp_identity ` set (pt_checkpoints (w_tables first_world))"
    using publish_write_runs[where absent = None, OF s(2-10,1,11,12) release_fault s(13-15) release_clock(2,3) s(16) refl refl s(17)]
      not_taken[OF s(18,19)] s(18)
    unfolding target by auto
  have entry: "fileByPath [release_file] ''dists/noble/Release'' = Some release_file" by code_simp
  have content: "gf_size release_file = 5" "gf_sha256 release_file = replicate 64 CHR ''a''" by (simp_all add: release_file_def)
  obtain remote where listing: "tree_List [] (w_remote w') = Inr remote"
    and there: "tree_at (w_remote w') ''dists/noble/Release'' = Some \<lparr>sf_size = 5, sf_sha256 = replicate 64 CHR ''a''\<rparr>"
    using publish_success_exact[OF s(2-5,10) refl run] entry unfolding content[symmetric] by (elim exE conjE) blast
  show ?thesis
    using run(1) by (intro exI[of _ plan] exI[of _ b] exI[of _ w'] exI[of _ result] exI[of _ remote] conjI s(1) listing there) simp
qed

end
