(* ===== verification/Publication_Readback.thy ===== *)
theory Publication_Readback
  imports Publish_Workflow Publication_Properties
begin

section \<open>What was stored is read back\<close>

text \<open>
  The queries of \<open>publication_read.go\<close> check every row they return. On the states the store can reach
  these checks never fail: a binding is the last of its dense, append-only revisions, attempts and
  checkpoints carry the identities of what they say. The last part is about the objects a target is
  taken to hold after deletions.
\<close>

subsection \<open>Bindings and their revisions\<close>

definition binding_good :: "PublicationTargetBinding \<Rightarrow> bool" where
  "binding_good b \<longleftrightarrow> binding_identities b \<and> binding_settings b \<and> tb_authoritative b \<and> tb_single_writer b \<and> tb_exclusive b
     \<and> validSHA256Text (tb_target b)"

definition target_revisions :: "publication_tables \<Rightarrow> string \<Rightarrow> binding_revision list" where
  "target_revisions t target = filter (\<lambda>r. tb_target (br_binding r) = target) (pt_revisions t)"

definition revision_good :: "nat \<Rightarrow> binding_revision \<Rightarrow> bool" where
  "revision_good n r \<longleftrightarrow> br_revision r = int n \<and> (n = 1 \<longrightarrow> \<not> br_confirmed r \<and> br_reason r = ''initial_bind'')
     \<and> (1 < n \<longrightarrow> br_confirmed r) \<and> binding_good (br_binding r)"

text \<open>The revisions of a target are numbered from one, and the last one is the binding.\<close>

definition log_good :: "PublicationTargetBinding \<Rightarrow> binding_revision list \<Rightarrow> bool" where
  "log_good b rs \<longleftrightarrow> rs \<noteq> [] \<and> br_binding (last rs) = b \<and> (\<forall>k<length rs. revision_good (Suc k) (rs ! k))"

definition bindings_fit :: "publication_tables \<Rightarrow> bool" where
  "bindings_fit t \<longleftrightarrow> (\<forall>b\<in>set (pt_bindings t). binding_good b \<and> log_good b (target_revisions t (tb_target b)))
     \<and> (\<forall>r\<in>set (pt_revisions t). tb_target (br_binding r) \<in> tb_target ` set (pt_bindings t))"

definition same_bindings :: "publication_tables \<Rightarrow> publication_tables \<Rightarrow> bool" where
  "same_bindings t t' \<longleftrightarrow> pt_bindings t' = pt_bindings t \<and> pt_revisions t' = pt_revisions t"

lemma same_bindings_fit: "same_bindings t t' \<Longrightarrow> bindings_fit t' = bindings_fit t"
  by (simp add: same_bindings_def bindings_fit_def target_revisions_def)

lemma same_bindings_refl [simp]: "same_bindings t t"
  by (simp add: same_bindings_def)

lemma accepted_identity: "acceptSemanticIdentity provided computed = Inr i \<Longrightarrow> i = computed"
  by (rule identity_accepted)

lemma config_identity_ignores [simp]:
  "PublicationTargetConfigIdentity (b\<lparr>tb_config := x\<rparr>) = PublicationTargetConfigIdentity b"
  by (simp add: PublicationTargetConfigIdentity_def)

lemma canonical_binding_good:
  assumes "canonicalPublicationTargetBinding db b = Inr c"
  shows "binding_good c"
proof -
  obtain storage target config where ids:
      "storage = publicationIdentity ''sow/target-storage/v1'' [tb_provider b, tb_endpoint b, tb_region b, tb_bucket b]"
      "target = publicationIdentity ''sow/target/v1'' [storage, tb_prefix b]"
      "config = PublicationTargetConfigIdentity (b\<lparr>tb_storage := storage, tb_target := target\<rparr>)"
    and c: "c = b\<lparr>tb_storage := storage, tb_target := target, tb_config := config\<rparr>"
    and good: "tb_name c \<noteq> ''''" "tb_endpoint c \<noteq> ''''" "tb_public_endpoint c \<noteq> ''''" "0 \<le> tb_max_cache_ttl c"
      "tb_max_cache_ttl c \<le> maximumPublicationCacheTTL" "tb_authoritative c" "tb_single_writer c" "tb_exclusive c"
    using assms unfolding canonicalPublicationTargetBinding_def
    by (auto simp: and_then_Inr_iff Let_def not_less split: if_split_asm dest!: accepted_identity)
  have "PublicationTargetConfigIdentity c = PublicationTargetConfigIdentity (b\<lparr>tb_storage := storage, tb_target := target\<rparr>)"
    unfolding c by (simp only: config_identity_ignores)
  then show ?thesis
    using good ids c by (simp add: binding_good_def binding_identities_def binding_settings_def)
qed

lemma last_revision:
  assumes "log_good b rs"
  shows "fold max (map br_revision rs) 0 = int (length rs)"
proof -
  have "fold max (map br_revision (take n rs)) 0 = int n" if "n \<le> length rs" for n
    using that assms
  proof (induction n)
    case (Suc n)
    then have "br_revision (rs ! n) = int (Suc n)" by (auto simp: log_good_def revision_good_def)
    then show ?case using Suc by (simp add: take_Suc_conv_app_nth)
  qed simp
  from this[of "length rs"] show ?thesis by simp
qed

lemma log_good_snoc:
  assumes "log_good b rs" "revision_good (Suc (length rs)) r"
  shows "log_good (br_binding r) (rs @ [r])"
  using assms by (auto simp: log_good_def nth_append less_Suc_eq)

lemma revision_appended:
  assumes "appendPublicationTargetBindingRevisionTx now b n reason confirmed t = Inr t'"
  shows "t' = t\<lparr>pt_revisions := pt_revisions t @ [\<lparr>br_binding = b, br_revision = n, br_reason = reason, br_confirmed = confirmed, br_recorded_at = now\<rparr>]\<rparr>"
  using assms by (auto simp: appendPublicationTargetBindingRevisionTx_def split: if_splits)

lemma bind_target_fits:
  assumes fit: "bindings_fit t" and good: "binding_good b" and step: "bind_target_tx now b t = Inr (t', x)"
  shows "bindings_fit t'"
proof (cases "t' = t")
  case False
  then have none: "publicationTargetBindingTx t (tb_target b) = Inr None"
    using step by (cases "publicationTargetBindingTx t (tb_target b)") (auto simp: bind_target_tx_def split: option.splits if_splits)
  let ?r = "\<lparr>br_binding = b, br_revision = 1, br_reason = ''initial_bind'', br_confirmed = False, br_recorded_at = now\<rparr>"
  have rows: "pt_bindings t' = pt_bindings t @ [b]" "pt_revisions t' = pt_revisions t @ [?r]"
    using step none by (auto simp: bind_target_tx_def and_then_Inr_iff split: if_splits dest!: revision_appended)
  have new: "tb_target b \<notin> tb_target ` set (pt_bindings t)" by (rule binding_Inr[OF none])
  have empty: "target_revisions t (tb_target b) = []"
    using fit new unfolding bindings_fit_def target_revisions_def filter_empty_conv by metis
  have "target_revisions t' target = target_revisions t target @ (if tb_target b = target then [?r] else [])" for target
    by (simp add: target_revisions_def rows)
  moreover have "log_good b [?r]" using good by (simp add: log_good_def revision_good_def)
  ultimately show ?thesis using fit new good empty by (auto simp: bindings_fit_def rows)
qed (use fit in simp)

lemma rebound_row:
  assumes "sameImmutablePublicationTargetBinding stored b"
  shows "stored\<lparr>tb_name := tb_name b, tb_public_endpoint := tb_public_endpoint b,
           tb_max_cache_ttl := tb_max_cache_ttl b, tb_config := tb_config b\<rparr> = b"
  using assms by (cases stored; cases b) (simp add: sameImmutablePublicationTargetBinding_def)

lemma rebind_target_fits:
  assumes ok: "publication_ok t" and fit: "bindings_fit t" and good: "binding_good b"
    and step: "rebind_target_tx now b reason t = Inr (t', x)"
  shows "bindings_fit t'"
proof (cases "t' = t")
  case False
  then obtain stored where stored: "publicationTargetBindingTx t (tb_target b) = Inr (Some stored)"
    using step by (cases "publicationTargetBindingTx t (tb_target b)") (auto simp: rebind_target_tx_def split: option.splits if_splits)
  let ?f = "\<lambda>d. d\<lparr>tb_name := tb_name b, tb_public_endpoint := tb_public_endpoint b, tb_max_cache_ttl := tb_max_cache_ttl b, tb_config := tb_config b\<rparr>"
  let ?r = "\<lparr>br_binding = b, br_revision = next_revision t (tb_target b), br_reason = reason, br_confirmed = True, br_recorded_at = now\<rparr>"
  obtain bindings where same: "sameImmutablePublicationTargetBinding stored b"
    and u: "update_one (\<lambda>d. tb_target d = tb_target stored \<and> tb_config d = tb_config stored) ?f
                 (GoError [ErrConflict] ''publication target changed during rebind'') (pt_bindings t) = Inr bindings"
    and rows: "pt_bindings t' = bindings" "pt_revisions t' = pt_revisions t @ [?r]"
    using step False unfolding rebind_target_tx_def stored and_then_simps option.case
    by (auto simp: and_then_Inr_iff next_revision_def split: if_splits dest!: revision_appended)
  have s: "stored \<in> set (pt_bindings t)" "tb_target stored = tb_target b"
    using stored by (auto simp: publicationTargetBindingTx_def find_Some_iff split: option.splits if_splits)
  have one: "d = stored" if "d \<in> set (pt_bindings t)" "tb_target d = tb_target b" for d
    using publication_okD(1)[OF ok] that s keyed_unique[of tb_target "pt_bindings t" d stored] by (simp add: tables_keyed_def)
  have "bindings = map (\<lambda>d. if tb_target d = tb_target stored \<and> tb_config d = tb_config stored then ?f d else d) (pt_bindings t)"
    using u by (auto simp: update_one_def split: if_splits)
  then have bindings: "bindings = map (\<lambda>d. if tb_target d = tb_target b then b else d) (pt_bindings t)"
    using one s(2) rebound_row[OF same] by auto
  have log: "log_good stored (target_revisions t (tb_target b))" using fit s by (auto simp: bindings_fit_def)
  have "next_revision t (tb_target b) = int (Suc (length (target_revisions t (tb_target b))))"
    using last_revision[OF log] by (simp add: next_revision_def target_revisions_def)
  then have "revision_good (Suc (length (target_revisions t (tb_target b)))) ?r"
    using log good by (auto simp: revision_good_def log_good_def)
  from log_good_snoc[OF log this] have new: "log_good b (target_revisions t (tb_target b) @ [?r])" by simp
  have "target_revisions t' target = target_revisions t target @ (if tb_target b = target then [?r] else [])" for target
    by (simp add: target_revisions_def rows)
  moreover have "tb_target ` set bindings = tb_target ` set (pt_bindings t)"
    unfolding bindings set_map image_image by (rule image_cong) simp_all
  moreover have "tb_target b \<in> tb_target ` set (pt_bindings t)" using imageI[OF s(1), of tb_target] s(2) by simp
  moreover have "binding_good d \<and> log_good d (target_revisions t' (tb_target d))" if "d \<in> set bindings" for d
  proof (cases "d = b")
    case True
    then show ?thesis using new good calculation(1)[of "tb_target b"] by simp
  next
    case False
    then have "d \<in> set (pt_bindings t)" "tb_target d \<noteq> tb_target b" using that unfolding bindings by (auto split: if_splits)
    then show ?thesis using fit calculation(1)[of "tb_target d"] by (simp add: bindings_fit_def)
  qed
  ultimately show ?thesis using fit unfolding bindings_fit_def rows by auto
qed (use fit in simp)

text \<open>Every other transaction leaves the bindings alone.\<close>

lemma publication_tx_same:
  assumes "\<And>t' x. body t = Inr (t', x) \<Longrightarrow> same_bindings t t'"
  shows "same_bindings t (fst (publication_tx body t))"
  using assms by (auto simp: publication_tx_def split: sum.splits)

lemma for_each_same:
  assumes "for_each f t xs = Inr t'" and "\<And>t x t'. f t x = Inr t' \<Longrightarrow> same_bindings t t'"
  shows "same_bindings t t'"
  using assms(1) by (induction xs arbitrary: t) (auto simp: and_then_Inr_iff same_bindings_def dest!: assms(2))

lemma other_transactions:
  "put_attempt_tx db a t = Inr (t', i) \<Longrightarrow> same_bindings t t'"
  "commit_intent_tx i t = Inr (t', u) \<Longrightarrow> same_bindings t t'"
  "advance_phase_tx i p t = Inr (t', u) \<Longrightarrow> same_bindings t t'"
  "view_state_tx i view pointer s t = Inr (t', u) \<Longrightarrow> same_bindings t t'"
  "apply_checkpoint_tx c t = Inr (t', i) \<Longrightarrow> same_bindings t t'"
  "put_grace_tx g t = Inr (t', i) \<Longrightarrow> same_bindings t t'"
  "put_report_tx db r t = Inr (t', i) \<Longrightarrow> same_bindings t t'"
  "put_receipt_tx d t = Inr (t', d') \<Longrightarrow> same_bindings t t'"
  "deletion_verified_tx i report observed t = Inr (t', u) \<Longrightarrow> same_bindings t t'"
  "retained_reported_tx i report observed t = Inr (t', u) \<Longrightarrow> same_bindings t t'"
  "complete_attempt_tx i report t = Inr (t', u) \<Longrightarrow> same_bindings t t'"
  unfolding same_bindings_def
  subgoal by (auto simp: put_attempt_tx_def insert_attempt_def resurrect_attempt_def update_attempt_def and_then_Inr_iff
        split: prod.splits if_split_asm)
  subgoal by (auto simp: commit_intent_tx_def update_attempt_def and_then_Inr_iff split: if_split_asm)
  subgoal by (auto simp: advance_phase_tx_def update_attempt_def and_then_Inr_iff Let_def split: if_split_asm option.splits)
  subgoal by (auto simp: view_state_tx_def update_attempt_def and_then_Inr_iff Let_def split: if_split_asm option.splits)
  subgoal by (auto simp: apply_checkpoint_tx_def and_then_Inr_iff Let_def split: if_split_asm prod.splits)
  subgoal by (auto simp: put_grace_tx_def and_then_Inr_iff Let_def split: if_split_asm prod.splits)
  subgoal by (auto simp: put_report_tx_def and_then_Inr_iff Let_def split: if_split_asm prod.splits)
  subgoal by (auto simp: put_receipt_tx_def and_then_Inr_iff Let_def split: if_split_asm option.splits)
  subgoal by (auto simp: deletion_verified_tx_def leave_grace_def and_then_Inr_iff split: if_split_asm prod.splits)
  subgoal by (auto simp: retained_reported_tx_def leave_grace_def and_then_Inr_iff split: if_split_asm prod.splits)
  subgoal by (auto simp: complete_attempt_tx_def and_then_Inr_iff Let_def split: if_split_asm prod.splits)
  done

lemma abandon_same:
  assumes "abandon_attempt_tx db i objects t = Inr (t', u)"
  shows "same_bindings t t'"
proof -
  have one: "same_bindings t t'" if "abandon_object db i g paths t o' = Inr t'" for g paths o' and t t' :: publication_tables
    using that by (auto simp: abandon_object_def same_bindings_def split: if_splits)
  have "same_bindings (s\<lparr>pt_abandoned := x\<rparr>) t'" if "for_each (abandon_object db i g paths) (s\<lparr>pt_abandoned := x\<rparr>) objects = Inr t'"
    for g paths x and s t' :: publication_tables
    using for_each_same[OF that one] .
  then show ?thesis
    using assms by (fastforce simp: abandon_attempt_tx_def and_then_Inr_iff same_bindings_def split: if_split_asm)
qed

lemma same_bindings_sum:
  "(\<And>d. r = Inr d \<Longrightarrow> same_bindings t (fst (f d))) \<Longrightarrow> same_bindings t (fst (case r of Inl e \<Rightarrow> (t, Inl e) | Inr d \<Rightarrow> f d))"
  by (cases r) auto

lemma same_transactions:
  "same_bindings t (fst (publication_tx (put_attempt_tx db a) t))" "same_bindings t (fst (publication_tx (commit_intent_tx i) t))"
  "same_bindings t (fst (publication_tx (advance_phase_tx i p) t))"
  "same_bindings t (fst (publication_tx (view_state_tx i view pointer s) t))"
  "same_bindings t (fst (publication_tx (apply_checkpoint_tx c) t))" "same_bindings t (fst (publication_tx (put_grace_tx g) t))"
  "same_bindings t (fst (publication_tx (put_report_tx db r) t))" "same_bindings t (fst (publication_tx (put_receipt_tx d) t))"
  "same_bindings t (fst (publication_tx (deletion_verified_tx i report observed) t))"
  "same_bindings t (fst (publication_tx (retained_reported_tx i report observed) t))"
  "same_bindings t (fst (publication_tx (complete_attempt_tx i report) t))"
  "same_bindings t (fst (publication_tx (abandon_attempt_tx db i objects) t))"
  by (rule publication_tx_same, erule other_transactions abandon_same)+

lemma publication_step_bindings:
  assumes step: "publication_step t t'" and ok: "publication_ok t" and fit: "bindings_fit t"
  shows "bindings_fit t'"
  using step
proof cases
  case (bind now db b)
  show ?thesis
  proof (cases "canonicalPublicationTargetBinding db b")
    case (Inr c)
    then show ?thesis using bind fit bind_target_fits[OF fit canonical_binding_good[OF Inr]]
      by (auto simp: BindPublicationTarget_def publication_tx_def split: sum.splits)
  qed (use bind fit in \<open>simp add: BindPublicationTarget_def\<close>)
next
  case (rebind now db r)
  show ?thesis
  proof (cases "canonicalPublicationTargetBinding db (rb_binding r)")
    case (Inr c)
    then show ?thesis using rebind fit rebind_target_fits[OF ok fit canonical_binding_good[OF Inr]]
      by (auto simp: RebindPublicationTarget_def publication_tx_def split: sum.splits)
  qed (use rebind fit in \<open>simp add: RebindPublicationTarget_def\<close>)
next
  case (put_attempt a db)
  then have "same_bindings t t'" by (auto simp: PutPublicationAttempt_def Let_def same_transactions split: sum.splits)
  then show ?thesis using fit by (simp add: same_bindings_fit)
next
  case (checkpoint clock db c)
  then have "same_bindings t t'" by (auto simp: PutAppliedCheckpoint_def Let_def intro!: same_bindings_sum same_transactions)
  then show ?thesis using fit by (simp add: same_bindings_fit)
qed (use fit in \<open>auto simp: AbandonPublicationAttempt_def PutGraceRecord_def
      SetPublicationCommitIntent_def AdvancePublicationAttemptPhase_def SetPublicationAttemptViewState_def
      PutPublicationCandidateReport_def PutPublicationDeletionReceipt_def MarkPublicationDeletionVerified_def
      MarkPublicationRetainedReported_def CompletePublicationAttempt_def Let_def same_transactions[THEN same_bindings_fit]
      split: sum.splits option.splits bool.splits\<close>)

lemma publication_reachable_bindings: "publication_reachable t \<Longrightarrow> bindings_fit t"
proof (induction rule: publication_reachable.induct)
  case start
  then show ?case by (simp add: bindings_fit_def empty_publication_def)
next
  case (further t t')
  then show ?case using publication_step_bindings publication_reachable_ok by blast
qed

subsection \<open>Reading\<close>

lemma find_keyed:
  assumes "distinct (map key rows)" "r \<in> set rows"
  shows "List.find (\<lambda>x. key x = key r) rows = Some r"
  using one_row_keyed[OF assms refl] by (auto simp: one_row_def split: option.splits)

definition good_time :: "string \<Rightarrow> bool" where
  "good_time s \<longleftrightarrow> (case parse_timestamp s of None \<Rightarrow> False | Some time \<Rightarrow> time \<noteq> zero_time)"

lemma revisions_read:
  assumes log: "log_good b (target_revisions t target)" and target: "validSHA256Text target"
    and times: "\<forall>r\<in>set (pt_revisions t). good_time (br_recorded_at r)"
  shows "listPublicationTargetBindingRevisionsOn t target = Inr (target_revisions t target)"
proof -
  let ?rs = "target_revisions t target"
  have ok: "revision_ok (Suc k) (?rs ! k)" if "k < length ?rs" for k
  proof -
    have "?rs ! k \<in> set (pt_revisions t)" using nth_mem[OF that] by (auto simp: target_revisions_def)
    then show ?thesis
      using log that times by (auto simp: log_good_def revision_good_def revision_ok_def binding_good_def good_time_def)
  qed
  have number: "br_revision (?rs ! k) = int (Suc k)" if "k < length ?rs" for k
    using log that by (auto simp: log_good_def revision_good_def)
  have "sorted (map br_revision ?rs)" by (auto simp: sorted_iff_nth_mono number)
  then have sorted: "sort_key br_revision ?rs = ?rs" by (rule sort_key_id_if_sorted)
  have "for_each (\<lambda>read r. if revision_ok (length read + 1) r then Inr (read @ [r])
             else Inl (GoError [ErrConflict] ''publication target binding revision is corrupt'')) (take n ?rs) (drop n ?rs) = Inr ?rs"
    if "n \<le> length ?rs" for n
    using that
  proof (induction n rule: inc_induct)
    case (step n)
    then have "drop n ?rs = ?rs ! n # drop (Suc n) ?rs" "take n ?rs @ [?rs ! n] = take (Suc n) ?rs"
      by (simp_all add: Cons_nth_drop_Suc take_Suc_conv_app_nth)
    then show ?case using step ok[of n] by simp
  qed simp
  from this[of 0] show ?thesis
    using target by (simp add: listPublicationTargetBindingRevisionsOn_def sorted target_revisions_def[symmetric])
qed

lemma target_read:
  assumes reach: "publication_reachable t" and b: "b \<in> set (pt_bindings t)"
  shows "\<exists>h. the_head t (tb_target b) = Inr h \<and> getPublicationTargetOn t (tb_target b) = Inr (b, h)"
proof -
  have ok: "publication_ok t" by (rule publication_reachable_ok[OF reach])
  have good: "binding_good b" using publication_reachable_bindings[OF reach] b by (simp add: bindings_fit_def)
  let ?log = "target_checkpoints t (tb_target b)"
  let ?h = "log_head (tb_target b) ?log"
  have heads: "pt_heads t = map (\<lambda>b. log_head (tb_target b) (target_checkpoints t (tb_target b))) (pt_bindings t)"
    using publication_okD(3)[OF ok] by (simp add: heads_fit_def)
  have target: "th_target (log_head target log) = target" for target log by (simp add: log_head_def)
  have "distinct (map th_target (pt_heads t))" "?h \<in> set (pt_heads t)"
    using publication_okD(1)[OF ok] b by (simp_all add: heads tables_keyed_def target o_def)
  from find_keyed[OF this] have find: "List.find (\<lambda>h. th_target h = tb_target b) (pt_heads t) = Some ?h" by (simp add: target)
  then have head: "the_head t (tb_target b) = Inr ?h" by (simp add: the_head_def one_row_def)
  have row: "List.find (\<lambda>x. tb_target x = tb_target b) (pt_bindings t) = Some b"
    using find_keyed[of tb_target, OF _ b] publication_okD(1)[OF ok] by (simp add: tables_keyed_def)
  have "(head_text ?h = '''') = (th_generation ?h = 0) \<and> (head_text ?h = '''') = (null_string (th_manifest ?h) = '''')"
  proof (cases "?log = []")
    case False
    then have "last ?log \<in> set (pt_checkpoints t)" using last_in_set[OF False] by (simp add: target_checkpoints_def)
    then have "checkpoint_ok (last ?log)" using publication_okD(4)[OF ok] by (simp add: checkpoints_fit_def)
    then have "validSHA256Text (cp_identity (last ?log))" "cp_generation (last ?log) \<noteq> 0" "validSHA256Text (cp_manifest (last ?log))"
      by (auto simp: checkpoint_ok_def validateAppliedCheckpoint_def split: if_splits)
    then show ?thesis using False by (auto simp: log_head_def head_text_def null_string_def validSHA256Text_def)
  qed (simp add: log_head_def head_text_def null_string_def)
  then show ?thesis
    using head good find row by (auto simp: getPublicationTargetOn_def binding_good_def)
qed

lemma attempt_read:
  assumes reach: "publication_reachable t" and a: "a \<in> set (pt_attempts t)"
  shows "GetPublicationAttempt t (at_identity a) = Inr a"
    and "write_active (at_phase a) \<Longrightarrow> GetActivePublicationAttempt t (at_target a) = Inr a"
proof -
  note ok = publication_reachable_ok[OF reach]
  have fit: "attempt_ok a" using publication_okD(2)[OF ok] a by (simp add: attempts_fit_def)
  have find: "find_attempt t (at_identity a) = Some a"
    using find_keyed[of at_identity, OF _ a] publication_okD(1)[OF ok] by (simp add: find_attempt_def tables_keyed_def)
  have row: "getPublicationAttemptTx t (at_identity a) = Inr a"
    using fit find by (simp add: getPublicationAttemptTx_def attempt_ok_def)
  have sha: "validSHA256Text (at_identity a)" using fit by (simp add: attempt_ok_def)
  then show "GetPublicationAttempt t (at_identity a) = Inr a" using row by (simp add: GetPublicationAttempt_def)
  assume active: "write_active (at_phase a)"
  let ?xs = "active_attempts t (at_target a)"
  have some: "?xs \<noteq> []" using a active by (auto simp: active_attempts_def filter_empty_conv)
  have only: "x = a" if "x \<in> set ?xs" for x
    using publication_okD(2)[OF ok] a active that by (auto simp: attempts_fit_def active_attempts_def)
  have "?xs = a # tl ?xs" using list.collapse[OF some] only[OF hd_in_set[OF some]] by simp
  moreover have "validSHA256Text (at_target a)" using fit by (simp add: attempt_ok_def validate_attempt_exact plan_valid_def)
  ultimately show "GetActivePublicationAttempt t (at_target a) = Inr a"
    using row unfolding GetActivePublicationAttempt_def by (metis list.simps(5))
qed

lemma checkpoint_read:
  assumes reach: "publication_reachable t" and c: "c \<in> set (pt_checkpoints t)" and time: "read_back (cp_applied_at c) = Some (cp_applied_at c)"
  shows "GetAppliedCheckpoint t (cp_identity c) = Inr c" "GetAppliedCheckpointForAttempt t (cp_attempt c) = Inr c"
proof -
  note ok = publication_reachable_ok[OF reach]
  have fit: "checkpoint_ok c" using publication_okD(4)[OF ok] c by (simp add: checkpoints_fit_def)
  have find: "List.find (\<lambda>x. cp_identity x = cp_identity c) (pt_checkpoints t) = Some c"
      "List.find (\<lambda>x. cp_attempt x = cp_attempt c) (pt_checkpoints t) = Some c"
    using find_keyed[of cp_identity, OF _ c] find_keyed[of cp_attempt, OF _ c] publication_okD(1)[OF ok] by (simp_all add: tables_keyed_def)
  have "validSHA256Text (cp_identity c)" "validSHA256Text (cp_attempt c)"
    using fit by (auto simp: checkpoint_ok_def validateAppliedCheckpoint_def split: if_splits)
  note sha = this
  have same: "c\<lparr>cp_applied_at := cp_applied_at c\<rparr> = c" by simp
  have checks: "publicationInventoryIdentity (cp_inventory c) = cp_inventory_identity c" "appliedCheckpointSemanticIdentity c = cp_identity c"
      "validateAppliedCheckpoint c = Inr ()"
    using fit by (simp_all add: checkpoint_ok_def)
  show read: "GetAppliedCheckpoint t (cp_identity c) = Inr c"
    unfolding GetAppliedCheckpoint_def getAppliedCheckpointTx_def find option.case time Let_def same checks using sha by simp
  show "GetAppliedCheckpointForAttempt t (cp_attempt c) = Inr c"
    unfolding GetAppliedCheckpointForAttempt_def find option.case read using sha by simp
qed

text \<open>What was stored is read back. In every state the store can reach, every binding is returned with its
  head, every attempt by its identity and, while it is open, as the active attempt of its target; every
  checkpoint with a time that can be written is returned by its identity and by its attempt; and as long
  as the recorded times are real the check of the binding history passes.\<close>

theorem publication_reads_back:
  assumes "publication_reachable t"
  shows "(\<forall>b\<in>set (pt_bindings t). \<exists>h. the_head t (tb_target b) = Inr h \<and> getPublicationTargetOn t (tb_target b) = Inr (b, h))
    \<and> (\<forall>a\<in>set (pt_attempts t). GetPublicationAttempt t (at_identity a) = Inr a
        \<and> (write_active (at_phase a) \<longrightarrow> GetActivePublicationAttempt t (at_target a) = Inr a))
    \<and> (\<forall>c\<in>set (pt_checkpoints t). read_back (cp_applied_at c) = Some (cp_applied_at c) \<longrightarrow>
        GetAppliedCheckpoint t (cp_identity c) = Inr c \<and> GetAppliedCheckpointForAttempt t (cp_attempt c) = Inr c)
    \<and> ((\<forall>r\<in>set (pt_revisions t). good_time (br_recorded_at r)) \<longrightarrow> validatePublicationTargetBindingRevisions t = Inr ())"
proof (intro conjI ballI impI)
  assume times: "\<forall>r\<in>set (pt_revisions t). good_time (br_recorded_at r)"
  let ?check = "\<lambda>target. and_then (getPublicationTargetOn t target) (\<lambda>(b, _).
       and_then (listPublicationTargetBindingRevisionsOn t target) (\<lambda>revisions.
         ensure (revisions \<noteq> [] \<and> br_binding (last revisions) = b)
           (GoError [ErrConflict] ''publication target differs from its append-only binding revisions'')))"
  have "?check target = Inr ()" if bound: "target \<in> tb_target ` set (pt_bindings t)" for target
  proof -
    obtain b where b: "b \<in> set (pt_bindings t)" "target = tb_target b" using bound by blast
    then have fit: "binding_good b" "log_good b (target_revisions t target)"
      using publication_reachable_bindings[OF assms] by (simp_all add: bindings_fit_def)
    then have "listPublicationTargetBindingRevisionsOn t target = Inr (target_revisions t target)"
      using revisions_read[OF _ _ times] b(2) by (simp add: binding_good_def)
    then show ?thesis using target_read[OF assms b(1)] fit(2) b(2) by (auto simp: log_good_def)
  qed
  then have "for_each (\<lambda>_. ?check) () targets = Inr ()" if "set targets \<subseteq> tb_target ` set (pt_bindings t)" for targets
    using that by (induction targets) simp_all
  then show "validatePublicationTargetBindingRevisions t = Inr ()"
    by (simp add: validatePublicationTargetBindingRevisions_def)
qed (use target_read[OF assms] attempt_read[OF assms] checkpoint_read[OF assms] in blast)+

theorem publication_reads_back_witness:
  "publication_reachable planned_target \<and> pt_attempts planned_target = [example_attempt]
   \<and> GetPublicationAttempt planned_target (at_identity example_attempt) = Inr example_attempt
   \<and> GetActivePublicationAttempt planned_target example_place = Inr example_attempt"
proof -
  have rows: "pt_attempts planned_target = [example_attempt]" by (simp add: planned_target_rows)
  have "write_active (at_phase example_attempt)" "at_target example_attempt = example_place"
    by (simp_all add: release_attempt_def write_active_def)
  then show ?thesis using publication_reads_back[OF planned_target_reachable] planned_target_reachable rows by simp
qed

subsection \<open>Objects that come back\<close>

text \<open>A terminal receipt of the target: its report was carried out and its attempt is done.\<close>

definition terminal_receipt :: "publication_tables \<Rightarrow> string \<Rightarrow> string \<Rightarrow> PublicationDeletionReceipt \<Rightarrow> bool" where
  "terminal_receipt t target i d \<longleftrightarrow>
     publicationDeletionReceiptByPathTx t (dr_report d) (po_object_path (dr_object d)) = Inr (Some d)
     \<and> (\<exists>r\<in>set (pt_reports t). \<exists>c\<in>set (pt_checkpoints t). \<exists>a\<in>set (pt_attempts t). \<exists>g\<in>set (pt_grace t).
          rp_identity r = dr_report d \<and> rp_target r = target \<and> rp_mode r = ''conditional_delete'' \<and> rp_checkpoint r \<noteq> i
          \<and> cp_identity c = rp_checkpoint r \<and> at_identity a = cp_attempt c \<and> at_phase a = PhaseDone
          \<and> gr_checkpoint g = cp_identity c \<and> gr_state g = ''deletion_verified'')"

lemma terminal_key:
  assumes "terminal_receipt t target i d"
  shows "(dr_report d, po_object_path (dr_object d)) \<in> set (live_keys t target)"
proof -
  have "d \<in> set (pt_receipts t)"
    using assms by (auto simp: terminal_receipt_def publicationDeletionReceiptByPathTx_def find_Some_iff split: option.splits if_splits)
  then show ?thesis using assms unfolding terminal_receipt_def live_keys_def by (fastforce simp: list_ex_iff)
qed

lemma deleted_collected:
  assumes "for_each (deleted_step t) acc keys = Inr deleted" and "(report, path) \<in> set keys"
    and "publicationDeletionReceiptByPathTx t report path = Inr (Some d)"
  shows "publicationObjectEvidenceKey (dr_object d) \<in> set deleted"
proof -
  have grows: "set acc \<subseteq> set deleted" if "for_each (deleted_step t) acc keys = Inr deleted" for acc keys
    using that by (induction keys arbitrary: acc) (fastforce simp: and_then_Inr_iff deleted_step_def split: prod.splits option.splits)+
  show ?thesis
    using assms
  proof (induction keys arbitrary: acc)
    case (Cons k keys)
    then obtain acc' where acc': "deleted_step t acc k = Inr acc'" "for_each (deleted_step t) acc' keys = Inr deleted"
      by (auto simp: and_then_Inr_iff)
    show ?case
    proof (cases "k = (report, path)")
      case True
      then have "publicationObjectEvidenceKey (dr_object d) \<in> set acc'" using acc'(1) Cons.prems(3) by (auto simp: deleted_step_def)
      then show ?thesis using grows[OF acc'(2)] by blast
    next
      case False
      then show ?thesis using Cons.IH[OF acc'(2)] Cons.prems by simp
    qed
  qed simp
qed

lemma applied_checkpoint_row:
  assumes "getAppliedCheckpointTx t i = Inr c"
  shows "distinct (map po_object_path (cp_inventory c)) \<and> cp_identity c = i"
proof -
  obtain d x where d: "List.find (\<lambda>c. cp_identity c = i) (pt_checkpoints t) = Some d" "c = d\<lparr>cp_applied_at := x\<rparr>"
      "validateAppliedCheckpoint c = Inr ()"
    using assms by (auto simp: getAppliedCheckpointTx_def Let_def split: option.splits if_splits)
  have "cp_identity d = i" using d(1) by (auto simp: find_Some_iff)
  moreover have "distinct (map po_object_path (cp_inventory c))"
    by (rule sorted_paths_distinct(1)) (use d(3) in \<open>auto simp: validateAppliedCheckpoint_def split: if_splits\<close>)
  ultimately show ?thesis using d(2) by simp
qed

lemma recognize_step_paths:
  assumes "recognize_step base orphans acc r = Inr acc'"
  shows "set acc' \<subseteq> set acc \<union> set orphans"
proof (cases "index_by po_object_path base (ro_path r)")
  case None
  then show ?thesis
    using assms index_by_Some[of po_object_path orphans "ro_path r"]
    by (cases "index_by po_object_path orphans (ro_path r)") (auto simp: recognize_step_def split: if_splits)
next
  case (Some prior)
  then show ?thesis using assms by (simp add: recognize_step_def split: if_splits)
qed

lemma recognized_objects:
  assumes "recognizePublicationAbandonedObjects remote base orphans = Inr objects"
  shows "set objects \<subseteq> set base \<union> set orphans"
proof -
  have steps: "set objects \<subseteq> set acc \<union> set orphans" if "for_each (recognize_step base orphans) acc remote = Inr objects" for acc objects
    using that
  proof (induction remote arbitrary: acc)
    case (Cons r remote)
    then obtain acc' where acc': "recognize_step base orphans acc r = Inr acc'" "for_each (recognize_step base orphans) acc' remote = Inr objects"
      by (auto simp: and_then_Inr_iff)
    show ?case using recognize_step_paths[OF acc'(1)] Cons.IH[OF acc'(2)] by blast
  qed simp
  obtain found where "for_each (recognize_step base orphans) base remote = Inr found" "objects = sort_key po_object_path found"
    using assms by (auto simp: recognizePublicationAbandonedObjects_def and_then_Inr_iff)
  then show ?thesis using steps[of base found] by simp
qed

lemma unlisted_path:
  assumes "map remote_entry remote = map object_entry inventory" and "map remote_entry remote = map object_entry objects" and "o' \<in> set inventory"
  shows "po_object_path o' \<in> po_object_path ` set objects"
proof -
  have "object_entry o' \<in> set (map object_entry inventory)" using assms(3) by simp
  then have "object_entry o' \<in> object_entry ` set objects" using assms(1,2) by (metis set_map)
  then show ?thesis by (auto simp: object_entry_def)
qed

text \<open>C40. An object that came back blocks its target. Once a checkpoint holds an object that an earlier,
  finished deletion of the target had removed (the same path and bytes, published again), the live
  inventory of the checkpoint leaves it out: the very listing the checkpoint recorded is refused, by a
  publication that starts afresh (unless an abandoned attempt left evidence for the path) as well as
  by the check of the applied checkpoint.\<close>

theorem republished_object_blocks:
  assumes "GetAppliedCheckpoint (w_tables w) i = Inr c" and "dr_object d \<in> set (cp_inventory c)"
    and "terminal_receipt (w_tables w) (cp_target c) i d"
    and "PublicationLiveInventory (w_tables w) i = Inr live"
    and "be_list be [] (w_remote w) = Inr remote" and "map remote_entry remote = map object_entry (cp_inventory c)"
    and "po_object_path (dr_object d) \<notin> po_object_path ` set orphans"
  shows "dr_object d \<notin> set live
    \<and> (\<exists>e. publish_fresh env be b generation manifestSHA head input plan remote live orphans w = (w, Inl e))
    \<and> verifyAppliedCheckpointInventory be w c \<noteq> Inr ()"
proof -
  have row: "getAppliedCheckpointTx (w_tables w) i = Inr c" using assms(1) by (simp add: GetAppliedCheckpoint_def split: if_splits)
  obtain deleted where deleted: "for_each (deleted_step (w_tables w)) [] (live_keys (w_tables w) (cp_target c)) = Inr deleted"
      "live = filter (\<lambda>o'. publicationObjectEvidenceKey o' \<notin> set deleted) (cp_inventory c)"
    using assms(4) row by (auto simp: PublicationLiveInventory_def and_then_Inr_iff split: if_splits)
  have gone: "dr_object d \<notin> set live"
    using deleted_collected[OF deleted(1) terminal_key[OF assms(3)]] assms(3) deleted(2) by (simp add: terminal_receipt_def)
  have unique: "distinct (map po_object_path (cp_inventory c))" "cp_identity c = i"
    using applied_checkpoint_row[OF row] by blast+
  have path: "po_object_path (dr_object d) \<notin> po_object_path ` set live"
  proof
    assume "po_object_path (dr_object d) \<in> po_object_path ` set live"
    then obtain x where "x \<in> set live" "po_object_path x = po_object_path (dr_object d)" by auto
    then show False using keyed_unique[OF unique(1) _ assms(2), of x] gone deleted(2) by auto
  qed
  have "fresh_remote remote live orphans folded plan \<noteq> Inr u" for folded u
  proof
    assume "fresh_remote remote live orphans folded plan = Inr u"
    then obtain objects where o: "recognizePublicationAbandonedObjects remote live orphans = Inr objects"
        "requireExactRemoteInventory remote objects = Inr ()"
      by (auto simp: fresh_remote_def and_then_Inr_iff)
    have "po_object_path (dr_object d) \<in> po_object_path ` set objects"
      by (rule unlisted_path[OF assms(6) _ assms(2)]) (use o(2) exact_inventory_iff in blast)
    then show False using recognized_objects[OF o(1)] path assms(7) by blast
  qed
  then obtain e where "fresh_remote remote live orphans (pe_case_insensitive env) plan = Inl e" by (meson sum.exhaust)
  then have fresh: "publish_fresh env be b generation manifestSHA head input plan remote live orphans w = (w, Inl e)"
    by (simp add: publish_fresh_def do_then_def answer_def)
  have "verifyAppliedCheckpointInventory be w c \<noteq> Inr ()"
  proof
    assume "verifyAppliedCheckpointInventory be w c = Inr ()"
    then have "requireExactRemoteInventory remote live = Inr ()"
      using assms(4,5) unique(2) by (auto simp: verifyAppliedCheckpointInventory_def and_then_Inr_iff)
    then have "map remote_entry remote = map object_entry live" using exact_inventory_iff by blast
    then show False using unlisted_path[OF assms(6) _ assms(2)] path by blast
  qed
  with gone fresh show ?thesis by blast
qed

text \<open>A target whose payload was deleted after its grace and published again: the second checkpoint holds the
  object the receipt of the first one names.\<close>

definition again_object :: PublicationObject where
  "again_object = (stored_object ''pool/a'')\<lparr>po_object_remote := replicate 64 CHR ''c''\<rparr>"

definition again_checkpoint :: AppliedCheckpoint where
  "again_checkpoint = sealed (release_checkpoint\<lparr>cp_inventory := [again_object]\<rparr>)"

definition again_receipt :: PublicationDeletionReceipt where
  "again_receipt = (let d = \<lparr>dr_identity = '''', dr_report = ''report'', dr_object = again_object, dr_storage_absent = True,
     dr_public_absent = True, dr_observed_at = zero_time\<lparr>t_year := 2026\<rparr>\<rparr> in d\<lparr>dr_identity := deletionReceiptSemanticIdentity d\<rparr>)"

definition again_attempt :: PublicationAttempt where
  "again_attempt = release_attempt\<lparr>at_identity := ''first'', at_phase := PhaseDone\<rparr>"

definition again_first :: AppliedCheckpoint where
  "again_first = again_checkpoint\<lparr>cp_identity := ''old'', cp_attempt := ''first''\<rparr>"

definition again_grace :: GraceRecord where
  "again_grace = \<lparr>gr_identity = '''', gr_schema = 1, gr_target = example_place, gr_checkpoint = ''old'', gr_verified_at = zero_time,
     gr_not_before = zero_time, gr_policy = '''', gr_state = ''deletion_verified''\<rparr>"

definition again_report :: PublicationCandidateReport where
  "again_report = \<lparr>rp_identity = ''report'', rp_schema = 1, rp_target = example_place, rp_checkpoint = ''old'', rp_inventory = '''',
     rp_mode = ''conditional_delete'', rp_candidates = [again_object], rp_created_at = zero_time\<rparr>"

definition again_tables :: publication_tables where
  "again_tables = empty_publication\<lparr>pt_attempts := [again_attempt], pt_checkpoints := [again_first, again_checkpoint],
     pt_grace := [again_grace], pt_reports := [again_report], pt_receipts := [again_receipt]\<rparr>"

lemma again_rows:
  "pt_attempts again_tables = [again_attempt]" "pt_checkpoints again_tables = [again_first, again_checkpoint]"
  "pt_grace again_tables = [again_grace]" "pt_reports again_tables = [again_report]" "pt_receipts again_tables = [again_receipt]"
  by (simp_all add: again_tables_def)

lemma again_fields:
  "at_identity again_attempt = ''first''" "at_phase again_attempt = PhaseDone"
  "cp_identity again_first = ''old''" "cp_attempt again_first = ''first''"
  "gr_checkpoint again_grace = ''old''" "gr_state again_grace = ''deletion_verified''"
  "rp_identity again_report = ''report''" "rp_target again_report = example_place" "rp_checkpoint again_report = ''old''"
  "rp_mode again_report = ''conditional_delete''"
  "dr_report again_receipt = ''report''" "dr_object again_receipt = again_object"
  "cp_target again_checkpoint = example_place" "cp_inventory again_checkpoint = [again_object]"
  by (simp_all add: again_attempt_def again_first_def again_grace_def again_report_def again_receipt_def again_checkpoint_def
      release_checkpoint_def sealed_def Let_def)

definition again_file :: stored_file where
  "again_file = \<lparr>sf_size = 3, sf_sha256 = replicate 64 CHR ''c''\<rparr>"

definition again_world :: "target_tree world" where
  "again_world = \<lparr>w_db = publication_db, w_tables = again_tables,
     w_remote = \<lparr>tt_files = [(''pool/a'', again_file)], tt_refused = (\<lambda>_. False)\<rparr>\<rparr>"

lemma again_identity: "cp_identity again_checkpoint = appliedCheckpointSemanticIdentity again_checkpoint"
  unfolding again_checkpoint_def by (rule sealed_identity)

lemma again_old: "cp_identity again_checkpoint \<noteq> ''old''" "validSHA256Text (cp_identity again_checkpoint)"
proof -
  show "validSHA256Text (cp_identity again_checkpoint)" by (simp add: again_identity)
  then show "cp_identity again_checkpoint \<noteq> ''old''" by (auto simp: validSHA256Text_def)
qed

lemma again_time: "parse_timestamp (formatTimestamp (zero_time\<lparr>t_year := 2026\<rparr>)) = Some (zero_time\<lparr>t_year := 2026\<rparr>)"
  by (rule parse_formatTimestamp) (simp add: valid_utc_def zero_time_def days_in_def)

lemma again_row: "getAppliedCheckpointTx again_tables (cp_identity again_checkpoint) = Inr again_checkpoint"
proof -
  have applied: "cp_applied_at again_checkpoint = zero_time\<lparr>t_year := 2026\<rparr>"
    by (simp add: again_checkpoint_def sealed_def Let_def release_checkpoint_def)
  have time: "read_back (cp_applied_at again_checkpoint) = Some (cp_applied_at again_checkpoint)"
    by (simp only: applied read_back_def again_time)
  have "sortedInventory [again_object]" by code_simp
  then have "validateAppliedCheckpoint again_checkpoint = Inr ()"
    using release_checkpoint_valid
    by (auto simp: validateAppliedCheckpoint_def again_checkpoint_def sealed_def Let_def split: if_splits)
  moreover have "publicationInventoryIdentity (cp_inventory again_checkpoint) = cp_inventory_identity again_checkpoint"
    by (simp add: again_checkpoint_def sealed_def Let_def)
  moreover have "List.find (\<lambda>c. cp_identity c = cp_identity again_checkpoint) (pt_checkpoints again_tables) = Some again_checkpoint"
    using again_old(1) by (simp add: again_rows again_fields(3))
  ultimately show ?thesis using time again_identity by (simp add: getAppliedCheckpointTx_def)
qed

lemma again_read: "publicationDeletionReceiptByPathTx again_tables (dr_report again_receipt) (po_object_path (dr_object again_receipt)) = Inr (Some again_receipt)"
proof -
  have "dr_observed_at again_receipt = zero_time\<lparr>t_year := 2026\<rparr>" by (simp add: again_receipt_def Let_def)
  moreover have "deletionReceiptSemanticIdentity again_receipt = dr_identity again_receipt" "dr_storage_absent again_receipt" "dr_public_absent again_receipt"
    by (simp_all add: again_receipt_def Let_def deletionReceiptSemanticIdentity_def)
  ultimately show ?thesis by (simp add: publicationDeletionReceiptByPathTx_def again_rows again_time)
qed

lemma again_terminal: "terminal_receipt again_tables (cp_target again_checkpoint) (cp_identity again_checkpoint) again_receipt"
  unfolding terminal_receipt_def again_rows
  using again_read again_old(1)[symmetric] by (simp add: again_fields)

lemma again_listing: "tree_List [] (w_remote again_world) = Inr [tree_object ''pool/a'' again_file]"
proof -
  have "public_path ''pool/a''" by code_simp
  then show ?thesis by (auto simp: tree_List_iff again_world_def tree_at_def)
qed

lemma again_live: "PublicationLiveInventory again_tables (cp_identity again_checkpoint) = Inr []"
proof -
  have "live_keys again_tables (cp_target again_checkpoint) = [(dr_report again_receipt, po_object_path (dr_object again_receipt))]"
    unfolding live_keys_def again_rows by (simp add: again_fields)
  then have "for_each (deleted_step again_tables) [] (live_keys again_tables (cp_target again_checkpoint)) = Inr [publicationObjectEvidenceKey again_object]"
    using again_read by (simp add: deleted_step_def again_fields(12))
  then show ?thesis
    using again_old(2) again_row by (simp add: PublicationLiveInventory_def again_fields(14))
qed

theorem republished_object_blocks_witness:
  "tree_List [] (w_remote again_world) = Inr [tree_object ''pool/a'' again_file]
   \<and> map remote_entry [tree_object ''pool/a'' again_file] = map object_entry (cp_inventory again_checkpoint)
   \<and> verifyAppliedCheckpointInventory (filesystem_backend None None) again_world again_checkpoint \<noteq> Inr ()"
proof -
  let ?i = "cp_identity again_checkpoint" and ?be = "filesystem_backend None None"
  have tables: "w_tables again_world = again_tables" by (simp add: again_world_def)
  have read: "GetAppliedCheckpoint (w_tables again_world) ?i = Inr again_checkpoint"
    using again_old(2) again_row by (simp add: GetAppliedCheckpoint_def tables)
  note inventory = again_fields(14,12)
  have entries: "map remote_entry [tree_object ''pool/a'' again_file] = map object_entry (cp_inventory again_checkpoint)"
    by (simp add: inventory remote_entry_def object_entry_def tree_object_def again_file_def again_object_def stored_object_def)
  have listed: "be_list ?be [] (w_remote again_world) = Inr [tree_object ''pool/a'' again_file]"
    using again_listing by (simp add: filesystem_backend_def)
  have "verifyAppliedCheckpointInventory ?be again_world again_checkpoint \<noteq> Inr ()"
    using republished_object_blocks[OF read _ again_terminal[folded tables] again_live[folded tables] listed entries, of "[]"] inventory by simp
  then show ?thesis using again_listing entries by blast
qed

end
