(* ===== verification/Spec2Isabelle.thy ===== *)
theory Spec2Isabelle
  imports Layout_Transition Desired_Invariant Policy Publish_Completes Publication_Readback
begin

section \<open>A verification development for sow\<close>

text \<open>
  Sow keeps RPM and Debian package repositories: a SQLite database per repository records what the
  operator wants in each dist, what was built and what was published; every build adds one
  generation, an immutable manifest of files, to a ledger; a publication carries a generation to a
  storage target so that clients never see half of it. This development models the program's own
  core in HOL, definition by definition after the Go sources under \<open>src/\<close>, and proves what makes
  that core correct.

  \<^bold>\<open>How the sources are represented.\<close> A Go string is a list of bytes ordered bytewise; an error is a
  message with the sentinels \<open>errors.Is\<close> can find in it; a function that returns an error returns a
  sum; a loop with an early return is \<open>for_each\<close>. A struct is a record, an enumerated string that
  a table constrains is a datatype. A SQLite database is the record \<open>database\<close> of \<open>Store\<close>: one list
  of rows per table, in the order of their keys where the queries say \<open>ORDER BY\<close>; constraints and
  foreign keys that a statement can violate are branches that fail. A transaction is a function
  from the database to a new one or an error; \<open>commit\<close> keeps the old database on an error. Clock
  readings and identifiers drawn at random are arguments. Where Go visits a map in any order the
  model either takes the order as an argument and proves that it does not matter, or works on the
  list of entries when the code sorts them by a key that separates them.

  \<^bold>\<open>The theories.\<close>
  \<^item> \<open>Sow_Prelude\<close>, \<open>Sow_Codec\<close>: the shared vocabulary (strings, decimal numerals, errors, loops) and the
    interfaces \<open>codec\<close>, \<open>canonical_codec\<close> and \<open>phase_machine\<close>, interpreted in the theories of their
    providers.
  \<^item> \<open>Go_Path\<close>, \<open>Go_Json\<close>, \<open>Go_Time\<close>, \<open>Go_Strings\<close>, \<open>Sha256\<close>, \<open>Json_Object\<close>: what the sources use of Go's
    library (\<open>path.Clean\<close>, \<open>path.Match\<close>, JSON text and its scanner, UTC timestamps, SHA-256).
  \<^item> \<open>Generation_Id\<close> (\<open>state/generation_id.go\<close>): 64-bit generation numbers, their one spelling, their
    successor, which fails instead of wrapping.
  \<^item> \<open>Manifest\<close> (\<open>state/generations.go\<close>): manifests, their normal form and canonical bytes, and the
    delta of two manifests.
  \<^item> \<open>Publication_Plan\<close> (\<open>state/publication_plan.go\<close>): the ordered plan that turns one published
    generation into the next.
  \<^item> \<open>Store\<close>, \<open>Operation_Log\<close> (\<open>state/state.go\<close>, \<open>time_witness.go\<close>, \<open>repository.go\<close>): the database, the
    clock witness, operations with their state machine and event histories.
  \<^item> \<open>Generation_Ledger\<close>, \<open>Dist_State\<close>, \<open>Ledger_Invariant\<close> (\<open>state/generations.go\<close>, \<open>state.go\<close>): the ledger
    and its validator, dists, and the transactions that finish a build or add a dist.
  \<^item> \<open>Layout_Transition\<close> (\<open>state/state.go\<close>, \<open>generations.go\<close>): the migration of the physical layout with
    its control row, and the bootstrap of a ledger for an old repository.
  \<^item> \<open>Pool_Paths\<close>, \<open>Package_Objects\<close>, \<open>Desired_State\<close>, \<open>Desired_Invariant\<close> (\<open>state/pool_paths.go\<close>,
    \<open>objects.go\<close>): packages, the bytes a pool path stands for, and the change of desired sets.
  \<^item> \<open>Rpm_Version\<close>, \<open>Policy\<close> (\<open>third_party/cavaliergopher-rpm/version.go\<close>, \<open>yumrepo/rpm.go\<close>,
    \<open>managed/policy.go\<close>, \<open>config/config.go\<close>): the order of RPM versions, and the policy that selects
    which candidate packages a dist keeps.
  \<^item> \<open>Publication_Store\<close>, \<open>Publication_Attempts\<close>, \<open>Publication_Checkpoints\<close> (\<open>state/publication.go\<close>): the
    tables of the publications: targets, attempts with their phases and views, checkpoints, grace
    records, candidate reports, deletion receipts, and every transaction on them.
    \<open>Publication_Invariant\<close>: the step relation of those transactions and the invariant of the states
    they reach. \<open>Publication_Protocol\<close>, \<open>Publication_Properties\<close>: the order in which a publication makes
    the calls, and what holds of every history of calls. \<open>Publication_Read\<close>
    (\<open>state/publication_read.go\<close>): the queries. \<open>Publication_Readback\<close>: their checks accept what the
    store can hold, and a deleted object that is published again is left out of the live inventory.
  \<^item> \<open>Publish_Inventory\<close> (\<open>managed/publication.go\<close>): how the listing of a target is compared with the old
    inventory, the new generation and the objects of abandoned attempts.
  \<^item> \<open>Target_Tree\<close> (\<open>managed/publication_filesystem.go\<close>): the interface \<open>publicationBackend\<close> and the
    directory tree that provides it, with the staged compare-and-swap write; the locale
    \<open>publication_target\<close> states what the workflow needs of any target and the tree interprets it.
  \<^item> \<open>Go_Duration\<close>: Go's arithmetic of times and durations, which the grace period needs.
  \<^item> \<open>Publish_Workflow\<close> (\<open>managed/publication.go\<close>, \<open>publication_gc_target.go\<close>): the commands \<open>Publish\<close>,
    \<open>AbandonPublication\<close> and \<open>TargetGC\<close> as programs over the database, the publication tables and a
    target. \<open>Publish_Properties\<close>, \<open>Publish_Completes\<close>: what holds at every point of a publication, that it
    completes, and what it has achieved then.

  \<^bold>\<open>What is shown.\<close> Executing a plan reaches the target manifest, and at every point of it no pointer
  refers to content that is not there and no file of the base is gone before its time. The
  validator of the generation ledger accepts the database after every transaction that extends the
  ledger. Histories of operations are dense, legal and final. A layout transition is committed
  once, after its grace period, and never undone. Packages keep one digest, one coordinate and one
  path under every change of desired sets, and a change does exactly what it was asked. The history
  of every publication target is one chain of checkpoints, each holding the whole manifest it names;
  attempts follow one phase machine, end, and can be resumed from every state. At whatever point a
  publication stops, readers of the target see no index before what it points to and the next run
  accepts what is there; run to its end it leaves exactly the generation. A report of candidates names
  exactly the objects nothing refers to. The policy
  keeps the newest versions and is independent of every order the program leaves open. Spellings
  (generation numbers, timestamps, manifests, plans) are canonical.

  \<^bold>\<open>Fuel and termination.\<close> Every loop of the model terminates by a measure or is structural, except the
  scanner of JSON text and the matcher of shell patterns, which carry fuel; both have lemmas that
  more fuel than the text has bytes changes nothing, and both are started with that much.

  \<^bold>\<open>Digests.\<close> \<open>Sha256\<close> computes the digests, and no theorem assumes that they do not collide. Where a
  collision could matter (the checkpoint of a verified attempt, the two records that close a
  publication) the conclusion names it: the digest of the very record the run computes already
  identifies a stored record of something else.

  \<^bold>\<open>Parameters.\<close> Parsing and comparing Debian versions is done by a package outside the repository:
  \<open>Policy\<close> takes both as arguments and assumes of the comparison only that it is a total preorder
  (locale \<open>comparison\<close>). The answer of the SQLite checkpoint after a commit is an argument. What the
  publication commands take from the configuration, the file system of the repository and the
  recovery of unfinished builds are the fields of the record \<open>publish_env\<close>; an upload reads the
  repository through \<open>source_tree\<close>. A target is a directory tree of files with their sizes and digests
  in which any set of paths may be out of reach; any other backend is covered by the laws of the
  locale \<open>publication_target\<close>.

  \<^bold>\<open>Not modelled.\<close> Reading and rendering of package formats (\<open>aptrepo\<close>, \<open>yumrepo\<close> except the version
  order), OpenPGP, HTTP and object storage, file system work, locking and crash journals of the
  managed workflows, the plain mode, the command line and its output: their results depend on bytes
  and system calls outside the model. The components of the manifest list them with the reason.
\<close>

end
